(* ===== verification/Prelude.thy ===== *)
theory Prelude
  imports Main
begin

text \<open>
  Shared vocabulary of the development: the parts of Go's \<open>strings\<close> and \<open>strconv\<close> packages
  that the modelled code calls, and the SQL idioms of its stores (a table is the list of its
  rows in insertion order, \<open>UPDATE .. WHERE\<close> and \<open>DELETE .. WHERE\<close> are functions on it).

  A Go string is a sequence of bytes and so is a HOL \<^typ>\<open>string\<close>.  Case folding and trimming
  are those of Go on ASCII text; the Unicode case pairs of other code points are not modelled.
\<close>

named_theorems tbl "rewrite rules for tables: lookups after updates, inserts and deletes"

section \<open>Strings\<close>

definition lower_char :: "char \<Rightarrow> char" where
  "lower_char c = (let n = (of_char c :: nat) in if 65 \<le> n \<and> n \<le> 90 then char_of (n + 32) else c)"

definition upper_char :: "char \<Rightarrow> char" where
  "upper_char c = (let n = (of_char c :: nat) in if 97 \<le> n \<and> n \<le> 122 then char_of (n - 32) else c)"

definition ToLower :: "string \<Rightarrow> string" where
  "ToLower s = map lower_char s"

definition ToUpper :: "string \<Rightarrow> string" where
  "ToUpper s = map upper_char s"

definition EqualFold :: "string \<Rightarrow> string \<Rightarrow> bool" where
  "EqualFold a b \<longleftrightarrow> ToLower a = ToLower b"

definition is_space :: "char \<Rightarrow> bool" where
  "is_space c \<longleftrightarrow> (let n = (of_char c :: nat) in n = 32 \<or> (9 \<le> n \<and> n \<le> 13))"

definition TrimSpace :: "string \<Rightarrow> string" where
  "TrimSpace s = rev (dropWhile is_space (rev (dropWhile is_space s)))"

definition is_digit :: "char \<Rightarrow> bool" where
  "is_digit c \<longleftrightarrow> (let n = (of_char c :: nat) in 48 \<le> n \<and> n \<le> 57)"

definition digit_val :: "char \<Rightarrow> int" where
  "digit_val c = int (of_char c) - 48"

text \<open>\<open>strings.Split\<close> with a one-byte separator; the empty string gives one empty field.\<close>

fun split_on :: "char \<Rightarrow> string \<Rightarrow> string list" where
  "split_on sep [] = [[]]"
| "split_on sep (c # cs) =
     (if c = sep then [] # split_on sep cs
      else case split_on sep cs of [] \<Rightarrow> [[c]] | w # ws \<Rightarrow> (c # w) # ws)"

fun join_with :: "string \<Rightarrow> string list \<Rightarrow> string" where
  "join_with sep [] = []"
| "join_with sep [x] = x"
| "join_with sep (x # y # ys) = x @ sep @ join_with sep (y # ys)"

text \<open>\<open>strings.LastIndex\<close> of a one-byte pattern; \<^const>\<open>None\<close> stands for -1.\<close>

fun last_index :: "char \<Rightarrow> string \<Rightarrow> nat option" where
  "last_index c [] = None"
| "last_index c (x # xs) =
     (case last_index c xs of
        Some i \<Rightarrow> Some (Suc i)
      | None \<Rightarrow> if x = c then Some 0 else None)"

text \<open>\<open>strings.CutPrefix\<close>.\<close>

fun cut_prefix :: "string \<Rightarrow> string \<Rightarrow> string option" where
  "cut_prefix [] s = Some s"
| "cut_prefix (p # ps) [] = None"
| "cut_prefix (p # ps) (c # cs) = (if p = c then cut_prefix ps cs else None)"

text \<open>\<open>strconv.Atoi\<close>: an optional sign, at least one digit, the range of a 64-bit integer.\<close>

fun digits_val :: "int \<Rightarrow> string \<Rightarrow> int" where
  "digits_val acc [] = acc"
| "digits_val acc (c # cs) = digits_val (10 * acc + digit_val c) cs"

definition max_int64 :: int where "max_int64 = 9223372036854775807"
definition min_int64 :: int where "min_int64 = - 9223372036854775808"

definition Atoi :: "string \<Rightarrow> int option" where
  "Atoi s =
     (let neg = (case s of c # _ \<Rightarrow> c = CHR ''-'' | [] \<Rightarrow> False);
          body = (case s of c # cs \<Rightarrow> if c = CHR ''-'' \<or> c = CHR ''+'' then cs else s | [] \<Rightarrow> []);
          v = digits_val 0 body; n = (if neg then - v else v)
      in if body = [] \<or> \<not> list_all is_digit body then None
         else if n < min_int64 \<or> max_int64 < n then None else Some n)"

lemma last_index_None: "last_index c s = None \<longleftrightarrow> c \<notin> set s"
  by (induction s) (auto split: option.splits)

lemma last_index_absent [simp]: "c \<notin> set s \<Longrightarrow> last_index c s = None"
  by (simp add: last_index_None)

lemma last_index_append: "c \<notin> set t \<Longrightarrow> last_index c (s @ c # t) = Some (length s)"
proof (induction s)
  case Nil
  then have "last_index c t = None" by simp
  then show ?case by simp
next
  case (Cons x s)
  then show ?case by simp
qed

lemma last_index_SomeD:
  "last_index c s = Some i \<Longrightarrow> i < length s \<and> s ! i = c \<and> c \<notin> set (drop (Suc i) s)"
proof (induction s arbitrary: i)
  case Nil
  then show ?case by simp
next
  case (Cons x s)
  show ?case
  proof (cases "last_index c s")
    case None
    then have "c \<notin> set s" by (simp add: last_index_None)
    with Cons.prems None show ?thesis by (auto split: if_splits)
  next
    case (Some j)
    with Cons.prems have "i = Suc j" by simp
    with Cons.IH [OF Some] show ?thesis by simp
  qed
qed

lemma split_on_not_Nil [simp]: "split_on sep s \<noteq> []"
  by (induction s) (auto split: list.splits)

lemma join_split: "join_with [sep] (split_on sep s) = s"
proof (induction s)
  case Nil
  then show ?case by simp
next
  case (Cons c s)
  obtain w ws where ws: "split_on sep s = w # ws"
    by (cases "split_on sep s") auto
  show ?case
    using Cons.IH ws by (cases ws) auto
qed

section \<open>Tables\<close>

text \<open>
  \<open>row_of key k t\<close> is \<open>SELECT .. WHERE key = k\<close> on a primary key, \<open>update_where p f t\<close> is
  \<open>UPDATE .. SET .. WHERE p\<close>, \<open>delete_where p t\<close> is \<open>DELETE .. WHERE p\<close> and
  \<open>count_where p t\<close> is \<open>SELECT COUNT(*) .. WHERE p\<close>.
\<close>

definition row_of :: "('r \<Rightarrow> 'k) \<Rightarrow> 'k \<Rightarrow> 'r list \<Rightarrow> 'r option" where
  "row_of key k t = List.find (\<lambda>r. key r = k) t"

definition update_where :: "('r \<Rightarrow> bool) \<Rightarrow> ('r \<Rightarrow> 'r) \<Rightarrow> 'r list \<Rightarrow> 'r list" where
  "update_where p f t = map (\<lambda>r. if p r then f r else r) t"

definition delete_where :: "('r \<Rightarrow> bool) \<Rightarrow> 'r list \<Rightarrow> 'r list" where
  "delete_where p t = filter (\<lambda>r. \<not> p r) t"

definition count_where :: "('r \<Rightarrow> bool) \<Rightarrow> 'r list \<Rightarrow> nat" where
  "count_where p t = length (filter p t)"

definition keys_distinct :: "('r \<Rightarrow> 'k) \<Rightarrow> 'r list \<Rightarrow> bool" where
  "keys_distinct key t \<longleftrightarrow> distinct (map key t)"

lemma row_of_Nil [simp, tbl]: "row_of key k [] = None"
  by (simp add: row_of_def)

lemma row_of_Cons: "row_of key k (r # t) = (if key r = k then Some r else row_of key k t)"
  by (simp add: row_of_def)

lemma row_of_None: "row_of key k t = None \<longleftrightarrow> k \<notin> key ` set t"
  by (auto simp: row_of_def find_None_iff)

lemma row_of_SomeD: "row_of key k t = Some r \<Longrightarrow> r \<in> set t \<and> key r = k"
  by (auto simp: row_of_def find_Some_iff)

lemma row_of_in_set:
  "keys_distinct key t \<Longrightarrow> r \<in> set t \<Longrightarrow> row_of key (key r) t = Some r"
proof (induction t)
  case Nil
  then show ?case by simp
next
  case (Cons x t)
  then show ?case by (force simp: row_of_Cons keys_distinct_def)
qed

lemma update_where_Nil [simp, tbl]: "update_where p f [] = []"
  by (simp add: update_where_def)

lemma update_where_Cons: "update_where p f (r # t) = (if p r then f r else r) # update_where p f t"
  by (simp add: update_where_def)

lemma length_update_where [simp]: "length (update_where p f t) = length t"
  by (simp add: update_where_def)

lemma set_update_where: "set (update_where p f t) = (\<lambda>r. if p r then f r else r) ` set t"
  by (simp add: update_where_def)

lemma row_of_update_where [tbl]:
  assumes "\<And>r. p r \<Longrightarrow> key (f r) = key r"
  shows "row_of key k (update_where p f t) = map_option (\<lambda>r. if p r then f r else r) (row_of key k t)"
  by (induction t) (auto simp: row_of_Cons update_where_Cons assms)

lemma keys_update_where:
  assumes "\<And>r. p r \<Longrightarrow> key (f r) = key r"
  shows "map key (update_where p f t) = map key t"
  by (induction t) (auto simp: update_where_Cons assms)

lemma keys_distinct_update_where [tbl]:
  assumes "\<And>r. p r \<Longrightarrow> key (f r) = key r"
  shows "keys_distinct key (update_where p f t) = keys_distinct key t"
  using keys_update_where [of p key f t, OF assms] by (simp add: keys_distinct_def)

lemma row_of_append [tbl]:
  "row_of key k (t @ u) = (case row_of key k t of None \<Rightarrow> row_of key k u | Some r \<Rightarrow> Some r)"
  by (induction t) (auto simp: row_of_Cons)

lemma keys_distinct_snoc [tbl]:
  "keys_distinct key (t @ [r]) \<longleftrightarrow> keys_distinct key t \<and> row_of key (key r) t = None"
  by (auto simp: keys_distinct_def row_of_None)

lemma row_of_delete_where [tbl]:
  assumes "\<And>r. key r = k \<Longrightarrow> \<not> p r"
  shows "row_of key k (delete_where p t) = row_of key k t"
  by (induction t) (auto simp: row_of_Cons delete_where_def assms)

lemma keys_distinct_delete_where [tbl]: "keys_distinct key t \<Longrightarrow> keys_distinct key (delete_where p t)"
  by (simp add: keys_distinct_def delete_where_def distinct_map_filter)

lemma count_where_Cons: "count_where p (r # t) = (if p r then Suc (count_where p t) else count_where p t)"
  by (simp add: count_where_def)

lemma count_where_append [tbl]: "count_where p (t @ u) = count_where p t + count_where p u"
  by (simp add: count_where_def)

lemma count_where_zero: "count_where p t = 0 \<longleftrightarrow> (\<forall>r\<in>set t. \<not> p r)"
  by (auto simp: count_where_def filter_empty_conv)

lemma count_where_update_le:
  assumes "\<And>r. q r \<Longrightarrow> p (f r) \<Longrightarrow> p r"
  shows "count_where p (update_where q f t) \<le> count_where p t"
  by (induction t) (simp add: count_where_def, auto simp: count_where_Cons update_where_Cons dest: assms)

lemma count_where_update_same:
  assumes "\<And>r. q r \<Longrightarrow> p (f r) = p r"
  shows "count_where p (update_where q f t) = count_where p t"
  by (induction t) (simp add: count_where_def, auto simp: count_where_Cons update_where_Cons assms)

section \<open>Lists\<close>

lemma list_all_filter_id: "list_all p xs \<Longrightarrow> filter p xs = xs"
  by (induction xs) auto

lemma nth_list_update_cases: "i < length xs \<Longrightarrow> xs[i := x] ! j = (if i = j then x else xs ! j)"
  by (auto simp: nth_list_update)

end
