(* ===== verification/DomainModel.thy ===== *)
theory DomainModel
  imports Prelude
begin

text \<open>
  The canonical model of \<open>server/internal/domain/model.go\<close>: job definitions, their schedules,
  On/Do rules and boolean entry logic.  A Go string type whose constants are not enforced by the
  YAML loader (\<open>EdgeCondition\<close>, \<open>DateRef\<close>, operator names) stays a string here, with the
  source's constants as abbreviations, because the code has a branch for every other value.
  The instance statuses are a datatype; \<open>StatusOther\<close> stands for a string that is none of the
  constants.  A Go map with string keys is an association list with distinct keys; a nil pointer is
  \<^const>\<open>None\<close>.  Integers are unbounded: no operation of these records computes near \<open>2 ^ 63\<close>,
  except the resource quantities, which have their own theory.
\<close>

section \<open>Parameter values\<close>

text \<open>\<open>interface{}\<close> values of \<open>params\<close> as the YAML and JSON decoders produce them.\<close>

datatype goval =
    GoNull
  | GoString string
  | GoBool bool
  | GoInt int
  | GoFloat "int option"  \<comment> \<open>\<^const>\<open>None\<close>: a float that is no integer\<close>
  | GoMap "(string \<times> goval) list"
  | GoArray "goval list"

section \<open>Edges, schedules and calendars\<close>

type_synonym EdgeCondition = string

abbreviation CondOnSuccess :: EdgeCondition where "CondOnSuccess \<equiv> ''on-success''"
abbreviation CondOnFailure :: EdgeCondition where "CondOnFailure \<equiv> ''on-failure''"
abbreviation CondOnComplete :: EdgeCondition where "CondOnComplete \<equiv> ''on-complete''"
abbreviation CondAlways :: EdgeCondition where "CondAlways \<equiv> ''always''"

type_synonym DateRef = string

abbreviation DateRefOdat :: DateRef where "DateRefOdat \<equiv> ''odat''"
abbreviation DateRefPrev :: DateRef where "DateRefPrev \<equiv> ''prev''"
abbreviation DateRefStat :: DateRef where "DateRefStat \<equiv> ''stat''"

record Upstream =
  From :: string
  Condition :: EdgeCondition
  DateRefOf :: DateRef

record Schedule =
  Enabled :: bool
  Description :: string
  RunAt :: string
  WindowFrom :: string
  WindowTo :: string
  Cyclic :: bool
  IntervalMin :: int
  CyclicMaxRuns :: int
  KeepActive :: int
  Frequency :: string
  DaysOfWeek :: "string list"
  DaysOfMonth :: "int list"
  NthBusinessDays :: "int list"
  MonthsOfYear :: "int list"
  AdvancedRule :: string
  Shift :: string
  CronExpression :: string

record CalendarRef =
  RefName :: string
  RefMode :: string

record Calendar =
  CalName :: string
  BusinessDays :: "string list"
  Holidays :: "string list"
  IncludeDates :: "string list"
  ExcludeDates :: "string list"
  CalTimezone :: string

text \<open>\<open>businessclock.Calendar\<close>: the zone and the rollover time frozen into an order.\<close>

record BizCalendar =
  Timezone :: string
  DailyAt :: string

section \<open>On/Do rules and entry logic\<close>

record ActionRule =
  On :: string
  RuleStatus :: string
  ExitCodes :: string
  AttemptNo :: int
  AfterMin :: int
  Do :: string
  Message :: string
  RuleSeverity :: string
  Channels :: "string list"
  RuleCondition :: string
  TargetJob :: string

record CondGroup =
  GroupOp :: string
  Members :: "string list"

record ConditionLogic =
  LogicOp :: string
  Groups :: "CondGroup list"

record SubWorkflowRef =
  SubFolder :: string
  SubVariables :: "(string \<times> string) list"

record SLASpec =
  ExpectedDurationMin :: int
  DeadlineHM :: string
  SLASeverity :: string
  WebhookURL :: string

section \<open>Job definitions\<close>

record JobDefinition =
  BusinessTime :: "BizCalendar option"
  ID :: string
  Label :: string
  Team :: string
  JobType :: string
  ScheduleOf :: Schedule
  Retries :: int
  Timeout :: int
  DryRun :: bool
  UpstreamOf :: "Upstream list"
  RetryDelayMin :: int
  SelfService :: bool
  Params :: "(string \<times> goval) list option"
  AgentID :: string
  Confirm :: bool
  CalendarName :: string
  Calendars :: "CalendarRef list"
  ResourcesOf :: "(string \<times> int) list"
  ConditionsIn :: "string list"
  ConditionsOutAdd :: "string list"
  ConditionsOutRemove :: "string list"
  ConditionLogicOf :: "ConditionLogic option"
  SubWorkflow :: "SubWorkflowRef option"
  Variables :: "(string \<times> string) list"
  SLA :: "SLASpec option"
  Environment :: string
  Actions :: "ActionRule list"

section \<open>Instance statuses\<close>

datatype InstanceStatus =
    StatusUncertain | StatusWaiting | StatusRunning | StatusOK | StatusNotOK
  | StatusHeld | StatusCancelled | StatusSLABreach | StatusOther string

fun status_string :: "InstanceStatus \<Rightarrow> string" where
  "status_string StatusUncertain = ''UNCERTAIN''"
| "status_string StatusWaiting = ''WAITING''"
| "status_string StatusRunning = ''RUNNING''"
| "status_string StatusOK = ''OK''"
| "status_string StatusNotOK = ''NOTOK''"
| "status_string StatusHeld = ''HELD''"
| "status_string StatusCancelled = ''CANCELLED''"
| "status_string StatusSLABreach = ''SLA_BREACH''"
| "status_string (StatusOther s) = s"

text \<open>Zero values, as a Go composite literal leaves the fields it does not name.\<close>

definition zero_rule :: ActionRule where
  "zero_rule = \<lparr>On = [], RuleStatus = [], ExitCodes = [], AttemptNo = 0, AfterMin = 0, Do = [],
     Message = [], RuleSeverity = [], Channels = [], RuleCondition = [], TargetJob = []\<rparr>"

definition zero_schedule :: Schedule where
  "zero_schedule = \<lparr>Enabled = False, Description = [], RunAt = [], WindowFrom = [], WindowTo = [],
     Cyclic = False, IntervalMin = 0, CyclicMaxRuns = 0, KeepActive = 0, Frequency = [],
     DaysOfWeek = [], DaysOfMonth = [], NthBusinessDays = [], MonthsOfYear = [], AdvancedRule = [],
     Shift = [], CronExpression = []\<rparr>"

definition zero_def :: JobDefinition where
  "zero_def = \<lparr>BusinessTime = None, ID = [], Label = [], Team = [], JobType = [],
     ScheduleOf = zero_schedule, Retries = 0, Timeout = 0, DryRun = False, UpstreamOf = [],
     RetryDelayMin = 0, SelfService = False, Params = None, AgentID = [], Confirm = False,
     CalendarName = [], Calendars = [], ResourcesOf = [], ConditionsIn = [], ConditionsOutAdd = [],
     ConditionsOutRemove = [], ConditionLogicOf = None, SubWorkflow = None, Variables = [],
     SLA = None, Environment = [], Actions = []\<rparr>"

end
