(* ===== verification/Conditions.thy ===== *)
theory Conditions
  imports DomainModel
begin

text \<open>
  The dependency model of \<open>server/internal/domain/conditions.go\<close>: condition references with a
  date suffix, the expansion of legacy \<open>upstream\<close> edges into explicit conditions, the derived
  topology view, and the boolean entry logic in disjunctive normal form.

  The code mutates a slice of definitions through pointers.  Here the slice is a list, a pointer
  into it is an index, and \<open>by_id\<close> is the map \<open>byID\<close> (the last definition with an ID wins, as in
  a Go map filled in slice order).
\<close>

section \<open>Condition references\<close>

definition SplitCondRef :: "string \<Rightarrow> string \<times> DateRef" where
  "SplitCondRef name =
     (case last_index (CHR ''@'') name of
        Some i \<Rightarrow>
          if i > 0 then
            (let s = ToLower (drop (Suc i) name) in
             if s = ''odat'' then (take i name, DateRefOdat)
             else if s = ''prev'' then (take i name, DateRefPrev)
             else if s = ''stat'' then (take i name, DateRefStat)
             else (name, DateRefOdat))
          else (name, DateRefOdat)
      | None \<Rightarrow> (name, DateRefOdat))"

definition WithCondRef :: "string \<Rightarrow> DateRef \<Rightarrow> string" where
  "WithCondRef base ref =
     (if ref = [] \<or> ref = DateRefOdat then base else base @ ''@'' @ ref)"

definition LinkCondName :: "string \<Rightarrow> string \<Rightarrow> string" where
  "LinkCondName fromID toID = ToUpper (fromID @ ''-TO-'' @ toID)"

definition cond_base :: "string \<Rightarrow> string" where
  "cond_base name = fst (SplitCondRef name)"

definition producesBase :: "JobDefinition \<Rightarrow> string \<Rightarrow> bool" where
  "producesBase d b \<longleftrightarrow>
     list_ex (\<lambda>n. cond_base n = b) (ConditionsOutAdd d) \<or>
     list_ex (\<lambda>a. Do a = ''set-condition'' \<and> RuleCondition a \<noteq> [] \<and> cond_base (RuleCondition a) = b)
       (Actions d)"

definition containsStr :: "string list \<Rightarrow> string \<Rightarrow> bool" where
  "containsStr xs s \<longleftrightarrow> list_ex (\<lambda>x. x = s) xs"

definition alreadyLinked :: "JobDefinition \<Rightarrow> JobDefinition \<Rightarrow> bool" where
  "alreadyLinked p c \<longleftrightarrow> list_ex (\<lambda>n. producesBase p (cond_base n)) (ConditionsIn c)"

section \<open>Expansion of legacy edges\<close>

definition append_missing :: "string list \<Rightarrow> string \<Rightarrow> string list" where
  "append_missing xs s = (if containsStr xs s then xs else xs @ [s])"

definition notok_rule :: "string \<Rightarrow> ActionRule" where
  "notok_rule name = zero_rule\<lparr>On := ''result'', RuleStatus := status_string StatusNotOK,
     Do := ''set-condition'', RuleCondition := name\<rparr>"

definition addNotOKSetCondition :: "JobDefinition \<Rightarrow> string \<Rightarrow> JobDefinition" where
  "addNotOKSetCondition p name =
     (if list_ex (\<lambda>a. Do a = ''set-condition'' \<and> RuleCondition a = name \<and> On a = ''result'' \<and>
           RuleStatus a = status_string StatusNotOK) (Actions p)
      then p else p\<lparr>Actions := Actions p @ [notok_rule name]\<rparr>)"

definition add_out :: "JobDefinition \<Rightarrow> string \<Rightarrow> JobDefinition" where
  "add_out p name = p\<lparr>ConditionsOutAdd := append_missing (ConditionsOutAdd p) name\<rparr>"

definition by_id :: "JobDefinition list \<Rightarrow> string \<Rightarrow> nat option" where
  "by_id defs k = List.find (\<lambda>i. ID (defs ! i) = k) (rev [0..<length defs])"

text \<open>The producer's side of one edge: which output the parent gets for its edge condition.\<close>

definition arm_producer :: "JobDefinition \<Rightarrow> EdgeCondition \<Rightarrow> string \<Rightarrow> JobDefinition" where
  "arm_producer p cond prodName =
     (if cond = CondOnFailure then addNotOKSetCondition p prodName
      else if cond = CondOnComplete then addNotOKSetCondition (add_out p prodName) prodName
      else add_out p prodName)"

definition arm_consumer :: "JobDefinition \<Rightarrow> string \<Rightarrow> JobDefinition" where
  "arm_consumer c suffixed =
     c\<lparr>ConditionsIn := append_missing (ConditionsIn c) suffixed,
       ConditionsOutRemove := append_missing (ConditionsOutRemove c) suffixed\<rparr>"

definition expand_edge :: "nat \<Rightarrow> JobDefinition list \<Rightarrow> Upstream \<Rightarrow> JobDefinition list" where
  "expand_edge ci defs u =
     (let c = defs ! ci in
      if From u = [] \<or> From u = ID c then defs
      else case by_id defs (From u) of
        None \<Rightarrow> defs
      | Some pi \<Rightarrow>
          (let p = defs ! pi;
               name = LinkCondName (From u) (ID c);
               suffixed = WithCondRef name (DateRefOf u);
               prodName = (if DateRefOf u = DateRefStat then WithCondRef name DateRefStat else name)
           in if alreadyLinked p c \<or> Condition u = CondAlways then defs
              else defs[pi := arm_producer p (Condition u) prodName, ci := arm_consumer c suffixed]))"

definition expandLegacyUpstream :: "JobDefinition list \<Rightarrow> nat \<Rightarrow> JobDefinition list" where
  "expandLegacyUpstream defs ci = foldl (expand_edge ci) defs (UpstreamOf (defs ! ci))"

section \<open>The derived topology view\<close>

definition view_edge :: "string \<Rightarrow> DateRef \<Rightarrow> Upstream" where
  "view_edge from ref =
     \<lparr>From = from, Condition = CondOnSuccess,
       DateRefOf = (if ref = DateRefOdat then [] else ref)\<rparr>"

text \<open>The set \<open>seen\<close> of the source is the set of origins of the edges collected so far.\<close>

fun derive_from :: "string \<Rightarrow> string \<Rightarrow> DateRef \<Rightarrow> JobDefinition list \<Rightarrow> Upstream list \<Rightarrow> Upstream list" where
  "derive_from cid b ref [] acc = acc"
| "derive_from cid b ref (p # ps) acc =
     (if ID p = cid \<or> list_ex (\<lambda>e. From e = ID p) acc \<or> \<not> producesBase p b
      then derive_from cid b ref ps acc
      else derive_from cid b ref ps (acc @ [view_edge (ID p) ref]))"

fun derive_edges :: "string \<Rightarrow> string list \<Rightarrow> JobDefinition list \<Rightarrow> Upstream list \<Rightarrow> Upstream list" where
  "derive_edges cid [] defs acc = acc"
| "derive_edges cid (n # ns) defs acc =
     (let (b, ref) = SplitCondRef n in derive_edges cid ns defs (derive_from cid b ref defs acc))"

definition deriveUpstreamView :: "JobDefinition \<Rightarrow> JobDefinition list \<Rightarrow> JobDefinition" where
  "deriveUpstreamView c defs = c\<lparr>UpstreamOf := derive_edges (ID c) (ConditionsIn c) defs []\<rparr>"

section \<open>Boolean entry logic\<close>

abbreviation CondOpAnd :: string where "CondOpAnd \<equiv> ''AND''"
abbreviation CondOpOr :: string where "CondOpOr \<equiv> ''OR''"
abbreviation CondTokenTime :: string where "CondTokenTime \<equiv> ''$TIME''"

definition UsesTimeToken :: "ConditionLogic option \<Rightarrow> bool" where
  "UsesTimeToken l =
     (case l of None \<Rightarrow> False
      | Some l \<Rightarrow> list_ex (\<lambda>g. list_ex (\<lambda>m. m = CondTokenTime) (Members g)) (Groups l))"

definition normCondOp :: "string \<Rightarrow> string" where
  "normCondOp op = (if EqualFold op CondOpOr then CondOpOr else CondOpAnd)"

record CondGroupEval =
  EvOp :: string
  EvMembers :: "string list"
  Unmet :: "string list"
  GroupSatisfied :: bool
  Required :: bool

record CondLogicEval =
  TopOp :: string
  EvGroups :: "CondGroupEval list"
  Satisfied :: bool

definition evalGroup :: "CondGroup \<Rightarrow> (string \<Rightarrow> bool) \<Rightarrow> CondGroupEval" where
  "evalGroup g sat =
     (let gop = normCondOp (GroupOp g) in
      \<lparr>EvOp = gop, EvMembers = Members g, Unmet = filter (\<lambda>m. \<not> sat m) (Members g),
       GroupSatisfied =
         (if Members g = [] then True
          else if gop = CondOpOr then list_ex sat (Members g)
          else list_all sat (Members g)),
       Required = False\<rparr>)"

definition looseMembers :: "ConditionLogic \<Rightarrow> string list \<Rightarrow> string list" where
  "looseMembers logic flatIn =
     filter (\<lambda>n. \<not> list_ex (\<lambda>g. list_ex (\<lambda>m. m = n) (Members g)) (Groups logic)) flatIn"

definition live_groups :: "CondGroup list \<Rightarrow> CondGroup list" where
  "live_groups gs = filter (\<lambda>g. Members g \<noteq> []) gs"

text \<open>Without a live group the entry is the implicit conjunction of \<open>ConditionsIn\<close>.\<close>

definition eval_flat :: "string list \<Rightarrow> (string \<Rightarrow> bool) \<Rightarrow> CondLogicEval" where
  "eval_flat flatIn sat =
     (if flatIn = [] then \<lparr>TopOp = CondOpAnd, EvGroups = [], Satisfied = True\<rparr>
      else let ge = evalGroup \<lparr>GroupOp = CondOpAnd, Members = flatIn\<rparr> sat in
        \<lparr>TopOp = CondOpAnd, EvGroups = [ge], Satisfied = GroupSatisfied ge\<rparr>)"

definition eval_groups ::
  "ConditionLogic \<Rightarrow> CondGroup list \<Rightarrow> string list \<Rightarrow> (string \<Rightarrow> bool) \<Rightarrow> CondLogicEval" where
  "eval_groups l groups flatIn sat =
     (let topOp = normCondOp (LogicOp l);
          evs = map (\<lambda>g. evalGroup g sat) groups;
          logicSat = (if topOp = CondOpOr then list_ex GroupSatisfied evs
                      else list_all GroupSatisfied evs);
          loose = looseMembers l flatIn;
          lev = (evalGroup \<lparr>GroupOp = CondOpAnd, Members = loose\<rparr> sat)\<lparr>Required := True\<rparr>
      in if loose \<noteq> []
         then \<lparr>TopOp = topOp, EvGroups = evs @ [lev], Satisfied = logicSat \<and> GroupSatisfied lev\<rparr>
         else \<lparr>TopOp = topOp, EvGroups = evs, Satisfied = logicSat\<rparr>)"

definition EvalConditionLogic ::
  "ConditionLogic option \<Rightarrow> string list \<Rightarrow> (string \<Rightarrow> bool) \<Rightarrow> CondLogicEval" where
  "EvalConditionLogic logic flatIn sat =
     (case logic of
        None \<Rightarrow> eval_flat flatIn sat
      | Some l \<Rightarrow>
          (let groups = live_groups (Groups l) in
           if groups = [] then eval_flat flatIn sat else eval_groups l groups flatIn sat))"

section \<open>Rendering\<close>

definition renderMember :: "string \<Rightarrow> string" where
  "renderMember m = (if m = CondTokenTime then ''time'' else m)"

definition render_group :: "CondGroupEval \<Rightarrow> string" where
  "render_group g =
     (if EvMembers g = [] then []
      else let sep = (if EvOp g = CondOpOr then '' OR '' else '' AND '');
               s = join_with sep (map renderMember (EvMembers g))
           in if length (EvMembers g) > 1 then ''('' @ s @ '')'' else s)"

definition RenderExpr :: "CondLogicEval \<Rightarrow> string" where
  "RenderExpr e =
     (if EvGroups e = [] then []
      else let sep = (if TopOp e = CondOpOr then '' OR '' else '' AND '');
               reqParts = map render_group (filter Required (EvGroups e));
               logicParts = map render_group (filter (\<lambda>g. \<not> Required g) (EvGroups e));
               joined = join_with sep logicParts;
               logicStr = (if length logicParts > 1 \<and> TopOp e = CondOpOr \<and> reqParts \<noteq> []
                           then ''('' @ joined @ '')'' else joined)
           in join_with '' AND '' ((if logicStr \<noteq> [] then [logicStr] else []) @ reqParts))"

section \<open>Normalisation\<close>

definition normalizeConditionLogic :: "JobDefinition \<Rightarrow> JobDefinition" where
  "normalizeConditionLogic d =
     (case ConditionLogicOf d of
        None \<Rightarrow> d
      | Some l \<Rightarrow>
          (let live = live_groups (Groups l);
               groups = map (\<lambda>g. g\<lparr>GroupOp := normCondOp (GroupOp g)\<rparr>) live;
               ins = foldl (\<lambda>acc m. if m = CondTokenTime then acc else append_missing acc m)
                       (ConditionsIn d) (concat (map Members live));
               d' = d\<lparr>ConditionsIn := ins\<rparr>
           in if groups = [] then d'\<lparr>ConditionLogicOf := None\<rparr>
              else d'\<lparr>ConditionLogicOf :=
                     Some (l\<lparr>LogicOp := normCondOp (LogicOp l), Groups := groups\<rparr>)\<rparr>))"

text \<open>
  The three passes of \<open>NormalizeConditions\<close>.  The third pass reads from the other definitions only
  their ID, outputs and rules, none of which it changes, so it is a \<open>map\<close> over the slice.
\<close>

definition expand_at :: "JobDefinition list \<Rightarrow> nat \<Rightarrow> JobDefinition list" where
  "expand_at ds i = (if UpstreamOf (ds ! i) \<noteq> [] then expandLegacyUpstream ds i else ds)"

definition expand_all :: "JobDefinition list \<Rightarrow> JobDefinition list" where
  "expand_all defs = foldl expand_at defs [0..<length defs]"

definition NormalizeConditions :: "JobDefinition list \<Rightarrow> JobDefinition list" where
  "NormalizeConditions defs =
     (let ds = map normalizeConditionLogic (expand_all defs) in
      map (\<lambda>c. deriveUpstreamView c ds) ds)"

text \<open>The consumer side only, on a frozen definition; \<open>live\<close> is the map of live definitions.\<close>

definition snapshot_edge ::
  "(string \<Rightarrow> JobDefinition option) \<Rightarrow> JobDefinition \<Rightarrow> Upstream \<Rightarrow> JobDefinition" where
  "snapshot_edge live d u =
     (if From u = [] \<or> From u = ID d \<or> Condition u = CondAlways then d
      else if (case live (From u) of Some p \<Rightarrow> alreadyLinked p d | None \<Rightarrow> False) then d
      else arm_consumer d (WithCondRef (LinkCondName (From u) (ID d)) (DateRefOf u)))"

definition ExpandSnapshotConditions ::
  "JobDefinition \<Rightarrow> (string \<Rightarrow> JobDefinition option) \<Rightarrow> JobDefinition" where
  "ExpandSnapshotConditions d live = foldl (snapshot_edge live) d (UpstreamOf d)"

section \<open>References: lemmas\<close>

lemma containsStr_iff [simp]: "containsStr xs s \<longleftrightarrow> s \<in> set xs"
  by (auto simp: containsStr_def list_ex_iff)

lemma set_append_missing [simp]: "set (append_missing xs s) = insert s (set xs)"
  by (auto simp: append_missing_def)

lemma SplitCondRef_no_at: "CHR ''@'' \<notin> set name \<Longrightarrow> SplitCondRef name = (name, DateRefOdat)"
  by (simp add: SplitCondRef_def)

lemma SplitCondRef_suffix:
  assumes "base \<noteq> []" and "ref \<in> {DateRefOdat, DateRefPrev, DateRefStat}"
  shows "SplitCondRef (base @ ''@'' @ ref) = (base, ref)"
proof -
  have "CHR ''@'' \<notin> set ref" using assms(2) by auto
  then have i: "last_index (CHR ''@'') (base @ CHR ''@'' # ref) = Some (length base)"
    by (rule last_index_append)
  have "ToLower ''odat'' = ''odat''" "ToLower ''prev'' = ''prev''" "ToLower ''stat'' = ''stat''"
    by (simp_all add: ToLower_def lower_char_def)
  with assms i show ?thesis by (auto simp: SplitCondRef_def Let_def)
qed

text \<open>
  Round trip of the date suffix: a name written by \<open>WithCondRef\<close> splits back into its base
  and its reference (the default reference is read back from the absent suffix).
\<close>

theorem cond_ref_roundtrip:
  assumes "base \<noteq> []" and "CHR ''@'' \<notin> set base"
    and "ref \<in> {[], DateRefOdat, DateRefPrev, DateRefStat}"
  shows "SplitCondRef (WithCondRef base ref) = (base, if ref = [] then DateRefOdat else ref)"
  using assms SplitCondRef_suffix [OF assms(1), of ref] SplitCondRef_no_at [OF assms(2)]
  by (auto simp: WithCondRef_def)

theorem cond_ref_roundtrip_witness:
  "SplitCondRef (WithCondRef ''CLOSE'' DateRefPrev) = (''CLOSE'', DateRefPrev)"
  using cond_ref_roundtrip [of "''CLOSE''" DateRefPrev] by simp

end
