(* ===== verification/ConditionsCorrect.thy ===== *)
theory ConditionsCorrect
  imports Conditions
begin

text \<open>
  Theorems on the dependency model: the evaluator of the entry logic against its declarative
  reading, monotonicity, the invariant and neutrality of the normalisation, completeness of the
  expansion of legacy edges and idempotence of the loader's normalisation.
\<close>

section \<open>Entry logic: the declarative reading\<close>

text \<open>
  The specification the evaluator is measured against: a group holds by its own operator, the live
  groups are combined by the top operator, and every entry condition outside the groups is an
  additional conjunct.
\<close>

definition group_holds :: "(string \<Rightarrow> bool) \<Rightarrow> CondGroup \<Rightarrow> bool" where
  "group_holds sat g =
     (if EqualFold (GroupOp g) CondOpOr then (\<exists>m\<in>set (Members g). sat m)
      else (\<forall>m\<in>set (Members g). sat m))"

definition covered_by :: "ConditionLogic \<Rightarrow> string \<Rightarrow> bool" where
  "covered_by l m \<longleftrightarrow> (\<exists>g\<in>set (Groups l). m \<in> set (Members g))"

definition logic_holds :: "ConditionLogic option \<Rightarrow> string list \<Rightarrow> (string \<Rightarrow> bool) \<Rightarrow> bool" where
  "logic_holds logic ins sat =
     (case logic of
        Some l \<Rightarrow>
          if live_groups (Groups l) = [] then (\<forall>m\<in>set ins. sat m)
          else (if EqualFold (LogicOp l) CondOpOr
                then (\<exists>g\<in>set (live_groups (Groups l)). group_holds sat g)
                else (\<forall>g\<in>set (live_groups (Groups l)). group_holds sat g)) \<and>
               (\<forall>m\<in>set ins. covered_by l m \<or> sat m)
      | None \<Rightarrow> \<forall>m\<in>set ins. sat m)"

lemma EqualFold_OR [simp]: "EqualFold CondOpOr CondOpOr" "\<not> EqualFold CondOpAnd CondOpOr"
  by (simp_all add: EqualFold_def ToLower_def lower_char_def)

lemma normCondOp_OR [simp]: "normCondOp op = CondOpOr \<longleftrightarrow> EqualFold op CondOpOr"
  by (simp add: normCondOp_def)

lemma EqualFold_normCondOp [simp]: "EqualFold (normCondOp op) CondOpOr = EqualFold op CondOpOr"
  by (simp add: normCondOp_def)

lemma normCondOp_idem [simp]: "normCondOp (normCondOp op) = normCondOp op"
  by (simp add: normCondOp_def)

lemma live_groups_members: "g \<in> set (live_groups gs) \<longleftrightarrow> g \<in> set gs \<and> Members g \<noteq> []"
  by (auto simp: live_groups_def)

lemma ex_live_group [simp]:
  "(\<exists>g\<in>set (live_groups gs). m \<in> set (Members g)) \<longleftrightarrow> (\<exists>g\<in>set gs. m \<in> set (Members g))"
  by (force simp: live_groups_members)

lemma GroupSatisfied_evalGroup:
  "Members g \<noteq> [] \<Longrightarrow> GroupSatisfied (evalGroup g sat) = group_holds sat g"
  by (auto simp: evalGroup_def group_holds_def Let_def list_ex_iff list_all_iff)

lemma GroupSatisfied_conj:
  "GroupSatisfied (evalGroup \<lparr>GroupOp = CondOpAnd, Members = ms\<rparr> sat) = (\<forall>m\<in>set ms. sat m)"
  by (auto simp: evalGroup_def Let_def list_all_iff)

lemma GroupSatisfied_Required [simp]: "GroupSatisfied (e\<lparr>Required := b\<rparr>) = GroupSatisfied e"
  by (cases e) simp

lemma Satisfied_eval_flat: "Satisfied (eval_flat ins sat) = (\<forall>m\<in>set ins. sat m)"
  by (simp add: eval_flat_def Let_def GroupSatisfied_conj)

lemma set_looseMembers: "set (looseMembers l ins) = {m \<in> set ins. \<not> covered_by l m}"
  by (auto simp: looseMembers_def covered_by_def list_ex_iff)

lemma looseMembers_Nil: "looseMembers l ins = [] \<longleftrightarrow> (\<forall>m\<in>set ins. covered_by l m)"
  using set_looseMembers [of l ins] by (auto simp flip: set_empty)

lemma list_ex_evs:
  "list_ex GroupSatisfied (map (\<lambda>g. evalGroup g sat) (live_groups gs)) =
     (\<exists>g\<in>set (live_groups gs). group_holds sat g)"
  "list_all GroupSatisfied (map (\<lambda>g. evalGroup g sat) (live_groups gs)) =
     (\<forall>g\<in>set (live_groups gs). group_holds sat g)"
  by (auto simp: list_ex_iff list_all_iff live_groups_members GroupSatisfied_evalGroup)

lemma Satisfied_eval_groups:
  "Satisfied (eval_groups l (live_groups (Groups l)) ins sat) =
     ((if EqualFold (LogicOp l) CondOpOr then (\<exists>g\<in>set (live_groups (Groups l)). group_holds sat g)
       else (\<forall>g\<in>set (live_groups (Groups l)). group_holds sat g)) \<and>
      (\<forall>m\<in>set ins. covered_by l m \<or> sat m))"
  unfolding eval_groups_def Let_def list_ex_evs GroupSatisfied_conj GroupSatisfied_Required
  using looseMembers_Nil [of l ins] set_looseMembers [of l ins] by auto

text \<open>
  The evaluator, which folds over groups and collects the unmet members for the explanation,
  decides exactly the declarative reading of the logic, loose conditions included.
\<close>

theorem eval_logic_spec:
  "Satisfied (EvalConditionLogic logic ins sat) = logic_holds logic ins sat"
  by (simp add: EvalConditionLogic_def logic_holds_def Let_def Satisfied_eval_flat
      Satisfied_eval_groups split: option.split)

lemma group_holds_mono:
  "(\<And>m. sat m \<Longrightarrow> sat' m) \<Longrightarrow> group_holds sat g \<Longrightarrow> group_holds sat' g"
  by (auto simp: group_holds_def split: if_splits)

lemma logic_holds_mono:
  assumes "\<And>m. sat m \<Longrightarrow> sat' m" and "logic_holds logic ins sat"
  shows "logic_holds logic ins sat'"
  using assms(2) group_holds_mono [of sat sat', OF assms(1)] assms(1)
  unfolding logic_holds_def by (auto split: option.splits if_splits)

text \<open>
  The gate is monotone: a job that may run still may after more conditions appear in the pool.
\<close>

theorem eval_logic_mono:
  assumes "\<And>m. sat m \<Longrightarrow> sat' m" and "Satisfied (EvalConditionLogic logic ins sat)"
  shows "Satisfied (EvalConditionLogic logic ins sat')"
  using assms unfolding eval_logic_spec by (rule logic_holds_mono)

theorem eval_logic_mono_witness:
  "Satisfied (EvalConditionLogic (Some \<lparr>LogicOp = ''OR'', Groups = [\<lparr>GroupOp = ''AND'', Members = [''A'', ''B'']\<rparr>,
     \<lparr>GroupOp = ''AND'', Members = [''C'']\<rparr>]\<rparr>) [''A'', ''B'', ''C''] (\<lambda>m. m = ''C'' \<or> m = ''A''))"
  by (rule eval_logic_mono [where sat = "\<lambda>m. m = ''C''"])
    (auto simp: EvalConditionLogic_def eval_groups_def live_groups_def evalGroup_def looseMembers_def
      normCondOp_def EqualFold_def ToLower_def lower_char_def Let_def)

text \<open>
  A group without members is neutral: it never satisfies a disjunction and never blocks a
  conjunction.
\<close>

lemma eval_logic_ignores_empty_groups:
  "Satisfied (EvalConditionLogic (Some \<lparr>LogicOp = op, Groups = gs\<rparr>) ins sat) =
   Satisfied (EvalConditionLogic (Some \<lparr>LogicOp = op, Groups = live_groups gs\<rparr>) ins sat)"
proof -
  have "live_groups (live_groups gs) = live_groups gs" by (simp add: live_groups_def)
  moreover have "covered_by \<lparr>LogicOp = op, Groups = live_groups gs\<rparr> m =
      covered_by \<lparr>LogicOp = op, Groups = gs\<rparr> m" for m
    by (simp add: covered_by_def)
  ultimately show ?thesis by (simp add: eval_logic_spec logic_holds_def)
qed

section \<open>Normalisation of the logic\<close>

lemma set_fold_members:
  "set (foldl (\<lambda>acc m. if m = CondTokenTime then acc else append_missing acc m) ins ms) =
     set ins \<union> (set ms - {CondTokenTime})"
  by (induction ms arbitrary: ins) auto

lemma fold_members_id:
  "set ms - {CondTokenTime} \<subseteq> set ins \<Longrightarrow>
     foldl (\<lambda>acc m. if m = CondTokenTime then acc else append_missing acc m) ins ms = ins"
  by (induction ms arbitrary: ins) (auto simp: append_missing_def)

lemma live_groups_map_op [simp]:
  "live_groups (map (\<lambda>g. g\<lparr>GroupOp := f g\<rparr>) gs) = map (\<lambda>g. g\<lparr>GroupOp := f g\<rparr>) (live_groups gs)"
  by (induction gs) (auto simp: live_groups_def)

lemma live_groups_idem [simp]: "live_groups (live_groups gs) = live_groups gs"
  by (simp add: live_groups_def)

definition logic_members :: "JobDefinition \<Rightarrow> string set" where
  "logic_members d =
     (case ConditionLogicOf d of None \<Rightarrow> {} | Some l \<Rightarrow> (\<Union>g\<in>set (Groups l). set (Members g)))"

lemma normalize_ConditionsIn:
  "set (ConditionsIn (normalizeConditionLogic d)) = set (ConditionsIn d) \<union> (logic_members d - {CondTokenTime})"
proof (cases "ConditionLogicOf d")
  case None
  then show ?thesis by (simp add: normalizeConditionLogic_def logic_members_def)
next
  case (Some l)
  have "(\<Union>g\<in>set (live_groups (Groups l)). set (Members g)) = logic_members d"
    using Some ex_live_group [of "Groups l"] by (fastforce simp: logic_members_def live_groups_members)
  then show ?thesis
    using Some by (auto simp: normalizeConditionLogic_def Let_def set_fold_members)
qed

lemma normalize_frame [simp]:
  "ID (normalizeConditionLogic d) = ID d"
  "ConditionsOutAdd (normalizeConditionLogic d) = ConditionsOutAdd d"
  "Actions (normalizeConditionLogic d) = Actions d"
  "UpstreamOf (normalizeConditionLogic d) = UpstreamOf d"
  "ConditionsOutRemove (normalizeConditionLogic d) = ConditionsOutRemove d"
  by (simp_all add: normalizeConditionLogic_def Let_def split: option.split)

lemma logic_members_normalize: "logic_members (normalizeConditionLogic d) \<subseteq> logic_members d"
  by (auto simp: normalizeConditionLogic_def Let_def logic_members_def live_groups_members split: option.split)

text \<open>
  After normalisation every member of the entry logic except the clock token is an entry
  condition, which is what the topology view and the frozen columns of an instance rely on.
\<close>

theorem normalize_members_in_ConditionsIn:
  "logic_members (normalizeConditionLogic d) - {CondTokenTime} \<subseteq> set (ConditionsIn (normalizeConditionLogic d))"
  using logic_members_normalize [of d] by (auto simp: normalize_ConditionsIn)

lemma group_holds_norm [simp]: "group_holds sat (g\<lparr>GroupOp := normCondOp (GroupOp g)\<rparr>) = group_holds sat g"
  by (simp add: group_holds_def)

text \<open>
  Normalising the logic of a definition (operators, empty groups, added entry conditions) never
  changes whether it may run.
\<close>

theorem normalize_preserves_evaluation:
  "Satisfied (EvalConditionLogic (ConditionLogicOf (normalizeConditionLogic d))
       (ConditionsIn (normalizeConditionLogic d)) sat) =
   Satisfied (EvalConditionLogic (ConditionLogicOf d) (ConditionsIn d) sat)"
proof (cases "ConditionLogicOf d")
  case None
  then show ?thesis by (simp add: normalizeConditionLogic_def)
next
  case (Some l)
  let ?live = "live_groups (Groups l)"
  have ins: "set (ConditionsIn (normalizeConditionLogic d)) =
      set (ConditionsIn d) \<union> ({m. covered_by l m} - {CondTokenTime})"
    using normalize_ConditionsIn [of d] Some by (auto simp: logic_members_def covered_by_def)
  show ?thesis
  proof (cases "?live = []")
    case True
    then have "normalizeConditionLogic d = d\<lparr>ConditionLogicOf := None\<rparr>"
      using Some by (simp add: normalizeConditionLogic_def Let_def)
    with Some True show ?thesis by (simp add: eval_logic_spec logic_holds_def)
  next
    case False
    let ?l' = "l\<lparr>LogicOp := normCondOp (LogicOp l), Groups := map (\<lambda>g. g\<lparr>GroupOp := normCondOp (GroupOp g)\<rparr>) ?live\<rparr>"
    have l': "ConditionLogicOf (normalizeConditionLogic d) = Some ?l'"
      using Some False by (simp add: normalizeConditionLogic_def Let_def)
    have cov: "covered_by ?l' m = covered_by l m" for m
      by (simp add: covered_by_def)
    show ?thesis
      unfolding l' Some eval_logic_spec using False ins
      by (auto simp: logic_holds_def cov)
  qed
qed

lemma normalizeConditionLogic_idem:
  "normalizeConditionLogic (normalizeConditionLogic d) = normalizeConditionLogic d"
proof (cases "ConditionLogicOf d")
  case None
  then show ?thesis by (simp add: normalizeConditionLogic_def)
next
  case (Some l)
  let ?live = "live_groups (Groups l)"
  show ?thesis
  proof (cases "?live = []")
    case True
    then show ?thesis using Some by (simp add: normalizeConditionLogic_def Let_def)
  next
    case False
    have "set (concat (map Members ?live)) - {CondTokenTime} \<subseteq>
        set (foldl (\<lambda>acc m. if m = CondTokenTime then acc else append_missing acc m)
           (ConditionsIn d) (concat (map Members ?live)))"
      unfolding set_fold_members by blast
    then have "foldl (\<lambda>acc m. if m = CondTokenTime then acc else append_missing acc m)
        (foldl (\<lambda>acc m. if m = CondTokenTime then acc else append_missing acc m)
           (ConditionsIn d) (concat (map Members ?live))) (concat (map Members ?live)) =
        foldl (\<lambda>acc m. if m = CondTokenTime then acc else append_missing acc m)
           (ConditionsIn d) (concat (map Members ?live))"
      by (rule fold_members_id)
    with Some False show ?thesis
      by (simp add: normalizeConditionLogic_def Let_def comp_def)
  qed
qed

section \<open>The derived view\<close>

lemma From_view_edge [simp]: "From (view_edge from ref) = from"
  by (simp add: view_edge_def)

lemma From_derive_from:
  "From ` set (derive_from cid b ref ps acc) =
     From ` set acc \<union> {ID p |p. p \<in> set ps \<and> ID p \<noteq> cid \<and> producesBase p b}"
proof (induction ps arbitrary: acc)
  case Nil
  then show ?case by simp
next
  case (Cons p ps)
  then show ?case by (auto simp: list_ex_iff) (metis imageI)
qed

lemma From_derive_edges:
  "From ` set (derive_edges cid ns defs acc) =
     From ` set acc \<union>
     {ID p |p. p \<in> set defs \<and> ID p \<noteq> cid \<and> (\<exists>n\<in>set ns. producesBase p (cond_base n))}"
  by (induction ns arbitrary: acc) (auto simp: case_prod_beta From_derive_from cond_base_def)

lemma alreadyLinked_iff: "alreadyLinked p c \<longleftrightarrow> (\<exists>n\<in>set (ConditionsIn c). producesBase p (cond_base n))"
  by (simp add: alreadyLinked_def list_ex_iff)

lemma From_deriveUpstreamView:
  "From ` set (UpstreamOf (deriveUpstreamView c defs)) =
     {ID p |p. p \<in> set defs \<and> ID p \<noteq> ID c \<and> alreadyLinked p c}"
  by (simp add: deriveUpstreamView_def From_derive_edges alreadyLinked_iff)

lemma derive_from_cong:
  "map ID ps = map ID ps' \<Longrightarrow> map (\<lambda>p. producesBase p b) ps = map (\<lambda>p. producesBase p b) ps' \<Longrightarrow>
     derive_from cid b ref ps acc = derive_from cid b ref ps' acc"
proof (induction ps arbitrary: ps' acc)
  case Nil
  then show ?case by simp
next
  case (Cons p ps)
  then obtain q qs where "ps' = q # qs" by (cases ps') auto
  with Cons show ?case by simp
qed

lemma derive_edges_cong:
  assumes "map ID ps = map ID ps'" and "\<And>b. map (\<lambda>p. producesBase p b) ps = map (\<lambda>p. producesBase p b) ps'"
  shows "derive_edges cid ns ps acc = derive_edges cid ns ps' acc"
  by (induction ns arbitrary: acc) (auto simp: case_prod_beta derive_from_cong [OF assms])

lemma derive_frame [simp]:
  "ID (deriveUpstreamView c defs) = ID c"
  "ConditionsIn (deriveUpstreamView c defs) = ConditionsIn c"
  "ConditionsOutAdd (deriveUpstreamView c defs) = ConditionsOutAdd c"
  "ConditionsOutRemove (deriveUpstreamView c defs) = ConditionsOutRemove c"
  "Actions (deriveUpstreamView c defs) = Actions c"
  "ConditionLogicOf (deriveUpstreamView c defs) = ConditionLogicOf c"
  by (simp_all add: deriveUpstreamView_def)

lemma producesBase_frame [simp]:
  "producesBase (deriveUpstreamView c defs) b = producesBase c b"
  "producesBase (normalizeConditionLogic c) b = producesBase c b"
  by (simp_all add: producesBase_def)

section \<open>The expansion\<close>

text \<open>What an expansion may do to a definition: it only adds conditions and rules.\<close>

definition grows :: "JobDefinition \<Rightarrow> JobDefinition \<Rightarrow> bool" where
  "grows d d' \<longleftrightarrow> ID d' = ID d \<and> UpstreamOf d' = UpstreamOf d \<and> set (ConditionsIn d) \<subseteq> set (ConditionsIn d') \<and>
     set (ConditionsOutAdd d) \<subseteq> set (ConditionsOutAdd d') \<and> set (Actions d) \<subseteq> set (Actions d')"

lemma grows_refl [simp]: "grows d d"
  by (simp add: grows_def)

lemma grows_trans: "grows a b \<Longrightarrow> grows b c \<Longrightarrow> grows a c"
  by (auto simp: grows_def)

lemma grows_arm [intro]:
  "grows p (arm_producer p cond name)" "grows c (arm_consumer c s)"
  by (auto simp: grows_def arm_producer_def arm_consumer_def addNotOKSetCondition_def add_out_def)

lemma producesBase_grows: "grows d d' \<Longrightarrow> producesBase d b \<Longrightarrow> producesBase d' b"
  by (auto simp: grows_def producesBase_def list_ex_iff)

lemma alreadyLinked_grows: "grows p p' \<Longrightarrow> grows c c' \<Longrightarrow> alreadyLinked p c \<Longrightarrow> alreadyLinked p' c'"
  unfolding alreadyLinked_iff by (meson producesBase_grows grows_def subsetD)

lemma list_all2_grows_refl [simp]: "list_all2 grows ds ds"
  by (simp add: list_all2_same)

lemma list_all2_grows_trans:
  "list_all2 grows as bs \<Longrightarrow> list_all2 grows bs cs \<Longrightarrow> list_all2 grows as cs"
  by (rule list_all2_trans [of grows grows grows]) (auto intro: grows_trans)

lemma by_id_SomeD: "by_id defs k = Some i \<Longrightarrow> i < length defs \<and> ID (defs ! i) = k"
  by (auto simp: by_id_def find_Some_iff2 dest: sym) (auto simp: find_Some_iff rev_nth)

lemma expand_edge_grows:
  assumes "ci < length defs" shows "list_all2 grows defs (expand_edge ci defs u)"
proof -
  have "list_all2 grows defs (defs[pi := arm_producer (defs ! pi) c n, ci := arm_consumer (defs ! ci) s])"
    if "pi < length defs" "ID (defs ! pi) \<noteq> ID (defs ! ci)" for pi c n s
    using that assms by (auto simp: list_all2_conv_all_nth nth_list_update)
  then show ?thesis
    using by_id_SomeD [of defs "From u"]
    by (auto simp: expand_edge_def Let_def split: option.split)
qed

lemma foldl_expand_grows:
  "ci < length defs \<Longrightarrow> list_all2 grows defs (foldl (expand_edge ci) defs us)"
proof (induction us arbitrary: defs)
  case Nil
  then show ?case by simp
next
  case (Cons u us)
  have "list_all2 grows defs (expand_edge ci defs u)" using Cons.prems by (rule expand_edge_grows)
  moreover from this have "ci < length (expand_edge ci defs u)"
    using Cons.prems by (simp add: list_all2_lengthD)
  ultimately show ?case using Cons.IH list_all2_grows_trans by fastforce
qed

lemma expandLegacyUpstream_grows:
  "ci < length defs \<Longrightarrow> list_all2 grows defs (expandLegacyUpstream defs ci)"
  by (simp add: expandLegacyUpstream_def foldl_expand_grows)

lemma by_id_cong: "map ID ds = map ID ds' \<Longrightarrow> by_id ds k = by_id ds' k"
proof -
  assume m: "map ID ds = map ID ds'"
  then have len: "length ds = length ds'" by (rule map_eq_imp_length_eq)
  have "ID (ds ! i) = ID (ds' ! i)" if "i < length ds" for i
    using that len m by (metis nth_map)
  then show ?thesis using len by (auto simp: by_id_def intro!: find_cong)
qed

lemma by_id_distinct: "distinct (map ID ds) \<Longrightarrow> i < length ds \<Longrightarrow> by_id ds (ID (ds ! i)) = Some i"
proof -
  assume d: "distinct (map ID ds)" and i: "i < length ds"
  have "by_id ds (ID (ds ! i)) \<noteq> None"
    using i by (auto simp: by_id_def find_None_iff)
  then obtain j where j: "by_id ds (ID (ds ! i)) = Some j" by blast
  with by_id_SomeD [OF j] d i have "j = i" by (auto simp: distinct_conv_nth)
  with j show ?thesis by simp
qed

lemma grows_map_ID: "list_all2 grows ds ds' \<Longrightarrow> map ID ds' = map ID ds"
  by (induction rule: list_all2_induct) (auto simp: grows_def)

lemma upper_char_at [simp]: "upper_char c = CHR ''@'' \<longleftrightarrow> c = CHR ''@''"
proof -
  have "of_char (char_of (of_char c - 32 :: nat) :: char) = (of_char c - 32 :: nat)" if "of_char c \<le> (122::nat)"
    using that by (simp add: of_char_of)
  then show ?thesis
    by (auto simp: upper_char_def Let_def dest!: arg_cong [where f = "of_char :: char \<Rightarrow> nat"])
qed

lemma upper_char_at_sym [simp]: "CHR ''@'' = upper_char c \<longleftrightarrow> c = CHR ''@''"
  using upper_char_at [of c] by metis

lemma at_ToUpper [simp]: "CHR ''@'' \<in> set (ToUpper s) \<longleftrightarrow> CHR ''@'' \<in> set s"
  by (induction s) (auto simp: ToUpper_def)

lemma LinkCondName_props:
  "LinkCondName a b \<noteq> []"
  "CHR ''@'' \<notin> set a \<Longrightarrow> CHR ''@'' \<notin> set b \<Longrightarrow> CHR ''@'' \<notin> set (LinkCondName a b)"
  by (simp_all add: LinkCondName_def) (simp add: ToUpper_def)

definition known_ref :: "DateRef \<Rightarrow> bool" where
  "known_ref ref \<longleftrightarrow> ref \<in> {[], DateRefOdat, DateRefPrev, DateRefStat}"

lemma cond_base_WithCondRef:
  assumes "base \<noteq> []" and "CHR ''@'' \<notin> set base" and "known_ref ref"
  shows "cond_base (WithCondRef base ref) = base"
  using assms SplitCondRef_suffix [OF assms(1), of ref] SplitCondRef_no_at [OF assms(2)]
  by (auto simp: cond_base_def known_ref_def WithCondRef_def)

lemma WithCondRef_not_Nil: "base \<noteq> [] \<Longrightarrow> WithCondRef base ref \<noteq> []"
  by (simp add: WithCondRef_def)

lemma producesBase_arm:
  assumes "cond_base n = b" and "n \<noteq> []"
  shows "producesBase (arm_producer p cond n) b"
proof -
  have "producesBase (addNotOKSetCondition q n) b" for q
    using assms by (force simp: producesBase_def addNotOKSetCondition_def list_ex_iff notok_rule_def)
  moreover have "producesBase (add_out q n) b" for q
    using assms by (auto simp: producesBase_def add_out_def list_ex_iff)
  ultimately show ?thesis by (simp add: arm_producer_def)
qed

lemma expand_edge_links:
  assumes ci: "ci < length defs" and pi: "by_id defs (From u) = Some pi"
    and u: "From u \<noteq> []" "From u \<noteq> ID (defs ! ci)" "Condition u \<noteq> CondAlways" "known_ref (DateRefOf u)"
    and at: "CHR ''@'' \<notin> set (From u)" "CHR ''@'' \<notin> set (ID (defs ! ci))"
  shows "alreadyLinked (expand_edge ci defs u ! pi) (expand_edge ci defs u ! ci)"
proof (cases "alreadyLinked (defs ! pi) (defs ! ci)")
  case True
  then show ?thesis using pi u by (simp add: expand_edge_def Let_def)
next
  case False
  let ?name = "LinkCondName (From u) (ID (defs ! ci))"
  let ?prod = "if DateRefOf u = DateRefStat then WithCondRef ?name DateRefStat else ?name"
  have pilt: "pi < length defs" and neq: "pi \<noteq> ci" using by_id_SomeD [OF pi] u(2) by auto
  have name: "?name \<noteq> []" "CHR ''@'' \<notin> set ?name" using LinkCondName_props at by auto
  have suf: "cond_base (WithCondRef ?name (DateRefOf u)) = ?name"
    using name u(4) by (rule cond_base_WithCondRef)
  have "cond_base ?prod = ?name" "?prod \<noteq> []"
    using name cond_base_WithCondRef [OF name, of DateRefStat] SplitCondRef_no_at [OF name(2)]
    by (auto simp: known_ref_def cond_base_def WithCondRef_def)
  then have "producesBase (arm_producer (defs ! pi) (Condition u) ?prod) ?name"
    by (rule producesBase_arm)
  moreover have "expand_edge ci defs u =
      defs[pi := arm_producer (defs ! pi) (Condition u) ?prod,
           ci := arm_consumer (defs ! ci) (WithCondRef ?name (DateRefOf u))]"
    using pi u False by (simp add: expand_edge_def Let_def)
  ultimately show ?thesis
    using ci pilt neq suf by (auto simp: alreadyLinked_iff arm_consumer_def)
qed

lemma list_all2_grows_linked:
  assumes "list_all2 grows ds ds'" "pi < length ds" "ci < length ds" "alreadyLinked (ds ! pi) (ds ! ci)"
  shows "alreadyLinked (ds' ! pi) (ds' ! ci)"
  using assms alreadyLinked_grows list_all2_nthD by blast

lemma foldl_expand_links:
  assumes "u \<in> set us" and "ci < length defs" and "by_id defs (From u) = Some pi"
    and "From u \<noteq> []" "From u \<noteq> ID (defs ! ci)" "Condition u \<noteq> CondAlways" "known_ref (DateRefOf u)"
    and "CHR ''@'' \<notin> set (From u)" "CHR ''@'' \<notin> set (ID (defs ! ci))"
  shows "alreadyLinked (foldl (expand_edge ci) defs us ! pi) (foldl (expand_edge ci) defs us ! ci)"
  using assms
proof (induction us arbitrary: defs)
  case Nil
  then show ?case by simp
next
  case (Cons v us)
  let ?ds = "expand_edge ci defs v"
  have g: "list_all2 grows defs ?ds" using Cons.prems(2) by (rule expand_edge_grows)
  have len: "length ?ds = length defs" using g by (simp add: list_all2_lengthD)
  have ids: "map ID ?ds = map ID defs" using g by (rule grows_map_ID)
  have pi: "pi < length defs" using by_id_SomeD [OF Cons.prems(3)] by simp
  show ?case
  proof (cases "u = v")
    case True
    have "alreadyLinked (?ds ! pi) (?ds ! ci)"
      using Cons.prems True by (intro expand_edge_links) auto
    moreover have "list_all2 grows ?ds (foldl (expand_edge ci) ?ds us)"
      using Cons.prems(2) len by (intro foldl_expand_grows) simp
    ultimately show ?thesis
      using list_all2_grows_linked pi Cons.prems(2) len by (metis foldl_Cons)
  next
    case False
    have "ID (?ds ! ci) = ID (defs ! ci)" using Cons.prems(2) len ids by (metis nth_map)
    then have "alreadyLinked (foldl (expand_edge ci) ?ds us ! pi) (foldl (expand_edge ci) ?ds us ! ci)"
      using Cons.prems False len by_id_cong [OF ids] by (intro Cons.IH) auto
    then show ?thesis by simp
  qed
qed

lemma expand_at_grows: "i < length ds \<Longrightarrow> list_all2 grows ds (expand_at ds i)"
  by (simp add: expand_at_def expandLegacyUpstream_grows)

lemma foldl_expand_at_grows:
  "\<forall>i\<in>set is. i < length defs \<Longrightarrow> list_all2 grows defs (foldl expand_at defs is)"
proof (induction "is" arbitrary: defs)
  case Nil
  then show ?case by simp
next
  case (Cons i "is")
  have g: "list_all2 grows defs (expand_at defs i)"
    using Cons.prems by (simp add: expand_at_grows)
  then have "\<forall>j\<in>set is. j < length (expand_at defs i)"
    using Cons.prems list_all2_lengthD [OF g] by simp
  then have "list_all2 grows (expand_at defs i) (foldl expand_at (expand_at defs i) is)"
    by (rule Cons.IH)
  with g show ?case by (simp add: list_all2_grows_trans)
qed

lemma expand_all_grows: "list_all2 grows defs (expand_all defs)"
  unfolding expand_all_def by (rule foldl_expand_at_grows) simp

lemma expand_all_links:
  assumes ci: "ci < length defs" and u: "u \<in> set (UpstreamOf (defs ! ci))" and pi: "by_id defs (From u) = Some pi"
    and side: "From u \<noteq> []" "From u \<noteq> ID (defs ! ci)" "Condition u \<noteq> CondAlways" "known_ref (DateRefOf u)"
      "CHR ''@'' \<notin> set (From u)" "CHR ''@'' \<notin> set (ID (defs ! ci))"
  shows "alreadyLinked (expand_all defs ! pi) (expand_all defs ! ci)"
proof -
  define n where "n = length defs"
  define ds where "ds = foldl expand_at defs [0..<ci]"
  define es where "es = expand_at ds ci"
  have split: "[0..<n] = [0..<ci] @ ci # [Suc ci..<n]"
    using ci upt_add_eq_append [of 0 ci "n - ci"] by (simp add: upt_conv_Cons n_def)
  have g: "list_all2 grows defs ds" unfolding ds_def using ci by (intro foldl_expand_at_grows) auto
  have len: "length ds = n" using g by (simp add: list_all2_lengthD n_def)
  have ids: "map ID ds = map ID defs" using g by (rule grows_map_ID)
  have up: "UpstreamOf (ds ! ci) = UpstreamOf (defs ! ci)" "ID (ds ! ci) = ID (defs ! ci)"
    using list_all2_nthD [OF g ci] by (auto simp: grows_def)
  have pi': "by_id ds (From u) = Some pi" using pi by_id_cong [OF ids] by simp
  have "es = foldl (expand_edge ci) ds (UpstreamOf (ds ! ci))"
    by (simp add: es_def expand_at_def expandLegacyUpstream_def)
  moreover have "alreadyLinked (foldl (expand_edge ci) ds (UpstreamOf (ds ! ci)) ! pi)
      (foldl (expand_edge ci) ds (UpstreamOf (ds ! ci)) ! ci)"
    by (rule foldl_expand_links) (use u pi' side up ci len in \<open>auto simp: n_def\<close>)
  ultimately have link: "alreadyLinked (es ! pi) (es ! ci)" by simp
  have len': "length es = n"
    using len ci list_all2_lengthD [OF expand_at_grows, of ci ds] by (simp add: es_def n_def)
  have "list_all2 grows es (foldl expand_at es [Suc ci..<n])"
    using len' by (intro foldl_expand_at_grows) auto
  moreover have "pi < length es" "ci < length es"
    using by_id_SomeD [OF pi] ci len' by (simp_all add: n_def)
  ultimately have "alreadyLinked (foldl expand_at es [Suc ci..<n] ! pi) (foldl expand_at es [Suc ci..<n] ! ci)"
    using link by (rule list_all2_grows_linked)
  moreover have "expand_all defs = foldl expand_at es [Suc ci..<n]"
    unfolding expand_all_def n_def [symmetric] split foldl_append foldl_Cons es_def ds_def ..
  ultimately show ?thesis by simp
qed

section \<open>Correctness of the normalisation\<close>

text \<open>
  No legacy dependency is lost: an edge with a known producer, which is no self-loop, is not
  \<open>always\<close> and has a known date reference, ends as a condition that the producer creates and the
  consumer waits for, and stays visible as an edge of the derived view.
\<close>

theorem NormalizeConditions_links_every_edge:
  assumes ci: "ci < length defs" and u: "u \<in> set (UpstreamOf (defs ! ci))" and pi: "by_id defs (From u) = Some pi"
    and side: "From u \<noteq> []" "From u \<noteq> ID (defs ! ci)" "Condition u \<noteq> CondAlways" "known_ref (DateRefOf u)"
      "CHR ''@'' \<notin> set (From u)" "CHR ''@'' \<notin> set (ID (defs ! ci))"
  shows "alreadyLinked (NormalizeConditions defs ! pi) (NormalizeConditions defs ! ci) \<and>
         From u \<in> From ` set (UpstreamOf (NormalizeConditions defs ! ci))"
proof -
  let ?es = "expand_all defs" and ?ds = "map normalizeConditionLogic (expand_all defs)"
  have len: "length ?es = length defs" using expand_all_grows by (metis list_all2_lengthD)
  have pilt: "pi < length defs" and pid: "ID (defs ! pi) = From u" using by_id_SomeD [OF pi] by auto
  have ids: "ID (?es ! i) = ID (defs ! i)" if "i < length defs" for i
    using list_all2_nthD [OF expand_all_grows that] by (simp add: grows_def)
  have "alreadyLinked (?es ! pi) (?es ! ci)" by (rule expand_all_links [OF ci u pi side])
  then have link: "alreadyLinked (?ds ! pi) (?ds ! ci)"
    using ci pilt len by (auto simp: alreadyLinked_iff normalize_ConditionsIn)
  have N: "NormalizeConditions defs ! i = deriveUpstreamView (?ds ! i) ?ds" if "i < length defs" for i
    using that len by (simp add: NormalizeConditions_def Let_def)
  have "From u \<in> From ` set (UpstreamOf (deriveUpstreamView (?ds ! ci) ?ds))"
    unfolding From_deriveUpstreamView
    using link pilt ci len ids pid side(2) by (intro CollectI exI [of _ "?ds ! pi"]) auto
  moreover have "alreadyLinked (deriveUpstreamView (?ds ! pi) ?ds) (deriveUpstreamView (?ds ! ci) ?ds)"
    using link by (simp add: alreadyLinked_iff)
  ultimately show ?thesis using N ci pilt by simp
qed

definition example_edge :: "DateRef \<Rightarrow> Upstream" where
  "example_edge ref = \<lparr>From = ''A'', Condition = CondOnSuccess, DateRefOf = ref\<rparr>"

definition example_defs :: "DateRef \<Rightarrow> JobDefinition list" where
  "example_defs ref =
     [zero_def\<lparr>ID := ''A''\<rparr>, zero_def\<lparr>ID := ''B'', UpstreamOf := [example_edge ref]\<rparr>]"

lemma by_id_example [simp]: "by_id (example_defs ref) ''A'' = Some 0"
  by (simp add: by_id_def example_defs_def upt_rec)

theorem NormalizeConditions_links_every_edge_witness:
  "alreadyLinked (NormalizeConditions (example_defs DateRefPrev) ! 0) (NormalizeConditions (example_defs DateRefPrev) ! 1) \<and>
   ''A'' \<in> From ` set (UpstreamOf (NormalizeConditions (example_defs DateRefPrev) ! 1))"
  using NormalizeConditions_links_every_edge [of 1 "example_defs DateRefPrev" "example_edge DateRefPrev" 0]
  by (simp add: example_defs_def example_edge_def known_ref_def by_id_def upt_rec)

text \<open>
  The restriction to known date references is needed: an edge whose \<open>dateRef\<close> is any other
  string leaves a consumer waiting for a condition no job of the slice creates, while the
  producer creates the condition of the default reference.
\<close>

theorem unknown_dateRef_is_never_linked:
  "ConditionsIn (NormalizeConditions (example_defs ''today'') ! 1) = [''A-TO-B@today''] \<and>
   ConditionsOutAdd (NormalizeConditions (example_defs ''today'') ! 0) = [''A-TO-B''] \<and>
   UpstreamOf (NormalizeConditions (example_defs ''today'') ! 1) = [] \<and>
   \<not> alreadyLinked (NormalizeConditions (example_defs ''today'') ! 0) (NormalizeConditions (example_defs ''today'') ! 1)"
  by code_simp

lemma expand_edge_linked_id:
  assumes "by_id defs (From u) = Some pi" and "alreadyLinked (defs ! pi) (defs ! ci)"
  shows "expand_edge ci defs u = defs"
  using assms by (simp add: expand_edge_def Let_def)

lemma normalize_UpstreamOf_update:
  "normalizeConditionLogic (c\<lparr>UpstreamOf := us\<rparr>) = (normalizeConditionLogic c)\<lparr>UpstreamOf := us\<rparr>"
  by (simp add: normalizeConditionLogic_def Let_def split: option.split)

lemma normalize_derive:
  "normalizeConditionLogic (deriveUpstreamView (normalizeConditionLogic c) ds) =
     deriveUpstreamView (normalizeConditionLogic c) ds"
  by (simp add: deriveUpstreamView_def normalize_UpstreamOf_update normalizeConditionLogic_idem)

lemma derive_derive:
  "deriveUpstreamView (deriveUpstreamView c ds) (map (\<lambda>c. deriveUpstreamView c ds) ds) = deriveUpstreamView c ds"
  unfolding deriveUpstreamView_def [of "deriveUpstreamView c ds"]
  by (subst derive_edges_cong [where ps' = ds]) (simp_all add: deriveUpstreamView_def producesBase_def)

text \<open>
  Idempotence, the promise of the loader: when the IDs of the slice are distinct, a second
  normalisation changes nothing, so a definition saved with its derived view does not grow.
\<close>

theorem NormalizeConditions_idempotent:
  assumes dist: "distinct (map ID defs)"
  shows "NormalizeConditions (NormalizeConditions defs) = NormalizeConditions defs"
proof -
  define ds where "ds = map normalizeConditionLogic (expand_all defs)"
  define r where "r = map (\<lambda>c. deriveUpstreamView c ds) ds"
  have r: "NormalizeConditions defs = r" by (simp add: NormalizeConditions_def Let_def r_def ds_def)
  have len: "length r = length ds" by (simp add: r_def)
  have nth: "r ! i = deriveUpstreamView (ds ! i) ds" if "i < length ds" for i
    using that by (simp add: r_def)
  have "map ID r = map ID (expand_all defs)" by (simp add: comp_def r_def ds_def)
  then have ids: "map ID r = map ID defs" by (simp only: grows_map_ID [OF expand_all_grows])
  have edge: "expand_edge ci r u = r" if ci: "ci < length r" and u: "u \<in> set (UpstreamOf (r ! ci))" for ci u
  proof -
    have "From u \<in> {ID p |p. p \<in> set ds \<and> ID p \<noteq> ID (ds ! ci) \<and> alreadyLinked p (ds ! ci)}"
      using u ci len nth From_deriveUpstreamView [of "ds ! ci" ds] by (metis imageI)
    then obtain j where j: "j < length ds" "From u = ID (ds ! j)" "alreadyLinked (ds ! j) (ds ! ci)"
      by (auto simp: in_set_conv_nth)
    have "by_id r (From u) = Some j"
      using by_id_distinct [of r j] dist ids j nth len by simp
    moreover have "alreadyLinked (r ! j) (r ! ci)"
      using j ci nth len by (simp add: alreadyLinked_iff)
    ultimately show ?thesis by (rule expand_edge_linked_id)
  qed
  have fold_id: "foldl (expand_edge ci) r us = r"
    if "ci < length r" "set us \<subseteq> set (UpstreamOf (r ! ci))" for ci us
    using that by (induction us) (simp_all add: edge)
  have "expand_at r ci = r" if "ci < length r" for ci
    using fold_id [OF that] by (simp add: expand_at_def expandLegacyUpstream_def)
  then have "foldl expand_at r is = r" if "\<forall>i\<in>set is. i < length r" for "is"
    using that by (induction "is") simp_all
  then have "expand_all r = r" by (simp add: expand_all_def)
  moreover have "map normalizeConditionLogic r = r"
    by (simp add: r_def ds_def normalize_derive)
  ultimately have "NormalizeConditions r = map (\<lambda>c. deriveUpstreamView c r) r"
    by (simp add: NormalizeConditions_def Let_def)
  also have "\<dots> = r" unfolding r_def using derive_derive [of _ ds] by simp
  finally show ?thesis by (simp only: r)
qed

theorem NormalizeConditions_idempotent_witness:
  "NormalizeConditions (NormalizeConditions (example_defs DateRefStat)) = NormalizeConditions (example_defs DateRefStat)"
  by (rule NormalizeConditions_idempotent) (simp add: example_defs_def)

end
