(* ===== verification/Resources.thy ===== *)
theory Resources
  imports DomainModel
begin

text \<open>
  The in-memory quota tracker of \<open>server/internal/scheduler/resources.go\<close>.  \<open>capacity\<close> and
  \<open>used\<close> are the Go maps (a missing key of \<open>used\<close> reads 0), \<open>holders\<close> the map from instances to
  their holdings, as an association list so that holdings can be summed.  A request \<open>want\<close> is a Go
  map, so its keys are distinct; the order in which Go walks it is the order of the list.
  Quantities are 64-bit integers and the additions wrap (\<open>i64\<close>).  Writing the registry to the
  database can fail: \<open>persist_ok\<close> says for which names it succeeds.
\<close>

section \<open>64-bit arithmetic\<close>

definition i64 :: "int \<Rightarrow> int" where
  "i64 x = (x + 9223372036854775808) mod 18446744073709551616 - 9223372036854775808"

lemma i64_id [simp]: "min_int64 \<le> x \<Longrightarrow> x \<le> max_int64 \<Longrightarrow> i64 x = x"
  by (simp add: i64_def min_int64_def max_int64_def)

section \<open>State and operations\<close>

record ResourceTracker =
  capacity :: "string \<Rightarrow> int option"
  used :: "string \<Rightarrow> int option"
  holders :: "(string \<times> (string \<times> int) list) list"

record ResourceShortfall =
  SfName :: string
  SfWant :: int
  SfUsed :: int
  SfCapacity :: int

definition NewResourceTracker :: ResourceTracker where
  "NewResourceTracker = \<lparr>capacity = (\<lambda>_. None), used = (\<lambda>_. None), holders = []\<rparr>"

definition used_of :: "ResourceTracker \<Rightarrow> string \<Rightarrow> int" where
  "used_of t n = (case used t n of None \<Rightarrow> 0 | Some v \<Rightarrow> v)"

definition cap_of :: "ResourceTracker \<Rightarrow> string \<Rightarrow> int" where
  "cap_of t n = (case capacity t n of None \<Rightarrow> 1 | Some c \<Rightarrow> c)"

definition held_by :: "ResourceTracker \<Rightarrow> string \<Rightarrow> (string \<times> int) list" where
  "held_by t i = (case map_of (holders t) i of None \<Rightarrow> [] | Some h \<Rightarrow> h)"

definition qty :: "(string \<times> int) list \<Rightarrow> string \<Rightarrow> int" where
  "qty h n = (case map_of h n of None \<Rightarrow> 0 | Some q \<Rightarrow> q)"

fun upsert :: "'k \<Rightarrow> 'v \<Rightarrow> ('k \<times> 'v) list \<Rightarrow> ('k \<times> 'v) list" where
  "upsert k v [] = [(k, v)]"
| "upsert k v ((k', v') # xs) = (if k = k' then (k, v) # xs else (k', v') # upsert k v xs)"

definition shortfallsLocked :: "ResourceTracker \<Rightarrow> (string \<times> int) list \<Rightarrow> ResourceShortfall list" where
  "shortfallsLocked t want =
     map (\<lambda>(n, q). \<lparr>SfName = n, SfWant = q, SfUsed = used_of t n, SfCapacity = cap_of t n\<rparr>)
       (filter (\<lambda>(n, q). cap_of t n < i64 (used_of t n + q)) want)"

definition Shortfalls :: "ResourceTracker \<Rightarrow> (string \<times> int) list \<Rightarrow> ResourceShortfall list" where
  "Shortfalls t want = (if want = [] then [] else shortfallsLocked t want)"

text \<open>
  Unknown names enter the registry with capacity 1; the first failing write stops the loop (the
  names registered before it stay).
\<close>

fun register :: "(string \<Rightarrow> bool) \<Rightarrow> (string \<times> int) list \<Rightarrow> ResourceTracker \<Rightarrow> bool \<times> ResourceTracker" where
  "register persist_ok [] t = (True, t)"
| "register persist_ok ((n, q) # ws) t =
     (case capacity t n of
        Some c \<Rightarrow> register persist_ok ws t
      | None \<Rightarrow>
          if persist_ok n then register persist_ok ws (t\<lparr>capacity := (capacity t)(n \<mapsto> 1)\<rparr>)
          else (False, t))"

definition take_one :: "string \<Rightarrow> string \<times> int \<Rightarrow> ResourceTracker \<Rightarrow> ResourceTracker" where
  "take_one i nq t =
     (let (n, q) = nq; h = held_by t i in
      t\<lparr>used := (used t)(n \<mapsto> i64 (used_of t n + q)),
        holders := upsert i (upsert n (i64 (qty h n + q)) h) (holders t)\<rparr>)"

definition open_holder :: "string \<Rightarrow> ResourceTracker \<Rightarrow> ResourceTracker" where
  "open_holder i t =
     (case map_of (holders t) i of Some _ \<Rightarrow> t | None \<Rightarrow> t\<lparr>holders := upsert i [] (holders t)\<rparr>)"

definition TryAcquire ::
  "(string \<Rightarrow> bool) \<Rightarrow> string \<Rightarrow> (string \<times> int) list \<Rightarrow> ResourceTracker \<Rightarrow> bool \<times> ResourceTracker" where
  "TryAcquire persist_ok i want t =
     (if want = [] then (True, t)
      else case register persist_ok want t of
        (False, t') \<Rightarrow> (False, t')
      | (True, t') \<Rightarrow>
          if shortfallsLocked t' want \<noteq> [] then (False, t')
          else (True, fold (take_one i) want (open_holder i t')))"

definition give_one :: "string \<times> int \<Rightarrow> ResourceTracker \<Rightarrow> ResourceTracker" where
  "give_one nq t =
     (let (n, q) = nq; u = i64 (used_of t n - q) in
      t\<lparr>used := (used t)(n \<mapsto> (if u < 0 then 0 else u))\<rparr>)"

definition Release :: "string \<Rightarrow> ResourceTracker \<Rightarrow> ResourceTracker" where
  "Release i t =
     (let t' = fold give_one (held_by t i) t in
      t'\<lparr>holders := filter (\<lambda>(j, _). j \<noteq> i) (holders t')\<rparr>)"

definition retake_one :: "string \<Rightarrow> string \<times> int \<Rightarrow> ResourceTracker \<Rightarrow> ResourceTracker" where
  "retake_one i nq t =
     (let (n, q) = nq;
          t' = (case capacity t n of Some _ \<Rightarrow> t | None \<Rightarrow> t\<lparr>capacity := (capacity t)(n \<mapsto> q)\<rparr>)
      in take_one i nq t')"

definition Reacquire :: "string \<Rightarrow> (string \<times> int) list \<Rightarrow> ResourceTracker \<Rightarrow> ResourceTracker" where
  "Reacquire i held t =
     (if held = [] then t
      else let t' = fold give_one (held_by t i) t;
               t'' = t'\<lparr>holders := upsert i [] (holders t')\<rparr>
           in fold (retake_one i) held t'')"

text \<open>Capacity updates: the registry in memory changes only after the durable write.\<close>

definition SetCapacity :: "(string \<Rightarrow> bool) \<Rightarrow> string \<Rightarrow> int \<Rightarrow> ResourceTracker \<Rightarrow> bool \<times> ResourceTracker" where
  "SetCapacity persist_ok n c t =
     (let c' = (if c < 0 then 0 else c) in
      if persist_ok n then (True, t\<lparr>capacity := (capacity t)(n \<mapsto> c')\<rparr>) else (False, t))"

datatype delete_error = ResourceNotFound | ResourceInUse int | ResourceStorage

definition DeleteResource ::
  "(string \<Rightarrow> bool) \<Rightarrow> string \<Rightarrow> ResourceTracker \<Rightarrow> delete_error + ResourceTracker" where
  "DeleteResource persist_ok n t =
     (if capacity t n = None then Inl ResourceNotFound
      else if used_of t n > 0 then Inl (ResourceInUse (used_of t n))
      else if \<not> persist_ok n then Inl ResourceStorage
      else Inr (t\<lparr>capacity := (capacity t)(n := None), used := (used t)(n := None)\<rparr>))"

end
