(* ===== verification/ResourcesCorrect.thy ===== *)
theory ResourcesCorrect
  imports Resources
begin

text \<open>
  Correctness of the quota tracker: the usage counters are exactly the sum of the holdings, an
  acquisition is all or nothing and never exceeds a capacity, a release gives back exactly what
  was taken.  The laws a client of the tracker relies on form the locale \<open>quota_manager\<close>.
\<close>

section \<open>Specification\<close>

definition total_held :: "(string \<times> (string \<times> int) list) list \<Rightarrow> string \<Rightarrow> int" where
  "total_held hs n = sum_list (map (\<lambda>(i, h). qty h n) hs)"

definition holding_ok :: "(string \<times> int) list \<Rightarrow> bool" where
  "holding_ok h \<longleftrightarrow> distinct (map fst h) \<and> (\<forall>(n, q) \<in> set h. 0 \<le> q)"

definition accounted :: "ResourceTracker \<Rightarrow> bool" where
  "accounted t \<longleftrightarrow>
     distinct (map fst (holders t)) \<and> (\<forall>(i, h) \<in> set (holders t). holding_ok h) \<and>
     (\<forall>n. used_of t n = total_held (holders t) n \<and> used_of t n \<le> max_int64)"

definition request_ok :: "ResourceTracker \<Rightarrow> (string \<times> int) list \<Rightarrow> bool" where
  "request_ok t want \<longleftrightarrow> holding_ok want \<and> (\<forall>(n, q) \<in> set want. used_of t n + q \<le> max_int64)"

section \<open>Association lists\<close>

lemma map_of_upsert [simp]: "map_of (upsert k v xs) = (map_of xs)(k \<mapsto> v)"
  by (induction k v xs rule: upsert.induct) auto

lemma keys_upsert: "fst ` set (upsert k v xs) = insert k (fst ` set xs)"
  by (induction k v xs rule: upsert.induct) auto

lemma distinct_upsert: "distinct (map fst xs) \<Longrightarrow> distinct (map fst (upsert k v xs))"
proof (induction k v xs rule: upsert.induct)
  case (1 k v)
  then show ?case by simp
next
  case (2 k v k' v' xs)
  then show ?case using keys_upsert [of k v xs] by auto
qed

lemma set_upsert: "x \<in> set (upsert k v xs) \<Longrightarrow> x = (k, v) \<or> x \<in> set xs"
  by (induction k v xs rule: upsert.induct) (auto split: if_splits)

lemma qty_Nil [simp]: "qty [] n = 0"
  by (simp add: qty_def)

lemma qty_Cons: "qty ((m, q) # h) n = (if m = n then q else qty h n)"
  by (simp add: qty_def)

lemma qty_upsert [simp]: "qty (upsert m v h) n = (if m = n then v else qty h n)"
  by (simp add: qty_def)

lemma qty_absent: "n \<notin> fst ` set h \<Longrightarrow> qty h n = 0"
  by (simp add: qty_def map_of_eq_None_iff [THEN iffD2])

lemma qty_nonneg: "holding_ok h \<Longrightarrow> 0 \<le> qty h n"
  by (auto simp: qty_def holding_ok_def split: option.splits dest: map_of_SomeD)

lemma holding_ok_Nil [simp]: "holding_ok []"
  by (simp add: holding_ok_def)

lemma holding_ok_Cons:
  "holding_ok ((n, q) # h) \<longleftrightarrow> n \<notin> fst ` set h \<and> 0 \<le> q \<and> holding_ok h"
  by (auto simp: holding_ok_def)

lemma holding_ok_upsert: "holding_ok h \<Longrightarrow> 0 \<le> q \<Longrightarrow> holding_ok (upsert n q h)"
  by (auto simp: holding_ok_def distinct_upsert dest!: set_upsert)

lemma total_held_Nil [simp]: "total_held [] n = 0"
  by (simp add: total_held_def)

lemma total_held_Cons: "total_held ((i, h) # hs) n = qty h n + total_held hs n"
  by (simp add: total_held_def)

definition held_in :: "(string \<times> (string \<times> int) list) list \<Rightarrow> string \<Rightarrow> (string \<times> int) list" where
  "held_in hs i = (case map_of hs i of None \<Rightarrow> [] | Some h \<Rightarrow> h)"

lemma held_by_eq: "held_by t i = held_in (holders t) i"
  by (simp add: held_by_def held_in_def)

lemma held_in_upsert [simp]: "held_in (upsert i h hs) j = (if i = j then h else held_in hs j)"
  by (simp add: held_in_def)

lemma held_in_filter [simp]: "held_in (filter (\<lambda>(j, _). j \<noteq> i) hs) k = (if k = i then [] else held_in hs k)"
  by (induction hs) (auto simp: held_in_def split: option.splits)

lemma total_held_upsert:
  "total_held (upsert i h hs) n = total_held hs n - qty (held_in hs i) n + qty h n"
  by (induction i h hs rule: upsert.induct) (auto simp: held_in_def total_held_Cons)

lemma total_held_filter:
  "distinct (map fst hs) \<Longrightarrow>
   total_held (filter (\<lambda>(j, _). j \<noteq> i) hs) n = total_held hs n - qty (held_in hs i) n"
proof (induction hs)
  case Nil
  then show ?case by (simp add: held_in_def)
next
  case (Cons jh hs)
  obtain j h where jh: "jh = (j, h)" by (cases jh)
  show ?case
  proof (cases "j = i")
    case True
    with Cons.prems jh have "filter (\<lambda>(k, _). k \<noteq> i) hs = hs"
      by (intro filter_True) force
    with True jh show ?thesis by (simp add: held_in_def total_held_Cons)
  next
    case False
    with Cons jh show ?thesis by (simp add: held_in_def total_held_Cons)
  qed
qed

lemma held_in_ok: "\<forall>(i, h) \<in> set hs. holding_ok h \<Longrightarrow> holding_ok (held_in hs i)"
  by (auto simp: held_in_def split: option.splits dest: map_of_SomeD)

lemma total_held_nonneg: "\<forall>(i, h) \<in> set hs. holding_ok h \<Longrightarrow> 0 \<le> total_held hs n"
  by (induction hs) (auto simp: total_held_Cons qty_nonneg)

lemma qty_le_total: "\<forall>(i, h) \<in> set hs. holding_ok h \<Longrightarrow> qty (held_in hs i) n \<le> total_held hs n"
proof (induction hs)
  case Nil
  then show ?case by (simp add: held_in_def)
next
  case (Cons jh hs)
  obtain j h where jh: "jh = (j, h)" by (cases jh)
  have "0 \<le> qty h n" "0 \<le> total_held hs n" "qty (held_in hs i) n \<le> total_held hs n"
    using Cons jh by (auto simp: qty_nonneg total_held_nonneg)
  then show ?case by (simp add: jh total_held_Cons held_in_def)
qed

section \<open>One holding\<close>

lemma used_of_upd [simp]:
  "used_of (t\<lparr>used := (used t)(n \<mapsto> v), holders := H\<rparr>) m = (if m = n then v else used_of t m)"
  "used_of (t\<lparr>used := (used t)(n \<mapsto> v)\<rparr>) m = (if m = n then v else used_of t m)"
  "used_of (t\<lparr>holders := H\<rparr>) m = used_of t m"
  "used_of (t\<lparr>capacity := C\<rparr>) m = used_of t m"
  by (simp_all add: used_of_def)

lemma take_one_used: "used_of (take_one i (n, q) t) m = (if m = n then i64 (used_of t n + q) else used_of t m)"
  by (simp add: take_one_def Let_def)

lemma take_one_capacity [simp]: "capacity (take_one i nq t) = capacity t"
  by (simp add: take_one_def Let_def split: prod.splits)

lemma accountedD:
  assumes "accounted t"
  shows "distinct (map fst (holders t))" "\<forall>(i, h) \<in> set (holders t). holding_ok h"
    "used_of t n = total_held (holders t) n" "used_of t n \<le> max_int64" "0 \<le> used_of t n"
proof -
  show d: "distinct (map fst (holders t))" "\<forall>(i, h) \<in> set (holders t). holding_ok h"
    and u: "used_of t n = total_held (holders t) n" and "used_of t n \<le> max_int64"
    using assms unfolding accounted_def by blast+
  show "0 \<le> used_of t n"
    using total_held_nonneg [OF d(2), of n] u by simp
qed

lemma accounted_held: "accounted t \<Longrightarrow> holding_ok (held_by t i) \<and> qty (held_by t i) n \<le> used_of t n"
  using held_in_ok [of "holders t" i] qty_le_total [of "holders t" i n]
  by (auto simp: accounted_def held_by_eq)

lemma take_one_held:
  assumes "accounted t" "0 \<le> q" "used_of t n + q \<le> max_int64"
  shows "qty (held_by (take_one i (n, q) t) j) m = qty (held_by t j) m + (if j = i \<and> m = n then q else 0)"
proof -
  have "0 \<le> qty (held_by t i) n" "qty (held_by t i) n \<le> used_of t n"
    using accounted_held [OF assms(1), of i n] qty_nonneg [of "held_by t i" n] by auto
  with assms have "i64 (qty (held_by t i) n + q) = qty (held_by t i) n + q"
    by (intro i64_id) (auto simp: min_int64_def max_int64_def)
  then show ?thesis by (simp add: take_one_def Let_def held_by_eq)
qed

lemma take_one_accounted:
  assumes a: "accounted t" and q: "0 \<le> q" and b: "used_of t n + q \<le> max_int64"
  shows "accounted (take_one i (n, q) t)"
proof -
  have h: "0 \<le> qty (held_by t i) n" "qty (held_by t i) n \<le> used_of t n" "holding_ok (held_by t i)"
    using accounted_held [OF a, of i n] qty_nonneg [of "held_by t i" n] by auto
  have e1: "i64 (qty (held_by t i) n + q) = qty (held_by t i) n + q"
    using h b q by (intro i64_id) (auto simp: min_int64_def max_int64_def)
  have e2: "i64 (used_of t n + q) = used_of t n + q"
    using h b q by (intro i64_id) (auto simp: min_int64_def max_int64_def)
  have ok: "holding_ok (upsert n (qty (held_by t i) n + q) (held_by t i))"
    using h q by (intro holding_ok_upsert) auto
  show ?thesis
    using accountedD(1,2,3,4) [OF a] ok e1 e2 b
    by (auto simp: accounted_def take_one_def Let_def distinct_upsert total_held_upsert held_by_eq
        dest!: set_upsert)
qed

lemma take_fold:
  assumes "accounted t" "holding_ok want" "\<forall>(n, q) \<in> set want. used_of t n + q \<le> max_int64"
  shows "accounted (fold (take_one i) want t) \<and>
         used_of (fold (take_one i) want t) m = used_of t m + qty want m \<and>
         qty (held_by (fold (take_one i) want t) j) m =
           qty (held_by t j) m + (if j = i then qty want m else 0) \<and>
         capacity (fold (take_one i) want t) = capacity t"
  using assms
proof (induction want arbitrary: t)
  case Nil
  then show ?case by simp
next
  case (Cons nq want)
  obtain n q where nq: "nq = (n, q)" by (cases nq)
  define t1 where "t1 = take_one i (n, q) t"
  have q: "0 \<le> q" "used_of t n + q \<le> max_int64" and w: "holding_ok want" "n \<notin> fst ` set want"
    using Cons.prems nq by (auto simp: holding_ok_Cons)
  have i: "i64 (used_of t n + q) = used_of t n + q"
    using accountedD(5) [OF Cons.prems(1), of n] q
    by (intro i64_id) (auto simp: min_int64_def max_int64_def)
  have a1: "accounted t1"
    using take_one_accounted [OF Cons.prems(1) q] by (simp add: t1_def)
  have u1: "used_of t1 k = (if k = n then used_of t n + q else used_of t k)" for k
    using i by (simp add: t1_def take_one_used)
  have h1: "qty (held_by t1 j) k = qty (held_by t j) k + (if j = i \<and> k = n then q else 0)" for k
    using take_one_held [OF Cons.prems(1) q] by (simp add: t1_def)
  have b1: "\<forall>(k, p) \<in> set want. used_of t1 k + p \<le> max_int64"
    using Cons.prems(3) w(2) by (force simp: u1)
  show ?case
    using Cons.IH [OF a1 w(1) b1] qty_absent [OF w(2)]
    by (auto simp: nq t1_def [symmetric] u1 h1 qty_Cons) (simp_all add: t1_def)
qed

lemma give_fold_used:
  assumes "holding_ok h" "\<forall>n. qty h n \<le> used_of t n" "\<forall>n. used_of t n \<le> max_int64"
  shows "used_of (fold give_one h t) m = used_of t m - qty h m \<and>
         capacity (fold give_one h t) = capacity t \<and> holders (fold give_one h t) = holders t"
  using assms
proof (induction h arbitrary: t)
  case Nil
  then show ?case by simp
next
  case (Cons nq h)
  obtain n q where nq: "nq = (n, q)" by (cases nq)
  define t1 where "t1 = give_one (n, q) t"
  have w: "holding_ok h" "n \<notin> fst ` set h" "0 \<le> q"
    using Cons.prems(1) nq by (auto simp: holding_ok_Cons)
  have le: "q \<le> used_of t n" using Cons.prems(2) [rule_format, of n] nq by (simp add: qty_Cons)
  have i: "i64 (used_of t n - q) = used_of t n - q"
    using le w(3) Cons.prems(3) [rule_format, of n]
    by (intro i64_id) (auto simp: min_int64_def max_int64_def)
  have u1: "used_of t1 k = (if k = n then used_of t n - q else used_of t k)" for k
    using i le by (simp add: t1_def give_one_def Let_def)
  have c1: "capacity t1 = capacity t" "holders t1 = holders t"
    by (simp_all add: t1_def give_one_def Let_def)
  have b1: "\<forall>k. qty h k \<le> used_of t1 k"
  proof
    fix k
    show "qty h k \<le> used_of t1 k"
      using Cons.prems(2) [rule_format, of k] qty_absent [OF w(2)] nq le
      by (auto simp: u1 qty_Cons split: if_splits)
  qed
  have b2: "\<forall>k. used_of t1 k \<le> max_int64"
    using Cons.prems(3) w(3) by (auto simp: u1) (smt (verit))
  show ?case
    using Cons.IH [OF w(1) b1 b2] qty_absent [OF w(2)] c1
    by (auto simp: nq t1_def [symmetric] u1 qty_Cons)
qed

section \<open>Operations\<close>

lemma cap_of_register [simp]:
  "capacity t n = None \<Longrightarrow> cap_of (t\<lparr>capacity := (capacity t)(n \<mapsto> 1)\<rparr>) m = cap_of t m"
  by (auto simp: cap_of_def)

lemma register_frame:
  "register p want t = (ok, t') \<Longrightarrow>
   used t' = used t \<and> holders t' = holders t \<and> (\<forall>n. cap_of t' n = cap_of t n)"
  by (induction p want t rule: register.induct) (auto split: option.splits if_splits)

lemma register_all: "fst (register (\<lambda>_. True) want t)"
  by (induction "\<lambda>_ :: string. True" want t rule: register.induct) (auto split: option.splits)

lemma register_refused: "\<not> fst (register p want t) \<Longrightarrow> \<exists>(n, q) \<in> set want. \<not> p n"
  by (induction p want t rule: register.induct) (auto split: option.splits if_splits)

lemma shortfalls_empty:
  "request_ok t want \<Longrightarrow> accounted t \<Longrightarrow>
   shortfallsLocked t want = [] \<longleftrightarrow> (\<forall>(n, q) \<in> set want. used_of t n + q \<le> cap_of t n)"
proof -
  assume r: "request_ok t want" and a: "accounted t"
  have "i64 (used_of t n + q) = used_of t n + q" if "(n, q) \<in> set want" for n q
    using r that accountedD(5) [OF a, of n]
    by (intro i64_id) (auto simp: request_ok_def holding_ok_def min_int64_def max_int64_def)
  then show ?thesis
    by (fastforce simp: shortfallsLocked_def filter_empty_conv not_less)
qed

lemma frame_used_of: "used t' = used t \<Longrightarrow> used_of t' = used_of t"
  by (simp add: used_of_def fun_eq_iff)

lemma frame_accounted: "used t' = used t \<Longrightarrow> holders t' = holders t \<Longrightarrow> accounted t' = accounted t"
  by (simp add: accounted_def used_of_def)

lemma frame_held_by: "holders t' = holders t \<Longrightarrow> held_by t' = held_by t"
  by (simp add: held_by_def fun_eq_iff)

lemma open_holder_frame:
  assumes "accounted t"
  shows "accounted (open_holder i t)" "used (open_holder i t) = used t"
    "capacity (open_holder i t) = capacity t" "held_by (open_holder i t) j = held_by t j"
proof -
  show "used (open_holder i t) = used t" "capacity (open_holder i t) = capacity t"
    "held_by (open_holder i t) j = held_by t j"
    by (auto simp: open_holder_def held_by_def split: option.splits)
  show "accounted (open_holder i t)"
    using accountedD(1,2,3,4) [OF assms]
    by (auto simp: open_holder_def accounted_def distinct_upsert total_held_upsert held_in_def
        split: option.splits dest!: set_upsert)
qed

text \<open>What a granted and what a refused request do to the tracker.\<close>

lemma TryAcquire_granted:
  assumes a: "accounted t" and r: "request_ok t want" and g: "TryAcquire p i want t = (True, t')"
  shows "accounted t' \<and> used_of t' n = used_of t n + qty want n \<and> cap_of t' n = cap_of t n \<and>
         qty (held_by t' j) n = qty (held_by t j) n + (if j = i then qty want n else 0)"
proof (cases "want = []")
  case True
  with g a show ?thesis by (simp add: TryAcquire_def)
next
  case False
  obtain ok t1 where t1: "register p want t = (ok, t1)" by fastforce
  note fr = register_frame [OF t1]
  define t2 where "t2 = open_holder i t1"
  have t': "t' = fold (take_one i) want t2"
    using g False t1 by (auto simp: TryAcquire_def t2_def split: bool.splits if_splits)
  have a1: "accounted t1" using a fr frame_accounted [of t1 t] by simp
  have u2: "used_of t2 = used_of t" "cap_of t2 n = cap_of t n" "held_by t2 j = held_by t j"
    using fr open_holder_frame [OF a1, of i] frame_used_of [of t2 t] frame_held_by [of t1 t]
    by (auto simp: t2_def cap_of_def)
  have "accounted t2" using open_holder_frame [OF a1] by (simp add: t2_def)
  from take_fold [OF this, of want i n j] r u2 t' show ?thesis
    by (auto simp: request_ok_def cap_of_def)
qed

lemma TryAcquire_fits:
  assumes a: "accounted t" and r: "request_ok t want" and g: "TryAcquire p i want t = (True, t')"
  shows "\<forall>(n, q) \<in> set want. used_of t n + q \<le> cap_of t n"
proof (cases "want = []")
  case False
  obtain ok t1 where t1: "register p want t = (ok, t1)" by fastforce
  note fr = register_frame [OF t1]
  have "request_ok t1 want" "accounted t1"
    using a r fr frame_accounted [of t1 t] frame_used_of [of t1 t] by (auto simp: request_ok_def)
  moreover have "shortfallsLocked t1 want = []"
    using g False t1 by (auto simp: TryAcquire_def split: bool.splits if_splits)
  ultimately have "\<forall>(n, q) \<in> set want. used_of t1 n + q \<le> cap_of t1 n"
    using shortfalls_empty by blast
  then show ?thesis using fr frame_used_of [of t1 t] by auto
qed simp

lemma TryAcquire_refused:
  assumes "TryAcquire p i want t = (False, t')"
  shows "used t' = used t \<and> holders t' = holders t \<and> cap_of t' n = cap_of t n"
proof -
  obtain ok t1 where t1: "register p want t = (ok, t1)" by fastforce
  with assms have "t' = t1" by (auto simp: TryAcquire_def split: bool.splits if_splits)
  with register_frame [OF t1] show ?thesis by simp
qed

lemma TryAcquire_available:
  assumes a: "accounted t" and r: "request_ok t want"
    and fits: "\<forall>(n, q) \<in> set want. used_of t n + q \<le> cap_of t n"
  shows "fst (TryAcquire (\<lambda>_. True) i want t)"
proof -
  obtain ok t1 where t1: "register (\<lambda>_. True) want t = (ok, t1)" by fastforce
  note fr = register_frame [OF t1]
  have "ok" using register_all [of want t] t1 by simp
  moreover have "request_ok t1 want" "accounted t1"
    using a r fr frame_accounted [of t1 t] frame_used_of [of t1 t] by (auto simp: request_ok_def)
  ultimately show ?thesis
    using shortfalls_empty [of t1 want] fits fr frame_used_of [of t1 t] t1
    by (auto simp: TryAcquire_def)
qed

lemma Release_effect:
  assumes a: "accounted t"
  shows "accounted (Release i t) \<and> used_of (Release i t) n = used_of t n - qty (held_by t i) n \<and>
         capacity (Release i t) = capacity t \<and>
         qty (held_by (Release i t) j) n = (if j = i then 0 else qty (held_by t j) n)"
proof -
  define h where "h = held_by t i"
  have h: "holding_ok h" "\<forall>n. qty h n \<le> used_of t n" "\<forall>n. used_of t n \<le> max_int64"
    using accounted_held [OF a] accountedD(4) [OF a] by (auto simp: h_def)
  note g = give_fold_used [OF h]
  have u: "used_of (Release i t) n = used_of t n - qty h n" for n
    using g by (simp add: Release_def Let_def h_def)
  have hs: "holders (Release i t) = filter (\<lambda>(j, _). j \<noteq> i) (holders t)"
    using g by (simp add: Release_def Let_def h_def)
  have "distinct (map fst (filter (\<lambda>(j, _). j \<noteq> i) (holders t)))"
    using accountedD(1) [OF a] by (induction "holders t") (auto simp: distinct_map_filter)
  moreover have "used_of t n - qty h n = total_held (filter (\<lambda>(j, _). j \<noteq> i) (holders t)) n" for n
    using total_held_filter [OF accountedD(1) [OF a]] accountedD(3) [OF a]
    by (simp add: h_def held_by_eq)
  moreover have "used_of t n - qty h n \<le> max_int64" for n
    using qty_nonneg [OF h(1), of n] accountedD(4) [OF a, of n] by simp
  ultimately have "accounted (Release i t)"
    using accountedD(2) [OF a] by (auto simp: accounted_def u hs)
  moreover have "capacity (Release i t) = capacity t"
    using g by (simp add: Release_def Let_def h_def)
  ultimately show ?thesis by (simp add: u h_def held_by_eq hs)
qed

section \<open>The interface the scheduler relies on\<close>

datatype ('i, 'w) quota_op = Take 'i 'w | Give 'i

fun run_quota ::
  "('i \<Rightarrow> 'w \<Rightarrow> 's \<Rightarrow> bool \<times> 's) \<Rightarrow> ('i \<Rightarrow> 's \<Rightarrow> 's) \<Rightarrow> ('i, 'w) quota_op list \<Rightarrow> 's \<Rightarrow> 's" where
  "run_quota acq rel [] s = s"
| "run_quota acq rel (Take i w # ops) s = run_quota acq rel ops (snd (acq i w s))"
| "run_quota acq rel (Give i # ops) s = run_quota acq rel ops (rel i s)"

fun op_fair :: "('w \<Rightarrow> bool) \<Rightarrow> ('i, 'w) quota_op \<Rightarrow> bool" where
  "op_fair fair (Take i w) = fair w"
| "op_fair fair (Give i) = True"

locale quota_manager =
  fixes acquire :: "'i \<Rightarrow> 'w \<Rightarrow> 's \<Rightarrow> bool \<times> 's"
    and release :: "'i \<Rightarrow> 's \<Rightarrow> 's"
    and usage :: "'s \<Rightarrow> 'n \<Rightarrow> int"
    and limit :: "'s \<Rightarrow> 'n \<Rightarrow> int"
    and holds :: "'s \<Rightarrow> 'i \<Rightarrow> 'n \<Rightarrow> int"
    and amount :: "'w \<Rightarrow> 'n \<Rightarrow> int"
    and sound :: "'s \<Rightarrow> bool"
    and fair :: "'w \<Rightarrow> bool"
  assumes sound_limit: "sound s \<Longrightarrow> usage s n \<le> limit s n"
    and acquire_sound: "sound s \<Longrightarrow> fair w \<Longrightarrow> sound (snd (acquire i w s))"
    and release_sound: "sound s \<Longrightarrow> sound (release i s)"
    and granted: "sound s \<Longrightarrow> fair w \<Longrightarrow> acquire i w s = (True, s') \<Longrightarrow>
        usage s' n = usage s n + amount w n \<and>
        holds s' j n = holds s j n + (if j = i then amount w n else 0)"
    and released: "sound s \<Longrightarrow>
        usage (release i s) n = usage s n - holds s i n \<and>
        holds (release i s) j n = (if j = i then 0 else holds s j n)"

context quota_manager
begin

lemma run_sound: "sound s \<Longrightarrow> \<forall>x\<in>set ops. op_fair fair x \<Longrightarrow> sound (run_quota acquire release ops s)"
proof (induction ops arbitrary: s)
  case Nil
  then show ?case by simp
next
  case (Cons x ops)
  then show ?case by (cases x) (auto intro: acquire_sound release_sound)
qed

lemma run_within_limits:
  "sound s \<Longrightarrow> \<forall>x\<in>set ops. op_fair fair x \<Longrightarrow>
   usage (run_quota acquire release ops s) n \<le> limit (run_quota acquire release ops s) n"
  by (rule sound_limit [OF run_sound])

lemma take_give:
  assumes "sound s" "fair w" "acquire i w s = (True, s')" "holds s i n = 0"
  shows "usage (release i s') n = usage s n"
proof -
  have "sound s'" using acquire_sound [OF assms(1,2), of i] assms(3) by simp
  from released [OF this, of i n i] granted [OF assms(1-3), of n i] assms(4) show ?thesis by simp
qed

lemma give_twice: "sound s \<Longrightarrow> usage (release i (release i s)) n = usage (release i s) n"
  using released [OF release_sound, of s i i n i] released [of s i n i] by simp

end

definition quota_sound :: "ResourceTracker \<Rightarrow> bool" where
  "quota_sound t \<longleftrightarrow> accounted t \<and> (\<forall>n. used_of t n \<le> cap_of t n \<and> cap_of t n \<le> 2 ^ 62)"

definition small_request :: "(string \<times> int) list \<Rightarrow> bool" where
  "small_request want \<longleftrightarrow> holding_ok want \<and> (\<forall>(n, q) \<in> set want. q \<le> 2 ^ 61)"

lemma small_request_ok: "quota_sound t \<Longrightarrow> small_request want \<Longrightarrow> request_ok t want"
proof -
  assume t: "quota_sound t" and w: "small_request want"
  have "used_of t n + q \<le> max_int64" if "(n, q) \<in> set want" for n q
  proof -
    have "used_of t n \<le> 2 ^ 62" using t by (auto simp: quota_sound_def intro: order_trans)
    moreover have "q \<le> 2 ^ 61" using w that by (auto simp: small_request_def)
    ultimately show ?thesis by (simp add: max_int64_def)
  qed
  then show ?thesis using w by (auto simp: request_ok_def small_request_def)
qed

lemma quota_sound_granted:
  assumes t: "quota_sound t" and w: "small_request want" and g: "TryAcquire p i want t = (True, t')"
  shows "quota_sound t'"
proof -
  have a: "accounted t" using t by (simp add: quota_sound_def)
  note r = small_request_ok [OF t w]
  have "used_of t' n \<le> cap_of t' n \<and> cap_of t' n \<le> 2 ^ 62" for n
  proof (cases "map_of want n")
    case None
    then show ?thesis
      using TryAcquire_granted [OF a r g, of n] t by (auto simp: quota_sound_def qty_def)
  next
    case (Some q)
    then have "used_of t n + q \<le> cap_of t n"
      using TryAcquire_fits [OF a r g] by (auto dest: map_of_SomeD)
    then show ?thesis
      using TryAcquire_granted [OF a r g, of n] t Some by (auto simp: quota_sound_def qty_def)
  qed
  then show ?thesis using TryAcquire_granted [OF a r g] by (simp add: quota_sound_def)
qed

lemma quota_sound_refused:
  assumes t: "quota_sound t" and g: "TryAcquire p i want t = (False, t')"
  shows "quota_sound t'"
  using TryAcquire_refused [OF g] frame_accounted [of t' t] frame_used_of [of t' t] t
  by (auto simp: quota_sound_def)

lemma cap_of_capacity: "capacity t' = capacity t \<Longrightarrow> cap_of t' n = cap_of t n"
  by (simp add: cap_of_def)

lemma quota_sound_release:
  assumes t: "quota_sound t"
  shows "quota_sound (Release i t)"
proof -
  have a: "accounted t" using t by (simp add: quota_sound_def)
  have "used_of (Release i t) n \<le> cap_of (Release i t) n \<and> cap_of (Release i t) n \<le> 2 ^ 62" for n
  proof -
    have "used_of t n \<le> cap_of t n" "cap_of t n \<le> 2 ^ 62" using t by (auto simp: quota_sound_def)
    moreover have "cap_of (Release i t) n = cap_of t n"
      using Release_effect [OF a, of i] cap_of_capacity by blast
    moreover have "0 \<le> qty (held_by t i) n"
      using accounted_held [OF a, of i n] qty_nonneg by blast
    ultimately show ?thesis using Release_effect [OF a, of i n] by simp
  qed
  then show ?thesis using Release_effect [OF a] by (simp add: quota_sound_def)
qed

interpretation tracker: quota_manager
  "TryAcquire p" Release used_of cap_of "\<lambda>t i. qty (held_by t i)" qty quota_sound small_request for p
proof (unfold_locales, goal_cases)
  case (1 s n)
  then show ?case by (simp add: quota_sound_def)
next
  case (2 s w i)
  obtain ok s' where s': "TryAcquire p i w s = (ok, s')" by fastforce
  then show ?case
    using 2 quota_sound_granted [of s w p i s'] quota_sound_refused [of s p i w s'] by (cases ok) auto
next
  case (3 s i)
  then show ?case by (rule quota_sound_release)
next
  case (4 s w i s' n j)
  then show ?case
    using TryAcquire_granted [of s w p i s' n j] small_request_ok [of s w] by (simp add: quota_sound_def)
next
  case (5 s i n j)
  then show ?case using Release_effect [of s i n j] by (simp add: quota_sound_def)
qed

section \<open>Properties\<close>

definition want1 :: "(string \<times> int) list" where
  "want1 = [(''db'', 2), (''cpu'', 1)]"

definition tracker1 :: ResourceTracker where
  "tracker1 = \<lparr>capacity = [''db'' \<mapsto> 2], used = (\<lambda>_. None), holders = []\<rparr>"

lemma tracker1_sound: "quota_sound tracker1"
  by (auto simp: quota_sound_def accounted_def tracker1_def used_of_def cap_of_def max_int64_def
      split: option.splits)

lemma want1_small: "small_request want1"
  by (simp add: small_request_def holding_ok_def want1_def)



text \<open>
  An acquisition is all or nothing: it is granted exactly when every requested quantity fits
  (the registry accepting the new names); granted, every counter and the holdings of the requester
  grow by exactly the request and nothing else moves; refused, no counter and no holding changes.
\<close>

theorem TryAcquire_all_or_nothing:
  assumes "accounted t" and "request_ok t want" and "TryAcquire (\<lambda>_. True) i want t = (ok, t')"
  shows "ok = (\<forall>(n, q) \<in> set want. used_of t n + q \<le> cap_of t n) \<and>
         (if ok
          then accounted t' \<and> (\<forall>n. used_of t' n = used_of t n + qty want n) \<and>
            (\<forall>j n. qty (held_by t' j) n = qty (held_by t j) n + (if j = i then qty want n else 0))
          else used t' = used t \<and> holders t' = holders t)"
proof -
  have "ok = (\<forall>(n, q) \<in> set want. used_of t n + q \<le> cap_of t n)"
    using TryAcquire_available [OF assms(1,2), of i] TryAcquire_fits [OF assms(1,2), of _ i t'] assms(3)
    by (cases ok) auto
  then show ?thesis
    using TryAcquire_granted [OF assms(1,2), of "\<lambda>_. True" i t']
      TryAcquire_refused [of "\<lambda>_. True" i want t t'] assms(3)
    by (cases ok) simp_all
qed

theorem TryAcquire_all_or_nothing_witness:
  "\<exists>t'. TryAcquire (\<lambda>_. True) ''a'' want1 tracker1 = (True, t') \<and> used_of t' ''db'' = 2"
proof -
  have a: "accounted tracker1" and r: "request_ok tracker1 want1"
    using tracker1_sound want1_small small_request_ok by (auto simp: quota_sound_def)
  obtain ok t' where t: "TryAcquire (\<lambda>_. True) ''a'' want1 tracker1 = (ok, t')" by fastforce
  have "ok" and "used_of t' ''db'' = used_of tracker1 ''db'' + qty want1 ''db''"
    using TryAcquire_all_or_nothing [OF a r t]
    by (auto simp: want1_def tracker1_def used_of_def cap_of_def split: if_splits)
  with t show ?thesis by (simp add: want1_def tracker1_def used_of_def qty_def)
qed

text \<open>
  Releasing what an instance acquired restores every usage counter, and releasing again
  changes nothing.
\<close>

theorem acquire_release_restores:
  assumes "quota_sound t" and "small_request want" and "TryAcquire p i want t = (True, t')"
    and "\<And>n. qty (held_by t i) n = 0"
  shows "used_of (Release i t') n = used_of t n \<and>
         used_of (Release i (Release i t')) n = used_of t n"
proof -
  have "quota_sound t'" using quota_sound_granted [OF assms(1-3)] .
  then show ?thesis
    using tracker.take_give [OF assms(1-3), of n] tracker.give_twice [of t' i n] assms(4) by simp
qed

theorem acquire_release_restores_witness:
  "used_of (Release ''a'' (snd (TryAcquire (\<lambda>_. True) ''a'' want1 tracker1))) ''db'' = 0"
proof -
  have g: "TryAcquire (\<lambda>_. True) ''a'' want1 tracker1 =
           (True, snd (TryAcquire (\<lambda>_. True) ''a'' want1 tracker1))"
    by (simp add: TryAcquire_def want1_def tracker1_def shortfallsLocked_def used_of_def cap_of_def i64_def)
  have "used_of tracker1 ''db'' = 0" "\<And>n. qty (held_by tracker1 ''a'') n = 0"
    by (simp_all add: tracker1_def used_of_def held_by_def)
  then show ?thesis
    using acquire_release_restores [OF tracker1_sound want1_small g, of "''db''"] by simp
qed

text \<open>
  The fit test adds in 64 bits: on a resource whose single unit is taken, a request for the
  largest integer wraps to a negative sum and is granted, and the counter becomes negative.
\<close>

theorem TryAcquire_wraps:
  "fst (TryAcquire (\<lambda>_. True) ''b'' [(''db'', max_int64)]
      (snd (TryAcquire (\<lambda>_. True) ''a'' [(''db'', 1)] NewResourceTracker)))
   \<and> used_of (snd (TryAcquire (\<lambda>_. True) ''b'' [(''db'', max_int64)]
      (snd (TryAcquire (\<lambda>_. True) ''a'' [(''db'', 1)] NewResourceTracker)))) ''db'' = min_int64"
  by code_simp

end
