(* ===== verification/Civil.thy ===== *)
theory Civil
  imports Prelude "HOL-Library.Char_ord" "HOL-Library.List_Lexorder"
begin

text \<open>
  Civil dates: what the code uses of Go's \<open>time\<close> package for date labels \<open>YYYY-MM-DD\<close> (parse,
  format, \<open>AddDate(0,0,n)\<close>, weekday, days in a month) and the label arithmetic of
  \<open>server/internal/scheduler/odate.go\<close> and \<open>daily.go\<close>.  Labels are compared as byte strings, in
  Go and in SQL; the order on \<^typ>\<open>string\<close> is the lexicographic one.
\<close>

section \<open>Dates\<close>

record date =
  dyear :: int
  dmonth :: int
  dday :: int

definition is_leap :: "int \<Rightarrow> bool" where
  "is_leap y \<longleftrightarrow> y mod 4 = 0 \<and> (y mod 100 \<noteq> 0 \<or> y mod 400 = 0)"

definition days_in_month :: "int \<Rightarrow> int \<Rightarrow> int" where
  "days_in_month y m =
     (if m = 2 then (if is_leap y then 29 else 28)
      else if m = 4 \<or> m = 6 \<or> m = 9 \<or> m = 11 then 30 else 31)"

definition valid_date :: "date \<Rightarrow> bool" where
  "valid_date d \<longleftrightarrow> 1 \<le> dmonth d \<and> dmonth d \<le> 12 \<and> 1 \<le> dday d \<and>
     dday d \<le> days_in_month (dyear d) (dmonth d)"

definition next_day :: "date \<Rightarrow> date" where
  "next_day d =
     (if dday d < days_in_month (dyear d) (dmonth d) then d\<lparr>dday := dday d + 1\<rparr>
      else if dmonth d < 12 then d\<lparr>dmonth := dmonth d + 1, dday := 1\<rparr>
      else \<lparr>dyear = dyear d + 1, dmonth = 1, dday = 1\<rparr>)"

definition prev_day :: "date \<Rightarrow> date" where
  "prev_day d =
     (if dday d > 1 then d\<lparr>dday := dday d - 1\<rparr>
      else if dmonth d > 1 then d\<lparr>dmonth := dmonth d - 1, dday := days_in_month (dyear d) (dmonth d - 1)\<rparr>
      else \<lparr>dyear = dyear d - 1, dmonth = 12, dday = 31\<rparr>)"

definition AddDate :: "int \<Rightarrow> date \<Rightarrow> date" where
  "AddDate n d = (if n \<ge> 0 then (next_day ^^ nat n) d else (prev_day ^^ nat (- n)) d)"

text \<open>Days of a common year before a month, and the day count since the year 0.\<close>

fun month_days :: "int \<Rightarrow> nat \<Rightarrow> int" where
  "month_days y 0 = 0"
| "month_days y (Suc k) = month_days y k + days_in_month y (int k + 1)"

definition before_month :: "int \<Rightarrow> int \<Rightarrow> int" where
  "before_month y m = month_days y (nat (m - 1))"

definition before_year :: "int \<Rightarrow> int" where
  "before_year y = 365 * (y - 1) + (y - 1) div 4 - (y - 1) div 100 + (y - 1) div 400"

definition day_number :: "date \<Rightarrow> int" where
  "day_number d = before_year (dyear d) + before_month (dyear d) (dmonth d) + dday d"

text \<open>\<open>time.Weekday\<close>: 0 is Sunday; the first of January of year 1 is a Monday.\<close>

definition Weekday :: "date \<Rightarrow> int" where
  "Weekday d = day_number d mod 7"

section \<open>Labels\<close>

fun dec_digits :: "nat \<Rightarrow> nat \<Rightarrow> string" where
  "dec_digits 0 n = []"
| "dec_digits (Suc w) n = dec_digits w (n div 10) @ [char_of (48 + n mod 10)]"

text \<open>Zero-padded decimal with at least \<open>w\<close> digits (Go's \<open>appendInt\<close>).\<close>

fun digit_count :: "nat \<Rightarrow> nat" where
  "digit_count n = (if n < 10 then 1 else Suc (digit_count (n div 10)))"

declare digit_count.simps [simp del]

definition pad_nat :: "nat \<Rightarrow> nat \<Rightarrow> string" where
  "pad_nat w k = dec_digits (if k < 10 ^ w then w else digit_count k) k"

definition pad_int :: "nat \<Rightarrow> int \<Rightarrow> string" where
  "pad_int w n = (if n < 0 then ''-'' @ pad_nat w (nat (- n)) else pad_nat w (nat n))"

definition FormatDate :: "date \<Rightarrow> string" where
  "FormatDate d = pad_int 4 (dyear d) @ ''-'' @ pad_int 2 (dmonth d) @ ''-'' @ pad_int 2 (dday d)"

definition ParseDate :: "string \<Rightarrow> date option" where
  "ParseDate s =
     (let ys = take 4 s; ms = take 2 (drop 5 s); ds = take 2 (drop 8 s);
          d = \<lparr>dyear = digits_val 0 ys, dmonth = digits_val 0 ms, dday = digits_val 0 ds\<rparr>
      in if length s = 10 \<and> s ! 4 = CHR ''-'' \<and> s ! 7 = CHR ''-'' \<and>
            list_all is_digit ys \<and> list_all is_digit ms \<and> list_all is_digit ds \<and> valid_date d
         then Some d else None)"

section \<open>Label arithmetic\<close>

definition AddDays :: "string \<Rightarrow> int \<Rightarrow> string" where
  "AddDays date n = (case ParseDate date of None \<Rightarrow> date | Some t \<Rightarrow> FormatDate (AddDate n t))"

definition daysBetween :: "string \<Rightarrow> string \<Rightarrow> int" where
  "daysBetween a b =
     (case (ParseDate a, ParseDate b) of
        (Some ta, Some tb) \<Rightarrow> day_number tb - day_number ta
      | _ \<Rightarrow> 0)"

section \<open>Calendar lemmas\<close>

lemma days_in_month_pos: "1 \<le> days_in_month y m"
  by (simp add: days_in_month_def)

lemma valid_next_day: "valid_date d \<Longrightarrow> valid_date (next_day d)"
  using days_in_month_pos [of "dyear d" "dmonth d + 1"]
  by (auto simp: valid_date_def next_day_def days_in_month_def)

lemma valid_prev_day: "valid_date d \<Longrightarrow> valid_date (prev_day d)"
  using days_in_month_pos [of "dyear d" "dmonth d - 1"]
  by (auto simp: valid_date_def prev_day_def) (auto simp: days_in_month_def)

lemma next_prev_day: "valid_date d \<Longrightarrow> next_day (prev_day d) = d"
  by (cases d) (auto simp: valid_date_def prev_day_def next_day_def days_in_month_def)

lemma prev_next_day: "valid_date d \<Longrightarrow> prev_day (next_day d) = d"
  by (cases d) (auto simp: valid_date_def prev_day_def next_day_def days_in_month_def)

lemma before_month_Suc:
  "1 \<le> m \<Longrightarrow> before_month y (m + 1) = before_month y m + days_in_month y m"
proof -
  assume m: "1 \<le> m"
  then have "nat (m + 1 - 1) = Suc (nat (m - 1))" "int (nat (m - 1)) + 1 = m" by auto
  then show ?thesis by (simp only: before_month_def month_days.simps)
qed

lemma before_month_1 [simp]: "before_month y 1 = 0"
  by (simp add: before_month_def)

lemma before_month_13: "before_month y 12 + 31 = (if is_leap y then 366 else 365)"
  by (simp add: before_month_def eval_nat_numeral days_in_month_def)

lemma div_pred:
  fixes y k :: int
  assumes "0 < k"
  shows "y div k = (y - 1) div k + (if y mod k = 0 then 1 else 0)"
proof (cases "y mod k = 0")
  case True
  have "y - 1 = k * (y div k - 1) + (k - 1)"
    using True mult_div_mod_eq [of k y] by (simp add: algebra_simps)
  then have "(y - 1) div k = y div k - 1"
    by (rule int_div_pos_eq) (use assms in auto)
  with True show ?thesis by simp
next
  case False
  have "y - 1 = k * (y div k) + (y mod k - 1)"
    using mult_div_mod_eq [of k y] by (simp add: algebra_simps)
  moreover have "0 \<le> y mod k - 1" "y mod k - 1 < k"
    using False assms pos_mod_sign [of k y] pos_mod_bound [of k y] by linarith+
  ultimately have "(y - 1) div k = y div k" by (rule int_div_pos_eq)
  with False show ?thesis by simp
qed

lemma leap_multiples:
  fixes y :: int
  shows "y mod 400 = 0 \<Longrightarrow> y mod 100 = 0" "y mod 100 = 0 \<Longrightarrow> y mod 4 = 0"
proof -
  have d: "(100::int) dvd 400" "(4::int) dvd 100" by simp_all
  show "y mod 400 = 0 \<Longrightarrow> y mod 100 = 0" "y mod 100 = 0 \<Longrightarrow> y mod 4 = 0"
    using dvd_trans [OF d(1), of y] dvd_trans [OF d(2), of y] by (simp_all only: dvd_eq_mod_eq_0)
qed

lemma before_year_Suc: "before_year (y + 1) = before_year y + (if is_leap y then 366 else 365)"
proof -
  define A B C where "A \<longleftrightarrow> y mod 4 = 0" and "B \<longleftrightarrow> y mod 100 = 0" and "C \<longleftrightarrow> y mod 400 = 0"
  have d: "y div 4 = (y - 1) div 4 + (if A then 1 else 0)"
    "y div 100 = (y - 1) div 100 + (if B then 1 else 0)"
    "y div 400 = (y - 1) div 400 + (if C then 1 else 0)"
    unfolding A_def B_def C_def by (rule div_pred, simp)+
  have l: "is_leap y \<longleftrightarrow> A \<and> (\<not> B \<or> C)" and m: "C \<Longrightarrow> B" "B \<Longrightarrow> A"
    using leap_multiples [of y] by (simp_all only: is_leap_def A_def B_def C_def simp_thms)
  have y: "y + 1 - 1 = y" by simp
  show ?thesis
    unfolding before_year_def y d l using m by (cases A; cases B; cases C) simp_all
qed

lemma day_number_next: "valid_date d \<Longrightarrow> day_number (next_day d) = day_number d + 1"
proof -
  assume v: "valid_date d"
  consider "dday d < days_in_month (dyear d) (dmonth d)"
    | "dday d = days_in_month (dyear d) (dmonth d)" "dmonth d < 12"
    | "dday d = days_in_month (dyear d) (dmonth d)" "dmonth d = 12"
    using v by (force simp: valid_date_def)
  then show ?thesis
  proof cases
    case 1
    then show ?thesis by (simp add: next_day_def day_number_def)
  next
    case 2
    then show ?thesis
      using v before_month_Suc [of "dmonth d" "dyear d"]
      by (simp add: next_day_def day_number_def valid_date_def)
  next
    case 3
    then have "dday d = 31" by (simp add: days_in_month_def)
    with 3 show ?thesis
      using before_year_Suc [of "dyear d"] before_month_13 [of "dyear d"]
      by (simp add: next_day_def day_number_def days_in_month_def)
  qed
qed

lemma day_number_prev: "valid_date d \<Longrightarrow> day_number (prev_day d) = day_number d - 1"
  using day_number_next [OF valid_prev_day] next_prev_day by fastforce

lemma pow_next: "valid_date d \<Longrightarrow> valid_date ((next_day ^^ n) d) \<and> day_number ((next_day ^^ n) d) = day_number d + int n"
  by (induction n) (auto simp: valid_next_day day_number_next)

lemma pow_prev: "valid_date d \<Longrightarrow> valid_date ((prev_day ^^ n) d) \<and> day_number ((prev_day ^^ n) d) = day_number d - int n"
  by (induction n) (auto simp: valid_prev_day day_number_prev)

lemma AddDate_valid: "valid_date d \<Longrightarrow> valid_date (AddDate n d)"
  using pow_next pow_prev by (auto simp: AddDate_def)

lemma AddDate_number: "valid_date d \<Longrightarrow> day_number (AddDate n d) = day_number d + n"
  using pow_next [of d "nat n"] pow_prev [of d "nat (- n)"] by (auto simp: AddDate_def)

section \<open>The day count determines the date\<close>

lemma month_days_mono: "i \<le> j \<Longrightarrow> month_days y i \<le> month_days y j"
proof (induction j)
  case 0
  then show ?case by simp
next
  case (Suc j)
  then show ?case using days_in_month_pos [of y "int j + 1"] by (cases "i = Suc j") auto
qed

lemma before_month_nonneg: "0 \<le> before_month y m"
  using month_days_mono [of 0 "nat (m - 1)" y] by (simp add: before_month_def)

lemma before_month_less:
  assumes "1 \<le> m" "m < m'"
  shows "before_month y m + days_in_month y m \<le> before_month y m'"
  using month_days_mono [of "nat (m + 1 - 1)" "nat (m' - 1)" y] before_month_Suc [OF assms(1), of y] assms
  by (simp add: before_month_def)

lemma before_year_less: "y < y' \<Longrightarrow> before_year (y + 1) \<le> before_year y'"
proof (induction "nat (y' - y)" arbitrary: y')
  case 0
  then show ?case by simp
next
  case (Suc n)
  show ?case
  proof (cases "y' = y + 1")
    case False
    then have "before_year (y + 1) \<le> before_year (y' - 1)" using Suc by auto
    then show ?thesis using before_year_Suc [of "y' - 1"] by (simp split: if_splits)
  qed simp
qed

lemma day_of_year_bound:
  assumes "valid_date d"
  shows "1 \<le> before_month (dyear d) (dmonth d) + dday d"
    "before_month (dyear d) (dmonth d) + dday d \<le> (if is_leap (dyear d) then 366 else 365)"
proof -
  show "1 \<le> before_month (dyear d) (dmonth d) + dday d"
    using assms before_month_nonneg [of "dyear d" "dmonth d"] by (simp add: valid_date_def)
  have "before_month (dyear d) (dmonth d) + days_in_month (dyear d) (dmonth d)
          \<le> before_month (dyear d) 12 + 31"
  proof (cases "dmonth d = 12")
    case False
    then show ?thesis
      using before_month_less [of "dmonth d" 12 "dyear d"] assms by (simp add: valid_date_def)
  qed (simp add: days_in_month_def)
  then show "before_month (dyear d) (dmonth d) + dday d \<le> (if is_leap (dyear d) then 366 else 365)"
    using assms before_month_13 [of "dyear d"] by (simp add: valid_date_def)
qed

definition date_less :: "date \<Rightarrow> date \<Rightarrow> bool" where
  "date_less d e \<longleftrightarrow> dyear d < dyear e \<or> dyear d = dyear e \<and>
     (dmonth d < dmonth e \<or> dmonth d = dmonth e \<and> dday d < dday e)"

lemma date_less_number:
  assumes "valid_date d" "valid_date e" "date_less d e"
  shows "day_number d < day_number e"
proof -
  consider "dyear d < dyear e" | "dyear d = dyear e" "dmonth d < dmonth e"
    | "dyear d = dyear e" "dmonth d = dmonth e" "dday d < dday e"
    using assms(3) by (auto simp: date_less_def)
  then show ?thesis
  proof cases
    case 1
    then show ?thesis
      using before_year_less [of "dyear d" "dyear e"] before_year_Suc [of "dyear d"]
        day_of_year_bound [OF assms(1)] day_of_year_bound(1) [OF assms(2)]
      by (simp add: day_number_def)
  next
    case 2
    then show ?thesis
      using before_month_less [of "dmonth d" "dmonth e" "dyear d"] assms(1,2)
      by (simp add: day_number_def valid_date_def)
  next
    case 3
    then show ?thesis by (simp add: day_number_def)
  qed
qed

lemma date_less_linear: "date_less d e \<or> d = e \<or> date_less e d"
  by (cases d; cases e) (auto simp: date_less_def)

lemma day_number_less_iff:
  assumes "valid_date d" "valid_date e"
  shows "day_number d < day_number e \<longleftrightarrow> date_less d e"
  using date_less_linear [of d e] date_less_number [OF assms] date_less_number [OF assms(2,1)] by force

lemma day_number_inj: "valid_date d \<Longrightarrow> valid_date e \<Longrightarrow> day_number d = day_number e \<Longrightarrow> d = e"
  using date_less_linear [of d e] day_number_less_iff [of d e] day_number_less_iff [of e d] by auto

section \<open>Labels: round trip and order\<close>

lemma length_dec_digits [simp]: "length (dec_digits w n) = w"
  by (induction w arbitrary: n) auto

lemma is_digit_char: "k < (10::nat) \<Longrightarrow> is_digit (char_of (48 + k))"
  by (simp add: is_digit_def)

lemma digit_val_char: "k < (10::nat) \<Longrightarrow> digit_val (char_of (48 + k)) = int k"
  by (simp add: digit_val_def)

lemma dec_digits_digits: "list_all is_digit (dec_digits w n)"
  by (induction w arbitrary: n) (auto simp: is_digit_char)

lemma digits_val_snoc: "digits_val acc (s @ [c]) = 10 * digits_val acc s + digit_val c"
  by (induction s arbitrary: acc) auto

lemma digits_val_dec: "n < 10 ^ w \<Longrightarrow> digits_val 0 (dec_digits w n) = int n"
proof (induction w arbitrary: n)
  case 0
  then show ?case by simp
next
  case (Suc w)
  then have "n div 10 < 10 ^ w" by (simp add: div_less_iff_less_mult mult.commute)
  moreover have "10 * int (n div 10) + int (n mod 10) = int n" by presburger
  ultimately show ?case using Suc.IH by (simp add: digits_val_snoc digit_val_char)
qed

definition label_year :: "date \<Rightarrow> bool" where
  "label_year d \<longleftrightarrow> 0 \<le> dyear d \<and> dyear d \<le> 9999"

lemma label_parts:
  assumes "valid_date d" "label_year d"
  shows "FormatDate d = dec_digits 4 (nat (dyear d)) @ ''-'' @ dec_digits 2 (nat (dmonth d)) @ ''-'' @
    dec_digits 2 (nat (dday d))" "nat (dmonth d) < 10 ^ 2" "nat (dday d) < 10 ^ 2" "nat (dyear d) < 10 ^ 4"
proof -
  have "days_in_month (dyear d) (dmonth d) \<le> 31" by (simp add: days_in_month_def)
  then show "FormatDate d = dec_digits 4 (nat (dyear d)) @ ''-'' @ dec_digits 2 (nat (dmonth d)) @ ''-'' @
    dec_digits 2 (nat (dday d))" "nat (dmonth d) < 10 ^ 2" "nat (dday d) < 10 ^ 2" "nat (dyear d) < 10 ^ 4"
    using assms by (auto simp: valid_date_def label_year_def FormatDate_def pad_int_def pad_nat_def)
qed

lemma ParseDate_Format:
  assumes "valid_date d" "label_year d"
  shows "ParseDate (FormatDate d) = Some d"
proof -
  define Y M D where "Y = dec_digits 4 (nat (dyear d))" and "M = dec_digits 2 (nat (dmonth d))"
    and "D = dec_digits 2 (nat (dday d))"
  have l: "length Y = 4" "length M = 2" "length D = 2" by (simp_all add: Y_def M_def D_def)
  have v: "digits_val 0 Y = dyear d" "digits_val 0 M = dmonth d" "digits_val 0 D = dday d"
    using label_parts [OF assms] assms
    by (auto simp: Y_def M_def D_def digits_val_dec valid_date_def label_year_def)
  have g: "list_all is_digit Y" "list_all is_digit M" "list_all is_digit D"
    by (simp_all add: Y_def M_def D_def dec_digits_digits)
  have f: "FormatDate d = Y @ ''-'' @ M @ ''-'' @ D"
    using label_parts(1) [OF assms] by (simp add: Y_def M_def D_def)
  have r: "\<lparr>dyear = dyear d, dmonth = dmonth d, dday = dday d\<rparr> = d" by (cases d) simp
  show ?thesis
    using l v g assms(1) by (simp add: ParseDate_def Let_def f nth_append r)
qed

lemma list_less_append:
  fixes xs ys us vs :: "string"
  shows "length xs = length ys \<Longrightarrow> xs @ us < ys @ vs \<longleftrightarrow> xs < ys \<or> xs = ys \<and> us < vs"
proof (induction xs ys rule: list_induct2)
  case Nil
  then show ?case by simp
next
  case (Cons x xs y ys)
  then show ?case by (auto simp: Cons_less_Cons)
qed

lemma char_of_less: "m < 10 \<Longrightarrow> n < 10 \<Longrightarrow> (char_of (48 + m) :: char) < char_of (48 + n) \<longleftrightarrow> m < (n::nat)"
  by (simp add: less_char_def)

lemma dec_digits_inj: "m < 10 ^ w \<Longrightarrow> n < 10 ^ w \<Longrightarrow> dec_digits w m = dec_digits w n \<longleftrightarrow> m = n"
  by (metis digits_val_dec of_nat_eq_iff)

lemma dec_digits_less:
  "m < 10 ^ w \<Longrightarrow> n < 10 ^ w \<Longrightarrow> dec_digits w m < dec_digits w n \<longleftrightarrow> m < n"
proof (induction w arbitrary: m n)
  case 0
  then show ?case by simp
next
  case (Suc w)
  have b: "m div 10 < 10 ^ w" "n div 10 < 10 ^ w"
    using Suc.prems by (simp_all add: div_less_iff_less_mult mult.commute)
  define q r q' r' where "q = m div 10" and "r = m mod 10" and "q' = n div 10" and "r' = n mod 10"
  have mn: "m = 10 * q + r" "n = 10 * q' + r'" "r < 10" "r' < 10"
    by (simp_all add: q_def r_def q'_def r'_def)
  have e: "dec_digits (Suc w) m = dec_digits w q @ [char_of (48 + r)]"
    "dec_digits (Suc w) n = dec_digits w q' @ [char_of (48 + r')]"
    by (simp_all add: q_def r_def q'_def r'_def)
  have "dec_digits (Suc w) m < dec_digits (Suc w) n \<longleftrightarrow> q < q' \<or> q = q' \<and> r < r'"
    unfolding e using Suc.IH [OF b] dec_digits_inj [OF b] char_of_less [OF mn(3,4)]
    by (simp add: list_less_append Cons_less_Cons q_def [symmetric] q'_def [symmetric])
  also have "\<dots> \<longleftrightarrow> m < n" using mn by auto
  finally show ?case .
qed

lemma label_order:
  assumes "valid_date d" "label_year d" "valid_date e" "label_year e"
  shows "FormatDate d < FormatDate e \<longleftrightarrow> day_number d < day_number e"
proof -
  note p = label_parts [OF assms(1,2)] label_parts [OF assms(3,4)]
  have "FormatDate d < FormatDate e \<longleftrightarrow>
      nat (dyear d) < nat (dyear e) \<or> nat (dyear d) = nat (dyear e) \<and>
      (nat (dmonth d) < nat (dmonth e) \<or> nat (dmonth d) = nat (dmonth e) \<and> nat (dday d) < nat (dday e))"
    unfolding p(1) p(5)
    by (simp add: list_less_append dec_digits_less [OF p(4) p(8)] dec_digits_inj [OF p(4) p(8)]
        dec_digits_less [OF p(2) p(6)] dec_digits_inj [OF p(2) p(6)] dec_digits_less [OF p(3) p(7)]
        Cons_less_Cons)
  also have "\<dots> \<longleftrightarrow> date_less d e"
    using assms by (auto simp: date_less_def valid_date_def label_year_def nat_eq_iff)
  finally show ?thesis using day_number_less_iff [OF assms(1,3)] by simp
qed

lemma ParseDate_valid: "ParseDate s = Some d \<Longrightarrow> valid_date d"
  by (auto simp: ParseDate_def Let_def split: if_splits)

text \<open>
  Shifting a label by \<open>n\<close> days (the result staying in the four-digit years) gives a label
  exactly \<open>n\<close> days away, the shifts compose, and comparing labels as strings is comparing days.
\<close>

theorem AddDays_shifts:
  assumes s: "ParseDate s = Some d" and a: "label_year d" "label_year (AddDate n d)"
    and s': "FormatDate d = s"
  shows "daysBetween s (AddDays s n) = n \<and> (s < AddDays s n \<longleftrightarrow> 0 < n) \<and>
    AddDays (AddDays s n) m = FormatDate (AddDate (n + m) d)"
proof -
  have v: "valid_date d" using ParseDate_valid [OF s] .
  note va = AddDate_valid [OF v, of n]
  have p: "ParseDate (AddDays s n) = Some (AddDate n d)"
    using s ParseDate_Format [OF va a(2)] by (simp add: AddDays_def)
  have "daysBetween s (AddDays s n) = n"
    using s p by (simp add: daysBetween_def AddDate_number [OF v])
  moreover have "s < AddDays s n \<longleftrightarrow> 0 < n"
    using label_order [OF v a(1) va a(2)] s s' by (simp add: AddDays_def AddDate_number [OF v])
  moreover have "AddDate m (AddDate n d) = AddDate (n + m) d"
    by (rule day_number_inj) (simp_all add: AddDate_valid AddDate_number v)
  ultimately show ?thesis using p by (simp add: AddDays_def)
qed

theorem AddDays_shifts_witness:
  "daysBetween ''2024-02-28'' (AddDays ''2024-02-28'' 2) = 2 \<and>
   AddDays (AddDays ''2024-02-28'' 2) (- 1) = ''2024-02-29''"
proof -
  define d where "d = \<lparr>dyear = 2024, dmonth = 2, dday = 28\<rparr>"
  have s: "ParseDate ''2024-02-28'' = Some d" unfolding d_def by code_simp
  have y: "label_year d" "label_year (AddDate 2 d)" "FormatDate d = ''2024-02-28''"
    "FormatDate (AddDate (2 + (- 1)) d) = ''2024-02-29''"
    unfolding d_def by code_simp+
  show ?thesis using AddDays_shifts [OF s y(1-3), of "- 1"] y(4) by simp
qed

end
