(* ===== verification/Pool.thy ===== *)
theory Pool
  imports Conditions Civil
begin

text \<open>
  The pool of conditions of \<open>server/internal/scheduler/conditions.go\<close> (the SQL table
  \<open>conditions\<close>, keyed by name and scope date) and the origin-date rules of \<open>odate.go\<close>.  A write
  can fail in the store: \<open>accepts name scope\<close> says which writes succeed; a failed write leaves
  the table as it was, and \<open>ApplyOutcomes\<close> ignores the error as the code does.
\<close>

section \<open>The table\<close>

record CondRow =
  CondName :: string
  ScopeDate :: string
  SetAt :: int
  SetBy :: string

type_synonym pool = "CondRow list"

definition cond_key :: "CondRow \<Rightarrow> string \<times> string" where
  "cond_key r = (CondName r, ScopeDate r)"

definition Has :: "pool \<Rightarrow> string \<Rightarrow> string \<Rightarrow> bool" where
  "Has p name scope \<longleftrightarrow>
     count_where (\<lambda>r. CondName r = name \<and> (ScopeDate r = scope \<or> ScopeDate r = [])) p > 0"

definition SetCond :: "int \<Rightarrow> string \<Rightarrow> string \<Rightarrow> string \<Rightarrow> pool \<Rightarrow> pool" where
  "SetCond now name scope setBy p =
     delete_where (\<lambda>r. cond_key r = (name, scope)) p @
     [\<lparr>CondName = name, ScopeDate = scope, SetAt = now, SetBy = setBy\<rparr>]"

definition Unset :: "string \<Rightarrow> string \<Rightarrow> pool \<Rightarrow> pool" where
  "Unset name scope p =
     (if scope = [] then delete_where (\<lambda>r. CondName r = name \<and> ScopeDate r = []) p
      else delete_where (\<lambda>r. CondName r = name \<and> ScopeDate r = scope) p)"

definition condKey :: "string \<Rightarrow> string \<Rightarrow> string" where
  "condKey name scope = name @ [CHR 0x00] @ scope"

definition LoadIndex :: "pool \<Rightarrow> string list" where
  "LoadIndex p = map (\<lambda>r. condKey (CondName r) (ScopeDate r)) p"

text \<open>No index (\<^const>\<open>None\<close>, the \<open>nil\<close> map) falls back to the table.\<close>

definition hasIdx :: "pool \<Rightarrow> string \<Rightarrow> string \<Rightarrow> string list option \<Rightarrow> bool" where
  "hasIdx p name scope idx =
     (case idx of
        Some keys \<Rightarrow> containsStr keys (condKey name scope) \<or> containsStr keys (condKey name [])
      | None \<Rightarrow> Has p name scope)"

section \<open>Origin dates\<close>

text \<open>A row of \<open>daily_runs\<close>; the plan is the value its JSON decodes to (\<^const>\<open>None\<close>: invalid JSON).\<close>

record DailyRunRow =
  DrDate :: string
  DrState :: string
  DrSha :: string
  DrExpected :: int
  DrInserted :: int
  DrCheckpoint :: int
  DrCarryDone :: bool
  DrCarried :: int
  DrPlan :: "JobDefinition list option"
  DrSum :: string

text \<open>\<open>MAX\<close> over the settled runs before the date; without one, the calendar day before.\<close>

definition prevDaily :: "DailyRunRow list \<Rightarrow> string \<Rightarrow> string" where
  "prevDaily runs odate =
     (let past = map DrDate (filter (\<lambda>r. DrDate r < odate \<and>
                   (DrState r = ''completed'' \<or> DrState r = ''legacy'')) runs);
          prev = fold max past []
      in if prev \<noteq> [] then prev
         else case ParseDate odate of
           Some t \<Rightarrow> FormatDate (AddDate (- 1) t)
         | None \<Rightarrow> odate)"

definition resolveCondScope :: "string \<Rightarrow> string \<Rightarrow> (string \<Rightarrow> string) \<Rightarrow> string \<times> string" where
  "resolveCondScope name odate prevOf =
     (let (base, ref) = SplitCondRef name in
      if ref = DateRefStat then (base, [])
      else if ref = DateRefPrev then (base, prevOf odate)
      else (base, odate))"

section \<open>Outcomes and missing conditions\<close>

definition set_step ::
  "(string \<Rightarrow> string \<Rightarrow> bool) \<Rightarrow> int \<Rightarrow> string \<Rightarrow> string \<Rightarrow> (string \<Rightarrow> string) \<Rightarrow> string \<Rightarrow> pool \<Rightarrow> pool" where
  "set_step accepts now actor odate prevOf n p =
     (let (base, scope) = resolveCondScope n odate prevOf in
      if accepts base scope then SetCond now base scope actor p else p)"

definition unset_step ::
  "(string \<Rightarrow> string \<Rightarrow> bool) \<Rightarrow> string \<Rightarrow> (string \<Rightarrow> string) \<Rightarrow> string \<Rightarrow> pool \<Rightarrow> pool" where
  "unset_step accepts odate prevOf n p =
     (let (base, scope) = resolveCondScope n odate prevOf in
      if accepts base scope then Unset base scope p else p)"

definition ApplyOutcomes ::
  "(string \<Rightarrow> string \<Rightarrow> bool) \<Rightarrow> int \<Rightarrow> JobDefinition \<Rightarrow> string \<Rightarrow> string \<Rightarrow> (string \<Rightarrow> string) \<Rightarrow>
   pool \<Rightarrow> pool" where
  "ApplyOutcomes accepts now d odate actor prevOf p =
     fold (unset_step accepts odate prevOf) (ConditionsOutRemove d)
       (fold (set_step accepts now actor odate prevOf) (ConditionsOutAdd d) p)"

record MissingCond =
  McName :: string
  McBase :: string
  McScope :: string
  McLabel :: string

definition scope_label :: "string \<Rightarrow> string \<Rightarrow> string" where
  "scope_label scope odate =
     (if scope = [] then '' (static)''
      else if scope \<noteq> odate then '' (daily '' @ scope @ '')'' else [])"

definition MissingIdx ::
  "pool \<Rightarrow> string list \<Rightarrow> string \<Rightarrow> (string \<Rightarrow> string) \<Rightarrow> string list option \<Rightarrow> MissingCond list" where
  "MissingIdx p names odate prevOf idx =
     concat (map (\<lambda>n.
       (let (base, scope) = resolveCondScope n odate prevOf in
        if hasIdx p base scope idx then []
        else [\<lparr>McName = n, McBase = base, McScope = scope, McLabel = scope_label scope odate\<rparr>])) names)"

definition Missing :: "pool \<Rightarrow> string list \<Rightarrow> string \<Rightarrow> (string \<Rightarrow> string) \<Rightarrow> MissingCond list" where
  "Missing p names odate prevOf = MissingIdx p names odate prevOf None"

section \<open>The interface: a set of facts\<close>

locale fact_store =
  fixes holds :: "'s \<Rightarrow> 'k \<Rightarrow> bool"
    and put :: "'k \<Rightarrow> 's \<Rightarrow> 's"
    and del :: "'k \<Rightarrow> 's \<Rightarrow> 's"
  assumes holds_put: "holds (put k s) k' \<longleftrightarrow> k = k' \<or> holds s k'"
    and holds_del: "holds (del k s) k' \<longleftrightarrow> k \<noteq> k' \<and> holds s k'"

context fact_store
begin

lemma holds_puts: "holds (fold put ks s) k \<longleftrightarrow> k \<in> set ks \<or> holds s k"
  by (induction ks arbitrary: s) (auto simp: holds_put)

lemma holds_dels: "holds (fold del ks s) k \<longleftrightarrow> k \<notin> set ks \<and> holds s k"
  by (induction ks arbitrary: s) (auto simp: holds_del)

lemma outcome: "holds (fold del rs (fold put as s)) k \<longleftrightarrow> k \<notin> set rs \<and> (k \<in> set as \<or> holds s k)"
  by (simp add: holds_puts holds_dels)

lemma outcome_idem:
  "holds (fold del rs (fold put as (fold del rs (fold put as s)))) k
     \<longleftrightarrow> holds (fold del rs (fold put as s)) k"
  by (auto simp: outcome)

end

definition in_pool :: "pool \<Rightarrow> string \<times> string \<Rightarrow> bool" where
  "in_pool p k \<longleftrightarrow> row_of cond_key k p \<noteq> None"

lemma in_pool_iff: "in_pool p k \<longleftrightarrow> k \<in> cond_key ` set p"
  using row_of_None [of cond_key k p] by (auto simp: in_pool_def)

interpretation pool_facts: fact_store in_pool
  "\<lambda>k. SetCond now (fst k) (snd k) actor" "\<lambda>k. Unset (fst k) (snd k)" for now actor
  by unfold_locales
    (auto simp: in_pool_iff SetCond_def Unset_def delete_where_def cond_key_def split: if_splits)

section \<open>Lemmas\<close>

lemma Has_in_pool: "Has p name scope \<longleftrightarrow> in_pool p (name, scope) \<or> in_pool p (name, [])"
  by (auto simp: Has_def in_pool_iff cond_key_def count_where_def filter_empty_conv)

definition resolved :: "string list \<Rightarrow> string \<Rightarrow> (string \<Rightarrow> string) \<Rightarrow> (string \<times> string) list" where
  "resolved ns odate prevOf = map (\<lambda>n. resolveCondScope n odate prevOf) ns"

lemma fold_set_step:
  "fold (set_step (\<lambda>_ _. True) now actor odate prevOf) ns p =
   fold (\<lambda>k. SetCond now (fst k) (snd k) actor) (resolved ns odate prevOf) p"
  by (induction ns arbitrary: p) (auto simp: resolved_def set_step_def split: prod.splits)

lemma fold_unset_step:
  "fold (unset_step (\<lambda>_ _. True) odate prevOf) ns p =
   fold (\<lambda>k. Unset (fst k) (snd k)) (resolved ns odate prevOf) p"
  by (induction ns arbitrary: p) (auto simp: resolved_def unset_step_def split: prod.splits)

lemma ApplyOutcomes_in_pool:
  "in_pool (ApplyOutcomes (\<lambda>_ _. True) now d odate actor prevOf p) k \<longleftrightarrow>
     k \<notin> set (resolved (ConditionsOutRemove d) odate prevOf) \<and>
     (k \<in> set (resolved (ConditionsOutAdd d) odate prevOf) \<or> in_pool p k)"
  by (simp add: ApplyOutcomes_def fold_set_step fold_unset_step pool_facts.outcome)

lemma keys_distinct_SetCond: "keys_distinct cond_key p \<Longrightarrow> keys_distinct cond_key (SetCond now n s a p)"
  by (auto simp: SetCond_def keys_distinct_def delete_where_def distinct_map_filter cond_key_def)

lemma keys_distinct_Unset: "keys_distinct cond_key p \<Longrightarrow> keys_distinct cond_key (Unset n s p)"
  by (simp add: Unset_def keys_distinct_delete_where)

lemma keys_distinct_ApplyOutcomes:
  "keys_distinct cond_key p \<Longrightarrow> keys_distinct cond_key (ApplyOutcomes accepts now d odate actor prevOf p)"
proof -
  assume k: "keys_distinct cond_key p"
  have "keys_distinct cond_key (fold (set_step accepts now actor odate prevOf) ns p)" for ns
    using k by (induction ns arbitrary: p) (auto simp: set_step_def keys_distinct_SetCond split: prod.splits)
  moreover have "keys_distinct cond_key (fold (unset_step accepts odate prevOf) ns q)"
    if "keys_distinct cond_key q" for ns q
    using that by (induction ns arbitrary: q) (auto simp: unset_step_def keys_distinct_Unset split: prod.splits)
  ultimately show ?thesis by (simp add: ApplyOutcomes_def)
qed

lemma Missing_names:
  "m \<in> set (MissingIdx p names odate prevOf idx) \<longleftrightarrow>
     McName m \<in> set names \<and> (McBase m, McScope m) = resolveCondScope (McName m) odate prevOf \<and>
     \<not> hasIdx p (McBase m) (McScope m) idx \<and> McLabel m = scope_label (McScope m) odate"
  by (cases m) (auto simp: MissingIdx_def split: prod.splits if_splits)

lemma condKey_inj:
  assumes "CHR 0x00 \<notin> set s" "CHR 0x00 \<notin> set s'"
  shows "condKey n s = condKey n' s' \<longleftrightarrow> n = n' \<and> s = s'"
proof
  assume e: "condKey n s = condKey n' s'"
  have "last_index (CHR 0x00) (n @ CHR 0x00 # s) = Some (length n)"
    "last_index (CHR 0x00) (n' @ CHR 0x00 # s') = Some (length n')"
    using assms by (simp_all add: last_index_append)
  with e have "length n = length n'" by (simp add: condKey_def)
  with e show "n = n' \<and> s = s'" by (simp add: condKey_def)
qed simp

section \<open>Properties\<close>

text \<open>
  The index the tick loads once decides exactly as a query of the table for every condition
  (scope dates contain no NUL byte; names may).
\<close>

theorem hasIdx_agrees_with_Has:
  assumes "\<forall>r\<in>set p. CHR 0x00 \<notin> set (ScopeDate r)" and "CHR 0x00 \<notin> set scope"
  shows "hasIdx p name scope (Some (LoadIndex p)) = hasIdx p name scope None"
proof -
  have "containsStr (LoadIndex p) (condKey name s) \<longleftrightarrow> in_pool p (name, s)" if "CHR 0x00 \<notin> set s" for s
  proof -
    have "condKey (CondName r) (ScopeDate r) = condKey name s \<longleftrightarrow> cond_key r = (name, s)" if "r \<in> set p" for r
      using assms(1) that condKey_inj [of "ScopeDate r" s "CondName r" name] \<open>CHR 0x00 \<notin> set s\<close>
      by (simp add: cond_key_def)
    then have "(\<exists>r\<in>set p. condKey name s = condKey (CondName r) (ScopeDate r))
        \<longleftrightarrow> (\<exists>r\<in>set p. (name, s) = cond_key r)"
      by (intro bex_cong refl) (simp add: eq_commute)
    then show ?thesis by (simp only: containsStr_iff LoadIndex_def set_map image_iff in_pool_iff)
  qed
  then show ?thesis using assms(2) by (simp add: hasIdx_def Has_in_pool)
qed

definition example_pool :: pool where
  "example_pool = [\<lparr>CondName = ''A-TO-B'', ScopeDate = ''2026-07-16'', SetAt = 1, SetBy = ''scheduler''\<rparr>]"

theorem hasIdx_agrees_with_Has_witness:
  "hasIdx example_pool ''A-TO-B'' ''2026-07-16'' (Some (LoadIndex example_pool)) \<and>
   \<not> hasIdx example_pool ''A-TO-B'' ''2026-07-17'' (Some (LoadIndex example_pool))"
proof -
  have a: "\<forall>r\<in>set example_pool. CHR 0x00 \<notin> set (ScopeDate r)" by (simp add: example_pool_def)
  have "hasIdx example_pool ''A-TO-B'' ''2026-07-16'' None"
    "\<not> hasIdx example_pool ''A-TO-B'' ''2026-07-17'' None"
    by code_simp+
  then show ?thesis
    using hasIdx_agrees_with_Has [OF a, of "''2026-07-16''" "''A-TO-B''"]
      hasIdx_agrees_with_Has [OF a, of "''2026-07-17''" "''A-TO-B''"] by simp
qed

text \<open>
  After a job ends OK (all writes accepted) a condition is in the pool exactly when it was
  there or the job adds it, and the job does not delete it; the table keeps one row per name and
  scope, and applying the same outcomes again changes nothing.
\<close>

theorem ApplyOutcomes_effect:
  assumes "keys_distinct cond_key p"
  shows "(in_pool (ApplyOutcomes (\<lambda>_ _. True) now d odate actor prevOf p) k \<longleftrightarrow>
      k \<notin> set (map (\<lambda>n. resolveCondScope n odate prevOf) (ConditionsOutRemove d)) \<and>
      (k \<in> set (map (\<lambda>n. resolveCondScope n odate prevOf) (ConditionsOutAdd d)) \<or> in_pool p k)) \<and>
    keys_distinct cond_key (ApplyOutcomes accepts now d odate actor prevOf p) \<and>
    (in_pool (ApplyOutcomes (\<lambda>_ _. True) now d odate actor prevOf
       (ApplyOutcomes (\<lambda>_ _. True) now d odate actor prevOf p)) k \<longleftrightarrow>
     in_pool (ApplyOutcomes (\<lambda>_ _. True) now d odate actor prevOf p) k)"
  using ApplyOutcomes_in_pool [of now d odate actor prevOf _ k] keys_distinct_ApplyOutcomes [OF assms]
  by (auto simp: resolved_def)

theorem ApplyOutcomes_effect_witness:
  "\<not> in_pool (ApplyOutcomes (\<lambda>_ _. True) 5
      (zero_def\<lparr>ConditionsOutAdd := [''B-TO-C''], ConditionsOutRemove := [''A-TO-B'']\<rparr>)
      ''2026-07-16'' ''scheduler'' id example_pool) (''A-TO-B'', ''2026-07-16'') \<and>
   in_pool (ApplyOutcomes (\<lambda>_ _. True) 5
      (zero_def\<lparr>ConditionsOutAdd := [''B-TO-C''], ConditionsOutRemove := [''A-TO-B'']\<rparr>)
      ''2026-07-16'' ''scheduler'' id example_pool) (''B-TO-C'', ''2026-07-16'')"
proof -
  have k: "keys_distinct cond_key example_pool" by (simp add: keys_distinct_def example_pool_def)
  have r: "resolveCondScope ''A-TO-B'' ''2026-07-16'' id = (''A-TO-B'', ''2026-07-16'')"
    "resolveCondScope ''B-TO-C'' ''2026-07-16'' id = (''B-TO-C'', ''2026-07-16'')"
    by (simp_all add: resolveCondScope_def SplitCondRef_no_at)
  show ?thesis unfolding ApplyOutcomes_effect [OF k, THEN conjunct1] by (simp add: r)
qed

text \<open>
  A job that deletes its own input waits again: after its outcomes are applied, an input
  condition that the job also removes is reported missing to a rerun, unless a permanent condition
  of that name is in the pool.
\<close>

theorem consumed_input_waits_again:
  assumes "n \<in> set (ConditionsIn d)" and "n \<in> set (ConditionsOutRemove d)"
    and "\<not> in_pool (ApplyOutcomes (\<lambda>_ _. True) now d odate actor prevOf p) (cond_base n, [])"
  shows "\<exists>m\<in>set (Missing (ApplyOutcomes (\<lambda>_ _. True) now d odate actor prevOf p)
              (ConditionsIn d) odate prevOf). McName m = n"
proof -
  obtain b s where bs: "resolveCondScope n odate prevOf = (b, s)" by fastforce
  then have b: "b = cond_base n"
    by (auto simp: resolveCondScope_def cond_base_def split: prod.splits if_splits)
  have "(b, s) \<in> set (resolved (ConditionsOutRemove d) odate prevOf)"
    using assms(2) bs [symmetric] by (simp add: resolved_def)
  then have "\<not> in_pool (ApplyOutcomes (\<lambda>_ _. True) now d odate actor prevOf p) (b, s)"
    using ApplyOutcomes_in_pool [of now d odate actor prevOf p "(b, s)"] by simp
  with assms(3) b have "\<not> Has (ApplyOutcomes (\<lambda>_ _. True) now d odate actor prevOf p) b s"
    by (simp add: Has_in_pool)
  then have "\<lparr>McName = n, McBase = b, McScope = s, McLabel = scope_label s odate\<rparr> \<in>
      set (Missing (ApplyOutcomes (\<lambda>_ _. True) now d odate actor prevOf p) (ConditionsIn d) odate prevOf)"
    using assms(1) bs by (simp add: Missing_def Missing_names hasIdx_def)
  then show ?thesis by force
qed

definition example_consumer :: JobDefinition where
  "example_consumer = zero_def\<lparr>ConditionsIn := [''A-TO-B''], ConditionsOutRemove := [''A-TO-B'']\<rparr>"

theorem consumed_input_waits_again_witness:
  "\<exists>m\<in>set (Missing (ApplyOutcomes (\<lambda>_ _. True) 5 example_consumer ''2026-07-16'' ''op'' id example_pool)
       (ConditionsIn example_consumer) ''2026-07-16'' id). McName m = ''A-TO-B''"
proof -
  have "\<not> in_pool (ApplyOutcomes (\<lambda>_ _. True) 5 example_consumer ''2026-07-16'' ''op'' id example_pool)
      (cond_base ''A-TO-B'', [])"
    by code_simp
  then show ?thesis
    by (intro consumed_input_waits_again) (simp_all add: example_consumer_def)
qed

end
