(* ===== verification/Calendars.thy ===== *)
theory Calendars
  imports DomainModel Civil
begin

text \<open>
  Schedule eligibility: \<open>server/internal/scheduler/calendars.go\<close>.  A Go \<open>time.Time\<close> is used there
  only through its civil date, so a date is a \<^typ>\<open>date\<close> and "31 days apart" is counted in days.
  The calendar store is a partial function: an error and a missing calendar are treated alike.
\<close>

section \<open>One calendar\<close>

definition weekday_abbrev :: "date \<Rightarrow> string" where
  "weekday_abbrev d =
     (let w = Weekday d in
      if w = 0 then ''sun'' else if w = 1 then ''mon'' else if w = 2 then ''tue''
      else if w = 3 then ''wed'' else if w = 4 then ''thu'' else if w = 5 then ''fri'' else ''sat'')"

definition names_weekday :: "string list \<Rightarrow> date \<Rightarrow> bool" where
  "names_weekday ns d \<longleftrightarrow> list_ex (\<lambda>b. ToLower (TrimSpace b) = weekday_abbrev d) ns"

definition IsEligibleDate :: "Calendar option \<Rightarrow> date \<Rightarrow> bool" where
  "IsEligibleDate cal date =
     (case cal of None \<Rightarrow> True
      | Some cal \<Rightarrow>
          (let iso = FormatDate date in
           if list_ex (\<lambda>d. d = iso) (ExcludeDates cal) then False
           else if list_ex (\<lambda>d. d = iso) (IncludeDates cal) then True
           else if list_ex (\<lambda>d. d = iso) (Holidays cal) then False
           else if BusinessDays cal = [] then True
           else names_weekday (BusinessDays cal) date))"

definition weekend :: "date \<Rightarrow> bool" where
  "weekend d \<longleftrightarrow> Weekday d = 6 \<or> Weekday d = 0"

section \<open>The calendars of a job\<close>

type_synonym calLookup = "string \<Rightarrow> Calendar option"

definition effectiveCalendarRefs :: "JobDefinition \<Rightarrow> CalendarRef list" where
  "effectiveCalendarRefs d =
     (if CalendarName d \<noteq> [] then [\<lparr>RefName = CalendarName d, RefMode = ''include''\<rparr>] else []) @
     map (\<lambda>r. \<lparr>RefName = RefName r,
           RefMode = (if RefMode r \<noteq> ''exclude'' then ''include'' else RefMode r)\<rparr>) (Calendars d)"

definition ref_allows :: "calLookup \<Rightarrow> date \<Rightarrow> CalendarRef \<Rightarrow> bool" where
  "ref_allows store date ref =
     (case store (RefName ref) of
        None \<Rightarrow> True
      | Some cal \<Rightarrow>
          (if RefMode ref = ''exclude'' then \<not> IsEligibleDate (Some cal) date
           else IsEligibleDate (Some cal) date))"

definition shiftEligible :: "JobDefinition \<Rightarrow> date \<Rightarrow> calLookup \<Rightarrow> bool" where
  "shiftEligible d date store =
     (let refs = effectiveCalendarRefs d in
      if refs = [] then
        (if Shift (ScheduleOf d) = ''next-businessday'' \<or> Shift (ScheduleOf d) = ''prev-businessday''
         then \<not> weekend date else True)
      else list_all (ref_allows store date) refs)"

definition businessCalendar :: "JobDefinition \<Rightarrow> calLookup \<Rightarrow> Calendar option" where
  "businessCalendar d store =
     (case List.find (\<lambda>ref. RefMode ref = ''include'' \<and> store (RefName ref) \<noteq> None)
             (effectiveCalendarRefs d) of
        None \<Rightarrow> None
      | Some ref \<Rightarrow> store (RefName ref))"

section \<open>Business days of a month\<close>

definition isBusinessDay :: "date \<Rightarrow> Calendar option \<Rightarrow> bool" where
  "isBusinessDay day cal = (if cal \<noteq> None then IsEligibleDate cal day else \<not> weekend day)"

text \<open>The loop runs while the month is that of its first day.\<close>

function business_days_from :: "int \<Rightarrow> date \<Rightarrow> Calendar option \<Rightarrow> date list" where
  "business_days_from m day cal =
     (if dmonth day = m
      then (if isBusinessDay day cal then [day] else []) @ business_days_from m (next_day day) cal
      else [])"
  by pat_completeness auto
termination
  by (relation "measure (\<lambda>(m, day, cal).
        if dmonth day = m then nat (days_in_month (dyear day) (dmonth day) - dday day) + 1 else 0)")
     (auto simp: next_day_def)

declare business_days_from.simps [simp del]

definition businessDaysOfMonth :: "date \<Rightarrow> Calendar option \<Rightarrow> date list" where
  "businessDaysOfMonth date cal = business_days_from (dmonth date) (date\<lparr>dday := 1\<rparr>) cal"

definition sameDate :: "date \<Rightarrow> date \<Rightarrow> bool" where
  "sameDate a b \<longleftrightarrow> dyear a = dyear b \<and> dmonth a = dmonth b \<and> dday a = dday b"

fun indexOfDate :: "date list \<Rightarrow> date \<Rightarrow> int" where
  "indexOfDate [] d = -1"
| "indexOfDate (x # xs) d =
     (if sameDate x d then 0 else (let i = indexOfDate xs d in if i < 0 then -1 else i + 1))"

definition containsInt :: "int list \<Rightarrow> int \<Rightarrow> bool" where
  "containsInt xs v \<longleftrightarrow> list_ex (\<lambda>x. x = v) xs"

definition lastDayOfMonth :: "date \<Rightarrow> int" where
  "lastDayOfMonth t = days_in_month (dyear t) (dmonth t)"

section \<open>Recurrence\<close>

definition matchesAdvancedRule :: "string \<Rightarrow> date \<Rightarrow> Calendar option \<Rightarrow> bool" where
  "matchesAdvancedRule rule date cal =
     (let bdays = businessDaysOfMonth date cal; idx = indexOfDate bdays date; n = int (length bdays) in
      if rule = ''first-businessday'' then idx = 0
      else if rule = ''last-businessday'' then idx = n - 1 \<and> idx \<ge> 0
      else if rule = ''first-businessday-not-monday'' then
        (case List.find (\<lambda>bd. Weekday bd \<noteq> 1) bdays of
           Some bd \<Rightarrow> sameDate bd date | None \<Rightarrow> False)
      else if rule = ''penultimate-businessday'' then idx = n - 2 \<and> idx \<ge> 0
      else False)"

definition matches_nth :: "int list \<Rightarrow> date list \<Rightarrow> date \<Rightarrow> bool" where
  "matches_nth ns bdays date =
     (let idx = indexOfDate bdays date in
      if idx < 0 then False
      else let nth = idx + 1; fromEnd = int (length bdays) - idx in
        list_ex (\<lambda>n. n > 0 \<and> n = nth \<or> n < 0 \<and> - n = fromEnd) ns)"

definition matchesFrequency :: "JobDefinition \<Rightarrow> date \<Rightarrow> calLookup \<Rightarrow> bool" where
  "matchesFrequency d date store =
     (let s = ScheduleOf d; f = Frequency s in
      if f = [] \<or> f = ''daily'' then True
      else if f = ''weekly'' then
        (if DaysOfWeek s = [] then False else names_weekday (DaysOfWeek s) date)
      else if f = ''monthly'' then
        (if DaysOfMonth s = [] then False
         else list_ex (\<lambda>dom. dom = -1 \<and> dday date = lastDayOfMonth date \<or> dom = dday date) (DaysOfMonth s))
      else if f = ''businessday'' then
        (if NthBusinessDays s = [] then True
         else matches_nth (NthBusinessDays s) (businessDaysOfMonth date (businessCalendar d store)) date)
      else if f = ''advanced'' then matchesAdvancedRule (AdvancedRule s) date (businessCalendar d store)
      else True)"

definition nominalScheduledOn :: "JobDefinition \<Rightarrow> date \<Rightarrow> calLookup \<Rightarrow> bool" where
  "nominalScheduledOn d date store =
     (if MonthsOfYear (ScheduleOf d) \<noteq> [] \<and> \<not> containsInt (MonthsOfYear (ScheduleOf d)) (dmonth date)
      then False else matchesFrequency d date store)"

section \<open>Shift\<close>

text \<open>The two search loops of the shift, \<open>n\<close> days left to look at.\<close>

fun look_back :: "nat \<Rightarrow> JobDefinition \<Rightarrow> date \<Rightarrow> calLookup \<Rightarrow> bool" where
  "look_back 0 d b store = False"
| "look_back (Suc n) d b store =
     (if shiftEligible d b store then False
      else if nominalScheduledOn d b store then True
      else look_back n d (prev_day b) store)"

fun look_ahead :: "nat \<Rightarrow> JobDefinition \<Rightarrow> date \<Rightarrow> calLookup \<Rightarrow> bool" where
  "look_ahead 0 d b store = False"
| "look_ahead (Suc n) d b store =
     (if shiftEligible d b store then False
      else if nominalScheduledOn d b store then True
      else look_ahead n d (next_day b) store)"

abbreviation shiftLookback :: nat where "shiftLookback \<equiv> 31"

definition IsScheduledOn :: "JobDefinition \<Rightarrow> date \<Rightarrow> calLookup \<Rightarrow> bool" where
  "IsScheduledOn d date store =
     (if nominalScheduledOn d date store \<and> shiftEligible d date store then True
      else if Shift (ScheduleOf d) = ''next-businessday'' then
        (if \<not> shiftEligible d date store then False
         else look_back shiftLookback d (prev_day date) store)
      else if Shift (ScheduleOf d) = ''prev-businessday'' then
        (if \<not> shiftEligible d date store then False
         else look_ahead shiftLookback d (next_day date) store)
      else False)"

section \<open>Preview\<close>

fun preview_loop :: "nat \<Rightarrow> JobDefinition \<Rightarrow> date \<Rightarrow> date \<Rightarrow> calLookup \<Rightarrow> string list" where
  "preview_loop 0 d t to store = []"
| "preview_loop (Suc guard) d t to store =
     (if day_number t > day_number to then []
      else (if IsScheduledOn d t store then [FormatDate t] else []) @
           preview_loop guard d (next_day t) to store)"

text \<open>Without a calendar store every lookup finds nothing (\<open>noopCalLookup\<close>).\<close>

definition SchedulePreview :: "calLookup option \<Rightarrow> JobDefinition \<Rightarrow> date \<Rightarrow> date \<Rightarrow> string list" where
  "SchedulePreview calStore d from to =
     preview_loop 800 d from to (case calStore of None \<Rightarrow> (\<lambda>_. None) | Some s \<Rightarrow> s)"

section \<open>Lemmas\<close>

lemma AddDate_0 [simp]: "AddDate 0 d = d"
  by (simp add: AddDate_def)

lemma AddDate_next: "valid_date d \<Longrightarrow> AddDate n (next_day d) = AddDate (n + 1) d"
  by (rule day_number_inj) (simp_all add: AddDate_valid AddDate_number valid_next_day day_number_next)

lemma AddDate_prev: "valid_date d \<Longrightarrow> AddDate n (prev_day d) = AddDate (n - 1) d"
  by (rule day_number_inj) (simp_all add: AddDate_valid AddDate_number valid_prev_day day_number_prev)

lemma next_day_AddDate: "valid_date d \<Longrightarrow> next_day d = AddDate 1 d"
  using AddDate_next [of d 0] by simp

lemma prev_day_AddDate: "valid_date d \<Longrightarrow> prev_day d = AddDate (- 1) d"
  using AddDate_prev [of d 0] by simp

text \<open>Both searches look for the first nominal day behind a run of ineligible days.\<close>

lemma look_ahead_iff:
  "valid_date b \<Longrightarrow> look_ahead n d b store \<longleftrightarrow>
     (\<exists>k<n. nominalScheduledOn d (AddDate (int k) b) store \<and>
        (\<forall>j<Suc k. \<not> shiftEligible d (AddDate (int j) b) store))"
proof (induction n arbitrary: b)
  case 0
  then show ?case by simp
next
  case (Suc n)
  note IH = Suc.IH [OF valid_next_day [OF Suc.prems]]
  have sh: "AddDate (int k) (next_day b) = AddDate (int (Suc k)) b" for k
    using AddDate_next [OF Suc.prems] by (simp add: add.commute)
  have b0: "AddDate (int 0) b = b" by simp
  show ?case
    unfolding look_ahead.simps IH sh Ex_less_Suc2 All_less_Suc2 [where n = "Suc _"] All_less_Suc2 [where n = 0] b0
    by auto
qed

lemma look_back_iff:
  "valid_date b \<Longrightarrow> look_back n d b store \<longleftrightarrow>
     (\<exists>k<n. nominalScheduledOn d (AddDate (- int k) b) store \<and>
        (\<forall>j<Suc k. \<not> shiftEligible d (AddDate (- int j) b) store))"
proof (induction n arbitrary: b)
  case 0
  then show ?case by simp
next
  case (Suc n)
  note IH = Suc.IH [OF valid_prev_day [OF Suc.prems]]
  have sh: "AddDate (- int k) (prev_day b) = AddDate (- int (Suc k)) b" for k
    using AddDate_prev [OF Suc.prems, of "- int k"] by (simp add: minus_diff_commute)
  have b0: "AddDate (- int 0) b = b" by simp
  show ?case
    unfolding look_back.simps IH sh Ex_less_Suc2 All_less_Suc2 [where n = "Suc _"] All_less_Suc2 [where n = 0] b0
    by auto
qed

lemma not_eligible_not_scheduled: "\<not> shiftEligible d date store \<Longrightarrow> \<not> IsScheduledOn d date store"
  by (simp add: IsScheduledOn_def)

lemma shift_next_iff:
  assumes v: "valid_date date" and s: "Shift (ScheduleOf d) = ''next-businessday''"
  shows "IsScheduledOn d date store \<longleftrightarrow> shiftEligible d date store \<and>
     (\<exists>k\<le>31. nominalScheduledOn d (AddDate (- int k) date) store \<and>
        (\<forall>j. 0 < j \<and> j \<le> k \<longrightarrow> \<not> shiftEligible d (AddDate (- int j) date) store))"
proof -
  have sh: "AddDate (- int k) (prev_day date) = AddDate (- int (Suc k)) date" for k
    using AddDate_prev [OF v, of "- int k"] by (simp add: minus_diff_commute)
  define P where "P k \<longleftrightarrow> nominalScheduledOn d (AddDate (- int k) date) store \<and>
        (\<forall>j. 0 < j \<and> j \<le> k \<longrightarrow> \<not> shiftEligible d (AddDate (- int j) date) store)" for k
  have all: "(\<forall>j<Suc k. \<not> shiftEligible d (AddDate (- int (Suc j)) date) store) \<longleftrightarrow>
        (\<forall>j. 0 < j \<and> j \<le> Suc k \<longrightarrow> \<not> shiftEligible d (AddDate (- int j) date) store)" for k
    by (metis Suc_le_mono Suc_pred less_Suc_eq_le zero_less_Suc)
  have L: "look_back shiftLookback d (prev_day date) store \<longleftrightarrow> (\<exists>k<31. P (Suc k))"
    unfolding look_back_iff [OF valid_prev_day [OF v]] sh all P_def ..
  have "nominalScheduledOn d date store \<longleftrightarrow> P 0" by (simp add: P_def)
  moreover have "(\<exists>k\<le>31. P k) \<longleftrightarrow> P 0 \<or> (\<exists>k<31. P (Suc k))"
    unfolding less_Suc_eq_le [symmetric] by (rule Ex_less_Suc2)
  ultimately show ?thesis
    using s L by (auto simp: IsScheduledOn_def P_def [symmetric])
qed

lemma shift_prev_iff:
  assumes v: "valid_date date" and s: "Shift (ScheduleOf d) = ''prev-businessday''"
  shows "IsScheduledOn d date store \<longleftrightarrow> shiftEligible d date store \<and>
     (\<exists>k\<le>31. nominalScheduledOn d (AddDate (int k) date) store \<and>
        (\<forall>j. 0 < j \<and> j \<le> k \<longrightarrow> \<not> shiftEligible d (AddDate (int j) date) store))"
proof -
  have sh: "AddDate (int k) (next_day date) = AddDate (int (Suc k)) date" for k
    using AddDate_next [OF v, of "int k"] by (simp add: add.commute)
  define P where "P k \<longleftrightarrow> nominalScheduledOn d (AddDate (int k) date) store \<and>
        (\<forall>j. 0 < j \<and> j \<le> k \<longrightarrow> \<not> shiftEligible d (AddDate (int j) date) store)" for k
  have all: "(\<forall>j<Suc k. \<not> shiftEligible d (AddDate (int (Suc j)) date) store) \<longleftrightarrow>
        (\<forall>j. 0 < j \<and> j \<le> Suc k \<longrightarrow> \<not> shiftEligible d (AddDate (int j) date) store)" for k
    by (metis Suc_le_mono Suc_pred less_Suc_eq_le zero_less_Suc)
  have L: "look_ahead shiftLookback d (next_day date) store \<longleftrightarrow> (\<exists>k<31. P (Suc k))"
    unfolding look_ahead_iff [OF valid_next_day [OF v]] sh all P_def ..
  have "nominalScheduledOn d date store \<longleftrightarrow> P 0" by (simp add: P_def)
  moreover have "(\<exists>k\<le>31. P k) \<longleftrightarrow> P 0 \<or> (\<exists>k<31. P (Suc k))"
    unfolding less_Suc_eq_le [symmetric] by (rule Ex_less_Suc2)
  ultimately show ?thesis
    using s L by (auto simp: IsScheduledOn_def P_def [symmetric])
qed

section \<open>Business days: lemmas\<close>

lemma business_days_from_eq:
  "valid_date day \<Longrightarrow> dmonth day = m \<Longrightarrow> business_days_from m day cal =
     filter (\<lambda>d. isBusinessDay d cal)
       (map (\<lambda>i. day\<lparr>dday := i\<rparr>) [dday day..days_in_month (dyear day) m])"
proof (induction m day cal rule: business_days_from.induct)
  case (1 m day cal)
  have le: "dday day \<le> days_in_month (dyear day) m" using 1 by (simp add: valid_date_def)
  have up: "[dday day..days_in_month (dyear day) m] =
      dday day # [dday day + 1..days_in_month (dyear day) m]"
    using le by (simp add: upto_rec1)
  have self: "day\<lparr>dday := dday day\<rparr> = day" by simp
  have rest: "business_days_from m (next_day day) cal =
      filter (\<lambda>d. isBusinessDay d cal)
        (map (\<lambda>i. day\<lparr>dday := i\<rparr>) [dday day + 1..days_in_month (dyear day) m])"
  proof (cases "dday day < days_in_month (dyear day) m")
    case True
    then have n: "next_day day = day\<lparr>dday := dday day + 1\<rparr>" using 1 by (simp add: next_day_def)
    show ?thesis
      using "1.IH" [OF "1.prems"(2) valid_next_day [OF "1.prems"(1)]] 1 n by simp
  next
    case False
    have "dmonth (next_day day) \<noteq> m" using 1 False by (auto simp: next_day_def valid_date_def)
    then show ?thesis using False by (simp add: business_days_from.simps [of m "next_day day"])
  qed
  show ?case
    using "1.prems"(2) rest up self by (simp add: business_days_from.simps [of m day])
qed

lemma sameDate_iff [simp]: "sameDate a b \<longleftrightarrow> a = b"
  by (cases a; cases b) (auto simp: sameDate_def)

lemma indexOfDate_ge: "- 1 \<le> indexOfDate xs d"
  by (induction xs) (auto simp: Let_def)

lemma indexOfDate_absent: "d \<notin> set xs \<Longrightarrow> indexOfDate xs d = - 1"
  by (induction xs) (auto simp: Let_def)

lemma indexOfDate_split: "d \<notin> set xs \<Longrightarrow> indexOfDate (xs @ d # ys) d = int (length xs)"
  by (induction xs) (auto simp: Let_def)

definition business_count :: "Calendar option \<Rightarrow> date \<Rightarrow> int \<Rightarrow> int \<Rightarrow> int" where
  "business_count cal d i j = int (length (filter (\<lambda>k. isBusinessDay (d\<lparr>dday := k\<rparr>) cal) [i..j]))"

lemma businessDaysOfMonth_index:
  assumes v: "valid_date d"
  shows "indexOfDate (businessDaysOfMonth d cal) d =
      (if isBusinessDay d cal then business_count cal d 1 (dday d - 1) else - 1)"
    and "int (length (businessDaysOfMonth d cal)) =
      business_count cal d 1 (dday d - 1) + business_count cal d (dday d) (days_in_month (dyear d) (dmonth d))"
proof -
  define day where "day i = d\<lparr>dday := i\<rparr>" for i
  define n where "n = days_in_month (dyear d) (dmonth d)"
  define P where "P x = isBusinessDay x cal" for x
  have le: "1 \<le> dday d" "dday d \<le> n" using v by (simp_all add: valid_date_def n_def)
  have v1: "valid_date (day 1)" using v days_in_month_pos by (simp add: valid_date_def day_def)
  have dayd: "day (dday d) = d" by (simp add: day_def)
  have eq: "businessDaysOfMonth d cal = filter P (map day [1..n])"
    using business_days_from_eq [OF v1, of "dmonth d" cal]
    by (simp add: businessDaysOfMonth_def day_def [abs_def] n_def P_def [abs_def])
  have sp: "[1..n] = [1..dday d - 1] @ [dday d..n]" "[dday d..n] = dday d # [dday d + 1..n]"
    by (rule upto_split1 [OF le], rule upto_rec1 [OF le(2)])
  have ninj: "d \<notin> set (filter P (map day [1..dday d - 1]))" "d \<notin> set (filter P (map day [dday d + 1..n]))"
    by (auto simp: day_def) (metis add_0_right dayd date.select_convs(3) date.surjective date.update_convs(3) day_def zless_add1_eq order_less_irrefl zle_diff1_eq le_less_trans)+
  show "indexOfDate (businessDaysOfMonth d cal) d =
      (if isBusinessDay d cal then business_count cal d 1 (dday d - 1) else - 1)"
  proof (cases "P d")
    case True
    then have "businessDaysOfMonth d cal =
        filter P (map day [1..dday d - 1]) @ d # filter P (map day [dday d + 1..n])"
      unfolding eq sp by (simp add: dayd)
    with indexOfDate_split [OF ninj(1)] True show ?thesis
      by (simp add: business_count_def P_def day_def filter_map o_def)
  next
    case False
    then have "businessDaysOfMonth d cal =
        filter P (map day [1..dday d - 1]) @ filter P (map day [dday d + 1..n])"
      unfolding eq sp by (simp add: dayd)
    with ninj have "d \<notin> set (businessDaysOfMonth d cal)" by simp
    with False show ?thesis by (simp add: indexOfDate_absent P_def)
  qed
  show "int (length (businessDaysOfMonth d cal)) =
      business_count cal d 1 (dday d - 1) + business_count cal d (dday d) (days_in_month (dyear d) (dmonth d))"
    unfolding eq sp(1) n_def [symmetric] by (simp add: business_count_def filter_map o_def P_def day_def)
qed

section \<open>Preview: lemmas\<close>

lemma preview_loop_set:
  "valid_date t \<Longrightarrow> x \<in> set (preview_loop guard d t to store) \<longleftrightarrow>
     (\<exists>k<guard. day_number t + int k \<le> day_number to \<and> IsScheduledOn d (AddDate (int k) t) store \<and>
        x = FormatDate (AddDate (int k) t))"
proof (induction guard arbitrary: t)
  case 0
  then show ?case by simp
next
  case (Suc guard)
  note IH = Suc.IH [OF valid_next_day [OF Suc.prems]]
  have sh: "AddDate (int k) (next_day t) = AddDate (int (Suc k)) t" for k
    using AddDate_next [OF Suc.prems, of "int k"] by (simp add: add.commute)
  have n: "day_number (next_day t) + int k = day_number t + int (Suc k)" for k
    using day_number_next [OF Suc.prems] by simp
  have t0: "AddDate (int 0) t = t" by simp
  show ?case
    unfolding preview_loop.simps Ex_less_Suc2 t0 using IH [unfolded sh n] by auto
qed

lemma label_year_mono:
  assumes "valid_date d" "valid_date e" "valid_date f" "label_year d" "label_year f"
    "day_number d \<le> day_number e" "day_number e \<le> day_number f"
  shows "label_year e"
proof -
  have "dyear a \<le> dyear b" if "valid_date a" "valid_date b" "day_number a \<le> day_number b" for a b
    using that day_number_less_iff [of b a] by (force simp: date_less_def)
  then show ?thesis using assms unfolding label_year_def by (meson order_trans)
qed

lemma preview_loop_sorted:
  "valid_date t \<Longrightarrow> label_year t \<Longrightarrow> label_year (AddDate (int guard) t) \<Longrightarrow>
   sorted_wrt (<) (preview_loop guard d t to store)"
proof (induction guard arbitrary: t)
  case 0
  then show ?case by simp
next
  case (Suc guard)
  note v = Suc.prems(1) and vn = valid_next_day [OF Suc.prems(1)]
  have g: "AddDate (int guard) (next_day t) = AddDate (int (Suc guard)) t"
    using AddDate_next [OF v, of "int guard"] by (simp add: add.commute)
  have y: "label_year (AddDate (int k) t)" if "k \<le> Suc guard" for k
    by (rule label_year_mono [OF v AddDate_valid [OF v] AddDate_valid [OF v] Suc.prems(2,3)])
      (use that in \<open>simp_all add: AddDate_number [OF v]\<close>)
  have sh: "AddDate (int k) (next_day t) = AddDate (int (Suc k)) t" for k
    using AddDate_next [OF v, of "int k"] by (simp add: add.commute)
  have yn: "label_year (next_day t)" using y [of 1] next_day_AddDate [OF v] by simp
  have s: "sorted_wrt (<) (preview_loop guard d (next_day t) to store)"
    using Suc.IH [OF vn yn] Suc.prems(3) g by simp
  have "FormatDate t < x" if x: "x \<in> set (preview_loop guard d (next_day t) to store)" for x
  proof -
    obtain k where k: "k < guard" "x = FormatDate (AddDate (int (Suc k)) t)"
      using x unfolding preview_loop_set [OF vn] sh by blast
    have "FormatDate t < FormatDate (AddDate (int (Suc k)) t)"
      using label_order [OF v Suc.prems(2) AddDate_valid [OF v] y, of "Suc k"] k(1)
        AddDate_number [OF v, of "int (Suc k)"] by simp
    with k show ?thesis by simp
  qed
  with s show ?case by simp
qed

section \<open>Properties\<close>

text \<open>
  With the shift \<open>next-businessday\<close> a job runs on a date exactly when the date is eligible and
  some nominal day at most 31 days earlier (or the date itself) has only ineligible days from
  itself up to the date: the two loops of the code implement this rule.
\<close>

theorem shift_next_spec:
  assumes "valid_date date" and "Shift (ScheduleOf d) = ''next-businessday''"
  shows "IsScheduledOn d date store \<longleftrightarrow> shiftEligible d date store \<and>
     (\<exists>k\<le>31. nominalScheduledOn d (AddDate (- int k) date) store \<and>
        (\<forall>j. 0 < j \<and> j \<le> k \<longrightarrow> \<not> shiftEligible d (AddDate (- int j) date) store))"
  by (rule shift_next_iff [OF assms])

definition rolling_job :: JobDefinition where
  "rolling_job = zero_def\<lparr>ScheduleOf := zero_schedule\<lparr>Frequency := ''monthly'', DaysOfMonth := [5],
     Shift := ''next-businessday''\<rparr>\<rparr>"

definition sunday5 :: date where
  "sunday5 = \<lparr>dyear = 2026, dmonth = 7, dday = 5\<rparr>"

theorem shift_next_spec_witness:
  "IsScheduledOn rolling_job (AddDate 1 sunday5) (\<lambda>_. None)"
proof -
  have v: "valid_date (AddDate 1 sunday5)" by code_simp
  have s: "Shift (ScheduleOf rolling_job) = ''next-businessday''" by (simp add: rolling_job_def)
  have "shiftEligible rolling_job (AddDate 1 sunday5) (\<lambda>_. None)"
    "nominalScheduledOn rolling_job (AddDate (- int 1) (AddDate 1 sunday5)) (\<lambda>_. None)"
    "\<not> shiftEligible rolling_job (AddDate (- int 1) (AddDate 1 sunday5)) (\<lambda>_. None)"
    by code_simp+
  moreover have "j = 1" if "0 < j \<and> j \<le> (1::nat)" for j using that by linarith
  ultimately show ?thesis
    unfolding shift_next_spec [OF v s] by (metis one_le_numeral)
qed

text \<open>
  A shift never loses and never repeats an execution: a nominal day with an eligible day at
  most 31 days after it runs on the first eligible day from it on, and on none of the ineligible
  days before that one.
\<close>

theorem next_shift_runs_once:
  assumes v: "valid_date b" and s: "Shift (ScheduleOf d) = ''next-businessday''"
    and nom: "nominalScheduledOn d b store" and e: "e \<le> 31"
    and el: "shiftEligible d (AddDate (int e) b) store"
    and first: "\<forall>j<e. \<not> shiftEligible d (AddDate (int j) b) store"
  shows "IsScheduledOn d (AddDate (int e) b) store \<and>
         (\<forall>j<e. \<not> IsScheduledOn d (AddDate (int j) b) store)"
proof -
  have bk: "AddDate (- int k) (AddDate (int e) b) = AddDate (int e - int k) b" for k
    by (rule day_number_inj) (simp_all add: AddDate_valid AddDate_number v)
  have "\<not> shiftEligible d (AddDate (int e - int j) b) store" if "0 < j" "j \<le> e" for j
    using first [rule_format, of "e - j"] that by (simp add: of_nat_diff)
  then have "IsScheduledOn d (AddDate (int e) b) store"
    unfolding shift_next_iff [OF AddDate_valid [OF v] s] bk
    using el nom e by (intro conjI exI [of _ e]) auto
  then show ?thesis using first not_eligible_not_scheduled by blast
qed

theorem next_shift_runs_once_witness:
  "IsScheduledOn rolling_job (AddDate (int 1) sunday5) (\<lambda>_. None) \<and>
   \<not> IsScheduledOn rolling_job (AddDate (int 0) sunday5) (\<lambda>_. None)"
proof -
  have f: "valid_date sunday5" "nominalScheduledOn rolling_job sunday5 (\<lambda>_. None)"
    "shiftEligible rolling_job (AddDate (int 1) sunday5) (\<lambda>_. None)"
    "\<not> shiftEligible rolling_job (AddDate (int 0) sunday5) (\<lambda>_. None)"
    by code_simp+
  have s: "Shift (ScheduleOf rolling_job) = ''next-businessday''" by (simp add: rolling_job_def)
  have "IsScheduledOn rolling_job (AddDate (int 1) sunday5) (\<lambda>_. None) \<and>
    (\<forall>j<1. \<not> IsScheduledOn rolling_job (AddDate (int j) sunday5) (\<lambda>_. None))"
    by (rule next_shift_runs_once [OF f(1) s f(2)]) (use f in simp_all)
  then show ?thesis by blast
qed

text \<open>
  With the shift \<open>prev-businessday\<close> a job runs on a date exactly when the date is eligible and
  some nominal day at most 31 days later (or the date itself) has only ineligible days down to it.
\<close>

theorem shift_prev_spec:
  assumes "valid_date date" and "Shift (ScheduleOf d) = ''prev-businessday''"
  shows "IsScheduledOn d date store \<longleftrightarrow> shiftEligible d date store \<and>
     (\<exists>k\<le>31. nominalScheduledOn d (AddDate (int k) date) store \<and>
        (\<forall>j. 0 < j \<and> j \<le> k \<longrightarrow> \<not> shiftEligible d (AddDate (int j) date) store))"
  by (rule shift_prev_iff [OF assms])

theorem shift_prev_spec_witness:
  "IsScheduledOn (rolling_job\<lparr>ScheduleOf := (ScheduleOf rolling_job)\<lparr>Shift := ''prev-businessday''\<rparr>\<rparr>)
     (AddDate (- 2) sunday5) (\<lambda>_. None)"
proof -
  define d where "d = rolling_job\<lparr>ScheduleOf := (ScheduleOf rolling_job)\<lparr>Shift := ''prev-businessday''\<rparr>\<rparr>"
  have v: "valid_date (AddDate (- 2) sunday5)" by code_simp
  have s: "Shift (ScheduleOf d) = ''prev-businessday''" by (simp add: d_def)
  have "shiftEligible d (AddDate (- 2) sunday5) (\<lambda>_. None)"
    "nominalScheduledOn d (AddDate (int 2) (AddDate (- 2) sunday5)) (\<lambda>_. None)"
    "\<not> shiftEligible d (AddDate (int 1) (AddDate (- 2) sunday5)) (\<lambda>_. None)"
    "\<not> shiftEligible d (AddDate (int 2) (AddDate (- 2) sunday5)) (\<lambda>_. None)"
    unfolding d_def by code_simp+
  moreover have "j = 1 \<or> j = 2" if "0 < j \<and> j \<le> (2::nat)" for j using that by linarith
  moreover have "(2::nat) \<le> 31" by simp
  ultimately show ?thesis
    unfolding d_def [symmetric] shift_prev_spec [OF v s] by metis
qed

text \<open>
  The "N-th business day" rule counts: it accepts exactly the business days whose rank from
  the first of the month (positive numbers) or from its end (negative numbers) is in the list.
\<close>

theorem matches_nth_counts:
  assumes "valid_date date"
  shows "matches_nth ns (businessDaysOfMonth date cal) date \<longleftrightarrow>
    isBusinessDay date cal \<and>
    (\<exists>n\<in>set ns. n > 0 \<and> n = business_count cal date 1 (dday date - 1) + 1 \<or>
       n < 0 \<and> - n = business_count cal date (dday date) (days_in_month (dyear date) (dmonth date)))"
  using businessDaysOfMonth_index [OF assms, of cal]
  by (auto simp: matches_nth_def Let_def list_ex_iff business_count_def)

theorem matches_nth_counts_witness:
  "matches_nth [3] (businessDaysOfMonth \<lparr>dyear = 2026, dmonth = 7, dday = 3\<rparr> None)
     \<lparr>dyear = 2026, dmonth = 7, dday = 3\<rparr>"
proof -
  have v: "valid_date \<lparr>dyear = 2026, dmonth = 7, dday = 3\<rparr>" by code_simp
  have "isBusinessDay \<lparr>dyear = 2026, dmonth = 7, dday = 3\<rparr> None"
    "business_count None \<lparr>dyear = 2026, dmonth = 7, dday = 3\<rparr> 1 2 = 2"
    by code_simp+
  then show ?thesis unfolding matches_nth_counts [OF v] by simp
qed

text \<open>
  The schedule preview lists, in strictly ascending order, exactly the labels of the days of
  the range (800 days at most) on which the daily would order the job.
\<close>

theorem SchedulePreview_exact:
  assumes v: "valid_date from" and y: "label_year from" "label_year (AddDate 800 from)"
  shows "set (SchedulePreview (Some store) d from to) =
      {FormatDate (AddDate (int k) from) |k. k < 800 \<and> day_number from + int k \<le> day_number to \<and>
         IsScheduledOn d (AddDate (int k) from) store} \<and>
    sorted_wrt (<) (SchedulePreview (Some store) d from to)"
proof
  show "set (SchedulePreview (Some store) d from to) =
      {FormatDate (AddDate (int k) from) |k. k < 800 \<and> day_number from + int k \<le> day_number to \<and>
         IsScheduledOn d (AddDate (int k) from) store}"
    using preview_loop_set [OF v, of _ 800 d to store] by (auto simp: SchedulePreview_def)
  have "int 800 = 800" by simp
  then show "sorted_wrt (<) (SchedulePreview (Some store) d from to)"
    unfolding SchedulePreview_def option.case using preview_loop_sorted [OF v y(1), of 800] y(2) by metis
qed

theorem SchedulePreview_exact_witness:
  "sorted_wrt (<) (SchedulePreview (Some (\<lambda>_. None)) rolling_job sunday5 (AddDate 3 sunday5))"
proof -
  have "valid_date sunday5" "label_year sunday5" by code_simp+
  moreover have "label_year (AddDate 800 sunday5)"
  proof (rule label_year_mono [of sunday5 _ "\<lparr>dyear = 9999, dmonth = 12, dday = 31\<rparr>"])
    have v: "valid_date sunday5" by code_simp
    then show "valid_date (AddDate 800 sunday5)" by (rule AddDate_valid)
    have "day_number sunday5 + 800 \<le> day_number \<lparr>dyear = 9999, dmonth = 12, dday = 31\<rparr>" by code_simp
    then show "day_number sunday5 \<le> day_number (AddDate 800 sunday5)"
      "day_number (AddDate 800 sunday5) \<le> day_number \<lparr>dyear = 9999, dmonth = 12, dday = 31\<rparr>"
      by (simp_all add: AddDate_number [OF v])
  qed code_simp+
  ultimately show ?thesis using SchedulePreview_exact by blast
qed

end
