(* ===== verification/Clock.thy ===== *)
theory Clock
  imports Calendars
begin

text \<open>
  The business clock: \<open>server/internal/businessclock/clock.go\<close> and the functions of
  \<open>server/internal/scheduler/business_time.go\<close> and \<open>scheduler.go\<close> that compute instants.

  An instant is the number of nanoseconds since 1970-01-01 UTC; Go's zero time is \<^const>\<open>None\<close>.
  A \<open>time.Location\<close> is its table of transitions (instant, offset in seconds from then on) with the
  offset before the first one; the database of zones is the parameter \<open>loc\<close>.
\<close>

section \<open>Instants and zones\<close>

abbreviation second :: int where "second \<equiv> 1000000000"
abbreviation day_ns :: int where "day_ns \<equiv> 86400000000000"

record zone =
  ZBase :: int
  ZTrans :: "(int \<times> int) list"

definition utc_zone :: zone where
  "utc_zone = \<lparr>ZBase = 0, ZTrans = []\<rparr>"

fun offset_in :: "int \<Rightarrow> (int \<times> int) list \<Rightarrow> int \<Rightarrow> int" where
  "offset_in b [] t = b"
| "offset_in b ((i, off) # zs) t = (if i \<le> t then offset_in off zs t else b)"

fun start_in :: "int option \<Rightarrow> (int \<times> int) list \<Rightarrow> int \<Rightarrow> int option" where
  "start_in s [] t = s"
| "start_in s ((i, off) # zs) t = (if i \<le> t then start_in (Some i) zs t else s)"

fun end_in :: "(int \<times> int) list \<Rightarrow> int \<Rightarrow> int option" where
  "end_in [] t = None"
| "end_in ((i, off) # zs) t = (if i \<le> t then end_in zs t else Some i)"

definition offset_at :: "zone \<Rightarrow> int \<Rightarrow> int" where
  "offset_at z t = offset_in (ZBase z) (ZTrans z) t"

definition bound_start :: "zone \<Rightarrow> int \<Rightarrow> int option" where
  "bound_start z t = start_in None (ZTrans z) t"

definition bound_end :: "zone \<Rightarrow> int \<Rightarrow> int option" where
  "bound_end z t = end_in (ZTrans z) t"

definition local_time :: "zone \<Rightarrow> int \<Rightarrow> int" where
  "local_time z t = t + offset_at z t * second"

lemma end_in_gt: "end_in zs t = Some e \<Longrightarrow> t < e"
  by (induction zs t rule: end_in.induct) (auto split: if_splits)

lemma bound_end_gt: "bound_end z t = Some e \<Longrightarrow> t < e"
  by (simp add: bound_end_def end_in_gt)

definition epoch_days :: int where "epoch_days = 719163"

text \<open>Midnight of a date as a wall-clock reading, and the date of a wall-clock reading.\<close>

definition midnight :: "date \<Rightarrow> int" where
  "midnight d = (day_number d - epoch_days) * day_ns"

definition date_of_number :: "int \<Rightarrow> date" where
  "date_of_number n = AddDate (n - 739798) \<lparr>dyear = 2026, dmonth = 7, dday = 1\<rparr>"

definition date_of_wall :: "int \<Rightarrow> date" where
  "date_of_wall w = date_of_number (w div day_ns + epoch_days)"

section \<open>The clock\<close>

definition ParseHM :: "string \<Rightarrow> (int \<times> int) option" where
  "ParseHM hm =
     (let hs = take 2 hm; ms = take 2 (drop 3 hm); h = digits_val 0 hs; m = digits_val 0 ms in
      if length hm = 5 \<and> hm ! 2 = CHR '':'' \<and> list_all is_digit hs \<and> list_all is_digit ms \<and>
         h < 24 \<and> m < 60
      then Some (h, m) else None)"

definition DefaultCalendar :: BizCalendar where
  "DefaultCalendar = \<lparr>Timezone = ''UTC'', DailyAt = ''00:00''\<rparr>"

datatype cal_error = NoExplicitTimezone | UnknownTimezone | BadDailyAt

definition ValidateCalendar :: "(string \<Rightarrow> zone option) \<Rightarrow> BizCalendar \<Rightarrow> cal_error option" where
  "ValidateCalendar loc c =
     (if Timezone c = [] \<or> Timezone c = ''Local'' then Some NoExplicitTimezone
      else if loc (Timezone c) = None then Some UnknownTimezone
      else if ParseHM (DailyAt c) = None then Some BadDailyAt
      else None)"

definition LocationOf :: "(string \<Rightarrow> zone option) \<Rightarrow> BizCalendar \<Rightarrow> zone" where
  "LocationOf loc c =
     (case loc (Timezone c) of
        None \<Rightarrow> utc_zone
      | Some z \<Rightarrow> if Timezone c = [] \<or> Timezone c = ''Local'' then utc_zone else z)"

definition NextDate :: "string \<Rightarrow> int \<Rightarrow> string" where
  "NextDate date n = (case ParseDate date of None \<Rightarrow> [] | Some d \<Rightarrow> FormatDate (AddDate n d))"

definition keep_first :: "zone \<Rightarrow> int \<Rightarrow> int \<Rightarrow> int option \<Rightarrow> int option" where
  "keep_first z wall cursor first =
     (let cand = wall - offset_at z cursor * second;
          after = (case bound_start z cursor of None \<Rightarrow> True | Some s \<Rightarrow> \<not> cand < s);
          before = (case bound_end z cursor of None \<Rightarrow> True | Some e \<Rightarrow> cand < e)
      in if after \<and> before
         then (case first of None \<Rightarrow> Some cand | Some f \<Rightarrow> if cand < f then Some cand else first)
         else first)"

definition keep_gap :: "zone \<Rightarrow> int \<Rightarrow> int \<Rightarrow> int \<Rightarrow> int option \<Rightarrow> int option" where
  "keep_gap z wall cursor e gap =
     (let off = offset_at z cursor; nextOff = offset_at z e in
      if nextOff > off \<and> \<not> wall < e + off * second \<and> wall < e + nextOff * second then Some e else gap)"

function wall_loop :: "zone \<Rightarrow> int \<Rightarrow> int \<Rightarrow> int \<Rightarrow> int option \<Rightarrow> int option \<Rightarrow> int option \<times> int option" where
  "wall_loop z wall hi cursor first gap =
     (if \<not> cursor < hi then (first, gap)
      else let first' = keep_first z wall cursor first in
        (case bound_end z cursor of
           None \<Rightarrow> (first', gap)
         | Some e \<Rightarrow>
             if \<not> e < hi then (first', gap)
             else wall_loop z wall hi e first' (keep_gap z wall cursor e gap)))"
  by pat_completeness auto
termination
  by (relation "measure (\<lambda>(z, wall, hi, cursor, first, gap). nat (hi - cursor))")
     (auto dest: bound_end_gt)

declare wall_loop.simps [simp del]

definition resolve_wall :: "zone \<Rightarrow> int \<Rightarrow> int option" where
  "resolve_wall z wall =
     (let (first, gap) = wall_loop z wall (wall + 3 * day_ns) (wall - 3 * day_ns) None None
      in case first of Some f \<Rightarrow> Some f | None \<Rightarrow> gap)"

definition Wall :: "(string \<Rightarrow> zone option) \<Rightarrow> BizCalendar \<Rightarrow> string \<Rightarrow> string \<Rightarrow> int option" where
  "Wall loc c date hm =
     (case ParseDate date of
        None \<Rightarrow> None
      | Some d \<Rightarrow>
          (case ParseHM hm of
             None \<Rightarrow> None
           | Some (h, m) \<Rightarrow> resolve_wall (LocationOf loc c) (midnight d + (h * 60 + m) * 60 * second)))"

definition Start :: "(string \<Rightarrow> zone option) \<Rightarrow> BizCalendar \<Rightarrow> string \<Rightarrow> int option" where
  "Start loc c date = Wall loc c date (DailyAt c)"

text \<open>\<open>now.Before(t)\<close> where \<open>t\<close> may be the zero time, which is before every instant of interest.\<close>

definition before_opt :: "int \<Rightarrow> int option \<Rightarrow> bool" where
  "before_opt now t = (case t of None \<Rightarrow> False | Some t \<Rightarrow> now < t)"

definition local_label :: "zone \<Rightarrow> int \<Rightarrow> string" where
  "local_label z t = FormatDate (date_of_wall (local_time z t))"

definition BusinessDate :: "(string \<Rightarrow> zone option) \<Rightarrow> BizCalendar \<Rightarrow> int \<Rightarrow> string" where
  "BusinessDate loc c now =
     (let date = local_label (LocationOf loc c) now in
      if before_opt now (Start loc c date) then NextDate date (- 1) else date)"

definition At :: "(string \<Rightarrow> zone option) \<Rightarrow> BizCalendar \<Rightarrow> string \<Rightarrow> string \<Rightarrow> int option" where
  "At loc c date hm =
     (case ParseHM hm of None \<Rightarrow> None
      | Some _ \<Rightarrow> Wall loc c (if hm < DailyAt c then NextDate date 1 else date) hm)"

definition WindowEnd ::
  "(string \<Rightarrow> zone option) \<Rightarrow> BizCalendar \<Rightarrow> string \<Rightarrow> string \<Rightarrow> string \<Rightarrow> int option" where
  "WindowEnd loc c date from to =
     (case (At loc c date to, At loc c date from) of
        (Some e, Some s) \<Rightarrow> if e < s then At loc c (NextDate date 1) to else Some e
      | (e, _) \<Rightarrow> e)"

section \<open>Settings and frozen calendars\<close>

text \<open>The rows of the settings table with one of the two keys, in the order the query gives them.\<close>

definition setting_step :: "string \<times> string \<Rightarrow> BizCalendar \<Rightarrow> BizCalendar" where
  "setting_step kv c =
     (let (k, v) = kv; v' = TrimSpace v in
      if v' = [] then c else if k = ''daily_at'' then c\<lparr>DailyAt := v'\<rparr> else c\<lparr>Timezone := v'\<rparr>)"

definition BusinessCalendar :: "(string \<times> string) list option \<Rightarrow> BizCalendar" where
  "BusinessCalendar rows =
     (case rows of
        None \<Rightarrow> DefaultCalendar\<lparr>Timezone := ''unavailable''\<rparr>
      | Some kvs \<Rightarrow> fold setting_step
          (filter (\<lambda>(k, v). k = ''daily_at'' \<or> k = ''daily_timezone'') kvs) DefaultCalendar)"

definition frozenCalendar :: "(string \<Rightarrow> zone option) \<Rightarrow> JobDefinition \<Rightarrow> BizCalendar option" where
  "frozenCalendar loc d =
     (case BusinessTime d of
        None \<Rightarrow> None
      | Some c \<Rightarrow> if ValidateCalendar loc c = None then Some c else None)"

definition freezeTime :: "JobDefinition \<Rightarrow> BizCalendar \<Rightarrow> JobDefinition" where
  "freezeTime d c = d\<lparr>BusinessTime := Some c\<rparr>"

definition orderWindowEnd :: "(string \<Rightarrow> zone option) \<Rightarrow> JobDefinition \<Rightarrow> string \<Rightarrow> int option" where
  "orderWindowEnd loc d date =
     (case frozenCalendar loc d of
        None \<Rightarrow> None
      | Some c \<Rightarrow>
          (let from = (if WindowFrom (ScheduleOf d) = [] then RunAt (ScheduleOf d)
                       else WindowFrom (ScheduleOf d))
           in WindowEnd loc c date from (WindowTo (ScheduleOf d))))"

definition orderForceWindowStart :: "(string \<Rightarrow> zone option) \<Rightarrow> JobDefinition \<Rightarrow> string \<Rightarrow> int option" where
  "orderForceWindowStart loc d date =
     (case frozenCalendar loc d of
        None \<Rightarrow> None
      | Some c \<Rightarrow> At loc c date (WindowFrom (ScheduleOf d)))"

definition activityDate :: "(string \<Rightarrow> zone option) \<Rightarrow> JobDefinition \<Rightarrow> int option \<Rightarrow> string" where
  "activityDate loc d t =
     (case t of
        None \<Rightarrow> []
      | Some t \<Rightarrow> (case frozenCalendar loc d of Some c \<Rightarrow> BusinessDate loc c t | None \<Rightarrow> []))"

definition computeScheduledAt :: "(string \<Rightarrow> zone option) \<Rightarrow> JobDefinition \<Rightarrow> string \<Rightarrow> int option" where
  "computeScheduledAt loc d date =
     (let c = (case frozenCalendar loc d of Some c \<Rightarrow> c | None \<Rightarrow> DefaultCalendar);
          at = (if RunAt (ScheduleOf d) = [] then WindowFrom (ScheduleOf d) else RunAt (ScheduleOf d))
      in case At loc c date at of Some t \<Rightarrow> Some t | None \<Rightarrow> Start loc c date)"

section \<open>Zones: lemmas\<close>

text \<open>A zone as the database has them: increasing transitions, offsets within two days.\<close>

definition good_zone :: "zone \<Rightarrow> bool" where
  "good_zone z \<longleftrightarrow> sorted_wrt (<) (map fst (ZTrans z)) \<and>
     (\<forall>off \<in> insert (ZBase z) (snd ` set (ZTrans z)). - 172800 \<le> off \<and> off \<le> 172800)"

lemma offset_in_range:
  "offset_in b zs t \<in> insert b (snd ` set zs)"
  by (induction b zs t rule: offset_in.induct) auto

lemma offset_bound: "good_zone z \<Longrightarrow> - 172800 \<le> offset_at z t \<and> offset_at z t \<le> 172800"
  using offset_in_range [of "ZBase z" "ZTrans z" t] by (auto simp: good_zone_def offset_at_def)

lemma end_in_None: "end_in zs t = None \<Longrightarrow> t \<le> u \<Longrightarrow> offset_in b zs u = offset_in b zs t"
  by (induction zs t arbitrary: b rule: end_in.induct) (auto split: if_splits)

lemma end_in_Some:
  "sorted_wrt (<) (map fst zs) \<Longrightarrow> end_in zs t = Some e \<Longrightarrow> t \<le> u \<Longrightarrow> u < e \<Longrightarrow>
   offset_in b zs u = offset_in b zs t"
proof (induction zs t arbitrary: b rule: end_in.induct)
  case (1 t)
  then show ?case by simp
next
  case (2 i off zs t)
  then show ?case by (cases "i \<le> t") auto
qed

lemma start_in_le: "start_in s zs t = Some i \<Longrightarrow> (case s of Some j \<Rightarrow> j \<le> t | None \<Rightarrow> True) \<Longrightarrow> i \<le> t"
  by (induction s zs t rule: start_in.induct) (auto split: if_splits)

lemma bound_start_le: "bound_start z t = Some s \<Longrightarrow> s \<le> t"
  using start_in_le [of None "ZTrans z" t s] by (simp add: bound_start_def)


lemma start_in_ge:
  "sorted_wrt (<) (i # map fst zs) \<Longrightarrow> \<exists>i'. start_in (Some i) zs t = Some i' \<and> i \<le> i'"
proof (induction zs arbitrary: i)
  case Nil
  then show ?case by simp
next
  case (Cons x zs)
  obtain j off where x: "x = (j, off)" by (cases x)
  show ?case
  proof (cases "j \<le> t")
    case True
    have "sorted_wrt (<) (j # map fst zs)" using Cons.prems x by simp
    from Cons.IH [OF this] obtain i' where "start_in (Some j) zs t = Some i'" "j \<le> i'" by blast
    then show ?thesis using Cons.prems x True by auto
  qed (simp add: x)
qed

lemma period_const_list:
  assumes "sorted_wrt (<) (map fst zs)"
    and "case start_in s zs t of Some i \<Rightarrow> i \<le> u | None \<Rightarrow> True"
    and "case end_in zs t of Some e \<Rightarrow> u < e | None \<Rightarrow> True"
  shows "offset_in b zs u = offset_in b zs t"
  using assms
proof (induction zs arbitrary: b s)
  case Nil
  then show ?case by simp
next
  case (Cons x zs)
  obtain i off where x: "x = (i, off)" by (cases x)
  show ?case
  proof (cases "i \<le> t")
    case True
    have so: "sorted_wrt (<) (i # map fst zs)" using Cons.prems(1) x by simp
    from start_in_ge [OF so] obtain i' where i': "start_in (Some i) zs t = Some i'" "i \<le> i'" by blast
    then have "i' \<le> u" using Cons.prems(2) x True by simp
    then have "offset_in off zs u = offset_in off zs t"
      using Cons.IH [of "Some i"] Cons.prems(1,3) x True i' by simp
    then show ?thesis using x True i' \<open>i' \<le> u\<close> by simp
  next
    case False
    then show ?thesis using Cons.prems(3) x by simp
  qed
qed

lemma period_const:
  assumes "good_zone z"
    and "case bound_start z t of Some i \<Rightarrow> i \<le> u | None \<Rightarrow> True"
    and "case bound_end z t of Some e \<Rightarrow> u < e | None \<Rightarrow> True"
  shows "offset_at z u = offset_at z t"
  using assms period_const_list [where zs = "ZTrans z" and s = None and t = t and u = u]
  by (simp add: offset_at_def bound_start_def bound_end_def good_zone_def)

lemma same_period:
  assumes "good_zone z" "t \<le> u" "case bound_end z t of Some e \<Rightarrow> u < e | None \<Rightarrow> True"
  shows "offset_at z u = offset_at z t"
proof (rule period_const [OF assms(1) _ assms(3)])
  show "case bound_start z t of Some i \<Rightarrow> i \<le> u | None \<Rightarrow> True"
    using bound_start_le [of z t] assms(2) by (auto split: option.splits)
qed

section \<open>Resolution of a wall-clock time\<close>

text \<open>The clock jumps over the reading \<open>wall\<close> at the transition \<open>e\<close>.\<close>

definition jumps_over :: "zone \<Rightarrow> int \<Rightarrow> int \<Rightarrow> bool" where
  "jumps_over z wall e \<longleftrightarrow>
     e + offset_at z (e - 1) * second \<le> wall \<and> wall < e + offset_at z e * second"

definition wall_inv :: "zone \<Rightarrow> int \<Rightarrow> int \<Rightarrow> int option \<Rightarrow> int option \<Rightarrow> bool" where
  "wall_inv z wall cursor first gap \<longleftrightarrow>
     (\<forall>r. first = Some r \<longrightarrow> local_time z r = wall) \<and>
     (\<forall>u. u < cursor \<longrightarrow> local_time z u = wall \<longrightarrow> (\<exists>r. first = Some r \<and> r \<le> u)) \<and>
     (\<forall>e. gap = Some e \<longrightarrow> jumps_over z wall e) \<and>
     (first = None \<and> gap = None \<longrightarrow> local_time z cursor \<le> wall)"

definition wall_done :: "zone \<Rightarrow> int \<Rightarrow> int option \<Rightarrow> int option \<Rightarrow> bool" where
  "wall_done z wall first gap \<longleftrightarrow>
     (\<forall>r. first = Some r \<longrightarrow> local_time z r = wall) \<and>
     (\<forall>u. local_time z u = wall \<longrightarrow> (\<exists>r. first = Some r \<and> r \<le> u)) \<and>
     (\<forall>e. gap = Some e \<longrightarrow> jumps_over z wall e) \<and>
     (first \<noteq> None \<or> gap \<noteq> None)"

lemma local_time_near:
  assumes "good_zone z" "local_time z u = wall"
  shows "wall - 2 * day_ns \<le> u" "u \<le> wall + 2 * day_ns"
  using offset_bound [OF assms(1), of u] assms(2) by (auto simp: local_time_def)

lemma wall_inv_done:
  assumes g: "good_zone z" and i: "wall_inv z wall cursor first gap" and c: "wall + 3 * day_ns \<le> cursor"
  shows "wall_done z wall first gap"
proof -
  have "u < cursor" if "local_time z u = wall" for u
    using local_time_near [OF g that] c by linarith
  moreover have "\<not> local_time z cursor \<le> wall"
    using offset_bound [OF g, of cursor] c by (simp add: local_time_def)
  ultimately show ?thesis using i by (auto simp: wall_inv_def wall_done_def)
qed

text \<open>One period: its candidate is a solution, and the only one of the period.\<close>

lemma keep_first_step:
  assumes g: "good_zone z" and i: "wall_inv z wall cursor first gap"
  shows "(\<forall>r. keep_first z wall cursor first = Some r \<longrightarrow> local_time z r = wall) \<and>
    (\<forall>u. (case bound_end z cursor of Some e \<Rightarrow> u < e | None \<Rightarrow> True) \<longrightarrow> local_time z u = wall \<longrightarrow>
      (\<exists>r. keep_first z wall cursor first = Some r \<and> r \<le> u))"
proof -
  define cand where "cand = wall - offset_at z cursor * second"
  define ok where "ok \<longleftrightarrow> (case bound_start z cursor of None \<Rightarrow> True | Some s \<Rightarrow> \<not> cand < s) \<and>
    (case bound_end z cursor of None \<Rightarrow> True | Some e \<Rightarrow> cand < e)"
  have kf: "keep_first z wall cursor first =
      (if ok then (case first of None \<Rightarrow> Some cand | Some f \<Rightarrow> if cand < f then Some cand else first) else first)"
    by (simp add: keep_first_def ok_def Let_def flip: cand_def)
  have sol: "local_time z cand = wall" if ok
  proof -
    have "offset_at z cand = offset_at z cursor"
      using that by (intro period_const [OF g]) (auto simp: ok_def split: option.splits)
    then show ?thesis by (simp add: local_time_def cand_def)
  qed
  have A: "\<forall>r. keep_first z wall cursor first = Some r \<longrightarrow> local_time z r = wall"
    using i sol unfolding kf wall_inv_def by (auto split: option.splits if_splits)
  have le: "\<exists>r. keep_first z wall cursor first = Some r \<and> r \<le> u" if "first = Some r0" "r0 \<le> u" for r0 u
    using that unfolding kf by (auto split: option.splits if_splits)
  have "\<exists>r. keep_first z wall cursor first = Some r \<and> r \<le> u"
    if e: "case bound_end z cursor of Some e \<Rightarrow> u < e | None \<Rightarrow> True" and s: "local_time z u = wall" for u
  proof (cases "u < cursor")
    case True
    then show ?thesis using i s le by (auto simp: wall_inv_def)
  next
    case False
    then have "offset_at z u = offset_at z cursor" using same_period [OF g _ e] by simp
    then have u: "u = cand" using s by (simp add: local_time_def cand_def)
    then have ok using False e bound_start_le [of z cursor] by (auto simp: ok_def split: option.splits)
    then show ?thesis unfolding kf u by (auto split: option.splits)
  qed
  then show ?thesis using A by blast
qed

lemma wall_step:
  assumes g: "good_zone z" and i: "wall_inv z wall cursor first gap" and e: "bound_end z cursor = Some e"
  shows "wall_inv z wall e (keep_first z wall cursor first) (keep_gap z wall cursor e gap)"
proof -
  note k = keep_first_step [OF g i]
  have ce: "cursor < e" using bound_end_gt [OF e] .
  have off: "offset_at z (e - 1) = offset_at z cursor"
    using same_period [OF g, of cursor "e - 1"] ce e by simp
  have gapj: "\<forall>e'. keep_gap z wall cursor e gap = Some e' \<longrightarrow> jumps_over z wall e'"
    using i off by (auto simp: keep_gap_def jumps_over_def wall_inv_def Let_def)
  have "local_time z e \<le> wall"
    if n: "keep_first z wall cursor first = None" "keep_gap z wall cursor e gap = None"
  proof -
    have "first = None" using n(1) by (auto simp: keep_first_def Let_def split: option.splits if_splits)
    moreover have "gap = None" using n(2) by (auto simp: keep_gap_def Let_def split: if_splits)
    ultimately have c: "local_time z cursor \<le> wall" using i by (simp add: wall_inv_def)
    define cand where "cand = wall - offset_at z cursor * second"
    have "cursor \<le> cand" using c by (simp add: cand_def local_time_def)
    moreover have "\<not> cand < e"
    proof
      assume "cand < e"
      with \<open>cursor \<le> cand\<close> have "local_time z cand = wall"
        using same_period [OF g, of cursor cand] e by (simp add: local_time_def cand_def)
      then show False using k n(1) e \<open>cand < e\<close> by fastforce
    qed
    ultimately have "\<not> wall < e + offset_at z cursor * second" by (simp add: cand_def)
    then show ?thesis
      using n(2) \<open>gap = None\<close>
      by (auto simp: keep_gap_def Let_def local_time_def split: if_splits)
  qed
  then show ?thesis using k gapj e unfolding wall_inv_def by simp
qed

lemma wall_stop:
  assumes g: "good_zone z" and i: "wall_inv z wall cursor first gap"
    and e: "case bound_end z cursor of Some e \<Rightarrow> wall + 3 * day_ns \<le> e | None \<Rightarrow> True"
  shows "wall_done z wall (keep_first z wall cursor first) gap"
proof -
  note k = keep_first_step [OF g i]
  have "\<exists>r. keep_first z wall cursor first = Some r \<and> r \<le> u" if s: "local_time z u = wall" for u
  proof -
    have "case bound_end z cursor of Some e \<Rightarrow> u < e | None \<Rightarrow> True"
      using local_time_near [OF g s] e by (auto split: option.splits)
    then show ?thesis using k s by blast
  qed
  moreover have "keep_first z wall cursor first \<noteq> None \<or> gap \<noteq> None"
  proof (rule ccontr)
    assume n: "\<not> ?thesis"
    then have "first = None" by (auto simp: keep_first_def Let_def split: option.splits if_splits)
    then have c: "local_time z cursor \<le> wall" using i n by (simp add: wall_inv_def)
    define cand where "cand = wall - offset_at z cursor * second"
    have "cursor \<le> cand" "cand \<le> wall + 2 * day_ns"
      using c offset_bound [OF g, of cursor] by (auto simp: cand_def local_time_def)
    then have "case bound_end z cursor of Some e \<Rightarrow> cand < e | None \<Rightarrow> True"
      using e by (auto split: option.splits)
    then have "local_time z cand = wall" "case bound_end z cursor of Some e \<Rightarrow> cand < e | None \<Rightarrow> True"
      using same_period [OF g \<open>cursor \<le> cand\<close>] by (simp_all add: local_time_def cand_def)
    then show False using k n by blast
  qed
  ultimately show ?thesis using k i unfolding wall_done_def wall_inv_def by blast
qed

lemma wall_loop_done:
  assumes "good_zone z" and "wall_inv z wall cursor first gap"
  shows "case wall_loop z wall (wall + 3 * day_ns) cursor first gap of (f, g) \<Rightarrow> wall_done z wall f g"
  using assms
proof (induction z wall "wall + 3 * day_ns" cursor first gap rule: wall_loop.induct)
  case (1 z wall cursor first gap)
  note g = "1.prems"(1) and i = "1.prems"(2)
  show ?case
  proof (cases "cursor < wall + 3 * day_ns")
    case False
    then show ?thesis
      using wall_inv_done [OF g i] by (simp add: wall_loop.simps [of z wall _ cursor])
  next
    case True
    show ?thesis
    proof (cases "bound_end z cursor")
      case None
      then show ?thesis using wall_stop [OF g i] True by (simp add: wall_loop.simps [of z wall _ cursor] Let_def)
    next
      case (Some e)
      show ?thesis
      proof (cases "e < wall + 3 * day_ns")
        case False
        then show ?thesis
          using wall_stop [OF g i] True Some by (simp add: wall_loop.simps [of z wall _ cursor] Let_def)
      next
        case e: True
        then show ?thesis
          using "1.hyps" [OF _ refl Some _ g wall_step [OF g i Some]] True Some
          by (simp add: wall_loop.simps [of z wall _ cursor] Let_def)
      qed
    qed
  qed
qed

lemma resolve_wall_spec:
  assumes g: "good_zone z"
  shows "\<exists>r. resolve_wall z wall = Some r \<and>
    (local_time z r = wall \<and> (\<forall>u. local_time z u = wall \<longrightarrow> r \<le> u) \<or>
     (\<forall>u. local_time z u \<noteq> wall) \<and> jumps_over z wall r)"
proof -
  have "\<not> (u < wall - 3 * day_ns \<and> local_time z u = wall)" for u
    using local_time_near(1) [OF g, of u wall] by linarith
  moreover have "local_time z (wall - 3 * day_ns) \<le> wall"
    using offset_bound [OF g, of "wall - 3 * day_ns"] by (simp add: local_time_def)
  ultimately have "wall_inv z wall (wall - 3 * day_ns) None None"
    by (auto simp: wall_inv_def)
  from wall_loop_done [OF g this] show ?thesis
    by (auto simp: resolve_wall_def wall_done_def split: prod.splits option.splits)
qed

section \<open>Times of day\<close>

lemma two_digits: "length s = 2 \<Longrightarrow> list_all is_digit s \<Longrightarrow> \<exists>k. s = dec_digits 2 k \<and> k < 10 ^ 2 \<and> digits_val 0 s = int k"
proof -
  assume l: "length s = 2" and d: "list_all is_digit s"
  obtain x y where s: "s = [x, y]" using l by (metis (no_types) length_0_conv length_Suc_conv numeral_2_eq_2)
  define a b where "a = of_char x - (48::nat)" and "b = of_char y - (48::nat)"
  have r: "48 \<le> (of_char x :: nat)" "of_char x \<le> (57::nat)" "48 \<le> (of_char y :: nat)" "of_char y \<le> (57::nat)"
    using d s by (auto simp: is_digit_def Let_def)
  then have xy: "x = char_of (48 + a)" "y = char_of (48 + b)" "a < 10" "b < 10"
    by (auto simp: a_def b_def)
  define k where "k = 10 * a + b"
  have k: "k div 10 = a" "k mod 10 = b" "k < 100" using xy by (auto simp: k_def)
  then have "s = dec_digits 2 k" using s xy by (simp add: numeral_2_eq_2)
  moreover have "k < 10 ^ 2" using k by simp
  ultimately show ?thesis using digits_val_dec [of k 2] by blast
qed

lemma ParseHM_shape:
  assumes "ParseHM hm = Some (h, m)"
  shows "\<exists>i j. hm = dec_digits 2 i @ '':'' @ dec_digits 2 j \<and> i < 10 ^ 2 \<and> j < 10 ^ 2 \<and>
    h = int i \<and> m = int j \<and> h < 24 \<and> m < 60"
proof -
  have p: "length hm = 5" "hm ! 2 = CHR '':''" "list_all is_digit (take 2 hm)"
    "list_all is_digit (take 2 (drop 3 hm))" "digits_val 0 (take 2 hm) = h"
    "digits_val 0 (take 2 (drop 3 hm)) = m" "h < 24" "m < 60"
    using assms by (auto simp: ParseHM_def Let_def split: if_splits)
  have "length (take 2 hm) = 2" "length (take 2 (drop 3 hm)) = 2" using p(1) by simp_all
  then obtain i j where ij: "take 2 hm = dec_digits 2 i" "i < 10 ^ 2" "h = int i"
      "take 2 (drop 3 hm) = dec_digits 2 j" "j < 10 ^ 2" "m = int j"
    using two_digits p(3-6) by metis
  have "hm = take 2 hm @ drop 2 hm" by simp
  also have "drop 2 hm = hm ! 2 # drop 3 hm" using p(1) by (simp add: Cons_nth_drop_Suc numeral_3_eq_3 numeral_2_eq_2)
  also have "drop 3 hm = take 2 (drop 3 hm)" using p(1) by simp
  finally show ?thesis using ij p(2,7,8) by auto
qed

lemma ParseHM_order:
  assumes a: "ParseHM a = Some (h, m)" and b: "ParseHM b = Some (h', m')"
  shows "a < b \<longleftrightarrow> h * 60 + m < h' * 60 + m'"
proof -
  obtain i j where ij: "a = dec_digits 2 i @ '':'' @ dec_digits 2 j" "i < 10 ^ 2" "j < 10 ^ 2"
      "h = int i" "m = int j" "h < 24" "m < 60"
    using ParseHM_shape [OF a] by blast
  obtain i' j' where ij': "b = dec_digits 2 i' @ '':'' @ dec_digits 2 j'" "i' < 10 ^ 2" "j' < 10 ^ 2"
      "h' = int i'" "m' = int j'" "h' < 24" "m' < 60"
    using ParseHM_shape [OF b] by blast
  have "a < b \<longleftrightarrow> i < i' \<or> i = i' \<and> j < j'"
    unfolding ij(1) ij'(1)
    by (simp add: list_less_append Cons_less_Cons dec_digits_less [OF ij(2) ij'(2)]
        dec_digits_inj [OF ij(2) ij'(2)] dec_digits_less [OF ij(3) ij'(3)])
  then show ?thesis using ij ij' by auto
qed

definition minutes_of :: "int \<times> int \<Rightarrow> int" where
  "minutes_of hm = (fst hm * 60 + snd hm) * 60 * second"

lemma minutes_bound: "ParseHM hm = Some p \<Longrightarrow> 0 \<le> minutes_of p \<and> minutes_of p < day_ns"
proof -
  assume a: "ParseHM hm = Some p"
  obtain h m where p: "p = (h, m)" by (cases p)
  from ParseHM_shape [OF a [unfolded p]] show ?thesis by (auto simp: minutes_of_def p)
qed

section \<open>Dates of instants\<close>

lemma date_of_number_valid: "valid_date (date_of_number n)"
  unfolding date_of_number_def by (rule AddDate_valid) (simp add: valid_date_def days_in_month_def)

lemma day_number_of_number [simp]: "day_number (date_of_number n) = n"
proof -
  have v: "valid_date \<lparr>dyear = 2026, dmonth = 7, dday = 1\<rparr>"
    by (simp add: valid_date_def days_in_month_def)
  have "day_number \<lparr>dyear = 2026, dmonth = 7, dday = 1\<rparr> = 739798"
    by (simp add: day_number_def before_year_def before_month_def eval_nat_numeral days_in_month_def is_leap_def)
  then show ?thesis unfolding date_of_number_def AddDate_number [OF v] by simp
qed

lemma midnight_date_of_wall:
  "midnight (date_of_wall w) \<le> w" "w < midnight (date_of_wall w) + day_ns"
  by (simp_all add: midnight_def date_of_wall_def)

lemma midnight_AddDate: "valid_date d \<Longrightarrow> midnight (AddDate n d) = midnight d + n * day_ns"
  by (simp add: midnight_def AddDate_number algebra_simps)

section \<open>Zones of a fixed offset\<close>

definition fixed_zone :: "int \<Rightarrow> zone" where
  "fixed_zone off = \<lparr>ZBase = off, ZTrans = []\<rparr>"

lemma fixed_offset [simp]: "offset_at (fixed_zone off) t = off"
  by (simp add: offset_at_def fixed_zone_def)

lemma resolve_fixed:
  assumes "- 172800 \<le> off" "off \<le> 172800"
  shows "resolve_wall (fixed_zone off) wall = Some (wall - off * second)"
proof -
  have "good_zone (fixed_zone off)" using assms by (simp add: good_zone_def fixed_zone_def)
  from resolve_wall_spec [OF this, of wall] show ?thesis
    by (auto simp: local_time_def jumps_over_def)
qed

lemma Wall_fixed:
  assumes "LocationOf loc c = fixed_zone off" "- 172800 \<le> off" "off \<le> 172800"
    and "ParseHM hm = Some p" and "valid_date d" "label_year d"
  shows "Wall loc c (FormatDate d) hm = Some (midnight d + minutes_of p - off * second)"
  using assms ParseDate_Format [OF assms(5,6)] resolve_fixed [OF assms(2,3)]
  by (simp add: Wall_def minutes_of_def split: prod.splits)

lemma NextDate_Format: "valid_date d \<Longrightarrow> label_year d \<Longrightarrow> NextDate (FormatDate d) n = FormatDate (AddDate n d)"
  by (simp add: NextDate_def ParseDate_Format)

lemma At_fixed:
  assumes loc: "LocationOf loc c = fixed_zone off" "- 172800 \<le> off" "off \<le> 172800"
    and p: "ParseHM hm = Some p" and r: "ParseHM (DailyAt c) = Some r"
    and d: "valid_date d" "label_year d" "label_year (AddDate 1 d)"
  shows "At loc c (FormatDate d) hm =
    Some (midnight d + (if minutes_of p < minutes_of r then day_ns else 0) + minutes_of p - off * second)"
proof -
  have o: "hm < DailyAt c \<longleftrightarrow> minutes_of p < minutes_of r"
    using ParseHM_order [of hm "fst p" "snd p" "DailyAt c" "fst r" "snd r"] p r by (auto simp: minutes_of_def)
  show ?thesis
    using p Wall_fixed [OF loc p d(1,2)] Wall_fixed [OF loc p AddDate_valid [OF d(1)] d(3)]
      NextDate_Format [OF d(1,2), of 1] midnight_AddDate [OF d(1), of 1]
    by (simp add: At_def o)
qed

section \<open>Properties\<close>

text \<open>
  A wall-clock time always resolves to an instant, whatever transitions the zone has: to the
  earliest instant whose local reading it is (the first occurrence of a repeated hour), and, when
  it has none, to the transition at which the clock jumps over it.
\<close>

theorem Wall_resolves:
  assumes "ParseDate date = Some d" and "ParseHM hm = Some (h, m)" and "good_zone (LocationOf loc c)"
  shows "\<exists>r. Wall loc c date hm = Some r \<and>
    (local_time (LocationOf loc c) r = midnight d + (h * 60 + m) * 60 * second \<and>
       (\<forall>u. local_time (LocationOf loc c) u = midnight d + (h * 60 + m) * 60 * second \<longrightarrow> r \<le> u) \<or>
     (\<forall>u. local_time (LocationOf loc c) u \<noteq> midnight d + (h * 60 + m) * 60 * second) \<and>
       jumps_over (LocationOf loc c) (midnight d + (h * 60 + m) * 60 * second) r)"
  using assms resolve_wall_spec [OF assms(3)] by (simp add: Wall_def)

definition dst_zone :: zone where
  "dst_zone = \<lparr>ZBase = 3600, ZTrans = [(1774746000000000000, 7200), (1792890000000000000, 3600)]\<rparr>"

definition dst_loc :: "string \<Rightarrow> zone option" where
  "dst_loc n = (if n = ''Europe/Paris'' then Some dst_zone else None)"

definition paris :: BizCalendar where
  "paris = \<lparr>Timezone = ''Europe/Paris'', DailyAt = ''06:00''\<rparr>"

theorem Wall_resolves_witness:
  "\<exists>r. Wall dst_loc paris ''2026-03-29'' ''02:30'' = Some r"
proof -
  have l: "LocationOf dst_loc paris = dst_zone" by code_simp
  have g: "good_zone (LocationOf dst_loc paris)" unfolding l by (simp add: good_zone_def dst_zone_def)
  have d: "ParseDate ''2026-03-29'' = Some \<lparr>dyear = 2026, dmonth = 3, dday = 29\<rparr>" by code_simp
  have h: "ParseHM ''02:30'' = Some (2, 30)" by code_simp
  show ?thesis using Wall_resolves [OF d h g] by blast
qed

text \<open>
  In a zone of fixed offset (UTC is one) the business dates partition time: the date of an
  instant is the one whose daily has started and whose next daily has not.
\<close>

theorem BusinessDate_partition:
  assumes loc: "LocationOf loc c = fixed_zone off" "- 172800 \<le> off" "off \<le> 172800"
    and r: "ParseHM (DailyAt c) = Some r"
    and y: "label_year (AddDate (- 1) (date_of_wall (now + off * second)))"
      "label_year (AddDate 1 (date_of_wall (now + off * second)))"
  shows "\<exists>s e. Start loc c (BusinessDate loc c now) = Some s \<and>
    Start loc c (NextDate (BusinessDate loc c now) 1) = Some e \<and> s \<le> now \<and> now < e"
proof -
  define D where "D = date_of_wall (now + off * second)"
  have v: "valid_date D" by (simp add: D_def date_of_wall_def date_of_number_valid)
  have yD: "label_year D"
    by (rule label_year_mono [OF AddDate_valid [OF v] v AddDate_valid [OF v] y [folded D_def]])
      (simp_all add: AddDate_number v)
  have st: "Start loc c (FormatDate (AddDate n D)) = Some (midnight D + n * day_ns + minutes_of r - off * second)"
    if "label_year (AddDate n D)" for n
    using Wall_fixed [OF loc r AddDate_valid [OF v] that] midnight_AddDate [OF v] by (simp add: Start_def)
  have st0: "Start loc c (FormatDate D) = Some (midnight D + minutes_of r - off * second)"
    using st [of 0] yD by simp
  have lab: "local_label (LocationOf loc c) now = FormatDate D"
    by (simp add: local_label_def loc(1) local_time_def D_def)
  have w: "midnight D \<le> now + off * second" "now + off * second < midnight D + day_ns"
    unfolding D_def by (rule midnight_date_of_wall)+
  note mb = minutes_bound [OF r]
  have nx: "NextDate (FormatDate D) n = FormatDate (AddDate n D)" for n
    by (rule NextDate_Format [OF v yD])
  show ?thesis
  proof (cases "now < midnight D + minutes_of r - off * second")
    case True
    have "BusinessDate loc c now = FormatDate (AddDate (- 1) D)"
      using True by (simp add: BusinessDate_def lab before_opt_def st0 nx)
    moreover have "NextDate (FormatDate (AddDate (- 1) D)) 1 = FormatDate D"
    proof -
      have "AddDate 1 (AddDate (- 1) D) = D"
        by (rule day_number_inj) (simp_all add: AddDate_valid AddDate_number v)
      then show ?thesis using NextDate_Format [OF AddDate_valid [OF v] y(1) [folded D_def], of 1] by simp
    qed
    ultimately show ?thesis using st [OF y(1) [folded D_def]] st0 True w mb by simp
  next
    case False
    then have "BusinessDate loc c now = FormatDate D"
      by (simp add: BusinessDate_def lab before_opt_def st0)
    then show ?thesis using st [OF y(2) [folded D_def]] st0 False w mb nx by simp
  qed
qed

definition utc6 :: BizCalendar where
  "utc6 = \<lparr>Timezone = ''UTC'', DailyAt = ''06:00''\<rparr>"

text \<open>2026-07-16 02:00 UTC belongs to the daily of the 15th.\<close>

theorem BusinessDate_partition_witness:
  "BusinessDate (\<lambda>_. Some utc_zone) utc6 1784167200000000000 = ''2026-07-15'' \<and>
   (\<exists>s e. Start (\<lambda>_. Some utc_zone) utc6 ''2026-07-15'' = Some s \<and> s \<le> 1784167200000000000 \<and>
     Start (\<lambda>_. Some utc_zone) utc6 (NextDate ''2026-07-15'' 1) = Some e \<and> 1784167200000000000 < e)"
proof -
  have "(1784167200000000000 + 0 * second) div day_ns + epoch_days = 739813"
    by (simp add: epoch_days_def)
  moreover have "date_of_number 739813 = \<lparr>dyear = 2026, dmonth = 7, dday = 16\<rparr>"
    by (simp add: date_of_number_def AddDate_def next_day_def days_in_month_def eval_nat_numeral)
  ultimately have w: "date_of_wall (1784167200000000000 + 0 * second) = \<lparr>dyear = 2026, dmonth = 7, dday = 16\<rparr>"
    by (simp add: date_of_wall_def epoch_days_def)
  have l: "LocationOf (\<lambda>_. Some utc_zone) utc6 = fixed_zone 0" by code_simp
  have r: "ParseHM (DailyAt utc6) = Some (6, 0)" by code_simp
  have y: "label_year (AddDate (- 1) (date_of_wall (1784167200000000000 + 0 * second)))"
      "label_year (AddDate 1 (date_of_wall (1784167200000000000 + 0 * second)))"
    unfolding w by code_simp+
  have "Start (\<lambda>_. Some utc_zone) utc6 ''2026-07-16'' = Some 1784181600000000000" by code_simp
  moreover have "local_label (LocationOf (\<lambda>_. Some utc_zone) utc6) 1784167200000000000 = ''2026-07-16''"
  proof -
    have "FormatDate \<lparr>dyear = 2026, dmonth = 7, dday = 16\<rparr> = ''2026-07-16''" by code_simp
    then show ?thesis using w by (simp add: local_label_def l local_time_def)
  qed
  moreover have "NextDate ''2026-07-16'' (- 1) = ''2026-07-15''" by code_simp
  ultimately have b: "BusinessDate (\<lambda>_. Some utc_zone) utc6 1784167200000000000 = ''2026-07-15''"
    by (simp add: BusinessDate_def before_opt_def)
  show ?thesis
    using BusinessDate_partition [OF l _ _ r y] b by auto
qed

text \<open>
  An execution window never ends before it starts: when the end is written earlier in the day
  than the start it is taken on the next daily (zones of fixed offset).
\<close>

theorem WindowEnd_after_start:
  assumes loc: "LocationOf loc c = fixed_zone off" "- 172800 \<le> off" "off \<le> 172800"
    and r: "ParseHM (DailyAt c) = Some r" and p: "ParseHM from = Some p" and q: "ParseHM to = Some q"
    and d: "valid_date d" "label_year d" "label_year (AddDate 2 d)"
  shows "\<exists>s e. At loc c (FormatDate d) from = Some s \<and> WindowEnd loc c (FormatDate d) from to = Some e \<and> s \<le> e"
proof -
  have y1: "label_year (AddDate 1 d)"
    by (rule label_year_mono [OF d(1) AddDate_valid [OF d(1)] AddDate_valid [OF d(1)] d(2,3)])
      (simp_all add: AddDate_number d(1))
  have "AddDate 1 (AddDate 1 d) = AddDate 2 d"
    by (rule day_number_inj) (simp_all add: AddDate_valid AddDate_number d(1))
  then have y2: "label_year (AddDate 1 (AddDate 1 d))" using d(3) by simp
  note a1 = At_fixed [OF loc _ r d(1,2) y1]
  note a2 = At_fixed [OF loc q r AddDate_valid [OF d(1)] y1 y2]
  show ?thesis
    using a1 [OF p] a1 [OF q] a2 NextDate_Format [OF d(1,2), of 1] midnight_AddDate [OF d(1), of 1]
      minutes_bound [OF p] minutes_bound [OF q]
    by (simp add: WindowEnd_def)
qed

theorem WindowEnd_after_start_witness:
  "\<exists>s e. At (\<lambda>_. Some utc_zone) utc6 ''2026-07-15'' ''22:00'' = Some s \<and>
     WindowEnd (\<lambda>_. Some utc_zone) utc6 ''2026-07-15'' ''22:00'' ''02:00'' = Some e \<and> s \<le> e"
proof -
  define d where "d = \<lparr>dyear = 2026, dmonth = 7, dday = 15\<rparr>"
  have l: "LocationOf (\<lambda>_. Some utc_zone) utc6 = fixed_zone 0" by code_simp
  have r: "ParseHM (DailyAt utc6) = Some (6, 0)" "ParseHM ''22:00'' = Some (22, 0)"
    "ParseHM ''02:00'' = Some (2, 0)"
    by code_simp+
  have d: "valid_date d" "label_year d" "label_year (AddDate 2 d)" "FormatDate d = ''2026-07-15''"
    unfolding d_def by code_simp+
  show ?thesis using WindowEnd_after_start [OF l _ _ r d(1-3)] d(4) by auto
qed

end
