(* ===== verification/Gate.thy ===== *)
theory Gate
  imports Pool Resources Clock
begin

text \<open>
  The gates of a waiting instance: \<open>server/internal/scheduler/explain.go\<close>,
  \<open>snapshot_integrity.go\<close>, \<open>temporalBlock\<close> of \<open>business_time.go\<close>, \<open>defForInstance\<close> of
  \<open>scheduler.go\<close> and the execution policy of \<open>server/internal/runtimeprofile/profile.go\<close>.

  An order's snapshot is the JSON text of a definition; it is modelled by what it decodes to, and
  \<open>digest\<close> (a hash of the text) is a parameter.  The message texts of the blockers are not
  modelled.  The engine runs without durable storage (\<open>s.durable == nil\<close>), with the condition pool
  and the quota tracker attached.
\<close>

section \<open>Rows\<close>

datatype snapshot = NoSnapshot | BadSnapshot string | Frozen JobDefinition

record instRow =
  RId :: string
  RDefID :: string
  ROrderDate :: string
  RStatus :: InstanceStatus
  RScheduledAt :: "int option"
  RStartedAt :: "int option"
  RCarriedAt :: "int option"
  RForced :: bool
  RForceMode :: string
  RConfirmed :: bool
  RCarriedFrom :: string
  RSnapshot :: snapshot
  RDailyState :: string
  RChecksum :: string

abbreviation ForceModeOrder :: string where "ForceModeOrder \<equiv> ''order''"

definition Odate :: "instRow \<Rightarrow> string" where
  "Odate r = (if RCarriedFrom r \<noteq> [] then RCarriedFrom r else ROrderDate r)"

text \<open>What the engine is configured with and can ask of its surroundings.\<close>

record profile =
  Production :: bool
  ControlPlane :: string
  ServerAgent :: bool

record env =
  Loc :: "string \<Rightarrow> zone option"
  Digest :: "snapshot \<Rightarrow> string"
  Profile :: profile
  DemoMode :: bool
  HasAgent :: "string \<Rightarrow> string \<Rightarrow> string \<Rightarrow> bool"
  PersistOk :: "string \<Rightarrow> bool"

definition ExecutionError :: "profile \<Rightarrow> JobDefinition \<Rightarrow> bool" where
  "ExecutionError c d =
     (if \<not> Production c then False
      else if EqualFold (JobType d) ''SSH'' \<and> ControlPlane c \<noteq> ''http-ssh'' then True
      else if AgentID d = ''SERVER-AGENT'' \<and> (\<not> ServerAgent c \<or> ControlPlane c = ''deny'') then True
      else False)"

section \<open>Integrity of the frozen definition\<close>

datatype snapshot_fault = SnapMissing | SnapChecksum | SnapInvalid | SnapCalendar

definition snapshotError :: "env \<Rightarrow> instRow \<Rightarrow> snapshot_fault option" where
  "snapshotError e r =
     (case RSnapshot r of
        NoSnapshot \<Rightarrow> if RChecksum r \<noteq> [] then Some SnapMissing else None
      | s \<Rightarrow>
          if RChecksum r \<noteq> [] \<and> Digest e s \<noteq> RChecksum r then Some SnapChecksum
          else (case s of
             Frozen d \<Rightarrow>
               if ID d = [] \<or> ID d \<noteq> RDefID r then Some SnapInvalid
               else (case BusinessTime d of
                  Some c \<Rightarrow> if ValidateCalendar (Loc e) c \<noteq> None then Some SnapCalendar else None
                | None \<Rightarrow> None)
           | _ \<Rightarrow> Some SnapInvalid))"

datatype integrity_fault = SnapshotFault snapshot_fault | DailyUnfinished string

definition integrityBlock :: "env \<Rightarrow> instRow \<Rightarrow> integrity_fault option" where
  "integrityBlock e r =
     (case snapshotError e r of
        Some f \<Rightarrow> Some (SnapshotFault f)
      | None \<Rightarrow>
          if RDailyState r \<noteq> [] \<and> RDailyState r \<noteq> ''completed'' \<and> RDailyState r \<noteq> ''legacy''
          then Some (DailyUnfinished (RDailyState r)) else None)"

definition defForInstance ::
  "env \<Rightarrow> instRow \<Rightarrow> (string \<Rightarrow> JobDefinition option) \<Rightarrow> JobDefinition option" where
  "defForInstance e r live =
     (if snapshotError e r \<noteq> None then None
      else case RSnapshot r of
        Frozen d \<Rightarrow> Some (ExpandSnapshotConditions d live)
      | _ \<Rightarrow> live (RDefID r))"

section \<open>Blockers\<close>

datatype GateKind =
  GateConfiguration | GateWindow | GateWindowClosed | GateConfirm | GateCondition | GateAgent | GateResource

record Blocker =
  BKind :: GateKind
  BCondition :: string
  BResource :: string
  BWant :: int
  BUsed :: int
  BCapacity :: int

definition blocker :: "GateKind \<Rightarrow> Blocker" where
  "blocker k = \<lparr>BKind = k, BCondition = [], BResource = [], BWant = 0, BUsed = 0, BCapacity = 0\<rparr>"

definition total_bypass :: "instRow \<Rightarrow> bool" where
  "total_bypass r \<longleftrightarrow> RForced r \<and> RForceMode r \<noteq> ForceModeOrder"

definition order_force :: "instRow \<Rightarrow> bool" where
  "order_force r \<longleftrightarrow> RForced r \<and> RForceMode r = ForceModeOrder"

definition temporalBlock :: "env \<Rightarrow> JobDefinition \<Rightarrow> instRow \<Rightarrow> bool" where
  "temporalBlock e d r \<longleftrightarrow>
     (case frozenCalendar (Loc e) d of
        Some c \<Rightarrow> False
      | None \<Rightarrow> WindowTo (ScheduleOf d) \<noteq> [] \<or> order_force r \<and> WindowFrom (ScheduleOf d) \<noteq> [])"

definition agentAvailable :: "env \<Rightarrow> JobDefinition \<Rightarrow> bool" where
  "agentAvailable e d =
     (if ExecutionError (Profile e) d then False
      else if DemoMode e \<or> EqualFold (JobType d) ''SSH'' then True
      else HasAgent e (AgentID d) (JobType d) (Environment d))"

section \<open>The gates, in order\<close>

definition window_gate :: "env \<Rightarrow> instRow \<Rightarrow> JobDefinition \<Rightarrow> int \<Rightarrow> Blocker list" where
  "window_gate e r d now =
     (if UsesTimeToken (ConditionLogicOf d) then []
      else (if before_opt now (RScheduledAt r) then [blocker GateWindow] else []) @
           (if order_force r \<and> before_opt now (orderForceWindowStart (Loc e) d (Odate r))
            then [blocker GateWindow] else []))"

definition window_closed_gate :: "env \<Rightarrow> instRow \<Rightarrow> JobDefinition \<Rightarrow> int \<Rightarrow> Blocker list" where
  "window_closed_gate e r d now =
     (case orderWindowEnd (Loc e) d (Odate r) of
        None \<Rightarrow> []
      | Some t \<Rightarrow> if now > t then [blocker GateWindowClosed] else [])"

definition confirm_gate :: "instRow \<Rightarrow> JobDefinition \<Rightarrow> Blocker list" where
  "confirm_gate r d = (if Confirm d \<and> \<not> RConfirmed r then [blocker GateConfirm] else [])"

definition time_ready :: "env \<Rightarrow> instRow \<Rightarrow> JobDefinition \<Rightarrow> int \<Rightarrow> bool" where
  "time_ready e r d now =
     (case (if order_force r then orderForceWindowStart (Loc e) d (Odate r) else None) of
        Some ws \<Rightarrow> \<not> now < ws
      | None \<Rightarrow> \<not> before_opt now (RScheduledAt r))"

definition member_sat ::
  "env \<Rightarrow> instRow \<Rightarrow> JobDefinition \<Rightarrow> pool \<Rightarrow> (string \<Rightarrow> string) \<Rightarrow> string list option \<Rightarrow> int \<Rightarrow> string \<Rightarrow> bool" where
  "member_sat e r d p prevOf idx now m =
     (if m = CondTokenTime then time_ready e r d now
      else let (base, scope) = resolveCondScope m (Odate r) prevOf in hasIdx p base scope idx)"

definition condition_gate ::
  "env \<Rightarrow> instRow \<Rightarrow> JobDefinition \<Rightarrow> pool \<Rightarrow> (string \<Rightarrow> string) \<Rightarrow> string list option \<Rightarrow> int \<Rightarrow> Blocker list" where
  "condition_gate e r d p prevOf idx now =
     (if (case ConditionLogicOf d of Some l \<Rightarrow> Groups l \<noteq> [] | None \<Rightarrow> False) then
        (if Satisfied (EvalConditionLogic (ConditionLogicOf d) (ConditionsIn d) (member_sat e r d p prevOf idx now))
         then [] else [blocker GateCondition])
      else map (\<lambda>m. (blocker GateCondition)\<lparr>BCondition := McName m\<rparr>)
             (MissingIdx p (ConditionsIn d) (Odate r) prevOf idx))"

definition agent_gate :: "env \<Rightarrow> JobDefinition \<Rightarrow> Blocker list" where
  "agent_gate e d = (if agentAvailable e d then [] else [blocker GateAgent])"

definition resource_gate :: "JobDefinition \<Rightarrow> ResourceTracker \<Rightarrow> Blocker list" where
  "resource_gate d t =
     map (\<lambda>sf. \<lparr>BKind = GateResource, BCondition = [], BResource = SfName sf, BWant = SfWant sf,
                BUsed = SfUsed sf, BCapacity = SfCapacity sf\<rparr>)
       (Shortfalls t (ResourcesOf d))"

text \<open>
  The evaluator.  The three configuration tests return at once; the others append, and stop at the
  first blocker when \<open>shortCircuit\<close> is set, which keeps exactly the head of the whole list.
\<close>

definition all_gates ::
  "env \<Rightarrow> instRow \<Rightarrow> JobDefinition \<Rightarrow> pool \<Rightarrow> ResourceTracker \<Rightarrow> (string \<Rightarrow> string) \<Rightarrow>
   string list option \<Rightarrow> int \<Rightarrow> Blocker list" where
  "all_gates e r d p t prevOf idx now =
     (if total_bypass r then [] else window_gate e r d now @ window_closed_gate e r d now) @
     confirm_gate r d @ condition_gate e r d p prevOf idx now @ agent_gate e d @ resource_gate d t"

definition gateInstance ::
  "env \<Rightarrow> instRow \<Rightarrow> JobDefinition \<Rightarrow> pool \<Rightarrow> ResourceTracker \<Rightarrow> (string \<Rightarrow> string) \<Rightarrow>
   string list option \<Rightarrow> int \<Rightarrow> bool \<Rightarrow> Blocker list" where
  "gateInstance e r d p t prevOf idx now shortCircuit =
     (if integrityBlock e r \<noteq> None then [blocker GateConfiguration]
      else if ExecutionError (Profile e) d then [blocker GateConfiguration]
      else if \<not> total_bypass r \<and> temporalBlock e d r then [blocker GateConfiguration]
      else if shortCircuit then take 1 (all_gates e r d p t prevOf idx now)
      else all_gates e r d p t prevOf idx now)"

section \<open>Explain\<close>

record Explanation =
  ExInstance :: string
  ExDef :: string
  ExStatus :: InstanceStatus
  ExRunnable :: bool
  ExBlockers :: "Blocker list"

definition explain_row ::
  "env \<Rightarrow> instRow \<Rightarrow> (string \<Rightarrow> JobDefinition option) \<Rightarrow> pool \<Rightarrow> ResourceTracker \<Rightarrow> (string \<Rightarrow> string) \<Rightarrow>
   int \<Rightarrow> Explanation" where
  "explain_row e r live p t prevOf now =
     (let ex = \<lparr>ExInstance = RId r, ExDef = RDefID r, ExStatus = RStatus r, ExRunnable = False, ExBlockers = []\<rparr> in
      if RStatus r \<in> {StatusRunning, StatusOK, StatusNotOK, StatusCancelled, StatusHeld} then ex
      else if integrityBlock e r \<noteq> None then ex\<lparr>ExBlockers := [blocker GateConfiguration]\<rparr>
      else case defForInstance e r live of
        None \<Rightarrow> ex
      | Some d \<Rightarrow>
          if ExecutionError (Profile e) d then ex\<lparr>ExBlockers := [blocker GateConfiguration]\<rparr>
          else if total_bypass r then
            (if Confirm d \<and> \<not> RConfirmed r then ex\<lparr>ExBlockers := [blocker GateConfirm]\<rparr>
             else ex\<lparr>ExRunnable := True\<rparr>)
          else let bs = gateInstance e r d p t prevOf None now False in
            ex\<lparr>ExBlockers := bs, ExRunnable := (bs = [])\<rparr>)"

end
