(* ===== verification/Actions.thy ===== *)
theory Actions
  imports Pool
begin

text \<open>
  On/Do rules: \<open>server/internal/scheduler/actions.go\<close>.  The deciders are pure functions; the ledger
  \<open>action_fires\<close> (one row per instance and rule index) makes every rule fire at most once per
  instance; an executed action is the value of type \<open>action_effect\<close> that \<open>execAction\<close> asks the
  rest of the scheduler to perform.
\<close>

section \<open>Decimal numerals\<close>

fun nat_digits :: "nat \<Rightarrow> string" where
  "nat_digits n = (if n < 10 then [char_of (48 + n)] else nat_digits (n div 10) @ [char_of (48 + n mod 10)])"

declare nat_digits.simps [simp del]

definition Itoa :: "int \<Rightarrow> string" where
  "Itoa n = (if n < 0 then CHR ''-'' # nat_digits (nat (- n)) else nat_digits (nat n))"

section \<open>Deciders\<close>

record actionEvent =
  EvKind :: string
  EvStatus :: string
  EvExitCode :: int
  EvAttempt :: int
  EvRunMin :: int

definition zero_event :: actionEvent where
  "zero_event = \<lparr>EvKind = [], EvStatus = [], EvExitCode = 0, EvAttempt = 0, EvRunMin = 0\<rparr>"

definition compare_op :: "string \<Rightarrow> int \<Rightarrow> int \<Rightarrow> bool" where
  "compare_op op code n =
     (if op = ''>='' then code \<ge> n else if op = ''<='' then code \<le> n else if op = ''!='' then code \<noteq> n
      else if op = ''>'' then code > n else code < n)"

text \<open>The first operator that is a prefix of the token decides; \<^const>\<open>None\<close> when none is.\<close>

fun match_ops :: "string list \<Rightarrow> string \<Rightarrow> int \<Rightarrow> bool option" where
  "match_ops [] tok code = None"
| "match_ops (op # ops) tok code =
     (case cut_prefix op tok of
        Some rest \<Rightarrow>
          (case Atoi (TrimSpace rest) of None \<Rightarrow> Some False | Some n \<Rightarrow> Some (compare_op op code n))
      | None \<Rightarrow> match_ops ops tok code)"

definition range_sep :: "string \<Rightarrow> nat \<Rightarrow> bool" where
  "range_sep tok i \<longleftrightarrow> tok ! i = CHR ''-'' \<and> is_digit (tok ! (i - 1))"

definition match_range :: "string \<Rightarrow> int \<Rightarrow> bool" where
  "match_range tok code =
     (case List.find (range_sep tok) [1..<length tok] of
        None \<Rightarrow> False
      | Some i \<Rightarrow>
          (case (Atoi (TrimSpace (take i tok)), Atoi (TrimSpace (drop (i + 1) tok))) of
             (Some lo, Some hi) \<Rightarrow> code \<ge> lo \<and> code \<le> hi
           | _ \<Rightarrow> False))"

definition matchExitToken :: "string \<Rightarrow> int \<Rightarrow> bool" where
  "matchExitToken tok code =
     (if tok = [] then False
      else case match_ops [''>='', ''<='', ''!='', ''>'', ''<''] tok code of
        Some b \<Rightarrow> b
      | None \<Rightarrow>
          (case Atoi tok of Some n \<Rightarrow> code = n | None \<Rightarrow> match_range tok code))"

definition matchExitSpec :: "string \<Rightarrow> int \<Rightarrow> bool" where
  "matchExitSpec spec code \<longleftrightarrow>
     list_ex (\<lambda>tok. matchExitToken (TrimSpace tok) code) (split_on (CHR '','') spec)"

definition actionMatches :: "ActionRule \<Rightarrow> actionEvent \<Rightarrow> bool" where
  "actionMatches rule ev =
     (if \<not> EqualFold (TrimSpace (On rule)) (EvKind ev) then False
      else if EvKind ev = ''result'' then EqualFold (TrimSpace (RuleStatus rule)) (EvStatus ev)
      else if EvKind ev = ''exit'' then matchExitSpec (ExitCodes rule) (EvExitCode ev)
      else if EvKind ev = ''attempt'' then AttemptNo rule > 0 \<and> AttemptNo rule = EvAttempt ev
      else if EvKind ev = ''runtime'' then AfterMin rule > 0 \<and> EvRunMin ev \<ge> AfterMin rule
      else False)"

definition hasRuntimeAction :: "JobDefinition \<Rightarrow> bool" where
  "hasRuntimeAction d \<longleftrightarrow> list_ex (\<lambda>r. EqualFold (On r) ''runtime'') (Actions d)"

section \<open>The ledger\<close>

type_synonym fires = "(string \<times> string) list"

text \<open>\<open>ins_ok\<close>: the insert succeeds.\<close>

definition claimActionFire :: "bool \<Rightarrow> string \<times> string \<Rightarrow> fires \<Rightarrow> bool \<times> fires" where
  "claimActionFire ins_ok k fs =
     (if count_where (\<lambda>r. r = k) fs > 0 then (False, fs)
      else if \<not> ins_ok then (False, fs)
      else (True, fs @ [k]))"

section \<open>Actions\<close>

datatype action_effect =
    Notify string string string "string list"
  | SetConditionFx string string
  | RunJob string
  | SetOKFx
  | NoEffect

definition labelOf :: "JobDefinition \<Rightarrow> string" where
  "labelOf d = (if Label d \<noteq> [] then Label d else ID d)"

definition defaultActionMessage :: "JobDefinition \<Rightarrow> ActionRule \<Rightarrow> string" where
  "defaultActionMessage d rule =
     (let on = ToLower (On rule) in
      if on = ''result'' then labelOf d @ '' ended '' @ ToUpper (RuleStatus rule)
      else if on = ''exit'' then labelOf d @ '' ended with an exit code in ['' @ ExitCodes rule @ '']''
      else if on = ''attempt'' then labelOf d @ '' failed on attempt '' @ Itoa (AttemptNo rule)
      else if on = ''runtime'' then labelOf d @ '' running for more than '' @ Itoa (AfterMin rule) @ ''min''
      else labelOf d @ '': action fired'')"

text \<open>
  \<open>odate\<close> is the origin date of the instance and \<open>prevOf\<close> the previous-daily lookup.
  The alert engine and the condition engine are attached.
\<close>

definition execAction ::
  "string \<Rightarrow> (string \<Rightarrow> string) \<Rightarrow> JobDefinition \<Rightarrow> ActionRule \<Rightarrow> action_effect" where
  "execAction odate prevOf d rule =
     (let do = TrimSpace (Do rule) in
      if do = ''notify'' then
        Notify (ID d) (RuleSeverity rule)
          (if Message rule = [] then defaultActionMessage d rule else Message rule) (Channels rule)
      else if do = ''set-condition'' then
        (if TrimSpace (RuleCondition rule) = [] then NoEffect
         else let (base, scope) = resolveCondScope (RuleCondition rule) odate prevOf
              in SetConditionFx base scope)
      else if do = ''run-job'' then
        (if TrimSpace (TargetJob rule) = [] then NoEffect else RunJob (TargetJob rule))
      else if do = ''set-ok'' then SetOKFx
      else NoEffect)"

text \<open>
  One event against all the rules: the rule indices are the ledger keys.  The result lists the
  rules that fired, with their index, in order; the caller performs their actions.
\<close>

fun apply_rules ::
  "(string \<Rightarrow> bool) \<Rightarrow> string \<Rightarrow> actionEvent \<Rightarrow> nat \<Rightarrow> ActionRule list \<Rightarrow> fires \<Rightarrow>
   (nat \<times> ActionRule) list \<times> fires" where
  "apply_rules ins_ok inst ev i [] fs = ([], fs)"
| "apply_rules ins_ok inst ev i (rule # rules) fs =
     (if \<not> actionMatches rule ev then apply_rules ins_ok inst ev (Suc i) rules fs
      else case claimActionFire (ins_ok (nat_digits i)) (inst, nat_digits i) fs of
        (False, fs') \<Rightarrow> apply_rules ins_ok inst ev (Suc i) rules fs'
      | (True, fs') \<Rightarrow>
          (let (fired, fs'') = apply_rules ins_ok inst ev (Suc i) rules fs'
           in ((i, rule) # fired, fs'')))"

definition applyActions ::
  "(string \<Rightarrow> bool) \<Rightarrow> string \<Rightarrow> JobDefinition \<Rightarrow> actionEvent \<Rightarrow> fires \<Rightarrow>
   (nat \<times> ActionRule) list \<times> fires" where
  "applyActions ins_ok inst d ev fs = apply_rules ins_ok inst ev 0 (Actions d) fs"

section \<open>The interface: a ledger of claims\<close>

text \<open>Runs a sequence of claims, each with its own fault flag, and records the answers.\<close>

fun run_claims :: "('f \<Rightarrow> 'k \<Rightarrow> 's \<Rightarrow> bool \<times> 's) \<Rightarrow> ('f \<times> 'k) list \<Rightarrow> 's \<Rightarrow> ('k \<times> bool) list \<times> 's" where
  "run_claims claim [] s = ([], s)"
| "run_claims claim ((f, k) # xs) s =
     (let (b, s') = claim f k s; (bs, s'') = run_claims claim xs s' in ((k, b) # bs, s''))"

locale claim_ledger =
  fixes claim :: "'f \<Rightarrow> 'k \<Rightarrow> 's \<Rightarrow> bool \<times> 's"
    and claimed :: "'s \<Rightarrow> 'k \<Rightarrow> bool"
  assumes granted: "claim f k s = (True, s') \<Longrightarrow> \<not> claimed s k \<and> claimed s' k"
    and kept: "claimed s k \<Longrightarrow> claimed (snd (claim f j s)) k"

context claim_ledger
begin

lemma grants_of_claimed: "claimed s k \<Longrightarrow> (k, True) \<notin> set (fst (run_claims claim xs s))"
proof (induction xs arbitrary: s)
  case Nil
  then show ?case by simp
next
  case (Cons x xs)
  obtain f j where x: "x = (f, j)" by (cases x)
  obtain b s' where c: "claim f j s = (b, s')" by fastforce
  have "claimed s' k" using kept [OF Cons.prems, of f j] c by simp
  moreover have "\<not> (j = k \<and> b)" using granted [of f j s s'] c Cons.prems by auto
  ultimately show ?case using Cons.IH [of s'] x c by (auto split: prod.splits)
qed

lemma granted_at_most_once: "count_list (fst (run_claims claim xs s)) (k, True) \<le> 1"
proof (induction xs arbitrary: s)
  case Nil
  then show ?case by simp
next
  case (Cons x xs)
  obtain f j where x: "x = (f, j)" by (cases x)
  obtain b s' where c: "claim f j s = (b, s')" by fastforce
  obtain bs t where r: "run_claims claim xs s' = (bs, t)" by fastforce
  show ?case
  proof (cases "(j, b) = (k, True)")
    case True
    then have "claimed s' k" using granted [of f j s s'] c by auto
    then have "(k, True) \<notin> set bs" using grants_of_claimed [of s' k xs] r by simp
    then have "count_list bs (k, True) = 0" by (simp add: count_list_0_iff)
    then show ?thesis using x c r by simp
  next
    case False
    then have "\<not> (j = k \<and> b)" by simp
    then show ?thesis using Cons.IH [of s'] x c r by auto
  qed
qed

end

interpretation action_ledger: claim_ledger claimActionFire "\<lambda>fs k. k \<in> set fs"
  by unfold_locales
    (auto simp: claimActionFire_def count_where_def filter_empty_conv split: if_splits)

section \<open>Numerals: lemmas\<close>

lemma nat_digits_digits: "list_all is_digit (nat_digits n) \<and> nat_digits n \<noteq> []"
proof (induction n rule: nat_digits.induct)
  case (1 n)
  then show ?case by (subst nat_digits.simps) (auto simp: is_digit_char nat_digits.simps [of n])
qed

lemma digits_val_nat_digits: "digits_val 0 (nat_digits n) = int n"
proof (induction n rule: nat_digits.induct)
  case (1 n)
  have "10 * int (n div 10) + int (n mod 10) = int n" by presburger
  with 1 show ?case by (simp add: nat_digits.simps [of n] digits_val_snoc digit_val_char)
qed

lemma nat_digits_inj: "nat_digits m = nat_digits n \<longleftrightarrow> m = n"
  by (metis digits_val_nat_digits of_nat_eq_iff)

lemma apply_rules_keys:
  "apply_rules ok inst ev i rules fs = (fired, fs') \<Longrightarrow>
   fs' = fs @ map (\<lambda>(j, r). (inst, nat_digits j)) fired \<and>
   (\<forall>(j, r) \<in> set fired. i \<le> j \<and> (inst, nat_digits j) \<notin> set fs \<and> j - i < length rules \<and>
      rules ! (j - i) = r \<and> actionMatches r ev) \<and> distinct (map fst fired)"
proof (induction ok inst ev i rules fs arbitrary: fired fs' rule: apply_rules.induct)
  case (1 ok inst ev i fs)
  then show ?case by simp
next
  case (2 ok inst ev i rule rules fs)
  have shift: "j - i < length (rule # rules) \<and> (rule # rules) ! (j - i) = r"
    if "Suc i \<le> j" "j - Suc i < length rules" "rules ! (j - Suc i) = r" for j r
  proof -
    have "j - i = Suc (j - Suc i)" using that by simp
    with that show ?thesis by simp
  qed
  show ?case
  proof (cases "actionMatches rule ev")
    case False
    then have r: "apply_rules ok inst ev (Suc i) rules fs = (fired, fs')" using 2 by simp
    show ?thesis using "2.IH"(1) [OF _ r] False shift by fastforce
  next
    case True
    obtain b fs1 where c: "claimActionFire (ok (nat_digits i)) (inst, nat_digits i) fs = (b, fs1)"
      by fastforce
    show ?thesis
    proof (cases b)
      case False
      then have "fs1 = fs" using c by (auto simp: claimActionFire_def split: if_splits)
      then have r: "apply_rules ok inst ev (Suc i) rules fs = (fired, fs')"
        using "2.prems" True False c by simp
      have "fs' = fs @ map (\<lambda>(j, r). (inst, nat_digits j)) fired \<and>
        (\<forall>(j, r) \<in> set fired. Suc i \<le> j \<and> (inst, nat_digits j) \<notin> set fs \<and> j - Suc i < length rules \<and>
          rules ! (j - Suc i) = r \<and> actionMatches r ev) \<and> distinct (map fst fired)"
        using "2.IH"(3) [of False fs fired fs'] True c False \<open>fs1 = fs\<close> r by simp
      then show ?thesis using shift by fastforce
    next
      case b: True
      then have fs1: "fs1 = fs @ [(inst, nat_digits i)]" "(inst, nat_digits i) \<notin> set fs"
        using c by (auto simp: claimActionFire_def count_where_def filter_empty_conv split: if_splits)
      obtain fired1 fs2 where r: "apply_rules ok inst ev (Suc i) rules fs1 = (fired1, fs2)" by fastforce
      have eq: "fired = (i, rule) # fired1" "fs' = fs2"
        using "2.prems" True c b r by simp_all
      have "fs2 = fs1 @ map (\<lambda>(j, r). (inst, nat_digits j)) fired1 \<and>
        (\<forall>(j, r) \<in> set fired1. Suc i \<le> j \<and> (inst, nat_digits j) \<notin> set fs1 \<and> j - Suc i < length rules \<and>
          rules ! (j - Suc i) = r \<and> actionMatches r ev) \<and> distinct (map fst fired1)"
        using "2.IH"(2) [of True fs1 fired1 fs2] True c b r by simp
      then show ?thesis using shift True fs1 unfolding eq by fastforce
    qed
  qed
qed

section \<open>Exit specifications: lemmas\<close>

lemma digit_not:
  assumes "is_digit c"
  shows "c \<noteq> CHR ''-''" "c \<noteq> CHR ''+''" "c \<noteq> CHR ''>''" "c \<noteq> CHR ''<''" "c \<noteq> CHR ''!''" "\<not> is_space c"
    "c \<noteq> CHR '',''"
  using assms by (auto simp: is_digit_def is_space_def Let_def)

lemma minus_not_space [simp]: "\<not> is_space (CHR ''-'')"
  by (simp add: is_space_def)

lemma minus_not_digit [simp]: "\<not> is_digit (CHR ''-'')"
  by (simp add: is_digit_def)

lemma Itoa_shape: "\<exists>s ds. Itoa n = s @ ds \<and> (s = [] \<or> s = ''-'') \<and> list_all is_digit ds \<and> ds \<noteq> []"
proof (cases "n < 0")
  case True
  then have "Itoa n = ''-'' @ nat_digits (nat (- n))" by (simp add: Itoa_def)
  then show ?thesis using nat_digits_digits by blast
next
  case False
  then have "Itoa n = [] @ nat_digits (nat n)" by (simp add: Itoa_def)
  then show ?thesis using nat_digits_digits by blast
qed

lemma TrimSpace_id:
  assumes "s \<noteq> []" "\<not> is_space (hd s)" "\<not> is_space (last s)"
  shows "TrimSpace s = s"
proof -
  have "dropWhile is_space s = s" using assms by (cases s) auto
  moreover have "dropWhile is_space (rev s) = rev s"
    using assms by (cases s rule: rev_cases) auto
  ultimately show ?thesis by (simp add: TrimSpace_def)
qed

lemma TrimSpace_Itoa: "TrimSpace (Itoa n) = Itoa n"
proof -
  obtain s ds where sd: "Itoa n = s @ ds" "s = [] \<or> s = ''-''" "list_all is_digit ds" "ds \<noteq> []"
    using Itoa_shape by blast
  have "is_digit (hd ds)" "is_digit (last ds)" using sd by (auto simp: list_all_iff)
  then have "\<not> is_space (hd (s @ ds))" "\<not> is_space (last (s @ ds))"
    using sd digit_not by auto
  with sd show ?thesis using TrimSpace_id by simp
qed

lemma Atoi_Itoa: "min_int64 \<le> n \<Longrightarrow> n \<le> max_int64 \<Longrightarrow> Atoi (Itoa n) = Some n"
proof -
  assume r: "min_int64 \<le> n" "n \<le> max_int64"
  obtain c cs where c: "nat_digits (nat n) = c # cs" using nat_digits_digits by (meson list.exhaust)
  have "is_digit c" using nat_digits_digits [of "nat n"] c by simp
  with r c show ?thesis
    using nat_digits_digits [of "nat n"] nat_digits_digits [of "nat (- n)"]
      digits_val_nat_digits [of "nat n"] digits_val_nat_digits [of "nat (- n)"] digit_not [of c]
    by (auto simp: Atoi_def Itoa_def Let_def)
qed

lemma match_ops_digit:
  assumes "tok = c # cs" "is_digit c \<or> c = CHR ''-''"
  shows "match_ops [''>='', ''<='', ''!='', ''>'', ''<''] tok code = None"
  using assms digit_not [of c] by auto

lemma Itoa_hd: "\<exists>c cs. Itoa n @ t = c # cs \<and> (is_digit c \<or> c = CHR ''-'')"
proof -
  obtain s ds where sd: "Itoa n = s @ ds" "s = [] \<or> s = ''-''" "list_all is_digit ds" "ds \<noteq> []"
    using Itoa_shape by blast
  then show ?thesis by (cases ds) auto
qed

lemma Atoi_range_None:
  assumes "list_all is_digit ds" "ds \<noteq> []" "s = [] \<or> s = ''-''"
  shows "Atoi (s @ ds @ CHR ''-'' # t) = None"
proof -
  obtain c cs where c: "ds = c # cs" using assms(2) by (cases ds) auto
  then have "c \<noteq> CHR ''-''" "c \<noteq> CHR ''+''" using assms(1) digit_not [of c] by auto
  moreover have "\<not> list_all is_digit (xs @ CHR ''-'' # t)" for xs by simp
  ultimately show ?thesis using assms(3) by (elim disjE) (simp_all add: Atoi_def Let_def c)
qed

lemma find_first:
  assumes "P k" "a \<le> k" "k < b" "\<And>j. a \<le> j \<Longrightarrow> j < k \<Longrightarrow> \<not> P j"
  shows "List.find P [a..<b] = Some (k::nat)"
proof -
  have "[a..<b] = [a..<k] @ k # [Suc k..<b]"
    using assms(2,3) by (metis le_add_diff_inverse less_imp_le_nat upt_add_eq_append upt_conv_Cons)
  moreover have "List.find P [a..<k] = None" using assms(4) by (auto simp: find_None_iff)
  moreover have "List.find P (xs @ ys) = (case List.find P xs of None \<Rightarrow> List.find P ys | Some x \<Rightarrow> Some x)" for xs ys
    by (induction xs) auto
  ultimately show ?thesis using assms(1) by simp
qed

lemma find_range_sep:
  assumes d: "list_all is_digit ds" "ds \<noteq> []" and s: "s = [] \<or> s = ''-''"
  shows "List.find (range_sep (s @ ds @ CHR ''-'' # t)) [1..<length (s @ ds @ CHR ''-'' # t)] =
    Some (length (s @ ds))"
proof (rule find_first)
  have "is_digit (last ds)" using d by (simp add: list_all_iff)
  moreover have "(s @ ds @ CHR ''-'' # t) ! (length (s @ ds) - 1) = last ds"
    using d(2) by (cases ds rule: rev_cases) (simp_all add: nth_append)
  moreover have "(s @ ds @ CHR ''-'' # t) ! length (s @ ds) = CHR ''-''"
    by (simp add: nth_append)
  ultimately show "range_sep (s @ ds @ CHR ''-'' # t) (length (s @ ds))" by (simp add: range_sep_def)
  show "1 \<le> length (s @ ds)" using d(2) by (cases ds) auto
  show "length (s @ ds) < length (s @ ds @ CHR ''-'' # t)" by simp
  fix j assume j: "1 \<le> j" "j < length (s @ ds)"
  then have "(s @ ds @ CHR ''-'' # t) ! j = ds ! (j - length s)" "j - length s < length ds"
    using s by (auto simp: nth_append)
  with d(1) have "is_digit ((s @ ds @ CHR ''-'' # t) ! j)" by (simp add: list_all_iff)
  then show "\<not> range_sep (s @ ds @ CHR ''-'' # t) j" using digit_not by (auto simp: range_sep_def)
qed

section \<open>Properties\<close>

text \<open>
  Exit specifications mean what they print: a number matches exactly itself, and \<open>LO-HI\<close>
  exactly the codes from LO to HI, negative bounds included, over the whole range of 64-bit
  integers.
\<close>

theorem matchExitToken_ranges:
  assumes lo: "min_int64 \<le> lo" "lo \<le> max_int64" and hi: "min_int64 \<le> hi" "hi \<le> max_int64"
  shows "matchExitToken (Itoa lo) code = (code = lo) \<and>
         matchExitToken (Itoa lo @ ''-'' @ Itoa hi) code = (lo \<le> code \<and> code \<le> hi)"
proof
  obtain s ds where sd: "Itoa lo = s @ ds" "s = [] \<or> s = ''-''" "list_all is_digit ds" "ds \<noteq> []"
    using Itoa_shape by blast
  obtain c cs where c: "Itoa lo = c # cs" "is_digit c \<or> c = CHR ''-''"
    using Itoa_hd [of lo "[]"] by auto
  show "matchExitToken (Itoa lo) code = (code = lo)"
    using Atoi_Itoa [OF lo] match_ops_digit [OF c, of code] c(1) by (simp add: matchExitToken_def)
  define tok where "tok = Itoa lo @ ''-'' @ Itoa hi"
  have tok: "tok = s @ ds @ CHR ''-'' # Itoa hi" by (simp add: tok_def sd)
  have ne: "tok \<noteq> []" "match_ops [''>='', ''<='', ''!='', ''>'', ''<''] tok code = None"
    using match_ops_digit [of tok c "cs @ ''-'' @ Itoa hi" code] c by (simp_all add: tok_def)
  have "Atoi tok = None" unfolding tok by (rule Atoi_range_None [OF sd(3,4,2)])
  moreover have "List.find (range_sep tok) [1..<length tok] = Some (length (Itoa lo))"
    unfolding tok sd(1) by (rule find_range_sep [OF sd(3,4,2)])
  moreover have "take (length (Itoa lo)) tok = Itoa lo" "drop (length (Itoa lo) + 1) tok = Itoa hi"
    by (simp_all add: tok_def)
  ultimately show "matchExitToken (Itoa lo @ ''-'' @ Itoa hi) code = (lo \<le> code \<and> code \<le> hi)"
    unfolding tok_def [symmetric]
    using ne Atoi_Itoa [OF lo] Atoi_Itoa [OF hi]
    by (simp add: matchExitToken_def match_range_def TrimSpace_Itoa)
qed

theorem matchExitToken_ranges_witness:
  "matchExitToken (Itoa (- 3) @ ''-'' @ Itoa (- 1)) (- 2) \<and> \<not> matchExitToken (Itoa 1 @ ''-'' @ Itoa 4) 5"
  using matchExitToken_ranges [of "- 3" "- 1" "- 2"] matchExitToken_ranges [of 1 4 5]
  by (simp add: min_int64_def max_int64_def)

text \<open>Events of a run, over any instances and definitions; the log lists instance and rule index.\<close>

fun run_actions ::
  "(string \<Rightarrow> bool) \<Rightarrow> (string \<times> JobDefinition \<times> actionEvent) list \<Rightarrow> fires \<Rightarrow>
   (string \<times> nat) list \<times> fires" where
  "run_actions ok [] fs = ([], fs)"
| "run_actions ok ((inst, d, ev) # evs) fs =
     (let (fired, fs') = applyActions ok inst d ev fs; (log, fs'') = run_actions ok evs fs'
      in (map (\<lambda>(i, r). (inst, i)) fired @ log, fs''))"

definition log_key :: "string \<times> nat \<Rightarrow> string \<times> string" where
  "log_key x = (fst x, nat_digits (snd x))"

lemma applyActions_log:
  assumes "applyActions ok inst d ev fs = (fired, fs')"
  defines "A \<equiv> map (\<lambda>(i, r). (inst, i)) fired"
  shows "distinct A \<and> (\<forall>x\<in>set A. log_key x \<notin> set fs) \<and> fs' = fs @ map log_key A"
proof -
  note k = apply_rules_keys [OF assms(1) [unfolded applyActions_def]]
  have "A = map (Pair inst) (map fst fired)" by (auto simp: A_def)
  then have "distinct A" using k by (simp add: distinct_map [of "Pair inst"] inj_on_def del: map_map)
  moreover have "\<forall>x\<in>set A. log_key x \<notin> set fs" using k by (auto simp: A_def log_key_def)
  moreover have "map log_key A = map (\<lambda>(j, r). (inst, nat_digits j)) fired"
    by (auto simp: A_def log_key_def)
  ultimately show ?thesis using k by simp
qed

lemma run_actions_ledger:
  "run_actions ok evs fs = (log, fs') \<Longrightarrow>
   distinct log \<and> (\<forall>x\<in>set log. log_key x \<notin> set fs) \<and> fs' = fs @ map log_key log"
proof (induction ok evs fs arbitrary: log fs' rule: run_actions.induct)
  case (1 ok fs)
  then show ?case by simp
next
  case (2 ok inst d ev evs fs)
  obtain fired fs1 where a: "applyActions ok inst d ev fs = (fired, fs1)" by fastforce
  obtain log1 fs2 where r: "run_actions ok evs fs1 = (log1, fs2)" by fastforce
  define A where "A = map (\<lambda>(i, r). (inst, i)) fired"
  have eq: "log = A @ log1" "fs' = fs2" using "2.prems" a r by (simp_all add: A_def)
  note k = applyActions_log [OF a, folded A_def]
  note IH = "2.IH" [OF a [symmetric] refl r]
  have "x \<notin> set log1" if "x \<in> set A" for x
  proof
    assume "x \<in> set log1"
    then have "log_key x \<notin> set fs1" using IH by blast
    then show False using k that by simp
  qed
  then show ?case using k IH unfolding eq by auto
qed

text \<open>
  C33. Each rule of an instance fires at most once over any sequence of events (results, exits,
  attempts, runtime scans, repeated ticks), and never after the ledger records it: this is what
  survives a restart, the ledger being a table.
\<close>

theorem rules_fire_at_most_once:
  assumes "run_actions ok evs fs = (log, fs')"
  shows "distinct log \<and> (\<forall>(inst, i) \<in> set log. (inst, nat_digits i) \<notin> set fs \<and> (inst, nat_digits i) \<in> set fs')"
  using run_actions_ledger [OF assms] by (force simp: log_key_def)

definition shout_job :: JobDefinition where
  "shout_job = zero_def\<lparr>ID := ''j'', Actions := [zero_rule\<lparr>On := ''runtime'', AfterMin := 5, Do := ''notify''\<rparr>]\<rparr>"

theorem rules_fire_at_most_once_witness:
  "\<exists>fs'. run_actions (\<lambda>_. True)
     [(''i1'', shout_job, zero_event\<lparr>EvKind := ''runtime'', EvRunMin := 6\<rparr>),
      (''i1'', shout_job, zero_event\<lparr>EvKind := ''runtime'', EvRunMin := 7\<rparr>)] [] = ([(''i1'', 0)], fs')
     \<and> (''i1'', ''0'') \<in> set fs'"
proof -
  have r: "run_actions (\<lambda>_. True)
     [(''i1'', shout_job, zero_event\<lparr>EvKind := ''runtime'', EvRunMin := 6\<rparr>),
      (''i1'', shout_job, zero_event\<lparr>EvKind := ''runtime'', EvRunMin := 7\<rparr>)] []
     = ([(''i1'', 0)], [(''i1'', ''0'')])"
    by code_simp
  show ?thesis using rules_fire_at_most_once [OF r] r by simp
qed

text \<open>
  The claim of a rule is granted at most once per key over any interleaving of claimants,
  failing inserts included.
\<close>

theorem claimActionFire_grants_once:
  "count_list (fst (run_claims claimActionFire xs fs)) (k, True) \<le> 1"
  by (rule action_ledger.granted_at_most_once)

lemma apply_rules_complete:
  "fst (apply_rules (\<lambda>_. True) inst ev i rules fs) =
     filter (\<lambda>(j, r). actionMatches r ev \<and> (inst, nat_digits j) \<notin> set fs) (enumerate i rules)"
proof (induction "\<lambda>_ :: string. True" inst ev i rules fs rule: apply_rules.induct)
  case (1 inst ev i fs)
  then show ?case by simp
next
  case (2 inst ev i rule rules fs)
  have later: "filter (\<lambda>(j, r). actionMatches r ev \<and> (inst, nat_digits j) \<notin> set (fs @ [(inst, nat_digits i)]))
      (enumerate (Suc i) rules) =
    filter (\<lambda>(j, r). actionMatches r ev \<and> (inst, nat_digits j) \<notin> set fs) (enumerate (Suc i) rules)"
    by (rule filter_cong [OF refl]) (auto simp: in_set_enumerate_eq nat_digits_inj)
  define k where "k = (inst, nat_digits i)"
  show ?case
  proof (cases "actionMatches rule ev")
    case False
    then show ?thesis using "2.hyps"(1) by simp
  next
    case m: True
    show ?thesis
    proof (cases "k \<in> set fs")
      case True
      then have c: "claimActionFire True (inst, nat_digits i) fs = (False, fs)"
        by (auto simp: claimActionFire_def count_where_def filter_empty_conv k_def)
      then have "fst (apply_rules (\<lambda>_. True) inst ev i (rule # rules) fs) =
          fst (apply_rules (\<lambda>_. True) inst ev (Suc i) rules fs)" using m by simp
      then show ?thesis
        using "2.hyps"(3) [OF _ c [symmetric] refl] m True by (simp add: k_def)
    next
      case False
      then have c: "claimActionFire True (inst, nat_digits i) fs = (True, fs @ [(inst, nat_digits i)])"
        by (auto simp: claimActionFire_def count_where_def filter_empty_conv k_def)
      have "fst (apply_rules (\<lambda>_. True) inst ev i (rule # rules) fs) =
          (i, rule) # fst (apply_rules (\<lambda>_. True) inst ev (Suc i) rules (fs @ [(inst, nat_digits i)]))"
        using m c by (simp split: prod.splits)
      then show ?thesis
        using "2.hyps"(2) [OF _ c [symmetric] refl] m False later by (simp add: k_def)
    qed
  qed
qed

text \<open>
  When inserts succeed, one event fires exactly the rules that match it and have not fired
  for the instance before, in rule order.
\<close>

theorem applyActions_fires_exactly:
  "fst (applyActions (\<lambda>_. True) inst d ev fs) =
     filter (\<lambda>(j, r). actionMatches r ev \<and> (inst, nat_digits j) \<notin> set fs) (enumerate 0 (Actions d))"
  by (simp add: applyActions_def apply_rules_complete)

text \<open>
  A runtime rule whose trigger is written with a surrounding blank matches its event but is not
  found by the filter that decides which running instances are examined.
\<close>

lemma padded_runtime_rule_not_scanned:
  "actionMatches (zero_rule\<lparr>On := '' runtime'', AfterMin := 5\<rparr>) (zero_event\<lparr>EvKind := ''runtime'', EvRunMin := 6\<rparr>)
   \<and> \<not> hasRuntimeAction (zero_def\<lparr>Actions := [zero_rule\<lparr>On := '' runtime'', AfterMin := 5\<rparr>]\<rparr>)"
  by code_simp

end
