(* ===== verification/Scheduler.thy ===== *)
theory Scheduler
  imports Gate Actions
begin

text \<open>
  The engine of \<open>server/internal/scheduler/scheduler.go\<close> (with \<open>runs.go\<close>, \<open>progress.go\<close> and the
  wait reasons of \<open>output.go\<close>) in its embedded mode, without durable execution.

  A \<open>World\<close> holds the tables (\<open>instances\<close>, \<open>instance_runs\<close>, \<open>instance_events\<close>, \<open>action_fires\<close>,
  \<open>conditions\<close>, \<open>daily_order_ledger\<close>, \<open>daily_runs\<close>, \<open>settings\<close>) and the memory of the process (the
  quota tracker, the guard \<open>running\<close>, the last wait reason per instance).  Work handed to a tracked
  goroutine (a retry after its backoff, the dispatch of a forced order, the dispatch of a claimed
  instance) is an element of \<open>Spawned\<close>, performed by a later step.  Statements on the instance
  tables succeed; broadcasts, alerts, sysout and variables are not part of the state.
\<close>

section \<open>State\<close>

record Instance =
  IId :: string
  IDefID :: string
  ITeam :: string
  IOrderDate :: string
  IStatus :: InstanceStatus
  IScheduledAt :: "int option"
  IStartedAt :: "int option"
  IFinishedAt :: "int option"
  ICarriedAt :: "int option"
  IAttempts :: int
  IExitCode :: "int option"
  IOutput :: string
  IForced :: bool
  IForceMode :: string
  IConfirmed :: bool
  ICarriedFrom :: string
  ISnapshot :: snapshot
  IHeldFrom :: string
  ICycleRuns :: int

record RunRow =
  RunInst :: string
  RunDef :: string
  RunOdate :: string
  RunAttempt :: int
  RunStarted :: int
  RunFinished :: "int option"
  RunStatus :: InstanceStatus
  RunExit :: "int option"

record EventRow =
  EvInst :: string
  EvKindOf :: string
  EvActor :: string
  EvTs :: int

record LedgerRow =
  LrDate :: string
  LrOrdinal :: int
  LrDef :: string
  LrInst :: string
  LrSum :: string

datatype spawned = StartLater string JobDefinition | DispatchOf string JobDefinition

record World =
  Insts :: "Instance list"
  RunRows :: "RunRow list"
  Events :: "EventRow list"
  FiresOf :: fires
  PoolOf :: pool
  Ledger :: "LedgerRow list"
  Dailies :: "DailyRunRow list"
  SettingRows :: "(string \<times> string) list"
  Tracker :: ResourceTracker
  RunningGuard :: "string list"
  WaitReason :: "string \<Rightarrow> Blocker option"
  NoAgentAt :: "string \<Rightarrow> int option"
  LiveDefs :: "JobDefinition list"
  Spawned :: "spawned list"

section \<open>Helpers\<close>

definition inst_of :: "World \<Rightarrow> string \<Rightarrow> Instance option" where
  "inst_of w k = row_of IId k (Insts w)"

definition upd_inst :: "string \<Rightarrow> (Instance \<Rightarrow> Instance) \<Rightarrow> World \<Rightarrow> World" where
  "upd_inst k f w = w\<lparr>Insts := update_where (\<lambda>i. IId i = k) f (Insts w)\<rparr>"

definition emitEvent :: "int \<Rightarrow> string \<Rightarrow> string \<Rightarrow> string \<Rightarrow> World \<Rightarrow> World" where
  "emitEvent now k kind actor w =
     (if k = [] \<or> kind = [] then w
      else w\<lparr>Events := Events w @ [\<lparr>EvInst = k, EvKindOf = kind, EvActor = actor, EvTs = now\<rparr>]\<rparr>)"

definition live_map :: "World \<Rightarrow> string \<Rightarrow> JobDefinition option" where
  "live_map w k = map_of (rev (map (\<lambda>d. (ID d, d)) (LiveDefs w))) k"

definition prev_of :: "World \<Rightarrow> string \<Rightarrow> string" where
  "prev_of w = prevDaily (Dailies w)"

definition inst_odate :: "Instance \<Rightarrow> string" where
  "inst_odate i = (if ICarriedFrom i \<noteq> [] then ICarriedFrom i else IOrderDate i)"

text \<open>The left joins of an instance with the ledger and the daily it belongs to.\<close>

definition ledger_sum :: "World \<Rightarrow> string \<Rightarrow> string" where
  "ledger_sum w k = (case row_of LrInst k (Ledger w) of None \<Rightarrow> [] | Some l \<Rightarrow> LrSum l)"

definition daily_state :: "World \<Rightarrow> string \<Rightarrow> string" where
  "daily_state w k =
     (case row_of LrInst k (Ledger w) of
        None \<Rightarrow> []
      | Some l \<Rightarrow> (case row_of DrDate (LrDate l) (Dailies w) of None \<Rightarrow> [] | Some r \<Rightarrow> DrState r))"

definition row_of_inst :: "World \<Rightarrow> Instance \<Rightarrow> instRow" where
  "row_of_inst w i =
     \<lparr>RId = IId i, RDefID = IDefID i, ROrderDate = IOrderDate i, RStatus = IStatus i,
      RScheduledAt = IScheduledAt i, RStartedAt = IStartedAt i, RCarriedAt = ICarriedAt i,
      RForced = IForced i, RForceMode = IForceMode i, RConfirmed = IConfirmed i,
      RCarriedFrom = ICarriedFrom i, RSnapshot = ISnapshot i, RDailyState = daily_state w (IId i),
      RChecksum = ledger_sum w (IId i)\<rparr>"

definition order_blocked :: "env \<Rightarrow> World \<Rightarrow> string \<Rightarrow> bool" where
  "order_blocked e w k =
     (case inst_of w k of None \<Rightarrow> True | Some i \<Rightarrow> integrityBlock e (row_of_inst w i) \<noteq> None)"

definition instanceContext :: "env \<Rightarrow> World \<Rightarrow> string \<Rightarrow> (JobDefinition \<times> string \<times> int) option" where
  "instanceContext e w k =
     (if order_blocked e w k then None
      else case inst_of w k of None \<Rightarrow> None
      | Some i \<Rightarrow> (case ISnapshot i of Frozen d \<Rightarrow> Some (d, IOrderDate i, IAttempts i) | _ \<Rightarrow> None))"

section \<open>Runs\<close>

definition recordRunStart :: "string \<Rightarrow> World \<Rightarrow> World" where
  "recordRunStart k w =
     (case inst_of w k of
        None \<Rightarrow> w
      | Some i \<Rightarrow>
          (case IStartedAt i of
             None \<Rightarrow> w
           | Some t \<Rightarrow>
               w\<lparr>RunRows := RunRows w @
                 [\<lparr>RunInst = k, RunDef = IDefID i, RunOdate = inst_odate i, RunAttempt = IAttempts i,
                   RunStarted = t, RunFinished = None, RunStatus = StatusRunning, RunExit = None\<rparr>]\<rparr>))"

text \<open>The most recent open row of an instance (\<open>MAX(id)\<close>: the table is in insertion order).\<close>

definition open_run :: "string \<Rightarrow> RunRow \<Rightarrow> bool" where
  "open_run k r \<longleftrightarrow> RunInst r = k \<and> RunFinished r = None"

fun close_last :: "string \<Rightarrow> (RunRow \<Rightarrow> RunRow option) \<Rightarrow> RunRow list \<Rightarrow> RunRow list" where
  "close_last k f [] = []"
| "close_last k f (r # rs) =
     (if open_run k r \<and> \<not> list_ex (open_run k) rs
      then (case f r of Some r' \<Rightarrow> r' # rs | None \<Rightarrow> rs)
      else r # close_last k f rs)"

definition recordRunEnd :: "int \<Rightarrow> string \<Rightarrow> InstanceStatus \<Rightarrow> int \<Rightarrow> World \<Rightarrow> World" where
  "recordRunEnd now k st code w =
     w\<lparr>RunRows := close_last k
        (\<lambda>r. Some (r\<lparr>RunFinished := Some now, RunStatus := st, RunExit := Some code\<rparr>)) (RunRows w)\<rparr>"

definition discardRunStart :: "string \<Rightarrow> World \<Rightarrow> World" where
  "discardRunStart k w = w\<lparr>RunRows := close_last k (\<lambda>r. None) (RunRows w)\<rparr>"

section \<open>Progress marks\<close>

definition observeEligible :: "int \<Rightarrow> string \<Rightarrow> World \<Rightarrow> World" where
  "observeEligible now k w =
     (if list_ex (\<lambda>v. EvInst v = k \<and> EvKindOf v = ''eligible'') (Events w) then w
      else w\<lparr>Events := Events w @
             [\<lparr>EvInst = k, EvKindOf = ''eligible'', EvActor = ''scheduler'', EvTs = now\<rparr>]\<rparr>)"

definition maybeEmitWait :: "int \<Rightarrow> string \<Rightarrow> Blocker \<Rightarrow> World \<Rightarrow> World" where
  "maybeEmitWait now k b w =
     (if WaitReason w k = Some b then w
      else emitEvent now k ''wait'' ''scheduler'' (w\<lparr>WaitReason := (WaitReason w)(k \<mapsto> b)\<rparr>))"

definition clearWaitReason :: "string \<Rightarrow> World \<Rightarrow> World" where
  "clearWaitReason k w = w\<lparr>WaitReason := (WaitReason w)(k := None)\<rparr>"

abbreviation minute :: int where "minute \<equiv> 60 * second"

definition maybeEmitNoAgent :: "int \<Rightarrow> string \<Rightarrow> World \<Rightarrow> World" where
  "maybeEmitNoAgent now k w =
     (case NoAgentAt w k of
        Some t0 \<Rightarrow>
          if now - t0 < 5 * minute then w
          else emitEvent now k ''submitted'' ''scheduler'' (w\<lparr>NoAgentAt := (NoAgentAt w)(k \<mapsto> now)\<rparr>)
      | None \<Rightarrow> emitEvent now k ''submitted'' ''scheduler'' (w\<lparr>NoAgentAt := (NoAgentAt w)(k \<mapsto> now)\<rparr>))"

section \<open>Dispatch\<close>

text \<open>
  The claim: \<open>UPDATE .. SET status=RUNNING WHERE id=? AND status=WAITING\<close>.  The answer says whether
  this caller won the instance.
\<close>

definition claim_instance :: "int \<Rightarrow> string \<Rightarrow> World \<Rightarrow> bool \<times> World" where
  "claim_instance now k w =
     (case inst_of w k of
        Some i \<Rightarrow>
          if IStatus i = StatusWaiting
          then (True, upd_inst k (\<lambda>i. i\<lparr>IStatus := StatusRunning, IStartedAt := Some now\<rparr>) w)
          else (False, w)
      | None \<Rightarrow> (False, w))"

definition startInstance :: "env \<Rightarrow> int \<Rightarrow> string \<Rightarrow> JobDefinition \<Rightarrow> World \<Rightarrow> World" where
  "startInstance e now k d w =
     (if order_blocked e w k then w
      else if ExecutionError (Profile e) d then w
      else if k \<in> set (RunningGuard w) then w
      else case claim_instance now k w of
        (False, w1) \<Rightarrow> w1
      | (True, w1) \<Rightarrow>
          (let w2 = w1\<lparr>RunningGuard := k # RunningGuard w1\<rparr>;
               w3 = recordRunStart k (clearWaitReason k w2);
               w4 = emitEvent now k ''started'' ''scheduler'' w3
           in w4\<lparr>Spawned := Spawned w4 @ [DispatchOf k d]\<rparr>))"

section \<open>Conditions of a finished order\<close>

text \<open>Writes to the pool succeed.\<close>

definition applyConditionsOut :: "env \<Rightarrow> int \<Rightarrow> string \<Rightarrow> string \<Rightarrow> World \<Rightarrow> World" where
  "applyConditionsOut e now k actor w =
     (case inst_of w k of
        None \<Rightarrow> w
      | Some i \<Rightarrow>
          if integrityBlock e (row_of_inst w i) \<noteq> None then w
          else (case defForInstance e (row_of_inst w i) (live_map w) of
             None \<Rightarrow> w
           | Some d \<Rightarrow>
               if ID d = [] then w
               else w\<lparr>PoolOf := ApplyOutcomes (\<lambda>_ _. True) now d (inst_odate i) actor (prev_of w) (PoolOf w)\<rparr>))"

section \<open>Set OK\<close>

datatype op_error = NotFound | WrongStatus InstanceStatus | ConfigError

definition SetOK :: "env \<Rightarrow> int \<Rightarrow> string \<Rightarrow> World \<Rightarrow> op_error + World" where
  "SetOK e now k w =
     (case inst_of w k of
        None \<Rightarrow> Inl NotFound
      | Some i \<Rightarrow>
          if IStatus i \<notin> {StatusNotOK, StatusCancelled, StatusWaiting} then Inl (WrongStatus (IStatus i))
          else (let w1 = upd_inst k (\<lambda>i. i\<lparr>IStatus := StatusOK, IExitCode := Some 0,
                           IOutput := ''[set-ok]'' @ IOutput i,
                           IFinishedAt := (case IFinishedAt i of None \<Rightarrow> Some now | t \<Rightarrow> t)\<rparr>) w;
                    w2 = applyConditionsOut e now k ''set-ok'' w1
                in Inr (emitEvent now k ''set-ok'' ''operator'' w2)))"

section \<open>Force order\<close>

text \<open>\<open>stamp\<close> is the time of day \<open>HHMMSS\<close> that \<open>now.Format\<close> prints.\<close>

definition pad2 :: "int \<Rightarrow> string" where
  "pad2 n = dec_digits 2 (nat n)"

definition stamp :: "int \<Rightarrow> string" where
  "stamp now =
     (let s = (now div second) mod 86400
      in pad2 (s div 3600) @ pad2 (s div 60 mod 60) @ pad2 (s mod 60))"

definition business_calendar :: "World \<Rightarrow> BizCalendar" where
  "business_calendar w = BusinessCalendar (Some (SettingRows w))"

definition forced_instance :: "string \<Rightarrow> JobDefinition \<Rightarrow> string \<Rightarrow> int \<Rightarrow> Instance" where
  "forced_instance k d today now =
     \<lparr>IId = k, IDefID = ID d, ITeam = Team d, IOrderDate = today, IStatus = StatusWaiting,
      IScheduledAt = Some now, IStartedAt = None, IFinishedAt = None, ICarriedAt = None, IAttempts = 1,
      IExitCode = None, IOutput = [], IForced = True, IForceMode = ForceModeOrder, IConfirmed = False,
      ICarriedFrom = [], ISnapshot = Frozen d, IHeldFrom = [], ICycleRuns = 0\<rparr>"

text \<open>The reservation of quotas before a start, shared by the tick and the forced order.\<close>

definition acquire_for :: "env \<Rightarrow> string \<Rightarrow> JobDefinition \<Rightarrow> World \<Rightarrow> bool \<times> World" where
  "acquire_for e k d w =
     (if ResourcesOf d = [] then (True, w)
      else let (ok, t) = TryAcquire (PersistOk e) k (ResourcesOf d) (Tracker w) in (ok, w\<lparr>Tracker := t\<rparr>))"

definition observes :: "Blocker list \<Rightarrow> bool" where
  "observes bs = (case bs of [] \<Rightarrow> True | b # _ \<Rightarrow> BKind b = GateAgent \<or> BKind b = GateResource)"

definition ForceOrder :: "env \<Rightarrow> int \<Rightarrow> string \<Rightarrow> World \<Rightarrow> op_error + (string \<times> World)" where
  "ForceOrder e now defID w =
     (let c = business_calendar w in
      if ValidateCalendar (Loc e) c \<noteq> None then Inl ConfigError
      else case List.find (\<lambda>d. ID d = defID) (LiveDefs w) of
        None \<Rightarrow> Inl NotFound
      | Some d0 \<Rightarrow>
          (let today = BusinessDate (Loc e) c now; k = defID @ ''-FORCE-'' @ stamp now; d = freezeTime d0 c in
           case inst_of w k of
             Some _ \<Rightarrow> Inl ConfigError
           | None \<Rightarrow>
               (let i = forced_instance k d today now;
                    w1 = emitEvent now k ''force-ordered'' ''operator'' (w\<lparr>Insts := Insts w @ [i]\<rparr>);
                    r = (row_of_inst w1 i)\<lparr>RDailyState := [], RChecksum := []\<rparr>;
                    bs = gateInstance e r d (PoolOf w1) (Tracker w1) (prev_of w1) None now True;
                    w2 = (if observes bs then observeEligible now k w1 else w1)
                in if bs \<noteq> [] then Inr (k, emitEvent now k ''submitted'' ''operator'' w2)
                   else case acquire_for e k d w2 of
                     (False, w3) \<Rightarrow> Inr (k, w3)
                   | (True, w3) \<Rightarrow> Inr (k, w3\<lparr>Spawned := Spawned w3 @ [StartLater k d]\<rparr>))))"

section \<open>On/Do actions\<close>

definition perform :: "env \<Rightarrow> int \<Rightarrow> string \<Rightarrow> action_effect \<Rightarrow> World \<Rightarrow> World" where
  "perform e now k fx w =
     (case fx of
        Notify _ _ _ _ \<Rightarrow> emitEvent now k ''action'' ''actions'' w
      | SetConditionFx b s \<Rightarrow>
          emitEvent now k ''action'' ''actions'' (w\<lparr>PoolOf := SetCond now b s ''actions'' (PoolOf w)\<rparr>)
      | RunJob j \<Rightarrow>
          (case ForceOrder e now j w of
             Inl _ \<Rightarrow> emitEvent now k ''action'' ''actions'' w
           | Inr (_, w') \<Rightarrow> emitEvent now k ''action'' ''actions'' w')
      | SetOKFx \<Rightarrow>
          (case SetOK e now k w of
             Inl _ \<Rightarrow> w
           | Inr w' \<Rightarrow> emitEvent now k ''action'' ''actions'' w')
      | NoEffect \<Rightarrow> w)"

text \<open>
  \<open>applyActions\<close>: no action changes the ledger of fires or a rule, so the rules that fire are
  found first and their actions performed in order.  Inserts into the ledger succeed.
\<close>

definition run_rules :: "env \<Rightarrow> int \<Rightarrow> string \<Rightarrow> JobDefinition \<Rightarrow> actionEvent \<Rightarrow> World \<Rightarrow> World" where
  "run_rules e now k d ev w =
     (let odate = (case inst_of w k of Some i \<Rightarrow> inst_odate i | None \<Rightarrow> []);
          (fired, fs) = applyActions (\<lambda>_. True) k d ev (FiresOf w)
      in fold (\<lambda>(i, rule) w. perform e now k (execAction odate (prev_of w) d rule) w) fired
           (w\<lparr>FiresOf := fs\<rparr>))"

definition attempt_event :: "int \<Rightarrow> actionEvent" where
  "attempt_event n = zero_event\<lparr>EvKind := ''attempt'', EvAttempt := n\<rparr>"

definition result_event :: "InstanceStatus \<Rightarrow> actionEvent" where
  "result_event st = zero_event\<lparr>EvKind := ''result'', EvStatus := status_string st\<rparr>"

definition exit_event :: "int \<Rightarrow> actionEvent" where
  "exit_event code = zero_event\<lparr>EvKind := ''exit'', EvExitCode := code\<rparr>"

definition terminal_rules :: "env \<Rightarrow> int \<Rightarrow> string \<Rightarrow> InstanceStatus \<Rightarrow> int \<Rightarrow> World \<Rightarrow> World" where
  "terminal_rules e now k st code w =
     (case instanceContext e w k of
        Some (d, _, _) \<Rightarrow>
          if Actions d \<noteq> []
          then run_rules e now k d (exit_event code) (run_rules e now k d (result_event st) w) else w
      | None \<Rightarrow> w)"

section \<open>Retry and cycle\<close>

definition maybeRetry :: "env \<Rightarrow> int \<Rightarrow> string \<Rightarrow> World \<Rightarrow> World option" where
  "maybeRetry e now k w =
     (if order_blocked e w k then None
      else case inst_of w k of
        None \<Rightarrow> None
      | Some i \<Rightarrow>
          (case ISnapshot i of
             Frozen d \<Rightarrow>
               if Retries d \<le> 0 \<or> IAttempts i \<ge> Retries d + 1 then None
               else if RetryDelayMin d > 0 then
                 Some (emitEvent now k ''retry'' ''scheduler''
                   (upd_inst k (\<lambda>i. i\<lparr>IAttempts := IAttempts i + 1, IStatus := StatusWaiting,
                      IScheduledAt := Some (now + RetryDelayMin d * minute),
                      IExitCode := None, IFinishedAt := None\<rparr>) w))
               else
                 (let w1 = emitEvent now k ''retry'' ''scheduler''
                    (upd_inst k (\<lambda>i. i\<lparr>IAttempts := IAttempts i + 1, IStatus := StatusWaiting,
                       IExitCode := None, IFinishedAt := None\<rparr>) w)
                  in Some (w1\<lparr>Spawned := Spawned w1 @ [StartLater k d]\<rparr>))
           | _ \<Rightarrow> None))"

definition maybeCycle :: "env \<Rightarrow> int \<Rightarrow> string \<Rightarrow> World \<Rightarrow> World" where
  "maybeCycle e now k w =
     (case instanceContext e w k of
        None \<Rightarrow> w
      | Some (d, orderDate, _) \<Rightarrow>
          (let s = ScheduleOf d in
           if \<not> Cyclic s \<or> IntervalMin s \<le> 0 then w
           else case inst_of w k of
             None \<Rightarrow> w
           | Some i \<Rightarrow>
               (let done = ICycleRuns i + 1; next = now + IntervalMin s * minute in
                if CyclicMaxRuns s > 0 \<and> done \<ge> CyclicMaxRuns s
                then emitEvent now k ''cyclic-done'' ''scheduler'' w
                else if (case orderWindowEnd (Loc e) d orderDate of Some t \<Rightarrow> next > t | None \<Rightarrow> False)
                then emitEvent now k ''cyclic-done'' ''scheduler'' w
                else if WindowTo s \<noteq> [] \<and> BusinessTime d = None then w
                else if IStatus i \<noteq> StatusOK then w
                else emitEvent now k ''cyclic'' ''scheduler''
                  (upd_inst k (\<lambda>i. i\<lparr>IStatus := StatusWaiting, IScheduledAt := Some next,
                     ICycleRuns := done, IAttempts := 1, IExitCode := None, IFinishedAt := None\<rparr>) w))))"

section \<open>Results\<close>

definition terminal_status :: "InstanceStatus \<Rightarrow> bool" where
  "terminal_status st \<longleftrightarrow> st \<in> {StatusOK, StatusNotOK, StatusCancelled, StatusSLABreach}"

definition isInstanceTerminal :: "World \<Rightarrow> string \<Rightarrow> bool" where
  "isInstanceTerminal w k = (case inst_of w k of None \<Rightarrow> False | Some i \<Rightarrow> terminal_status (IStatus i))"

definition release_of :: "string \<Rightarrow> World \<Rightarrow> World" where
  "release_of k w = w\<lparr>Tracker := Release k (Tracker w)\<rparr>"

definition finish_terminal ::
  "env \<Rightarrow> int \<Rightarrow> string \<Rightarrow> InstanceStatus \<Rightarrow> int \<Rightarrow> string \<Rightarrow> World \<Rightarrow> World" where
  "finish_terminal e now k st code output w =
     (let w1 = upd_inst k (\<lambda>i. i\<lparr>IStatus := st, IExitCode := Some code, IOutput := output,
                  IFinishedAt := Some now\<rparr>) w;
          w2 = release_of k w1;
          w3 = (if st = StatusOK then applyConditionsOut e now k ''scheduler'' w2 else w2);
          w4 = emitEvent now k ''finished'' ''agent'' w3;
          w5 = (if st = StatusOK \<or> st = StatusNotOK then terminal_rules e now k st code w4 else w4)
      in if st = StatusOK then maybeCycle e now k w5 else w5)"

definition attempt_rules :: "env \<Rightarrow> int \<Rightarrow> string \<Rightarrow> World \<Rightarrow> World" where
  "attempt_rules e now k w =
     (case instanceContext e w k of
        Some (d, _, n) \<Rightarrow> if Actions d \<noteq> [] then run_rules e now k d (attempt_event n) w else w
      | None \<Rightarrow> w)"

definition FinishInstance ::
  "env \<Rightarrow> int \<Rightarrow> string \<Rightarrow> InstanceStatus \<Rightarrow> int \<Rightarrow> string \<Rightarrow> World \<Rightarrow> World" where
  "FinishInstance e now k st code output w =
     (if isInstanceTerminal w k then w
      else let w1 = recordRunEnd now k st code w;
               w2 = (if st = StatusNotOK then attempt_rules e now k w1 else w1)
           in case (if st = StatusNotOK then maybeRetry e now k w2 else None) of
                Some w3 \<Rightarrow> w3
              | None \<Rightarrow> finish_terminal e now k st code output w2)"

section \<open>Cancel\<close>

definition finishKilled :: "env \<Rightarrow> int \<Rightarrow> string \<Rightarrow> World \<Rightarrow> World" where
  "finishKilled e now k w =
     (case inst_of w k of
        None \<Rightarrow> w
      | Some i \<Rightarrow>
          if IStatus i \<noteq> StatusRunning then w
          else (let w1 = upd_inst k (\<lambda>i. i\<lparr>IStatus := StatusNotOK, IExitCode := Some (- 1),
                           IOutput := ''(cancelled by operator)'', IFinishedAt := Some now\<rparr>) w;
                    w2 = release_of k (recordRunEnd now k StatusNotOK (- 1) w1);
                    w3 = emitEvent now k ''cancelled'' ''operator'' w2
                in terminal_rules e now k StatusNotOK (- 1) w3))"

definition cancelPending :: "int \<Rightarrow> string \<Rightarrow> World \<Rightarrow> World" where
  "cancelPending now k w =
     emitEvent now k ''cancelled'' ''operator''
       (upd_inst k (\<lambda>i. i\<lparr>IStatus := StatusCancelled, IHeldFrom := [], IFinishedAt := Some now\<rparr>) w)"

definition Cancel :: "env \<Rightarrow> int \<Rightarrow> string \<Rightarrow> World \<Rightarrow> op_error + (InstanceStatus \<times> World)" where
  "Cancel e now k w =
     (case inst_of w k of
        None \<Rightarrow> Inl NotFound
      | Some i \<Rightarrow>
          if IStatus i = StatusRunning then Inr (StatusNotOK, finishKilled e now k w)
          else if IStatus i = StatusWaiting \<or> IStatus i = StatusHeld
          then Inr (StatusCancelled, cancelPending now k w)
          else Inl (WrongStatus (IStatus i)))"

section \<open>The dispatch goroutine\<close>

datatype dispatch_outcome = DispatchNoAgent | DispatchSent | DispatchQueueFull

definition revert_claim :: "int \<Rightarrow> string \<Rightarrow> JobDefinition \<Rightarrow> World \<Rightarrow> World" where
  "revert_claim now k d w =
     (let w1 = discardRunStart k (upd_inst k (\<lambda>i. i\<lparr>IStatus := StatusWaiting, IStartedAt := None\<rparr>) w);
          w2 = (if ResourcesOf d \<noteq> [] then release_of k w1 else w1)
      in maybeEmitNoAgent now k w2)"

definition run_dispatch ::
  "env \<Rightarrow> int \<Rightarrow> string \<Rightarrow> JobDefinition \<Rightarrow> dispatch_outcome \<Rightarrow> World \<Rightarrow> World" where
  "run_dispatch e now k d out w =
     (let w1 = (if EqualFold (JobType d) ''SSH'' then w
                else case out of
                  DispatchNoAgent \<Rightarrow>
                    if DemoMode e
                    then FinishInstance e now k StatusOK 0 ''(mocked)'' (emitEvent now k ''submitted'' ''scheduler'' w)
                    else revert_claim now k d w
                | DispatchQueueFull \<Rightarrow>
                    FinishInstance e now k StatusNotOK (- 1) ''agent queue full''
                      (emitEvent now k ''submitted'' ''scheduler'' w)
                | DispatchSent \<Rightarrow> emitEvent now k ''submitted'' ''scheduler'' w)
      in w1\<lparr>RunningGuard := filter (\<lambda>x. x \<noteq> k) (RunningGuard w1)\<rparr>)"

section \<open>The tick\<close>

abbreviation stuckRunningTimeout :: int where "stuckRunningTimeout \<equiv> 15 * minute"

definition stuck :: "int \<Rightarrow> instRow \<Rightarrow> bool" where
  "stuck now r \<longleftrightarrow> RStatus r = StatusRunning \<and>
     (case RStartedAt r of
        None \<Rightarrow> False
      | Some s \<Rightarrow>
          (let anchor = (case RCarriedAt r of Some c \<Rightarrow> if c > s then c else s | None \<Rightarrow> s)
           in now - anchor > stuckRunningTimeout))"

text \<open>One row of the tick; the row is as it was read, the rest of the state is current.\<close>

definition tick_row :: "env \<Rightarrow> int \<Rightarrow> string list option \<Rightarrow> instRow \<Rightarrow> World \<Rightarrow> World" where
  "tick_row e now idx r w =
     (let k = RId r in
      if stuck now r then
        FinishInstance e now k StatusNotOK (- 1) ''(timeout)'' (emitEvent now k ''timeout'' ''scheduler'' w)
      else if RStatus r \<noteq> StatusWaiting then w
      else if before_opt now (RScheduledAt r) then w
      else if integrityBlock e r \<noteq> None then maybeEmitWait now k (blocker GateConfiguration) w
      else case defForInstance e r (live_map w) of
        None \<Rightarrow> w
      | Some d \<Rightarrow>
          if ExecutionError (Profile e) d then w
          else if total_bypass r then
            (if Confirm d \<and> \<not> RConfirmed r then w
             else let w1 = observeEligible now k w in
               if \<not> agentAvailable e d then maybeEmitNoAgent now k w1
               else startInstance e now k d w1)
          else
            (let bs = gateInstance e r d (PoolOf w) (Tracker w) (prev_of w) idx now True;
                 w1 = (if observes bs then observeEligible now k w else w)
             in case bs of
                  b # _ \<Rightarrow> maybeEmitWait now k b w1
                | [] \<Rightarrow>
                    (case acquire_for e k d w1 of
                       (False, w2) \<Rightarrow> w2
                     | (True, w2) \<Rightarrow> startInstance e now k d w2)))"

text \<open>The rows of the business day, oldest schedule first, then by id (\<open>created_at\<close> follows the
  insertion order of the table, which a stable sort keeps).\<close>

definition todays_rows :: "World \<Rightarrow> string \<Rightarrow> instRow list" where
  "todays_rows w today =
     map (row_of_inst w)
       (sort_key (\<lambda>i. case IScheduledAt i of None \<Rightarrow> 0 | Some t \<Rightarrow> t)
         (filter (\<lambda>i. IOrderDate i = today) (Insts w)))"

definition scan_runtime :: "env \<Rightarrow> int \<Rightarrow> World \<Rightarrow> World" where
  "scan_runtime e now w =
     fold (\<lambda>i w. case (ISnapshot i, IStartedAt i) of
         (Frozen d, Some t) \<Rightarrow>
           if hasRuntimeAction d
           then run_rules e now (IId i) d
                  (zero_event\<lparr>EvKind := ''runtime'', EvRunMin := (now - t) div minute\<rparr>) w
           else w
       | _ \<Rightarrow> w)
       (filter (\<lambda>i. IStatus i = StatusRunning) (Insts w)) w"

definition tickOnce :: "env \<Rightarrow> int \<Rightarrow> World \<Rightarrow> World" where
  "tickOnce e now w =
     (let c = business_calendar w in
      if ValidateCalendar (Loc e) c \<noteq> None then w
      else let today = BusinessDate (Loc e) c now; idx = Some (LoadIndex (PoolOf w)) in
        scan_runtime e now (fold (tick_row e now idx) (todays_rows w today) w))"

definition Explain :: "env \<Rightarrow> int \<Rightarrow> string \<Rightarrow> World \<Rightarrow> Explanation option" where
  "Explain e now k w =
     (case inst_of w k of
        None \<Rightarrow> None
      | Some i \<Rightarrow> Some (explain_row e (row_of_inst w i) (live_map w) (PoolOf w) (Tracker w) (prev_of w) now))"

end
