(* ===== verification/SchedulerInv.thy ===== *)
theory SchedulerInv
  imports Scheduler
begin

text \<open>
  The invariant of the engine: instance ids are unique, an instance has an execution in progress
  (an open row of \<open>instance_runs\<close>) exactly when its status is RUNNING and then exactly one, and its
  attempts and cycles stay within the budget of its frozen definition.  Every operation keeps it; \<open>step\<close> is
  the interleaving of ticks, goroutines, results and operator commands.
\<close>

named_theorems world "how operations change the tables of a world"

section \<open>Lookups\<close>

lemma inst_of_upd [world]:
  assumes "\<And>i. IId (f i) = IId i"
  shows "inst_of (upd_inst k f w) j = map_option (\<lambda>i. if IId i = k then f i else i) (inst_of w j)"
  using row_of_update_where [of "\<lambda>i. IId i = k" IId f j "Insts w"] assms
  by (simp add: inst_of_def upd_inst_def)

lemma inst_of_id: "inst_of w k = Some i \<Longrightarrow> IId i = k \<and> i \<in> set (Insts w)"
  using row_of_SomeD [of IId k "Insts w" i] by (simp add: inst_of_def)

lemma emitEvent_frame [world]:
  "Insts (emitEvent now k x a w) = Insts w" "RunRows (emitEvent now k x a w) = RunRows w"
  "Tracker (emitEvent now k x a w) = Tracker w" "PoolOf (emitEvent now k x a w) = PoolOf w"
  "FiresOf (emitEvent now k x a w) = FiresOf w" "Ledger (emitEvent now k x a w) = Ledger w"
  "Dailies (emitEvent now k x a w) = Dailies w" "Spawned (emitEvent now k x a w) = Spawned w"
  "RunningGuard (emitEvent now k x a w) = RunningGuard w" "LiveDefs (emitEvent now k x a w) = LiveDefs w"
  "SettingRows (emitEvent now k x a w) = SettingRows w"
  by (simp_all add: emitEvent_def)

lemma upd_inst_frame [world]:
  "RunRows (upd_inst k f w) = RunRows w" "Tracker (upd_inst k f w) = Tracker w"
  "PoolOf (upd_inst k f w) = PoolOf w" "FiresOf (upd_inst k f w) = FiresOf w"
  "Ledger (upd_inst k f w) = Ledger w" "Dailies (upd_inst k f w) = Dailies w"
  "Spawned (upd_inst k f w) = Spawned w" "RunningGuard (upd_inst k f w) = RunningGuard w"
  "LiveDefs (upd_inst k f w) = LiveDefs w" "SettingRows (upd_inst k f w) = SettingRows w"
  by (simp_all add: upd_inst_def)

lemma marks_frame [world]:
  "Insts (observeEligible now k w) = Insts w" "RunRows (observeEligible now k w) = RunRows w"
  "Tracker (observeEligible now k w) = Tracker w"
  "Insts (maybeEmitWait now k b w) = Insts w" "RunRows (maybeEmitWait now k b w) = RunRows w"
  "Insts (clearWaitReason k w) = Insts w" "RunRows (clearWaitReason k w) = RunRows w"
  "Insts (maybeEmitNoAgent now k w) = Insts w" "RunRows (maybeEmitNoAgent now k w) = RunRows w"
  by (simp_all add: observeEligible_def maybeEmitWait_def clearWaitReason_def maybeEmitNoAgent_def
      emitEvent_frame split: option.splits)

lemma conditions_frame [world]:
  "Insts (applyConditionsOut e now k a w) = Insts w" "RunRows (applyConditionsOut e now k a w) = RunRows w"
  "Tracker (applyConditionsOut e now k a w) = Tracker w" "Ledger (applyConditionsOut e now k a w) = Ledger w"
  "Dailies (applyConditionsOut e now k a w) = Dailies w" "Spawned (applyConditionsOut e now k a w) = Spawned w"
  "FiresOf (applyConditionsOut e now k a w) = FiresOf w"
  by (simp_all add: applyConditionsOut_def split: option.splits)

lemma release_frame [world]:
  "Insts (release_of k w) = Insts w" "RunRows (release_of k w) = RunRows w"
  "PoolOf (release_of k w) = PoolOf w" "Ledger (release_of k w) = Ledger w"
  "Dailies (release_of k w) = Dailies w" "FiresOf (release_of k w) = FiresOf w"
  "Spawned (release_of k w) = Spawned w"
  by (simp_all add: release_of_def)

lemma acquire_frame [world]:
  "Insts (snd (acquire_for e k d w)) = Insts w" "RunRows (snd (acquire_for e k d w)) = RunRows w"
  by (simp_all add: acquire_for_def split: prod.splits)

section \<open>Open runs\<close>

definition open_count :: "World \<Rightarrow> string \<Rightarrow> nat" where
  "open_count w k = count_where (open_run k) (RunRows w)"

lemma close_last_none: "\<not> list_ex (open_run k) rs \<Longrightarrow> close_last k f rs = rs"
  by (induction k f rs rule: close_last.induct) auto

lemma close_last_count:
  assumes "\<And>r r'. f r = Some r' \<Longrightarrow> open_run k r \<Longrightarrow> RunInst r' = RunInst r \<and> RunFinished r' \<noteq> None"
  shows "count_where (open_run j) (close_last k f rs) =
    (if j = k then count_where (open_run j) rs - 1 else count_where (open_run j) rs)"
proof (induction rs)
  case Nil
  then show ?case by (simp add: count_where_def)
next
  case (Cons r rs)
  show ?case
  proof (cases "open_run k r \<and> \<not> list_ex (open_run k) rs")
    case True
    then have z: "count_where (open_run k) rs = 0" by (simp add: count_where_zero list_ex_iff)
    have jr: "open_run j r \<longleftrightarrow> j = k" using True by (auto simp: open_run_def)
    show ?thesis
    proof (cases "f r")
      case None
      then show ?thesis using True jr z by (auto simp: count_where_Cons)
    next
      case (Some r')
      then have "\<not> open_run j r'" using assms [OF Some] True by (auto simp: open_run_def)
      then show ?thesis using True Some jr z by (auto simp: count_where_Cons)
    qed
  next
    case False
    have "count_where (open_run k) rs \<noteq> 0 \<or> \<not> open_run k r"
      using False by (auto simp: count_where_zero list_ex_iff)
    with False Cons.IH show ?thesis by (auto simp: count_where_Cons)
  qed
qed

lemma open_count_end [world]:
  "open_count (recordRunEnd now k st c w) j = (if j = k then open_count w j - 1 else open_count w j)"
proof -
  define f :: "RunRow \<Rightarrow> RunRow option"
    where "f = (\<lambda>r. Some (r\<lparr>RunFinished := Some now, RunStatus := st, RunExit := Some c\<rparr>))"
  have "count_where (open_run j) (close_last k f (RunRows w)) =
      (if j = k then count_where (open_run j) (RunRows w) - 1 else count_where (open_run j) (RunRows w))"
    by (rule close_last_count) (auto simp: f_def)
  then show ?thesis by (simp add: open_count_def recordRunEnd_def f_def)
qed

lemma open_count_discard [world]:
  "open_count (discardRunStart k w) j = (if j = k then open_count w j - 1 else open_count w j)"
proof -
  have "count_where (open_run j) (close_last k (\<lambda>r. None) (RunRows w)) =
      (if j = k then count_where (open_run j) (RunRows w) - 1 else count_where (open_run j) (RunRows w))"
    by (rule close_last_count) auto
  then show ?thesis by (simp add: open_count_def discardRunStart_def)
qed

lemma run_end_frame [world]:
  "Insts (recordRunEnd now k st c w) = Insts w" "Insts (discardRunStart k w) = Insts w"
  "Tracker (recordRunEnd now k st c w) = Tracker w" "PoolOf (recordRunEnd now k st c w) = PoolOf w"
  "Ledger (recordRunEnd now k st c w) = Ledger w" "Dailies (recordRunEnd now k st c w) = Dailies w"
  "FiresOf (recordRunEnd now k st c w) = FiresOf w" "Spawned (recordRunEnd now k st c w) = Spawned w"
  by (simp_all add: recordRunEnd_def discardRunStart_def)

section \<open>The invariant\<close>

definition attempts_ok :: "Instance \<Rightarrow> bool" where
  "attempts_ok i \<longleftrightarrow> 1 \<le> IAttempts i \<and>
     (case ISnapshot i of
        Frozen d \<Rightarrow> IAttempts i \<le> max 1 (Retries d + 1) \<and>
          (CyclicMaxRuns (ScheduleOf d) > 0 \<longrightarrow> ICycleRuns i < CyclicMaxRuns (ScheduleOf d))
      | _ \<Rightarrow> True)"

lemma attempts_ok_frame [simp]:
  "attempts_ok (i\<lparr>IStatus := st\<rparr>) = attempts_ok i" "attempts_ok (i\<lparr>IScheduledAt := t\<rparr>) = attempts_ok i"
  "attempts_ok (i\<lparr>IStartedAt := t\<rparr>) = attempts_ok i" "attempts_ok (i\<lparr>IFinishedAt := t\<rparr>) = attempts_ok i"
  "attempts_ok (i\<lparr>IExitCode := c\<rparr>) = attempts_ok i" "attempts_ok (i\<lparr>IOutput := x\<rparr>) = attempts_ok i"
  "attempts_ok (i\<lparr>IHeldFrom := x\<rparr>) = attempts_ok i"
  by (simp_all add: attempts_ok_def split: snapshot.split)

definition is_running :: "World \<Rightarrow> string \<Rightarrow> bool" where
  "is_running w k \<longleftrightarrow> (case inst_of w k of Some i \<Rightarrow> IStatus i = StatusRunning | None \<Rightarrow> False)"

text \<open>\<open>sound_but K\<close>: the runs of the instances in \<open>K\<close> have just been closed.\<close>

definition sound_but :: "string set \<Rightarrow> World \<Rightarrow> bool" where
  "sound_but K w \<longleftrightarrow> keys_distinct IId (Insts w) \<and> (\<forall>i\<in>set (Insts w). attempts_ok i) \<and>
     (\<forall>k. open_count w k = (if k \<notin> K \<and> is_running w k then 1 else 0))"

abbreviation sound :: "World \<Rightarrow> bool" where "sound \<equiv> sound_but {}"

lemma sound_frame: "Insts w' = Insts w \<Longrightarrow> RunRows w' = RunRows w \<Longrightarrow> sound_but K w' = sound_but K w"
  by (simp add: sound_but_def open_count_def is_running_def inst_of_def)

named_theorems sframe "updates that the invariant does not see"

lemma sound_frame_ops [sframe]:
  "sound_but K (emitEvent now k x a w) = sound_but K w"
  "sound_but K (observeEligible now k w) = sound_but K w"
  "sound_but K (maybeEmitWait now k b w) = sound_but K w"
  "sound_but K (clearWaitReason k w) = sound_but K w"
  "sound_but K (maybeEmitNoAgent now k w) = sound_but K w"
  "sound_but K (applyConditionsOut e now k a w) = sound_but K w"
  "sound_but K (release_of k w) = sound_but K w"
  "sound_but K (snd (acquire_for e k d w)) = sound_but K w"
  "sound_but K (w\<lparr>PoolOf := p\<rparr>) = sound_but K w"
  "sound_but K (w\<lparr>FiresOf := fs\<rparr>) = sound_but K w"
  "sound_but K (w\<lparr>Spawned := sp\<rparr>) = sound_but K w"
  "sound_but K (w\<lparr>RunningGuard := g\<rparr>) = sound_but K w"
  by (rule sound_frame; simp add: emitEvent_frame marks_frame conditions_frame release_frame acquire_frame)+

lemma is_running_upd:
  assumes "\<And>i. IId (f i) = IId i"
  shows "is_running (upd_inst k f w) j =
    (case inst_of w j of Some i \<Rightarrow> IStatus (if IId i = k then f i else i) = StatusRunning | None \<Rightarrow> False)"
  by (simp add: is_running_def inst_of_upd [OF assms] split: option.splits)

text \<open>An update that does not move an instance into or out of RUNNING.\<close>

lemma sound_upd:
  assumes s: "sound_but K w" and f: "\<And>i. IId (f i) = IId i"
    and r: "\<And>i. inst_of w k = Some i \<Longrightarrow> k \<notin> K \<Longrightarrow> (IStatus (f i) = StatusRunning) = (IStatus i = StatusRunning)"
    and a: "\<And>i. inst_of w k = Some i \<Longrightarrow> attempts_ok i \<Longrightarrow> attempts_ok (f i)"
  shows "sound_but K (upd_inst k f w)"
proof -
  have d: "keys_distinct IId (Insts w)" using s by (simp add: sound_but_def)
  have "attempts_ok j" if j: "j \<in> set (Insts (upd_inst k f w))" for j
  proof -
    obtain i where i: "i \<in> set (Insts w)" "j = (if IId i = k then f i else i)"
      using j by (auto simp: upd_inst_def set_update_where)
    have "inst_of w (IId i) = Some i" using row_of_in_set [OF d i(1)] by (simp add: inst_of_def)
    then show ?thesis using i s a [of i] by (auto simp: sound_but_def)
  qed
  moreover have "is_running (upd_inst k f w) j = is_running w j" if "j \<notin> K" for j
  proof (cases "inst_of w j")
    case None
    then show ?thesis unfolding is_running_upd [OF f] by (simp add: is_running_def)
  next
    case (Some i)
    then show ?thesis
      using that r [of i] inst_of_id [OF Some] unfolding is_running_upd [OF f] by (auto simp: is_running_def)
  qed
  moreover have "keys_distinct IId (Insts (upd_inst k f w))"
    using d f by (simp add: upd_inst_def keys_distinct_update_where)
  ultimately show ?thesis using s by (auto simp: sound_but_def open_count_def upd_inst_frame)
qed

text \<open>Closing the run of an instance, and then giving it a status other than RUNNING.\<close>

lemma sound_end: "sound w \<Longrightarrow> sound_but {k} (recordRunEnd now k st c w)"
  by (auto simp: sound_but_def open_count_end run_end_frame is_running_def inst_of_def)

lemma sound_settle:
  assumes s: "sound_but {k} w" and f: "\<And>i. IId (f i) = IId i" and st: "\<And>i. IStatus (f i) \<noteq> StatusRunning"
    and a: "\<And>i. inst_of w k = Some i \<Longrightarrow> attempts_ok i \<Longrightarrow> attempts_ok (f i)"
  shows "sound (upd_inst k f w)"
proof -
  have u: "sound_but {k} (upd_inst k f w)" by (rule sound_upd [OF s f]) (use a in auto)
  have "\<not> is_running (upd_inst k f w) k"
    using st inst_of_id [of w k] by (auto simp: is_running_upd [OF f] split: option.splits)
  with u show ?thesis by (auto simp: sound_but_def)
qed

lemma sound_settle_absent: "sound_but {k} w \<Longrightarrow> inst_of w k = None \<Longrightarrow> sound w"
  by (auto simp: sound_but_def is_running_def split: option.splits)

section \<open>Operations keep the invariant\<close>

lemma sound_SetOK: "sound_but K w \<Longrightarrow> SetOK e now k w = Inr w' \<Longrightarrow> sound_but K w'"
proof -
  assume s: "sound_but K w" and o: "SetOK e now k w = Inr w'"
  obtain i where i: "inst_of w k = Some i" "IStatus i \<in> {StatusNotOK, StatusCancelled, StatusWaiting}"
    using o by (auto simp: SetOK_def split: option.splits if_splits)
  define f :: "Instance \<Rightarrow> Instance" where "f = (\<lambda>i. i\<lparr>IStatus := StatusOK, IExitCode := Some 0, IOutput := ''[set-ok]'' @ IOutput i,
     IFinishedAt := (case IFinishedAt i of None \<Rightarrow> Some now | t \<Rightarrow> t)\<rparr>)"
  have w': "w' = emitEvent now k ''set-ok'' ''operator'' (applyConditionsOut e now k ''set-ok'' (upd_inst k f w))"
    using o i by (auto simp: SetOK_def f_def Let_def split: if_splits)
  have "sound_but K (upd_inst k f w)"
    by (rule sound_upd [OF s]) (use i in \<open>auto simp: f_def\<close>)
  then show ?thesis unfolding w' by (simp add: sframe)
qed

lemma inst_of_snoc [world]:
  "inst_of (w\<lparr>Insts := Insts w @ [i]\<rparr>) j =
     (case inst_of w j of None \<Rightarrow> if IId i = j then Some i else None | Some x \<Rightarrow> Some x)"
  by (simp add: inst_of_def row_of_append row_of_Cons split: option.splits)

lemma sound_new:
  assumes s: "sound_but K w" and n: "inst_of w (IId i) = None" and st: "IStatus i \<noteq> StatusRunning"
    and a: "attempts_ok i"
  shows "sound_but K (w\<lparr>Insts := Insts w @ [i]\<rparr>)"
proof -
  have "is_running (w\<lparr>Insts := Insts w @ [i]\<rparr>) j = is_running w j" for j
    using n st by (auto simp: is_running_def inst_of_snoc split: option.splits)
  then show ?thesis
    using s n a by (auto simp: sound_but_def keys_distinct_snoc inst_of_def open_count_def)
qed

text \<open>The forced order on top of the world with the new instance.\<close>

lemma ForceOrder_end:
  assumes "ForceOrder e now j w = Inr (k, w')"
  shows "\<exists>d today v. k = j @ ''-FORCE-'' @ stamp now \<and> inst_of w k = None \<and>
    Insts v = Insts w @ [forced_instance k d today now] \<and> RunRows v = RunRows w \<and> Tracker v = Tracker w \<and>
    (w' = emitEvent now k ''submitted'' ''operator'' v \<or> w' = snd (acquire_for e k d v) \<or>
     (\<exists>sp. w' = (snd (acquire_for e k d v))\<lparr>Spawned := sp\<rparr>))"
proof -
  define c k0 where "c = business_calendar w" and "k0 = j @ ''-FORCE-'' @ stamp now"
  obtain d0 where c: "ValidateCalendar (Loc e) c = None" "List.find (\<lambda>d. ID d = j) (LiveDefs w) = Some d0"
      "inst_of w k0 = None"
    using assms by (auto simp: ForceOrder_def Let_def c_def k0_def split: if_splits option.splits)
  define today d where "today = BusinessDate (Loc e) c now" and "d = freezeTime d0 c"
  define i where "i = forced_instance k0 d today now"
  define w1 where "w1 = emitEvent now k0 ''force-ordered'' ''operator'' (w\<lparr>Insts := Insts w @ [i]\<rparr>)"
  define bs where "bs = gateInstance e ((row_of_inst w1 i)\<lparr>RDailyState := [], RChecksum := []\<rparr>) d
     (PoolOf w1) (Tracker w1) (prev_of w1) None now True"
  define w2 where "w2 = (if observes bs then observeEligible now k0 w1 else w1)"
  have o: "ForceOrder e now j w = (if bs \<noteq> [] then Inr (k0, emitEvent now k0 ''submitted'' ''operator'' w2)
      else case acquire_for e k0 d w2 of (False, w3) \<Rightarrow> Inr (k0, w3)
        | (True, w3) \<Rightarrow> Inr (k0, w3\<lparr>Spawned := Spawned w3 @ [StartLater k0 d]\<rparr>))"
    unfolding ForceOrder_def Let_def c_def [symmetric] k0_def [symmetric]
    by (simp only: c simp_thms if_False option.case bs_def w2_def w1_def i_def d_def today_def)
  have f2: "Insts w2 = Insts w @ [i]" "RunRows w2 = RunRows w" "Tracker w2 = Tracker w"
    by (simp_all add: w2_def w1_def marks_frame emitEvent_frame)
  have "k = k0 \<and> (w' = emitEvent now k0 ''submitted'' ''operator'' w2 \<or> w' = snd (acquire_for e k0 d w2) \<or>
     (\<exists>sp. w' = (snd (acquire_for e k0 d w2))\<lparr>Spawned := sp\<rparr>))"
    using assms unfolding o by (auto split: if_splits prod.splits bool.splits)
  then show ?thesis using c(3) f2 unfolding i_def k0_def by blast
qed

lemma ForceOrder_shape:
  assumes "ForceOrder e now j w = Inr (k, w')"
  shows "k = j @ ''-FORCE-'' @ stamp now \<and> inst_of w k = None \<and>
    (\<exists>d today. Insts w' = Insts w @ [forced_instance k d today now] \<and> RunRows w' = RunRows w)"
proof -
  obtain d today v where k: "k = j @ ''-FORCE-'' @ stamp now" "inst_of w k = None"
    and v: "Insts v = Insts w @ [forced_instance k d today now]" "RunRows v = RunRows w"
    and w': "w' = emitEvent now k ''submitted'' ''operator'' v \<or> w' = snd (acquire_for e k d v) \<or>
     (\<exists>sp. w' = (snd (acquire_for e k d v))\<lparr>Spawned := sp\<rparr>)"
    using ForceOrder_end [OF assms] by blast
  have "Insts w' = Insts v \<and> RunRows w' = RunRows v"
    using w' acquire_frame [of e k d v] by (auto simp: emitEvent_frame)
  then show ?thesis using k v by auto
qed

lemma sound_ForceOrder: "sound_but K w \<Longrightarrow> ForceOrder e now j w = Inr (k, w') \<Longrightarrow> sound_but K w'"
proof -
  assume s: "sound_but K w" and o: "ForceOrder e now j w = Inr (k, w')"
  obtain d today where n: "inst_of w k = None"
    and fr: "Insts w' = Insts w @ [forced_instance k d today now]" "RunRows w' = RunRows w"
    using ForceOrder_shape [OF o] by blast
  have "sound_but K (w\<lparr>Insts := Insts w @ [forced_instance k d today now]\<rparr>)"
    by (rule sound_new [OF s])
      (use n in \<open>simp_all add: forced_instance_def attempts_ok_def\<close>)
  then show ?thesis
    using sound_frame [of w' "w\<lparr>Insts := Insts w @ [forced_instance k d today now]\<rparr>" K] fr by simp
qed

lemma sound_perform: "sound_but K w \<Longrightarrow> sound_but K (perform e now k fx w)"
proof -
  assume s: "sound_but K w"
  show ?thesis
  proof (cases fx)
    case (RunJob j)
    then show ?thesis
      using s sound_ForceOrder [OF s, of e now j] by (auto simp: perform_def sframe split: sum.split)
  next
    case SetOKFx
    then show ?thesis
      using s sound_SetOK [OF s, of e now k] by (auto simp: perform_def sframe split: sum.split)
  qed (use s in \<open>simp_all add: perform_def sframe\<close>)
qed

lemma sound_run_rules: "sound_but K w \<Longrightarrow> sound_but K (run_rules e now k d ev w)"
proof -
  assume s: "sound_but K w"
  obtain fired fs where a: "applyActions (\<lambda>_. True) k d ev (FiresOf w) = (fired, fs)" by fastforce
  define g where "g = (\<lambda>(i :: nat, rule) w'. perform e now k
      (execAction (case inst_of w k of Some i \<Rightarrow> inst_odate i | None \<Rightarrow> []) (prev_of w') d rule) w')"
  have "sound_but K (fold g fired v)" if "sound_but K v" for v
    using that by (induction fired arbitrary: v) (auto simp: g_def sound_perform)
  then show ?thesis using s by (simp add: run_rules_def a g_def sframe)
qed

lemma sound_terminal_rules: "sound_but K w \<Longrightarrow> sound_but K (terminal_rules e now k st code w)"
  by (auto simp: terminal_rules_def sound_run_rules split: option.splits)

lemma sound_attempt_rules: "sound_but K w \<Longrightarrow> sound_but K (attempt_rules e now k w)"
  by (auto simp: attempt_rules_def sound_run_rules split: option.splits)

lemma sound_maybeRetry:
  assumes s: "sound_but {k} w" and r: "maybeRetry e now k w = Some w'"
  shows "sound w'"
proof -
  obtain i d where i: "inst_of w k = Some i" "ISnapshot i = Frozen d" "\<not> (Retries d \<le> 0)" "IAttempts i < Retries d + 1"
    using r by (auto simp: maybeRetry_def not_le split: if_splits option.splits snapshot.splits)
  define f :: "int option \<Rightarrow> Instance \<Rightarrow> Instance" where
    "f sched = (\<lambda>i. i\<lparr>IAttempts := IAttempts i + 1, IStatus := StatusWaiting,
       IScheduledAt := (case sched of None \<Rightarrow> IScheduledAt i | t \<Rightarrow> t), IExitCode := None, IFinishedAt := None\<rparr>)" for sched
  have u: "sound (upd_inst k (f sched) w)" for sched
    by (rule sound_settle [OF s]) (use i in \<open>auto simp: f_def attempts_ok_def\<close>)
  have id: "f None = (\<lambda>i. i\<lparr>IAttempts := IAttempts i + 1, IStatus := StatusWaiting, IExitCode := None, IFinishedAt := None\<rparr>)"
    by (simp add: f_def fun_eq_iff)
  have sm: "f (Some t) = (\<lambda>i. i\<lparr>IAttempts := IAttempts i + 1, IStatus := StatusWaiting, IScheduledAt := Some t,
      IExitCode := None, IFinishedAt := None\<rparr>)" for t
    by (simp add: f_def fun_eq_iff)
  have "\<exists>sched. Insts w' = Insts (upd_inst k (f sched) w) \<and> RunRows w' = RunRows (upd_inst k (f sched) w)"
  proof (cases "RetryDelayMin d > 0")
    case True
    then have "w' = emitEvent now k ''retry'' ''scheduler'' (upd_inst k (f (Some (now + RetryDelayMin d * minute))) w)"
      using r i unfolding sm by (auto simp: maybeRetry_def split: if_splits)
    then show ?thesis by (auto simp: emitEvent_frame)
  next
    case False
    then have "Insts w' = Insts (upd_inst k (f None) w) \<and> RunRows w' = RunRows (upd_inst k (f None) w)"
      using r i unfolding id by (auto simp: maybeRetry_def Let_def emitEvent_frame split: if_splits)
    then show ?thesis by blast
  qed
  then show ?thesis using u sound_frame by blast
qed

lemma sound_maybeCycle: "sound w \<Longrightarrow> sound (maybeCycle e now k w)"
proof -
  assume s: "sound w"
  have "sound (upd_inst k (\<lambda>i. i\<lparr>IStatus := StatusWaiting, IScheduledAt := t, ICycleRuns := ICycleRuns i0 + 1,
      IAttempts := 1, IExitCode := None, IFinishedAt := None\<rparr>) w)"
    if "inst_of w k = Some i0" "IStatus i0 = StatusOK" "ISnapshot i0 = Frozen d"
      "\<not> (CyclicMaxRuns (ScheduleOf d) > 0 \<and> ICycleRuns i0 + 1 \<ge> CyclicMaxRuns (ScheduleOf d))" for t i0 d
    by (rule sound_upd [OF s]) (use that in \<open>auto simp: attempts_ok_def\<close>)
  moreover have "ISnapshot i = Frozen d" if "instanceContext e w k = Some (d, x)" "inst_of w k = Some i" for i d x
    using that by (auto simp: instanceContext_def split: if_splits snapshot.splits)
  ultimately show ?thesis
    using s by (auto simp: maybeCycle_def Let_def sframe split: option.splits)
qed

lemma sound_finish_terminal:
  assumes s: "sound_but {k} w" and st: "st \<noteq> StatusRunning"
  shows "sound (finish_terminal e now k st code out w)"
proof -
  have "sound (upd_inst k (\<lambda>i. i\<lparr>IStatus := st, IExitCode := Some code, IOutput := out, IFinishedAt := Some now\<rparr>) w)"
    by (rule sound_settle [OF s]) (use st in auto)
  then show ?thesis
    by (auto simp: finish_terminal_def Let_def sframe intro!: sound_maybeCycle sound_terminal_rules)
qed

lemma sound_FinishInstance: "sound w \<Longrightarrow> st \<noteq> StatusRunning \<Longrightarrow> sound (FinishInstance e now k st code out w)"
proof -
  assume s: "sound w" and st: "st \<noteq> StatusRunning"
  define w1 where "w1 = recordRunEnd now k st code w"
  define w2 where "w2 = (if st = StatusNotOK then attempt_rules e now k w1 else w1)"
  have "sound_but {k} w1" unfolding w1_def using s by (rule sound_end)
  then have a: "sound_but {k} w2" unfolding w2_def by (simp add: sound_attempt_rules)
  have eq: "FinishInstance e now k st code out w = (if isInstanceTerminal w k then w
      else case (if st = StatusNotOK then maybeRetry e now k w2 else None) of
        Some w3 \<Rightarrow> w3 | None \<Rightarrow> finish_terminal e now k st code out w2)"
    unfolding FinishInstance_def Let_def w1_def w2_def by (rule refl)
  show ?thesis
    unfolding eq using s sound_finish_terminal [OF a st] sound_maybeRetry [OF a]
    by (auto split: option.splits)
qed

lemma sound_finishKilled: "sound w \<Longrightarrow> sound (finishKilled e now k w)"
proof -
  assume s: "sound w"
  define f :: "Instance \<Rightarrow> Instance" where "f = (\<lambda>i. i\<lparr>IStatus := StatusNotOK, IExitCode := Some (- 1),
     IOutput := ''(cancelled by operator)'', IFinishedAt := Some now\<rparr>)"
  have "sound (upd_inst k f (recordRunEnd now k StatusNotOK (- 1) w))"
    by (rule sound_settle [OF sound_end [OF s]]) (auto simp: f_def)
  moreover have "Insts (recordRunEnd now k StatusNotOK (- 1) (upd_inst k f w)) =
      Insts (upd_inst k f (recordRunEnd now k StatusNotOK (- 1) w))"
    "RunRows (recordRunEnd now k StatusNotOK (- 1) (upd_inst k f w)) =
      RunRows (upd_inst k f (recordRunEnd now k StatusNotOK (- 1) w))"
    by (simp_all add: recordRunEnd_def upd_inst_def)
  ultimately have "sound (recordRunEnd now k StatusNotOK (- 1) (upd_inst k f w))"
    using sound_frame by blast
  then show ?thesis
    using s by (auto simp: finishKilled_def Let_def f_def sframe intro!: sound_terminal_rules split: option.splits)
qed

lemma sound_cancelPending:
  assumes "sound w" "inst_of w k = Some i" "IStatus i \<noteq> StatusRunning"
  shows "sound (cancelPending now k w)"
proof -
  have "sound (upd_inst k (\<lambda>i. i\<lparr>IStatus := StatusCancelled, IHeldFrom := [], IFinishedAt := Some now\<rparr>) w)"
    by (rule sound_upd [OF assms(1)]) (use assms in auto)
  then show ?thesis by (simp add: cancelPending_def sframe)
qed

lemma sound_Cancel: "sound w \<Longrightarrow> Cancel e now k w = Inr (st, w') \<Longrightarrow> sound w'"
  by (auto simp: Cancel_def sound_finishKilled intro: sound_cancelPending split: option.splits if_splits)

lemma sound_revert_claim: "sound w \<Longrightarrow> sound (revert_claim now k d w)"
proof -
  assume s: "sound w"
  define f :: "Instance \<Rightarrow> Instance" where "f = (\<lambda>i. i\<lparr>IStatus := StatusWaiting, IStartedAt := None\<rparr>)"
  have "sound_but {k} (discardRunStart k w)"
    using s by (auto simp: sound_but_def open_count_discard run_end_frame is_running_def inst_of_def)
  then have "sound (upd_inst k f (discardRunStart k w))"
    by (rule sound_settle) (auto simp: f_def)
  moreover have "Insts (discardRunStart k (upd_inst k f w)) = Insts (upd_inst k f (discardRunStart k w))"
    "RunRows (discardRunStart k (upd_inst k f w)) = RunRows (upd_inst k f (discardRunStart k w))"
    by (simp_all add: discardRunStart_def upd_inst_def)
  ultimately have "sound (discardRunStart k (upd_inst k f w))" using sound_frame by blast
  then show ?thesis
    by (auto simp: revert_claim_def Let_def f_def sframe)
qed

lemma sound_run_dispatch: "sound w \<Longrightarrow> sound (run_dispatch e now k d out w)"
  by (auto simp: run_dispatch_def Let_def sframe intro!: sound_FinishInstance sound_revert_claim
      split: dispatch_outcome.splits)

lemma sound_claim:
  assumes s: "sound w" and c: "claim_instance now k w = (True, w1)"
  shows "sound (recordRunStart k w1)"
proof -
  define f :: "Instance \<Rightarrow> Instance" where "f = (\<lambda>i. i\<lparr>IStatus := StatusRunning, IStartedAt := Some now\<rparr>)"
  obtain i where i: "inst_of w k = Some i" "IStatus i = StatusWaiting" "w1 = upd_inst k f w"
    using c by (auto simp: claim_instance_def f_def split: option.splits if_splits)
  have idf: "\<And>i. IId (f i) = IId i" by (simp add: f_def)
  have k: "IId i = k" using inst_of_id [OF i(1)] by simp
  have z: "open_count w k = 0" using s i by (auto simp: sound_but_def is_running_def)
  have w1k: "inst_of w1 k = Some (f i)" using i k by (simp add: inst_of_upd [OF idf])
  then have rr: "RunRows (recordRunStart k w1) = RunRows w @
      [\<lparr>RunInst = k, RunDef = IDefID (f i), RunOdate = inst_odate (f i), RunAttempt = IAttempts (f i),
        RunStarted = now, RunFinished = None, RunStatus = StatusRunning, RunExit = None\<rparr>]"
    by (simp add: recordRunStart_def f_def i(3) upd_inst_frame)
  have ins: "Insts (recordRunStart k w1) = Insts w1"
    by (simp add: recordRunStart_def split: option.splits)
  have cnt: "open_count (recordRunStart k w1) j = open_count w j + (if j = k then 1 else 0)" for j
    by (simp add: open_count_def rr count_where_append count_where_Cons open_run_def)
       (simp add: count_where_def)
  have run: "is_running (recordRunStart k w1) j = (if j = k then True else is_running w j)" for j
  proof -
    have "is_running (recordRunStart k w1) j = is_running w1 j" by (simp add: is_running_def inst_of_def ins)
    then show ?thesis
      using i k inst_of_id [of w j] unfolding i(3) is_running_upd [OF idf]
      by (auto simp: is_running_def f_def split: option.splits)
  qed
  have "keys_distinct IId (Insts w1)" "\<forall>i\<in>set (Insts w1). attempts_ok i"
  proof -
    show "keys_distinct IId (Insts w1)"
      using s idf by (simp add: i(3) upd_inst_def keys_distinct_update_where sound_but_def)
    show "\<forall>i\<in>set (Insts w1). attempts_ok i"
      using s by (auto simp: i(3) upd_inst_def set_update_where sound_but_def f_def)
  qed
  then show ?thesis using s z by (auto simp: sound_but_def ins cnt run)
qed

lemma sound_startInstance: "sound w \<Longrightarrow> sound (startInstance e now k d w)"
proof -
  assume s: "sound w"
  obtain b w1 where c: "claim_instance now k w = (b, w1)" by fastforce
  show ?thesis
  proof (cases b)
    case False
    then have "w1 = w" using c by (auto simp: claim_instance_def split: option.splits if_splits)
    then show ?thesis using s c False by (simp add: startInstance_def)
  next
    case True
    define v where "v = recordRunStart k (clearWaitReason k (w1\<lparr>RunningGuard := k # RunningGuard w1\<rparr>))"
    have "Insts v = Insts (recordRunStart k w1)" "RunRows v = RunRows (recordRunStart k w1)"
      by (simp_all add: v_def recordRunStart_def clearWaitReason_def inst_of_def split: option.splits)
    moreover have "sound (recordRunStart k w1)" using sound_claim [OF s] c True by simp
    ultimately have "sound v" using sound_frame [of v "recordRunStart k w1" "{}"] by simp
    then show ?thesis using s c True by (simp add: startInstance_def Let_def v_def [symmetric] sframe)
  qed
qed

lemma sound_acquire: "acquire_for e k d w = (b, v) \<Longrightarrow> sound_but K w \<Longrightarrow> sound_but K v"
  using sound_frame_ops(8) [of K e k d w] by simp

lemma sound_tick_row: "sound w \<Longrightarrow> sound (tick_row e now idx r w)"
proof -
  assume s: "sound w"
  define go where "go d w1 = (case acquire_for e (RId r) d w1 of
      (False, w2) \<Rightarrow> w2 | (True, w2) \<Rightarrow> startInstance e now (RId r) d w2)" for d w1
  have go: "sound (go d w1)" if "sound w1" for d w1
    using that sound_acquire by (auto simp: go_def sound_startInstance split: prod.splits bool.splits)
  show ?thesis
    using s go
    by (auto simp: tick_row_def Let_def go_def [symmetric] sframe sound_FinishInstance sound_startInstance
        split: option.splits list.splits)
qed

lemma sound_fold: "(\<And>x w. sound w \<Longrightarrow> sound (f x w)) \<Longrightarrow> sound w \<Longrightarrow> sound (fold f xs w)"
  by (induction xs arbitrary: w) auto

lemma sound_tickOnce: "sound w \<Longrightarrow> sound (tickOnce e now w)"
  by (auto simp: tickOnce_def Let_def scan_runtime_def intro!: sound_fold sound_tick_row sound_run_rules
      split: snapshot.splits option.splits)

section \<open>Interleavings\<close>

definition forget :: "spawned \<Rightarrow> World \<Rightarrow> World" where
  "forget x w = w\<lparr>Spawned := remove1 x (Spawned w)\<rparr>"

inductive step :: "World \<Rightarrow> World \<Rightarrow> bool" where
  Tick: "step w (tickOnce e now w)"
| Start: "StartLater k d \<in> set (Spawned w) \<Longrightarrow>
    step w (startInstance e now k d (forget (StartLater k d) w))"
| Dispatch: "DispatchOf k d \<in> set (Spawned w) \<Longrightarrow>
    step w (run_dispatch e now k d out (forget (DispatchOf k d) w))"
| Result: "st \<in> {StatusOK, StatusNotOK} \<Longrightarrow> step w (FinishInstance e now k st code output w)"
| Set_OK: "SetOK e now k w = Inr w' \<Longrightarrow> step w w'"
| Kill: "Cancel e now k w = Inr (st, w') \<Longrightarrow> step w w'"
| Force: "ForceOrder e now j w = Inr (k, w') \<Longrightarrow> step w w'"

inductive_cases stepE: "step w w'"

lemma sound_step: "step w w' \<Longrightarrow> sound w \<Longrightarrow> sound w'"
  by (induction rule: step.induct)
    (auto simp: forget_def sframe sound_startInstance sound_run_dispatch sound_tickOnce sound_FinishInstance
      intro: sound_SetOK sound_Cancel sound_ForceOrder)

lemma sound_steps: "step\<^sup>*\<^sup>* w w' \<Longrightarrow> sound w \<Longrightarrow> sound w'"
  by (induction rule: rtranclp_induct) (auto intro: sound_step)

end
