(* ===== verification/SchedulerCorrect.thy ===== *)
theory SchedulerCorrect
  imports SchedulerInv ResourcesCorrect
begin

text \<open>
  What the engine guarantees: executions and attempts agree with the instances whatever the
  interleaving; the tick starts what the explanation calls runnable; the effect of results, failures
  and cancellations; and the behaviours that modelling showed to be wrong.
\<close>

section \<open>Claims\<close>

interpretation start_claims: claim_ledger claim_instance
    "\<lambda>w k. case inst_of w k of Some i \<Rightarrow> IStatus i \<noteq> StatusWaiting | None \<Rightarrow> False"
proof unfold_locales
  define f :: "int \<Rightarrow> Instance \<Rightarrow> Instance" where "f now = (\<lambda>i. i\<lparr>IStatus := StatusRunning, IStartedAt := Some now\<rparr>)" for now
  have idf: "\<And>now i. IId (f now i) = IId i" by (simp add: f_def)
  fix now :: int and k j w w'
  show "claim_instance now k w = (True, w') \<Longrightarrow>
      \<not> (case inst_of w k of Some i \<Rightarrow> IStatus i \<noteq> StatusWaiting | None \<Rightarrow> False) \<and>
      (case inst_of w' k of Some i \<Rightarrow> IStatus i \<noteq> StatusWaiting | None \<Rightarrow> False)"
    using inst_of_id [of w k]
    by (auto simp: claim_instance_def f_def [symmetric] inst_of_upd [OF idf] split: option.splits if_splits)
       (simp add: f_def)
  show "(case inst_of w k of Some i \<Rightarrow> IStatus i \<noteq> StatusWaiting | None \<Rightarrow> False) \<Longrightarrow>
      (case inst_of (snd (claim_instance now j w)) k of Some i \<Rightarrow> IStatus i \<noteq> StatusWaiting | None \<Rightarrow> False)"
    by (auto simp: claim_instance_def f_def [symmetric] inst_of_upd [OF idf] split: option.splits if_splits)
       (auto simp: f_def)
qed

section \<open>A start\<close>

lemma integrity_frame:
  "Ledger w' = Ledger w \<Longrightarrow> Dailies w' = Dailies w \<Longrightarrow> row_of_inst w' i = row_of_inst w i"
  by (simp add: row_of_inst_def ledger_sum_def daily_state_def split: option.split)

lemma started_running:
  assumes i: "inst_of w k = Some i" "IStatus i = StatusWaiting"
  shows "is_running (startInstance e now k d w) k \<longleftrightarrow>
    \<not> order_blocked e w k \<and> \<not> ExecutionError (Profile e) d \<and> k \<notin> set (RunningGuard w)"
proof -
  define f :: "Instance \<Rightarrow> Instance" where "f = (\<lambda>i. i\<lparr>IStatus := StatusRunning, IStartedAt := Some now\<rparr>)"
  have idf: "\<And>i. IId (f i) = IId i" by (simp add: f_def)
  have k: "IId i = k" using inst_of_id [OF i(1)] by simp
  have cl: "claim_instance now k w = (True, upd_inst k f w)" using i by (simp add: claim_instance_def f_def)
  have nr: "\<not> is_running w k" using i by (simp add: is_running_def)
  define v where "v = recordRunStart k (clearWaitReason k ((upd_inst k f w)\<lparr>RunningGuard := k # RunningGuard (upd_inst k f w)\<rparr>))"
  have "Insts v = Insts (upd_inst k f w)"
    by (simp add: v_def recordRunStart_def marks_frame split: option.splits)
  then have rn: "is_running v k"
    using i k by (simp add: is_running_def inst_of_def)
      (use inst_of_upd [OF idf, of k w k] in \<open>simp add: inst_of_def f_def\<close>)
  then have "is_running ((emitEvent now k x a v)\<lparr>Spawned := sp\<rparr>) k" for x a sp
    by (simp add: is_running_def inst_of_def emitEvent_frame)
  then show ?thesis using nr by (simp add: startInstance_def cl Let_def v_def [symmetric])
qed

lemma acquire_tracker: "acquire_for e k d w = (b, w') \<Longrightarrow> \<exists>t. w' = w\<lparr>Tracker := t\<rparr>"
  by (auto simp: acquire_for_def Let_def split: if_splits prod.splits) (metis World.surjective World.update_convs(9))

section \<open>The tick and the explanation\<close>

lemma gate_index:
  assumes "\<And>n s. hasIdx p n s idx = Has p n s"
  shows "gateInstance e r d p t prevOf idx now sc = gateInstance e r d p t prevOf None now sc"
proof -
  have h: "hasIdx p n s idx = hasIdx p n s None" for n s using assms by (simp add: hasIdx_def)
  have "MissingIdx p ns o' prevOf idx = MissingIdx p ns o' prevOf None" for ns o'
    by (simp add: MissingIdx_def h)
  moreover have "member_sat e r d p prevOf idx now = member_sat e r d p prevOf None now"
    by (rule ext) (simp add: member_sat_def h)
  ultimately show ?thesis by (simp add: gateInstance_def all_gates_def condition_gate_def)
qed

lemma gate_short: "gateInstance e r d p t prevOf idx now True = [] \<longleftrightarrow> gateInstance e r d p t prevOf idx now False = []"
  by (simp add: gateInstance_def)

lemma observe_frame [world]:
  "Tracker (observeEligible now k w) = Tracker w" "PoolOf (observeEligible now k w) = PoolOf w"
  "RunningGuard (observeEligible now k w) = RunningGuard w" "Ledger (observeEligible now k w) = Ledger w"
  "Dailies (observeEligible now k w) = Dailies w" "Spawned (observeEligible now k w) = Spawned w"
  by (simp_all add: observeEligible_def)

lemma running_frame: "Insts w' = Insts w \<Longrightarrow> is_running w' k = is_running w k"
  by (simp add: is_running_def inst_of_def)

lemma inst_frame: "Insts w' = Insts w \<Longrightarrow> inst_of w' k = inst_of w k"
  by (simp add: inst_of_def)

lemma blocked_frame:
  "Insts w' = Insts w \<Longrightarrow> Ledger w' = Ledger w \<Longrightarrow> Dailies w' = Dailies w \<Longrightarrow> order_blocked e w' k = order_blocked e w k"
  using inst_frame [of w' w k] integrity_frame [of w' w] by (simp add: order_blocked_def split: option.split)

text \<open>A start over a world that differs from \<open>w\<close> in events and quotas only.\<close>

lemma started_over:
  assumes "inst_of w k = Some i" "IStatus i = StatusWaiting"
    and "Insts v = Insts w" "Ledger v = Ledger w" "Dailies v = Dailies w" "RunningGuard v = RunningGuard w"
  shows "is_running (startInstance e now k d v) k \<longleftrightarrow>
    integrityBlock e (row_of_inst w i) = None \<and> \<not> ExecutionError (Profile e) d \<and> k \<notin> set (RunningGuard w)"
  using started_running [of v k i e now d] assms inst_frame [of v w k] blocked_frame [of v w e k]
  by (auto simp: order_blocked_def)

lemma tick_attempt:
  assumes i: "inst_of w k = Some i" "IStatus i = StatusWaiting"
  shows "is_running (case acquire_for e k d (if b then observeEligible now k w else w) of
      (False, w2) \<Rightarrow> w2 | (True, w2) \<Rightarrow> startInstance e now k d w2) k \<longleftrightarrow>
    fst (acquire_for e k d w) \<and> integrityBlock e (row_of_inst w i) = None \<and>
    \<not> ExecutionError (Profile e) d \<and> k \<notin> set (RunningGuard w)"
proof -
  define v where "v = (if b then observeEligible now k w else w)"
  obtain g w2 where a: "acquire_for e k d v = (g, w2)" by fastforce
  then obtain t where t: "w2 = v\<lparr>Tracker := t\<rparr>" using acquire_tracker by blast
  have fr: "Insts v = Insts w" "Ledger v = Ledger w" "Dailies v = Dailies w" "RunningGuard v = RunningGuard w"
    "Tracker v = Tracker w"
    by (simp_all add: v_def marks_frame observe_frame)
  have g: "fst (acquire_for e k d w) = g" using a fr(5) by (auto simp: acquire_for_def Let_def split: if_splits prod.splits)
  have nr: "\<not> is_running w2 k" using i fr by (simp add: t is_running_def inst_of_def)
  have "is_running (startInstance e now k d w2) k \<longleftrightarrow>
    integrityBlock e (row_of_inst w i) = None \<and> \<not> ExecutionError (Profile e) d \<and> k \<notin> set (RunningGuard w)"
    by (rule started_over [OF i]) (simp_all add: t fr)
  then show ?thesis using nr unfolding v_def [symmetric] a g by (cases g) auto
qed

lemma row_of_inst_fields [simp]:
  "RId (row_of_inst w i) = IId i" "RStatus (row_of_inst w i) = IStatus i"
  "RScheduledAt (row_of_inst w i) = IScheduledAt i" "RConfirmed (row_of_inst w i) = IConfirmed i"
  by (simp_all add: row_of_inst_def)

lemma tick_start_iff:
  assumes i: "inst_of w k = Some i" "IStatus i = StatusWaiting"
    and idx: "\<And>n s. hasIdx (PoolOf w) n s idx = Has (PoolOf w) n s"
  shows "is_running (tick_row e now idx (row_of_inst w i) w) k \<longleftrightarrow>
    (\<exists>d x. defForInstance e (row_of_inst w i) (live_map w) = Some d \<and> Explain e now k w = Some x \<and>
       ExRunnable x \<and> \<not> before_opt now (IScheduledAt i) \<and> k \<notin> set (RunningGuard w) \<and>
       (if total_bypass (row_of_inst w i) then agentAvailable e d else fst (acquire_for e k d w)))"
proof -
  define r where "r = row_of_inst w i"
  have k: "IId i = k" using inst_of_id [OF i(1)] by simp
  have nr: "\<not> is_running w k" using i by (simp add: is_running_def)
  have marks: "is_running (maybeEmitWait now k b w') k = is_running w' k"
    "is_running (maybeEmitNoAgent now k w') k = is_running w' k"
    "is_running (observeEligible now k w') k = is_running w' k" for b w'
    by (rule running_frame, simp add: marks_frame)+
  have ex: "Explain e now k w = Some (explain_row e r (live_map w) (PoolOf w) (Tracker w) (prev_of w) now)"
    using i by (simp add: Explain_def r_def)
  have st: "\<not> stuck now r" using i by (simp add: stuck_def r_def)
  have f: "RStatus r = StatusWaiting" "RId r = k" "RScheduledAt r = IScheduledAt i" "RConfirmed r = IConfirmed i"
    using i k by (simp_all add: r_def)
  show ?thesis
  proof (cases "before_opt now (IScheduledAt i) \<or> integrityBlock e r \<noteq> None")
    case True
    then show ?thesis
      using nr ex st f by (auto simp: tick_row_def Let_def r_def [symmetric] marks explain_row_def)
  next
    case ok: False
    show ?thesis
    proof (cases "defForInstance e r (live_map w)")
      case None
      then show ?thesis using nr ok st f by (simp add: tick_row_def Let_def r_def [symmetric])
    next
      case (Some d)
      define bs where "bs = gateInstance e r d (PoolOf w) (Tracker w) (prev_of w) None now False"
      have gi: "gateInstance e r d (PoolOf w) (Tracker w) (prev_of w) idx now True =
          gateInstance e r d (PoolOf w) (Tracker w) (prev_of w) None now True"
        by (rule gate_index [OF idx])
      show ?thesis
      proof (cases "ExecutionError (Profile e) d")
        case True
        then show ?thesis using nr ok st f Some ex
          by (simp add: tick_row_def Let_def r_def [symmetric] explain_row_def)
      next
        case xe: False
        have d: "(\<exists>d'. defForInstance e r (live_map w) = Some d' \<and> P d') \<longleftrightarrow> P d" for P
          using Some by simp
        show ?thesis
        proof (cases "total_bypass r")
          case True
          have "is_running (startInstance e now k d (observeEligible now k w)) k \<longleftrightarrow> k \<notin> set (RunningGuard w)"
            using started_over [OF i, of "observeEligible now k w" e now d] ok xe
            by (simp add: r_def marks_frame observe_frame)
          then show ?thesis
            using nr ok st f Some ex xe True
            by (simp add: tick_row_def Let_def r_def [symmetric] explain_row_def marks)
        next
          case False
          have t: "tick_row e now idx r w = (case gateInstance e r d (PoolOf w) (Tracker w) (prev_of w) idx now True of
              b # _ \<Rightarrow> maybeEmitWait now k b (if observes (b # []) then observeEligible now k w else w)
            | [] \<Rightarrow> (case acquire_for e k d (if True then observeEligible now k w else w) of
                (False, w2) \<Rightarrow> w2 | (True, w2) \<Rightarrow> startInstance e now k d w2))"
            using ok st f Some xe False
            by (simp add: tick_row_def Let_def observes_def split: list.split)
          have "is_running (tick_row e now idx r w) k \<longleftrightarrow> bs = [] \<and> fst (acquire_for e k d w) \<and> k \<notin> set (RunningGuard w)"
          proof (cases "bs = []")
            case True
            then have "gateInstance e r d (PoolOf w) (Tracker w) (prev_of w) idx now True = []"
              unfolding gi bs_def gate_short by simp
            then show ?thesis
              unfolding t using tick_attempt [OF i, of e now d True] True ok xe by (simp add: r_def)
          next
            case bs: False
            then obtain b bs' where "gateInstance e r d (PoolOf w) (Tracker w) (prev_of w) idx now True = b # bs'"
              unfolding gi bs_def by (metis gate_short neq_Nil_conv)
            then show ?thesis unfolding t using bs nr by (simp add: marks)
          qed
          moreover have "ExRunnable (explain_row e r (live_map w) (PoolOf w) (Tracker w) (prev_of w) now) \<longleftrightarrow> bs = []"
            using f ok Some xe False by (simp add: explain_row_def bs_def Let_def)
          ultimately show ?thesis
            unfolding r_def [symmetric] using ok Some ex False by auto
        qed
      qed
    qed
  qed
qed

lemma integrity_same:
  assumes "RSnapshot r = RSnapshot r'" "RChecksum r = RChecksum r'" "RDefID r = RDefID r'" "RDailyState r = RDailyState r'"
  shows "integrityBlock e r = integrityBlock e r'"
  unfolding integrityBlock_def snapshotError_def assms ..

text \<open>Ending without rules.\<close>

lemma terminal_rules_none:
  assumes "inst_of w k = Some i" "ISnapshot i = Frozen d" "Actions d = []"
  shows "terminal_rules e now k st code w = w" "attempt_rules e now k w = w"
  using assms by (auto simp: terminal_rules_def attempt_rules_def instanceContext_def split: option.split if_splits)

lemma maybeCycle_none:
  assumes "inst_of w k = Some i" "ISnapshot i = Frozen d" "\<not> Cyclic (ScheduleOf d)"
  shows "maybeCycle e now k w = w"
  using assms by (auto simp: maybeCycle_def instanceContext_def Let_def split: option.split if_splits)

lemma expand_fields:
  "ID (ExpandSnapshotConditions d live) = ID d" "ResourcesOf (ExpandSnapshotConditions d live) = ResourcesOf d"
proof -
  have "ID (foldl (snapshot_edge live) d us) = ID d \<and> ResourcesOf (foldl (snapshot_edge live) d us) = ResourcesOf d" for us
    by (induction us arbitrary: d) (auto simp: snapshot_edge_def arm_consumer_def Let_def split: option.split)
  then show "ID (ExpandSnapshotConditions d live) = ID d" "ResourcesOf (ExpandSnapshotConditions d live) = ResourcesOf d"
    by (simp_all add: ExpandSnapshotConditions_def)
qed

lemma frozen_def:
  assumes "integrityBlock e (row_of_inst w i) = None" "ISnapshot i = Frozen d"
  shows "defForInstance e (row_of_inst w i) live = Some (ExpandSnapshotConditions d live) \<and> ID d \<noteq> []"
proof -
  have r: "RSnapshot (row_of_inst w i) = Frozen d" using assms(2) by (simp add: row_of_inst_def)
  have n: "snapshotError e (row_of_inst w i) = None"
    using assms(1) by (simp add: integrityBlock_def split: option.splits)
  then have "ID d \<noteq> []" using r by (auto simp: snapshotError_def split: if_splits)
  then show ?thesis using n r by (simp add: defForInstance_def)
qed

lemma conditions_out:
  assumes "inst_of w k = Some i" "ISnapshot i = Frozen d" "integrityBlock e (row_of_inst w i) = None"
  shows "applyConditionsOut e now k actor w = w\<lparr>PoolOf := ApplyOutcomes (\<lambda>_ _. True) now
    (ExpandSnapshotConditions d (live_map w)) (inst_odate i) actor (prev_of w) (PoolOf w)\<rparr>"
  using assms frozen_def [of e w i d "live_map w"] by (simp add: applyConditionsOut_def expand_fields)

lemma retry_world:
  assumes i: "inst_of w k = Some i" "ISnapshot i = Frozen d" "integrityBlock e (row_of_inst w i) = None"
    and r: "Retries d > 0" "IAttempts i < Retries d + 1"
  shows "\<exists>w'. maybeRetry e now k w = Some w' \<and> PoolOf w' = PoolOf w \<and> Tracker w' = Tracker w \<and>
    LiveDefs w' = LiveDefs w \<and> Ledger w' = Ledger w \<and> Dailies w' = Dailies w \<and>
    inst_of w' k = Some (i\<lparr>IAttempts := IAttempts i + 1, IStatus := StatusWaiting,
      IScheduledAt := (if RetryDelayMin d > 0 then Some (now + RetryDelayMin d * minute) else IScheduledAt i),
      IExitCode := None, IFinishedAt := None\<rparr>)"
proof -
  have k: "IId i = k" using inst_of_id [OF i(1)] by simp
  have b: "\<not> order_blocked e w k" using i by (simp add: order_blocked_def)
  define f :: "Instance \<Rightarrow> Instance" where "f = (\<lambda>i. i\<lparr>IAttempts := IAttempts i + 1, IStatus := StatusWaiting,
      IScheduledAt := Some (now + RetryDelayMin d * minute), IExitCode := None, IFinishedAt := None\<rparr>)"
  define g :: "Instance \<Rightarrow> Instance" where "g = (\<lambda>i. i\<lparr>IAttempts := IAttempts i + 1, IStatus := StatusWaiting,
      IExitCode := None, IFinishedAt := None\<rparr>)"
  have fg: "\<And>i. IId (f i) = IId i" "\<And>i. IId (g i) = IId i" by (simp_all add: f_def g_def)
  have fr: "inst_of ((emitEvent now k x a v)\<lparr>Spawned := sp\<rparr>) k = inst_of v k"
    "inst_of (emitEvent now k x a v) k = inst_of v k" "LiveDefs (emitEvent now k x a v) = LiveDefs v" for x a v sp
    by (simp_all add: inst_of_def emitEvent_frame)
  have at: "g i = i\<lparr>IAttempts := IAttempts i + 1, IStatus := StatusWaiting, IScheduledAt := IScheduledAt i,
      IExitCode := None, IFinishedAt := None\<rparr>"
    by (simp add: g_def)
  show ?thesis
  proof (cases "RetryDelayMin d > 0")
    case True
    then have "maybeRetry e now k w = Some (emitEvent now k ''retry'' ''scheduler'' (upd_inst k f w))"
      using b i r by (simp add: maybeRetry_def f_def)
    then show ?thesis using True i k by (simp add: emitEvent_frame upd_inst_frame fr inst_of_upd [OF fg(1)]) (simp add: f_def)
  next
    case False
    define v where "v = emitEvent now k ''retry'' ''scheduler'' (upd_inst k g w)"
    have "maybeRetry e now k w = Some (v\<lparr>Spawned := Spawned v @ [StartLater k d]\<rparr>)"
      using False b i r by (simp add: maybeRetry_def Let_def g_def v_def)
    then show ?thesis using False i k
      by (simp add: v_def emitEvent_frame upd_inst_frame fr inst_of_upd [OF fg(2)]) (simp add: at)
  qed
qed

lemma retry_none:
  assumes "inst_of w k = Some i" "ISnapshot i = Frozen d" "\<not> (Retries d > 0 \<and> IAttempts i < Retries d + 1)"
  shows "maybeRetry e now k w = None"
  using assms by (auto simp: maybeRetry_def)

text \<open>A NOTOK result of an order without rules, on both branches.\<close>

lemma notok_effect:
  assumes "inst_of w k = Some i" and "\<not> terminal_status (IStatus i)"
    and "ISnapshot i = Frozen d" and "Actions d = []" and "integrityBlock e (row_of_inst w i) = None"
  shows "let w' = FinishInstance e now k StatusNotOK code out w in PoolOf w' = PoolOf w \<and>
    (if Retries d > 0 \<and> IAttempts i < Retries d + 1
     then (\<exists>i'. inst_of w' k = Some i' \<and> IStatus i' = StatusWaiting \<and> IAttempts i' = IAttempts i + 1 \<and>
             IScheduledAt i' = (if RetryDelayMin d > 0 then Some (now + RetryDelayMin d * minute) else IScheduledAt i)) \<and>
          Tracker w' = Tracker w
     else inst_of w' k = Some (i\<lparr>IStatus := StatusNotOK, IExitCode := Some code, IOutput := out, IFinishedAt := Some now\<rparr>) \<and>
          Tracker w' = Release k (Tracker w))"
proof -
  define w1 where "w1 = recordRunEnd now k StatusNotOK code w"
  have w1: "inst_of w1 k = Some i" "row_of_inst w1 i = row_of_inst w i"
    using assms(1) by (simp_all add: w1_def inst_of_def run_end_frame integrity_frame [of "recordRunEnd now k StatusNotOK code w" w])
  have fin: "FinishInstance e now k StatusNotOK code out w =
      (case maybeRetry e now k w1 of Some w3 \<Rightarrow> w3 | None \<Rightarrow> finish_terminal e now k StatusNotOK code out w1)"
    using assms(1,2) terminal_rules_none(2) [OF w1(1) assms(3,4), of e now]
    by (simp add: FinishInstance_def isInstanceTerminal_def Let_def w1_def [symmetric] split: option.split)
  show ?thesis
  proof (cases "Retries d > 0 \<and> IAttempts i < Retries d + 1")
    case True
    from retry_world [OF w1(1) assms(3), of e now] assms(5) True w1(2)
    obtain w' where w': "maybeRetry e now k w1 = Some w'" "PoolOf w' = PoolOf w1" "Tracker w' = Tracker w1"
      "inst_of w' k = Some (i\<lparr>IAttempts := IAttempts i + 1, IStatus := StatusWaiting,
        IScheduledAt := (if RetryDelayMin d > 0 then Some (now + RetryDelayMin d * minute) else IScheduledAt i),
        IExitCode := None, IFinishedAt := None\<rparr>)"
      by auto
    then show ?thesis using True unfolding fin by (simp add: w1_def run_end_frame)
  next
    case False
    define f :: "Instance \<Rightarrow> Instance" where "f = (\<lambda>i. i\<lparr>IStatus := StatusNotOK, IExitCode := Some code, IOutput := out, IFinishedAt := Some now\<rparr>)"
    have idf: "\<And>i. IId (f i) = IId i" by (simp add: f_def)
    define w2 where "w2 = emitEvent now k ''finished'' ''agent'' (release_of k (upd_inst k f w1))"
    have k: "IId i = k" using inst_of_id [OF assms(1)] by simp
    have i2: "inst_of w2 k = Some (f i)"
      using w1(1) k inst_of_upd [OF idf, of k w1 k] by (simp add: w2_def inst_of_def emitEvent_frame release_frame)
    have "finish_terminal e now k StatusNotOK code out w1 = w2"
      using terminal_rules_none(1) [OF i2, of d e now StatusNotOK code] assms(3,4)
      by (simp add: finish_terminal_def Let_def f_def w2_def)
    then show ?thesis using False retry_none [OF w1(1) assms(3)] i2 unfolding fin
      by (simp add: f_def) (simp add: w2_def emitEvent_frame release_of_def upd_inst_frame w1_def run_end_frame)
  qed
qed

section \<open>What rules cannot undo\<close>

lemma held_by_other: "i \<noteq> j \<Longrightarrow> held_by (snd (TryAcquire p i want t)) j = held_by t j"
proof -
  assume ij: "i \<noteq> j"
  have tk: "held_by (fold (take_one i) ws t') j = held_by t' j" for ws t'
    using ij by (induction ws arbitrary: t') (auto simp: take_one_def held_by_def Let_def)
  obtain ok t1 where t1: "register p want t = (ok, t1)" by fastforce
  have "held_by t1 j = held_by t j" using register_frame [OF t1] frame_held_by [of t1 t] by simp
  moreover have "held_by (open_holder i t1) j = held_by t1 j"
    using ij by (auto simp: open_holder_def held_by_def split: option.split)
  ultimately show ?thesis using t1 tk by (auto simp: TryAcquire_def split: bool.split)
qed

lemma held_by_released: "held_by (Release i t) i = []"
  by (simp add: Release_def Let_def held_by_eq)

definition gone :: "World \<Rightarrow> string \<Rightarrow> bool" where
  "gone w k \<longleftrightarrow> isInstanceTerminal w k \<and> held_by (Tracker w) k = []"

lemma gone_frame:
  "Insts w' = Insts w \<Longrightarrow> Tracker w' = Tracker w \<Longrightarrow> gone w' k = gone w k"
  by (simp add: gone_def isInstanceTerminal_def inst_of_def)

lemma gone_pool: "gone (w\<lparr>PoolOf := p\<rparr>) k = gone w k"
  by (rule gone_frame) simp_all

lemma gone_SetOK:
  assumes o: "SetOK e now j w = Inr w'" and g: "gone w k"
  shows "gone w' k"
proof -
  define f :: "Instance \<Rightarrow> Instance" where "f = (\<lambda>i. i\<lparr>IStatus := StatusOK, IExitCode := Some 0, IOutput := ''[set-ok]'' @ IOutput i,
     IFinishedAt := (case IFinishedAt i of None \<Rightarrow> Some now | t \<Rightarrow> t)\<rparr>)"
  have idf: "\<And>i. IId (f i) = IId i" by (simp add: f_def)
  have w': "w' = emitEvent now j ''set-ok'' ''operator'' (applyConditionsOut e now j ''set-ok'' (upd_inst j f w))"
    using o by (auto simp: SetOK_def f_def Let_def split: option.splits if_splits)
  have "gone (upd_inst j f w) k"
    using g by (auto simp: gone_def isInstanceTerminal_def inst_of_upd [OF idf] upd_inst_frame split: option.splits)
      (simp_all add: f_def terminal_status_def)
  then show ?thesis
    unfolding w' by (simp add: gone_frame [OF emitEvent_frame(1,3)] gone_frame [OF conditions_frame(1,3)])
qed

lemma ForceOrder_quota:
  assumes o: "ForceOrder e now j w = Inr (m, w')" and mk: "m \<noteq> k"
  shows "held_by (Tracker w') k = held_by (Tracker w) k"
proof -
  have ac: "held_by (Tracker (snd (acquire_for e m d v))) k = held_by (Tracker v) k" for d v
    using held_by_other [OF mk, of "PersistOk e" "ResourcesOf d" "Tracker v"]
    by (auto simp: acquire_for_def Let_def split: prod.splits)
  from o obtain d v where "Tracker v = Tracker w" "w' = emitEvent now m ''submitted'' ''operator'' v \<or>
      w' = snd (acquire_for e m d v) \<or> (\<exists>sp. w' = (snd (acquire_for e m d v))\<lparr>Spawned := sp\<rparr>)"
    using ForceOrder_end [OF o] by blast
  then show ?thesis using ac [of d v] by (auto simp: emitEvent_frame)
qed

lemma gone_perform:
  assumes g: "gone w k"
  shows "gone (perform e now j fx w) k"
proof (cases fx)
  case (RunJob d)
  show ?thesis
  proof (cases "ForceOrder e now d w")
    case (Inl x)
    then show ?thesis using g RunJob by (simp add: perform_def gone_frame [OF emitEvent_frame(1,3)])
  next
    case (Inr y)
    then obtain m w' where y: "ForceOrder e now d w = Inr (m, w')" by (cases y) auto
    from ForceOrder_shape [OF y] obtain d' t where n: "inst_of w m = None"
      and ins: "Insts w' = Insts w @ [forced_instance m d' t now]" by blast
    have mk: "m \<noteq> k" using g n by (auto simp: gone_def isInstanceTerminal_def)
    have "isInstanceTerminal w' k = isInstanceTerminal w k"
      using mk by (simp add: isInstanceTerminal_def inst_of_def ins row_of_append row_of_Cons forced_instance_def
          split: option.split)
    moreover have "held_by (Tracker w') k = held_by (Tracker w) k" by (rule ForceOrder_quota [OF y mk])
    ultimately have "gone w' k" using g by (simp add: gone_def)
    then show ?thesis using y RunJob by (simp add: perform_def gone_frame [OF emitEvent_frame(1,3)])
  qed
next
  case SetOKFx
  show ?thesis
  proof (cases "SetOK e now j w")
    case (Inl x)
    then show ?thesis using g SetOKFx by (simp add: perform_def)
  next
    case (Inr w')
    have "gone w' k" by (rule gone_SetOK [OF Inr g])
    then show ?thesis using Inr SetOKFx by (simp add: perform_def gone_frame [OF emitEvent_frame(1,3)])
  qed
qed (use g in \<open>simp_all add: perform_def gone_frame [OF emitEvent_frame(1,3)] gone_pool\<close>)

lemma gone_run_rules: "gone w k \<Longrightarrow> gone (run_rules e now j d ev w) k"
proof -
  assume g: "gone w k"
  obtain fired fs where a: "applyActions (\<lambda>_. True) j d ev (FiresOf w) = (fired, fs)" by fastforce
  define f where "f = (\<lambda>(i :: nat, rule) w'. perform e now j
      (execAction (case inst_of w j of Some i \<Rightarrow> inst_odate i | None \<Rightarrow> []) (prev_of w') d rule) w')"
  have "gone (fold f fired v) k" if "gone v k" for v
    using that by (induction fired arbitrary: v) (auto simp: f_def gone_perform)
  moreover have "gone (w\<lparr>FiresOf := fs\<rparr>) k" using g by (simp add: gone_def isInstanceTerminal_def inst_of_def)
  ultimately show ?thesis by (simp add: run_rules_def a f_def)
qed

lemma gone_terminal_rules: "gone w k \<Longrightarrow> gone (terminal_rules e now j st c w) k"
  by (auto simp: terminal_rules_def gone_run_rules split: option.split)

lemma hasIdx_None: "hasIdx p n s None = Has p n s"
  by (simp add: hasIdx_def)

lemma Explain_runnable:
  assumes "inst_of w k = Some i" "IStatus i = StatusWaiting" "Explain e now k w = Some x" "ExRunnable x"
    and "defForInstance e (row_of_inst w i) (live_map w) = Some d"
  shows "integrityBlock e (row_of_inst w i) = None \<and> (\<not> total_bypass (row_of_inst w i) \<longrightarrow>
    gateInstance e (row_of_inst w i) d (PoolOf w) (Tracker w) (prev_of w) None now False = [])"
proof -
  have r: "ExRunnable (explain_row e (row_of_inst w i) (live_map w) (PoolOf w) (Tracker w) (prev_of w) now)"
    using assms by (simp add: Explain_def)
  have "integrityBlock e (row_of_inst w i) = None"
  proof (rule ccontr)
    assume "integrityBlock e (row_of_inst w i) \<noteq> None"
    then show False using r assms(2) by (simp add: explain_row_def Let_def del: not_None_eq)
  qed
  then show ?thesis using r assms(2,5) by (auto simp: explain_row_def Let_def split: if_splits)
qed

lemma delayed_retry_world:
  assumes "inst_of w k = Some i" and "\<not> terminal_status (IStatus i)" and "\<not> IForced i"
    and "ISnapshot i = Frozen d" and "Actions d = []" and "integrityBlock e (row_of_inst w i) = None"
    and "Retries d > 0" and "IAttempts i < Retries d + 1" and "RetryDelayMin d > 0"
  shows "\<exists>w' i'. FinishInstance e now k StatusNotOK code out w = w' \<and> Tracker w' = Tracker w \<and>
    Ledger w' = Ledger w \<and> Dailies w' = Dailies w \<and> inst_of w' k = Some i' \<and>
    IStatus i' = StatusWaiting \<and> ISnapshot i' = Frozen d \<and> \<not> IForced i'"
proof -
  define w1 where "w1 = recordRunEnd now k StatusNotOK code w"
  have w1: "inst_of w1 k = Some i" "row_of_inst w1 i = row_of_inst w i"
    using assms(1)
    by (simp_all add: w1_def inst_of_def run_end_frame integrity_frame [of "recordRunEnd now k StatusNotOK code w" w])
  from retry_world [OF w1(1) assms(4), of e now] assms(6-8) w1(2)
  obtain w' where w': "maybeRetry e now k w1 = Some w'" "Tracker w' = Tracker w1" "Ledger w' = Ledger w1"
      "Dailies w' = Dailies w1" "inst_of w' k = Some (i\<lparr>IAttempts := IAttempts i + 1, IStatus := StatusWaiting,
        IScheduledAt := (if RetryDelayMin d > 0 then Some (now + RetryDelayMin d * minute) else IScheduledAt i),
        IExitCode := None, IFinishedAt := None\<rparr>)"
    by auto
  have "FinishInstance e now k StatusNotOK code out w = w'"
    using assms(1,2) terminal_rules_none(2) [OF w1(1) assms(4,5), of e now] w'(1)
    by (simp add: FinishInstance_def isInstanceTerminal_def Let_def w1_def)
  then show ?thesis using w' assms(3,4) by (simp add: w1_def run_end_frame)
qed

section \<open>Properties\<close>


definition demo_env :: env where
  "demo_env = \<lparr>Loc = (\<lambda>_. None), Digest = (\<lambda>_. []),
     Profile = \<lparr>Production = False, ControlPlane = [], ServerAgent = True\<rparr>, DemoMode = True,
     HasAgent = (\<lambda>_ _ _. False), PersistOk = (\<lambda>_. True)\<rparr>"

definition one_job :: "JobDefinition \<Rightarrow> InstanceStatus \<Rightarrow> World" where
  "one_job d st =
     \<lparr>Insts = [\<lparr>IId = ''x'', IDefID = ID d, ITeam = [], IOrderDate = ''2026-07-16'', IStatus = st,
        IScheduledAt = Some 10, IStartedAt = (if st = StatusWaiting then None else Some 10),
        IFinishedAt = None, ICarriedAt = None, IAttempts = 1,
        IExitCode = None, IOutput = [], IForced = False, IForceMode = [], IConfirmed = False,
        ICarriedFrom = [], ISnapshot = Frozen d, IHeldFrom = [], ICycleRuns = 0\<rparr>],
      RunRows = (if st = StatusRunning then [\<lparr>RunInst = ''x'', RunDef = ID d, RunOdate = ''2026-07-16'',
        RunAttempt = 1, RunStarted = 10, RunFinished = None, RunStatus = StatusRunning, RunExit = None\<rparr>] else []),
      Events = [], FiresOf = [], PoolOf = [], Ledger = [], Dailies = [], SettingRows = [],
      Tracker = NewResourceTracker, RunningGuard = [], WaitReason = (\<lambda>_. None), NoAgentAt = (\<lambda>_. None),
      LiveDefs = [], Spawned = []\<rparr>"

lemma one_job_row: "inst_of (one_job d st) ''x'' = Some (hd (Insts (one_job d st))) \<and> IStatus (hd (Insts (one_job d st))) = st"
  by (simp add: one_job_def inst_of_def row_of_Cons)

definition demo_world :: World where
  "demo_world = one_job (zero_def\<lparr>ID := ''A''\<rparr>) StatusWaiting"




definition retry_job :: JobDefinition where
  "retry_job = zero_def\<lparr>ID := ''A'', Retries := 1\<rparr>"

lemma one_job_sound: "CyclicMaxRuns (ScheduleOf d) \<le> 0 \<Longrightarrow> sound (one_job d st)"
  by (auto simp: sound_but_def one_job_def keys_distinct_def attempts_ok_def open_count_def count_where_def
      is_running_def inst_of_def row_of_Cons row_of_Nil open_run_def)


text \<open>
  An OK result of an order without rules or cycle closes its run, stores OK with the exit code
  and the output, gives back its quotas and applies its outputs once to the pool in the scope of its
  origin date; every later result for it is ignored.
\<close>

theorem ok_result_effect:
  assumes "sound w" and "inst_of w k = Some i" and "\<not> terminal_status (IStatus i)"
    and "ISnapshot i = Frozen d" and "Actions d = []" and "\<not> Cyclic (ScheduleOf d)"
    and "integrityBlock e (row_of_inst w i) = None"
  shows "let w' = FinishInstance e now k StatusOK code out w in
    inst_of w' k = Some (i\<lparr>IStatus := StatusOK, IExitCode := Some code, IOutput := out, IFinishedAt := Some now\<rparr>) \<and>
    count_where (open_run k) (RunRows w') = 0 \<and> Tracker w' = Release k (Tracker w) \<and>
    PoolOf w' = ApplyOutcomes (\<lambda>_ _. True) now (ExpandSnapshotConditions d (live_map w)) (inst_odate i)
      ''scheduler'' (prev_of w) (PoolOf w) \<and>
    FinishInstance e now' k st' code' out' w' = w'"
proof -
  define f :: "Instance \<Rightarrow> Instance" where "f = (\<lambda>i. i\<lparr>IStatus := StatusOK, IExitCode := Some code, IOutput := out, IFinishedAt := Some now\<rparr>)"
  have idf: "\<And>i. IId (f i) = IId i" by (simp add: f_def)
  have k: "IId i = k" using inst_of_id [OF assms(2)] by simp
  define w1 where "w1 = recordRunEnd now k StatusOK code w"
  define w2 where "w2 = release_of k (upd_inst k f w1)"
  define w3 where "w3 = applyConditionsOut e now k ''scheduler'' w2"
  define w' where "w' = emitEvent now k ''finished'' ''agent'' w3"
  have i2: "inst_of w2 k = Some (f i)"
    using assms(2) k inst_of_upd [OF idf, of k w1 k] by (simp add: w2_def inst_of_def release_frame w1_def run_end_frame)
  have t2: "Ledger w2 = Ledger w" "Dailies w2 = Dailies w" "PoolOf w2 = PoolOf w" "LiveDefs w2 = LiveDefs w"
    by (simp_all add: w2_def w1_def release_frame upd_inst_frame run_end_frame)
      (simp add: release_of_def upd_inst_def recordRunEnd_def)
  have fr: "row_of_inst w2 (f i) = row_of_inst w (f i)" "prev_of w2 = prev_of w" "live_map w2 = live_map w" "PoolOf w2 = PoolOf w"
    using integrity_frame [OF t2(1,2)] t2 by (simp_all add: prev_of_def live_map_def fun_eq_iff)
  have ib: "integrityBlock e (row_of_inst w (f i)) = None"
    using assms(7) integrity_same [of "row_of_inst w (f i)" "row_of_inst w i"] by (simp add: row_of_inst_def f_def)
  have w3: "w3 = w2\<lparr>PoolOf := ApplyOutcomes (\<lambda>_ _. True) now (ExpandSnapshotConditions d (live_map w)) (inst_odate i)
      ''scheduler'' (prev_of w) (PoolOf w)\<rparr>"
    unfolding w3_def using conditions_out [OF i2, of d e now "''scheduler''"] assms(4) ib fr
    by (simp add: f_def inst_odate_def)
  have i': "inst_of w' k = Some (f i)" using i2 by (simp add: w'_def w3 inst_of_def emitEvent_frame)
  have fin: "FinishInstance e now k StatusOK code out w = w'"
    using assms(2,3,4) terminal_rules_none(1) [OF i', of d e now StatusOK code] maybeCycle_none [OF i', of d e now] assms(5,6)
    by (simp add: FinishInstance_def finish_terminal_def Let_def isInstanceTerminal_def w1_def f_def w2_def w3_def w'_def)
  have "open_count w' k = 0"
    using sound_end [OF assms(1), of k now StatusOK code]
    by (simp add: sound_but_def open_count_def w'_def emitEvent_frame w3_def conditions_frame w2_def release_frame
        upd_inst_frame w1_def)
  moreover have "Tracker w' = Release k (Tracker w)"
    by (simp add: w'_def emitEvent_frame w3_def conditions_frame w2_def release_of_def upd_inst_frame w1_def run_end_frame)
  moreover have "FinishInstance e now' k st' code' out' w' = w'"
    using i' by (simp add: FinishInstance_def isInstanceTerminal_def f_def terminal_status_def)
  ultimately show ?thesis using i' unfolding fin Let_def
    by (simp add: open_count_def f_def) (simp add: w'_def emitEvent_frame w3)
qed

definition adding_job :: JobDefinition where
  "adding_job = zero_def\<lparr>ID := ''A'', ConditionsOutAdd := [''A-TO-B'']\<rparr>"

definition running_world :: World where
  "running_world = one_job adding_job StatusRunning"

theorem ok_result_effect_witness:
  "let w' = FinishInstance demo_env 30 ''x'' StatusOK 0 [] running_world in
   map_option IStatus (inst_of w' ''x'') = Some StatusOK \<and> Has (PoolOf w') ''A-TO-B'' ''2026-07-16'' \<and>
   FinishInstance demo_env 31 ''x'' StatusNotOK 1 [] w' = w'"
proof -
  define i where "i = hd (Insts running_world)"
  have s: "sound running_world" unfolding running_world_def by (rule one_job_sound) code_simp
  have i: "inst_of running_world ''x'' = Some i" "\<not> terminal_status (IStatus i)"
    by (simp_all add: one_job_row running_world_def i_def terminal_status_def)
  have d: "ISnapshot i = Frozen adding_job" by (simp add: i_def running_world_def one_job_def)
  have a: "Actions adding_job = []" "\<not> Cyclic (ScheduleOf adding_job)" by code_simp+
  have b: "integrityBlock demo_env (row_of_inst running_world i) = None" unfolding i_def by code_simp
  have h: "Has (PoolOf (FinishInstance demo_env 30 ''x'' StatusOK 0 [] running_world)) ''A-TO-B'' ''2026-07-16''"
    by code_simp
  show ?thesis
    using ok_result_effect [OF s i d a b, of 30 0 "[]" 31 StatusNotOK 1 "[]"] h by (simp add: Let_def)
qed

text \<open>
  A NOTOK result of an order without rules leaves the pool untouched.  While the retry budget
  lasts the order goes back to WAITING with one more attempt and keeps its quotas; afterwards it ends
  NOTOK and gives them back.
\<close>

theorem notok_result_effect:
  assumes "inst_of w k = Some i" and "\<not> terminal_status (IStatus i)"
    and "ISnapshot i = Frozen d" and "Actions d = []" and "integrityBlock e (row_of_inst w i) = None"
  shows "let w' = FinishInstance e now k StatusNotOK code out w in PoolOf w' = PoolOf w \<and>
    (if Retries d > 0 \<and> IAttempts i < Retries d + 1
     then (\<exists>i'. inst_of w' k = Some i' \<and> IStatus i' = StatusWaiting \<and> IAttempts i' = IAttempts i + 1 \<and>
             IScheduledAt i' = (if RetryDelayMin d > 0 then Some (now + RetryDelayMin d * minute) else IScheduledAt i)) \<and>
          Tracker w' = Tracker w
     else inst_of w' k = Some (i\<lparr>IStatus := StatusNotOK, IExitCode := Some code, IOutput := out, IFinishedAt := Some now\<rparr>) \<and>
          Tracker w' = Release k (Tracker w))"
  by (rule notok_effect [OF assms])

theorem notok_result_effect_witness:
  "let w' = FinishInstance demo_env 30 ''x'' StatusNotOK 1 [] running_world in
   PoolOf w' = [] \<and> map_option IStatus (inst_of w' ''x'') = Some StatusNotOK"
proof -
  define i where "i = hd (Insts running_world)"
  have i: "inst_of running_world ''x'' = Some i" "\<not> terminal_status (IStatus i)"
    by (simp_all add: one_job_row running_world_def i_def terminal_status_def)
  have d: "ISnapshot i = Frozen adding_job" by (simp add: i_def running_world_def one_job_def)
  have a: "Actions adding_job = []" "\<not> Retries adding_job > 0" "PoolOf running_world = []" by code_simp+
  have b: "integrityBlock demo_env (row_of_inst running_world i) = None" unfolding i_def by code_simp
  show ?thesis
    using notok_result_effect [OF i d a(1) b, of 30 1 "[]"] a by (simp add: Let_def)
qed

text \<open>
  Cancelling a running order ends it for good, whatever its retry budget and whatever its rules
  do: it is terminal, no execution of it stays open, it holds no quota, and the result its agent
  sends later is ignored.
\<close>

theorem cancel_running_is_final:
  assumes "sound w" and "inst_of w k = Some i" and "IStatus i = StatusRunning"
    and "Cancel e now k w = Inr (st, w')"
  shows "isInstanceTerminal w' k \<and> count_where (open_run k) (RunRows w') = 0 \<and> held_by (Tracker w') k = [] \<and>
    FinishInstance e now' k st' code out w' = w'"
proof -
  define f :: "Instance \<Rightarrow> Instance" where "f = (\<lambda>i. i\<lparr>IStatus := StatusNotOK, IExitCode := Some (- 1),
     IOutput := ''(cancelled by operator)'', IFinishedAt := Some now\<rparr>)"
  have idf: "\<And>i. IId (f i) = IId i" by (simp add: f_def)
  define w1 where "w1 = emitEvent now k ''cancelled'' ''operator'' (release_of k (recordRunEnd now k StatusNotOK (- 1) (upd_inst k f w)))"
  have w': "w' = terminal_rules e now k StatusNotOK (- 1) w1"
    using assms(2-4) by (simp add: Cancel_def finishKilled_def Let_def f_def w1_def)
  have i1: "inst_of w1 k = Some (f i)"
    using assms(2) inst_of_id [OF assms(2)] inst_of_upd [OF idf, of k w k]
    by (simp add: w1_def inst_of_def emitEvent_frame release_frame run_end_frame)
  have "held_by (Tracker w1) k = []" by (simp add: w1_def emitEvent_frame release_of_def held_by_released)
  then have g: "gone w' k"
    unfolding w' by (intro gone_terminal_rules) (simp add: gone_def isInstanceTerminal_def i1 f_def terminal_status_def)
  then have t: "isInstanceTerminal w' k" by (simp add: gone_def)
  have "sound w'" by (rule sound_Cancel [OF assms(1,4)])
  then have "open_count w' k = 0"
    using t by (auto simp: sound_but_def is_running_def isInstanceTerminal_def terminal_status_def split: option.splits)
  then show ?thesis using g t by (simp add: gone_def open_count_def FinishInstance_def)
qed

theorem cancel_running_is_final_witness:
  "\<exists>w'. Cancel demo_env 30 ''x'' (one_job retry_job StatusRunning) = Inr (StatusNotOK, w') \<and>
     isInstanceTerminal w' ''x'' \<and> FinishInstance demo_env 31 ''x'' StatusOK 0 [] w' = w'"
proof -
  define w where "w = one_job retry_job StatusRunning"
  have s: "sound w" unfolding w_def by (rule one_job_sound) code_simp
  have i: "inst_of w ''x'' = Some (hd (Insts w))" "IStatus (hd (Insts w)) = StatusRunning"
    by (simp_all add: one_job_row w_def)
  have c: "Cancel demo_env 30 ''x'' w = Inr (StatusNotOK, finishKilled demo_env 30 ''x'' w)"
    using i by (simp add: Cancel_def)
  show ?thesis
    using cancel_running_is_final [OF s i c, of 31 StatusOK 0 "[]"] c unfolding w_def by blast
qed

section \<open>Behaviours that go wrong\<close>

text \<open>
  A failed order whose retry is delayed keeps the quotas of the failed attempt and its own gate
  counts them: when they leave no room for a second set the retry is never started by the tick, and
  cancelling it then leaves the quotas taken.
\<close>

theorem delayed_retry_blocks_itself:
  assumes "inst_of w k = Some i" and "\<not> terminal_status (IStatus i)" and "\<not> IForced i"
    and "ISnapshot i = Frozen d" and "Actions d = []" and "integrityBlock e (row_of_inst w i) = None"
    and "Retries d > 0" and "IAttempts i < Retries d + 1" and "RetryDelayMin d > 0"
    and "(n, q) \<in> set (ResourcesOf d)" and "cap_of (Tracker w) n < i64 (used_of (Tracker w) n + q)"
  shows "let w' = FinishInstance e now k StatusNotOK code out w in
    \<exists>i'. inst_of w' k = Some i' \<and> IStatus i' = StatusWaiting \<and> Tracker w' = Tracker w \<and>
      \<not> is_running (tick_row e now' None (row_of_inst w' i') w') k \<and>
      (\<exists>w''. Cancel e now' k w' = Inr (StatusCancelled, w'') \<and> Tracker w'' = Tracker w)"
proof -
  obtain w' i' where w': "FinishInstance e now k StatusNotOK code out w = w'" "Tracker w' = Tracker w"
    "Ledger w' = Ledger w" "Dailies w' = Dailies w" "inst_of w' k = Some i'" "IStatus i' = StatusWaiting"
    "ISnapshot i' = Frozen d" "\<not> IForced i'"
    using delayed_retry_world [OF assms(1-9)] by blast
  have no: "\<not> is_running (tick_row e now' None (row_of_inst w' i') w') k"
  proof
    assume "is_running (tick_row e now' None (row_of_inst w' i') w') k"
    then obtain d' x where d': "defForInstance e (row_of_inst w' i') (live_map w') = Some d'"
      and x: "Explain e now' k w' = Some x" "ExRunnable x"
      unfolding tick_start_iff [OF w'(5,6) hasIdx_None] by blast
    note ex = Explain_runnable [OF w'(5,6) x d']
    have ib: "integrityBlock e (row_of_inst w' i') = None" using ex by simp
    have rs: "ResourcesOf d' = ResourcesOf d" using frozen_def [OF ib w'(7)] d' by (auto simp: expand_fields)
    have nb: "\<not> total_bypass (row_of_inst w' i')" using w'(8) by (simp add: total_bypass_def row_of_inst_def)
    have "gateInstance e (row_of_inst w' i') d' (PoolOf w') (Tracker w') (prev_of w') None now' False = []"
      using ex nb by simp
    then have "resource_gate d' (Tracker w) = []"
      by (simp add: gateInstance_def all_gates_def w'(2) split: if_splits)
    moreover have "ResourcesOf d \<noteq> []" using assms(10) by auto
    ultimately have "shortfallsLocked (Tracker w) (ResourcesOf d) = []"
      by (simp add: resource_gate_def Shortfalls_def rs)
    then show False using assms(10,11) by (auto simp: shortfallsLocked_def filter_empty_conv)
  qed
  have "Cancel e now' k w' = Inr (StatusCancelled, cancelPending now' k w')" using w'(5,6) by (simp add: Cancel_def)
  moreover have "Tracker (cancelPending now' k w') = Tracker w"
    by (simp add: cancelPending_def emitEvent_frame upd_inst_frame w'(2))
  ultimately show ?thesis using w' no unfolding w'(1) Let_def by blast
qed

definition quota_job :: JobDefinition where
  "quota_job = zero_def\<lparr>ID := ''A'', Retries := 1, RetryDelayMin := 5, ResourcesOf := [(''db'', 1)]\<rparr>"

definition quota_world :: World where
  "quota_world = (one_job quota_job StatusRunning)\<lparr>Tracker := snd (TryAcquire (\<lambda>_. True) ''x'' [(''db'', 1)] NewResourceTracker)\<rparr>"

theorem delayed_retry_blocks_itself_witness:
  "let w' = FinishInstance demo_env 30 ''x'' StatusNotOK 1 [] quota_world in
   \<exists>i'. inst_of w' ''x'' = Some i' \<and> IStatus i' = StatusWaiting \<and>
     \<not> is_running (tick_row demo_env 1000000000000 None (row_of_inst w' i') w') ''x''"
proof -
  define i where "i = hd (Insts quota_world)"
  have i: "inst_of quota_world ''x'' = Some i" "\<not> terminal_status (IStatus i)" "\<not> IForced i"
    by (simp_all add: quota_world_def i_def one_job_def inst_of_def row_of_Cons terminal_status_def)
  have d: "ISnapshot i = Frozen quota_job" by (simp add: i_def quota_world_def one_job_def)
  have a: "Actions quota_job = []" "Retries quota_job > 0" "RetryDelayMin quota_job > 0"
    "(''db'', 1) \<in> set (ResourcesOf quota_job)"
    by code_simp+
  have n: "IAttempts i < Retries quota_job + 1" unfolding i_def by code_simp
  have b: "integrityBlock demo_env (row_of_inst quota_world i) = None" unfolding i_def by code_simp
  have c: "cap_of (Tracker quota_world) ''db'' < i64 (used_of (Tracker quota_world) ''db'' + 1)" by code_simp
  show ?thesis
    using delayed_retry_blocks_itself [OF i d a(1) b a(2) n a(3) a(4) c, of 30 1 "[]" 1000000000000]
    by (auto simp: Let_def)
qed

text \<open>
  A forced order takes its id from the definition and the time of day alone: at the same second
  of any later day the same force is refused.
\<close>

theorem force_refused_at_same_time_of_day:
  assumes "ForceOrder e now j w = Inr (k, w')"
  shows "\<exists>x. ForceOrder e' (now + int days * 86400 * second) j w' = Inl x"
proof -
  define now2 where "now2 = now + int days * 86400 * second"
  have k: "k = j @ ''-FORCE-'' @ stamp now" using ForceOrder_shape [OF assms] by simp
  obtain d today where "Insts w' = Insts w @ [forced_instance k d today now]"
    using ForceOrder_shape [OF assms] by blast
  then have "inst_of w' k \<noteq> None"
    by (simp add: inst_of_def row_of_append row_of_Cons forced_instance_def split: option.split)
  moreover have "stamp now2 = stamp now"
  proof -
    have "now2 div second = now div second + int days * 86400" by (simp add: now2_def)
    then show ?thesis by (simp add: stamp_def)
  qed
  ultimately have "inst_of w' (j @ ''-FORCE-'' @ stamp now2) \<noteq> None" using k by simp
  then have "\<not> (\<exists>m v. ForceOrder e' now2 j w' = Inr (m, v))" using ForceOrder_shape [of e' now2 j w'] by auto
  then have "\<exists>x. ForceOrder e' now2 j w' = Inl x" by (cases "ForceOrder e' now2 j w'") auto
  then show ?thesis by (simp add: now2_def)
qed

definition utc_env :: env where
  "utc_env = demo_env\<lparr>Loc := (\<lambda>_. Some utc_zone)\<rparr>"

definition live_world :: World where
  "live_world = demo_world\<lparr>LiveDefs := [zero_def\<lparr>ID := ''A''\<rparr>]\<rparr>"

theorem force_refused_at_same_time_of_day_witness:
  "\<exists>k w' x. ForceOrder utc_env 0 ''A'' live_world = Inr (k, w') \<and>
     ForceOrder utc_env (86400 * second) ''A'' w' = Inl x"
proof -
  have v: "ValidateCalendar (Loc utc_env) (business_calendar live_world) = None" by code_simp
  have f: "List.find (\<lambda>d. ID d = ''A'') (LiveDefs live_world) = Some (zero_def\<lparr>ID := ''A''\<rparr>)"
    by (simp add: live_world_def)
  have n: "inst_of live_world (''A'' @ ''-FORCE-'' @ stamp 0) = None"
    by (simp add: live_world_def demo_world_def one_job_def inst_of_def row_of_Cons row_of_Nil)
  have "\<exists>k w'. ForceOrder utc_env 0 ''A'' live_world = Inr (k, w')"
    using v f n by (simp add: ForceOrder_def Let_def split: prod.split bool.split)
  then obtain k w' where o: "ForceOrder utc_env 0 ''A'' live_world = Inr (k, w')" by blast
  then show ?thesis using force_refused_at_same_time_of_day [OF o, of utc_env 1] by auto
qed

text \<open>
  A job whose logic uses the time token may start before its schedule says the evaluator of gates,
  and the explanation calls it runnable; the tick skips it until the schedule all the same.
\<close>

definition token_world :: World where
  "token_world = one_job (zero_def\<lparr>ID := ''A'', ConditionsIn := [''E''],
     ConditionLogicOf := Some \<lparr>LogicOp = ''OR'', Groups = [\<lparr>GroupOp = ''OR'', Members = [''$TIME'', ''E'']\<rparr>]\<rparr>\<rparr>) StatusWaiting"

definition token_ready :: World where
  "token_ready = token_world\<lparr>PoolOf := SetCond 1 ''E'' ''2026-07-16'' ''manual'' []\<rparr>"

lemma time_token_not_anticipated:
  "map_option ExRunnable (Explain demo_env 5 ''x'' token_ready) = Some True \<and>
   tick_row demo_env 5 None (row_of_inst token_ready (hd (Insts token_ready))) token_ready = token_ready"
proof
  show "map_option ExRunnable (Explain demo_env 5 ''x'' token_ready) = Some True" by code_simp
  have "\<not> stuck 5 (row_of_inst token_ready (hd (Insts token_ready)))"
    "before_opt 5 (RScheduledAt (row_of_inst token_ready (hd (Insts token_ready))))" by code_simp+
  then show "tick_row demo_env 5 None (row_of_inst token_ready (hd (Insts token_ready))) token_ready = token_ready"
    by (simp add: tick_row_def Let_def)
qed

text \<open>
  A dispatch that finds no agent puts the instance back to WAITING unconditionally: an order that
  the operator cancelled in between comes back to life.
\<close>

lemma cancelled_order_revived:
  "\<exists>w'. Cancel demo_env 30 ''x'' running_world = Inr (StatusNotOK, w') \<and>
     map_option IStatus (inst_of w' ''x'') = Some StatusNotOK \<and>
     map_option IStatus (inst_of (run_dispatch (demo_env\<lparr>DemoMode := False\<rparr>) 31 ''x'' adding_job DispatchNoAgent w') ''x'')
       = Some StatusWaiting"
proof -
  have i: "inst_of running_world ''x'' = Some (hd (Insts running_world))" "IStatus (hd (Insts running_world)) = StatusRunning"
    by (simp_all add: one_job_row running_world_def)
  have "Cancel demo_env 30 ''x'' running_world = Inr (StatusNotOK, finishKilled demo_env 30 ''x'' running_world)"
    using i by (simp add: Cancel_def)
  moreover have "map_option IStatus (inst_of (finishKilled demo_env 30 ''x'' running_world) ''x'') = Some StatusNotOK"
    "map_option IStatus (inst_of (run_dispatch (demo_env\<lparr>DemoMode := False\<rparr>) 31 ''x'' adding_job DispatchNoAgent
       (finishKilled demo_env 30 ''x'' running_world)) ''x'') = Some StatusWaiting"
    by code_simp+
  ultimately show ?thesis by blast
qed

text \<open>
  The guard of results only knows terminal statuses: a duplicate of a failure that was retried
  consumes the next attempt although nothing ran.
\<close>

lemma duplicate_failure_consumes_attempt:
  "let w0 = one_job (zero_def\<lparr>ID := ''A'', Retries := 2, RetryDelayMin := 5\<rparr>) StatusRunning;
       w1 = FinishInstance demo_env 30 ''x'' StatusNotOK 1 [] w0;
       w2 = FinishInstance demo_env 31 ''x'' StatusNotOK 1 [] w1
   in map_option IAttempts (inst_of w1 ''x'') = Some 2 \<and> map_option IAttempts (inst_of w2 ''x'') = Some 3"
  by code_simp

end
