(* ===== verification/Daily.thy ===== *)
theory Daily
  imports SchedulerInv
begin

text \<open>
  The daily: the frozen plan, the carry-over and the materialisation in checkpointed chunks, of
  \<open>server/internal/scheduler/daily.go\<close> and \<open>scheduler.go\<close>.

  Every transaction either commits or leaves the tables as they were.  \<open>ok n\<close> says whether the
  \<open>n\<close>-th transaction of one call commits: a lost leadership, a database error and a crash are the
  same refusal, and after a refusal only the mark \<open>failed\<close> may still be written (\<open>mark\<close>).
  The plan column holds the value its JSON decodes to, and \<open>PlanDigest\<close> stands for the SHA-256 of
  date, commit and JSON.
\<close>

section \<open>Life of an order across dailies\<close>

definition keepActiveDays :: "JobDefinition \<Rightarrow> bool \<Rightarrow> int" where
  "keepActiveDays d notokDefault =
     (if KeepActive (ScheduleOf d) > 0 then KeepActive (ScheduleOf d)
      else if notokDefault then 1 else 0)"

datatype carry_reason =
  UnresolvedExecution | CarryRunning | CarryHeld | CarryNotOK | NotOKExpired | RetryPending
| RetryExpired | WaitingKeepActive | WaitingNoKeepActive | CarryTerminal

definition carryDecision ::
  "InstanceStatus \<Rightarrow> bool \<Rightarrow> int \<Rightarrow> int \<Rightarrow> JobDefinition \<Rightarrow> bool \<times> carry_reason" where
  "carryDecision st retryPending ageDays activityAgeDays d =
     (case st of
        StatusUncertain \<Rightarrow> (True, UnresolvedExecution)
      | StatusRunning \<Rightarrow> (True, CarryRunning)
      | StatusHeld \<Rightarrow> (True, CarryHeld)
      | StatusNotOK \<Rightarrow>
          if activityAgeDays \<le> keepActiveDays d True then (True, CarryNotOK) else (False, NotOKExpired)
      | StatusWaiting \<Rightarrow>
          if retryPending then
            (if activityAgeDays \<le> keepActiveDays d True then (True, RetryPending) else (False, RetryExpired))
          else if ageDays \<le> keepActiveDays d False then (True, WaitingKeepActive)
          else (False, WaitingNoKeepActive)
      | _ \<Rightarrow> (False, CarryTerminal))"

section \<open>Carry-over\<close>

definition previous_daily :: "World \<Rightarrow> string \<Rightarrow> string" where
  "previous_daily w date = fold max (map IOrderDate (filter (\<lambda>i. IOrderDate i < date) (Insts w))) []"

text \<open>The definition the decision is made on: the zero value when the snapshot is not usable.\<close>

definition carry_def :: "env \<Rightarrow> World \<Rightarrow> Instance \<Rightarrow> JobDefinition" where
  "carry_def e w i =
     (case defForInstance e ((row_of_inst w i)\<lparr>RDailyState := []\<rparr>) (live_map w) of
        Some d \<Rightarrow> d | None \<Rightarrow> zero_def)"

definition carry_origin :: "string \<Rightarrow> Instance \<Rightarrow> string" where
  "carry_origin prev i = (if ICarriedFrom i = [] then prev else ICarriedFrom i)"

definition carries :: "env \<Rightarrow> World \<Rightarrow> string \<Rightarrow> string \<Rightarrow> Instance \<Rightarrow> bool" where
  "carries e w prev date i =
     (let d = carry_def e w i;
          odate = carry_origin prev i;
          a1 = activityDate (Loc e) d (IFinishedAt i);
          a2 = (if a1 = [] then activityDate (Loc e) d (IStartedAt i) else a1);
          activity = (if a2 = [] then odate else a2);
          retryPending = (IAttempts i > 1 \<and> IStartedAt i \<noteq> None)
      in fst (carryDecision (IStatus i) retryPending (daysBetween odate date) (daysBetween activity date) d))"

definition carry_plan :: "env \<Rightarrow> World \<Rightarrow> string \<Rightarrow> string \<Rightarrow> (string \<times> string) list" where
  "carry_plan e w prev date =
     map (\<lambda>i. (IId i, carry_origin prev i))
       (filter (\<lambda>i. IOrderDate i = prev \<and> IStatus i \<noteq> StatusOK \<and> IStatus i \<noteq> StatusCancelled \<and>
                    carries e w prev date i) (Insts w))"

definition upd_daily :: "string \<Rightarrow> (DailyRunRow \<Rightarrow> DailyRunRow) \<Rightarrow> World \<Rightarrow> World" where
  "upd_daily date f w = w\<lparr>Dailies := update_where (\<lambda>r. DrDate r = date) f (Dailies w)\<rparr>"

definition add_event :: "int \<Rightarrow> string \<Rightarrow> string \<Rightarrow> World \<Rightarrow> World" where
  "add_event now k kind w =
     w\<lparr>Events := Events w @ [\<lparr>EvInst = k, EvKindOf = kind, EvActor = ''scheduler'', EvTs = now\<rparr>]\<rparr>"

definition carry_one :: "int \<Rightarrow> string \<Rightarrow> string \<times> string \<Rightarrow> World \<Rightarrow> World" where
  "carry_one now date kf w =
     add_event now (fst kf) ''carried''
       (upd_inst (fst kf) (\<lambda>i. i\<lparr>IOrderDate := date, ICarriedFrom := snd kf, ICarriedAt := Some now\<rparr>) w)"

datatype daily_error =
  InvalidDate | InvalidCalendar | SourceUnavailable | NoDefinitions | DuplicateDefinition
| InvalidPlan | InvalidDefinition | CheckpointMismatch | LedgerIncomplete | LedgerDiffers | Storage

definition applyCarryDaily ::
  "int \<Rightarrow> bool \<Rightarrow> string \<Rightarrow> (string \<times> string) list \<Rightarrow> bool \<Rightarrow> World \<Rightarrow> daily_error + World" where
  "applyCarryDaily now ok date plan checkpoint w =
     (if \<not> ok then Inl Storage
      else if checkpoint then
        (case row_of DrDate date (Dailies w) of
           None \<Rightarrow> Inl Storage
         | Some r \<Rightarrow>
             if DrCarryDone r then Inr w
             else Inr (upd_daily date (\<lambda>r. r\<lparr>DrCarryDone := True, DrCarried := int (length plan),
                    DrState := ''materializing''\<rparr>) (fold (carry_one now date) plan w)))
      else Inr (fold (carry_one now date) plan w))"

definition carryOverWithCheckpoint ::
  "env \<Rightarrow> int \<Rightarrow> bool \<Rightarrow> string \<Rightarrow> bool \<Rightarrow> World \<Rightarrow> daily_error + World" where
  "carryOverWithCheckpoint e now ok date checkpoint w =
     (let prev = previous_daily w date in
      if prev = [] then (if checkpoint then applyCarryDaily now ok date [] True w else Inr w)
      else let plan = carry_plan e w prev date in
        if plan = [] \<and> \<not> checkpoint then Inr w else applyCarryDaily now ok date plan checkpoint w)"

section \<open>The frozen plan\<close>

text \<open>Where definitions come from: the repository (a snapshot and its commit, or a failure) or memory.\<close>

datatype source = FromMemory | FromGit "(JobDefinition list \<times> string) option"

record daily_env =
  DEnv :: env
  DSource :: source
  DStore :: "calLookup option"
  PlanDigest :: "string \<Rightarrow> string \<Rightarrow> JobDefinition list option \<Rightarrow> string"

fun plan_loop ::
  "(JobDefinition \<Rightarrow> bool) \<Rightarrow> string list \<Rightarrow> string list \<Rightarrow> JobDefinition list \<Rightarrow> JobDefinition list option" where
  "plan_loop scheduled existing seen [] = Some []"
| "plan_loop scheduled existing seen (d # ds) =
     (if ID d = [] \<or> containsStr seen (ID d) then None
      else case plan_loop scheduled existing (ID d # seen) ds of
        None \<Rightarrow> None
      | Some rest \<Rightarrow>
          Some (if \<not> Enabled (ScheduleOf d) \<or> containsStr existing (ID d) \<or> \<not> scheduled d then rest
                else d # rest))"

definition definitions_of :: "daily_env \<Rightarrow> World \<Rightarrow> (JobDefinition list \<times> string) option" where
  "definitions_of v w = (case DSource v of FromMemory \<Rightarrow> Some (LiveDefs w, []) | FromGit s \<Rightarrow> s)"

definition scheduled_on :: "daily_env \<Rightarrow> date \<Rightarrow> JobDefinition \<Rightarrow> bool" where
  "scheduled_on v t d = (case DStore v of None \<Rightarrow> True | Some st \<Rightarrow> IsScheduledOn d t st)"

definition plan_row :: "daily_env \<Rightarrow> string \<Rightarrow> string \<Rightarrow> JobDefinition list \<Rightarrow> DailyRunRow" where
  "plan_row v date sha plan =
     \<lparr>DrDate = date, DrState = ''planning'', DrSha = sha, DrExpected = int (length plan), DrInserted = 0,
      DrCheckpoint = 0, DrCarryDone = False, DrCarried = 0, DrPlan = Some plan,
      DrSum = PlanDigest v date sha (Some plan)\<rparr>"

text \<open>\<open>ok\<close>: the carry-over of an empty source, or the insert of the plan, commits.\<close>

definition freezeDailyPlan ::
  "daily_env \<Rightarrow> int \<Rightarrow> bool \<Rightarrow> string \<Rightarrow> date \<Rightarrow> World \<Rightarrow> daily_error option \<times> World" where
  "freezeDailyPlan v now ok date t w =
     (let c = business_calendar w; e = DEnv v in
      if ValidateCalendar (Loc e) c \<noteq> None then (Some InvalidCalendar, w)
      else case definitions_of v w of
        None \<Rightarrow> (Some SourceUnavailable, w)
      | Some (defs, sha) \<Rightarrow>
          if defs = [] then
            (case carryOverWithCheckpoint e now ok date False w of
               Inl x \<Rightarrow> (Some x, w) | Inr w' \<Rightarrow> (Some NoDefinitions, w'))
          else
            (let existing = map IDefID (filter (\<lambda>i. IOrderDate i = date \<and> ICarriedFrom i = []) (Insts w)) in
             case plan_loop (scheduled_on v t) existing [] defs of
               None \<Rightarrow> (Some DuplicateDefinition, w)
             | Some picked \<Rightarrow>
                 if \<not> ok then (Some Storage, w)
                 else if row_of DrDate date (Dailies w) \<noteq> None then (None, w)
                 else (None, w\<lparr>Dailies := Dailies w @
                         [plan_row v date sha (sort_key ID (map (\<lambda>d. freezeTime d c) picked))]\<rparr>)))"

section \<open>Chunks\<close>

definition dailyBatchChunk :: nat where "dailyBatchChunk = 5000"

definition daily_id :: "JobDefinition \<Rightarrow> string \<Rightarrow> string" where
  "daily_id d date = ID d @ ''-'' @ date"

definition daily_instance :: "env \<Rightarrow> string \<Rightarrow> JobDefinition \<Rightarrow> Instance" where
  "daily_instance e date d =
     \<lparr>IId = daily_id d date, IDefID = ID d, ITeam = Team d, IOrderDate = date, IStatus = StatusWaiting,
      IScheduledAt = computeScheduledAt (Loc e) d date, IStartedAt = None, IFinishedAt = None,
      ICarriedAt = None, IAttempts = 1, IExitCode = None, IOutput = [], IForced = False, IForceMode = [],
      IConfirmed = False, ICarriedFrom = [], ISnapshot = Frozen d, IHeldFrom = [], ICycleRuns = 0\<rparr>"

definition ledger_conflict :: "LedgerRow \<Rightarrow> LedgerRow \<Rightarrow> bool" where
  "ledger_conflict l x \<longleftrightarrow>
     LrInst x = LrInst l \<or> LrDate x = LrDate l \<and> (LrOrdinal x = LrOrdinal l \<or> LrDef x = LrDef l)"

definition ledger_row :: "env \<Rightarrow> string \<Rightarrow> int \<Rightarrow> JobDefinition \<Rightarrow> LedgerRow" where
  "ledger_row e date i d =
     \<lparr>LrDate = date, LrOrdinal = i, LrDef = ID d, LrInst = daily_id d date, LrSum = Digest e (Frozen d)\<rparr>"

definition insert_order :: "env \<Rightarrow> int \<Rightarrow> string \<Rightarrow> int \<Rightarrow> JobDefinition \<Rightarrow> World \<Rightarrow> World option" where
  "insert_order e now date i d w =
     (if inst_of w (daily_id d date) \<noteq> None then None
      else let w1 = add_event now (daily_id d date) ''ordered'' (w\<lparr>Insts := Insts w @ [daily_instance e date d]\<rparr>);
               l = ledger_row e date i d
           in if list_ex (ledger_conflict l) (Ledger w1) then None else Some (w1\<lparr>Ledger := Ledger w1 @ [l]\<rparr>))"

fun insert_orders :: "env \<Rightarrow> int \<Rightarrow> string \<Rightarrow> int \<Rightarrow> JobDefinition list \<Rightarrow> World \<Rightarrow> World option" where
  "insert_orders e now date i [] w = Some w"
| "insert_orders e now date i (d # ds) w =
     (case insert_order e now date i d w of
        None \<Rightarrow> None | Some w' \<Rightarrow> insert_orders e now date (i + 1) ds w')"

fun reconcile_rows :: "env \<Rightarrow> string \<Rightarrow> JobDefinition list \<Rightarrow> nat \<Rightarrow> LedgerRow list \<Rightarrow> daily_error option" where
  "reconcile_rows e date defs n [] = (if n \<noteq> length defs then Some LedgerIncomplete else None)"
| "reconcile_rows e date defs n (l # ls) =
     (if LrOrdinal l \<noteq> int n \<or> n \<ge> length defs then Some LedgerIncomplete
      else if LrDef l \<noteq> ID (defs ! n) \<or> LrInst l \<noteq> LrDef l @ ''-'' @ date \<or> LrSum l \<noteq> Digest e (Frozen (defs ! n))
      then Some LedgerDiffers
      else reconcile_rows e date defs (Suc n) ls)"

definition ledger_of :: "World \<Rightarrow> string \<Rightarrow> LedgerRow list" where
  "ledger_of w date = filter (\<lambda>l. LrDate l = date) (Ledger w)"

definition reconcileDaily :: "env \<Rightarrow> string \<Rightarrow> JobDefinition list \<Rightarrow> World \<Rightarrow> daily_error option" where
  "reconcileDaily e date defs w = reconcile_rows e date defs 0 (sort_key LrOrdinal (ledger_of w date))"

definition materializeDailyChunk ::
  "env \<Rightarrow> int \<Rightarrow> bool \<Rightarrow> string \<Rightarrow> string \<Rightarrow> JobDefinition list \<Rightarrow> World \<Rightarrow> daily_error + (int \<times> bool \<times> World)" where
  "materializeDailyChunk e now ok date chk defs w =
     (case row_of DrDate date (Dailies w) of
        None \<Rightarrow> Inl Storage
      | Some r \<Rightarrow>
          (let cp = DrCheckpoint r; len = int (length defs) in
           if \<not> ok then Inl Storage
           else if DrState r = ''completed'' then Inr (0, True, w)
           else if DrInserted r \<noteq> cp \<or> \<not> DrCarryDone r \<or> DrSum r \<noteq> chk \<or> cp < 0 \<or> cp > len \<or> DrExpected r \<noteq> len
           then Inl CheckpointMismatch
           else if cp = len then
             (case reconcileDaily e date defs w of
                Some x \<Rightarrow> Inl x
              | None \<Rightarrow> Inr (0, True, upd_daily date (\<lambda>r. r\<lparr>DrState := ''completed''\<rparr>) w))
           else
             (let fin = min (cp + int dailyBatchChunk) len in
              case insert_orders e now date cp (take (nat (fin - cp)) (drop (nat cp) defs)) w of
                None \<Rightarrow> Inl Storage
              | Some w' \<Rightarrow> Inr (fin - cp, False, upd_daily date
                  (\<lambda>r. r\<lparr>DrCheckpoint := fin, DrInserted := fin, DrState := ''materializing''\<rparr>) w'))))"

section \<open>Materialisation\<close>

text \<open>
  The loop over chunks.  Each round but the last moves the checkpoint, so one round per definition
  and one to complete are always enough; the fuel is that bound.
\<close>

fun chunk_loop ::
  "nat \<Rightarrow> env \<Rightarrow> int \<Rightarrow> (nat \<Rightarrow> bool) \<Rightarrow> nat \<Rightarrow> string \<Rightarrow> string \<Rightarrow> JobDefinition list \<Rightarrow> World \<Rightarrow>
   daily_error option \<times> World" where
  "chunk_loop 0 e now ok n date chk defs w = (Some Storage, w)"
| "chunk_loop (Suc fuel) e now ok n date chk defs w =
     (case materializeDailyChunk e now (ok n) date chk defs w of
        Inl x \<Rightarrow> (Some x, w)
      | Inr (_, True, w') \<Rightarrow> (None, w')
      | Inr (_, False, w') \<Rightarrow> chunk_loop fuel e now ok (Suc n) date chk defs w')"

definition can_resume :: "DailyRunRow \<Rightarrow> bool" where
  "can_resume r \<longleftrightarrow> DrState r \<noteq> ''completed'' \<and> DrState r \<noteq> ''legacy''"

definition mark_failed :: "bool \<Rightarrow> string \<Rightarrow> World \<Rightarrow> World" where
  "mark_failed mark date w =
     (if mark then upd_daily date (\<lambda>r. if can_resume r then r\<lparr>DrState := ''failed''\<rparr> else r) w else w)"

definition plan_valid :: "daily_env \<Rightarrow> string \<Rightarrow> DailyRunRow \<Rightarrow> daily_error + JobDefinition list" where
  "plan_valid v date r =
     (if PlanDigest v date (DrSha r) (DrPlan r) \<noteq> DrSum r then Inl InvalidPlan
      else case DrPlan r of
        None \<Rightarrow> Inl InvalidPlan
      | Some defs \<Rightarrow>
          if int (length defs) \<noteq> DrExpected r then Inl InvalidPlan
          else if list_ex (\<lambda>d. ID d = [] \<or>
               (case BusinessTime d of None \<Rightarrow> True | Some c \<Rightarrow> ValidateCalendar (Loc (DEnv v)) c \<noteq> None)) defs
               \<or> \<not> distinct (map ID defs)
          then Inl InvalidDefinition
          else Inr defs)"

definition resume_daily ::
  "daily_env \<Rightarrow> int \<Rightarrow> (nat \<Rightarrow> bool) \<Rightarrow> bool \<Rightarrow> string \<Rightarrow> DailyRunRow \<Rightarrow> World \<Rightarrow> daily_error option \<times> World" where
  "resume_daily v now ok mark date r w =
     (let (err, w') =
        (case plan_valid v date r of
           Inl x \<Rightarrow> (Some x, w)
         | Inr defs \<Rightarrow>
             (case carryOverWithCheckpoint (DEnv v) now (ok 1) date True w of
                Inl x \<Rightarrow> (Some x, w)
              | Inr w1 \<Rightarrow> chunk_loop (length defs + 2) (DEnv v) now ok 2 date (DrSum r) defs w1))
      in case err of None \<Rightarrow> (None, w') | Some x \<Rightarrow> (Some x, mark_failed mark date w'))"

definition MaterializeDaily ::
  "daily_env \<Rightarrow> int \<Rightarrow> (nat \<Rightarrow> bool) \<Rightarrow> bool \<Rightarrow> string \<Rightarrow> World \<Rightarrow> daily_error option \<times> World" where
  "MaterializeDaily v now ok mark date w =
     (case ParseDate date of
        None \<Rightarrow> (Some InvalidDate, w)
      | Some t \<Rightarrow>
          (let (err, w1) = (case row_of DrDate date (Dailies w) of
               None \<Rightarrow> freezeDailyPlan v now (ok 0) date t w | Some _ \<Rightarrow> (None, w))
           in case err of
                Some x \<Rightarrow> (Some x, w1)
              | None \<Rightarrow>
                  (case row_of DrDate date (Dailies w1) of
                     None \<Rightarrow> (Some Storage, w1)
                   | Some r \<Rightarrow>
                       if \<not> can_resume r then (None, w1)
                       else resume_daily v now ok mark date r w1)))"

end
