(* ===== verification/DailyCorrect.thy ===== *)
theory DailyCorrect
  imports Daily
begin

text \<open>
  The daily is crash safe: whatever transactions fail, and whatever the definitions become in the
  meantime, the ledger of a date is a prefix of its frozen plan; an attempt whose transactions commit
  completes it.  Carry-over moves orders between dailies without touching what they are.
\<close>

section \<open>Plans\<close>

lemma daily_id_inj [simp]: "daily_id d date = daily_id d' date \<longleftrightarrow> ID d = ID d'"
  by (simp add: daily_id_def)

lemma plan_loop_ids:
  assumes "plan_loop sch ex seen ds = Some ps"
  shows "distinct (map ID ps) \<and> set ps \<subseteq> set ds \<and> (\<forall>d\<in>set ps. ID d \<noteq> [] \<and> ID d \<notin> set seen)"
  using assms
proof (induction sch ex seen ds arbitrary: ps rule: plan_loop.induct)
  case (1 sch ex seen)
  then show ?case by simp
next
  case (2 sch ex seen d ds)
  have d: "ID d \<noteq> []" "ID d \<notin> set seen" using "2.prems" by (auto split: if_splits)
  obtain rest where r: "plan_loop sch ex (ID d # seen) ds = Some rest"
    using "2.prems" d by (cases "plan_loop sch ex (ID d # seen) ds") auto
  have ps: "ps = rest \<or> ps = d # rest"
    using "2.prems" d r by (simp split: if_splits)
  have "distinct (map ID rest) \<and> set rest \<subseteq> set ds \<and> (\<forall>d'\<in>set rest. ID d' \<noteq> [] \<and> ID d' \<notin> set (ID d # seen))"
    using "2.IH" [OF _ r] d by simp
  moreover from this have "ID d \<notin> ID ` set rest" by force
  ultimately show ?case using ps d by auto
qed

lemma distinct_sort_key: "distinct (map ID (sort_key ID xs)) = distinct (map ID xs)"
  by (simp add: distinct_map)

definition plan_rows :: "env \<Rightarrow> string \<Rightarrow> JobDefinition list \<Rightarrow> nat \<Rightarrow> LedgerRow list" where
  "plan_rows e date ds n = map (\<lambda>i. ledger_row e date (int i) (ds ! i)) [0..<n]"

lemma plan_rows_0 [simp]: "plan_rows e date ds 0 = []"
  by (simp add: plan_rows_def)

lemma plan_rows_Suc: "plan_rows e date ds (Suc n) = plan_rows e date ds n @ [ledger_row e date (int n) (ds ! n)]"
  by (simp add: plan_rows_def)

lemma ledger_row_fields [simp]:
  "LrDate (ledger_row e date i d) = date" "LrOrdinal (ledger_row e date i d) = i"
  "LrDef (ledger_row e date i d) = ID d" "LrInst (ledger_row e date i d) = daily_id d date"
  "LrSum (ledger_row e date i d) = Digest e (Frozen d)"
  by (simp_all add: ledger_row_def)

lemma plan_rows_sorted: "sort_key LrOrdinal (plan_rows e date ds n) = plan_rows e date ds n"
proof (rule sort_key_id_if_sorted)
  have "map LrOrdinal (plan_rows e date ds n) = map int [0..<n]" by (simp add: plan_rows_def o_def)
  moreover have "sorted (map int [0..<n])" by (induction n) (auto simp: sorted_append)
  ultimately show "sorted (map LrOrdinal (plan_rows e date ds n))" by simp
qed

lemma reconcile_prefix:
  "n \<le> length ds \<Longrightarrow>
   reconcile_rows e date ds n (map (\<lambda>i. ledger_row e date (int i) (ds ! i)) [n..<length ds]) = None"
proof (induction "length ds - n" arbitrary: n)
  case 0
  then show ?case by simp
next
  case (Suc k)
  then have n: "n < length ds" by simp
  then have u: "[n..<length ds] = n # [Suc n..<length ds]" by (simp add: upt_conv_Cons)
  have "reconcile_rows e date ds (Suc n) (map (\<lambda>i. ledger_row e date (int i) (ds ! i)) [Suc n..<length ds]) = None"
    by (rule Suc.hyps(1)) (use Suc.hyps(2) n in auto)
  then show ?case using n by (simp add: u daily_id_def)
qed

lemma reconcile_plan: "ledger_of w date = plan_rows e date ds (length ds) \<Longrightarrow> reconcileDaily e date ds w = None"
  using reconcile_prefix [of 0 ds e date] by (simp add: reconcileDaily_def plan_rows_sorted) (simp add: plan_rows_def)

section \<open>The invariant\<close>

text \<open>Ids of this daily are taken only by its own ledger.\<close>

definition own_ids :: "string \<Rightarrow> World \<Rightarrow> bool" where
  "own_ids date w \<longleftrightarrow> (\<forall>d. inst_of w (daily_id d date) \<noteq> None \<or> (\<exists>l\<in>set (Ledger w). LrInst l = daily_id d date) \<longrightarrow>
     ID d \<in> LrDef ` set (ledger_of w date))"

definition good_plan :: "daily_env \<Rightarrow> string \<Rightarrow> DailyRunRow \<Rightarrow> JobDefinition list \<Rightarrow> bool" where
  "good_plan v date r ds \<longleftrightarrow> DrPlan r = Some ds \<and> distinct (map ID ds) \<and> DrExpected r = int (length ds) \<and>
     DrSum r = PlanDigest v date (DrSha r) (Some ds) \<and> DrState r \<noteq> ''legacy'' \<and>
     (\<forall>d\<in>set ds. ID d \<noteq> [] \<and> (\<exists>c. BusinessTime d = Some c \<and> ValidateCalendar (Loc (DEnv v)) c = None))"

definition daily_row_ok :: "daily_env \<Rightarrow> string \<Rightarrow> World \<Rightarrow> JobDefinition list \<Rightarrow> nat \<Rightarrow> DailyRunRow \<Rightarrow> bool" where
  "daily_row_ok v date w ds n r \<longleftrightarrow> good_plan v date r ds \<and> n \<le> length ds \<and> DrCheckpoint r = int n \<and>
     DrInserted r = int n \<and> ledger_of w date = plan_rows (DEnv v) date ds n \<and>
     (DrState r = ''completed'' \<longrightarrow> n = length ds)"

definition daily_inv :: "daily_env \<Rightarrow> string \<Rightarrow> World \<Rightarrow> bool" where
  "daily_inv v date w \<longleftrightarrow> own_ids date w \<and>
     (case row_of DrDate date (Dailies w) of
        None \<Rightarrow> ledger_of w date = []
      | Some r \<Rightarrow> \<exists>ds n. daily_row_ok v date w ds n r)"

lemma row_of_upd_daily:
  assumes "\<And>r. DrDate (f r) = DrDate r"
  shows "row_of DrDate date (Dailies (upd_daily date f w)) = map_option f (row_of DrDate date (Dailies w))"
  using row_of_update_where [of "\<lambda>r. DrDate r = date" DrDate f date "Dailies w"] assms row_of_SomeD [of DrDate date "Dailies w"]
  by (cases "row_of DrDate date (Dailies w)") (auto simp: upd_daily_def)

lemma upd_daily_frame [simp]:
  "Insts (upd_daily date f w) = Insts w" "Ledger (upd_daily date f w) = Ledger w"
  "ledger_of (upd_daily date f w) date = ledger_of w date" "inst_of (upd_daily date f w) k = inst_of w k"
  by (simp_all add: upd_daily_def ledger_of_def inst_of_def)

lemma own_ids_upd_daily [simp]: "own_ids date (upd_daily date f w) = own_ids date w"
  by (simp add: own_ids_def)

lemma own_ids_frame: "Insts w' = Insts w \<Longrightarrow> Ledger w' = Ledger w \<Longrightarrow> own_ids date w' = own_ids date w"
  by (simp add: own_ids_def inst_of_def ledger_of_def)

lemma daily_row_ok_frame: "ledger_of w' date = ledger_of w date \<Longrightarrow> daily_row_ok v date w' ds n r = daily_row_ok v date w ds n r"
  by (simp add: daily_row_ok_def)

section \<open>Carry-over\<close>

lemma carry_one_frame [simp]:
  "Ledger (carry_one now date kf w) = Ledger w" "Dailies (carry_one now date kf w) = Dailies w"
  "inst_of (carry_one now date kf w) k = map_option (\<lambda>i. if IId i = fst kf
     then i\<lparr>IOrderDate := date, ICarriedFrom := snd kf, ICarriedAt := Some now\<rparr> else i) (inst_of w k)"
proof -
  show "Ledger (carry_one now date kf w) = Ledger w" "Dailies (carry_one now date kf w) = Dailies w"
    by (simp_all add: carry_one_def add_event_def upd_inst_def)
  have "inst_of (carry_one now date kf w) k =
      inst_of (upd_inst (fst kf) (\<lambda>i. i\<lparr>IOrderDate := date, ICarriedFrom := snd kf, ICarriedAt := Some now\<rparr>) w) k"
    by (simp add: carry_one_def add_event_def inst_of_def)
  then show "inst_of (carry_one now date kf w) k = map_option (\<lambda>i. if IId i = fst kf
     then i\<lparr>IOrderDate := date, ICarriedFrom := snd kf, ICarriedAt := Some now\<rparr> else i) (inst_of w k)"
    by (simp add: inst_of_upd)
qed

lemma carry_fold_frame:
  "Ledger (fold (carry_one now date) plan w) = Ledger w \<and> Dailies (fold (carry_one now date) plan w) = Dailies w \<and>
   (inst_of (fold (carry_one now date) plan w) k = None \<longleftrightarrow> inst_of w k = None)"
  by (induction plan arbitrary: w) auto

text \<open>The instances of a carried plan: each id occurs once, so each instance is moved at most once.\<close>

lemma carry_fold_inst:
  assumes "distinct (map fst plan)"
  shows "inst_of (fold (carry_one now date) plan w) k = map_option (\<lambda>i. case map_of plan (IId i) of None \<Rightarrow> i
     | Some from \<Rightarrow> i\<lparr>IOrderDate := date, ICarriedFrom := from, ICarriedAt := Some now\<rparr>) (inst_of w k)"
  using assms
proof (induction plan arbitrary: w)
  case Nil
  then show ?case by (simp add: option.map_ident)
next
  case (Cons kf plan)
  have n: "map_of plan (fst kf) = None" using Cons.prems by (simp add: map_of_eq_None_iff)
  show ?case
  proof (cases "inst_of w k")
    case None
    then show ?thesis using Cons by simp
  next
    case (Some i)
    then show ?thesis using Cons n by (cases kf) auto
  qed
qed

lemma carry_plan_distinct:
  assumes "keys_distinct IId (Insts w)"
  shows "distinct (map fst (carry_plan e w prev date))"
proof -
  have "distinct (map IId (filter P (Insts w)))" for P
    using assms by (simp add: keys_distinct_def distinct_map_filter)
  then show ?thesis by (simp add: carry_plan_def o_def)
qed

lemma carry_inst_cases:
  assumes "keys_distinct IId (Insts w)" and c: "carryOverWithCheckpoint e now ok date cp w = Inr w'"
    and i: "inst_of w k = Some i"
  shows "inst_of w' k = Some i \<or>
    (inst_of w' k = Some (i\<lparr>IOrderDate := date, ICarriedFrom := inst_odate i, ICarriedAt := Some now\<rparr>) \<and>
     IOrderDate i = previous_daily w date \<and> previous_daily w date \<noteq> [] \<and> carries e w (previous_daily w date) date i)"
proof -
  define prev where "prev = previous_daily w date"
  define plan where "plan = carry_plan e w prev date"
  have ap: "inst_of w' k = inst_of w k \<or> inst_of w' k = inst_of (fold (carry_one now date) pl w) k"
    if "applyCarryDaily now ok date pl cp w = Inr w'" for pl
    using that by (auto simp: applyCarryDaily_def split: if_splits option.splits)
  have "inst_of w' k = inst_of w k \<or> (prev \<noteq> [] \<and> inst_of w' k = inst_of (fold (carry_one now date) plan w) k)"
    using c ap [of "[]"] ap [of plan]
    by (auto simp: carryOverWithCheckpoint_def Let_def prev_def [symmetric] plan_def [symmetric] split: if_splits)
  then consider "inst_of w' k = Some i" | "prev \<noteq> []" "inst_of w' k = inst_of (fold (carry_one now date) plan w) k"
    using i by auto
  then show ?thesis
  proof cases
    case 2
    have k: "IId i = k" using inst_of_id [OF i] by simp
    have cd: "distinct (map fst plan)" unfolding plan_def by (rule carry_plan_distinct [OF assms(1)])
    have w': "inst_of w' k = Some (case map_of plan k of None \<Rightarrow> i
       | Some from \<Rightarrow> i\<lparr>IOrderDate := date, ICarriedFrom := from, ICarriedAt := Some now\<rparr>)"
      using 2(2) carry_fold_inst [OF cd, of now date w k] i k by simp
    show ?thesis
    proof (cases "map_of plan k")
      case None
      then show ?thesis using w' by simp
    next
      case (Some org)
      then have "(k, org) \<in> set plan" by (rule map_of_SomeD)
      then obtain j where j: "j \<in> set (Insts w)" "IId j = k" "org = carry_origin prev j" "IOrderDate j = prev"
        "carries e w prev date j" by (auto simp: plan_def carry_plan_def)
      have "j = i" using row_of_in_set [OF assms(1) j(1)] i j(2) by (simp add: inst_of_def)
      then have "org = inst_odate i" using j by (simp add: carry_origin_def inst_odate_def)
      then show ?thesis using w' Some j 2(1) \<open>j = i\<close> by (simp add: prev_def)
    qed
  qed simp
qed

lemma carry_inv:
  assumes c: "carryOverWithCheckpoint e now ok date cp w = Inr w'" and i: "daily_inv v date w"
  shows "daily_inv v date w' \<and> (row_of DrDate date (Dailies w') = None \<longleftrightarrow> row_of DrDate date (Dailies w) = None) \<and>
    (\<forall>r. row_of DrDate date (Dailies w) = Some r \<longrightarrow> (\<exists>r'. row_of DrDate date (Dailies w') = Some r' \<and>
       DrPlan r' = DrPlan r \<and> DrSum r' = DrSum r \<and> (cp \<longrightarrow> DrCarryDone r')))"
proof -
  define f :: "(string \<times> string) list \<Rightarrow> DailyRunRow \<Rightarrow> DailyRunRow" where "f plan = (\<lambda>r. r\<lparr>DrCarryDone := True, DrCarried := int (length plan), DrState := ''materializing''\<rparr>)" for plan
  have cases: "w' = w \<and> (cp \<longrightarrow> (\<exists>r. row_of DrDate date (Dailies w) = Some r \<and> DrCarryDone r)) \<or>
      (\<exists>plan. w' = fold (carry_one now date) plan w \<and> \<not> cp) \<or>
      (\<exists>plan. w' = upd_daily date (f plan) (fold (carry_one now date) plan w))"
  proof -
    have ap: "w' = w \<and> (\<exists>r. row_of DrDate date (Dailies w) = Some r \<and> DrCarryDone r) \<or>
        (w' = fold (carry_one now date) plan w \<and> \<not> cp) \<or>
        (w' = upd_daily date (f plan) (fold (carry_one now date) plan w))"
      if "applyCarryDaily now ok date plan cp w = Inr w'" for plan
      using that unfolding applyCarryDaily_def f_def [symmetric]
      by (auto split: if_splits option.splits)
    have "(w' = w \<and> \<not> cp) \<or> (\<exists>plan. applyCarryDaily now ok date plan cp w = Inr w')"
      using c unfolding carryOverWithCheckpoint_def Let_def by (auto split: if_splits)
    then show ?thesis using ap by blast
  qed
  have fd: "\<And>plan r. DrDate (f plan r) = DrDate r" by (simp add: f_def)
  have own: "own_ids date (fold (carry_one now date) plan w) = own_ids date w"
    "ledger_of (fold (carry_one now date) plan w) date = ledger_of w date"
    "Dailies (fold (carry_one now date) plan w) = Dailies w" for plan
    using carry_fold_frame [of now date plan w] by (simp_all add: own_ids_def ledger_of_def)
  from cases show ?thesis
  proof (elim disjE exE conjE)
    fix plan assume w': "w' = upd_daily date (f plan) (fold (carry_one now date) plan w)"
    have row: "row_of DrDate date (Dailies w') = map_option (f plan) (row_of DrDate date (Dailies w))"
      unfolding w' row_of_upd_daily [OF fd] own ..
    have ok: "daily_row_ok v date w' ds n (f plan r)" if "daily_row_ok v date w ds n r" for ds n r
      using that by (simp add: daily_row_ok_def good_plan_def f_def w' own)
    have "own_ids date w' \<and> ledger_of w' date = ledger_of w date" using i by (simp add: w' own daily_inv_def)
    then have "daily_inv v date w'"
      using i ok unfolding daily_inv_def row by (cases "row_of DrDate date (Dailies w)") (simp, simp, blast)
    then show ?thesis using row by (cases "row_of DrDate date (Dailies w)") (simp_all add: f_def)
  next
    fix plan assume w': "w' = fold (carry_one now date) plan w" and "\<not> cp"
    then show ?thesis
      using i by (auto simp: daily_inv_def own daily_row_ok_def split: option.splits)
  next
    assume "w' = w" and "cp \<longrightarrow> (\<exists>r. row_of DrDate date (Dailies w) = Some r \<and> DrCarryDone r)"
    then show ?thesis using i by auto
  qed
qed

section \<open>Chunks\<close>

lemma insert_order_Some:
  assumes "insert_order e now date i d w = Some w'"
  shows "inst_of w (daily_id d date) = None" "Dailies w' = Dailies w" "Ledger w' = Ledger w @ [ledger_row e date i d]"
    "Insts w' = Insts w @ [daily_instance e date d]"
    "\<forall>x\<in>set (Ledger w). \<not> ledger_conflict (ledger_row e date i d) x"
  using assms by (auto simp: insert_order_def Let_def add_event_def list_ex_iff split: if_splits)

lemma insert_order_possible:
  assumes "own_ids date w" "ID d \<notin> LrDef ` set (ledger_of w date)" "\<forall>l\<in>set (ledger_of w date). LrOrdinal l \<noteq> i"
  shows "\<exists>w'. insert_order e now date i d w = Some w'"
proof -
  have n: "inst_of w (daily_id d date) = None" "\<forall>l\<in>set (Ledger w). LrInst l \<noteq> daily_id d date"
    using assms(1,2) unfolding own_ids_def by blast+
  have "LrDef x \<noteq> ID d" if "x \<in> set (Ledger w)" "LrDate x = date" for x
    using that assms(2) by (force simp: ledger_of_def)
  then have "\<not> ledger_conflict (ledger_row e date i d) x" if "x \<in> set (Ledger w)" for x
    using that n(2) assms(3) by (auto simp: ledger_conflict_def ledger_of_def)
  then show ?thesis using n(1) by (auto simp: insert_order_def Let_def add_event_def list_ex_iff)
qed

lemma insert_order_own:
  assumes o: "own_ids date w" and s: "insert_order e now date i d w = Some w'"
  shows "own_ids date w' \<and> ledger_of w' date = ledger_of w date @ [ledger_row e date i d]"
proof
  show l: "ledger_of w' date = ledger_of w date @ [ledger_row e date i d]"
    using insert_order_Some(3) [OF s] by (simp add: ledger_of_def)
  show "own_ids date w'"
    unfolding own_ids_def
  proof (intro allI impI)
    fix d' assume "inst_of w' (daily_id d' date) \<noteq> None \<or> (\<exists>l\<in>set (Ledger w'). LrInst l = daily_id d' date)"
    then have "ID d' = ID d \<or> inst_of w (daily_id d' date) \<noteq> None \<or> (\<exists>l\<in>set (Ledger w). LrInst l = daily_id d' date)"
      using insert_order_Some(3,4) [OF s]
      by (auto simp: inst_of_def row_of_append row_of_Cons daily_instance_def split: option.splits if_splits)
    then show "ID d' \<in> LrDef ` set (ledger_of w' date)" using o unfolding own_ids_def l by auto
  qed
qed

text \<open>Inserting the next orders of a plan whose first \<open>n\<close> are in the ledger.\<close>

lemma insert_orders_prefix:
  assumes "own_ids date w" "ledger_of w date = plan_rows e date ds n" "n + length xs \<le> length ds"
    and "xs = take (length xs) (drop n ds)" "insert_orders e now date (int n) xs w = Some w'"
  shows "own_ids date w' \<and> ledger_of w' date = plan_rows e date ds (n + length xs) \<and> Dailies w' = Dailies w \<and>
    (\<forall>k. inst_of w k \<noteq> None \<longrightarrow> inst_of w' k = inst_of w k) \<and>
    Insts w' = Insts w @ map (daily_instance e date) xs"
  using assms
proof (induction xs arbitrary: n w)
  case Nil
  then show ?case by simp
next
  case (Cons d xs)
  obtain w1 where w1: "insert_order e now date (int n) d w = Some w1" "insert_orders e now date (int (Suc n)) xs w1 = Some w'"
    using Cons.prems(5) by (auto simp: add.commute split: option.splits)
  have n: "n < length ds" using Cons.prems(3) by simp
  have dr: "drop n ds = ds ! n # drop (Suc n) ds" using n by (simp add: Cons_nth_drop_Suc)
  have d: "d = ds ! n" "xs = take (length xs) (drop (Suc n) ds)" using Cons.prems(4) unfolding dr by simp_all
  have o: "own_ids date w1" "ledger_of w1 date = plan_rows e date ds (Suc n)"
    using insert_order_own [OF Cons.prems(1) w1(1)] Cons.prems(2) d(1) by (simp_all add: plan_rows_Suc)
  from Cons.IH [OF o _ d(2) w1(2)] Cons.prems(3) insert_order_Some [OF w1(1)]
  show ?case by (auto simp: inst_of_def row_of_append split: option.splits)
qed

lemma insert_orders_possible:
  assumes "own_ids date w" "ledger_of w date = plan_rows e date ds n" "n + length xs \<le> length ds"
    and "xs = take (length xs) (drop n ds)" "distinct (map ID ds)"
  shows "\<exists>w'. insert_orders e now date (int n) xs w = Some w'"
  using assms
proof (induction xs arbitrary: n w)
  case Nil
  then show ?case by simp
next
  case (Cons d xs)
  have n: "n < length ds" using Cons.prems(3) by simp
  have dr: "drop n ds = ds ! n # drop (Suc n) ds" using n by (simp add: Cons_nth_drop_Suc)
  have d: "d = ds ! n" "xs = take (length xs) (drop (Suc n) ds)" using Cons.prems(4) unfolding dr by simp_all
  have "ID d \<notin> LrDef ` set (ledger_of w date)"
  proof
    assume "ID d \<in> LrDef ` set (ledger_of w date)"
    then obtain i where i: "i < n" "ID (ds ! i) = ID (ds ! n)"
      unfolding Cons.prems(2) d(1) by (auto simp: plan_rows_def)
    then show False using Cons.prems(5) n by (auto simp: distinct_conv_nth)
  qed
  moreover have "\<forall>l\<in>set (ledger_of w date). LrOrdinal l \<noteq> int n"
    unfolding Cons.prems(2) by (auto simp: plan_rows_def)
  ultimately obtain w1 where w1: "insert_order e now date (int n) d w = Some w1"
    using insert_order_possible [OF Cons.prems(1)] by blast
  have o: "own_ids date w1" "ledger_of w1 date = plan_rows e date ds (Suc n)"
    using insert_order_own [OF Cons.prems(1) w1] Cons.prems(2) d(1) by (simp_all add: plan_rows_Suc)
  have "\<exists>w'. insert_orders e now date (int (Suc n)) xs w1 = Some w'"
    by (rule Cons.IH [OF o _ d(2) Cons.prems(5)]) (use Cons.prems(3) in simp)
  then show ?case using w1 by (simp add: add.commute)
qed

text \<open>One chunk moves the checkpoint of a good row or completes it.\<close>

lemma chunk_cases:
  assumes own: "own_ids date w" and row: "row_of DrDate date (Dailies w) = Some r" and r: "daily_row_ok v date w ds n r"
    and c: "materializeDailyChunk (DEnv v) now ok date (DrSum r) ds w = Inr (m, fin, w')"
  shows "\<exists>r' n'. own_ids date w' \<and> row_of DrDate date (Dailies w') = Some r' \<and> daily_row_ok v date w' ds n' r' \<and>
    DrSum r' = DrSum r \<and> DrCarryDone r' = DrCarryDone r \<and> DrPlan r' = DrPlan r \<and>
    (fin \<longrightarrow> DrState r' = ''completed'') \<and> (\<not> fin \<longrightarrow> n < n') \<and>
    (\<forall>k. inst_of w k \<noteq> None \<longrightarrow> inst_of w' k = inst_of w k)"
proof -
  note ok = r [unfolded daily_row_ok_def]
  consider (stop) "DrState r = ''completed''" "fin" "w' = w"
    | (complete) "n = length ds" "fin" "w' = upd_daily date (\<lambda>r. r\<lparr>DrState := ''completed''\<rparr>) w"
    | (go) fi w1 where "\<not> fin" "n < length ds" "fi = min (n + dailyBatchChunk) (length ds)"
        "insert_orders (DEnv v) now date (int n) (take (fi - n) (drop n ds)) w = Some w1"
        "w' = upd_daily date (\<lambda>r. r\<lparr>DrCheckpoint := int fi, DrInserted := int fi, DrState := ''materializing''\<rparr>) w1"
  proof -
    have "min (int n + int dailyBatchChunk) (int (length ds)) = int (min (n + dailyBatchChunk) (length ds))" by simp
    moreover have "nat (int (min (n + dailyBatchChunk) (length ds)) - int n) = min (n + dailyBatchChunk) (length ds) - n"
      by simp
    ultimately show ?thesis
      using c row ok that unfolding materializeDailyChunk_def Let_def
      by (simp split: if_splits option.splits)
  qed
  then show ?thesis
  proof cases
    case stop
    then show ?thesis using own row r by auto
  next
    case complete
    have "row_of DrDate date (Dailies w') = Some (r\<lparr>DrState := ''completed''\<rparr>)"
      unfolding complete(3) using row_of_upd_daily [of "\<lambda>r. r\<lparr>DrState := ''completed''\<rparr>" date w] row by simp
    moreover have "daily_row_ok v date w' ds n (r\<lparr>DrState := ''completed''\<rparr>)"
      using ok complete(1) by (simp add: complete(3) daily_row_ok_def good_plan_def)
    ultimately show ?thesis using own complete by auto
  next
    case go
    define xs where "xs = take (fi - n) (drop n ds)"
    have xl: "length xs = fi - n" "n + length xs = fi" "fi \<le> length ds" "n < fi"
      using go(2,3) by (simp_all add: xs_def dailyBatchChunk_def)
    have i: "own_ids date w1 \<and> ledger_of w1 date = plan_rows (DEnv v) date ds fi \<and> Dailies w1 = Dailies w \<and>
        (\<forall>k. inst_of w k \<noteq> None \<longrightarrow> inst_of w1 k = inst_of w k)"
      using insert_orders_prefix [OF own, of "DEnv v" ds n xs now w1] ok go(4) xl
      by (simp add: xs_def)
    define f where "f = (\<lambda>r :: DailyRunRow. r\<lparr>DrCheckpoint := int fi, DrInserted := int fi, DrState := ''materializing''\<rparr>)"
    have "row_of DrDate date (Dailies w') = Some (f r)"
      using row_of_upd_daily [of f date w1] row i by (simp add: go(5) f_def)
    moreover have "daily_row_ok v date w' ds fi (f r)"
      using ok i xl(3) by (simp add: go(5) daily_row_ok_def good_plan_def f_def)
    ultimately show ?thesis using i xl(4) go(1) by (auto simp: go(5) f_def)
  qed
qed

lemma chunk_possible:
  assumes own: "own_ids date w" and row: "row_of DrDate date (Dailies w) = Some r" and r: "daily_row_ok v date w ds n r"
    and c: "DrCarryDone r"
  shows "\<exists>m fin w'. materializeDailyChunk (DEnv v) now True date (DrSum r) ds w = Inr (m, fin, w')"
proof -
  note ok = r [unfolded daily_row_ok_def good_plan_def]
  define fi where "fi = min (n + dailyBatchChunk) (length ds)"
  define xs where "xs = take (fi - n) (drop n ds)"
  have "\<exists>w'. insert_orders (DEnv v) now date (int n) xs w = Some w'"
    by (rule insert_orders_possible [OF own])
      (use ok in \<open>auto simp: xs_def fi_def\<close>)
  moreover have "min (int n + int dailyBatchChunk) (int (length ds)) = int fi" by (simp add: fi_def)
  moreover have "nat (int fi - int n) = fi - n" by simp
  moreover have "n = length ds \<Longrightarrow> reconcileDaily (DEnv v) date ds w = None" using ok by (intro reconcile_plan) simp
  ultimately show ?thesis
    using row ok c unfolding materializeDailyChunk_def Let_def by (auto simp: xs_def)
qed

section \<open>The loop\<close>

lemma loop_inv:
  assumes "own_ids date w" "row_of DrDate date (Dailies w) = Some r" "daily_row_ok v date w ds n r"
    and "chunk_loop fuel (DEnv v) now ok j date (DrSum r) ds w = (err, w')"
  shows "\<exists>r' n'. own_ids date w' \<and> row_of DrDate date (Dailies w') = Some r' \<and> daily_row_ok v date w' ds n' r' \<and>
    DrPlan r' = DrPlan r \<and> (err = None \<longrightarrow> DrState r' = ''completed'') \<and>
    (\<forall>k. inst_of w k \<noteq> None \<longrightarrow> inst_of w' k = inst_of w k)"
  using assms
proof (induction fuel arbitrary: j w r n)
  case 0
  then show ?case by auto
next
  case (Suc fuel)
  show ?case
  proof (cases "materializeDailyChunk (DEnv v) now (ok j) date (DrSum r) ds w")
    case (Inl x)
    then show ?thesis using Suc.prems by auto
  next
    case (Inr y)
    obtain m fin w1 where y: "y = (m, fin, w1)" by (cases y) auto
    from chunk_cases [OF Suc.prems(1-3) Inr [unfolded y]] obtain r1 n1 where r1:
      "own_ids date w1" "row_of DrDate date (Dailies w1) = Some r1" "daily_row_ok v date w1 ds n1 r1"
      "DrSum r1 = DrSum r" "DrPlan r1 = DrPlan r" "fin \<longrightarrow> DrState r1 = ''completed''"
      "\<forall>k. inst_of w k \<noteq> None \<longrightarrow> inst_of w1 k = inst_of w k"
      by blast
    show ?thesis
    proof (cases fin)
      case True
      then show ?thesis using Suc.prems(4) Inr y r1 by auto
    next
      case False
      then have "chunk_loop fuel (DEnv v) now ok (Suc j) date (DrSum r1) ds w1 = (err, w')"
        using Suc.prems(4) Inr y r1(4) by simp
      from Suc.IH [OF r1(1-3) this] show ?thesis using r1(5,7) by auto
    qed
  qed
qed

lemma loop_completes:
  assumes "own_ids date w" "row_of DrDate date (Dailies w) = Some r" "daily_row_ok v date w ds n r" "DrCarryDone r"
    and "length ds - n + 1 < fuel"
  shows "fst (chunk_loop fuel (DEnv v) now (\<lambda>_. True) j date (DrSum r) ds w) = None"
  using assms
proof (induction fuel arbitrary: j w r n)
  case 0
  then show ?case by simp
next
  case (Suc fuel)
  obtain m fin w1 where y: "materializeDailyChunk (DEnv v) now True date (DrSum r) ds w = Inr (m, fin, w1)"
    using chunk_possible [OF Suc.prems(1-4)] by blast
  from chunk_cases [OF Suc.prems(1-3) y] obtain r1 n1 where r1:
    "own_ids date w1" "row_of DrDate date (Dailies w1) = Some r1" "daily_row_ok v date w1 ds n1 r1"
    "DrSum r1 = DrSum r" "DrCarryDone r1 = DrCarryDone r" "\<not> fin \<longrightarrow> n < n1"
    by blast
  show ?case
  proof (cases fin)
    case True
    then show ?thesis using y by simp
  next
    case False
    have "n1 \<le> length ds" using r1(3) by (simp add: daily_row_ok_def)
    then have "fst (chunk_loop fuel (DEnv v) now (\<lambda>_. True) (Suc j) date (DrSum r1) ds w1) = None"
      using Suc.IH [OF r1(1-3), of "Suc j"] Suc.prems(4,5) r1(5,6) False by simp
    then show ?thesis using y False r1(4) by simp
  qed
qed

section \<open>Attempts\<close>

lemma freeze_inv:
  assumes i: "daily_inv v date w" and n: "row_of DrDate date (Dailies w) = None"
    and f: "freezeDailyPlan v now ok date t w = (err, w')"
  shows "daily_inv v date w'"
proof -
  define c where "c = business_calendar w"
  have "w' = w \<or> carryOverWithCheckpoint (DEnv v) now ok date False w = Inr w' \<or>
    (\<exists>sha picked ex defs. plan_loop (scheduled_on v t) ex [] defs = Some picked \<and> ValidateCalendar (Loc (DEnv v)) c = None \<and>
      w' = w\<lparr>Dailies := Dailies w @ [plan_row v date sha (sort_key ID (map (\<lambda>d. freezeTime d c) picked))]\<rparr>)"
  proof (cases "definitions_of v w")
    case None
    then show ?thesis using f by (simp add: freezeDailyPlan_def Let_def split: if_splits)
  next
    case (Some x)
    obtain defs sha where x: "x = (defs, sha)" by (cases x)
    define ex where "ex = map IDefID (filter (\<lambda>i. IOrderDate i = date \<and> ICarriedFrom i = []) (Insts w))"
    show ?thesis
    proof (cases "plan_loop (scheduled_on v t) ex [] defs")
      case None
      then show ?thesis using f Some x unfolding freezeDailyPlan_def Let_def c_def [symmetric] ex_def [symmetric]
        by (auto split: if_splits sum.splits)
    next
      case (Some picked)
      have "w' = w \<or> carryOverWithCheckpoint (DEnv v) now ok date False w = Inr w' \<or>
        (ValidateCalendar (Loc (DEnv v)) c = None \<and>
         w' = w\<lparr>Dailies := Dailies w @ [plan_row v date sha (sort_key ID (map (\<lambda>d. freezeTime d c) picked))]\<rparr>)"
        using f n \<open>definitions_of v w = Some x\<close> x Some
        unfolding freezeDailyPlan_def Let_def c_def [symmetric] ex_def [symmetric]
        by (simp split: if_splits sum.splits)
      then show ?thesis using Some by blast
    qed
  qed
  then consider "w' = w" | "carryOverWithCheckpoint (DEnv v) now ok date False w = Inr w'"
    | sha picked ex defs where "plan_loop (scheduled_on v t) ex [] defs = Some picked" "ValidateCalendar (Loc (DEnv v)) c = None"
      "w' = w\<lparr>Dailies := Dailies w @ [plan_row v date sha (sort_key ID (map (\<lambda>d. freezeTime d c) picked))]\<rparr>"
    by blast
  then show ?thesis
  proof cases
    case 1
    then show ?thesis using i by simp
  next
    case 2
    then show ?thesis using carry_inv [OF _ i] by blast
  next
    case 3
    define ds where "ds = sort_key ID (map (\<lambda>d. freezeTime d c) picked)"
    define r where "r = plan_row v date sha ds"
    have "map ID (map (\<lambda>d. freezeTime d c) picked) = map ID picked" by (simp add: freezeTime_def o_def)
    then have d: "distinct (map ID ds)" using plan_loop_ids [OF 3(1)] by (simp only: ds_def distinct_sort_key)
    have "ID d \<noteq> [] \<and> BusinessTime d = Some c" if "d \<in> set ds" for d
      using that plan_loop_ids [OF 3(1)] by (auto simp: ds_def freezeTime_def)
    then have g: "good_plan v date r ds" using d 3(2) by (auto simp: good_plan_def r_def plan_row_def)
    have row: "row_of DrDate date (Dailies w') = Some r"
      using n by (simp add: 3(3) r_def [symmetric] ds_def [symmetric] row_of_append row_of_Cons) (simp add: r_def plan_row_def)
    have l: "ledger_of w' date = []" "own_ids date w'"
      using i n own_ids_frame [of w' w date] by (simp_all add: 3(3) ledger_of_def daily_inv_def)
    have "daily_row_ok v date w' ds 0 r" using g l(1) by (simp add: daily_row_ok_def) (simp add: r_def plan_row_def)
    then show ?thesis using row l(2) by (auto simp: daily_inv_def)
  qed
qed

lemma mark_inv:
  assumes "daily_inv v date w"
  shows "daily_inv v date (mark_failed mark date w) \<and>
    map_option DrPlan (row_of DrDate date (Dailies (mark_failed mark date w))) = map_option DrPlan (row_of DrDate date (Dailies w))"
proof (cases mark)
  case True
  define f :: "DailyRunRow \<Rightarrow> DailyRunRow" where "f = (\<lambda>r. if can_resume r then r\<lparr>DrState := ''failed''\<rparr> else r)"
  have fd: "\<And>r. DrDate (f r) = DrDate r" by (simp add: f_def)
  have w: "mark_failed mark date w = upd_daily date f w" using True by (simp add: mark_failed_def f_def)
  have ok: "daily_row_ok v date (upd_daily date f w) ds n (f r)" if "daily_row_ok v date w ds n r" for ds n r
    using that by (auto simp: daily_row_ok_def good_plan_def f_def)
  have "daily_inv v date (upd_daily date f w)"
    using assms ok unfolding daily_inv_def row_of_upd_daily [OF fd]
    by (cases "row_of DrDate date (Dailies w)") (simp, simp, blast)
  moreover have "\<And>r. DrPlan (f r) = DrPlan r" by (simp add: f_def)
  ultimately show ?thesis unfolding w row_of_upd_daily [OF fd] by (simp add: option.map_comp o_def)
qed (use assms in \<open>simp add: mark_failed_def\<close>)

lemma plan_valid_good: "good_plan v date r ds \<Longrightarrow> plan_valid v date r = Inr ds"
  by (auto simp: good_plan_def plan_valid_def list_ex_iff)

lemma resume_inv:
  assumes i: "daily_inv v date w" and row: "row_of DrDate date (Dailies w) = Some r"
    and f: "resume_daily v now ok mark date r w = (err, w')"
  shows "daily_inv v date w' \<and> (\<exists>r'. row_of DrDate date (Dailies w') = Some r' \<and> DrPlan r' = DrPlan r \<and>
    (err = None \<longrightarrow> DrState r' = ''completed''))"
proof -
  obtain ds n where r: "daily_row_ok v date w ds n r" using i row by (auto simp: daily_inv_def)
  have pv: "plan_valid v date r = Inr ds" using r by (simp add: daily_row_ok_def plan_valid_good)
  define out where "out = (case carryOverWithCheckpoint (DEnv v) now (ok 1) date True w of
      Inl x \<Rightarrow> (Some x, w) | Inr w1 \<Rightarrow> chunk_loop (length ds + 2) (DEnv v) now ok 2 date (DrSum r) ds w1)"
  have main: "daily_inv v date (snd out) \<and> (\<exists>r'. row_of DrDate date (Dailies (snd out)) = Some r' \<and> DrPlan r' = DrPlan r \<and>
    (fst out = None \<longrightarrow> DrState r' = ''completed''))"
  proof (cases "carryOverWithCheckpoint (DEnv v) now (ok 1) date True w")
    case (Inl x)
    then show ?thesis using i row by (simp add: out_def)
  next
    case (Inr w1)
    from carry_inv [OF Inr i] row obtain r1 where r1: "daily_inv v date w1" "row_of DrDate date (Dailies w1) = Some r1"
      "DrPlan r1 = DrPlan r" "DrSum r1 = DrSum r" by blast
    obtain ds1 n1 where ok1: "daily_row_ok v date w1 ds1 n1 r1" using r1(1,2) by (auto simp: daily_inv_def)
    have "ds1 = ds" using ok1 r r1(3) by (simp add: daily_row_ok_def good_plan_def)
    then have o: "own_ids date w1" "daily_row_ok v date w1 ds n1 r1" using r1(1) ok1 by (simp_all add: daily_inv_def)
    obtain err2 w2 where l: "chunk_loop (length ds + 2) (DEnv v) now ok 2 date (DrSum r1) ds w1 = (err2, w2)" by fastforce
    from loop_inv [OF o(1) r1(2) o(2) l] obtain r' n' where r': "own_ids date w2" "row_of DrDate date (Dailies w2) = Some r'"
      "daily_row_ok v date w2 ds n' r'" "DrPlan r' = DrPlan r1" "err2 = None \<longrightarrow> DrState r' = ''completed''" by blast
    have "daily_inv v date w2" using r'(1-3) unfolding daily_inv_def by (simp, blast)
    moreover have "out = (err2, w2)" using Inr l r1(4) by (simp add: out_def del: chunk_loop.simps)
    ultimately show ?thesis using r' r1(3) by simp
  qed
  have "(err, w') = (case fst out of None \<Rightarrow> (None, snd out) | Some x \<Rightarrow> (Some x, mark_failed mark date (snd out)))"
    using f unfolding resume_daily_def pv sum.case(2) out_def [symmetric] by (simp add: case_prod_unfold)
  then show ?thesis using main mark_inv [of v date "snd out" mark] by (auto split: option.splits)
qed

lemma resume_completes:
  assumes i: "daily_inv v date w" and row: "row_of DrDate date (Dailies w) = Some r"
  shows "fst (resume_daily v now (\<lambda>_. True) mark date r w) = None"
proof -
  obtain ds n where r: "daily_row_ok v date w ds n r" using i row by (auto simp: daily_inv_def)
  have pv: "plan_valid v date r = Inr ds" using r by (simp add: daily_row_ok_def plan_valid_good)
  obtain w1 where c: "carryOverWithCheckpoint (DEnv v) now True date True w = Inr w1"
  proof -
    have "\<exists>w1. applyCarryDaily now True date plan True w = Inr w1" for plan using row by (simp add: applyCarryDaily_def)
    then have "\<exists>w1. carryOverWithCheckpoint (DEnv v) now True date True w = Inr w1"
      by (simp add: carryOverWithCheckpoint_def Let_def)
    then show thesis using that by blast
  qed
  from carry_inv [OF c i] row obtain r1 where r1: "daily_inv v date w1" "row_of DrDate date (Dailies w1) = Some r1"
    "DrPlan r1 = DrPlan r" "DrSum r1 = DrSum r" "DrCarryDone r1" by blast
  obtain ds1 n1 where ok1: "daily_row_ok v date w1 ds1 n1 r1" using r1(1,2) by (auto simp: daily_inv_def)
  have "ds1 = ds" using ok1 r r1(3) by (simp add: daily_row_ok_def good_plan_def)
  then have o: "own_ids date w1" "daily_row_ok v date w1 ds n1 r1" using r1(1) ok1 by (simp_all add: daily_inv_def)
  have "fst (chunk_loop (length ds + 2) (DEnv v) now (\<lambda>_. True) 2 date (DrSum r1) ds w1) = None"
    by (rule loop_completes [OF o(1) r1(2) o(2) r1(5)]) simp
  then show ?thesis
    unfolding resume_daily_def pv c sum.case(2) r1(4) by (simp add: case_prod_unfold del: chunk_loop.simps)
qed

lemma materialize_inv:
  assumes i: "daily_inv v date w" and f: "MaterializeDaily v now ok mark date w = (err, w')"
  shows "daily_inv v date w' \<and> (\<forall>r. row_of DrDate date (Dailies w) = Some r \<longrightarrow>
    (\<exists>r'. row_of DrDate date (Dailies w') = Some r' \<and> DrPlan r' = DrPlan r))"
proof (cases "ParseDate date")
  case None
  then show ?thesis using f i by (simp add: MaterializeDaily_def)
next
  case (Some t)
  obtain e1 w1 where w1: "(case row_of DrDate date (Dailies w) of
      None \<Rightarrow> freezeDailyPlan v now (ok 0) date t w | Some _ \<Rightarrow> (None, w)) = (e1, w1)" by fastforce
  have i1: "daily_inv v date w1"
    using w1 i freeze_inv [OF i, of now "ok 0" t e1 w1] by (auto split: option.splits)
  have keep: "w1 = w" if "row_of DrDate date (Dailies w) = Some r" for r using w1 that by simp
  have "(err, w') = (case e1 of Some x \<Rightarrow> (Some x, w1) | None \<Rightarrow> (case row_of DrDate date (Dailies w1) of
       None \<Rightarrow> (Some Storage, w1)
     | Some r \<Rightarrow> if \<not> can_resume r then (None, w1) else resume_daily v now ok mark date r w1))"
    using f Some w1 by (simp add: MaterializeDaily_def)
  then show ?thesis
    using i1 keep resume_inv [OF i1, of _ now ok mark err w'] by (auto split: option.splits if_splits)
qed

text \<open>A call with its own definitions, clock and failures.\<close>

record daily_call =
  CallSource :: source
  CallStore :: "calLookup option"
  CallNow :: int
  CallOk :: "nat \<Rightarrow> bool"
  CallMark :: bool

definition attempt :: "daily_env \<Rightarrow> string \<Rightarrow> daily_call \<Rightarrow> World \<Rightarrow> World" where
  "attempt v date c w =
     snd (MaterializeDaily (v\<lparr>DSource := CallSource c, DStore := CallStore c\<rparr>) (CallNow c) (CallOk c) (CallMark c) date w)"

lemma daily_inv_source: "daily_inv (v\<lparr>DSource := s, DStore := st\<rparr>) date w = daily_inv v date w"
proof -
  have "daily_row_ok (v\<lparr>DSource := s, DStore := st\<rparr>) date w = daily_row_ok v date w"
    by (intro ext) (simp add: daily_row_ok_def good_plan_def)
  then show ?thesis by (simp only: daily_inv_def)
qed

lemma attempts_inv:
  "daily_inv v date w \<Longrightarrow> daily_inv v date (fold (attempt v date) cs w) \<and>
   (\<forall>r. row_of DrDate date (Dailies w) = Some r \<longrightarrow>
     (\<exists>r'. row_of DrDate date (Dailies (fold (attempt v date) cs w)) = Some r' \<and> DrPlan r' = DrPlan r))"
proof (induction cs arbitrary: w)
  case Nil
  then show ?case by simp
next
  case (Cons c cs)
  define v' where "v' = v\<lparr>DSource := CallSource c, DStore := CallStore c\<rparr>"
  obtain err w1 where m: "MaterializeDaily v' (CallNow c) (CallOk c) (CallMark c) date w = (err, w1)" by fastforce
  have i: "daily_inv v' date w" using Cons.prems by (simp add: v'_def daily_inv_source)
  have w1: "attempt v date c w = w1" using m by (simp add: attempt_def v'_def)
  from materialize_inv [OF i m] have n: "daily_inv v date w1" by (simp add: v'_def daily_inv_source)
  show ?case using Cons.IH [OF n] materialize_inv [OF i m] unfolding fold_simps w1 by fastforce
qed

lemma map_nth_ID: "map (\<lambda>i. ID (ds ! i)) [0..<length ds] = map ID ds"
  by (rule nth_equalityI) simp_all

definition untouched :: "string \<Rightarrow> World \<Rightarrow> bool" where
  "untouched date w \<longleftrightarrow> row_of DrDate date (Dailies w) = None \<and>
     (\<forall>d. inst_of w (daily_id d date) = None \<and> (\<forall>l\<in>set (Ledger w). LrInst l \<noteq> daily_id d date)) \<and> ledger_of w date = []"

lemma untouched_inv: "untouched date w \<Longrightarrow> daily_inv v date w"
proof -
  assume u: "untouched date w"
  then have "own_ids date w" by (auto simp: untouched_def own_ids_def)
  then show ?thesis using u by (simp only: untouched_def daily_inv_def option.case simp_thms)
qed

section \<open>Properties\<close>

definition daily_demo :: daily_env where
  "daily_demo = \<lparr>DEnv = \<lparr>Loc = (\<lambda>_. Some utc_zone), Digest = (\<lambda>_. []),
     Profile = \<lparr>Production = False, ControlPlane = [], ServerAgent = True\<rparr>, DemoMode = True,
     HasAgent = (\<lambda>_ _ _. False), PersistOk = (\<lambda>_. True)\<rparr>,
     DSource = FromMemory, DStore = None, PlanDigest = (\<lambda>_ _ _. [])\<rparr>"

definition new_day_world :: World where
  "new_day_world = \<lparr>Insts = [], RunRows = [], Events = [], FiresOf = [], PoolOf = [], Ledger = [], Dailies = [],
     SettingRows = [], Tracker = NewResourceTracker, RunningGuard = [], WaitReason = (\<lambda>_. None),
     NoAgentAt = (\<lambda>_. None),
     LiveDefs = map (\<lambda>k. zero_def\<lparr>ID := k, ScheduleOf := zero_schedule\<lparr>Enabled := True\<rparr>\<rparr>) [''B'', ''A''], Spawned = []\<rparr>"

text \<open>The first attempt dies while its first chunk is written; the second finds no definitions any more.\<close>

definition crashed_call :: daily_call where
  "crashed_call = \<lparr>CallSource = FromMemory, CallStore = None, CallNow = 0, CallOk = (\<lambda>n. n < 2), CallMark = False\<rparr>"

definition later_call :: daily_call where
  "later_call = \<lparr>CallSource = FromGit (Some ([], [])), CallStore = None, CallNow = 0, CallOk = (\<lambda>_. True), CallMark = True\<rparr>"

abbreviation demo_day :: string where "demo_day \<equiv> ''2026-07-16''"

text \<open>
  The turn of the day moves an order at most from the previous daily to the new one: it keeps its
  id, status, attempts, snapshot and its origin date, under which its conditions stay scoped.
\<close>

theorem carry_over_keeps_origin:
  assumes "keys_distinct IId (Insts w)" and "carryOverWithCheckpoint e now ok date cp w = Inr w'"
    and "inst_of w k = Some i"
  shows "\<exists>i'. inst_of w' k = Some i' \<and> inst_odate i' = inst_odate i \<and> IStatus i' = IStatus i \<and>
    IAttempts i' = IAttempts i \<and> ISnapshot i' = ISnapshot i \<and>
    (i' = i \<or> IOrderDate i = previous_daily w date \<and> IOrderDate i' = date \<and> ICarriedAt i' = Some now \<and>
      carries e w (previous_daily w date) date i)"
proof -
  from carry_inst_cases [OF assms] show ?thesis
  proof (elim disjE conjE)
    assume m: "inst_of w' k = Some (i\<lparr>IOrderDate := date, ICarriedFrom := inst_odate i, ICarriedAt := Some now\<rparr>)"
      and p: "IOrderDate i = previous_daily w date" "previous_daily w date \<noteq> []" "carries e w (previous_daily w date) date i"
    have "inst_odate i \<noteq> []" using p by (auto simp: inst_odate_def)
    then show ?thesis using m p by (intro exI conjI) (assumption, simp_all add: inst_odate_def)
  qed auto
qed

definition held_yesterday :: World where
  "held_yesterday = new_day_world\<lparr>Insts := [(daily_instance (DEnv daily_demo) ''2026-07-15''
     (zero_def\<lparr>ID := ''A''\<rparr>))\<lparr>IStatus := StatusHeld\<rparr>]\<rparr>"

theorem carry_over_keeps_origin_witness:
  "\<exists>w' i'. carryOverWithCheckpoint (DEnv daily_demo) 7 True demo_day False held_yesterday = Inr w' \<and>
     inst_of w' ''A-2026-07-15'' = Some i' \<and> inst_odate i' = ''2026-07-15'' \<and> IStatus i' = StatusHeld"
proof -
  have d: "keys_distinct IId (Insts held_yesterday)" by (simp add: keys_distinct_def held_yesterday_def)
  obtain w' where c: "carryOverWithCheckpoint (DEnv daily_demo) 7 True demo_day False held_yesterday = Inr w'"
  proof -
    have "\<exists>w'. carryOverWithCheckpoint (DEnv daily_demo) 7 True demo_day False held_yesterday = Inr w'"
      by (simp add: carryOverWithCheckpoint_def applyCarryDaily_def Let_def)
    then show thesis using that by blast
  qed
  obtain i where i: "inst_of held_yesterday ''A-2026-07-15'' = Some i" "inst_odate i = ''2026-07-15''" "IStatus i = StatusHeld"
    by (simp add: held_yesterday_def inst_of_def row_of_Cons daily_instance_def daily_id_def inst_odate_def)
  show ?thesis using carry_over_keeps_origin [OF d c i(1)] c i(2,3) by auto
qed

text \<open>
  C11. Whatever sequence of attempts is made on a date, each interrupted at any transaction and with
  whatever definitions are current, the ledger of the date is at every moment exactly the first
  orders of the plan frozen by the first successful attempt, in order, each once, and the checkpoint
  counts them.
\<close>

theorem daily_ledger_is_plan_prefix:
  assumes "untouched date w" and "row_of DrDate date (Dailies (fold (attempt v date) cs w)) = Some r"
  shows "let w1 = fold (attempt v date) cs w; w2 = fold (attempt v date) cs' w1 in
    \<exists>ds n r'. DrPlan r = Some ds \<and> distinct (map ID ds) \<and> row_of DrDate date (Dailies w2) = Some r' \<and>
      DrPlan r' = Some ds \<and> DrCheckpoint r' = int n \<and> n \<le> length ds \<and>
      map (\<lambda>l. (LrOrdinal l, LrDef l)) (ledger_of w2 date) = map (\<lambda>i. (int i, ID (ds ! i))) [0..<n] \<and>
      (DrState r' = ''completed'' \<longrightarrow> n = length ds)"
proof -
  define w1 where "w1 = fold (attempt v date) cs w"
  define w2 where "w2 = fold (attempt v date) cs' w1"
  have i1: "daily_inv v date w1" unfolding w1_def using attempts_inv [OF untouched_inv [OF assms(1)]] by blast
  have row: "row_of DrDate date (Dailies w1) = Some r" using assms(2) by (simp add: w1_def)
  from attempts_inv [OF i1, of cs'] row obtain r' where r': "daily_inv v date w2"
    "row_of DrDate date (Dailies w2) = Some r'" "DrPlan r' = DrPlan r" unfolding w2_def by blast
  obtain ds n where ok: "daily_row_ok v date w2 ds n r'" using r'(1,2) by (auto simp: daily_inv_def)
  have "map (\<lambda>l. (LrOrdinal l, LrDef l)) (ledger_of w2 date) = map (\<lambda>i. (int i, ID (ds ! i))) [0..<n]"
    using ok by (simp add: daily_row_ok_def plan_rows_def o_def)
  then have "DrPlan r = Some ds \<and> distinct (map ID ds) \<and> row_of DrDate date (Dailies w2) = Some r' \<and>
      DrPlan r' = Some ds \<and> DrCheckpoint r' = int n \<and> n \<le> length ds \<and>
      map (\<lambda>l. (LrOrdinal l, LrDef l)) (ledger_of w2 date) = map (\<lambda>i. (int i, ID (ds ! i))) [0..<n] \<and>
      (DrState r' = ''completed'' \<longrightarrow> n = length ds)"
    using ok r' by (simp add: daily_row_ok_def good_plan_def)
  then show ?thesis unfolding Let_def w1_def [symmetric] w2_def [symmetric] by blast
qed

lemma new_day_untouched: "untouched demo_day new_day_world"
  by (simp add: untouched_def new_day_world_def inst_of_def ledger_of_def)

lemma crashed_row: "map_option (\<lambda>r. (DrCheckpoint r, map_option (map ID) (DrPlan r)))
    (row_of DrDate demo_day (Dailies (attempt daily_demo demo_day crashed_call new_day_world))) = Some (0, Some [''A'', ''B''])"
  by code_simp

theorem daily_ledger_is_plan_prefix_witness:
  "\<exists>n r'. row_of DrDate demo_day (Dailies (attempt daily_demo demo_day later_call
      (attempt daily_demo demo_day crashed_call new_day_world))) = Some r' \<and> DrCheckpoint r' = int n \<and>
    map LrDef (ledger_of (attempt daily_demo demo_day later_call (attempt daily_demo demo_day crashed_call new_day_world)) demo_day)
      = take n [''A'', ''B'']"
proof -
  define w1 where "w1 = fold (attempt daily_demo demo_day) [crashed_call] new_day_world"
  define w2 where "w2 = fold (attempt daily_demo demo_day) [later_call] w1"
  obtain r where r: "row_of DrDate demo_day (Dailies w1) = Some r" "map_option (map ID) (DrPlan r) = Some [''A'', ''B'']"
    using crashed_row by (auto simp: w1_def)
  from daily_ledger_is_plan_prefix [OF new_day_untouched r(1) [unfolded w1_def], of "[later_call]"]
  obtain ds n r' where ds: "DrPlan r = Some ds" "row_of DrDate demo_day (Dailies w2) = Some r'" "DrCheckpoint r' = int n"
    "n \<le> length ds" "map (\<lambda>l. (LrOrdinal l, LrDef l)) (ledger_of w2 demo_day) = map (\<lambda>i. (int i, ID (ds ! i))) [0..<n]"
    unfolding Let_def w1_def [symmetric] w2_def [symmetric] by blast
  have "map LrDef (ledger_of w2 demo_day) = map (\<lambda>i. ID (ds ! i)) [0..<n]"
    using arg_cong [OF ds(5), of "map snd"] by (simp add: o_def)
  also have "\<dots> = take n (map ID ds)" using ds(4) by (intro nth_equalityI) simp_all
  finally show ?thesis using ds(1-3) r(2) by (auto simp: w2_def w1_def)
qed

text \<open>
  C22. After any interrupted attempts on a date whose plan is frozen, one attempt whose transactions
  commit completes the daily: the ledger is then the whole plan, no order missing and none twice.
\<close>

theorem daily_resume_completes:
  assumes "untouched date w" and "row_of DrDate date (Dailies (fold (attempt v date) cs w)) = Some r"
    and "ParseDate date = Some t"
  shows "let (err, w2) = MaterializeDaily v now (\<lambda>_. True) mark date (fold (attempt v date) cs w) in
    err = None \<and> (\<exists>ds r'. DrPlan r = Some ds \<and> row_of DrDate date (Dailies w2) = Some r' \<and>
      DrState r' = ''completed'' \<and> map LrDef (ledger_of w2 date) = map ID ds)"
proof -
  define w1 where "w1 = fold (attempt v date) cs w"
  have i1: "daily_inv v date w1" unfolding w1_def using attempts_inv [OF untouched_inv [OF assms(1)]] by blast
  have row: "row_of DrDate date (Dailies w1) = Some r" using assms(2) by (simp add: w1_def)
  obtain err w2 where m: "MaterializeDaily v now (\<lambda>_. True) mark date w1 = (err, w2)" by fastforce
  have d: "err = None \<and> (\<exists>r'. row_of DrDate date (Dailies w2) = Some r' \<and> DrState r' = ''completed'')"
  proof (cases "can_resume r")
    case True
    then have "resume_daily v now (\<lambda>_. True) mark date r w1 = (err, w2)"
      using m row assms(3) by (simp add: MaterializeDaily_def)
    then show ?thesis using resume_completes [OF i1 row, of now mark] resume_inv [OF i1 row, of now "\<lambda>_. True" mark err w2] by auto
  next
    case False
    then have "err = None \<and> w2 = w1" using m row assms(3) by (simp add: MaterializeDaily_def)
    moreover have "DrState r \<noteq> ''legacy''" using i1 row by (auto simp: daily_inv_def daily_row_ok_def good_plan_def)
    ultimately show ?thesis using False row by (simp add: can_resume_def)
  qed
  from materialize_inv [OF i1 m] row obtain r' where r': "daily_inv v date w2"
    "row_of DrDate date (Dailies w2) = Some r'" "DrPlan r' = DrPlan r" by blast
  obtain ds n where ok: "daily_row_ok v date w2 ds n r'" using r'(1,2) by (auto simp: daily_inv_def)
  have "map LrDef (ledger_of w2 date) = map ID ds"
    using ok d r'(2) by (simp add: daily_row_ok_def plan_rows_def o_def map_nth_ID)
  then show ?thesis using ok d r' unfolding w1_def [symmetric] m by (auto simp: daily_row_ok_def good_plan_def)
qed

theorem daily_resume_completes_witness:
  "\<exists>r'. row_of DrDate demo_day (Dailies (snd (MaterializeDaily daily_demo 0 (\<lambda>_. True) True demo_day
      (attempt daily_demo demo_day crashed_call new_day_world)))) = Some r' \<and> DrState r' = ''completed''"
proof -
  obtain r where r: "row_of DrDate demo_day (Dailies (fold (attempt daily_demo demo_day) [crashed_call] new_day_world)) = Some r"
    using crashed_row by auto
  have d: "ParseDate demo_day = Some \<lparr>dyear = 2026, dmonth = 7, dday = 16\<rparr>" by code_simp
  show ?thesis
    using daily_resume_completes [OF new_day_untouched r d, of 0 True] by (auto split: prod.splits)
qed

end
