(* ===== verification/Execution.thy ===== *)
theory Execution
  imports Gate "HOL-Library.Product_Lexorder"
begin

text \<open>
  The execution engine of \<open>server/internal/execution\<close> (protocol v2): orders and attempts
  (\<open>model.go\<close>, \<open>orders.go\<close>, \<open>runtime.go\<close>).

  Every operation is one transaction under the global queue lock (\<open>transaction.go\<close>), so an
  operation is a function from the store to an error (rolled back) or a new store.  The tables are
  lists of rows.  The hooks \<open>Transition\<close> and \<open>Prepare\<close> run inside the transaction: they see all tables as they
  are at that moment and change the component \<open>Business\<close>; the hooks, the checksums and the identifiers drawn at random are parameters.
\<close>

section \<open>State\<close>

datatype order_state = OReady | OActive | OUncertain | OSucceeded | OFailed | OCancelled

datatype attempt_state =
  DispatchPending | Dispatching | Accepted | Running | CancelRequested | Uncertain
| Succeeded | Failed | Cancelled

datatype box_state = Pending | Leased | Paused | Acked | BoxCancelled

datatype msg_kind = DispatchMsg | CancelMsg

definition ProtocolVersion :: int where "ProtocolVersion = 2"
definition Capability :: string where "Capability = ''EXECUTION_V2''"
definition MaxOutputBytes :: int where "MaxOutputBytes = 5242880"

record LabOrder =
  LoId :: string
  LoSource :: string
  LoKey :: string
  LoSnapshot :: snapshot
  LoSum :: string
  LoEnv :: string
  LoState :: order_state
  LoCurrent :: string
  LoAttempt :: int
  LoFence :: int
  LoRuntime :: bool

record AttemptRow =
  AtExec :: string
  AtOrder :: string
  AtNumber :: int
  AtFence :: int
  AtAgent :: string
  AtKey :: string
  AtIntent :: string
  AtState :: attempt_state
  AtLease :: int
  AtAccepted :: int
  AtStarted :: int
  AtFinished :: int
  AtExit :: "int option"
  AtOutput :: string
  AtSum :: string
  AtBytes :: int
  AtSeq :: int
  AtContact :: int
  AtReason :: string
  AtResolvedAt :: int
  AtResolvedBy :: string

record Envelope =
  MsgProtocol :: int
  MsgKind :: msg_kind
  MsgId :: string
  MsgExec :: string
  MsgOrder :: string
  MsgAttempt :: int
  MsgAgent :: string
  MsgFence :: int
  MsgKey :: string
  MsgDef :: "JobDefinition option"

record OutboxRow =
  ObId :: string
  ObExec :: string
  ObKind :: msg_kind
  ObState :: box_state
  ObPayload :: Envelope
  ObDeliveries :: nat
  ObLease :: int
  ObNext :: int
  ObCreated :: int

record OutputRow =
  OrExec :: string
  OrSeq :: int
  OrChunk :: string
  OrSum :: string

record DecisionRow =
  DcKey :: string
  DcExec :: string
  DcActor :: string
  DcDecision :: string
  DcReason :: string

record Principal =
  PrAgent :: string
  PrEnv :: string
  PrCaps :: string
  PrInternal :: bool

text \<open>What an order is created from: the instance, its ledger row and the state of its daily.\<close>

record SourceRow =
  SrDef :: string
  SrStatus :: InstanceStatus
  SrSnapshot :: snapshot
  SrExpected :: string
  SrDaily :: "string option"

record 'b store =
  Orders :: "LabOrder list"
  Attempts :: "AttemptRow list"
  Outbox :: "OutboxRow list"
  Outputs :: "OutputRow list"
  ExecEvents :: "(string \<times> string) list"
  Decisions :: "DecisionRow list"
  RuntimeOrders :: "(string \<times> string) list"
  Principals :: "Principal list"
  Sources :: "string \<Rightarrow> SourceRow option"
  Business :: 'b

record Identity =
  IdProtocol :: int
  IdExec :: string
  IdFence :: int
  IdAgent :: string

record ExecResult =
  ReIdentity :: Identity
  ReExit :: int
  ReOutput :: string

datatype exec_error = ErrConflict | ErrCapacity | ErrInvalid | ErrNotFound | ErrOutputLimit | ErrStorage

record 'b engine =
  MaxPending :: int
  DeliveryLease :: int
  ExecutionLease :: int
  MaxDeliveries :: nat
  Transition :: "('b store \<Rightarrow> LabOrder \<Rightarrow> AttemptRow \<Rightarrow> string \<Rightarrow> ExecResult option \<Rightarrow> exec_error + 'b) option"
  Prepare :: "('b store \<Rightarrow> LabOrder \<Rightarrow> JobDefinition \<Rightarrow> exec_error + JobDefinition) option"
  OpenEffects :: "'b \<Rightarrow> int"
  SnapSum :: "snapshot \<Rightarrow> string"
  ChunkSum :: "string \<Rightarrow> string"
  ResultSum :: "int \<Rightarrow> string \<Rightarrow> string"
  Zones :: "string \<Rightarrow> zone option"

section \<open>Helpers\<close>

definition exec_terminal :: "attempt_state \<Rightarrow> bool" where
  "exec_terminal st \<longleftrightarrow> st = Succeeded \<or> st = Failed \<or> st = Cancelled"

definition order_terminal :: "order_state \<Rightarrow> bool" where
  "order_terminal st \<longleftrightarrow> st = OSucceeded \<or> st = OFailed \<or> st = OCancelled"

definition validKey :: "string \<Rightarrow> bool" where
  "validKey s \<longleftrightarrow> length s > 0 \<and> length s \<le> 128"

definition order_of :: "'b store \<Rightarrow> string \<Rightarrow> LabOrder option" where
  "order_of s k = row_of LoId k (Orders s)"

definition attempt_of :: "'b store \<Rightarrow> string \<Rightarrow> AttemptRow option" where
  "attempt_of s k = row_of AtExec k (Attempts s)"

definition upd_order :: "string \<Rightarrow> (LabOrder \<Rightarrow> LabOrder) \<Rightarrow> 'b store \<Rightarrow> 'b store" where
  "upd_order k f s = s\<lparr>Orders := update_where (\<lambda>x. LoId x = k) f (Orders s)\<rparr>"

definition upd_attempt :: "string \<Rightarrow> (AttemptRow \<Rightarrow> AttemptRow) \<Rightarrow> 'b store \<Rightarrow> 'b store" where
  "upd_attempt k f s = s\<lparr>Attempts := update_where (\<lambda>a. AtExec a = k) f (Attempts s)\<rparr>"

definition upd_box :: "(OutboxRow \<Rightarrow> bool) \<Rightarrow> (OutboxRow \<Rightarrow> OutboxRow) \<Rightarrow> 'b store \<Rightarrow> 'b store" where
  "upd_box p f s = s\<lparr>Outbox := update_where p f (Outbox s)\<rparr>"

definition lockedAttempt :: "'b store \<Rightarrow> string \<Rightarrow> (LabOrder \<times> AttemptRow) option" where
  "lockedAttempt s k =
     (case attempt_of s k of
        None \<Rightarrow> None
      | Some a \<Rightarrow> (case order_of s (AtOrder a) of None \<Rightarrow> None | Some ord \<Rightarrow> Some (ord, a)))"

definition identityOK :: "AttemptRow \<Rightarrow> Identity \<Rightarrow> bool" where
  "identityOK a i \<longleftrightarrow>
     IdProtocol i = ProtocolVersion \<and> IdExec i = AtExec a \<and> IdFence i = AtFence a \<and> IdAgent i = AtAgent a"

definition is_current :: "LabOrder \<Rightarrow> AttemptRow \<Rightarrow> bool" where
  "is_current ord a \<longleftrightarrow> LoCurrent ord = AtExec a \<and> LoFence ord = AtFence a"

definition exec_event :: "string \<Rightarrow> string \<Rightarrow> 'b store \<Rightarrow> 'b store" where
  "exec_event k kind s =
     (if (k, kind) \<in> set (ExecEvents s) then s else s\<lparr>ExecEvents := ExecEvents s @ [(k, kind)]\<rparr>)"

definition exec_transition ::
  "'b engine \<Rightarrow> LabOrder \<Rightarrow> AttemptRow \<Rightarrow> string \<Rightarrow> ExecResult option \<Rightarrow> 'b store \<Rightarrow> exec_error + 'b store" where
  "exec_transition e ord a kind r s =
     (if LoRuntime ord then
        (case Transition e of
           None \<Rightarrow> Inl ErrConflict
         | Some h \<Rightarrow> (case h s ord a kind r of
                       Inl x \<Rightarrow> Inl x | Inr b \<Rightarrow> Inr (s\<lparr>Business := b\<rparr>)))
      else Inr s)"

record Receipt =
  RcReconciled :: bool
  RcAccepted :: bool
  RcDuplicate :: bool
  RcExec :: string
  RcState :: "attempt_state option"
  RcCurrent :: bool
  RcStart :: bool

definition receipt :: "string \<Rightarrow> bool \<Rightarrow> Receipt" where
  "receipt k dup = \<lparr>RcReconciled = False, RcAccepted = True, RcDuplicate = dup, RcExec = k,
     RcState = None, RcCurrent = False, RcStart = False\<rparr>"

definition phaseReceipt :: "LabOrder \<Rightarrow> AttemptRow \<Rightarrow> bool \<Rightarrow> Receipt" where
  "phaseReceipt ord a dup =
     (receipt (AtExec a) dup)\<lparr>RcReconciled := AtResolvedAt a \<noteq> 0 \<and> exec_terminal (AtState a),
        RcState := Some (AtState a), RcCurrent := is_current ord a,
        RcStart := is_current ord a \<and> AtState a = Running \<and> AtStarted a \<noteq> 0\<rparr>"

section \<open>Orders\<close>

definition frozen_valid :: "'b engine \<Rightarrow> SourceRow \<Rightarrow> JobDefinition option" where
  "frozen_valid e r =
     (case SrSnapshot r of
        Frozen d \<Rightarrow>
          if ID d = [] \<or> JobType d = [] \<or> ID d \<noteq> SrDef r \<or>
             (case BusinessTime d of None \<Rightarrow> True | Some c \<Rightarrow> ValidateCalendar (Zones e) c \<noteq> None) \<or>
             (SrExpected r \<noteq> [] \<and> SrExpected r \<noteq> SnapSum e (SrSnapshot r))
          then None else Some d
      | _ \<Rightarrow> None)"

definition daily_open :: "SourceRow \<Rightarrow> bool" where
  "daily_open r = (case SrDaily r of None \<Rightarrow> False | Some st \<Rightarrow> st \<noteq> ''completed'' \<and> st \<noteq> ''legacy'')"

definition new_order :: "'b engine \<Rightarrow> string \<Rightarrow> string \<Rightarrow> string \<Rightarrow> snapshot \<Rightarrow> string \<Rightarrow> bool \<Rightarrow> LabOrder" where
  "new_order e nid src key snap envName rt =
     \<lparr>LoId = nid, LoSource = src, LoKey = key, LoSnapshot = snap, LoSum = SnapSum e snap, LoEnv = envName,
      LoState = OReady, LoCurrent = [], LoAttempt = 0, LoFence = 0, LoRuntime = rt\<rparr>"

text \<open>\<open>INSERT .. ON CONFLICT(request_key) DO NOTHING\<close>; a repeated id is an error of the store.\<close>

definition insert_order_row :: "LabOrder \<Rightarrow> 'b store \<Rightarrow> exec_error + 'b store" where
  "insert_order_row ord s =
     (if row_of LoKey (LoKey ord) (Orders s) \<noteq> None then Inr s
      else if order_of s (LoId ord) \<noteq> None then Inl ErrStorage
      else Inr (s\<lparr>Orders := Orders s @ [ord]\<rparr>))"

definition CreateOrder ::
  "'b engine \<Rightarrow> string \<Rightarrow> string \<Rightarrow> string \<Rightarrow> 'b store \<Rightarrow> exec_error + (LabOrder \<times> 'b store)" where
  "CreateOrder e nid src key s =
     (if \<not> validKey key \<or> src = [] then Inl ErrInvalid
      else case row_of LoKey key (Orders s) of
        Some old \<Rightarrow> if LoSource old \<noteq> src then Inl ErrConflict else Inr (old, s)
      | None \<Rightarrow>
          (case Sources s src of
             None \<Rightarrow> Inl ErrNotFound
           | Some r \<Rightarrow>
               (case frozen_valid e r of
                  None \<Rightarrow> Inl ErrInvalid
                | Some d \<Rightarrow>
                    if daily_open r then Inl ErrConflict
                    else (case insert_order_row (new_order e nid src key (SrSnapshot r) (Environment d) False) s of
                       Inl x \<Rightarrow> Inl x
                     | Inr s' \<Rightarrow>
                         (case row_of LoKey key (Orders s') of
                            None \<Rightarrow> Inl ErrNotFound
                          | Some ord \<Rightarrow>
                              if LoSource ord \<noteq> src \<or> LoSum ord \<noteq> SnapSum e (SrSnapshot r) then Inl ErrConflict
                              else Inr (ord, s'))))))"

definition RuntimeOrder :: "'b store \<Rightarrow> string \<Rightarrow> LabOrder option" where
  "RuntimeOrder s i = (case map_of (RuntimeOrders s) i of None \<Rightarrow> None | Some k \<Rightarrow> order_of s k)"

text \<open>
  The check of the runtime entry: unlike the laboratory one it accepts any job type and requires a
  waiting instance.
\<close>

definition runtime_valid :: "'b engine \<Rightarrow> SourceRow \<Rightarrow> JobDefinition option" where
  "runtime_valid e r =
     (case SrSnapshot r of
        Frozen d \<Rightarrow>
          if SrStatus r \<noteq> StatusWaiting \<or> ID d \<noteq> SrDef r \<or>
             (case BusinessTime d of None \<Rightarrow> True | Some c \<Rightarrow> ValidateCalendar (Zones e) c \<noteq> None) \<or>
             (SrExpected r \<noteq> [] \<and> SnapSum e (SrSnapshot r) \<noteq> SrExpected r)
          then None else Some d
      | _ \<Rightarrow> None)"

definition CreateRuntimeOrder ::
  "'b engine \<Rightarrow> string \<Rightarrow> string \<Rightarrow> 'b store \<Rightarrow> exec_error + (LabOrder \<times> 'b store)" where
  "CreateRuntimeOrder e nid i s =
     (case RuntimeOrder s i of
        Some ord \<Rightarrow> Inr (ord, s)
      | None \<Rightarrow>
          (case Sources s i of
             None \<Rightarrow> Inl ErrNotFound
           | Some r \<Rightarrow>
               (case runtime_valid e r of
                  None \<Rightarrow> Inl ErrConflict
                | Some d \<Rightarrow>
                    if daily_open r then Inl ErrConflict
                    else (case insert_order_row (new_order e nid i (''runtime:'' @ i) (SrSnapshot r) (Environment d) True) s of
                       Inl x \<Rightarrow> Inl x
                     | Inr s1 \<Rightarrow>
                         (case List.find (\<lambda>ord. LoKey ord = ''runtime:'' @ i \<and> LoRuntime ord) (Orders s1) of
                            None \<Rightarrow> Inl ErrStorage
                          | Some ord \<Rightarrow>
                              (let s2 = (if map_of (RuntimeOrders s1) i = None
                                         then s1\<lparr>RuntimeOrders := RuntimeOrders s1 @ [(i, LoId ord)]\<rparr> else s1)
                               in case RuntimeOrder s2 i of None \<Rightarrow> Inl ErrNotFound | Some ord' \<Rightarrow> Inr (ord', s2)))))))"

section \<open>Starting an attempt\<close>

definition pending_count :: "'b engine \<Rightarrow> 'b store \<Rightarrow> int" where
  "pending_count e s =
     int (count_where (\<lambda>a. \<not> exec_terminal (AtState a)) (Attempts s)) + OpenEffects e (Business s)"

definition intent_ok :: "string \<Rightarrow> bool" where
  "intent_ok i \<longleftrightarrow> i = ''start'' \<or> i = ''retry'' \<or> i = ''rerun''"

definition start_refused :: "LabOrder \<Rightarrow> string \<Rightarrow> bool" where
  "start_refused ord i \<longleftrightarrow>
     LoCurrent ord = [] \<and> i \<noteq> ''start'' \<or>
     LoCurrent ord \<noteq> [] \<and> (\<not> order_terminal (LoState ord) \<or> i = ''start'') \<or>
     i = ''retry'' \<and> LoState ord \<noteq> OFailed"

definition eligible_agent :: "LabOrder \<Rightarrow> JobDefinition \<Rightarrow> Principal \<Rightarrow> string \<Rightarrow> bool" where
  "eligible_agent ord d p agent \<longleftrightarrow>
     (let caps = split_on (CHR '','') (PrCaps p) in
      Capability \<in> set caps \<and> ToUpper (JobType d) \<in> set caps \<and>
      (AgentID d = [] \<or> AgentID d = agent \<or> LoRuntime ord \<and> PrInternal p \<and> AgentID d = ''SERVER-AGENT''))"

definition new_attempt :: "string \<Rightarrow> LabOrder \<Rightarrow> string \<Rightarrow> string \<Rightarrow> string \<Rightarrow> AttemptRow" where
  "new_attempt k ord agent key intent =
     \<lparr>AtExec = k, AtOrder = LoId ord, AtNumber = LoAttempt ord + 1, AtFence = LoFence ord + 1, AtAgent = agent,
      AtKey = key, AtIntent = intent, AtState = DispatchPending, AtLease = 0, AtAccepted = 0, AtStarted = 0,
      AtFinished = 0, AtExit = None, AtOutput = [], AtSum = [], AtBytes = 0, AtSeq = 0, AtContact = 0,
      AtReason = [], AtResolvedAt = 0, AtResolvedBy = []\<rparr>"

definition envelope :: "msg_kind \<Rightarrow> string \<Rightarrow> AttemptRow \<Rightarrow> JobDefinition option \<Rightarrow> Envelope" where
  "envelope kind mid a d =
     \<lparr>MsgProtocol = ProtocolVersion, MsgKind = kind, MsgId = mid, MsgExec = AtExec a, MsgOrder = AtOrder a,
      MsgAttempt = AtNumber a, MsgAgent = AtAgent a, MsgFence = AtFence a, MsgKey = AtExec a, MsgDef = d\<rparr>"

definition new_box :: "string \<Rightarrow> AttemptRow \<Rightarrow> msg_kind \<Rightarrow> JobDefinition option \<Rightarrow> int \<Rightarrow> OutboxRow" where
  "new_box bid a kind d now =
     \<lparr>ObId = bid, ObExec = AtExec a, ObKind = kind, ObState = Pending, ObPayload = envelope kind bid a d,
      ObDeliveries = 0, ObLease = 0, ObNext = 0, ObCreated = now\<rparr>"

text \<open>The uniqueness constraints of the two tables.\<close>

definition attempt_clash :: "AttemptRow \<Rightarrow> AttemptRow \<Rightarrow> bool" where
  "attempt_clash a x \<longleftrightarrow> AtExec x = AtExec a \<or>
     AtOrder x = AtOrder a \<and> (AtNumber x = AtNumber a \<or> AtKey x = AtKey a \<or> AtFence x = AtFence a)"

definition box_clash :: "OutboxRow \<Rightarrow> OutboxRow \<Rightarrow> bool" where
  "box_clash b x \<longleftrightarrow> ObId x = ObId b \<or> ObExec x = ObExec b \<and> ObKind x = ObKind b"

text \<open>\<open>Prepare\<close> runs for runtime orders only, and may refuse.\<close>

definition prepared :: "'b engine \<Rightarrow> LabOrder \<Rightarrow> JobDefinition \<Rightarrow> 'b store \<Rightarrow> exec_error + JobDefinition" where
  "prepared e ord d s =
     (if LoRuntime ord then (case Prepare e of None \<Rightarrow> Inr d | Some h \<Rightarrow> h s ord d) else Inr d)"

definition plan_attempt ::
  "'b engine \<Rightarrow> int \<Rightarrow> string \<Rightarrow> LabOrder \<Rightarrow> string \<Rightarrow> string \<Rightarrow> string \<Rightarrow> JobDefinition \<Rightarrow> 'b store \<Rightarrow>
   exec_error + (AttemptRow \<times> 'b store)" where
  "plan_attempt e now nid ord agent key intent d s =
     (let a = new_attempt nid ord agent key intent;
          b = new_box (nid @ ''-dispatch'') a DispatchMsg (Some d) now
      in if list_ex (attempt_clash a) (Attempts s) \<or> list_ex (box_clash b) (Outbox s) then Inl ErrStorage
         else let s1 = s\<lparr>Attempts := Attempts s @ [a], Outbox := Outbox s @ [b]\<rparr>;
                  f = (\<lambda>ord. ord\<lparr>LoCurrent := nid, LoAttempt := AtNumber a, LoFence := AtFence a, LoState := OActive\<rparr>);
                  s2 = upd_order (LoId ord) f s1
              in case exec_transition e (f ord) a ''planned'' None s2 of
                Inl x \<Rightarrow> Inl x
              | Inr s3 \<Rightarrow> Inr (a, exec_event nid ''planned'' s3))"

definition StartAttempt ::
  "'b engine \<Rightarrow> int \<Rightarrow> string \<Rightarrow> string \<Rightarrow> string \<Rightarrow> string \<Rightarrow> string \<Rightarrow> 'b store \<Rightarrow> exec_error + (AttemptRow \<times> 'b store)" where
  "StartAttempt e now nid oid agent key intent s =
     (if \<not> validKey key \<or> agent = [] \<or> \<not> intent_ok intent then Inl ErrInvalid
      else case order_of s oid of
        None \<Rightarrow> Inl ErrNotFound
      | Some ord \<Rightarrow>
          (case List.find (\<lambda>a. AtOrder a = oid \<and> AtKey a = key) (Attempts s) of
             Some a \<Rightarrow> if AtAgent a \<noteq> agent \<or> AtIntent a \<noteq> intent then Inl ErrConflict else Inr (a, s)
           | None \<Rightarrow>
               if start_refused ord intent then Inl ErrConflict
               else if pending_count e s \<ge> MaxPending e then Inl ErrCapacity
               else (case LoSnapshot ord of
                  Frozen d \<Rightarrow>
                    if SnapSum e (LoSnapshot ord) \<noteq> LoSum ord then Inl ErrInvalid
                    else (case row_of PrAgent agent (Principals s) of
                       None \<Rightarrow> Inl ErrInvalid
                     | Some p \<Rightarrow>
                         if \<not> eligible_agent ord d p agent then Inl ErrConflict
                         else (case prepared e ord d s of
                            Inl x \<Rightarrow> Inl x
                          | Inr d' \<Rightarrow> plan_attempt e now nid ord agent key intent d' s))
                | _ \<Rightarrow> Inl ErrInvalid)))"

end
