(* ===== verification/Delivery.thy ===== *)
theory Delivery
  imports Execution
begin

text \<open>
  Delivery, acknowledgement, cancellation, expiry (\<open>delivery.go\<close>), results and output
  (\<open>results.go\<close>) and operator resolution (\<open>resolve.go\<close>) of \<open>server/internal/execution\<close>.
\<close>

section \<open>Claiming a message\<close>

definition box_of :: "'b store \<Rightarrow> string \<Rightarrow> OutboxRow option" where
  "box_of s k = row_of ObId k (Outbox s)"

definition undelivered :: "OutboxRow \<Rightarrow> bool" where
  "undelivered b \<longleftrightarrow> ObState b = Pending \<or> ObState b = Leased"

definition claim_candidates :: "int \<Rightarrow> string \<Rightarrow> bool \<Rightarrow> 'b store \<Rightarrow> string list" where
  "claim_candidates now agent available s =
     take 32 (map ObId
       (sort_key (\<lambda>b. ((if ObKind b = CancelMsg then 0 else 1 :: nat), ObCreated b, ObId b))
         (filter (\<lambda>b. (case attempt_of s (ObExec b) of None \<Rightarrow> False | Some a \<Rightarrow> AtAgent a = agent) \<and>
             undelivered b \<and> ObNext b \<le> now \<and> ObLease b \<le> now \<and> (available \<or> ObKind b = CancelMsg))
           (Outbox s))))"

definition redelivery_delay :: "nat \<Rightarrow> int" where
  "redelivery_delay n = min (1000 * 2 ^ min n 8) 300000"

definition mark_uncertain :: "string \<Rightarrow> AttemptRow \<Rightarrow> AttemptRow" where
  "mark_uncertain reason a = a\<lparr>AtState := Uncertain, AtReason := reason\<rparr>"

text \<open>The delivery limit is exhausted: whether the agent accepted is unknown.\<close>

definition exhaust :: "'b engine \<Rightarrow> LabOrder \<Rightarrow> AttemptRow \<Rightarrow> string \<Rightarrow> 'b store \<Rightarrow> exec_error + 'b store" where
  "exhaust e ord a k s =
     (let r = ''delivery limit exhausted; acceptance unknown'';
          s1 = upd_box (\<lambda>b. ObId b = k) (\<lambda>b. b\<lparr>ObState := Paused\<rparr>) s;
          s2 = upd_attempt (AtExec a) (mark_uncertain r) s1;
          s3 = upd_order (LoId ord) (\<lambda>x. x\<lparr>LoState := OUncertain\<rparr>) s2
      in case exec_transition e ord (mark_uncertain r a) ''uncertain'' None s3 of
           Inl x \<Rightarrow> Inl x | Inr s4 \<Rightarrow> Inr (exec_event (AtExec a) ''delivery_uncertain'' s4))"

definition message_ok :: "OutboxRow \<Rightarrow> AttemptRow \<Rightarrow> string \<Rightarrow> bool" where
  "message_ok b a agent \<longleftrightarrow>
     (let m = ObPayload b in MsgProtocol m = ProtocolVersion \<and> MsgExec m = AtExec a \<and> MsgAgent m = agent \<and>
        MsgFence m = AtFence a \<and> MsgKind m = ObKind b)"

definition deliver :: "'b engine \<Rightarrow> int \<Rightarrow> OutboxRow \<Rightarrow> AttemptRow \<Rightarrow> 'b store \<Rightarrow> 'b store" where
  "deliver e now b a s =
     (let till = now + DeliveryLease e;
          s1 = upd_box (\<lambda>x. ObId x = ObId b) (\<lambda>x. x\<lparr>ObState := Leased, ObDeliveries := ObDeliveries x + 1,
                 ObLease := till, ObNext := max till (now + redelivery_delay (ObDeliveries b))\<rparr>) s;
          s2 = (if ObKind b = DispatchMsg then upd_attempt (AtExec a) (\<lambda>x. x\<lparr>AtState := Dispatching\<rparr>) s1 else s1)
      in exec_event (AtExec a) (if ObKind b = DispatchMsg then ''delivered_dispatch'' else ''delivered_cancel'') s2)"

definition claim_skipped :: "int \<Rightarrow> string \<Rightarrow> OutboxRow \<Rightarrow> LabOrder \<Rightarrow> AttemptRow \<Rightarrow> bool" where
  "claim_skipped now agent b ord a \<longleftrightarrow>
     \<not> undelivered b \<or> ObLease b > now \<or> ObNext b > now \<or> AtAgent a \<noteq> agent \<or> \<not> is_current ord a \<or>
     exec_terminal (AtState a) \<or> AtState a = Uncertain \<and> ObKind b = DispatchMsg \<or>
     ObKind b = DispatchMsg \<and> AtState a \<noteq> DispatchPending \<and> AtState a \<noteq> Dispatching"

definition claimOne ::
  "'b engine \<Rightarrow> int \<Rightarrow> string \<Rightarrow> string \<Rightarrow> 'b store \<Rightarrow> exec_error + (Envelope option \<times> 'b store)" where
  "claimOne e now agent k s =
     (case box_of s k of
        None \<Rightarrow> Inl ErrStorage
      | Some b \<Rightarrow>
          (case lockedAttempt s (ObExec b) of
             None \<Rightarrow> Inl ErrNotFound
           | Some (ord, a) \<Rightarrow>
               if claim_skipped now agent b ord a then Inr (None, s)
               else if ObDeliveries b \<ge> MaxDeliveries e then
                 (case exhaust e ord a k s of Inl x \<Rightarrow> Inl x | Inr s' \<Rightarrow> Inr (None, s'))
               else if \<not> message_ok b a agent then Inl ErrConflict
               else Inr (Some (ObPayload b), deliver e now b a s)))"

text \<open>An error stops the loop; what the earlier candidates committed stays.\<close>

fun claim_loop ::
  "'b engine \<Rightarrow> int \<Rightarrow> string \<Rightarrow> string list \<Rightarrow> 'b store \<Rightarrow> (exec_error + Envelope option) \<times> 'b store" where
  "claim_loop e now agent [] s = (Inr None, s)"
| "claim_loop e now agent (k # ks) s =
     (case claimOne e now agent k s of
        Inl x \<Rightarrow> (Inl x, s)
      | Inr (Some m, s') \<Rightarrow> (Inr (Some m), s')
      | Inr (None, s') \<Rightarrow> claim_loop e now agent ks s')"

definition ClaimCapacity ::
  "'b engine \<Rightarrow> int \<Rightarrow> string \<Rightarrow> bool \<Rightarrow> 'b store \<Rightarrow> (exec_error + Envelope option) \<times> 'b store" where
  "ClaimCapacity e now agent available s =
     (if agent = [] then (Inl ErrInvalid, s)
      else claim_loop e now agent (claim_candidates now agent available s) s)"

section \<open>Acknowledgements\<close>

definition ack_kinds :: "string list" where
  "ack_kinds = [''accepted'', ''started'', ''heartbeat'', ''cancelled'', ''uncertain'', ''status'']"

definition cancel_note :: string where
  "cancel_note = ''(cancellation acknowledged; external effects are not rolled back)''"

definition output_chunks :: "'b store \<Rightarrow> string \<Rightarrow> string" where
  "output_chunks s k = concat (map OrChunk (sort_key OrSeq (filter (\<lambda>r. OrExec r = k) (Outputs s))))"

definition cancellationOutput :: "'b store \<Rightarrow> string \<Rightarrow> string" where
  "cancellationOutput s k =
     (let out = output_chunks s k in
      if int (length out + length cancel_note + 1) \<le> MaxOutputBytes
      then (if out \<noteq> [] then out @ [CHR 0x0A] else out) @ cancel_note else out)"

text \<open>What each kind writes before the common update: the refusal, or the next state and the store.\<close>

definition ack_already :: "string \<Rightarrow> AttemptRow \<Rightarrow> bool" where
  "ack_already kind a \<longleftrightarrow>
     kind = ''cancelled'' \<and> AtState a = Cancelled \<or> kind = ''accepted'' \<and> AtAccepted a \<noteq> 0 \<or>
     kind = ''started'' \<and> AtStarted a \<noteq> 0 \<or> kind = ''uncertain'' \<and> exec_terminal (AtState a)"

definition ack_uncertain :: "LabOrder \<Rightarrow> AttemptRow \<Rightarrow> 'b store \<Rightarrow> 'b store" where
  "ack_uncertain ord a s =
     upd_box (\<lambda>b. ObExec b = AtExec a \<and> undelivered b) (\<lambda>b. b\<lparr>ObState := Paused, ObLease := 0\<rparr>)
       (upd_order (LoId ord) (\<lambda>x. x\<lparr>LoState := OUncertain\<rparr>) s)"

definition ack_accepted :: "int \<Rightarrow> AttemptRow \<Rightarrow> 'b store \<Rightarrow> 'b store" where
  "ack_accepted now a s =
     upd_box (\<lambda>b. ObExec b = AtExec a \<and> ObKind b = DispatchMsg) (\<lambda>b. b\<lparr>ObState := Acked, ObLease := 0\<rparr>)
       (upd_attempt (AtExec a) (\<lambda>x. x\<lparr>AtAccepted := now\<rparr>) s)"

definition ack_cancelled :: "int \<Rightarrow> LabOrder \<Rightarrow> AttemptRow \<Rightarrow> 'b store \<Rightarrow> 'b store" where
  "ack_cancelled now ord a s =
     (let out = cancellationOutput s (AtExec a);
          s1 = upd_attempt (AtExec a) (\<lambda>x. x\<lparr>AtFinished := now, AtExit := Some (- 1), AtOutput := out\<rparr>) s;
          s2 = upd_box (\<lambda>b. ObExec b = AtExec a) (\<lambda>b. b\<lparr>ObState := Acked, ObLease := 0\<rparr>) s1
      in upd_order (LoId ord) (\<lambda>x. if LoCurrent x = AtExec a \<and> LoFence x = AtFence a then x\<lparr>LoState := OCancelled\<rparr> else x) s2)"

definition ack_apply ::
  "int \<Rightarrow> string \<Rightarrow> LabOrder \<Rightarrow> AttemptRow \<Rightarrow> 'b store \<Rightarrow> (attempt_state \<times> 'b store) option" where
  "ack_apply now kind ord a s =
     (if kind = ''uncertain'' then Some (Uncertain, ack_uncertain ord a s)
      else if kind = ''accepted'' then
        (if AtState a \<noteq> Dispatching \<and> AtState a \<noteq> Uncertain \<and> AtState a \<noteq> CancelRequested then None
         else Some (if AtState a = CancelRequested then CancelRequested else Accepted, ack_accepted now a s))
      else if kind = ''started'' then
        (if AtAccepted a = 0 \<or> AtState a = DispatchPending \<or> AtState a = Dispatching then None
         else Some (if AtState a = CancelRequested \<or> AtState a = Uncertain then AtState a else Running,
                    upd_attempt (AtExec a) (\<lambda>x. x\<lparr>AtStarted := now\<rparr>) s))
      else if kind = ''heartbeat'' then (if AtAccepted a = 0 then None else Some (AtState a, s))
      else
        (if AtState a \<noteq> CancelRequested \<and> AtState a \<noteq> Uncertain then None
         else if count_where (\<lambda>b. ObExec b = AtExec a \<and> ObKind b = CancelMsg) (Outbox s) \<noteq> 1 then None
         else Some (Cancelled, ack_cancelled now ord a s)))"

definition ack_reason :: "string \<Rightarrow> string \<Rightarrow> AttemptRow \<Rightarrow> string" where
  "ack_reason kind reason a =
     (if kind = ''uncertain'' then (if reason = [] then ''agent reported an unresolved effect'' else reason)
      else AtReason a)"

definition cancel_result :: "'b store \<Rightarrow> AttemptRow \<Rightarrow> ExecResult" where
  "cancel_result s a =
     \<lparr>ReIdentity = \<lparr>IdProtocol = 2, IdExec = AtExec a, IdFence = AtFence a, IdAgent = AtAgent a\<rparr>,
      ReExit = - 1, ReOutput = cancellationOutput s (AtExec a)\<rparr>"

definition ack_commit ::
  "'b engine \<Rightarrow> int \<Rightarrow> string \<Rightarrow> string \<Rightarrow> LabOrder \<Rightarrow> AttemptRow \<Rightarrow> attempt_state \<Rightarrow> ExecResult option \<Rightarrow>
   'b store \<Rightarrow> exec_error + (Receipt \<times> 'b store)" where
  "ack_commit e now kind reason ord a nxt res s =
     (let lease = (if exec_terminal nxt \<or> nxt = Uncertain then 0 else now + ExecutionLease e);
          s1 = upd_attempt (AtExec a) (\<lambda>x. x\<lparr>AtState := nxt, AtLease := lease, AtContact := now,
                 AtReason := ack_reason kind reason a\<rparr>) s;
          a1 = a\<lparr>AtState := nxt, AtContact := now, AtReason := ack_reason kind reason a,
                 AtStarted := (if kind = ''started'' then now else AtStarted a),
                 AtAccepted := (if kind = ''accepted'' then now else AtAccepted a)\<rparr>
      in case exec_transition e ord a1 kind res s1 of
           Inl x \<Rightarrow> Inl x
         | Inr s2 \<Rightarrow> Inr (phaseReceipt ord a1 False,
                         if kind = ''heartbeat'' then s2 else exec_event (AtExec a) kind s2))"

definition AcknowledgeReason ::
  "'b engine \<Rightarrow> int \<Rightarrow> Identity \<Rightarrow> string \<Rightarrow> string \<Rightarrow> 'b store \<Rightarrow> exec_error + (Receipt \<times> 'b store)" where
  "AcknowledgeReason e now i kind reason s =
     (if length reason > 2000 \<or> kind \<notin> set ack_kinds then Inl ErrInvalid
      else case lockedAttempt s (IdExec i) of
        None \<Rightarrow> Inl ErrNotFound
      | Some (ord, a) \<Rightarrow>
          if \<not> identityOK a i then Inl ErrConflict
          else if kind = ''status'' \<or> ack_already kind a then Inr (phaseReceipt ord a True, s)
          else if \<not> is_current ord a \<or> exec_terminal (AtState a) then Inl ErrConflict
          else (case ack_apply now kind ord a s of
             None \<Rightarrow> Inl ErrConflict
           | Some (nxt, s1) \<Rightarrow>
               ack_commit e now kind reason ord a nxt
                 (if kind = ''cancelled'' then Some (cancel_result s a) else None) s1))"

section \<open>Cancellation by the operator\<close>

definition cancel_early :: "AttemptRow \<Rightarrow> OutboxRow \<Rightarrow> bool" where
  "cancel_early a b \<longleftrightarrow> ObDeliveries b = 0 \<and> AtState a = DispatchPending"

definition cancel_boxes :: "int \<Rightarrow> AttemptRow \<Rightarrow> OutboxRow \<Rightarrow> 'b store \<Rightarrow> 'b store" where
  "cancel_boxes now a b s =
     (if cancel_early a b then upd_box (\<lambda>x. ObExec x = AtExec a) (\<lambda>x. x\<lparr>ObState := BoxCancelled\<rparr>) s
      else let s1 = (if list_ex (\<lambda>x. ObExec x = AtExec a \<and> ObKind x = CancelMsg) (Outbox s) then s
                     else s\<lparr>Outbox := Outbox s @ [new_box (AtExec a @ ''-cancel'') a CancelMsg None now]\<rparr>)
        in upd_box (\<lambda>x. ObExec x = AtExec a \<and> ObKind x = DispatchMsg \<and> ObState x \<noteq> Acked)
             (\<lambda>x. x\<lparr>ObState := BoxCancelled\<rparr>) s1)"

text \<open>The id of the new message is a primary key: a clash with another message is an error.\<close>

definition cancel_clash :: "AttemptRow \<Rightarrow> OutboxRow \<Rightarrow> 'b store \<Rightarrow> bool" where
  "cancel_clash a b s \<longleftrightarrow> \<not> cancel_early a b \<and>
     \<not> list_ex (\<lambda>x. ObExec x = AtExec a \<and> ObKind x = CancelMsg) (Outbox s) \<and> box_of s (AtExec a @ ''-cancel'') \<noteq> None"

definition CancelFor :: "'b engine \<Rightarrow> int \<Rightarrow> string \<Rightarrow> string \<Rightarrow> 'b store \<Rightarrow> exec_error + (AttemptRow \<times> 'b store)" where
  "CancelFor e now oid actor s =
     (if actor = [] then Inl ErrInvalid
      else case order_of s oid of
        None \<Rightarrow> Inl ErrNotFound
      | Some ord \<Rightarrow>
          if LoCurrent ord = [] then Inl ErrConflict
          else (case attempt_of s (LoCurrent ord) of
             None \<Rightarrow> Inl ErrNotFound
           | Some a \<Rightarrow>
               if AtState a = CancelRequested \<or> AtState a = Cancelled then Inr (a, s)
               else if exec_terminal (AtState a) then Inl ErrConflict
               else (case List.find (\<lambda>b. ObExec b = AtExec a \<and> ObKind b = DispatchMsg) (Outbox s) of
                  None \<Rightarrow> Inl ErrStorage
                | Some b \<Rightarrow>
                    if cancel_clash a b s then Inl ErrStorage
                    else (let early = cancel_early a b;
                         st = (if early then Cancelled else CancelRequested);
                         s1 = cancel_boxes now a b s;
                         s2 = upd_attempt (AtExec a) (\<lambda>x. x\<lparr>AtState := st, AtFinished := (if early then now else 0)\<rparr>) s1;
                         s3 = upd_order (LoId ord) (\<lambda>x. x\<lparr>LoState := (if early then OCancelled else OUncertain)\<rparr>) s2
                     in case exec_transition e ord (a\<lparr>AtState := st\<rparr>) (if early then ''cancelled'' else ''cancel_requested'') None s3 of
                       Inl x \<Rightarrow> Inl x
                     | Inr s4 \<Rightarrow>
                         (let s5 = (if list_ex (\<lambda>r. DcKey r = ''cancel:'' @ AtExec a) (Decisions s4) then s4
                                    else s4\<lparr>Decisions := Decisions s4 @ [\<lparr>DcKey = ''cancel:'' @ AtExec a, DcExec = AtExec a,
                                      DcActor = actor, DcDecision = ''cancel_requested'',
                                      DcReason = ''operator requested cancellation''\<rparr>]\<rparr>);
                              s6 = exec_event (AtExec a) ''cancel_requested'' s5
                          in case attempt_of s6 (AtExec a) of None \<Rightarrow> Inl ErrNotFound | Some a' \<Rightarrow> Inr (a', s6))))))"

section \<open>Expiry of execution leases\<close>

definition expire :: "'b engine \<Rightarrow> int \<Rightarrow> string \<Rightarrow> 'b store \<Rightarrow> exec_error + (bool \<times> 'b store)" where
  "expire e now k s =
     (case lockedAttempt s k of
        None \<Rightarrow> Inl ErrNotFound
      | Some (ord, a) \<Rightarrow>
          if \<not> is_current ord a \<or> exec_terminal (AtState a) \<or> AtState a = Uncertain \<or> AtLease a = 0 \<or> AtLease a > now
          then Inr (False, s)
          else (let r = ''execution lease expired; effect outcome unknown'';
                    s1 = upd_attempt k (mark_uncertain r) s;
                    s2 = upd_order (LoId ord) (\<lambda>x. x\<lparr>LoState := OUncertain\<rparr>) s1
                in case exec_transition e ord (mark_uncertain r a) ''uncertain'' None s2 of
                  Inl x \<Rightarrow> Inl x | Inr s3 \<Rightarrow> Inr (True, exec_event k ''lease_uncertain'' s3)))"

fun expire_all :: "'b engine \<Rightarrow> int \<Rightarrow> string list \<Rightarrow> nat \<Rightarrow> 'b store \<Rightarrow> exec_error option \<times> nat \<times> 'b store" where
  "expire_all e now [] n s = (None, n, s)"
| "expire_all e now (k # ks) n s =
     (case expire e now k s of
        Inl x \<Rightarrow> (Some x, n, s)
      | Inr (b, s') \<Rightarrow> expire_all e now ks (if b then n + 1 else n) s')"

definition Reconcile :: "'b engine \<Rightarrow> int \<Rightarrow> 'b store \<Rightarrow> exec_error option \<times> nat \<times> 'b store" where
  "Reconcile e now s =
     expire_all e now (map AtExec (filter (\<lambda>a. (AtState a = Accepted \<or> AtState a = Running \<or> AtState a = CancelRequested) \<and>
       AtLease a > 0 \<and> AtLease a \<le> now) (Attempts s))) 0 s"

section \<open>Results and output\<close>

definition result_state :: "int \<Rightarrow> attempt_state" where
  "result_state code = (if code \<noteq> 0 then Failed else Succeeded)"

definition result_order_state :: "int \<Rightarrow> order_state" where
  "result_order_state code = (if code \<noteq> 0 then OFailed else OSucceeded)"

definition Complete :: "'b engine \<Rightarrow> int \<Rightarrow> ExecResult \<Rightarrow> 'b store \<Rightarrow> exec_error + (Receipt \<times> 'b store)" where
  "Complete e now r s =
     (if int (length (ReOutput r)) > MaxOutputBytes then Inl ErrOutputLimit
      else case lockedAttempt s (IdExec (ReIdentity r)) of
        None \<Rightarrow> Inl ErrNotFound
      | Some (ord, a) \<Rightarrow>
          if \<not> identityOK a (ReIdentity r) then Inl ErrConflict
          else let h = ResultSum e (ReExit r) (ReOutput r) in
            if AtSum a \<noteq> [] then (if h \<noteq> AtSum a then Inl ErrConflict else Inr (receipt (AtExec a) True, s))
            else if \<not> is_current ord a \<or> AtAccepted a = 0 \<or> AtStarted a = 0 \<or> exec_terminal (AtState a) then Inl ErrConflict
            else (let st = result_state (ReExit r);
                      s1 = upd_attempt (AtExec a) (\<lambda>x. x\<lparr>AtState := st, AtExit := Some (ReExit r), AtOutput := ReOutput r,
                             AtSum := h, AtFinished := now, AtLease := 0\<rparr>) s;
                      s2 = upd_order (LoId ord) (\<lambda>x. x\<lparr>LoState := result_order_state (ReExit r)\<rparr>) s1;
                      s3 = upd_box (\<lambda>b. ObExec b = AtExec a) (\<lambda>b. b\<lparr>ObState := Acked, ObLease := 0\<rparr>) s2
                  in case exec_transition e ord (a\<lparr>AtState := st, AtFinished := now, AtContact := now\<rparr>) ''result'' (Some r) s3 of
                    Inl x \<Rightarrow> Inl x
                  | Inr s4 \<Rightarrow> Inr (receipt (AtExec a) False, exec_event (AtExec a) ''result_recorded'' s4)))"

definition AppendOutput :: "'b engine \<Rightarrow> Identity \<Rightarrow> int \<Rightarrow> string \<Rightarrow> 'b store \<Rightarrow> exec_error + (Receipt \<times> 'b store)" where
  "AppendOutput e i sq chunk s =
     (if sq < 1 \<or> chunk = [] then Inl ErrInvalid
      else if int (length chunk) > MaxOutputBytes then Inl ErrOutputLimit
      else case lockedAttempt s (IdExec i) of
        None \<Rightarrow> Inl ErrNotFound
      | Some (ord, a) \<Rightarrow>
          if \<not> identityOK a i then Inl ErrConflict
          else case List.find (\<lambda>r. OrExec r = AtExec a \<and> OrSeq r = sq) (Outputs s) of
            Some r \<Rightarrow> if OrSum r \<noteq> ChunkSum e chunk then Inl ErrConflict else Inr (receipt (AtExec a) True, s)
          | None \<Rightarrow>
              if \<not> is_current ord a \<or> AtStarted a = 0 \<or> exec_terminal (AtState a) \<or> sq \<noteq> AtSeq a + 1 then Inl ErrConflict
              else if AtBytes a + int (length chunk) > MaxOutputBytes then Inl ErrOutputLimit
              else Inr (receipt (AtExec a) False,
                upd_attempt (AtExec a) (\<lambda>x. x\<lparr>AtBytes := AtBytes x + int (length chunk), AtSeq := sq\<rparr>)
                  (s\<lparr>Outputs := Outputs s @ [\<lparr>OrExec = AtExec a, OrSeq = sq, OrChunk = chunk, OrSum = ChunkSum e chunk\<rparr>]\<rparr>)))"

text \<open>Reading the output back, at most 100 chunks after a sequence number, and the counters.\<close>

definition ReadOutput :: "string \<Rightarrow> int \<Rightarrow> 'b store \<Rightarrow> exec_error + (int \<times> string) list" where
  "ReadOutput k after s =
     (if after < 0 then Inl ErrInvalid
      else case attempt_of s k of
        None \<Rightarrow> Inl ErrNotFound
      | Some a \<Rightarrow> Inr (take 100 (map (\<lambda>r. (OrSeq r, OrChunk r))
                    (sort_key OrSeq (filter (\<lambda>r. OrExec r = k \<and> OrSeq r > after) (Outputs s))))))"

definition exec_metrics :: "'b store \<Rightarrow> nat \<times> nat \<times> nat \<times> nat \<times> nat" where
  "exec_metrics s =
     (count_where (\<lambda>b. ObState b = Pending) (Outbox s), count_where (\<lambda>b. ObState b = Leased) (Outbox s),
      count_where (\<lambda>b. ObState b = Paused) (Outbox s), count_where (\<lambda>a. AtState a = Uncertain) (Attempts s),
      sum_list (map ObDeliveries (Outbox s)))"

section \<open>Resolution by the operator\<close>

definition decided :: "string \<Rightarrow> (attempt_state \<times> order_state \<times> int) option" where
  "decided d =
     (if d = ''succeeded'' then Some (Succeeded, OSucceeded, 0)
      else if d = ''failed'' then Some (Failed, OFailed, 1)
      else if d = ''cancelled'' then Some (Cancelled, OCancelled, - 1) else None)"

definition Resolve ::
  "'b engine \<Rightarrow> int \<Rightarrow> string \<Rightarrow> int \<Rightarrow> string \<Rightarrow> string \<Rightarrow> string \<Rightarrow> string \<Rightarrow> bool \<Rightarrow> 'b store \<Rightarrow>
   exec_error + (AttemptRow \<times> 'b store)" where
  "Resolve e now k fence key actor decision reason0 stopped s =
     (let reason = TrimSpace reason0 in
      if \<not> validKey key \<or> actor = [] \<or> reason = [] \<or> length reason > 2000 \<or> \<not> stopped then Inl ErrInvalid
      else case decided decision of
        None \<Rightarrow> Inl ErrInvalid
      | Some (st, ost, code) \<Rightarrow>
          (case lockedAttempt s k of
             None \<Rightarrow> Inl ErrNotFound
           | Some (ord, a) \<Rightarrow>
               (case row_of DcKey key (Decisions s) of
                  Some r \<Rightarrow>
                    if DcExec r \<noteq> k \<or> DcActor r \<noteq> actor \<or> DcDecision r \<noteq> decision \<or> DcReason r \<noteq> reason \<or> AtFence a \<noteq> fence
                    then Inl ErrConflict else Inr (a, s)
                | None \<Rightarrow>
                    if \<not> is_current ord a \<or> AtFence a \<noteq> fence \<or> (AtState a \<noteq> Uncertain \<and> AtState a \<noteq> CancelRequested)
                    then Inl ErrConflict
                    else (let out = ''[operator resolution] '' @ reason;
                              r = \<lparr>ReIdentity = \<lparr>IdProtocol = ProtocolVersion, IdExec = AtExec a, IdFence = AtFence a, IdAgent = AtAgent a\<rparr>,
                                   ReExit = code, ReOutput = out\<rparr>;
                              s1 = upd_attempt k (\<lambda>x. x\<lparr>AtState := st, AtFinished := now, AtLease := 0, AtResolvedAt := now,
                                     AtResolvedBy := actor, AtReason := reason, AtExit := Some code, AtOutput := out,
                                     AtSum := ''operator:'' @ ResultSum e code out\<rparr>) s;
                              s2 = upd_order (LoId ord) (\<lambda>x. x\<lparr>LoState := ost\<rparr>) s1;
                              s3 = upd_box (\<lambda>b. ObExec b = k) (\<lambda>b. b\<lparr>ObState := Acked, ObLease := 0\<rparr>) s2;
                              s4 = s3\<lparr>Decisions := Decisions s3 @ [\<lparr>DcKey = key, DcExec = k, DcActor = actor,
                                     DcDecision = decision, DcReason = reason\<rparr>]\<rparr>;
                              a1 = a\<lparr>AtState := st, AtResolvedAt := now, AtResolvedBy := actor, AtReason := reason\<rparr>
                          in case exec_transition e ord a1 ''resolved'' (Some r) s4 of
                            Inl x \<Rightarrow> Inl x
                          | Inr s5 \<Rightarrow>
                              (let s6 = exec_event k ''operator_resolved'' s5
                               in case attempt_of s6 k of None \<Rightarrow> Inl ErrNotFound | Some a' \<Rightarrow> Inr (a', s6))))))"

section \<open>Updates of a running attempt\<close>

text \<open>\<open>RuntimeUpdate\<close>: the callback sees the current attempt of a running runtime order.\<close>

definition RuntimeUpdate ::
  "string \<Rightarrow> ('b store \<Rightarrow> LabOrder \<Rightarrow> AttemptRow \<Rightarrow> exec_error + 'b) \<Rightarrow> 'b store \<Rightarrow> exec_error + 'b store" where
  "RuntimeUpdate i f s =
     (case RuntimeOrder s i of
        None \<Rightarrow> Inl ErrNotFound
      | Some ord \<Rightarrow>
          if LoCurrent ord = [] then Inl ErrConflict
          else (case attempt_of s (LoCurrent ord) of
             None \<Rightarrow> Inl ErrNotFound
           | Some a \<Rightarrow>
               if \<not> is_current ord a \<or> AtState a \<noteq> Running then Inl ErrConflict
               else (case f s ord a of Inl x \<Rightarrow> Inl x | Inr b \<Rightarrow> Inr (s\<lparr>Business := b\<rparr>))))"

end
