(* ===== verification/ExecutionInv.thy ===== *)
theory ExecutionInv
  imports Delivery
begin

text \<open>
  Invariants of the execution engine.  \<open>exec_inv\<close>: an attempt that is not terminal is the current one
  of its order and carries its fence, the order is terminal exactly when its current attempt is, and
  a recorded result means a terminal attempt.  \<open>evolves\<close> is the life of one attempt: an automaton in
  which terminal states absorb.  \<open>exec_step\<close> is the interleaving of all operations.
\<close>

named_theorems core "what the operations write to the tables of orders and attempts"

section \<open>Tables\<close>

lemma upd_frames [core]:
  "Attempts (upd_order k g s) = Attempts s" "Outbox (upd_order k g s) = Outbox s" "Business (upd_order k g s) = Business s"
  "Orders (upd_attempt k f s) = Orders s" "Outbox (upd_attempt k f s) = Outbox s" "Business (upd_attempt k f s) = Business s"
  "Orders (upd_box p h s) = Orders s" "Attempts (upd_box p h s) = Attempts s" "Business (upd_box p h s) = Business s"
  "Orders (exec_event k x s) = Orders s" "Attempts (exec_event k x s) = Attempts s" "Outbox (exec_event k x s) = Outbox s"
  "Outputs (upd_order k g s) = Outputs s" "Outputs (upd_attempt k f s) = Outputs s" "Outputs (upd_box p h s) = Outputs s"
  "Outputs (exec_event k x s) = Outputs s"
  by (simp_all add: upd_order_def upd_attempt_def upd_box_def exec_event_def)

lemma transition_core:
  "exec_transition e ord a kind r s = Inr s' \<Longrightarrow> Orders s' = Orders s \<and> Attempts s' = Attempts s \<and>
     Outbox s' = Outbox s \<and> Outputs s' = Outputs s"
  by (auto simp: exec_transition_def split: if_splits option.splits sum.splits)

lemma attempt_of_upd:
  "(\<And>a. AtExec (f a) = AtExec a) \<Longrightarrow> row_of AtExec j (update_where (\<lambda>a. AtExec a = k) f as) =
     map_option (\<lambda>a. if AtExec a = k then f a else a) (row_of AtExec j as)"
  by (rule row_of_update_where) auto

lemma order_of_upd:
  "(\<And>x. LoId (g x) = LoId x) \<Longrightarrow> row_of LoId j (update_where (\<lambda>x. LoId x = k) g os) =
     map_option (\<lambda>x. if LoId x = k then g x else x) (row_of LoId j os)"
  by (rule row_of_update_where) auto

lemma lockedD:
  "lockedAttempt s k = Some (ord, a) \<Longrightarrow> attempt_of s k = Some a \<and> AtExec a = k \<and> order_of s (AtOrder a) = Some ord \<and> LoId ord = AtOrder a"
  using row_of_SomeD [of AtExec k "Attempts s"] row_of_SomeD [of LoId _ "Orders s"]
  by (auto simp: lockedAttempt_def attempt_of_def order_of_def split: option.splits)

section \<open>The invariant\<close>

text \<open>What the time stamps of an attempt say of its state.\<close>

definition phase_ok :: "AttemptRow \<Rightarrow> bool" where
  "phase_ok a \<longleftrightarrow> (AtState a = DispatchPending \<or> AtState a = Dispatching \<longrightarrow> AtAccepted a = 0) \<and>
     (AtState a = Accepted \<longrightarrow> AtStarted a = 0) \<and> (AtAccepted a = 0 \<longrightarrow> AtStarted a = 0)"

definition owned :: "'b store \<Rightarrow> AttemptRow \<Rightarrow> bool" where
  "owned s a \<longleftrightarrow> AtExec a \<noteq> [] \<and> 1 \<le> AtFence a \<and> phase_ok a \<and> (AtSum a \<noteq> [] \<longrightarrow> exec_terminal (AtState a)) \<and>
     (\<exists>ord. order_of s (AtOrder a) = Some ord \<and> AtFence a \<le> LoFence ord \<and>
       (AtFence a = LoFence ord \<longrightarrow> LoCurrent ord = AtExec a) \<and> (\<not> exec_terminal (AtState a) \<longrightarrow> is_current ord a))"

definition order_ok :: "'b store \<Rightarrow> LabOrder \<Rightarrow> bool" where
  "order_ok s ord \<longleftrightarrow>
     (if LoCurrent ord = [] then LoFence ord = 0 \<and> \<not> order_terminal (LoState ord)
      else \<exists>a. attempt_of s (LoCurrent ord) = Some a \<and> AtOrder a = LoId ord \<and> AtFence a = LoFence ord \<and>
        (order_terminal (LoState ord) \<longleftrightarrow> exec_terminal (AtState a)))"

definition exec_inv :: "'b store \<Rightarrow> bool" where
  "exec_inv s \<longleftrightarrow> keys_distinct LoId (Orders s) \<and> keys_distinct AtExec (Attempts s) \<and>
     (\<forall>a\<in>set (Attempts s). owned s a) \<and> (\<forall>ord\<in>set (Orders s). order_ok s ord)"

lemma exec_inv_core: "Orders s' = Orders s \<Longrightarrow> Attempts s' = Attempts s \<Longrightarrow> exec_inv s' = exec_inv s"
  by (simp add: exec_inv_def owned_def order_ok_def order_of_def attempt_of_def)

lemma exec_inv_attempt: "exec_inv s \<Longrightarrow> attempt_of s k = Some a \<Longrightarrow> owned s a \<and> a \<in> set (Attempts s) \<and> AtExec a = k"
  using row_of_SomeD [of AtExec k "Attempts s" a] by (auto simp: exec_inv_def attempt_of_def)

lemma exec_inv_order: "exec_inv s \<Longrightarrow> order_of s k = Some ord \<Longrightarrow> order_ok s ord \<and> ord \<in> set (Orders s) \<and> LoId ord = k"
  using row_of_SomeD [of LoId k "Orders s" ord] by (auto simp: exec_inv_def order_of_def)

text \<open>A change of the current attempt of an order and of the state of that order.\<close>

definition same_ids :: "AttemptRow \<Rightarrow> AttemptRow \<Rightarrow> bool" where
  "same_ids a b \<longleftrightarrow> AtExec b = AtExec a \<and> AtOrder b = AtOrder a \<and> AtFence b = AtFence a \<and> AtNumber b = AtNumber a \<and>
     AtAgent b = AtAgent a \<and> AtKey b = AtKey a \<and> AtIntent b = AtIntent a"

definition same_order :: "LabOrder \<Rightarrow> LabOrder \<Rightarrow> bool" where
  "same_order x y \<longleftrightarrow> LoId y = LoId x \<and> LoCurrent y = LoCurrent x \<and> LoFence y = LoFence x \<and> LoAttempt y = LoAttempt x \<and>
     LoSnapshot y = LoSnapshot x \<and> LoSource y = LoSource x \<and> LoKey y = LoKey x \<and> LoRuntime y = LoRuntime x"

lemma exec_inv_change:
  assumes inv: "exec_inv s" and l: "lockedAttempt s k = Some (ord, a)" and c: "is_current ord a"
    and f: "\<And>x. same_ids x (f x)" and g: "\<And>x. same_order x (g x)"
    and t: "order_terminal (LoState (g ord)) \<longleftrightarrow> exec_terminal (AtState (f a))"
    and h: "AtSum (f a) \<noteq> [] \<longrightarrow> exec_terminal (AtState (f a))" "phase_ok (f a)"
    and s': "Attempts s' = update_where (\<lambda>x. AtExec x = k) f (Attempts s)"
      "Orders s' = update_where (\<lambda>x. LoId x = LoId ord) g (Orders s)"
  shows "exec_inv s'"
proof -
  note a = lockedD [OF l]
  have fe: "\<And>x. AtExec (f x) = AtExec x" and gi: "\<And>x. LoId (g x) = LoId x"
    using f g by (simp_all add: same_ids_def same_order_def)
  have at: "attempt_of s' j = map_option (\<lambda>x. if AtExec x = k then f x else x) (attempt_of s j)" for j
    unfolding attempt_of_def s'(1) by (rule attempt_of_upd [OF fe])
  have od: "order_of s' j = map_option (\<lambda>x. if LoId x = LoId ord then g x else x) (order_of s j)" for j
    unfolding order_of_def s'(2) by (rule order_of_upd [OF gi])
  have dist: "keys_distinct LoId (Orders s')" "keys_distinct AtExec (Attempts s')"
    using inv fe gi by (simp_all add: exec_inv_def s' keys_distinct_update_where)
  have own: "owned s' x'" if m: "x' \<in> set (Attempts s')" for x'
  proof -
    obtain x where x: "x \<in> set (Attempts s)" "x' = (if AtExec x = k then f x else x)"
      using m by (auto simp: s' set_update_where)
    have ox: "owned s x" using inv x(1) by (simp add: exec_inv_def)
    then obtain ox where ord: "order_of s (AtOrder x) = Some ox" "AtFence x \<le> LoFence ox"
      "AtFence x = LoFence ox \<longrightarrow> LoCurrent ox = AtExec x" "\<not> exec_terminal (AtState x) \<longrightarrow> is_current ox x"
      by (auto simp: owned_def)
    define oy where "oy = (if LoId ox = LoId ord then g ox else ox)"
    have oy: "order_of s' (AtOrder x) = Some oy" "LoFence oy = LoFence ox" "LoCurrent oy = LoCurrent ox"
      using ord(1) g [of ox] by (auto simp: od oy_def same_order_def)
    show ?thesis
    proof (cases "AtExec x = k")
      case True
      then have "x = a" using row_of_in_set [of AtExec "Attempts s" x] inv x(1) a by (simp add: exec_inv_def attempt_of_def)
      then show ?thesis using True x(2) ox ord oy f [of a] h c a by (auto simp: owned_def same_ids_def is_current_def)
    next
      case False
      then show ?thesis using x(2) ox ord oy by (auto simp: owned_def is_current_def)
    qed
  qed
  have "order_ok s' x'" if m: "x' \<in> set (Orders s')" for x'
  proof -
    obtain x where x: "x \<in> set (Orders s)" "x' = (if LoId x = LoId ord then g x else x)"
      using m by (auto simp: s' set_update_where)
    have sm: "LoCurrent x' = LoCurrent x" "LoFence x' = LoFence x" "LoId x' = LoId x"
      using x(2) g [of x] by (auto simp: same_order_def)
    have ok: "order_ok s x" using inv x(1) by (simp add: exec_inv_def)
    show ?thesis
    proof (cases "LoId x = LoId ord")
      case True
      have "x = ord" using row_of_in_set [of LoId "Orders s" x] inv x(1) a True by (simp add: exec_inv_def order_of_def)
      then have xo: "x' = g ord" using x(2) by simp
      have "LoCurrent ord = k" using c a by (simp add: is_current_def)
      moreover have "k \<noteq> []" using exec_inv_attempt [OF inv, of k a] a by (auto simp: owned_def)
      moreover have "attempt_of s' k = Some (f a)" using a by (simp add: at)
      ultimately show ?thesis
        using sm xo t f [of a] c a \<open>x = ord\<close> by (simp add: order_ok_def same_ids_def is_current_def)
    next
      case False
      then have e: "x' = x" using x(2) by simp
      show ?thesis
      proof (cases "LoCurrent x = []")
        case True
        then show ?thesis using ok e by (simp add: order_ok_def)
      next
        case nn: False
        then obtain b where b: "attempt_of s (LoCurrent x) = Some b" "AtOrder b = LoId x" "AtFence b = LoFence x"
          "order_terminal (LoState x) \<longleftrightarrow> exec_terminal (AtState b)" using ok by (auto simp: order_ok_def)
        have "AtExec b \<noteq> k"
        proof
          assume "AtExec b = k"
          then have "b = a" using exec_inv_attempt [OF inv b(1)] b(1) a by simp
          then show False using b(2) a False by simp
        qed
        then have "attempt_of s' (LoCurrent x) = Some b" using b(1) by (simp add: at)
        then show ?thesis unfolding order_ok_def e using b(2,3,4) nn by simp
      qed
    qed
  qed
  then show ?thesis using dist own by (simp add: exec_inv_def)
qed

text \<open>A new attempt of an order that has none alive.\<close>

lemma exec_inv_plan:
  assumes inv: "exec_inv s" and od: "order_of s oid = Some ord" and fresh: "attempt_of s nid = None" "nid \<noteq> []"
    and free: "LoCurrent ord = [] \<or> order_terminal (LoState ord)"
    and new: "AtExec a = nid" "AtOrder a = oid" "AtFence a = LoFence ord + 1" "AtSum a = []" "phase_ok a" "\<not> exec_terminal (AtState a)"
    and g: "\<And>x. LoId (g x) = LoId x" "LoCurrent (g ord) = nid" "LoFence (g ord) = AtFence a" "\<not> order_terminal (LoState (g ord))"
    and s': "Attempts s' = Attempts s @ [a]" "Orders s' = update_where (\<lambda>x. LoId x = oid) g (Orders s)"
  shows "exec_inv s'"
proof -
  note ord = exec_inv_order [OF inv od]
  have at: "attempt_of s' j = (if j = nid then Some a else attempt_of s j)" for j
    using fresh(1) new(1) unfolding attempt_of_def s' by (auto simp: row_of_append row_of_Cons split: option.splits)
  have ordr: "order_of s' j = map_option (\<lambda>x. if LoId x = oid then g x else x) (order_of s j)" for j
    unfolding order_of_def s'(2) by (rule order_of_upd [OF g(1)])
  have dist: "keys_distinct LoId (Orders s')" "keys_distinct AtExec (Attempts s')"
    using inv g(1) new(1) fresh(1) by (simp_all add: exec_inv_def s' keys_distinct_update_where keys_distinct_snoc attempt_of_def)
  have fence: "0 \<le> LoFence ord \<and> (\<forall>x\<in>set (Attempts s). AtOrder x = oid \<longrightarrow> AtFence x \<le> LoFence ord \<and> exec_terminal (AtState x))"
  proof (cases "LoCurrent ord = []")
    case True
    have f0: "LoFence ord = 0" using ord True by (simp add: order_ok_def)
    have "AtOrder x \<noteq> oid" if x: "x \<in> set (Attempts s)" for x
    proof
      assume "AtOrder x = oid"
      then have "AtFence x \<le> 0" "1 \<le> AtFence x" using inv x od f0 by (auto simp: exec_inv_def owned_def)
      then show False by simp
    qed
    then show ?thesis using f0 by auto
  next
    case False
    then obtain b where b: "attempt_of s (LoCurrent ord) = Some b" "AtFence b = LoFence ord"
      "order_terminal (LoState ord) \<longleftrightarrow> exec_terminal (AtState b)" using ord by (auto simp: order_ok_def)
    have tb: "exec_terminal (AtState b)" using b(3) free False by simp
    have "AtFence x \<le> LoFence ord \<and> exec_terminal (AtState x)" if x: "x \<in> set (Attempts s)" "AtOrder x = oid" for x
    proof -
      have ox: "owned s x" using inv x(1) by (simp add: exec_inv_def)
      have "exec_terminal (AtState x)"
      proof (rule ccontr)
        assume n: "\<not> exec_terminal (AtState x)"
        then have "LoCurrent ord = AtExec x" using ox od x(2) by (auto simp: owned_def is_current_def)
        then have "x = b" using b(1) row_of_in_set [of AtExec "Attempts s" x] inv x(1) by (simp add: exec_inv_def attempt_of_def)
        then show False using n tb by simp
      qed
      then show ?thesis using ox od x(2) by (auto simp: owned_def)
    qed
    moreover have "0 \<le> LoFence ord" using exec_inv_attempt [OF inv b(1)] b(2) by (simp add: owned_def)
    ultimately show ?thesis by blast
  qed
  have "owned s' x" if m: "x \<in> set (Attempts s')" for x
  proof (cases "x = a")
    case True
    then show ?thesis using new fresh(2) fence od ord g by (auto simp: owned_def ordr is_current_def)
  next
    case False
    then have x: "x \<in> set (Attempts s)" using m s' by simp
    then have ox: "owned s x" using inv by (simp add: exec_inv_def)
    then obtain ox where oxd: "order_of s (AtOrder x) = Some ox" by (auto simp: owned_def)
    show ?thesis
    proof (cases "AtOrder x = oid")
      case True
      then have "AtFence x \<le> LoFence ord" "exec_terminal (AtState x)" using fence x by auto
      then show ?thesis using ox od ord True g new by (auto simp: owned_def ordr)
    next
      case f: False
      then have "LoId ox \<noteq> oid" using exec_inv_order [OF inv oxd] by simp
      then show ?thesis using ox oxd by (simp add: owned_def ordr)
    qed
  qed
  moreover have "order_ok s' x'" if m: "x' \<in> set (Orders s')" for x'
  proof -
    obtain x where x: "x \<in> set (Orders s)" "x' = (if LoId x = oid then g x else x)"
      using m by (auto simp: s' set_update_where)
    show ?thesis
    proof (cases "LoId x = oid")
      case True
      then have "x = ord" using row_of_in_set [of LoId "Orders s" x] inv x(1) od by (simp add: exec_inv_def order_of_def)
      then show ?thesis using x True g new fresh(2) at by (simp add: order_ok_def)
    next
      case False
      have ok: "order_ok s x" using inv x(1) by (simp add: exec_inv_def)
      then show ?thesis using x False fresh(1) by (auto simp: order_ok_def at)
    qed
  qed
  ultimately show ?thesis using dist by (simp add: exec_inv_def)
qed

lemma exec_inv_create:
  assumes inv: "exec_inv s" and n: "order_of s (LoId x) = None" "LoCurrent x = []" "LoFence x = 0" "\<not> order_terminal (LoState x)"
    and s': "Attempts s' = Attempts s" "Orders s' = Orders s @ [x]"
  shows "exec_inv s'"
proof -
  have at: "attempt_of s' j = attempt_of s j" for j by (simp add: attempt_of_def s')
  have od: "order_of s' j = Some y" if h: "order_of s j = Some y" for j y
    using h by (simp add: order_of_def s' row_of_append)
  have "owned s' a" if "a \<in> set (Attempts s')" for a
    using that inv od by (fastforce simp: exec_inv_def owned_def s')
  moreover have "order_ok s' y" if "y \<in> set (Orders s')" for y
    using that inv n by (auto simp: exec_inv_def order_ok_def s' at)
  ultimately show ?thesis using inv n(1) by (simp add: exec_inv_def s' keys_distinct_snoc order_of_def)
qed

end
