(* ===== verification/Lifecycle.thy ===== *)
theory Lifecycle
  imports Prelude
begin

text \<open>
  The interface of a store whose rows live through a state machine: every step keeps the invariant
  of the store and either leaves a row alone or moves it, and a final row is never moved.  The
  execution engine of the server and the journal of the agent are such stores.
\<close>

locale lifecycle =
  fixes good :: "'s \<Rightarrow> bool"
    and step :: "'s \<Rightarrow> 's \<Rightarrow> bool"
    and rows :: "'s \<Rightarrow> 'k \<Rightarrow> 'r option"
    and move :: "'r \<Rightarrow> 'r \<Rightarrow> bool"
    and final :: "'r \<Rightarrow> bool"
  assumes keeps: "good s \<Longrightarrow> step s s' \<Longrightarrow> good s'"
    and moves: "good s \<Longrightarrow> step s s' \<Longrightarrow> rows s k = Some r \<Longrightarrow>
      \<exists>r'. rows s' k = Some r' \<and> (r' = r \<or> \<not> final r \<and> move r r')"

context lifecycle
begin

lemma good_star: "step\<^sup>*\<^sup>* s s' \<Longrightarrow> good s \<Longrightarrow> good s'"
  by (induction rule: rtranclp_induct) (auto intro: keeps)

lemma path: "step\<^sup>*\<^sup>* s s' \<Longrightarrow> good s \<Longrightarrow> rows s k = Some r \<Longrightarrow> \<exists>r'. rows s' k = Some r' \<and> move\<^sup>*\<^sup>* r r'"
proof (induction rule: rtranclp_induct)
  case base
  then show ?case by auto
next
  case (step t u)
  then obtain r1 where r1: "rows t k = Some r1" "move\<^sup>*\<^sup>* r r1" by auto
  have "good t" using good_star [OF step.hyps(1)] step.prems by simp
  then obtain r2 where "rows u k = Some r2" "r2 = r1 \<or> move r1 r2" using moves [OF _ step.hyps(2) r1(1)] by auto
  then show ?case using r1(2) by (auto intro: rtranclp.rtrancl_into_rtrancl)
qed

lemma final_kept: "step\<^sup>*\<^sup>* s s' \<Longrightarrow> good s \<Longrightarrow> rows s k = Some r \<Longrightarrow> final r \<Longrightarrow> rows s' k = Some r"
proof (induction rule: rtranclp_induct)
  case base
  then show ?case by auto
next
  case (step t u)
  have "good t" using good_star [OF step.hyps(1)] step.prems by simp
  then show ?case using moves [OF _ step.hyps(2), of k r] step.IH step.prems by auto
qed

text \<open>What every move preserves, every history preserves.\<close>

lemma invariant_of_rows:
  "step\<^sup>*\<^sup>* s s' \<Longrightarrow> good s \<Longrightarrow> rows s k = Some r \<Longrightarrow> (\<And>a b. move a b \<Longrightarrow> f b = f a) \<Longrightarrow>
     \<exists>r'. rows s' k = Some r' \<and> f r' = f r"
proof -
  assume a: "step\<^sup>*\<^sup>* s s'" "good s" "rows s k = Some r" and f: "\<And>a b. move a b \<Longrightarrow> f b = f a"
  obtain r' where r': "rows s' k = Some r'" "move\<^sup>*\<^sup>* r r'" using path [OF a] by auto
  from r'(2) have "f r' = f r" by (induction rule: rtranclp_induct) (auto simp: f)
  then show ?thesis using r'(1) by auto
qed

end

end
