(* ===== verification/ExecutionSteps.thy ===== *)
theory ExecutionSteps
  imports ExecutionInv Lifecycle
begin

text \<open>
  Every operation of the execution engine is one of four writes (\<open>exec_write\<close>): none, a change of
  the current live attempt, a new attempt of an order that has none alive, a new order.  The
  invariant and the life of an attempt are proved once, on the writes.
\<close>

section \<open>The life of an attempt\<close>

fun allowed :: "attempt_state \<Rightarrow> attempt_state \<Rightarrow> bool" where
  "allowed DispatchPending st = (st \<in> {DispatchPending, Dispatching, Uncertain, CancelRequested, Cancelled})"
| "allowed Dispatching st = (st \<in> {Dispatching, Accepted, Uncertain, CancelRequested})"
| "allowed Accepted st = (st \<in> {Accepted, Running, Uncertain, CancelRequested})"
| "allowed Running st = (st \<in> {Running, Uncertain, CancelRequested, Succeeded, Failed})"
| "allowed CancelRequested st = (st \<in> {CancelRequested, Uncertain, Cancelled, Succeeded, Failed})"
| "allowed Uncertain st = (st \<in> {Uncertain, Accepted, CancelRequested, Cancelled, Succeeded, Failed})"
| "allowed _ st = False"

definition attempt_move :: "AttemptRow \<Rightarrow> AttemptRow \<Rightarrow> bool" where
  "attempt_move a b \<longleftrightarrow> same_ids a b \<and> allowed (AtState a) (AtState b)"

section \<open>Writes\<close>

text \<open>What a change of an attempt does to its output: nothing, or the next chunk within the limit.\<close>

definition out_effect :: "string \<Rightarrow> AttemptRow \<Rightarrow> (AttemptRow \<Rightarrow> AttemptRow) \<Rightarrow> 'b store \<Rightarrow> 'b store \<Rightarrow> bool" where
  "out_effect k a f s s' \<longleftrightarrow>
     Outputs s' = Outputs s \<and> (\<forall>x. AtSeq (f x) = AtSeq x \<and> AtBytes (f x) = AtBytes x) \<or>
     (\<exists>chunk h. AtBytes a + int (length chunk) \<le> MaxOutputBytes \<and>
        Outputs s' = Outputs s @ [\<lparr>OrExec = k, OrSeq = AtSeq a + 1, OrChunk = chunk, OrSum = h\<rparr>] \<and>
        AtSeq (f a) = AtSeq a + 1 \<and> AtBytes (f a) = AtBytes a + int (length chunk))"

inductive exec_write :: "'b engine \<Rightarrow> 'b store \<Rightarrow> 'b store \<Rightarrow> bool" for e where
  keep: "Orders s' = Orders s \<Longrightarrow> Attempts s' = Attempts s \<Longrightarrow> Outputs s' = Outputs s \<Longrightarrow> exec_write e s s'"
| change: "lockedAttempt s k = Some (ord, a) \<Longrightarrow> is_current ord a \<Longrightarrow> allowed (AtState a) (AtState (f a)) \<Longrightarrow>
    (\<And>x. same_ids x (f x)) \<Longrightarrow> (\<And>x. same_order x (g x)) \<Longrightarrow>
    order_terminal (LoState (g ord)) = exec_terminal (AtState (f a)) \<Longrightarrow>
    AtSum (f a) = AtSum a \<or> exec_terminal (AtState (f a)) \<Longrightarrow> phase_ok (f a) \<Longrightarrow>
    Attempts s' = update_where (\<lambda>x. AtExec x = k) f (Attempts s) \<Longrightarrow>
    Orders s' = update_where (\<lambda>x. LoId x = LoId ord) g (Orders s) \<Longrightarrow> out_effect k a f s s' \<Longrightarrow> exec_write e s s'"
| plan: "order_of s oid = Some ord \<Longrightarrow> attempt_of s nid = None \<Longrightarrow> nid \<noteq> [] \<Longrightarrow>
    LoCurrent ord = [] \<or> order_terminal (LoState ord) \<Longrightarrow> pending_count e s < MaxPending e \<Longrightarrow> a = new_attempt nid ord agent key intent \<Longrightarrow>
    Attempts s' = Attempts s @ [a] \<Longrightarrow>
    Orders s' = update_where (\<lambda>x. LoId x = oid)
      (\<lambda>x. x\<lparr>LoCurrent := nid, LoAttempt := AtNumber a, LoFence := AtFence a, LoState := OActive\<rparr>) (Orders s) \<Longrightarrow>
    Outputs s' = Outputs s \<Longrightarrow> exec_write e s s'"
| create: "order_of s (LoId x) = None \<Longrightarrow> LoCurrent x = [] \<Longrightarrow> LoFence x = 0 \<Longrightarrow> LoState x = OReady \<Longrightarrow>
    row_of LoKey (LoKey x) (Orders s) = None \<Longrightarrow> (LoRuntime x \<longrightarrow> LoKey x = ''runtime:'' @ LoSource x) \<Longrightarrow>
    Attempts s' = Attempts s \<Longrightarrow> Orders s' = Orders s @ [x] \<Longrightarrow> Outputs s' = Outputs s \<Longrightarrow> exec_write e s s'"

lemma allowed_live: "allowed st st' \<Longrightarrow> \<not> exec_terminal st"
  by (cases st) (auto simp: exec_terminal_def)

lemma exec_write_inv:
  assumes w: "exec_write e s s'" and inv: "exec_inv s"
  shows "exec_inv s'"
  using w
proof cases
  case keep
  then show ?thesis using inv exec_inv_core [of s' s] by blast
next
  case (change k ord a f g)
  have "AtSum a \<noteq> [] \<longrightarrow> exec_terminal (AtState a)"
    using exec_inv_attempt [OF inv, of k a] lockedD [OF change(1)] by (simp add: owned_def)
  then have "AtSum (f a) \<noteq> [] \<longrightarrow> exec_terminal (AtState (f a))" using change(7) allowed_live [OF change(3)] by auto
  then show ?thesis by (rule exec_inv_change [OF inv change(1,2,4,5,6) _ change(8,9,10)])
next
  case (plan oid ord nid a agent key intent)
  show ?thesis
    by (rule exec_inv_plan [OF inv plan(1,2,3,4) _ _ _ _ _ _ _ _ _ _ plan(7,8)])
      (use plan exec_inv_order [OF inv plan(1)] in \<open>simp_all add: new_attempt_def phase_ok_def exec_terminal_def order_terminal_def\<close>)
next
  case (create x)
  show ?thesis by (rule exec_inv_create [OF inv create(1,2,3) _ create(7,8)]) (simp add: create order_terminal_def)
qed

lemma exec_write_attempt:
  assumes w: "exec_write e s s'" and inv: "exec_inv s" and at: "attempt_of s k = Some a"
  shows "\<exists>a'. attempt_of s' k = Some a' \<and> (a' = a \<or> \<not> exec_terminal (AtState a) \<and> attempt_move a a')"
  using w
proof cases
  case keep
  then show ?thesis using at by (simp add: attempt_of_def)
next
  case (change j ord b f g)
  have fe: "\<And>x. AtExec (f x) = AtExec x" using change(4) by (simp add: same_ids_def)
  have at': "attempt_of s' k = Some (if AtExec a = j then f a else a)"
    using at attempt_of_upd [OF fe, of k j "Attempts s"] by (simp add: attempt_of_def change)
  show ?thesis
  proof (cases "AtExec a = j")
    case True
    have "k = AtExec a" using exec_inv_attempt [OF inv at] by simp
    then have "a = b" using lockedD [OF change(1)] at True by simp
    then show ?thesis using at' True change(3) change(4) [of a] allowed_live [OF change(3)] by (simp add: attempt_move_def)
  next
    case False
    then show ?thesis using at' by simp
  qed
next
  case (plan oid ord nid a' agent key intent)
  then show ?thesis using at by (simp add: attempt_of_def row_of_append)
next
  case (create x)
  then show ?thesis using at by (simp add: attempt_of_def)
qed

section \<open>Every operation is a write\<close>

lemma update_where_id: "update_where p (\<lambda>x. x) t = t"
  by (simp add: update_where_def)

lemma update_where_twice:
  "(\<And>x. p (f x) = p x) \<Longrightarrow> update_where p g (update_where p f t) = update_where p (\<lambda>x. g (f x)) t"
  by (simp add: update_where_def comp_def)

lemma event_core [core]:
  "Orders (exec_event k x s) = Orders s" "Attempts (exec_event k x s) = Attempts s"
  by (simp_all add: exec_event_def)

lemma upd_core [core]:
  "Orders (upd_order k g s) = update_where (\<lambda>x. LoId x = k) g (Orders s)"
  "Attempts (upd_attempt k f s) = update_where (\<lambda>a. AtExec a = k) f (Attempts s)"
  "Outbox (upd_box p h s) = update_where p h (Outbox s)"
  by (simp_all add: upd_order_def upd_attempt_def upd_box_def)

lemma current_order:
  assumes inv: "exec_inv s" and l: "lockedAttempt s k = Some (ord, a)" and c: "is_current ord a"
  shows "order_terminal (LoState ord) = exec_terminal (AtState a) \<and> phase_ok a"
proof -
  note a = lockedD [OF l]
  have "owned s a" "AtExec a \<noteq> []" using exec_inv_attempt [OF inv, of k a] a by (auto simp: owned_def)
  then show ?thesis using exec_inv_order [OF inv, of "AtOrder a" ord] a c by (simp add: order_ok_def is_current_def owned_def)
qed

lemma change_attempt:
  assumes inv: "exec_inv s" and l: "lockedAttempt s k = Some (ord, a)" and c: "is_current ord a"
    and f: "allowed (AtState a) (AtState (f a))" "\<And>x. same_ids x (f x)" "AtSum (f a) = AtSum a" "phase_ok (f a)"
      "\<not> exec_terminal (AtState (f a))"
    and s': "Attempts s' = update_where (\<lambda>x. AtExec x = k) f (Attempts s)" "Orders s' = Orders s" "out_effect k a f s s'"
  shows "exec_write e s s'"
proof -
  have t: "order_terminal (LoState ord) = exec_terminal (AtState (f a))"
    using current_order [OF inv l c] allowed_live [OF f(1)] f(5) by simp
  show ?thesis
    by (rule exec_write.change [where f = f and g = "\<lambda>x. x", OF l c f(1,2) _ t _ f(4) s'(1) _ s'(3)])
      (simp_all add: same_order_def update_where_id s' f(3))
qed

lemma change_uncertain:
  assumes inv: "exec_inv s" and l: "lockedAttempt s k = Some (ord, a)" and c: "is_current ord a" and n: "\<not> exec_terminal (AtState a)"
    and s': "Attempts s' = update_where (\<lambda>x. AtExec x = k) (mark_uncertain r) (Attempts s)"
      "Orders s' = update_where (\<lambda>x. LoId x = LoId ord) (\<lambda>x. x\<lparr>LoState := OUncertain\<rparr>) (Orders s)" "Outputs s' = Outputs s"
  shows "exec_write e s s'"
proof -
  have al: "allowed (AtState a) (AtState (mark_uncertain r a))"
    using n by (cases "AtState a") (simp_all add: mark_uncertain_def exec_terminal_def)
  show ?thesis
    by (rule exec_write.change [OF l c al _ _ _ _ _ s'(1,2)])
      (use s'(3) current_order [OF inv l c] in \<open>simp_all add: same_ids_def same_order_def mark_uncertain_def out_effect_def order_terminal_def
         exec_terminal_def phase_ok_def\<close>)
qed

lemma exhaust_write:
  assumes "exec_inv s" "lockedAttempt s k = Some (ord, a)" "is_current ord a" "\<not> exec_terminal (AtState a)"
    "exhaust e ord a b s = Inr s'"
  shows "exec_write e s s'"
proof -
  have "AtExec a = k" using lockedD [OF assms(2)] by simp
  then show ?thesis
    using assms(5) transition_core by (intro change_uncertain [OF assms(1-4)])
      (fastforce simp: exhaust_def Let_def core split: sum.splits)+
qed

lemma deliver_write:
  assumes "exec_inv s" "lockedAttempt s k = Some (ord, a)" "is_current ord a" "ObKind b = DispatchMsg \<longrightarrow> AtState a = DispatchPending \<or> AtState a = Dispatching"
  shows "exec_write e s (deliver e now b a s)"
proof (cases "ObKind b = DispatchMsg")
  case True
  have k: "AtExec a = k" using lockedD [OF assms(2)] by simp
  show ?thesis
    by (rule change_attempt [OF assms(1-3), where f = "\<lambda>x. x\<lparr>AtState := Dispatching\<rparr>"])
      (use True assms(4) current_order [OF assms(1-3)] in \<open>auto simp: deliver_def Let_def core k same_ids_def out_effect_def phase_ok_def exec_terminal_def\<close>)
next
  case False
  then show ?thesis by (intro exec_write.keep) (simp_all add: deliver_def Let_def core)
qed

lemma claimOne_write:
  assumes inv: "exec_inv s" and c: "claimOne e now agent k s = Inr (m, s')"
  shows "exec_write e s s'"
proof -
  obtain b ord a where b: "box_of s k = Some b" "lockedAttempt s (ObExec b) = Some (ord, a)"
    using c by (auto simp: claimOne_def split: option.splits)
  show ?thesis
  proof (cases "claim_skipped now agent b ord a")
    case True
    then show ?thesis using c b by (intro exec_write.keep) (simp_all add: claimOne_def)
  next
    case False
    then have cur: "is_current ord a" "\<not> exec_terminal (AtState a)"
      "ObKind b = DispatchMsg \<longrightarrow> AtState a = DispatchPending \<or> AtState a = Dispatching" by (auto simp: claim_skipped_def)
    show ?thesis
      using c b False exhaust_write [OF inv b(2) cur(1,2)] deliver_write [OF inv b(2) cur(1,3)]
      by (auto simp: claimOne_def split: if_splits sum.splits)
  qed
qed

lemma claim_loop_write: "claim_loop e now agent ks s = (r, s') \<Longrightarrow> exec_inv s \<Longrightarrow> (exec_write e)\<^sup>*\<^sup>* s s'"
proof (induction ks arbitrary: s)
  case Nil
  then show ?case by simp
next
  case (Cons k ks)
  show ?case
  proof (cases "claimOne e now agent k s")
    case (Inl x)
    then show ?thesis using Cons.prems by simp
  next
    case (Inr p)
    obtain m t where p: "p = (m, t)" by (cases p)
    have w: "exec_write e s t" using claimOne_write [OF Cons.prems(2)] Inr p by blast
    then have "exec_inv t" using exec_write_inv Cons.prems(2) by blast
    then have "(exec_write e)\<^sup>*\<^sup>* t s'" using Cons.IH [of t] Cons.prems(1) Inr p by (cases m) auto
    then show ?thesis using w by (rule converse_rtranclp_into_rtranclp [rotated])
  qed
qed

lemma ClaimCapacity_write: "ClaimCapacity e now agent av s = (r, s') \<Longrightarrow> exec_inv s \<Longrightarrow> (exec_write e)\<^sup>*\<^sup>* s s'"
  by (auto simp: ClaimCapacity_def intro: claim_loop_write split: if_splits)

text \<open>Acknowledgements: what the branch of each kind writes, then the common update.\<close>

definition ack_effect :: "LabOrder \<Rightarrow> AttemptRow \<Rightarrow> attempt_state \<Rightarrow> (AttemptRow \<Rightarrow> AttemptRow) \<Rightarrow> (LabOrder \<Rightarrow> LabOrder) \<Rightarrow> bool" where
  "ack_effect ord a nxt f g \<longleftrightarrow> (\<forall>x. same_ids x (f x) \<and> AtSeq (f x) = AtSeq x \<and> AtBytes (f x) = AtBytes x) \<and> (\<forall>x. same_order x (g x)) \<and> AtSum (f a) = AtSum a \<and>
     phase_ok ((f a)\<lparr>AtState := nxt\<rparr>) \<and> allowed (AtState a) nxt \<and> order_terminal (LoState (g ord)) = exec_terminal nxt"

lemma ack_apply_effect:
  assumes ap: "ack_apply now kind ord a s = Some (nxt, s1)" and kinds: "kind \<in> set ack_kinds" "kind \<noteq> ''status''" "\<not> ack_already kind a"
    and st: "phase_ok a" "\<not> exec_terminal (AtState a)" "is_current ord a" "order_terminal (LoState ord) = exec_terminal (AtState a)"
  shows "\<exists>f g. ack_effect ord a nxt f g \<and> Attempts s1 = update_where (\<lambda>x. AtExec x = AtExec a) f (Attempts s) \<and>
     Orders s1 = update_where (\<lambda>x. LoId x = LoId ord) g (Orders s) \<and> Outputs s1 = Outputs s"
proof -
  note defs = ack_effect_def same_ids_def same_order_def phase_ok_def update_where_id core order_terminal_def exec_terminal_def
  have "kind = ''accepted'' \<or> kind = ''started'' \<or> kind = ''heartbeat'' \<or> kind = ''cancelled'' \<or> kind = ''uncertain''"
    using kinds(1,2) by (simp add: ack_kinds_def)
  then show ?thesis
  proof (elim disjE, goal_cases)
    case 1
    then have e: "nxt = (if AtState a = CancelRequested then CancelRequested else Accepted)" "s1 = ack_accepted now a s"
      "AtState a = Dispatching \<or> AtState a = Uncertain \<or> AtState a = CancelRequested" "AtAccepted a = 0"
      using ap kinds by (auto simp: ack_apply_def ack_already_def split: if_splits)
    show ?thesis
      by (rule exI [of _ "\<lambda>x. x\<lparr>AtAccepted := now\<rparr>"], rule exI [of _ "\<lambda>x. x"])
        (use st e in \<open>auto simp add: ack_accepted_def defs\<close>)
  next
    case 2
    then have e: "nxt = (if AtState a = CancelRequested \<or> AtState a = Uncertain then AtState a else Running)"
      "s1 = upd_attempt (AtExec a) (\<lambda>x. x\<lparr>AtStarted := now\<rparr>) s" "AtAccepted a \<noteq> 0" "AtState a \<noteq> DispatchPending" "AtState a \<noteq> Dispatching"
      using ap by (auto simp: ack_apply_def split: if_splits)
    show ?thesis
      by (rule exI [of _ "\<lambda>x. x\<lparr>AtStarted := now\<rparr>"], rule exI [of _ "\<lambda>x. x"])
        (use st e in \<open>cases "AtState a"; simp add: defs\<close>)
  next
    case 3
    then have e: "nxt = AtState a" "s1 = s" "AtAccepted a \<noteq> 0" using ap by (auto simp: ack_apply_def split: if_splits)
    show ?thesis
      by (rule exI [of _ "\<lambda>x. x"], rule exI [of _ "\<lambda>x. x"]) (use st e in \<open>cases "AtState a"; simp add: defs\<close>)
  next
    case 4
    then have e: "nxt = Cancelled" "s1 = ack_cancelled now ord a s" "AtState a = CancelRequested \<or> AtState a = Uncertain"
      using ap by (auto simp: ack_apply_def split: if_splits)
    show ?thesis
      by (rule exI [of _ "\<lambda>x. x\<lparr>AtFinished := now, AtExit := Some (- 1), AtOutput := cancellationOutput s (AtExec a)\<rparr>"],
          rule exI [of _ "\<lambda>x. if LoCurrent x = AtExec a \<and> LoFence x = AtFence a then x\<lparr>LoState := OCancelled\<rparr> else x"])
        (use st e in \<open>auto simp add: ack_cancelled_def Let_def defs is_current_def\<close>)
  next
    case 5
    then have e: "nxt = Uncertain" "s1 = ack_uncertain ord a s" using ap by (simp_all add: ack_apply_def)
    show ?thesis
      by (rule exI [of _ "\<lambda>x. x"], rule exI [of _ "\<lambda>x. x\<lparr>LoState := OUncertain\<rparr>"])
        (use st e in \<open>cases "AtState a"; simp add: ack_uncertain_def defs\<close>)
  qed
qed

lemma ack_write:
  assumes inv: "exec_inv s" and c: "AcknowledgeReason e now i kind reason s = Inr (rc, s')"
  shows "exec_write e s s'"
proof -
  obtain ord a where l: "lockedAttempt s (IdExec i) = Some (ord, a)"
    using c by (auto simp: AcknowledgeReason_def split: if_splits option.splits)
  show ?thesis
  proof (cases "kind = ''status'' \<or> ack_already kind a")
    case True
    then have "s' = s" using c l by (simp add: AcknowledgeReason_def split: if_splits)
    then show ?thesis by (intro exec_write.keep) simp_all
  next
    case False
    obtain nxt s1 res where p: "ack_apply now kind ord a s = Some (nxt, s1)" "is_current ord a" "\<not> exec_terminal (AtState a)"
      "ack_commit e now kind reason ord a nxt res s1 = Inr (rc, s')" "kind \<in> set ack_kinds"
      using c l False by (auto simp: AcknowledgeReason_def split: if_splits option.splits)
    note cur = current_order [OF inv l p(2)]
    obtain f g where fg: "ack_effect ord a nxt f g" "Attempts s1 = update_where (\<lambda>x. AtExec x = AtExec a) f (Attempts s)"
        "Orders s1 = update_where (\<lambda>x. LoId x = LoId ord) g (Orders s)" "Outputs s1 = Outputs s"
      using ack_apply_effect [OF p(1) p(5) _ _ _ p(3) p(2)] False cur by auto
    have k: "IdExec i = AtExec a" using lockedD [OF l] by simp
    obtain lease r where s': "Attempts s' = update_where (\<lambda>x. AtExec x = AtExec a) (\<lambda>x. x\<lparr>AtState := nxt, AtLease := lease,
        AtContact := now, AtReason := r\<rparr>) (Attempts s1)" "Orders s' = Orders s1" "Outputs s' = Outputs s1"
      using p(4) transition_core by (fastforce simp: ack_commit_def Let_def core split: sum.splits if_splits)
    have ids: "same_ids x (f x)" for x using fg(1) by (simp add: ack_effect_def)
    have fe: "AtExec (f x) = AtExec x" for x using ids [of x] by (simp add: same_ids_def)
    have at: "Attempts s' = update_where (\<lambda>x. AtExec x = IdExec i) (\<lambda>x. (f x)\<lparr>AtState := nxt, AtLease := lease,
        AtContact := now, AtReason := r\<rparr>) (Attempts s)"
      unfolding s'(1) fg(2) k by (rule update_where_twice) (simp add: fe)
    have od: "Orders s' = update_where (\<lambda>x. LoId x = LoId ord) g (Orders s)" using s' fg(3) by simp
    show ?thesis
      by (rule exec_write.change [OF l p(2) _ _ _ _ _ _ at od])
        (use fg s' ids in \<open>simp_all add: ack_effect_def same_ids_def phase_ok_def out_effect_def\<close>)
  qed
qed

lemma cancel_boxes_core [core]:
  "Orders (cancel_boxes now a b s) = Orders s" "Attempts (cancel_boxes now a b s) = Attempts s"
  "Outputs (cancel_boxes now a b s) = Outputs s"
  by (simp_all add: cancel_boxes_def Let_def core)

text \<open>The current attempt of an order is locked by the order.\<close>

lemma current_locked:
  assumes inv: "exec_inv s" and od: "order_of s oid = Some ord" and n: "LoCurrent ord \<noteq> []" and at: "attempt_of s (LoCurrent ord) = Some a"
  shows "lockedAttempt s (AtExec a) = Some (ord, a) \<and> is_current ord a"
proof -
  have "AtExec a = LoCurrent ord" using exec_inv_attempt [OF inv at] by simp
  moreover have "AtOrder a = LoId ord" "AtFence a = LoFence ord" "LoId ord = oid"
    using exec_inv_order [OF inv od] n at by (auto simp: order_ok_def)
  ultimately show ?thesis using at od by (simp add: lockedAttempt_def is_current_def)
qed

lemma cancel_write:
  assumes inv: "exec_inv s" and c: "CancelFor e now oid actor s = Inr (r, s')"
  shows "exec_write e s s'"
proof -
  obtain ord a where l: "order_of s oid = Some ord" "LoCurrent ord \<noteq> []" "attempt_of s (LoCurrent ord) = Some a"
    using c by (auto simp: CancelFor_def split: if_splits option.splits)
  note cur = current_locked [OF inv l]
  show ?thesis
  proof (cases "AtState a = CancelRequested \<or> AtState a = Cancelled")
    case True
    then have "s' = s" using c l by (simp add: CancelFor_def split: if_splits)
    then show ?thesis by (intro exec_write.keep) simp_all
  next
    case False
    then have n: "\<not> exec_terminal (AtState a)" using c l by (auto simp: CancelFor_def split: if_splits)
    obtain b where b: "List.find (\<lambda>b. ObExec b = AtExec a \<and> ObKind b = DispatchMsg) (Outbox s) = Some b"
      using c l False n by (auto simp: CancelFor_def split: if_splits option.splits)
    define st where "st = (if cancel_early a b then Cancelled else CancelRequested)"
    define ost where "ost = (if cancel_early a b then OCancelled else OUncertain)"
    define fin where "fin = (if cancel_early a b then now else 0)"
    obtain s4 where t: "exec_transition e ord (a\<lparr>AtState := st\<rparr>) (if cancel_early a b then ''cancelled'' else ''cancel_requested'') None
        (upd_order (LoId ord) (\<lambda>x. x\<lparr>LoState := ost\<rparr>) (upd_attempt (AtExec a) (\<lambda>x. x\<lparr>AtState := st, AtFinished := fin\<rparr>)
          (cancel_boxes now a b s))) = Inr s4"
      and s': "Orders s' = Orders s4" "Attempts s' = Attempts s4" "Outputs s' = Outputs s4"
      using c l False n b unfolding st_def ost_def fin_def
      by (auto simp: CancelFor_def Let_def core split: if_splits option.splits sum.splits)
    note tc = transition_core [OF t]
    have al: "allowed (AtState a) st" using n False by (cases "AtState a") (auto simp: st_def cancel_early_def exec_terminal_def)
    show ?thesis
      by (rule exec_write.change [of s "AtExec a" ord a "\<lambda>x. x\<lparr>AtState := st, AtFinished := fin\<rparr>" "\<lambda>x. x\<lparr>LoState := ost\<rparr>"])
        (use cur al tc s' current_order [OF inv] n in
          \<open>auto simp: same_ids_def same_order_def core out_effect_def st_def ost_def order_terminal_def exec_terminal_def phase_ok_def\<close>)
  qed
qed

lemma expire_write:
  assumes inv: "exec_inv s" and c: "expire e now k s = Inr (b, s')"
  shows "exec_write e s s'"
proof -
  obtain ord a where l: "lockedAttempt s k = Some (ord, a)" using c by (auto simp: expire_def split: option.splits)
  show ?thesis
  proof (cases "\<not> is_current ord a \<or> exec_terminal (AtState a) \<or> AtState a = Uncertain \<or> AtLease a = 0 \<or> AtLease a > now")
    case True
    then have "s' = s" using c l by (auto simp: expire_def split: if_splits)
    then show ?thesis by (intro exec_write.keep) simp_all
  next
    case False
    then have n: "is_current ord a" "\<not> exec_terminal (AtState a)" by auto
    show ?thesis
      by (rule change_uncertain [OF inv l n, where r = "''execution lease expired; effect outcome unknown''"])
        (use c l False transition_core in \<open>fastforce simp: expire_def Let_def core split: sum.splits\<close>)+
  qed
qed

lemma expire_all_write: "expire_all e now ks n s = (x, m, s') \<Longrightarrow> exec_inv s \<Longrightarrow> (exec_write e)\<^sup>*\<^sup>* s s'"
proof (induction ks arbitrary: n s)
  case Nil
  then show ?case by simp
next
  case (Cons k ks)
  show ?case
  proof (cases "expire e now k s")
    case (Inl x)
    then show ?thesis using Cons.prems by simp
  next
    case (Inr p)
    obtain b t where p: "p = (b, t)" by (cases p)
    have w: "exec_write e s t" using expire_write [OF Cons.prems(2)] Inr p by blast
    then have "exec_inv t" using exec_write_inv Cons.prems(2) by blast
    then have "(exec_write e)\<^sup>*\<^sup>* t s'" using Cons.IH [of _ t] Cons.prems(1) Inr p by (auto split: if_splits)
    then show ?thesis using w by (rule converse_rtranclp_into_rtranclp [rotated])
  qed
qed

lemma Reconcile_write: "Reconcile e now s = (x, m, s') \<Longrightarrow> exec_inv s \<Longrightarrow> (exec_write e)\<^sup>*\<^sup>* s s'"
  unfolding Reconcile_def by (rule expire_all_write)

lemma complete_write:
  assumes inv: "exec_inv s" and c: "Complete e now r s = Inr (rc, s')"
  shows "exec_write e s s'"
proof -
  obtain ord a where l: "lockedAttempt s (IdExec (ReIdentity r)) = Some (ord, a)"
    using c by (auto simp: Complete_def split: if_splits option.splits)
  have k: "AtExec a = IdExec (ReIdentity r)" using lockedD [OF l] by simp
  show ?thesis
  proof (cases "AtSum a = []")
    case False
    then have "s' = s" using c l by (auto simp: Complete_def Let_def split: if_splits)
    then show ?thesis by (intro exec_write.keep) simp_all
  next
    case True
    define f :: "AttemptRow \<Rightarrow> AttemptRow" where "f = (\<lambda>x. x\<lparr>AtState := result_state (ReExit r), AtExit := Some (ReExit r), AtOutput := ReOutput r,
      AtSum := ResultSum e (ReExit r) (ReOutput r), AtFinished := now, AtLease := 0\<rparr>)"
    obtain s4 where n: "is_current ord a" "AtAccepted a \<noteq> 0" "AtStarted a \<noteq> 0" "\<not> exec_terminal (AtState a)"
      and t: "exec_transition e ord (a\<lparr>AtState := result_state (ReExit r), AtFinished := now, AtContact := now\<rparr>) ''result'' (Some r)
        (upd_box (\<lambda>b. ObExec b = AtExec a) (\<lambda>b. b\<lparr>ObState := Acked, ObLease := 0\<rparr>)
          (upd_order (LoId ord) (\<lambda>x. x\<lparr>LoState := result_order_state (ReExit r)\<rparr>) (upd_attempt (AtExec a) f s))) = Inr s4"
      and s': "Orders s' = Orders s4" "Attempts s' = Attempts s4" "Outputs s' = Outputs s4"
      using c l True unfolding f_def by (auto simp: Complete_def Let_def core split: if_splits sum.splits)
    note tc = transition_core [OF t]
    have ph: "phase_ok a" using current_order [OF inv l n(1)] by simp
    have al: "allowed (AtState a) (result_state (ReExit r))"
      using n ph by (cases "AtState a") (auto simp: result_state_def phase_ok_def exec_terminal_def)
    show ?thesis
      by (rule exec_write.change [of s "IdExec (ReIdentity r)" ord a f "\<lambda>x. x\<lparr>LoState := result_order_state (ReExit r)\<rparr>"])
        (use l n al tc s' ph k in \<open>auto simp: f_def same_ids_def same_order_def core out_effect_def result_state_def result_order_state_def
           order_terminal_def exec_terminal_def phase_ok_def\<close>)
  qed
qed

lemma append_write:
  assumes inv: "exec_inv s" and c: "AppendOutput e i sq chunk s = Inr (rc, s')"
  shows "exec_write e s s'"
proof -
  obtain ord a where l: "lockedAttempt s (IdExec i) = Some (ord, a)"
    using c by (auto simp: AppendOutput_def split: if_splits option.splits)
  have k: "AtExec a = IdExec i" using lockedD [OF l] by simp
  show ?thesis
  proof (cases "List.find (\<lambda>r. OrExec r = AtExec a \<and> OrSeq r = sq) (Outputs s)")
    case (Some x)
    then have "s' = s" using c l by (auto simp: AppendOutput_def split: if_splits)
    then show ?thesis by (intro exec_write.keep) simp_all
  next
    case None
    then have n: "is_current ord a" "AtStarted a \<noteq> 0" "\<not> exec_terminal (AtState a)" "sq = AtSeq a + 1"
        "AtBytes a + int (length chunk) \<le> MaxOutputBytes"
      and s': "s' = upd_attempt (AtExec a) (\<lambda>x. x\<lparr>AtBytes := AtBytes x + int (length chunk), AtSeq := sq\<rparr>)
        (s\<lparr>Outputs := Outputs s @ [\<lparr>OrExec = AtExec a, OrSeq = sq, OrChunk = chunk, OrSum = ChunkSum e chunk\<rparr>]\<rparr>)"
      using c l by (auto simp: AppendOutput_def split: if_splits)
    have ph: "phase_ok a" using current_order [OF inv l n(1)] by simp
    have al: "allowed (AtState a) (AtState a)"
      using n ph by (cases "AtState a") (auto simp: phase_ok_def exec_terminal_def)
    show ?thesis
      by (rule change_attempt [OF inv l n(1), where f = "\<lambda>x. x\<lparr>AtBytes := AtBytes x + int (length chunk), AtSeq := sq\<rparr>"])
        (use al ph n k in \<open>auto simp: s' same_ids_def core phase_ok_def out_effect_def\<close>)
  qed
qed

lemma decided_terminal: "decided d = Some (st, ost, code) \<Longrightarrow> exec_terminal st \<and> order_terminal ost \<and>
    (\<forall>b. b = Uncertain \<or> b = CancelRequested \<longrightarrow> allowed b st)"
  by (auto simp: decided_def exec_terminal_def order_terminal_def split: if_splits)

lemma resolve_write:
  assumes inv: "exec_inv s" and c: "Resolve e now k fence key actor decision reason stopped s = Inr (r, s')"
  shows "exec_write e s s'"
proof -
  obtain st ost code where d: "decided decision = Some (st, ost, code)"
    using c by (auto simp: Resolve_def Let_def split: if_splits option.splits)
  note dt = decided_terminal [OF d]
  obtain ord a where l: "lockedAttempt s k = Some (ord, a)"
    using c d by (auto simp: Resolve_def Let_def split: if_splits option.splits)
  show ?thesis
  proof (cases "row_of DcKey key (Decisions s)")
    case (Some x)
    then have "s' = s" using c l d by (auto simp: Resolve_def Let_def split: if_splits)
    then show ?thesis by (intro exec_write.keep) simp_all
  next
    case None
    define out where "out = ''[operator resolution] '' @ TrimSpace reason"
    define f :: "AttemptRow \<Rightarrow> AttemptRow" where "f = (\<lambda>x. x\<lparr>AtState := st, AtFinished := now, AtLease := 0, AtResolvedAt := now, AtResolvedBy := actor,
      AtReason := TrimSpace reason, AtExit := Some code, AtOutput := out, AtSum := ''operator:'' @ ResultSum e code out\<rparr>)"
    define rr where "rr = \<lparr>ReIdentity = \<lparr>IdProtocol = ProtocolVersion, IdExec = AtExec a, IdFence = AtFence a, IdAgent = AtAgent a\<rparr>,
      ReExit = code, ReOutput = out\<rparr>"
    define b where "b = a\<lparr>AtState := st, AtResolvedAt := now, AtResolvedBy := actor, AtReason := TrimSpace reason\<rparr>"
    define s3 where "s3 = upd_box (\<lambda>b. ObExec b = k) (\<lambda>b. b\<lparr>ObState := Acked, ObLease := 0\<rparr>)
      (upd_order (LoId ord) (\<lambda>x. x\<lparr>LoState := ost\<rparr>) (upd_attempt k f s))"
    define s4 where "s4 = s3\<lparr>Decisions := Decisions s3 @ [\<lparr>DcKey = key, DcExec = k, DcActor = actor,
      DcDecision = decision, DcReason = TrimSpace reason\<rparr>]\<rparr>"
    note defs = out_def f_def rr_def b_def s3_def s4_def
    have n: "is_current ord a" "AtState a = Uncertain \<or> AtState a = CancelRequested"
      using c l d None by (auto simp: Resolve_def Let_def split: if_splits)
    obtain s5 where t: "exec_transition e ord b ''resolved'' (Some rr) s4 = Inr s5"
      and s': "s' = exec_event k ''operator_resolved'' s5"
      using c l d None unfolding defs by (auto simp: Resolve_def Let_def split: if_splits sum.splits option.splits)
    note tc = transition_core [OF t]
    have ph: "phase_ok a" using current_order [OF inv l n(1)] by simp
    have al: "allowed (AtState a) st" using dt n(2) by blast
    show ?thesis
      by (rule exec_write.change [OF l n(1), where f = f and g = "\<lambda>x. x\<lparr>LoState := ost\<rparr>"])
        (use al dt ph tc in \<open>auto simp: s' s4_def s3_def f_def same_ids_def same_order_def core out_effect_def phase_ok_def exec_terminal_def\<close>)
  qed
qed

lemma update_write: "RuntimeUpdate i fn s = Inr s' \<Longrightarrow> exec_write e s s'"
  by (rule exec_write.keep) (auto simp: RuntimeUpdate_def split: if_splits option.splits sum.splits)

lemma insert_order_write:
  "insert_order_row (new_order e' nid src key snap ev rt) s = Inr s' \<Longrightarrow> (rt \<longrightarrow> key = ''runtime:'' @ src) \<Longrightarrow> exec_write e s s'"
proof -
  assume i: "insert_order_row (new_order e' nid src key snap ev rt) s = Inr s'" and rt: "rt \<longrightarrow> key = ''runtime:'' @ src"
  show ?thesis
  proof (cases "row_of LoKey key (Orders s)")
    case None
    then show ?thesis using i rt
      by (intro exec_write.create [of s "new_order e' nid src key snap ev rt"])
        (auto simp: insert_order_row_def new_order_def split: if_splits)
  next
    case (Some x)
    then show ?thesis using i by (intro exec_write.keep) (auto simp: insert_order_row_def new_order_def split: if_splits)
  qed
qed

lemma exec_write_more: "exec_write e s s' \<Longrightarrow> Orders s'' = Orders s' \<Longrightarrow> Attempts s'' = Attempts s' \<Longrightarrow>
    Outputs s'' = Outputs s' \<Longrightarrow> exec_write e s s''"
proof (induction rule: exec_write.induct)
  case (change s k ord a f g s')
  show ?case by (rule exec_write.change [OF change(1-8)]) (use change in \<open>simp_all add: out_effect_def\<close>)
next
  case (plan s oid ord nid a agent key intent s')
  show ?case by (rule exec_write.plan [OF plan(1-6)]) (use plan in simp_all)
next
  case (create s x s')
  show ?case by (rule exec_write.create [OF create(1-4)]) (use create in simp_all)
qed (auto intro: exec_write.keep)

lemma create_write: "CreateOrder e nid src key s = Inr (r, s') \<Longrightarrow> exec_write e s s'"
  by (auto simp: CreateOrder_def intro: exec_write.keep insert_order_write
      split: if_splits option.splits sum.splits)

lemma create_runtime_write: "CreateRuntimeOrder e nid i s = Inr (r, s') \<Longrightarrow> exec_write e s s'"
  by (auto simp: CreateRuntimeOrder_def Let_def intro: exec_write.keep insert_order_write exec_write_more [OF insert_order_write]
      split: if_splits option.splits sum.splits)

lemma start_write:
  assumes c: "StartAttempt e now nid oid agent key intent s = Inr (r, s')" and n: "nid \<noteq> []"
  shows "exec_write e s s'"
proof -
  obtain ord where od: "order_of s oid = Some ord"
    using c by (auto simp: StartAttempt_def split: if_splits option.splits sum.splits)
  show ?thesis
  proof (cases "List.find (\<lambda>a. AtOrder a = oid \<and> AtKey a = key) (Attempts s)")
    case (Some x)
    then have "s' = s" using c od by (auto simp: StartAttempt_def split: if_splits)
    then show ?thesis by (intro exec_write.keep) simp_all
  next
    case None
    have lo: "LoId ord = oid" using od row_of_SomeD [of LoId oid "Orders s" ord] by (simp add: order_of_def)
    define a where "a = new_attempt nid ord agent key intent"
    obtain d where free: "LoCurrent ord = [] \<or> order_terminal (LoState ord)" "pending_count e s < MaxPending e"
      and pl: "plan_attempt e now nid ord agent key intent d s = Inr (r, s')"
      using c od None by (auto simp: StartAttempt_def start_refused_def split: if_splits option.splits snapshot.splits sum.splits)
    then have cl: "\<not> list_ex (attempt_clash a) (Attempts s)" by (auto simp: plan_attempt_def a_def Let_def split: if_splits)
    have "AtExec a = nid" by (simp add: a_def new_attempt_def)
    then have fresh: "attempt_of s nid = None" using cl by (auto simp: attempt_of_def row_of_None list_ex_iff attempt_clash_def)
    show ?thesis
      by (rule exec_write.plan [OF od fresh n free a_def])
        (use pl transition_core in \<open>fastforce simp: plan_attempt_def a_def Let_def core lo split: if_splits sum.splits\<close>)+
  qed
qed

end
