(* ===== verification/ExecutionRuns.thy ===== *)
theory ExecutionRuns
  imports ExecutionSteps
begin

text \<open>
  What the execution engine promises, over every interleaving of its transactions with each other
  and with the writers of the business tables: one live attempt per order, attempts that end only
  once, results and output that are recorded once, and a bounded queue.
\<close>

section \<open>Interleavings\<close>

inductive exec_step :: "'b engine \<Rightarrow> 'b store \<Rightarrow> 'b store \<Rightarrow> bool" for e where
  order: "CreateOrder e nid src key s = Inr (ord, s') \<Longrightarrow> exec_step e s s'"
| runtime: "CreateRuntimeOrder e nid i s = Inr (ord, s') \<Longrightarrow> exec_step e s s'"
| start: "StartAttempt e now nid oid agent key intent s = Inr (a, s') \<Longrightarrow> nid \<noteq> [] \<Longrightarrow> exec_step e s s'"
| claim: "ClaimCapacity e now agent available s = (r, s') \<Longrightarrow> exec_step e s s'"
| ack: "AcknowledgeReason e now i kind reason s = Inr (rc, s') \<Longrightarrow> exec_step e s s'"
| cancel: "CancelFor e now oid actor s = Inr (a, s') \<Longrightarrow> exec_step e s s'"
| reconcile: "Reconcile e now s = (x, n, s') \<Longrightarrow> exec_step e s s'"
| complete: "Complete e now r s = Inr (rc, s') \<Longrightarrow> exec_step e s s'"
| append: "AppendOutput e i sq chunk s = Inr (rc, s') \<Longrightarrow> exec_step e s s'"
| resolve: "Resolve e now k fence key actor decision reason stopped s = Inr (a, s') \<Longrightarrow> exec_step e s s'"
| update: "RuntimeUpdate i fn s = Inr s' \<Longrightarrow> exec_step e s s'"
| business: "exec_step e s (s\<lparr>Business := b, Sources := src, Principals := ps\<rparr>)"

inductive exec_reachable :: "'b engine \<Rightarrow> 'b store \<Rightarrow> bool" for e where
  empty: "Orders s = [] \<Longrightarrow> Attempts s = [] \<Longrightarrow> Outbox s = [] \<Longrightarrow> Outputs s = [] \<Longrightarrow> exec_reachable e s"
| step: "exec_reachable e s \<Longrightarrow> exec_step e s s' \<Longrightarrow> exec_reachable e s'"

lemma exec_step_writes: "exec_step e s s' \<Longrightarrow> exec_inv s \<Longrightarrow> (exec_write e)\<^sup>*\<^sup>* s s'"
proof (induction rule: exec_step.induct)
  case (business s b src ps)
  then show ?case by (intro r_into_rtranclp exec_write.keep) simp_all
qed (auto intro: create_write create_runtime_write start_write ack_write cancel_write complete_write append_write
    resolve_write update_write ClaimCapacity_write Reconcile_write)

text \<open>The engine is a store of attempts in the sense of \<^theory_text>\<open>locale lifecycle\<close>.\<close>

interpretation attempts: lifecycle exec_inv "exec_write e" attempt_of attempt_move "\<lambda>a. exec_terminal (AtState a)" for e :: "'b engine"
  by unfold_locales (auto intro: exec_write_inv dest: exec_write_attempt)

lemma steps_writes: "(exec_step e)\<^sup>*\<^sup>* s s' \<Longrightarrow> exec_inv s \<Longrightarrow> (exec_write e)\<^sup>*\<^sup>* s s'"
proof (induction rule: rtranclp_induct)
  case base
  then show ?case by simp
next
  case (step t u)
  then have w: "(exec_write e)\<^sup>*\<^sup>* s t" by simp
  then have "exec_inv t" using attempts.good_star step.prems by blast
  then show ?case using w exec_step_writes [OF step.hyps(2)] by simp
qed

lemma exec_inv_empty: "Orders s = [] \<Longrightarrow> Attempts s = [] \<Longrightarrow> exec_inv s"
  by (simp add: exec_inv_def keys_distinct_def)

lemma reachable_inv: "exec_reachable e s \<Longrightarrow> exec_inv s"
proof (induction rule: exec_reachable.induct)
  case (empty s)
  then show ?case by (simp add: exec_inv_empty)
next
  case (step s s')
  then show ?case using exec_step_writes attempts.good_star by blast
qed

section \<open>One live attempt\<close>

lemma attempt_row: "exec_inv s \<Longrightarrow> a \<in> set (Attempts s) \<Longrightarrow> attempt_of s (AtExec a) = Some a"
  unfolding attempt_of_def by (intro row_of_in_set) (simp_all add: exec_inv_def)

lemma live_is_current:
  assumes inv: "exec_inv s" and a: "a \<in> set (Attempts s)" "\<not> exec_terminal (AtState a)"
  shows "\<exists>ord. order_of s (AtOrder a) = Some ord \<and> is_current ord a \<and> \<not> order_terminal (LoState ord)"
proof -
  have own: "owned s a" using inv a(1) by (simp add: exec_inv_def)
  obtain ord where ord: "order_of s (AtOrder a) = Some ord" "is_current ord a" "AtExec a \<noteq> []"
    using own a(2) by (auto simp: owned_def)
  have at: "attempt_of s (LoCurrent ord) = Some a"
    using attempt_row [OF inv a(1)] ord(2) [unfolded is_current_def, THEN conjunct1] by simp
  have ok: "order_ok s ord" using exec_inv_order [OF inv ord(1)] by simp
  have "LoCurrent ord \<noteq> []" using ord(2,3) by (simp add: is_current_def)
  then obtain b where "attempt_of s (LoCurrent ord) = Some b" "order_terminal (LoState ord) = exec_terminal (AtState b)"
    using ok by (auto simp: order_ok_def)
  then have "\<not> order_terminal (LoState ord)" using at a(2) by simp
  then show ?thesis using ord by blast
qed

lemma live_unique:
  assumes inv: "exec_inv s" and a: "a \<in> set (Attempts s)" "\<not> exec_terminal (AtState a)"
    and b: "b \<in> set (Attempts s)" "\<not> exec_terminal (AtState b)" and eq: "AtOrder a = AtOrder b"
  shows "a = b"
proof -
  obtain x where x: "order_of s (AtOrder a) = Some x" "is_current x a" using live_is_current [OF inv a] by blast
  have "is_current x b" using live_is_current [OF inv b] x(1) eq by auto
  then have "AtExec b = AtExec a" using x(2) by (simp add: is_current_def)
  then have "attempt_of s (AtExec a) = Some b" using attempt_row [OF inv b(1)] by simp
  then show ?thesis using attempt_row [OF inv a(1)] by simp
qed

section \<open>What a terminal attempt answers\<close>

lemma terminal_complete:
  "attempt_of s (IdExec (ReIdentity r)) = Some a \<Longrightarrow> exec_terminal (AtState a) \<Longrightarrow> Complete e now r s = Inr (rc, s') \<Longrightarrow>
     s' = s \<and> RcDuplicate rc"
  by (auto simp: Complete_def Let_def receipt_def dest!: lockedD split: if_splits option.splits)

lemma terminal_append:
  "attempt_of s (IdExec i) = Some a \<Longrightarrow> exec_terminal (AtState a) \<Longrightarrow> AppendOutput e i sq chunk s = Inr (rc, s') \<Longrightarrow>
     s' = s \<and> RcDuplicate rc"
  by (auto simp: AppendOutput_def receipt_def dest!: lockedD split: if_splits option.splits)

lemma terminal_ack:
  assumes at: "attempt_of s (IdExec i) = Some a" and t: "exec_terminal (AtState a)"
    and c: "AcknowledgeReason e now i kind reason s = Inr (rc, s')"
  shows "s' = s \<and> RcDuplicate rc"
proof -
  obtain ord where l: "lockedAttempt s (IdExec i) = Some (ord, a)"
    using c at by (auto simp: AcknowledgeReason_def lockedAttempt_def split: if_splits option.splits)
  then have "rc = phaseReceipt ord a True \<and> s' = s" using c t by (simp add: AcknowledgeReason_def split: if_splits)
  then show ?thesis by (simp add: phaseReceipt_def receipt_def)
qed

section \<open>The output of an attempt\<close>

definition chunks_of :: "'b store \<Rightarrow> string \<Rightarrow> OutputRow list" where
  "chunks_of s k = filter (\<lambda>r. OrExec r = k) (Outputs s)"

definition out_ok :: "'b store \<Rightarrow> AttemptRow \<Rightarrow> bool" where
  "out_ok s a \<longleftrightarrow> 0 \<le> AtSeq a \<and> map OrSeq (chunks_of s (AtExec a)) = [1..AtSeq a] \<and>
     AtBytes a = sum_list (map (\<lambda>r. int (length (OrChunk r))) (chunks_of s (AtExec a))) \<and> AtBytes a \<le> MaxOutputBytes"

definition out_inv :: "'b store \<Rightarrow> bool" where
  "out_inv s \<longleftrightarrow> (\<forall>r\<in>set (Outputs s). attempt_of s (OrExec r) \<noteq> None) \<and> (\<forall>k a. attempt_of s k = Some a \<longrightarrow> out_ok s a)"

lemma out_ok_frame: "Outputs s' = Outputs s \<Longrightarrow> out_ok s' a = out_ok s a"
  by (simp add: out_ok_def chunks_of_def)

lemma attempt_of_change:
  assumes "\<And>x. same_ids x (f x)" and "Attempts s' = update_where (\<lambda>x. AtExec x = k) f (Attempts s)"
  shows "attempt_of s' j = map_option (\<lambda>x. if AtExec x = k then f x else x) (attempt_of s j)"
  unfolding attempt_of_def assms(2) by (rule attempt_of_upd) (use assms(1) in \<open>simp add: same_ids_def\<close>)

lemma exec_write_out:
  assumes w: "exec_write e s s'" and inv: "exec_inv s" and out: "out_inv s"
  shows "out_inv s'"
  using w
proof cases
  case keep
  have "attempt_of s' j = attempt_of s j" for j by (simp add: attempt_of_def keep)
  then show ?thesis using out keep(3) out_ok_frame [OF keep(3)] by (simp add: out_inv_def)
next
  case (change k ord a f g)
  note at = attempt_of_change [OF change(4) change(9)]
  have fe: "AtExec (f x) = AtExec x" for x using change(4) [of x] by (simp add: same_ids_def)
  have ka: "attempt_of s k = Some a" "AtExec a = k" using lockedD [OF change(1)] by simp_all
  have key: "AtExec b = j" if "attempt_of s j = Some b" for j b using exec_inv_attempt [OF inv that] by simp
  from change(11) consider
      "Outputs s' = Outputs s" "\<forall>x. AtSeq (f x) = AtSeq x \<and> AtBytes (f x) = AtBytes x"
    | chunk h where "AtBytes a + int (length chunk) \<le> MaxOutputBytes"
        "Outputs s' = Outputs s @ [\<lparr>OrExec = k, OrSeq = AtSeq a + 1, OrChunk = chunk, OrSum = h\<rparr>]"
        "AtSeq (f a) = AtSeq a + 1" "AtBytes (f a) = AtBytes a + int (length chunk)"
    unfolding out_effect_def by blast
  then show ?thesis
  proof cases
    case 1
    have "out_ok s' b'" if b': "attempt_of s' j = Some b'" for j b'
    proof -
      obtain b where b: "attempt_of s j = Some b" "b' = (if AtExec b = k then f b else b)" using b' by (auto simp: at)
      then have "out_ok s b" "AtExec b' = AtExec b" "AtSeq b' = AtSeq b" "AtBytes b' = AtBytes b"
        using out 1(2) fe by (auto simp: out_inv_def)
      then show ?thesis by (simp add: out_ok_def chunks_of_def 1(1))
    qed
    then show ?thesis using out 1(1) by (auto simp: out_inv_def at)
  next
    case (2 chunk h)
    have "out_ok s' b'" if b': "attempt_of s' j = Some b'" for j b'
    proof -
      obtain b where b: "attempt_of s j = Some b" "b' = (if AtExec b = k then f b else b)" using b' by (auto simp: at)
      have ok: "out_ok s b" using out b(1) by (auto simp: out_inv_def)
      show ?thesis
      proof (cases "AtExec b = k")
        case True
        then have "b = a" using b(1) key [OF b(1)] ka(1) by simp
        then have e: "b' = f a" using b(2) ka(2) by simp
        have "out_ok s a" using ok \<open>b = a\<close> by simp
        then show ?thesis using 2 fe [of a] ka(2) upto_rec2 [of 1 "AtSeq a + 1"]
          by (simp add: out_ok_def chunks_of_def e)
      next
        case False
        then show ?thesis using ok b(2) 2(2) by (simp add: out_ok_def chunks_of_def)
      qed
    qed
    then show ?thesis using out 2(2) ka by (auto simp: out_inv_def at)
  qed
next
  case (plan oid ord nid a agent key intent)
  have ae: "AtExec a = nid" "AtSeq a = 0" "AtBytes a = 0" using plan(6) by (simp_all add: new_attempt_def)
  have at: "attempt_of s' j = (if j = nid then Some a else attempt_of s j)" for j
    using plan(2) ae(1) unfolding attempt_of_def plan(7) by (auto simp: row_of_append row_of_Cons split: option.splits)
  have "chunks_of s nid = []" using out plan(2) by (auto simp: out_inv_def chunks_of_def filter_empty_conv)
  then have "out_ok s' a" using ae plan(9) by (simp add: out_ok_def chunks_of_def MaxOutputBytes_def)
  moreover have "out_ok s' b" if "attempt_of s j = Some b" for j b
    using out that out_ok_frame [OF plan(9)] by (auto simp: out_inv_def)
  ultimately show ?thesis using out plan(9) by (auto simp: out_inv_def at)
next
  case (create x)
  have "attempt_of s' j = attempt_of s j" for j by (simp add: attempt_of_def create)
  then show ?thesis using out create(9) out_ok_frame [OF create(9)] by (simp add: out_inv_def)
qed

lemma writes_out: "(exec_write e)\<^sup>*\<^sup>* s s' \<Longrightarrow> exec_inv s \<Longrightarrow> out_inv s \<Longrightarrow> exec_inv s' \<and> out_inv s'"
  by (induction rule: rtranclp_induct) (auto intro: exec_write_inv exec_write_out)

lemma reachable_out: "exec_reachable e s \<Longrightarrow> out_inv s"
proof (induction rule: exec_reachable.induct)
  case (empty s)
  then show ?case by (simp add: out_inv_def attempt_of_def)
next
  case (step s s')
  then show ?case using writes_out [OF exec_step_writes] reachable_inv by blast
qed

text \<open>The chunks are stored in the order of their numbers, so sorting them changes nothing.\<close>

lemma chunks_sorted: "map OrSeq rs = [1..n] \<Longrightarrow> sort_key OrSeq rs = rs"
  by (rule sort_key_id_if_sorted) simp

lemma int_length_concat: "int (length (concat xss)) = sum_list (map (\<lambda>xs. int (length xs)) xss)"
  by (induction xss) simp_all

lemma out_ok_output:
  "out_ok s a \<Longrightarrow> output_chunks s (AtExec a) = concat (map OrChunk (chunks_of s (AtExec a))) \<and>
     int (length (output_chunks s (AtExec a))) = AtBytes a"
  using chunks_sorted [of "chunks_of s (AtExec a)" "AtSeq a"]
  by (simp add: out_ok_def output_chunks_def chunks_of_def int_length_concat comp_def)

text \<open>A page of output is the next hundred chunks, none missing and none twice.\<close>

lemma filter_upto: "0 \<le> n \<Longrightarrow> filter (\<lambda>i. i > n) [1..m] = [n + 1..m]"
proof -
  assume n: "0 \<le> n"
  show ?thesis
  proof (cases "n \<le> m")
    case True
    then have "[1..m] = [1..n] @ [n + 1..m]" using n upto_split2 [of 1 n m] by (cases "n = 0") simp_all
    then show ?thesis by (simp add: filter_empty_conv)
  next
    case False
    then show ?thesis by (auto simp: filter_empty_conv)
  qed
qed

lemma take_upto: "take n [i..j] = [i..min j (i + int n - 1)]"
proof (induction n arbitrary: i)
  case 0
  then show ?case by simp
next
  case (Suc n)
  show ?case
  proof (cases "i \<le> j")
    case True
    then have "take (Suc n) [i..j] = i # take n [i + 1..j]" by (simp add: upto_rec1)
    also have "\<dots> = i # [i + 1..min j (i + int n)]" using Suc.IH [of "i + 1"] by simp
    also have "\<dots> = [i..min j (i + int n)]" using True upto_rec1 [of i "min j (i + int n)"] by simp
    finally show ?thesis by simp
  next
    case False
    then show ?thesis by simp
  qed
qed

lemma filter_map_snd: "map f (filter (\<lambda>r. p (f r)) xs) = filter p (map f xs)"
  by (induction xs) auto

lemma out_ok_page:
  assumes ok: "out_ok s a" and r: "ReadOutput (AtExec a) after s = Inr page" and at: "attempt_of s (AtExec a) = Some a"
  shows "map fst page = [after + 1..min (AtSeq a) (after + 100)]"
proof -
  have n: "0 \<le> after" using r by (auto simp: ReadOutput_def split: if_splits)
  define rows where "rows = filter (\<lambda>r. OrSeq r > after) (chunks_of s (AtExec a))"
  have sq: "map OrSeq rows = [after + 1..AtSeq a]"
    using ok filter_upto [OF n, of "AtSeq a"] unfolding rows_def filter_map_snd by (simp add: out_ok_def)
  have "page = take 100 (map (\<lambda>r. (OrSeq r, OrChunk r)) (sort_key OrSeq rows))"
    using r at n by (simp add: ReadOutput_def rows_def chunks_of_def conj_commute)
  moreover have "sort_key OrSeq rows = rows" by (rule sort_key_id_if_sorted) (simp add: sq)
  ultimately have "map fst page = take 100 (map OrSeq rows)" by (simp add: take_map comp_def)
  then show ?thesis using take_upto [of 100 "after + 1" "AtSeq a"] by (simp add: sq add.commute)
qed

section \<open>The queue\<close>

definition live_count :: "'b store \<Rightarrow> nat" where
  "live_count s = count_where (\<lambda>a. \<not> exec_terminal (AtState a)) (Attempts s)"

lemma count_where_update_in:
  "(\<And>r. r \<in> set t \<Longrightarrow> q r \<Longrightarrow> p (f r) \<Longrightarrow> p r) \<Longrightarrow> count_where p (update_where q f t) \<le> count_where p t"
proof (induction t)
  case Nil
  then show ?case by simp
next
  case (Cons x t)
  have "count_where p (update_where q f t) \<le> count_where p t" using Cons by simp
  then show ?case using Cons.prems [of x] by (auto simp: count_where_Cons update_where_Cons)
qed

lemma exec_write_live:
  assumes w: "exec_write e s s'" and inv: "exec_inv s" and eff: "0 \<le> OpenEffects e (Business s)"
  shows "int (live_count s') \<le> max (int (live_count s)) (MaxPending e)"
  using w
proof cases
  case keep
  then show ?thesis by (simp add: live_count_def)
next
  case (change k ord a f g)
  have "count_where (\<lambda>a. \<not> exec_terminal (AtState a)) (Attempts s') \<le> count_where (\<lambda>a. \<not> exec_terminal (AtState a)) (Attempts s)"
    unfolding change(9)
  proof (rule count_where_update_in)
    fix x assume x: "x \<in> set (Attempts s)" "AtExec x = k"
    then have "x = a" using attempt_row [OF inv x(1)] lockedD [OF change(1)] by simp
    then show "\<not> exec_terminal (AtState x)" using allowed_live [OF change(3)] by simp
  qed
  then show ?thesis by (simp add: live_count_def)
next
  case (plan oid ord nid a agent key intent)
  then show ?thesis using eff by (simp add: live_count_def pending_count_def count_where_def)
next
  case (create x)
  then show ?thesis by (simp add: live_count_def)
qed

lemma writes_live:
  "(exec_write e)\<^sup>*\<^sup>* s s' \<Longrightarrow> exec_inv s \<Longrightarrow> \<forall>b. 0 \<le> OpenEffects e b \<Longrightarrow>
     exec_inv s' \<and> int (live_count s') \<le> max (int (live_count s)) (MaxPending e)"
proof (induction rule: rtranclp_induct)
  case base
  then show ?case by simp
next
  case (step t u)
  then have "exec_inv u" using exec_write_inv by blast
  moreover have "int (live_count u) \<le> max (int (live_count t)) (MaxPending e)"
    using exec_write_live [OF step.hyps(2)] step by blast
  ultimately show ?case using step by auto
qed

lemma reachable_live:
  "exec_reachable e s \<Longrightarrow> \<forall>b. 0 \<le> OpenEffects e b \<Longrightarrow> 0 \<le> MaxPending e \<Longrightarrow> int (live_count s) \<le> MaxPending e"
proof (induction rule: exec_reachable.induct)
  case (empty s)
  then show ?case by (simp add: live_count_def count_where_def)
next
  case (step s s')
  then show ?case using writes_live [OF exec_step_writes [OF step.hyps(2)]] reachable_inv by fastforce
qed

section \<open>Requests that repeat\<close>

definition request_of :: "AttemptRow \<Rightarrow> string \<times> string \<times> string \<times> string \<times> string" where
  "request_of a = (AtExec a, AtOrder a, AtKey a, AtAgent a, AtIntent a)"

lemma exec_write_requests: "exec_write e s s' \<Longrightarrow> \<exists>ts. map request_of (Attempts s') = map request_of (Attempts s) @ ts"
proof (induction rule: exec_write.induct)
  case (change s k ord a f g s')
  have "request_of (f x) = request_of x" for x using change(4) [of x] by (simp add: same_ids_def request_of_def)
  then show ?case using change by (simp add: update_where_def comp_def if_distrib cong: if_cong)
qed simp_all

lemma writes_requests: "(exec_write e)\<^sup>*\<^sup>* s s' \<Longrightarrow> \<exists>ts. map request_of (Attempts s') = map request_of (Attempts s) @ ts"
proof (induction rule: rtranclp_induct)
  case base
  then show ?case by simp
next
  case (step t u)
  then show ?case using exec_write_requests [OF step.hyps(2)] by auto
qed

lemma find_request: "map_option request_of (List.find (\<lambda>a. AtOrder a = oid \<and> AtKey a = key) as) =
    List.find (\<lambda>(k, ord, ky, ag, i). ord = oid \<and> ky = key) (map request_of as)"
  by (induction as) (auto simp: request_of_def)

lemma find_append: "List.find p (xs @ ys) = (case List.find p xs of None \<Rightarrow> List.find p ys | Some x \<Rightarrow> Some x)"
  by (induction xs) auto

lemma start_recorded:
  assumes "StartAttempt e now nid oid agent key intent s = Inr (a, s')"
  shows "AtAgent a = agent \<and> AtIntent a = intent \<and> validKey key \<and> agent \<noteq> [] \<and> intent_ok intent \<and>
    (\<exists>x. List.find (\<lambda>a. AtOrder a = oid \<and> AtKey a = key) (Attempts s') = Some x \<and> request_of x = request_of a)"
proof -
  obtain ord where od: "order_of s oid = Some ord" and v: "validKey key" "agent \<noteq> []" "intent_ok intent"
    using assms by (auto simp: StartAttempt_def split: if_splits option.splits)
  show ?thesis
  proof (cases "List.find (\<lambda>a. AtOrder a = oid \<and> AtKey a = key) (Attempts s)")
    case (Some x)
    then show ?thesis using assms od v by (auto simp: StartAttempt_def split: if_splits)
  next
    case None
    have lo: "LoId ord = oid" using od row_of_SomeD [of LoId oid "Orders s" ord] by (simp add: order_of_def)
    obtain d where pl: "plan_attempt e now nid ord agent key intent d s = Inr (a, s')"
      using assms od None by (auto simp: StartAttempt_def split: if_splits option.splits snapshot.splits sum.splits)
    have "a = new_attempt nid ord agent key intent" "Attempts s' = Attempts s @ [a]"
      using pl transition_core by (fastforce simp: plan_attempt_def Let_def core split: if_splits sum.splits)+
    then show ?thesis using None v lo by (simp add: find_append new_attempt_def request_of_def)
  qed
qed

lemma complete_sets:
  assumes c: "Complete e now r s = Inr (rc, s')" and h: "ResultSum e (ReExit r) (ReOutput r) \<noteq> []"
  shows "int (length (ReOutput r)) \<le> MaxOutputBytes \<and>
    (\<exists>a. attempt_of s' (IdExec (ReIdentity r)) = Some a \<and> identityOK a (ReIdentity r) \<and> AtSum a = ResultSum e (ReExit r) (ReOutput r))"
proof -
  let ?k = "IdExec (ReIdentity r)"
  have len: "int (length (ReOutput r)) \<le> MaxOutputBytes" using c by (simp add: Complete_def split: if_splits)
  obtain ord a where l: "lockedAttempt s ?k = Some (ord, a)" and i: "identityOK a (ReIdentity r)"
    using c by (auto simp: Complete_def split: if_splits option.splits)
  note la = lockedD [OF l]
  show ?thesis
  proof (cases "AtSum a = []")
    case False
    then have "s' = s" "ResultSum e (ReExit r) (ReOutput r) = AtSum a" using c l by (auto simp: Complete_def Let_def split: if_splits)
    then show ?thesis using la i len by auto
  next
    case True
    define f :: "AttemptRow \<Rightarrow> AttemptRow" where "f = (\<lambda>x. x\<lparr>AtState := result_state (ReExit r), AtExit := Some (ReExit r), AtOutput := ReOutput r,
      AtSum := ResultSum e (ReExit r) (ReOutput r), AtFinished := now, AtLease := 0\<rparr>)"
    obtain x s3 s4 where t: "exec_transition e ord x ''result'' (Some r) s3 = Inr s4"
      and s3: "Attempts s3 = update_where (\<lambda>a. AtExec a = ?k) f (Attempts s)" and s': "Attempts s' = Attempts s4"
      using c l True la unfolding f_def by (fastforce simp: Complete_def Let_def core split: if_splits sum.splits)
    have "attempt_of s' ?k = map_option (\<lambda>x. if AtExec x = ?k then f x else x) (attempt_of s ?k)"
      unfolding attempt_of_def s' conjunct1 [OF conjunct2 [OF transition_core [OF t]]] s3
      by (rule attempt_of_upd) (simp add: f_def)
    then show ?thesis using la i len by (simp add: f_def identityOK_def)
  qed
qed

lemma complete_again:
  assumes inv: "exec_inv s" and at: "attempt_of s (IdExec (ReIdentity r)) = Some a" "identityOK a (ReIdentity r)"
    "AtSum a \<noteq> []" "int (length (ReOutput r)) \<le> MaxOutputBytes"
  shows "Complete e now r s = (if ResultSum e (ReExit r) (ReOutput r) = AtSum a
     then Inr (receipt (IdExec (ReIdentity r)) True, s) else Inl ErrConflict)"
proof -
  note oa = exec_inv_attempt [OF inv at(1)]
  then obtain ord where "order_of s (AtOrder a) = Some ord" by (auto simp: owned_def)
  then have "lockedAttempt s (IdExec (ReIdentity r)) = Some (ord, a)" using at by (simp add: lockedAttempt_def)
  then show ?thesis using at oa by (simp add: Complete_def Let_def)
qed

section \<open>Delivered messages\<close>

definition message_current :: "string \<Rightarrow> Envelope \<Rightarrow> 'b store \<Rightarrow> bool" where
  "message_current agent m s \<longleftrightarrow> MsgProtocol m = ProtocolVersion \<and> MsgAgent m = agent \<and>
     (\<exists>ord a. lockedAttempt s (MsgExec m) = Some (ord, a) \<and> is_current ord a \<and> \<not> exec_terminal (AtState a) \<and>
        AtAgent a = agent \<and> MsgFence m = AtFence a \<and> (MsgKind m = DispatchMsg \<longrightarrow> AtState a = Dispatching \<and> AtAccepted a = 0))"

lemma lockedAttempt_change:
  assumes "\<And>x. same_ids x (f x)" and "Attempts s' = update_where (\<lambda>x. AtExec x = k) f (Attempts s)" "Orders s' = Orders s"
    and "lockedAttempt s k = Some (ord, a)"
  shows "lockedAttempt s' k = Some (ord, f a)"
proof -
  note l = lockedD [OF assms(4)]
  have "attempt_of s' k = Some (f a)" using attempt_of_change [OF assms(1,2)] l by simp
  moreover have "AtOrder (f a) = AtOrder a" using assms(1) [of a] by (simp add: same_ids_def)
  moreover have "order_of s' (AtOrder a) = Some ord" using l by (simp add: order_of_def assms(3))
  ultimately show ?thesis by (simp add: lockedAttempt_def)
qed

lemma claimOne_message:
  assumes inv: "exec_inv s" and c: "claimOne e now agent k s = Inr (Some m, s')"
  shows "message_current agent m s'"
proof -
  obtain b ord a where b: "box_of s k = Some b" "lockedAttempt s (ObExec b) = Some (ord, a)"
    using c by (auto simp: claimOne_def split: option.splits)
  have n: "\<not> claim_skipped now agent b ord a" "message_ok b a agent" "m = ObPayload b" "s' = deliver e now b a s"
    using c b by (auto simp: claimOne_def split: if_splits sum.splits)
  note la = lockedD [OF b(2)]
  have cur: "is_current ord a" "\<not> exec_terminal (AtState a)" "AtAgent a = agent"
    "ObKind b = DispatchMsg \<longrightarrow> AtState a = DispatchPending \<or> AtState a = Dispatching"
    using n(1) by (auto simp: claim_skipped_def)
  have ph: "phase_ok a" using current_order [OF inv b(2) cur(1)] by simp
  define f :: "AttemptRow \<Rightarrow> AttemptRow" where "f = (if ObKind b = DispatchMsg then (\<lambda>x. x\<lparr>AtState := Dispatching\<rparr>) else (\<lambda>x. x))"
  have "lockedAttempt s' (ObExec b) = Some (ord, f a)"
    by (rule lockedAttempt_change [OF _ _ _ b(2)])
      (use la in \<open>simp_all add: n(4) deliver_def Let_def core f_def same_ids_def update_where_id\<close>)
  moreover have "is_current ord (f a)" "\<not> exec_terminal (AtState (f a))" "AtAgent (f a) = agent" "AtFence (f a) = AtFence a"
    using cur by (simp_all add: f_def is_current_def exec_terminal_def)
  moreover have "ObKind b = DispatchMsg \<longrightarrow> AtState (f a) = Dispatching \<and> AtAccepted (f a) = 0"
    using cur(4) ph by (auto simp: f_def phase_ok_def)
  ultimately show ?thesis using n(2,3) la by (simp add: message_current_def message_ok_def Let_def)
qed

lemma claim_loop_message:
  "claim_loop e now agent ks s = (Inr (Some m), s') \<Longrightarrow> exec_inv s \<Longrightarrow> message_current agent m s'"
proof (induction ks arbitrary: s)
  case Nil
  then show ?case by simp
next
  case (Cons k ks)
  then show ?case using claimOne_message [OF Cons.prems(2)] exec_write_inv [OF claimOne_write [OF Cons.prems(2)] Cons.prems(2)]
    by (auto split: sum.splits option.splits prod.splits)
qed

end
