(* ===== verification/ExecutionCorrect.thy ===== *)
theory ExecutionCorrect
  imports ExecutionRuns
begin

text \<open>
  The properties of the execution engine, each at the end of \<^theory_text>\<open>ExecutionRuns\<close>' lemmas, and a
  run of one order from its creation to its result on which they are applied.
\<close>

section \<open>A run\<close>

definition demo_job :: JobDefinition where
  "demo_job = zero_def\<lparr>ID := ''J'', JobType := ''shell'', BusinessTime := Some \<lparr>Timezone = ''UTC'', DailyAt = ''07:00''\<rparr>\<rparr>"

definition demo_engine :: "unit engine" where
  "demo_engine = \<lparr>MaxPending = 10, DeliveryLease = 30000, ExecutionLease = 90000, MaxDeliveries = 5, Transition = None,
     Prepare = None, OpenEffects = (\<lambda>_. 0), SnapSum = (\<lambda>_. ''s''), ChunkSum = (\<lambda>c. c), ResultSum = (\<lambda>c t. CHR ''r'' # t),
     Zones = (\<lambda>_. Some utc_zone)\<rparr>"

definition demo0 :: "unit store" where
  "demo0 = \<lparr>Orders = [], Attempts = [], Outbox = [], Outputs = [], ExecEvents = [], Decisions = [], RuntimeOrders = [],
     Principals = [\<lparr>PrAgent = ''a'', PrEnv = [], PrCaps = ''EXECUTION_V2,SHELL'', PrInternal = False\<rparr>],
     Sources = (\<lambda>_. Some \<lparr>SrDef = ''J'', SrStatus = StatusWaiting, SrSnapshot = Frozen demo_job, SrExpected = [], SrDaily = None\<rparr>),
     Business = ()\<rparr>"

definition demo_id :: Identity where
  "demo_id = \<lparr>IdProtocol = 2, IdExec = ''E'', IdFence = 1, IdAgent = ''a''\<rparr>"

definition demo_result :: ExecResult where
  "demo_result = \<lparr>ReIdentity = demo_id, ReExit = 0, ReOutput = ''x''\<rparr>"

definition "demo1 = snd (projr (CreateOrder demo_engine ''O'' ''I'' ''k'' demo0))"
definition "demo2 = snd (projr (StartAttempt demo_engine 1 ''E'' ''O'' ''a'' ''q'' ''start'' demo1))"
definition "demo3 = snd (ClaimCapacity demo_engine 2 ''a'' True demo2)"
definition "demo4 = snd (projr (AcknowledgeReason demo_engine 3 demo_id ''accepted'' [] demo3))"
definition "demo5 = snd (projr (AcknowledgeReason demo_engine 4 demo_id ''started'' [] demo4))"
definition "demo6 = snd (projr (AppendOutput demo_engine demo_id 1 ''x'' demo5))"
definition "demo7 = snd (projr (Complete demo_engine 5 demo_result demo6))"

definition "demo8 = snd (projr (StartAttempt demo_engine 6 ''F'' ''O'' ''a'' ''p'' ''rerun'' demo7))"

lemma inr_eq: "\<not> isl r \<Longrightarrow> r = Inr (fst (projr r), snd (projr r))"
  by (cases r) simp_all

lemma demo1: "\<not> isl (CreateOrder demo_engine ''O'' ''I'' ''k'' demo0)"
  by code_simp
lemma demo2: "\<not> isl (StartAttempt demo_engine 1 ''E'' ''O'' ''a'' ''q'' ''start'' demo1)"
  by code_simp
lemma demo4: "\<not> isl (AcknowledgeReason demo_engine 3 demo_id ''accepted'' [] demo3)"
  by code_simp
lemma demo5: "\<not> isl (AcknowledgeReason demo_engine 4 demo_id ''started'' [] demo4)"
  by code_simp
lemma demo6: "\<not> isl (AppendOutput demo_engine demo_id 1 ''x'' demo5)"
  by code_simp
lemma demo7: "\<not> isl (Complete demo_engine 5 demo_result demo6)"
  by code_simp
lemma demo7_state: "map AtState (Attempts demo7) = [Succeeded] \<and> map AtState (Attempts demo3) = [Dispatching]"
  by code_simp
lemma demo8: "\<not> isl (StartAttempt demo_engine 6 ''F'' ''O'' ''a'' ''p'' ''rerun'' demo7)"
  by code_simp
lemma demo8_state: "map AtState (Attempts demo8) = [Succeeded, DispatchPending] \<and> map LoCurrent (Orders demo8) = [''F'']"
  by code_simp

lemma demo_steps:
  "exec_step demo_engine demo0 demo1" "exec_step demo_engine demo1 demo2" "exec_step demo_engine demo2 demo3"
  "exec_step demo_engine demo3 demo4" "exec_step demo_engine demo4 demo5" "exec_step demo_engine demo5 demo6"
  "exec_step demo_engine demo6 demo7" "exec_step demo_engine demo7 demo8"
  using exec_step.order [OF inr_eq [OF demo1]] exec_step.start [OF inr_eq [OF demo2]] exec_step.ack [OF inr_eq [OF demo4]]
    exec_step.ack [OF inr_eq [OF demo5]] exec_step.append [OF inr_eq [OF demo6]] exec_step.complete [OF inr_eq [OF demo7]]
    exec_step.start [OF inr_eq [OF demo8]] exec_step.claim [of demo_engine 2 "''a''" True demo2 "fst (ClaimCapacity demo_engine 2 ''a'' True demo2)"]
  by (simp_all add: demo1_def demo2_def demo3_def demo4_def demo5_def demo6_def demo7_def demo8_def)

lemma demo_reachable:
  "exec_reachable demo_engine demo2" "exec_reachable demo_engine demo3" "exec_reachable demo_engine demo6"
  "exec_reachable demo_engine demo7" "exec_reachable demo_engine demo8"
proof -
  have "exec_reachable demo_engine demo0" by (rule exec_reachable.empty) (simp_all add: demo0_def)
  then show 2: "exec_reachable demo_engine demo2" using demo_steps by (blast intro: exec_reachable.step)
  then show "exec_reachable demo_engine demo3" using demo_steps by (blast intro: exec_reachable.step)
  then show 6: "exec_reachable demo_engine demo6" using demo_steps by (blast intro: exec_reachable.step)
  then show "exec_reachable demo_engine demo7" using demo_steps by (blast intro: exec_reachable.step)
  then show "exec_reachable demo_engine demo8" using demo_steps by (blast intro: exec_reachable.step)
qed

section \<open>Properties\<close>

text \<open>C1. An order never has two attempts alive.  In every state the engine can reach, through any
  interleaving of its operations, an attempt that is not terminal is the one its order names as the
  current one, under the fence of the order, and every other attempt of that order has ended.\<close>

theorem one_live_attempt:
  assumes "exec_reachable e s"
    and "a \<in> set (Attempts s)" "\<not> exec_terminal (AtState a)"
  shows "(\<exists>ord. order_of s (AtOrder a) = Some ord \<and> LoCurrent ord = AtExec a \<and> LoFence ord = AtFence a \<and> \<not> order_terminal (LoState ord)) \<and>
    (\<forall>b\<in>set (Attempts s). AtOrder b = AtOrder a \<longrightarrow> b = a \<or> exec_terminal (AtState b))"
proof -
  note inv = reachable_inv [OF assms(1)]
  show ?thesis using live_is_current [OF inv assms(2,3)] live_unique [OF inv _ _ assms(2,3)] by (auto simp: is_current_def)
qed

theorem one_live_attempt_witness:
  "map AtState (Attempts demo8) = [Succeeded, DispatchPending] \<and>
   (\<exists>ord. order_of demo8 (AtOrder (Attempts demo8 ! 1)) = Some ord \<and> LoCurrent ord = AtExec (Attempts demo8 ! 1))"
proof -
  have l: "length (Attempts demo8) = 2" "AtState (Attempts demo8 ! 1) = DispatchPending"
    using demo8_state by (auto simp: map_eq_Cons_conv)
  then show ?thesis
    using one_live_attempt [OF demo_reachable(5), of "Attempts demo8 ! 1"] demo8_state by (auto simp: exec_terminal_def)
qed

text \<open>C7. An attempt lives once.  Whatever the engine does, the attempt keeps its identity (order,
  number, fence, agent, key), its state follows the automaton \<^theory_text>\<open>allowed\<close>, and once it has succeeded,
  failed or been cancelled no operation changes its row again: neither a late message of the agent,
  nor a cancellation, a lease that expires or an operator.\<close>

theorem attempt_ends_once:
  assumes "exec_reachable e s" "(exec_step e)\<^sup>*\<^sup>* s s'" "attempt_of s k = Some a"
  shows "\<exists>a'. attempt_of s' k = Some a' \<and> same_ids a a' \<and> allowed\<^sup>*\<^sup>* (AtState a) (AtState a') \<and>
    (exec_terminal (AtState a) \<longrightarrow> a' = a)"
proof -
  note inv = reachable_inv [OF assms(1)]
  note w = steps_writes [OF assms(2) inv]
  obtain a' where a': "attempt_of s' k = Some a'" "attempt_move\<^sup>*\<^sup>* a a'" using attempts.path [OF w inv assms(3)] by auto
  have "same_ids a a' \<and> allowed\<^sup>*\<^sup>* (AtState a) (AtState a')"
    using a'(2) by (induction rule: rtranclp_induct) (auto simp: attempt_move_def same_ids_def intro: rtranclp.rtrancl_into_rtrancl)
  then show ?thesis using a'(1) attempts.final_kept [OF w inv assms(3)] by auto
qed

theorem attempt_ends_once_witness:
  "attempt_of demo7 ''E'' = attempt_of demo8 ''E'' \<and> attempt_of demo7 ''E'' \<noteq> None"
proof -
  obtain a where a: "attempt_of demo7 ''E'' = Some a" "AtState a = Succeeded"
  proof -
    have "map_option AtState (attempt_of demo7 ''E'') = Some Succeeded" by code_simp
    then show ?thesis using that by (auto simp: map_option_eq_Some)
  qed
  then show ?thesis
    using attempt_ends_once [OF demo_reachable(4) r_into_rtranclp [of "exec_step demo_engine", OF demo_steps(8)] a(1)] by (auto simp: exec_terminal_def)
qed

text \<open>C29. Late messages write nothing.  Once an attempt has been superseded by a newer one, or has
  ended, then however the engine went on, a result, an output chunk or an acknowledgement sent under
  its identity leaves the whole store as it was: it is refused, or it is answered as a repetition.\<close>

theorem late_messages_write_nothing:
  assumes "exec_reachable e s" "attempt_of s k = Some a" "order_of s (AtOrder a) = Some ord"
    and "\<not> is_current ord a \<or> exec_terminal (AtState a)" "(exec_step e)\<^sup>*\<^sup>* s s'"
  shows "(\<forall>now r rc t. IdExec (ReIdentity r) = k \<longrightarrow> Complete e now r s' = Inr (rc, t) \<longrightarrow> t = s' \<and> RcDuplicate rc) \<and>
    (\<forall>i sq chunk rc t. IdExec i = k \<longrightarrow> AppendOutput e i sq chunk s' = Inr (rc, t) \<longrightarrow> t = s' \<and> RcDuplicate rc) \<and>
    (\<forall>now i kind reason rc t. IdExec i = k \<longrightarrow> AcknowledgeReason e now i kind reason s' = Inr (rc, t) \<longrightarrow> t = s' \<and> RcDuplicate rc)"
proof -
  note inv = reachable_inv [OF assms(1)]
  have "owned s a" using exec_inv_attempt [OF inv assms(2)] by simp
  then have t: "exec_terminal (AtState a)" using assms(3,4) by (auto simp: owned_def)
  have "attempt_of s' k = Some a" using attempts.final_kept [OF steps_writes [OF assms(5) inv] inv assms(2) t] .
  then have "IdExec i = k \<Longrightarrow> attempt_of s' (IdExec i) = Some a" for i by simp
  note * = this
  show ?thesis
    by (intro conjI allI impI) (rule conjunct1 [OF terminal_complete [OF * t]] conjunct2 [OF terminal_complete [OF * t]]
      conjunct1 [OF terminal_append [OF * t]] conjunct2 [OF terminal_append [OF * t]]
      conjunct1 [OF terminal_ack [OF * t]] conjunct2 [OF terminal_ack [OF * t]]; assumption)+
qed

theorem late_messages_write_nothing_witness:
  "snd (projr (Complete demo_engine 9 demo_result demo8)) = demo8 \<and> \<not> isl (Complete demo_engine 9 demo_result demo8)"
proof -
  have a: "map_option AtState (attempt_of demo8 ''E'') = Some Succeeded"
    "map_option AtOrder (attempt_of demo8 ''E'') = Some ''O''" "map_option LoCurrent (order_of demo8 ''O'') = Some ''F''"
    "\<not> isl (Complete demo_engine 9 demo_result demo8)" by code_simp+
  obtain x ord where x: "attempt_of demo8 ''E'' = Some x" "order_of demo8 (AtOrder x) = Some ord" "exec_terminal (AtState x)"
    using a by (auto simp: map_option_eq_Some exec_terminal_def)
  have "IdExec (ReIdentity demo_result) = ''E''" by (simp add: demo_result_def demo_id_def)
  then show ?thesis
    using conjunct1 [OF late_messages_write_nothing [OF demo_reachable(5) x(1,2) disjI2 [OF x(3)] rtranclp.rtrancl_refl]]
      inr_eq [OF a(4)] a(4) by blast
qed

text \<open>C21. A result is recorded once.  After a result has been accepted, and whatever happened since,
  delivering the same result again is answered as a duplicate and changes nothing, and a result under
  the same identity with another checksum is a conflict.\<close>

theorem result_recorded_once:
  assumes "exec_reachable e s" "Complete e now r s = Inr (rc, s1)" "ResultSum e (ReExit r) (ReOutput r) \<noteq> []"
    and "(exec_step e)\<^sup>*\<^sup>* s1 s2"
  shows "Complete e now2 r s2 = Inr (receipt (IdExec (ReIdentity r)) True, s2) \<and>
    (\<forall>q. ReIdentity q = ReIdentity r \<longrightarrow> int (length (ReOutput q)) \<le> MaxOutputBytes \<longrightarrow>
       ResultSum e (ReExit q) (ReOutput q) \<noteq> ResultSum e (ReExit r) (ReOutput r) \<longrightarrow> Complete e now2 q s2 = Inl ErrConflict)"
proof -
  have r1: "exec_reachable e s1" using assms(1,2) exec_reachable.step exec_step.complete by blast
  note inv1 = reachable_inv [OF r1]
  note w = steps_writes [OF assms(4) inv1]
  have inv2: "exec_inv s2" using attempts.good_star [OF w inv1] .
  obtain a where len: "int (length (ReOutput r)) \<le> MaxOutputBytes"
    and a: "attempt_of s1 (IdExec (ReIdentity r)) = Some a" "identityOK a (ReIdentity r)" "AtSum a = ResultSum e (ReExit r) (ReOutput r)"
    using complete_sets [OF assms(2,3)] by auto
  have "exec_terminal (AtState a)" using exec_inv_attempt [OF inv1 a(1)] a(3) assms(3) by (simp add: owned_def)
  then have a2: "attempt_of s2 (IdExec (ReIdentity r)) = Some a" using attempts.final_kept [OF w inv1 a(1)] by simp
  show ?thesis using complete_again [OF inv2, of _ a] a2 a(2,3) assms(3) len by auto
qed

theorem result_recorded_once_witness:
  "Complete demo_engine 77 demo_result demo8 = Inr (receipt ''E'' True, demo8) \<and>
   Complete demo_engine 77 (demo_result\<lparr>ReOutput := ''y''\<rparr>) demo8 = Inl ErrConflict"
proof -
  have r: "exec_reachable demo_engine demo6" "Complete demo_engine 5 demo_result demo6 = Inr (fst (projr (Complete demo_engine 5 demo_result demo6)), demo7)"
    using demo_reachable(3) inr_eq [OF demo7] by (simp_all add: demo7_def)
  have h: "ResultSum demo_engine (ReExit demo_result) (ReOutput demo_result) \<noteq> []" by (simp add: demo_engine_def)
  note it = result_recorded_once [OF r h r_into_rtranclp [of "exec_step demo_engine", OF demo_steps(8)], of 77]
  have "IdExec (ReIdentity demo_result) = ''E''" by (simp add: demo_result_def demo_id_def)
  moreover have "ReIdentity (demo_result\<lparr>ReOutput := ''y''\<rparr>) = ReIdentity demo_result" "int (length (ReOutput (demo_result\<lparr>ReOutput := ''y''\<rparr>))) \<le> MaxOutputBytes"
    "ResultSum demo_engine (ReExit (demo_result\<lparr>ReOutput := ''y''\<rparr>)) (ReOutput (demo_result\<lparr>ReOutput := ''y''\<rparr>)) \<noteq> ResultSum demo_engine (ReExit demo_result) (ReOutput demo_result)"
    by (simp_all add: demo_result_def demo_engine_def MaxOutputBytes_def)
  ultimately show ?thesis using it by auto
qed

text \<open>C35. The output of an attempt is a gap-free log within its limit.  In every reachable state the
  chunks stored for an attempt carry the numbers 1 to its last sequence number in that order, their
  total length is the counter of the attempt and stays within \<open>MaxOutputBytes\<close>, and a reader that
  pages through it gets exactly the next hundred chunks.\<close>

theorem output_is_contiguous:
  assumes "exec_reachable e s" "attempt_of s k = Some a"
  shows "map OrSeq (chunks_of s k) = [1..AtSeq a] \<and> output_chunks s k = concat (map OrChunk (chunks_of s k)) \<and>
    int (length (output_chunks s k)) = AtBytes a \<and> AtBytes a \<le> MaxOutputBytes \<and>
    (\<forall>after page. ReadOutput k after s = Inr page \<longrightarrow> map fst page = [after + 1..min (AtSeq a) (after + 100)])"
proof -
  have ok: "out_ok s a" using reachable_out [OF assms(1)] assms(2) by (simp add: out_inv_def)
  have k: "AtExec a = k" using exec_inv_attempt [OF reachable_inv [OF assms(1)] assms(2)] by simp
  show ?thesis using ok out_ok_output [OF ok] out_ok_page [OF ok] assms(2) by (auto simp: out_ok_def k)
qed

theorem output_is_contiguous_witness:
  "map OrSeq (chunks_of demo7 ''E'') = [1] \<and> map_option AtBytes (attempt_of demo7 ''E'') = Some 1"
proof -
  have "map_option AtSeq (attempt_of demo7 ''E'') = Some 1" "map_option AtBytes (attempt_of demo7 ''E'') = Some 1" by code_simp+
  then show ?thesis using output_is_contiguous [OF demo_reachable(4), of "''E''"] by (auto simp: map_option_eq_Some)
qed

text \<open>C36. The queue is bounded.  As long as the count of open effects is not negative, the number of
  attempts that are alive never exceeds \<open>MaxPending\<close>, over all orders and every interleaving.\<close>

theorem queue_is_bounded:
  assumes "exec_reachable e s" "\<forall>b. 0 \<le> OpenEffects e b" "0 \<le> MaxPending e"
  shows "int (length (filter (\<lambda>a. \<not> exec_terminal (AtState a)) (Attempts s))) \<le> MaxPending e"
  using reachable_live [OF assms] by (simp add: live_count_def count_where_def)

theorem queue_is_bounded_witness:
  "int (length (filter (\<lambda>a. \<not> exec_terminal (AtState a)) (Attempts demo8))) \<le> 10 \<and>
   filter (\<lambda>a. \<not> exec_terminal (AtState a)) (Attempts demo8) \<noteq> []"
  using queue_is_bounded [OF demo_reachable(5)] demo8_state
  by (auto simp: demo_engine_def exec_terminal_def map_eq_Cons_conv)

text \<open>A start request is idempotent.  After a request of a client has produced an attempt, and
  whatever happened since, the same request produces no other: it answers with that attempt and leaves
  the store as it is; the same key with another agent or intent is a conflict.\<close>

theorem start_is_idempotent:
  assumes "exec_reachable e s" "StartAttempt e now nid oid agent key intent s = Inr (a, s1)" "nid \<noteq> []"
    and "(exec_step e)\<^sup>*\<^sup>* s1 s2"
  shows "(\<exists>a2. StartAttempt e now2 nid2 oid agent key intent s2 = Inr (a2, s2) \<and> AtExec a2 = AtExec a) \<and>
    (\<forall>agent2 intent2. agent2 \<noteq> [] \<longrightarrow> intent_ok intent2 \<longrightarrow> agent2 \<noteq> agent \<or> intent2 \<noteq> intent \<longrightarrow>
       StartAttempt e now2 nid2 oid agent2 key intent2 s2 = Inl ErrConflict)"
proof -
  have inv1: "exec_inv s1" using reachable_inv assms(1-3) exec_reachable.step exec_step.start by blast
  note w = steps_writes [OF assms(4) inv1]
  have inv2: "exec_inv s2" using attempts.good_star [OF w inv1] .
  let ?find = "\<lambda>t. List.find (\<lambda>a. AtOrder a = oid \<and> AtKey a = key) (Attempts t)"
  obtain x where r: "AtAgent a = agent" "AtIntent a = intent" "validKey key" "agent \<noteq> []" "intent_ok intent"
    and x: "?find s1 = Some x" "request_of x = request_of a"
    using start_recorded [OF assms(2)] by auto
  obtain ts where "map request_of (Attempts s2) = map request_of (Attempts s1) @ ts" using writes_requests [OF w] by auto
  then have "map_option request_of (?find s2) = Some (request_of x)"
    using find_request [of oid key "Attempts s1", symmetric] by (simp add: x(1) find_request find_append)
  then obtain y where y: "?find s2 = Some y" "request_of y = request_of a" using x(2) by (auto simp: map_option_eq_Some)
  have "y \<in> set (Attempts s2)" "AtOrder y = oid" using y(1) by (auto simp: find_Some_iff)
  then obtain ord where ord: "order_of s2 oid = Some ord" using inv2 by (auto simp: exec_inv_def owned_def)
  show ?thesis using y r ord by (auto simp: StartAttempt_def request_of_def)
qed

theorem start_is_idempotent_witness:
  "map_option AtExec (List.find (\<lambda>a. AtKey a = ''q'') (Attempts demo8)) = Some ''E'' \<and>
   (\<exists>a. StartAttempt demo_engine 99 ''G'' ''O'' ''a'' ''q'' ''start'' demo8 = Inr (a, demo8)) \<and>
   StartAttempt demo_engine 99 ''G'' ''O'' ''b'' ''q'' ''start'' demo8 = Inl ErrConflict"
proof -
  have 0: "exec_reachable demo_engine demo0" by (rule exec_reachable.empty) (simp_all add: demo0_def)
  have 1: "exec_reachable demo_engine demo1" by (rule exec_reachable.step [OF 0 demo_steps(1)])
  have st: "StartAttempt demo_engine 1 ''E'' ''O'' ''a'' ''q'' ''start'' demo1 =
      Inr (fst (projr (StartAttempt demo_engine 1 ''E'' ''O'' ''a'' ''q'' ''start'' demo1)), demo2)"
    using inr_eq [OF demo2] by (simp add: demo2_def)
  have steps: "(exec_step demo_engine)\<^sup>*\<^sup>* demo2 demo8"
    using demo_steps(3-8) by (meson converse_rtranclp_into_rtranclp rtranclp.rtrancl_refl)
  have "map_option AtExec (List.find (\<lambda>a. AtKey a = ''q'') (Attempts demo8)) = Some ''E''" by code_simp
  then show ?thesis using start_is_idempotent [OF 1 st _ steps, of 99 "''G''"] by (auto simp: intent_ok_def)
qed

text \<open>C34. A delivered message is current.  A message that \<open>ClaimCapacity\<close> hands to an agent is
  addressed to it, carries the fence of the live current attempt it names, and a dispatch is never
  delivered for an attempt that the agent has already accepted.\<close>

theorem delivered_message_is_current:
  assumes "exec_reachable e s" "ClaimCapacity e now agent available s = (Inr (Some m), s')"
  shows "MsgAgent m = agent \<and> MsgProtocol m = ProtocolVersion \<and>
    (\<exists>ord a. order_of s' (AtOrder a) = Some ord \<and> attempt_of s' (MsgExec m) = Some a \<and> is_current ord a \<and>
       \<not> exec_terminal (AtState a) \<and> AtAgent a = agent \<and> MsgFence m = AtFence a \<and>
       (MsgKind m = DispatchMsg \<longrightarrow> AtState a = Dispatching \<and> AtAccepted a = 0))"
proof -
  have "message_current agent m s'"
    using assms(2) claim_loop_message reachable_inv [OF assms(1)] by (auto simp: ClaimCapacity_def split: if_splits)
  then show ?thesis unfolding message_current_def using lockedD by blast
qed

theorem delivered_message_is_current_witness:
  "\<exists>m. fst (ClaimCapacity demo_engine 2 ''a'' True demo2) = Inr (Some m) \<and> MsgAgent m = ''a''"
proof -
  have "\<not> isl (fst (ClaimCapacity demo_engine 2 ''a'' True demo2)) \<and> projr (fst (ClaimCapacity demo_engine 2 ''a'' True demo2)) \<noteq> None"
    by code_simp
  then obtain m where "ClaimCapacity demo_engine 2 ''a'' True demo2 = (Inr (Some m), snd (ClaimCapacity demo_engine 2 ''a'' True demo2))"
    by (cases "ClaimCapacity demo_engine 2 ''a'' True demo2"; cases "fst (ClaimCapacity demo_engine 2 ''a'' True demo2)") auto
  from this delivered_message_is_current [OF demo_reachable(1) this] show ?thesis by (metis fst_conv)
qed

section \<open>What the code does not do\<close>

text \<open>The bound of five minutes that \<open>claimOne\<close> puts on the redelivery delay is never reached.\<close>

lemma redelivery_delay_limit: "redelivery_delay n \<le> 256000"
proof -
  have "(2::int) ^ min n 8 \<le> 2 ^ 8" by (rule power_increasing) simp_all
  then show ?thesis by (simp add: redelivery_delay_def)
qed

text \<open>
  A cancellation whose message was paused by an \<open>uncertain\<close> report is not sent again by a second
  request: the row exists, so the insert does nothing, and its state stays paused.
\<close>

definition "late1 = snd (projr (CancelFor demo_engine 3 ''O'' ''op'' demo3))"
definition "late2 = snd (projr (AcknowledgeReason demo_engine 4 demo_id ''uncertain'' [] late1))"
definition "late3 = snd (projr (CancelFor demo_engine 5 ''O'' ''op'' late2))"

lemma second_cancel_never_sent:
  "\<not> isl (CancelFor demo_engine 5 ''O'' ''op'' late2) \<and> map AtState (Attempts late3) = [CancelRequested] \<and>
   map AtLease (Attempts late3) = [0] \<and> map ObState (Outbox late3) = [BoxCancelled, Paused]"
  by code_simp

lemma paused_never_claimed:
  "\<forall>b\<in>set (Outbox s). ObState b \<noteq> Pending \<and> ObState b \<noteq> Leased \<Longrightarrow> agent \<noteq> [] \<Longrightarrow>
     ClaimCapacity e now agent available s = (Inr None, s)"
proof -
  assume "\<forall>b\<in>set (Outbox s). ObState b \<noteq> Pending \<and> ObState b \<noteq> Leased" and a: "agent \<noteq> []"
  then have "filter (\<lambda>b. (case attempt_of s (ObExec b) of None \<Rightarrow> False | Some a \<Rightarrow> AtAgent a = agent) \<and>
    undelivered b \<and> ObNext b \<le> now \<and> ObLease b \<le> now \<and> (available \<or> ObKind b = CancelMsg)) (Outbox s) = []"
    by (auto simp: filter_empty_conv undelivered_def)
  then have "claim_candidates now agent available s = []" by (simp add: claim_candidates_def)
  then show ?thesis using a by (simp add: ClaimCapacity_def)
qed

end
