(* ===== verification/Utf8.thy ===== *)
theory Utf8
  imports Prelude
begin

text \<open>
  Go's \<open>unicode/utf8\<close> and \<open>strings.ToValidUTF8\<close> on byte strings, as far as the journal of the agent
  uses them.
\<close>

definition byte_in :: "nat \<Rightarrow> nat \<Rightarrow> char \<Rightarrow> bool" where
  "byte_in lo hi c \<longleftrightarrow> lo \<le> of_char c \<and> of_char c \<le> hi"

text \<open>The width of the rune a string starts with, or None when it does not start with one.\<close>

fun rune_width :: "string \<Rightarrow> nat option" where
  "rune_width [] = None"
| "rune_width (c # cs) =
     (if byte_in 0 127 c then Some 1
      else if byte_in 194 223 c then
        (case cs of a # _ \<Rightarrow> if byte_in 128 191 a then Some 2 else None | _ \<Rightarrow> None)
      else if byte_in 224 239 c then
        (case cs of a # b # _ \<Rightarrow>
           if byte_in (if c = CHR 0xE0 then 160 else 128) (if c = CHR 0xED then 159 else 191) a \<and> byte_in 128 191 b
           then Some 3 else None
         | _ \<Rightarrow> None)
      else if byte_in 240 244 c then
        (case cs of a # b # d # _ \<Rightarrow>
           if byte_in (if c = CHR 0xF0 then 144 else 128) (if c = CHR 0xF4 then 143 else 191) a \<and>
              byte_in 128 191 b \<and> byte_in 128 191 d
           then Some 4 else None
         | _ \<Rightarrow> None)
      else None)"

lemma rune_width_bounds: "rune_width s = Some n \<Longrightarrow> 0 < n \<and> n \<le> length s"
  by (cases s) (auto split: if_splits list.splits)

text \<open>\<open>utf8.ValidString\<close>.\<close>

function ValidString :: "string \<Rightarrow> bool" where
  "ValidString s =
     (if s = [] then True
      else case rune_width s of None \<Rightarrow> False | Some n \<Rightarrow> ValidString (drop n s))"
  by auto
termination
  by (relation "measure length") (auto dest!: rune_width_bounds)

declare ValidString.simps [simp del]

text \<open>\<open>strings.ToValidUTF8\<close>: every maximal run of bytes that are no part of a rune becomes one replacement.\<close>

definition replacement :: string where
  "replacement = [CHR 0xEF, CHR 0xBF, CHR 0xBD]"

function to_valid :: "bool \<Rightarrow> string \<Rightarrow> string" where
  "to_valid bad s =
     (if s = [] then []
      else case rune_width s of
        None \<Rightarrow> (if bad then [] else replacement) @ to_valid True (tl s)
      | Some n \<Rightarrow> take n s @ to_valid False (drop n s))"
  by auto
termination
  by (relation "measure (\<lambda>(b, s). length s)") (auto dest!: rune_width_bounds)

declare to_valid.simps [simp del]

definition ToValidUTF8 :: "string \<Rightarrow> string" where
  "ToValidUTF8 s = to_valid False s"

text \<open>The cut at a limit: bytes go off the end until what is left is valid.\<close>

function trim_invalid :: "string \<Rightarrow> string" where
  "trim_invalid s = (if ValidString s then s else trim_invalid (butlast s))"
  by auto
termination
proof (relation "measure length")
  fix s :: string
  assume "\<not> ValidString s"
  then have "s \<noteq> []" by (auto simp: ValidString.simps)
  then show "(butlast s, s) \<in> measure length" by simp
qed simp

declare trim_invalid.simps [simp del]

section \<open>Facts\<close>

lemma two_bytes: "(cs = [] \<Longrightarrow> P) \<Longrightarrow> (\<And>a. cs = [a] \<Longrightarrow> P) \<Longrightarrow> (\<And>a b ds. cs = a # b # ds \<Longrightarrow> P) \<Longrightarrow> P"
  by (cases cs; cases "tl cs") auto

lemma three_bytes: "(cs = [] \<Longrightarrow> P) \<Longrightarrow> (\<And>a. cs = [a] \<Longrightarrow> P) \<Longrightarrow> (\<And>a b. cs = [a, b] \<Longrightarrow> P) \<Longrightarrow>
    (\<And>a b d ds. cs = a # b # d # ds \<Longrightarrow> P) \<Longrightarrow> P"
  by (cases cs; cases "tl cs"; cases "tl (tl cs)") auto

lemma rune_width_append: "rune_width s = Some n \<Longrightarrow> rune_width (take n s @ t) = Some n"
proof (cases s)
  case (Cons c cs)
  assume w: "rune_width s = Some n"
  consider "byte_in 0 127 c" | "\<not> byte_in 0 127 c" "byte_in 194 223 c" | "\<not> byte_in 0 127 c" "\<not> byte_in 194 223 c" "byte_in 224 239 c"
    | "\<not> byte_in 0 127 c" "\<not> byte_in 194 223 c" "\<not> byte_in 224 239 c" by blast
  then show ?thesis
  proof cases
    case 1
    then show ?thesis using w Cons by auto
  next
    case 2
    then show ?thesis using w Cons by (cases cs) (auto split: if_splits)
  next
    case 3
    then show ?thesis using w Cons by (cases cs rule: two_bytes) (auto split: if_splits)
  next
    case 4
    then show ?thesis using w Cons by (cases cs rule: three_bytes) (auto split: if_splits)
  qed
qed simp

lemma ValidString_rune: "rune_width s = Some n \<Longrightarrow> ValidString (take n s @ t) = ValidString t"
  using rune_width_append [of s n t] rune_width_bounds [of s n] ValidString.simps [of "take n s @ t"] by auto

lemma ValidString_replacement: "ValidString (replacement @ t) = ValidString t"
proof -
  have "rune_width replacement = Some 3" by (simp add: replacement_def byte_in_def)
  then show ?thesis using ValidString_rune [of replacement 3 t] by (simp add: replacement_def)
qed

lemma ValidString_to_valid: "ValidString (to_valid bad s)"
proof (induction bad s rule: to_valid.induct)
  case (1 bad s)
  show ?case
  proof (cases "s = []")
    case True
    then show ?thesis by (simp add: to_valid.simps ValidString.simps)
  next
    case False
    then show ?thesis
      using 1 by (cases "rune_width s") (simp_all add: to_valid.simps [of bad s] ValidString_rune ValidString_replacement)
  qed
qed

lemma ToValidUTF8_valid: "ValidString (ToValidUTF8 s)"
  by (simp add: ToValidUTF8_def ValidString_to_valid)

lemma trim_invalid_valid: "ValidString (trim_invalid s) \<and> length (trim_invalid s) \<le> length s"
proof (induction s rule: trim_invalid.induct)
  case (1 s)
  then show ?case by (cases "ValidString s") (auto simp: trim_invalid.simps [of s])
qed

lemma to_valid_id: "ValidString s \<Longrightarrow> to_valid bad s = s"
proof (induction bad s rule: to_valid.induct)
  case (1 bad s)
  show ?case
  proof (cases "s = []")
    case True
    then show ?thesis by (simp add: to_valid.simps)
  next
    case False
    then show ?thesis
      using 1 by (cases "rune_width s") (auto simp: to_valid.simps [of bad s] ValidString.simps [of s])
  qed
qed

end
