(* ===== verification/Journal.thy ===== *)
theory Journal
  imports Utf8 Delivery
begin

text \<open>
  The journal of the agent, \<open>agent/journal/journal.go\<close>: the durable record of what the agent has
  accepted, started and finished, one row per execution.  Every operation is one transaction on the
  two tables.  The lock file and the integrity check of the database file are not modelled; the
  fingerprint of an envelope (SHA-256 of its JSON) is the parameter \<open>fp\<close>.
\<close>

section \<open>State\<close>

datatype jstate = JAccepted | JStarting | JRunning | JResult | JCancel | JUncertain | JAcked

record Entry =
  JeId :: string
  JeEnv :: Envelope
  JeHash :: string
  JeState :: jstate
  JeAccAck :: bool
  JeStartAck :: bool
  JeCancel :: bool
  JeExit :: int
  JeOutput :: string
  JeReason :: string
  JePid :: int
  JeBytes :: int
  JeSeq :: int
  JeAckedAt :: int

record ChunkRow =
  CkExec :: string
  CkSeq :: int
  CkText :: string
  CkAcked :: bool

record Journal =
  JEntries :: "Entry list"
  JChunks :: "ChunkRow list"
  JAgent :: string
  JMaxPending :: int

datatype jerror = JConflict | JCapacity | JOutputLimit | JCorrupt | JStorage

definition MaxOutput :: int where "MaxOutput = 5242880"
definition UnknownExitCode :: int where "UnknownExitCode = - 2147483648"
definition RemoteUnknownExitCode :: int where "RemoteUnknownExitCode = - 2147483647"
definition DeferredObservationExitCode :: int where "DeferredObservationExitCode = - 2147483646"

definition restart_reason :: string where "restart_reason = ''worker restarted with an unresolved effect''"

section \<open>Helpers\<close>

definition entry_of :: "Journal \<Rightarrow> string \<Rightarrow> Entry option" where
  "entry_of j k = row_of JeId k (JEntries j)"

definition upd_entry :: "(Entry \<Rightarrow> bool) \<Rightarrow> (Entry \<Rightarrow> Entry) \<Rightarrow> Journal \<Rightarrow> Journal" where
  "upd_entry p f j = j\<lparr>JEntries := update_where p f (JEntries j)\<rparr>"

definition valid_envelope :: "Envelope \<Rightarrow> string \<Rightarrow> bool" where
  "valid_envelope e agent \<longleftrightarrow>
     MsgProtocol e = 2 \<and> MsgExec e \<noteq> [] \<and> MsgOrder e \<noteq> [] \<and> MsgAgent e = agent \<and> MsgFence e > 0 \<and>
     MsgAttempt e > 0 \<and> MsgKey e = MsgExec e"

definition sameIdentity :: "Envelope \<Rightarrow> Envelope \<Rightarrow> bool" where
  "sameIdentity a b \<longleftrightarrow>
     MsgExec a = MsgExec b \<and> MsgAgent a = MsgAgent b \<and> MsgOrder a = MsgOrder b \<and> MsgFence a = MsgFence b \<and>
     MsgAttempt a = MsgAttempt b"

definition unfinished :: "Entry \<Rightarrow> bool" where
  "unfinished e \<longleftrightarrow> JeState e \<noteq> JAcked"

section \<open>Opening\<close>

definition corrupt_entry :: "(Envelope \<Rightarrow> string) \<Rightarrow> string \<Rightarrow> Entry \<Rightarrow> bool" where
  "corrupt_entry fp agent e \<longleftrightarrow>
     JeId e = [] \<or> MsgExec (JeEnv e) \<noteq> JeId e \<or> \<not> valid_envelope (JeEnv e) agent \<or>
     JeState e \<noteq> JAcked \<and> MsgKind (JeEnv e) = DispatchMsg \<and> fp (JeEnv e) \<noteq> JeHash e"

text \<open>
  \<open>stored\<close> is the content of the file, None for a new one.  The worker before this one has ended;
  that its effects have ended is not known, so they become uncertain.
\<close>

definition open_journal :: "(Envelope \<Rightarrow> string) \<Rightarrow> string \<Rightarrow> Journal option \<Rightarrow> jerror + Journal" where
  "open_journal fp agent stored =
     (if agent = [] then Inl JConflict
      else let j = (case stored of None \<Rightarrow> \<lparr>JEntries = [], JChunks = [], JAgent = agent, JMaxPending = 1000\<rparr> | Some j \<Rightarrow> j)
        in if JAgent j \<noteq> agent then Inl JConflict
           else if list_ex (corrupt_entry fp agent) (JEntries j) then Inl JCorrupt
           else Inr (upd_entry (\<lambda>e. JeState e = JStarting \<or> JeState e = JRunning)
                  (\<lambda>e. e\<lparr>JeState := JUncertain, JeReason := restart_reason\<rparr>) (j\<lparr>JMaxPending := 1000\<rparr>)))"

section \<open>Accepting a message\<close>

definition new_entry :: "(Envelope \<Rightarrow> string) \<Rightarrow> Envelope \<Rightarrow> Entry" where
  "new_entry fp e =
     \<lparr>JeId = MsgExec e, JeEnv = e, JeHash = (if MsgKind e = CancelMsg then [] else fp e),
      JeState = (if MsgKind e = CancelMsg then JCancel else JAccepted), JeAccAck = False, JeStartAck = False,
      JeCancel = (MsgKind e = CancelMsg), JeExit = 0, JeOutput = [], JeReason = [], JePid = 0, JeBytes = 0,
      JeSeq = 0, JeAckedAt = 0\<rparr>"

definition cancel_entry :: "Entry \<Rightarrow> Entry" where
  "cancel_entry e = e\<lparr>JeCancel := True, JeState := (if JeState e = JAccepted then JCancel else JeState e)\<rparr>"

definition Accept :: "(Envelope \<Rightarrow> string) \<Rightarrow> Envelope \<Rightarrow> Journal \<Rightarrow> jerror + (Entry \<times> Journal)" where
  "Accept fp e j =
     (if \<not> valid_envelope e (JAgent j) \<or> MsgKind e = DispatchMsg \<and> MsgDef e = None then Inl JConflict
      else case entry_of j (MsgExec e) of
        Some p \<Rightarrow>
          if \<not> sameIdentity (JeEnv p) e \<or> MsgKind e = DispatchMsg \<and> JeHash p \<noteq> [] \<and> JeHash p \<noteq> fp e then Inl JConflict
          else if MsgKind e = CancelMsg \<and> JeState p \<noteq> JAcked \<and> JeState p \<noteq> JResult
          then Inr (cancel_entry p, upd_entry (\<lambda>x. JeId x = MsgExec e) cancel_entry j)
          else Inr (p, j)
      | None \<Rightarrow>
          if int (count_where unfinished (JEntries j)) \<ge> JMaxPending j \<and> MsgKind e \<noteq> CancelMsg then Inl JCapacity
          else Inr (new_entry fp e, j\<lparr>JEntries := JEntries j @ [new_entry fp e]\<rparr>))"

definition PendingEntries :: "Journal \<Rightarrow> Entry list" where
  "PendingEntries j = take 1001 (sort_key JeId (filter unfinished (JEntries j)))"

section \<open>Phases\<close>

definition AckPhase :: "string \<Rightarrow> string \<Rightarrow> Journal \<Rightarrow> jerror + Journal" where
  "AckPhase k kind j =
     (if kind = ''started'' then Inr (upd_entry (\<lambda>e. JeId e = k) (\<lambda>e. e\<lparr>JeStartAck := True\<rparr>) j)
      else if kind = ''accepted'' then Inr (upd_entry (\<lambda>e. JeId e = k) (\<lambda>e. e\<lparr>JeAccAck := True\<rparr>) j)
      else Inl JConflict)"

definition can_begin :: "string \<Rightarrow> Entry \<Rightarrow> bool" where
  "can_begin k e \<longleftrightarrow> JeId e = k \<and> JeState e = JAccepted \<and> JeAccAck e \<and> \<not> JeCancel e"

text \<open>True when exactly one row was changed.\<close>

definition BeginEffect :: "string \<Rightarrow> Journal \<Rightarrow> bool \<times> Journal" where
  "BeginEffect k j =
     (count_where (can_begin k) (JEntries j) = 1, upd_entry (can_begin k) (\<lambda>e. e\<lparr>JeState := JStarting\<rparr>) j)"

definition MarkRunning :: "string \<Rightarrow> Journal \<Rightarrow> Journal" where
  "MarkRunning k = upd_entry (\<lambda>e. JeId e = k \<and> JeState e = JStarting \<and> JeStartAck e) (\<lambda>e. e\<lparr>JeState := JRunning\<rparr>)"

definition can_resume_entry :: "string \<Rightarrow> Entry \<Rightarrow> bool" where
  "can_resume_entry k e \<longleftrightarrow> JeId e = k \<and> JeState e = JUncertain \<and> JeReason e = restart_reason \<and> JeStartAck e"

definition ResumeObservation :: "string \<Rightarrow> bool \<Rightarrow> Journal \<Rightarrow> jerror + Journal" where
  "ResumeObservation k cancel j =
     (if count_where (can_resume_entry k) (JEntries j) \<noteq> 1 then Inl JConflict
      else Inr (upd_entry (can_resume_entry k)
        (\<lambda>e. e\<lparr>JeState := JRunning, JeReason := [], JeCancel := (cancel \<or> JeCancel e)\<rparr>) j))"

definition CancelBeforeEffect :: "string \<Rightarrow> Journal \<Rightarrow> Journal" where
  "CancelBeforeEffect k = upd_entry (\<lambda>e. JeId e = k \<and> (JeState e = JAccepted \<or> JeState e = JStarting))
     (\<lambda>e. e\<lparr>JeCancel := True, JeState := JCancel\<rparr>)"

definition effect_open :: "string \<Rightarrow> Entry \<Rightarrow> bool" where
  "effect_open k e \<longleftrightarrow> JeId e = k \<and> (JeState e = JStarting \<or> JeState e = JRunning)"

definition RecordProcess :: "string \<Rightarrow> int \<Rightarrow> Journal \<Rightarrow> Journal" where
  "RecordProcess k pid = upd_entry (effect_open k) (\<lambda>e. e\<lparr>JePid := pid\<rparr>)"

definition MarkUncertain :: "string \<Rightarrow> string \<Rightarrow> Journal \<Rightarrow> Journal" where
  "MarkUncertain k why = upd_entry (\<lambda>e. JeId e = k \<and> JeState e \<noteq> JAcked) (\<lambda>e. e\<lparr>JeState := JUncertain, JeReason := why\<rparr>)"

section \<open>Results and output\<close>

definition result_output :: "string \<Rightarrow> string" where
  "result_output raw =
     (let out = ToValidUTF8 raw in
      if int (length out) > MaxOutput then trim_invalid (take (nat MaxOutput) out) else out)"

definition RecordResult :: "string \<Rightarrow> int \<Rightarrow> string \<Rightarrow> Journal \<Rightarrow> jerror + Journal" where
  "RecordResult k code raw j =
     (if count_where (effect_open k) (JEntries j) \<noteq> 1 then Inl JConflict
      else Inr (upd_entry (effect_open k) (\<lambda>e. e\<lparr>JeState := (if JeCancel e then JCancel else JResult),
             JeExit := code, JeOutput := result_output raw\<rparr>) j))"

definition AppendText :: "string \<Rightarrow> string \<Rightarrow> Journal \<Rightarrow> jerror + Journal" where
  "AppendText k raw j =
     (let text = ToValidUTF8 raw in
      if text = [] then Inr j
      else case entry_of j k of
        None \<Rightarrow> Inl JStorage
      | Some e \<Rightarrow>
          if JeState e \<noteq> JStarting \<and> JeState e \<noteq> JRunning then Inl JConflict
          else if JeBytes e + int (length text) > MaxOutput then Inl JOutputLimit
          else Inr (upd_entry (\<lambda>e. JeId e = k) (\<lambda>e. e\<lparr>JeBytes := JeBytes e + int (length text), JeSeq := JeSeq e + 1\<rparr>)
                 (j\<lparr>JChunks := JChunks j @ [\<lparr>CkExec = k, CkSeq = JeSeq e + 1, CkText = text, CkAcked = False\<rparr>]\<rparr>)))"

definition OpenChunks :: "string \<Rightarrow> Journal \<Rightarrow> ChunkRow list" where
  "OpenChunks k j = take 100 (sort_key CkSeq (filter (\<lambda>c. CkExec c = k \<and> \<not> CkAcked c) (JChunks j)))"

definition AckChunk :: "string \<Rightarrow> int \<Rightarrow> Journal \<Rightarrow> Journal" where
  "AckChunk k sq j = j\<lparr>JChunks := update_where (\<lambda>c. CkExec c = k \<and> CkSeq c = sq) (\<lambda>c. c\<lparr>CkAcked := True\<rparr>) (JChunks j)\<rparr>"

definition AckEntry :: "int \<Rightarrow> string \<Rightarrow> Journal \<Rightarrow> Journal" where
  "AckEntry now k = upd_entry (\<lambda>e. JeId e = k) (\<lambda>e. e\<lparr>JeState := JAcked, JeAckedAt := now\<rparr>)"

text \<open>Retention keeps the row itself, so that the execution stays known for ever.\<close>

definition expired :: "int \<Rightarrow> Entry \<Rightarrow> bool" where
  "expired before e \<longleftrightarrow> JeState e = JAcked \<and> JeAckedAt e < before"

definition Compact :: "int \<Rightarrow> Journal \<Rightarrow> Journal" where
  "Compact before j =
     upd_entry (expired before) (\<lambda>e. e\<lparr>JeOutput := [], JeEnv := (JeEnv e)\<lparr>MsgDef := None\<rparr>\<rparr>)
       (j\<lparr>JChunks := delete_where (\<lambda>c. list_ex (\<lambda>e. JeId e = CkExec c \<and> expired before e) (JEntries j)) (JChunks j)\<rparr>)"

end
