(* ===== verification/Worker.thy ===== *)
theory Worker
  imports Journal
begin

text \<open>
  The worker of the agent, \<open>agent/journal/worker.go\<close>: it brings every unfinished entry of the journal
  to the server, starts effects and records what they do.  The network, the server and the moments at
  which a write to the journal fails are one value of type \<open>'n\<close>, threaded through the calls.

  Goroutines: an effect that runs is a member of \<open>AgActive\<close>; its writes to the journal are the
  operations \<open>emit_text\<close>, \<open>record_process\<close>, \<open>finish_effect\<close> and \<open>effect_panicked\<close>.  \<open>AgRuns\<close> and \<open>AgWatches\<close> log
  the executions whose effect was started, and those that were only observed again.
\<close>

section \<open>State\<close>

datatype request = ReqAck Identity string string | ReqOutput Identity int string | ReqResult Identity int string

datatype work_error = ETransport | EReceipt | EState | EFatal | EJournal jerror

record 'n worker_env =
  WePost :: "'n \<Rightarrow> request \<Rightarrow> Receipt option \<times> 'n"
  WePoll :: "'n \<Rightarrow> bool \<Rightarrow> Envelope option option \<times> 'n"
  WeCommit :: "'n \<Rightarrow> bool \<times> 'n"
  WeFp :: "Envelope \<Rightarrow> string"
  WeConcurrent :: nat
  WeResumable :: "(Entry \<Rightarrow> bool) option"

record 'n agent =
  AgJ :: Journal
  AgNet :: 'n
  AgActive :: "string list"
  AgBeat :: "string \<Rightarrow> int"
  AgBroken :: "string list"
  AgFatal :: bool
  AgRuns :: "string list"
  AgWatches :: "string list"

text \<open>A stage of a call either returns, with or without an error, or goes on.\<close>

datatype flow = Return "work_error option" | Go

definition and_then :: "flow \<times> 'n agent \<Rightarrow> ('n agent \<Rightarrow> flow \<times> 'n agent) \<Rightarrow> flow \<times> 'n agent" where
  "and_then fa g = (case fst fa of Return x \<Rightarrow> fa | Go \<Rightarrow> g (snd fa))"

section \<open>Network and journal\<close>

definition entry_key :: "Entry \<Rightarrow> string" where
  "entry_key e = MsgExec (JeEnv e)"

definition worker_identity :: "Entry \<Rightarrow> Identity" where
  "worker_identity e = \<lparr>IdProtocol = 2, IdExec = MsgExec (JeEnv e), IdFence = MsgFence (JeEnv e), IdAgent = []\<rparr>"

definition post :: "'n worker_env \<Rightarrow> request \<Rightarrow> 'n agent \<Rightarrow> Receipt option \<times> 'n agent" where
  "post v q a = (let (r, n) = WePost v (AgNet a) q in (r, a\<lparr>AgNet := n\<rparr>))"

definition phase :: "'n worker_env \<Rightarrow> Entry \<Rightarrow> string \<Rightarrow> 'n agent \<Rightarrow> Receipt option \<times> 'n agent" where
  "phase v e kind = post v (ReqAck (worker_identity e) kind (if kind = ''uncertain'' then JeReason e else []))"

definition received :: "Receipt \<Rightarrow> Entry \<Rightarrow> bool" where
  "received r e \<longleftrightarrow> RcAccepted r \<and> RcExec r = MsgExec (JeEnv e)"

definition says_terminal :: "Receipt \<Rightarrow> bool" where
  "says_terminal r \<longleftrightarrow> (case RcState r of None \<Rightarrow> False | Some st \<Rightarrow> exec_terminal st)"

text \<open>A write to the journal: refused by the storage, refused by the operation, or done.\<close>

definition persist :: "'n worker_env \<Rightarrow> (Journal \<Rightarrow> jerror + Journal) \<Rightarrow> 'n agent \<Rightarrow> flow \<times> 'n agent" where
  "persist v f a =
     (let (ok, n) = WeCommit v (AgNet a); a1 = a\<lparr>AgNet := n\<rparr> in
      if \<not> ok then (Return (Some (EJournal JStorage)), a1)
      else case f (AgJ a) of
        Inl x \<Rightarrow> (Return (Some (EJournal x)), a1)
      | Inr j \<Rightarrow> (Go, a1\<lparr>AgJ := j\<rparr>))"

definition jwrite :: "'n worker_env \<Rightarrow> (Journal \<Rightarrow> Journal) \<Rightarrow> 'n agent \<Rightarrow> flow \<times> 'n agent" where
  "jwrite v f = persist v (\<lambda>j. Inr (f j))"

definition stop :: "flow \<times> 'n agent \<Rightarrow> flow \<times> 'n agent" where
  "stop fa = and_then fa (\<lambda>a. (Return None, a))"

definition room :: "'n worker_env \<Rightarrow> 'n agent \<Rightarrow> bool" where
  "room v a \<longleftrightarrow> length (AgActive a) < WeConcurrent v"

section \<open>Starting an effect\<close>

definition launch :: "int \<Rightarrow> bool \<Rightarrow> Entry \<Rightarrow> 'n agent \<Rightarrow> 'n agent" where
  "launch now fresh e a =
     (let k = entry_key e in
      if k \<in> set (AgActive a) then a
      else a\<lparr>AgActive := AgActive a @ [k], AgBeat := (AgBeat a)(k := now),
             AgRuns := (if fresh then AgRuns a @ [k] else AgRuns a),
             AgWatches := (if fresh then AgWatches a else AgWatches a @ [k])\<rparr>)"

definition accept_phase :: "'n worker_env \<Rightarrow> Entry \<Rightarrow> 'n agent \<Rightarrow> flow \<times> 'n agent" where
  "accept_phase v e a =
     (if JeAccAck e then (Go, a)
      else case phase v e ''accepted'' a of
        (None, a1) \<Rightarrow> (Return (Some ETransport), a1)
      | (Some r, a1) \<Rightarrow>
          if \<not> received r e then (Return (Some EReceipt), a1)
          else if RcState r = Some CancelRequested then stop (jwrite v (CancelBeforeEffect (entry_key e)) a1)
          else if says_terminal r \<or> \<not> RcCurrent r \<or> RcState r = Some Uncertain
          then stop (jwrite v (MarkUncertain (entry_key e) ''server no longer authorizes this execution'') a1)
          else persist v (AckPhase (entry_key e) ''accepted'') a1)"

definition begin_phase :: "'n worker_env \<Rightarrow> Entry \<Rightarrow> 'n agent \<Rightarrow> flow \<times> 'n agent" where
  "begin_phase v e a =
     (if JeState e \<noteq> JAccepted then (Go, a)
      else let ok = fst (BeginEffect (entry_key e) (AgJ a))
        in and_then (jwrite v (\<lambda>j. snd (BeginEffect (entry_key e) j)) a) (\<lambda>a1. (if ok then Go else Return None, a1)))"

definition start_phase :: "'n worker_env \<Rightarrow> int \<Rightarrow> Entry \<Rightarrow> 'n agent \<Rightarrow> flow \<times> 'n agent" where
  "start_phase v now e a =
     (case phase v e ''started'' a of
        (None, a1) \<Rightarrow> (Return (Some ETransport), a1)
      | (Some r, a1) \<Rightarrow>
          if RcState r = Some CancelRequested then stop (jwrite v (CancelBeforeEffect (entry_key e)) a1)
          else if \<not> received r e \<or> \<not> RcStart r
          then stop (jwrite v (MarkUncertain (entry_key e) ''server refused start authorization'') a1)
          else and_then (persist v (AckPhase (entry_key e) ''started'') a1) (\<lambda>a2.
               and_then (jwrite v (MarkRunning (entry_key e)) a2) (\<lambda>a3. (Return None, launch now True e a3))))"

definition sync_start :: "'n worker_env \<Rightarrow> int \<Rightarrow> Entry \<Rightarrow> 'n agent \<Rightarrow> flow \<times> 'n agent" where
  "sync_start v now e a =
     (if \<not> room v a then (Return None, a)
      else and_then (accept_phase v e a) (\<lambda>a1. and_then (begin_phase v e a1) (start_phase v now e)))"

section \<open>The other states\<close>

definition resumes :: "'n worker_env \<Rightarrow> Entry \<Rightarrow> bool" where
  "resumes v e \<longleftrightarrow> JeReason e = restart_reason \<and> JeStartAck e \<and> (case WeResumable v of None \<Rightarrow> False | Some f \<Rightarrow> f e)"

definition resume_phase :: "'n worker_env \<Rightarrow> int \<Rightarrow> Entry \<Rightarrow> 'n agent \<Rightarrow> flow \<times> 'n agent" where
  "resume_phase v now e a =
     (if \<not> resumes v e then (Go, a)
      else if \<not> room v a then (Return None, a)
      else case phase v e ''status'' a of
        (None, a1) \<Rightarrow> (Return (Some ETransport), a1)
      | (Some r, a1) \<Rightarrow>
          if \<not> received r e then (Return (Some EReceipt), a1)
          else if says_terminal r then stop (jwrite v (AckEntry now (entry_key e)) a1)
          else if RcCurrent r \<and> (RcState r = Some Running \<or> RcState r = Some CancelRequested)
          then and_then (persist v (ResumeObservation (entry_key e) (RcState r = Some CancelRequested)) a1)
                 (\<lambda>a2. (Return None, launch now False e a2))
          else (Go, a1))"

definition sync_uncertain :: "'n worker_env \<Rightarrow> int \<Rightarrow> Entry \<Rightarrow> 'n agent \<Rightarrow> flow \<times> 'n agent" where
  "sync_uncertain v now e a =
     and_then (resume_phase v now e a) (\<lambda>a0.
       case phase v e ''uncertain'' a0 of
         (None, a1) \<Rightarrow> (Return (Some ETransport), a1)
       | (Some r, a1) \<Rightarrow>
           if \<not> received r e then (Return (Some EReceipt), a1)
           else if says_terminal r then stop (jwrite v (AckEntry now (entry_key e)) a1)
           else (Go, a1))"

definition sync_running :: "'n worker_env \<Rightarrow> int \<Rightarrow> Entry \<Rightarrow> 'n agent \<Rightarrow> flow \<times> 'n agent" where
  "sync_running v now e a =
     (if now - AgBeat a (entry_key e) \<le> 30000 then (Go, a)
      else case phase v e ''heartbeat'' a of
        (None, a1) \<Rightarrow> (Return (Some ETransport), a1)
      | (Some r, a1) \<Rightarrow>
          if \<not> received r e then (Return (Some EReceipt), a1)
          else (Go, a1\<lparr>AgBeat := (AgBeat a1)(entry_key e := now)\<rparr>))"

definition sync_pending :: "'n worker_env \<Rightarrow> int \<Rightarrow> Entry \<Rightarrow> 'n agent \<Rightarrow> flow \<times> 'n agent" where
  "sync_pending v now e a =
     (case phase v e ''status'' a of
        (None, a1) \<Rightarrow> (Return (Some ETransport), a1)
      | (Some r, a1) \<Rightarrow>
          if \<not> received r e then (Return (Some EReceipt), a1)
          else if RcReconciled r \<and> says_terminal r then stop (jwrite v (AckEntry now (entry_key e)) a1)
          else (Go, a1))"

fun send_chunks :: "'n worker_env \<Rightarrow> Entry \<Rightarrow> ChunkRow list \<Rightarrow> 'n agent \<Rightarrow> flow \<times> 'n agent" where
  "send_chunks v e [] a = (Go, a)"
| "send_chunks v e (c # cs) a =
     (case post v (ReqOutput (worker_identity e) (CkSeq c) (CkText c)) a of
        (None, a1) \<Rightarrow> (Return (Some ETransport), a1)
      | (Some r, a1) \<Rightarrow>
          if \<not> received r e then (Return (Some EReceipt), a1)
          else and_then (jwrite v (AckChunk (entry_key e) (CkSeq c)) a1) (send_chunks v e cs))"

definition sync_output :: "'n worker_env \<Rightarrow> Entry \<Rightarrow> 'n agent \<Rightarrow> flow \<times> 'n agent" where
  "sync_output v e a =
     (if \<not> JeStartAck e then (Go, a)
      else and_then (send_chunks v e (OpenChunks (entry_key e) (AgJ a)) a)
             (\<lambda>a1. (if OpenChunks (entry_key e) (AgJ a1) \<noteq> [] then Return None else Go, a1)))"

definition sync_final :: "'n worker_env \<Rightarrow> int \<Rightarrow> Entry \<Rightarrow> 'n agent \<Rightarrow> flow \<times> 'n agent" where
  "sync_final v now e a =
     (if JeState e = JResult \<or> JeState e = JCancel then
        (case (if JeState e = JResult then post v (ReqResult (worker_identity e) (JeExit e) (JeOutput e)) a
               else phase v e ''cancelled'' a) of
           (None, a1) \<Rightarrow> (Return (Some ETransport), a1)
         | (Some r, a1) \<Rightarrow>
             if \<not> received r e then (Return (Some EReceipt), a1)
             else stop (jwrite v (AckEntry now (entry_key e)) a1))
      else (Return None, a))"

definition sync_state :: "'n worker_env \<Rightarrow> int \<Rightarrow> Entry \<Rightarrow> 'n agent \<Rightarrow> flow \<times> 'n agent" where
  "sync_state v now e a =
     (case JeState e of
        JUncertain \<Rightarrow> sync_uncertain v now e a
      | JAccepted \<Rightarrow> sync_start v now e a
      | JStarting \<Rightarrow> sync_start v now e a
      | JRunning \<Rightarrow> sync_running v now e a
      | JResult \<Rightarrow> sync_pending v now e a
      | JCancel \<Rightarrow> sync_pending v now e a
      | JAcked \<Rightarrow> (Return (Some EState), a))"

definition Sync :: "'n worker_env \<Rightarrow> int \<Rightarrow> Entry \<Rightarrow> 'n agent \<Rightarrow> work_error option \<times> 'n agent" where
  "Sync v now e a =
     (let (f, a') = and_then (sync_state v now e a) (\<lambda>a1. and_then (sync_output v e a1) (sync_final v now e))
      in (case f of Return x \<Rightarrow> x | Go \<Rightarrow> None, a'))"

section \<open>One round\<close>

fun sync_all :: "'n worker_env \<Rightarrow> int \<Rightarrow> Entry list \<Rightarrow> 'n agent \<Rightarrow> work_error option \<times> 'n agent" where
  "sync_all v now [] a = (None, a)"
| "sync_all v now (e # es) a =
     (case Sync v now e a of (Some x, a') \<Rightarrow> (Some x, a') | (None, a') \<Rightarrow> sync_all v now es a')"

definition poll_accept :: "'n worker_env \<Rightarrow> 'n agent \<Rightarrow> work_error option \<times> 'n agent" where
  "poll_accept v a =
     (let (m, n) = WePoll v (AgNet a) (int (length (PendingEntries (AgJ a))) < JMaxPending (AgJ a)); a1 = a\<lparr>AgNet := n\<rparr>
      in case m of
           None \<Rightarrow> (Some ETransport, a1)
         | Some None \<Rightarrow> (None, a1)
         | Some (Some msg) \<Rightarrow>
             (let (f, a2) = persist v (\<lambda>j. map_sum id snd (Accept (WeFp v) msg j)) a1
              in (case f of Return x \<Rightarrow> x | Go \<Rightarrow> None, a2)))"

definition WorkerTick :: "'n worker_env \<Rightarrow> int \<Rightarrow> 'n agent \<Rightarrow> work_error option \<times> 'n agent" where
  "WorkerTick v now a =
     (if AgFatal a then (Some EFatal, a)
      else case sync_all v now (PendingEntries (AgJ a)) a of
        (Some x, a') \<Rightarrow> (Some x, a')
      | (None, a') \<Rightarrow> poll_accept v a')"

section \<open>What an effect does to the journal\<close>

definition ended :: "string \<Rightarrow> 'n agent \<Rightarrow> 'n agent" where
  "ended k a = a\<lparr>AgActive := filter (\<lambda>x. x \<noteq> k) (AgActive a), AgBroken := filter (\<lambda>x. x \<noteq> k) (AgBroken a)\<rparr>"

definition failing :: "flow \<times> 'n agent \<Rightarrow> 'n agent" where
  "failing fa = (case fst fa of Return (Some x) \<Rightarrow> (snd fa)\<lparr>AgFatal := True\<rparr> | _ \<Rightarrow> snd fa)"

definition emit_text :: "'n worker_env \<Rightarrow> string \<Rightarrow> string \<Rightarrow> 'n agent \<Rightarrow> 'n agent" where
  "emit_text v k raw a =
     (if k \<in> set (AgBroken a) \<or> ToValidUTF8 raw = [] then a
      else case persist v (AppendText k raw) a of
        (Return (Some (EJournal JOutputLimit)), a1) \<Rightarrow> a1
      | (Return (Some x), a1) \<Rightarrow> a1\<lparr>AgBroken := k # AgBroken a1, AgFatal := True\<rparr>
      | (_, a1) \<Rightarrow> a1)"

definition record_process :: "'n worker_env \<Rightarrow> string \<Rightarrow> int \<Rightarrow> 'n agent \<Rightarrow> 'n agent" where
  "record_process v k pid a =
     (case jwrite v (RecordProcess k pid) a of
        (Return (Some x), a1) \<Rightarrow> a1\<lparr>AgBroken := k # AgBroken a1, AgFatal := True\<rparr>
      | (_, a1) \<Rightarrow> a1)"

definition unknown_code :: "int \<Rightarrow> bool" where
  "unknown_code code \<longleftrightarrow> code = UnknownExitCode \<or> code = RemoteUnknownExitCode"

definition record_result :: "'n worker_env \<Rightarrow> string \<Rightarrow> int \<Rightarrow> string \<Rightarrow> 'n agent \<Rightarrow> 'n agent" where
  "record_result v k code out a =
     (if k \<in> set (AgBroken a) then a else failing (persist v (RecordResult k code out) a))"

definition finish_effect :: "'n worker_env \<Rightarrow> string \<Rightarrow> int \<Rightarrow> string \<Rightarrow> bool \<Rightarrow> 'n agent \<Rightarrow> 'n agent" where
  "finish_effect v k code out stopped a =
     ended k
       (if code = DeferredObservationExitCode \<and> stopped then a
        else if unknown_code code then
          (case entry_of (AgJ a) k of
             None \<Rightarrow> a\<lparr>AgFatal := True\<rparr>
           | Some latest \<Rightarrow>
               if code = RemoteUnknownExitCode \<or> \<not> JeCancel latest
               then failing (jwrite v (MarkUncertain k out) a)
               else record_result v k (- 1) out a)
        else record_result v k code out a)"

definition effect_panicked :: "'n worker_env \<Rightarrow> string \<Rightarrow> 'n agent \<Rightarrow> 'n agent" where
  "effect_panicked v k a =
     ended k (failing (jwrite v (MarkUncertain k ''executor panicked; effect outcome unknown'') a))"

text \<open>The process ends at any moment and is started again on the same journal.\<close>

definition restart :: "'n worker_env \<Rightarrow> int \<Rightarrow> 'n agent \<Rightarrow> jerror + 'n agent" where
  "restart v pending a =
     (case open_journal (WeFp v) (JAgent (AgJ a)) (Some (AgJ a)) of
        Inl x \<Rightarrow> Inl x
      | Inr j \<Rightarrow> Inr (a\<lparr>AgJ := j\<lparr>JMaxPending := pending\<rparr>, AgActive := [], AgBeat := (\<lambda>_. 0), AgBroken := [], AgFatal := False\<rparr>))"

end
