(* ===== verification/JournalInv.thy ===== *)
theory JournalInv
  imports Worker Lifecycle Actions
begin

text \<open>
  Every operation on the journal is one of two writes: rows move through the states of the journal,
  or a row is added.  A row never leaves the journal and never goes back to \<open>JAccepted\<close> or, once its
  effect may have run, to \<open>JStarting\<close>.
\<close>

section \<open>Writes\<close>

fun jallowed :: "jstate \<Rightarrow> jstate \<Rightarrow> bool" where
  "jallowed JAccepted st = (st \<in> {JAccepted, JStarting, JCancel, JUncertain, JAcked})"
| "jallowed JStarting st = (st \<in> {JStarting, JRunning, JCancel, JResult, JUncertain, JAcked})"
| "jallowed JRunning st = (st \<in> {JRunning, JCancel, JResult, JUncertain, JAcked})"
| "jallowed JUncertain st = (st \<in> {JUncertain, JRunning, JAcked})"
| "jallowed JResult st = (st \<in> {JResult, JUncertain, JAcked})"
| "jallowed JCancel st = (st \<in> {JCancel, JUncertain, JAcked})"
| "jallowed JAcked st = (st = JAcked)"

lemma jallowed_refl [simp]: "jallowed st st"
  by (cases st) simp_all

text \<open>What the journal keeps of a row for ever.\<close>

definition tomb :: "Entry \<Rightarrow> jstate \<times> string \<times> string \<times> string \<times> string \<times> int \<times> int" where
  "tomb e = (JeState e, JeHash e, MsgExec (JeEnv e), MsgAgent (JeEnv e), MsgOrder (JeEnv e), MsgFence (JeEnv e), MsgAttempt (JeEnv e))"

definition jmove :: "Entry \<Rightarrow> Entry \<Rightarrow> bool" where
  "jmove a b \<longleftrightarrow> JeId b = JeId a \<and> snd (tomb b) = snd (tomb a) \<and> jallowed (JeState a) (JeState b)"

lemma jmove_refl [simp]: "jmove e e"
  by (simp add: jmove_def)

definition jinv :: "Journal \<Rightarrow> bool" where
  "jinv j \<longleftrightarrow> keys_distinct JeId (JEntries j) \<and> (\<forall>e\<in>set (JEntries j). JeId e = MsgExec (JeEnv e))"

inductive journal_write :: "Journal \<Rightarrow> Journal \<Rightarrow> bool" where
  rows: "(\<And>e. p e \<Longrightarrow> jmove e (f e)) \<Longrightarrow> JEntries j' = update_where p f (JEntries j) \<Longrightarrow> JAgent j' = JAgent j \<Longrightarrow> journal_write j j'"
| add: "entry_of j (JeId x) = None \<Longrightarrow> JeId x = MsgExec (JeEnv x) \<Longrightarrow> JeState x = JAccepted \<or> JeState x = JCancel \<Longrightarrow>
    JEntries j' = JEntries j @ [x] \<Longrightarrow> JAgent j' = JAgent j \<Longrightarrow> journal_write j j'"

lemma journal_write_refl: "JEntries j' = JEntries j \<Longrightarrow> JAgent j' = JAgent j \<Longrightarrow> journal_write j j'"
  by (rule journal_write.rows [of "\<lambda>_. False" "\<lambda>x. x"]) (simp_all add: update_where_def)

lemma entry_of_rows:
  assumes "\<And>e. p e \<Longrightarrow> JeId (f e) = JeId e" "JEntries j' = update_where p f (JEntries j)"
  shows "entry_of j' k = map_option (\<lambda>e. if p e then f e else e) (entry_of j k)"
  unfolding entry_of_def assms(2) by (rule row_of_update_where) (rule assms(1))

lemma journal_write_entry:
  "journal_write j j' \<Longrightarrow> entry_of j k = Some e \<Longrightarrow> \<exists>e'. entry_of j' k = Some e' \<and> jmove e e'"
proof (induction rule: journal_write.induct)
  case (rows p f j' j)
  then show ?case using entry_of_rows [of p f j' j k] by (simp add: jmove_def)
next
  case (add j x j')
  then show ?case by (simp add: entry_of_def row_of_append)
qed

lemma journal_write_inv: "journal_write j j' \<Longrightarrow> jinv j \<Longrightarrow> jinv j'"
proof (induction rule: journal_write.induct)
  case (rows p f j' j)
  have "\<And>e. p e \<Longrightarrow> JeId (f e) = JeId e \<and> MsgExec (JeEnv (f e)) = MsgExec (JeEnv e)"
    using rows(1) by (simp add: jmove_def tomb_def)
  then show ?case using rows by (auto simp: jinv_def keys_distinct_update_where set_update_where)
next
  case (add j x j')
  then show ?case by (auto simp: jinv_def keys_distinct_snoc entry_of_def)
qed

section \<open>Every operation is a write\<close>

lemma upd_entry_write: "(\<And>e. p e \<Longrightarrow> jmove e (f e)) \<Longrightarrow> journal_write j (upd_entry p f j)"
  by (rule journal_write.rows [of p f]) (simp_all add: upd_entry_def)

lemma Accept_write: "Accept fp e j = Inr (x, j') \<Longrightarrow> journal_write j j'"
proof -
  assume a: "Accept fp e j = Inr (x, j')"
  have c: "journal_write j (upd_entry (\<lambda>x. JeId x = MsgExec e) cancel_entry j)"
    by (rule upd_entry_write) (auto simp: jmove_def tomb_def cancel_entry_def)
  show ?thesis
  proof (cases "entry_of j (MsgExec e)")
    case None
    then show ?thesis using a by (intro journal_write.add [of _ "new_entry fp e"]) (auto simp: Accept_def new_entry_def split: if_splits)
  next
    case (Some p)
    then show ?thesis using a c journal_write_refl [of j j] by (auto simp: Accept_def split: if_splits)
  qed
qed

lemma open_write: "open_journal fp agent (Some j) = Inr j' \<Longrightarrow> journal_write j (j'\<lparr>JMaxPending := n\<rparr>)"
  by (rule journal_write.rows [of "\<lambda>e. JeState e = JStarting \<or> JeState e = JRunning"
        "\<lambda>e. e\<lparr>JeState := JUncertain, JeReason := restart_reason\<rparr>"])
    (auto simp: open_journal_def upd_entry_def jmove_def tomb_def Let_def split: if_splits)

lemma AckPhase_write: "AckPhase k kind j = Inr j' \<Longrightarrow> journal_write j j'"
  by (auto simp: AckPhase_def jmove_def tomb_def intro!: upd_entry_write split: if_splits)

lemma Begin_write: "journal_write j (snd (BeginEffect k j))"
  by (auto simp: BeginEffect_def jmove_def tomb_def can_begin_def intro!: upd_entry_write)

lemma MarkRunning_write: "journal_write j (MarkRunning k j)"
  by (auto simp: MarkRunning_def jmove_def tomb_def intro!: upd_entry_write)

lemma Resume_write: "ResumeObservation k c j = Inr j' \<Longrightarrow> journal_write j j'"
  by (auto simp: ResumeObservation_def jmove_def tomb_def can_resume_entry_def intro!: upd_entry_write split: if_splits)

lemma CancelBefore_write: "journal_write j (CancelBeforeEffect k j)"
  by (auto simp: CancelBeforeEffect_def jmove_def tomb_def intro!: upd_entry_write)

lemma Process_write: "journal_write j (RecordProcess k pid j)"
  by (auto simp: RecordProcess_def jmove_def tomb_def intro!: upd_entry_write)

lemma Uncertain_write: "journal_write j (MarkUncertain k why j)"
  unfolding MarkUncertain_def
proof (rule upd_entry_write)
  fix e :: Entry
  assume "JeId e = k \<and> JeState e \<noteq> JAcked"
  then show "jmove e (e\<lparr>JeState := JUncertain, JeReason := why\<rparr>)" by (cases "JeState e") (auto simp: jmove_def tomb_def)
qed

lemma Result_write: "RecordResult k code out j = Inr j' \<Longrightarrow> journal_write j j'"
  by (auto simp: RecordResult_def jmove_def tomb_def effect_open_def intro!: upd_entry_write split: if_splits)

lemma Ack_write: "journal_write j (AckEntry now k j)"
  unfolding AckEntry_def
proof (rule upd_entry_write)
  fix e :: Entry
  show "jmove e (e\<lparr>JeState := JAcked, JeAckedAt := now\<rparr>)" by (cases "JeState e") (auto simp: jmove_def tomb_def)
qed

lemma AckChunk_write: "journal_write j (AckChunk k sq j)"
  by (rule journal_write_refl) (simp_all add: AckChunk_def)

lemma Append_write: "AppendText k raw j = Inr j' \<Longrightarrow> journal_write j j'"
proof -
  assume a: "AppendText k raw j = Inr j'"
  show ?thesis
  proof (cases "ToValidUTF8 raw = []")
    case True
    then show ?thesis using a journal_write_refl [of j j] by (simp add: AppendText_def)
  next
    case False
    then show ?thesis using a
      by (intro journal_write.rows [of "\<lambda>e. JeId e = k" "\<lambda>e. e\<lparr>JeBytes := JeBytes e + int (length (ToValidUTF8 raw)), JeSeq := JeSeq e + 1\<rparr>"])
        (auto simp: AppendText_def Let_def upd_entry_def jmove_def tomb_def split: if_splits option.splits)
  qed
qed

lemma Compact_write: "journal_write j (Compact before j)"
  by (rule journal_write.rows [of "expired before" "\<lambda>e. e\<lparr>JeOutput := [], JeEnv := (JeEnv e)\<lparr>MsgDef := None\<rparr>\<rparr>"])
    (auto simp: Compact_def upd_entry_def jmove_def tomb_def)

lemmas journal_ops = Accept_write AckPhase_write Begin_write MarkRunning_write Resume_write CancelBefore_write Process_write
  Uncertain_write Result_write Ack_write AckChunk_write Append_write Compact_write

section \<open>Interfaces\<close>

text \<open>What is kept of a row lives through the states of the journal and rests when it is acknowledged.\<close>

interpretation tombs: lifecycle jinv journal_write "\<lambda>j k. map_option tomb (entry_of j k)"
  "\<lambda>a b. snd b = snd a \<and> jallowed (fst a) (fst b)" "\<lambda>t. fst t = JAcked"
proof unfold_locales
  fix j j' assume "jinv j" "journal_write j j'"
  then show "jinv j'" by (rule journal_write_inv [rotated])
next
  fix j j' k r
  assume w: "journal_write j j'" and r: "map_option tomb (entry_of j k) = Some r"
  obtain e where e: "entry_of j k = Some e" "r = tomb e" using r by auto
  obtain e' where e': "entry_of j' k = Some e'" "jmove e e'" using journal_write_entry [OF w e(1)] by auto
  have "tomb e' = tomb e \<or> JeState e \<noteq> JAcked \<and> snd (tomb e') = snd (tomb e) \<and> jallowed (JeState e) (JeState e')"
    using e'(2) by (auto simp: jmove_def tomb_def)
  then show "\<exists>r'. map_option tomb (entry_of j' k) = Some r' \<and> (r' = r \<or> fst r \<noteq> JAcked \<and> snd r' = snd r \<and> jallowed (fst r) (fst r'))"
    using e e' by (auto simp: tomb_def)
qed

text \<open>The right to start an effect is granted at most once.\<close>

lemma count_upd_zero: "(\<And>r. p r \<Longrightarrow> \<not> p (f r)) \<Longrightarrow> count_where p (update_where p f t) = 0"
  by (auto simp: count_where_zero set_update_where)

interpretation effects: claim_ledger "\<lambda>_. BeginEffect" "\<lambda>j k. count_where (can_begin k) (JEntries j) = 0"
proof unfold_locales
  fix k and j j' :: Journal
  assume "BeginEffect k j = (True, j')"
  then show "count_where (can_begin k) (JEntries j) \<noteq> 0 \<and> count_where (can_begin k) (JEntries j') = 0"
    using count_upd_zero [of "can_begin k" "\<lambda>e. e\<lparr>JeState := JStarting\<rparr>" "JEntries j"]
    by (auto simp: BeginEffect_def upd_entry_def can_begin_def)
next
  fix j :: Journal and k i
  assume z: "count_where (can_begin k) (JEntries j) = 0"
  have "count_where (can_begin k) (JEntries (snd (BeginEffect i j))) \<le> count_where (can_begin k) (JEntries j)"
    unfolding BeginEffect_def upd_entry_def by (simp, rule count_where_update_le) (auto simp: can_begin_def)
  then show "count_where (can_begin k) (JEntries (snd (BeginEffect i j))) = 0" using z by simp
qed

end
