(* ===== verification/WorkerRuns.thy ===== *)
theory WorkerRuns
  imports JournalInv
begin

text \<open>
  What the worker promises whatever the server and the network do: an effect is started at most once
  per execution, and only after the server authorised the start.
\<close>

section \<open>Calls that start nothing\<close>

definition touches :: "string \<Rightarrow> Journal \<Rightarrow> Journal \<Rightarrow> bool" where
  "touches k j j' \<longleftrightarrow> journal_write j j' \<and> (\<forall>i. i \<noteq> k \<longrightarrow> entry_of j' i = entry_of j i)"

definition quiet :: "string \<Rightarrow> 'n agent \<Rightarrow> 'n agent \<Rightarrow> bool" where
  "quiet k a b \<longleftrightarrow> (touches k)\<^sup>*\<^sup>* (AgJ a) (AgJ b) \<and> AgRuns b = AgRuns a"

lemma touches_upd: "journal_write j (upd_entry p f j) \<Longrightarrow> (\<And>e. p e \<Longrightarrow> JeId e = k \<and> JeId (f e) = k) \<Longrightarrow> touches k j (upd_entry p f j)"
proof -
  assume w: "journal_write j (upd_entry p f j)" and p: "\<And>e. p e \<Longrightarrow> JeId e = k \<and> JeId (f e) = k"
  have "entry_of (upd_entry p f j) i = entry_of j i" if "i \<noteq> k" for i
  proof -
    have "entry_of (upd_entry p f j) i = map_option (\<lambda>e. if p e then f e else e) (entry_of j i)"
      by (rule entry_of_rows) (use p in \<open>auto simp: upd_entry_def\<close>)
    moreover have "\<not> p e" if "entry_of j i = Some e" for e using that \<open>i \<noteq> k\<close> p row_of_SomeD [of JeId i] by (fastforce simp: entry_of_def)
    ultimately show ?thesis by (cases "entry_of j i") auto
  qed
  then show ?thesis using w by (simp add: touches_def)
qed

lemma Begin_touches: "touches k j (snd (BeginEffect k j))"
  using Begin_write [of j k] by (auto simp: BeginEffect_def can_begin_def intro: touches_upd)
lemma Running_touches: "touches k j (MarkRunning k j)"
  using MarkRunning_write [of j k] by (auto simp: MarkRunning_def intro: touches_upd)
lemma Cancel_touches: "touches k j (CancelBeforeEffect k j)"
  using CancelBefore_write [of j k] by (auto simp: CancelBeforeEffect_def intro: touches_upd)
lemma Uncertain_touches: "touches k j (MarkUncertain k why j)"
  using Uncertain_write [of j k why] by (auto simp: MarkUncertain_def intro: touches_upd)
lemma Ack_touches: "touches k j (AckEntry now k j)"
  using Ack_write [of j now k] by (auto simp: AckEntry_def intro: touches_upd)
lemma Chunk_touches: "touches k j (AckChunk k sq j)"
  using AckChunk_write [of j k sq] by (simp add: touches_def AckChunk_def entry_of_def)
lemma Phase_touches: "AckPhase k kind j = Inr j' \<Longrightarrow> touches k j j'"
  using AckPhase_write [of k kind j j'] by (auto simp: AckPhase_def intro: touches_upd split: if_splits)
lemma Resume_touches: "ResumeObservation k c j = Inr j' \<Longrightarrow> touches k j j'"
  using Resume_write [of k c j j'] by (auto simp: ResumeObservation_def can_resume_entry_def intro: touches_upd split: if_splits)

lemma touches_star: "(touches k)\<^sup>*\<^sup>* j j' \<Longrightarrow> journal_write\<^sup>*\<^sup>* j j' \<and> (\<forall>i. i \<noteq> k \<longrightarrow> entry_of j' i = entry_of j i)"
  by (induction rule: rtranclp_induct) (auto simp: touches_def)

lemma quiet_refl: "AgJ b = AgJ a \<Longrightarrow> AgRuns b = AgRuns a \<Longrightarrow> quiet k a b"
  by (simp add: quiet_def)

lemma quiet_same [simp]: "quiet k a a"
  by (simp add: quiet_def)

lemma quiet_trans: "quiet k a b \<Longrightarrow> quiet k b c \<Longrightarrow> quiet k a c"
  by (auto simp: quiet_def)

lemma post_quiet: "post v q a = (r, b) \<Longrightarrow> quiet k a b"
  by (auto simp: post_def quiet_def split: prod.splits)

lemma phase_quiet: "phase v e kind a = (r, b) \<Longrightarrow> quiet k a b"
  unfolding phase_def by (rule post_quiet)

lemma persist_quiet:
  "persist v f a = (fl, b) \<Longrightarrow> (\<And>j. f (AgJ a) = Inr j \<Longrightarrow> touches k (AgJ a) j) \<Longrightarrow> quiet k a b"
  by (auto simp: persist_def quiet_def Let_def split: prod.splits if_splits sum.splits)

lemma jwrite_quiet: "jwrite v f a = (fl, b) \<Longrightarrow> touches k (AgJ a) (f (AgJ a)) \<Longrightarrow> quiet k a b"
  unfolding jwrite_def by (rule persist_quiet) auto

lemma persist_snd: "(\<And>j. f (AgJ a) = Inr j \<Longrightarrow> touches k (AgJ a) j) \<Longrightarrow> quiet k a (snd (persist v f a))"
  by (rule persist_quiet [of v f a "fst (persist v f a)"]) auto

lemma jwrite_snd: "touches k (AgJ a) (f (AgJ a)) \<Longrightarrow> quiet k a (snd (jwrite v f a))"
  by (rule jwrite_quiet [of v f a "fst (jwrite v f a)"]) auto

lemma and_then_quiet:
  "quiet k a (snd fa) \<Longrightarrow> (\<And>b. quiet k a b \<Longrightarrow> quiet k a (snd (g b))) \<Longrightarrow> quiet k a (snd (and_then fa g))"
  by (auto simp: and_then_def split: flow.splits)

lemma stop_quiet: "quiet k a (snd fa) \<Longrightarrow> quiet k a (snd (stop fa))"
  unfolding stop_def by (rule and_then_quiet) auto

lemma launch_quiet: "quiet k a b \<Longrightarrow> quiet k a (launch now False e b)"
  by (simp add: quiet_def launch_def Let_def)

lemma quiet_persist: "quiet k a b \<Longrightarrow> (\<And>j. f (AgJ b) = Inr j \<Longrightarrow> touches k (AgJ b) j) \<Longrightarrow> quiet k a (snd (persist v f b))"
  by (rule quiet_trans [OF _ persist_snd])

lemma quiet_jwrite: "quiet k a b \<Longrightarrow> touches k (AgJ b) (f (AgJ b)) \<Longrightarrow> quiet k a (snd (jwrite v f b))"
  by (rule quiet_trans [OF _ jwrite_snd])

lemmas quiet_intros = stop_quiet and_then_quiet launch_quiet quiet_persist quiet_jwrite
  Begin_touches Running_touches Cancel_touches Uncertain_touches Ack_touches Chunk_touches

lemma beat_quiet: "quiet k a b \<Longrightarrow> quiet k a (b\<lparr>AgBeat := f\<rparr>)"
  by (simp add: quiet_def)

text \<open>A stage after which the receipt of a message decides.\<close>

lemma reply_quiet:
  "case_prod f (phase v e kind a) = x \<Longrightarrow> (\<And>r b. quiet (entry_key e) a b \<Longrightarrow> quiet (entry_key e) a (snd (f r b))) \<Longrightarrow> quiet (entry_key e) a (snd x)"
  using phase_quiet [of v e kind a] by (cases "phase v e kind a") auto

lemma accept_phase_quiet: "quiet (entry_key e) a (snd (accept_phase v e a))"
  unfolding accept_phase_def
  by (auto split: option.splits prod.splits intro!: quiet_intros intro: Phase_touches Resume_touches dest!: phase_quiet)

lemma begin_phase_quiet: "quiet (entry_key e) a (snd (begin_phase v e a))"
  unfolding begin_phase_def by (auto simp: Let_def intro!: quiet_intros)

lemma resume_phase_quiet: "quiet (entry_key e) a (snd (resume_phase v now e a))"
  unfolding resume_phase_def
  by (auto split: option.splits prod.splits intro!: quiet_intros intro: Phase_touches Resume_touches dest!: phase_quiet)

lemma sync_uncertain_quiet: "quiet (entry_key e) a (snd (sync_uncertain v now e a))"
  unfolding sync_uncertain_def
proof (rule and_then_quiet [OF resume_phase_quiet])
  fix b assume "quiet (entry_key e) a b"
  then show "quiet (entry_key e) a (snd (case phase v e ''uncertain'' b of (None, a1) \<Rightarrow> (Return (Some ETransport), a1)
       | (Some r, a1) \<Rightarrow> if \<not> received r e then (Return (Some EReceipt), a1)
           else if says_terminal r then stop (jwrite v (AckEntry now (entry_key e)) a1) else (Go, a1)))"
    by (auto split: option.splits prod.splits intro!: quiet_intros intro: quiet_trans dest!: phase_quiet)
qed

lemma sync_running_quiet: "quiet (entry_key e) a (snd (sync_running v now e a))"
  unfolding sync_running_def
  by (auto split: option.splits prod.splits intro!: quiet_intros beat_quiet dest!: phase_quiet)

lemma sync_pending_quiet: "quiet (entry_key e) a (snd (sync_pending v now e a))"
  unfolding sync_pending_def
  by (auto split: option.splits prod.splits intro!: quiet_intros intro: Phase_touches Resume_touches dest!: phase_quiet)

lemma send_chunks_quiet: "quiet (entry_key e) a (snd (send_chunks v e cs a))"
proof (induction cs arbitrary: a)
  case Nil
  then show ?case by simp
next
  case (Cons c cs)
  show ?case
  proof (cases "post v (ReqOutput (worker_identity e) (CkSeq c) (CkText c)) a")
    case (Pair r b)
    note q = post_quiet [OF Pair]
    have "quiet (entry_key e) b (snd (and_then (jwrite v (AckChunk (entry_key e) (CkSeq c)) b) (send_chunks v e cs)))"
      by (rule and_then_quiet [OF jwrite_snd]) (auto intro: Chunk_touches quiet_trans [OF _ Cons.IH])
    then show ?thesis using q Pair by (auto split: option.splits intro: quiet_trans)
  qed
qed

lemma sync_output_quiet: "quiet (entry_key e) a (snd (sync_output v e a))"
  unfolding sync_output_def by (auto intro!: and_then_quiet send_chunks_quiet)

lemma sync_final_quiet: "quiet (entry_key e) a (snd (sync_final v now e a))"
  unfolding sync_final_def
  by (auto split: option.splits prod.splits intro!: quiet_intros dest!: phase_quiet post_quiet)

section \<open>The start of an effect\<close>

text \<open>The one branch of \<open>Sync\<close> that starts an effect: the receipt of \<open>started\<close> authorised it, and the
  entry runs.\<close>

definition started_by :: "'n worker_env \<Rightarrow> int \<Rightarrow> Entry \<Rightarrow> 'n agent \<Rightarrow> 'n agent \<Rightarrow> bool" where
  "started_by v now e a a' \<longleftrightarrow>
     (\<exists>r n n' b c. WePost v n (ReqAck (worker_identity e) ''started'' []) = (Some r, n') \<and> received r e \<and> RcStart r \<and>
        AgNet a' = snd (WeCommit v (snd (WeCommit v n'))) \<and> a' = launch now True e b \<and> quiet (entry_key e) a b \<and> entry_of (AgJ b) (entry_key e) = Some c \<and> JeState c = JRunning)"

lemma started_by_quiet: "quiet (entry_key e) a b \<Longrightarrow> started_by v now e b a' \<Longrightarrow> started_by v now e a a'"
  unfolding started_by_def using quiet_trans by blast

lemma persist_go: "persist v f a = (Go, b) \<Longrightarrow> f (AgJ a) = Inr (AgJ b)"
  by (auto simp: persist_def Let_def split: prod.splits if_splits sum.splits)

lemma persist_net: "persist v f a = (fl, b) \<Longrightarrow> AgNet b = snd (WeCommit v (AgNet a))"
  by (auto simp: persist_def Let_def split: prod.splits if_splits sum.splits)

lemma jwrite_go: "jwrite v f a = (Go, b) \<Longrightarrow> AgJ b = f (AgJ a)"
  unfolding jwrite_def using persist_go by fastforce

lemma and_then_split:
  "and_then fa g = (fl, b) \<Longrightarrow> (fst fa \<noteq> Go \<and> fa = (fl, b)) \<or> (\<exists>c. fa = (Go, c) \<and> g c = (fl, b))"
  by (cases fa; cases "fst fa") (auto simp: and_then_def)

lemma entry_of_upd:
  "(\<And>e. p e \<Longrightarrow> JeId (f e) = JeId e) \<Longrightarrow> entry_of (upd_entry p f j) k = map_option (\<lambda>e. if p e then f e else e) (entry_of j k)"
  by (rule entry_of_rows) (simp_all add: upd_entry_def)

lemma entry_of_id: "entry_of j k = Some e \<Longrightarrow> JeId e = k \<and> e \<in> set (JEntries j)"
  unfolding entry_of_def using row_of_SomeD by fastforce

lemma start_phase_cases:
  assumes sp: "start_phase v now e a = (fl, a')" and c: "entry_of (AgJ a) (entry_key e) = Some c" "JeState c = JStarting"
  shows "quiet (entry_key e) a a' \<or> fl = Return None \<and> started_by v now e a a'"
proof (cases "phase v e ''started'' a")
  case (Pair x a1)
  note q1 = phase_quiet [OF Pair]
  have j1: "AgJ a1 = AgJ a" using Pair by (auto simp: phase_def post_def split: prod.splits)
  show ?thesis
  proof (cases x)
    case None
    then show ?thesis using sp Pair q1 by (simp add: start_phase_def)
  next
    case (Some r)
    show ?thesis
    proof (cases "RcState r = Some CancelRequested \<or> \<not> received r e \<or> \<not> RcStart r")
      case True
      have "quiet (entry_key e) a (snd (start_phase v now e a))" using True q1 Pair Some
        by (auto simp: start_phase_def intro!: quiet_intros)
      then show ?thesis using sp by simp
    next
      case False
      then have ok: "received r e" "RcStart r" by auto
      have st: "and_then (persist v (AckPhase (entry_key e) ''started'') a1) (\<lambda>a2.
          and_then (jwrite v (MarkRunning (entry_key e)) a2) (\<lambda>a3. (Return None, launch now True e a3))) = (fl, a')"
        using sp Pair Some False by (simp add: start_phase_def)
      consider "persist v (AckPhase (entry_key e) ''started'') a1 = (fl, a')"
        | a2 where "persist v (AckPhase (entry_key e) ''started'') a1 = (Go, a2)" "jwrite v (MarkRunning (entry_key e)) a2 = (fl, a')"
        | a2 a3 where "persist v (AckPhase (entry_key e) ''started'') a1 = (Go, a2)" "jwrite v (MarkRunning (entry_key e)) a2 = (Go, a3)"
            "fl = Return None" "a' = launch now True e a3"
        using and_then_split [OF st] by (auto dest!: and_then_split)
      then show ?thesis
      proof cases
        case 1
        then have "quiet (entry_key e) a1 a'" by (rule persist_quiet) (rule Phase_touches)
        then show ?thesis using quiet_trans [OF q1] by blast
      next
        case (2 a2)
        have "quiet (entry_key e) a1 a2" using 2(1) by (rule persist_quiet) (rule Phase_touches)
        moreover have "quiet (entry_key e) a2 a'" using 2(2) by (rule jwrite_quiet) (rule Running_touches)
        ultimately show ?thesis using quiet_trans [OF q1] quiet_trans by blast
      next
        case (3 a2 a3)
        have "quiet (entry_key e) a1 a2" using 3(1) by (rule persist_quiet) (rule Phase_touches)
        moreover have "quiet (entry_key e) a2 a3" using 3(2) by (rule jwrite_quiet) (rule Running_touches)
        ultimately have q: "quiet (entry_key e) a a3" using quiet_trans [OF q1] quiet_trans by blast
        have "AgJ a3 = MarkRunning (entry_key e) (upd_entry (\<lambda>x. JeId x = entry_key e) (\<lambda>x. x\<lparr>JeStartAck := True\<rparr>) (AgJ a))"
          using persist_go [OF 3(1)] jwrite_go [OF 3(2)] j1 by (simp add: AckPhase_def)
        then have "entry_of (AgJ a3) (entry_key e) = Some (c\<lparr>JeStartAck := True, JeState := JRunning\<rparr>)"
          using c entry_of_id [OF c(1)] by (simp add: MarkRunning_def entry_of_upd)
        moreover have "WePost v (AgNet a) (ReqAck (worker_identity e) ''started'' []) = (Some r, AgNet a1)"
          using Pair Some by (auto simp: phase_def post_def split: prod.splits)
        moreover have net: "AgNet a' = snd (WeCommit v (snd (WeCommit v (AgNet a1))))"
          using persist_net [OF 3(1)] persist_net [OF 3(2) [unfolded jwrite_def]] 3(4) by (simp add: launch_def Let_def)
        ultimately show ?thesis using q 3(3,4) ok net by (fastforce simp: started_by_def)
      qed
    qed
  qed
qed

lemma begin_go:
  assumes b: "begin_phase v e a = (Go, b)" and inv: "jinv (AgJ a)" and c: "entry_of (AgJ a) (entry_key e) = Some c" "JeState c = JeState e"
    "JeState e = JAccepted \<or> JeState e = JStarting"
  shows "\<exists>d. entry_of (AgJ b) (entry_key e) = Some d \<and> JeState d = JStarting"
proof (cases "JeState e = JAccepted")
  case False
  then show ?thesis using b c by (simp add: begin_phase_def)
next
  case True
  let ?k = "entry_key e"
  obtain a1 where w: "jwrite v (\<lambda>j. snd (BeginEffect ?k j)) a = (Go, b)" "fst (BeginEffect ?k (AgJ a))"
    using b True by (auto simp: begin_phase_def Let_def dest!: and_then_split split: if_splits)
  then have "count_where (can_begin ?k) (JEntries (AgJ a)) \<noteq> 0" by (simp add: BeginEffect_def)
  then obtain d where d: "d \<in> set (JEntries (AgJ a))" "can_begin ?k d" by (auto simp: count_where_zero)
  then have "entry_of (AgJ a) ?k = Some d" using inv row_of_in_set [of JeId "JEntries (AgJ a)" d]
    by (simp add: jinv_def entry_of_def can_begin_def)
  then have "entry_of (AgJ b) ?k = Some (d\<lparr>JeState := JStarting\<rparr>)"
    using d(2) jwrite_go [OF w(1)] by (simp add: BeginEffect_def entry_of_upd)
  then show ?thesis by simp
qed

lemma accept_go:
  assumes b: "accept_phase v e a = (Go, b)" and c: "entry_of (AgJ a) (entry_key e) = Some c"
  shows "\<exists>d. entry_of (AgJ b) (entry_key e) = Some d \<and> JeState d = JeState c"
proof (cases "JeAccAck e")
  case True
  then show ?thesis using b c by (simp add: accept_phase_def)
next
  case False
  have stop: "stop fa \<noteq> (Go, b)" for fa :: "flow \<times> 'a agent" by (cases fa; cases "fst fa") (auto simp: stop_def and_then_def)
  obtain x a1 where p: "phase v e ''accepted'' a = (x, a1)" by (cases "phase v e ''accepted'' a")
  then have j1: "AgJ a1 = AgJ a" by (auto simp: phase_def post_def split: prod.splits)
  have "persist v (AckPhase (entry_key e) ''accepted'') a1 = (Go, b)"
    using b p False stop by (auto simp: accept_phase_def split: option.splits if_splits)
  from persist_go [OF this] have "AgJ b = upd_entry (\<lambda>x. JeId x = entry_key e) (\<lambda>x. x\<lparr>JeAccAck := True\<rparr>) (AgJ a)"
    by (simp add: AckPhase_def j1)
  then show ?thesis using c by (simp add: entry_of_upd)
qed

lemma quiet_inv: "quiet k a b \<Longrightarrow> jinv (AgJ a) \<Longrightarrow> jinv (AgJ b)"
  unfolding quiet_def using touches_star tombs.good_star by blast

lemma sync_start_cases:
  assumes s: "sync_start v now e a = (fl, a')" and inv: "jinv (AgJ a)" and c: "entry_of (AgJ a) (entry_key e) = Some e"
    "JeState e = JAccepted \<or> JeState e = JStarting"
  shows "quiet (entry_key e) a a' \<or> fl = Return None \<and> started_by v now e a a'"
proof (cases "room v a")
  case False
  then show ?thesis using s by (simp add: sync_start_def)
next
  case True
  consider "accept_phase v e a = (fl, a')"
    | a1 where "accept_phase v e a = (Go, a1)" "begin_phase v e a1 = (fl, a')"
    | a1 a2 where "accept_phase v e a = (Go, a1)" "begin_phase v e a1 = (Go, a2)" "start_phase v now e a2 = (fl, a')"
    using s True by (auto simp: sync_start_def dest!: and_then_split)
  then show ?thesis
  proof cases
    case 1
    then show ?thesis using accept_phase_quiet [where a = a and v = v and e = e] by simp
  next
    case (2 a1)
    then show ?thesis using accept_phase_quiet [where a = a and v = v and e = e] begin_phase_quiet [where a = a1 and v = v and e = e] by (auto intro: quiet_trans)
  next
    case (3 a1 a2)
    have q: "quiet (entry_key e) a a1" "quiet (entry_key e) a1 a2" using accept_phase_quiet [where a = a and v = v and e = e] begin_phase_quiet [where a = a1 and v = v and e = e] 3 by simp_all
    obtain d where d: "entry_of (AgJ a1) (entry_key e) = Some d" "JeState d = JeState e" using accept_go [OF 3(1) c(1)] by auto
    obtain f where f: "entry_of (AgJ a2) (entry_key e) = Some f" "JeState f = JStarting"
      using begin_go [OF 3(2) quiet_inv [OF q(1) inv] d c(2)] by auto
    have "quiet (entry_key e) a a2" by (rule quiet_trans [OF q])
    then show ?thesis using start_phase_cases [OF 3(3) f] quiet_trans started_by_quiet by blast
  qed
qed

lemma Sync_cases:
  assumes s: "Sync v now e a = (x, a')" and inv: "jinv (AgJ a)"
    and fresh: "JeState e = JAccepted \<or> JeState e = JStarting \<Longrightarrow> entry_of (AgJ a) (entry_key e) = Some e"
  shows "quiet (entry_key e) a a' \<or> (JeState e = JAccepted \<or> JeState e = JStarting) \<and> started_by v now e a a'"
proof -
  obtain fl where fl: "and_then (sync_state v now e a) (\<lambda>a1. and_then (sync_output v e a1) (sync_final v now e)) = (fl, a')"
    using s by (auto simp: Sync_def split: prod.splits)
  have rest: "quiet (entry_key e) b (snd (and_then (sync_output v e b) (sync_final v now e)))" for b
    using sync_output_quiet [where a = b and v = v and e = e] by (auto intro!: and_then_quiet intro: quiet_trans sync_final_quiet)
  show ?thesis
  proof (cases "JeState e = JAccepted \<or> JeState e = JStarting")
    case True
    obtain f b where sb: "sync_start v now e a = (f, b)" by (cases "sync_start v now e a")
    have e: "sync_state v now e a = (f, b)" using True sb by (auto simp: sync_state_def)
    from sync_start_cases [OF sb inv fresh [OF True] True] show ?thesis
    proof
      assume "quiet (entry_key e) a b"
      then have "quiet (entry_key e) a (snd (and_then (f, b) (\<lambda>a1. and_then (sync_output v e a1) (sync_final v now e))))"
        by (intro and_then_quiet [OF _ quiet_trans [OF _ rest]]) simp_all
      then show ?thesis using fl e by simp
    next
      assume "f = Return None \<and> started_by v now e a b"
      then show ?thesis using fl e True by (simp add: and_then_def)
    qed
  next
    case False
    then have "quiet (entry_key e) a (snd (sync_state v now e a))"
      using sync_uncertain_quiet sync_running_quiet sync_pending_quiet by (cases "JeState e") (simp_all add: sync_state_def)
    then have "quiet (entry_key e) a (snd (and_then (sync_state v now e a) (\<lambda>a1. and_then (sync_output v e a1) (sync_final v now e))))"
      by (rule and_then_quiet [OF _ quiet_trans [OF _ rest]])
    then show ?thesis using fl by simp
  qed
qed

lemma started_journal:
  "started_by v now e a a' \<Longrightarrow> \<exists>b c. quiet (entry_key e) a b \<and> AgJ a' = AgJ b \<and> entry_of (AgJ a') (entry_key e) = Some c \<and>
     JeState c = JRunning \<and> (AgRuns a' = AgRuns a \<or> AgRuns a' = AgRuns a @ [entry_key e])"
  unfolding started_by_def launch_def Let_def quiet_def by (fastforce split: if_splits)

lemma Sync_journal:
  assumes "Sync v now e a = (x, a')" "jinv (AgJ a)" "JeState e = JAccepted \<or> JeState e = JStarting \<Longrightarrow> entry_of (AgJ a) (entry_key e) = Some e"
  shows "(touches (entry_key e))\<^sup>*\<^sup>* (AgJ a) (AgJ a')"
  using Sync_cases [OF assms] started_journal [of v now e a a'] by (auto simp: quiet_def)

section \<open>Histories of an agent\<close>

text \<open>
  The worker, the running effects, crashes, retention and the environment, in any order.  A \<open>Sync\<close>
  works on a copy of the entry that was read before; of an entry that is still to be started no one
  else writes, so there the copy is the entry.
\<close>

inductive agent_step :: "'n worker_env \<Rightarrow> 'n agent \<Rightarrow> 'n agent \<Rightarrow> bool" for v where
  sync: "Sync v now e a = (x, a') \<Longrightarrow> (JeState e = JAccepted \<or> JeState e = JStarting \<Longrightarrow> entry_of (AgJ a) (entry_key e) = Some e) \<Longrightarrow>
    agent_step v a a'"
| poll: "poll_accept v a = (x, a') \<Longrightarrow> agent_step v a a'"
| emit: "agent_step v a (emit_text v k raw a)"
| process: "agent_step v a (record_process v k pid a)"
| finish: "agent_step v a (finish_effect v k code out stopped a)"
| panic: "agent_step v a (effect_panicked v k a)"
| crash: "restart v pending a = Inr a' \<Longrightarrow> agent_step v a a'"
| compact: "agent_step v a (a\<lparr>AgJ := Compact before (AgJ a)\<rparr>)"
| environment: "agent_step v a (a\<lparr>AgNet := n\<rparr>)"

definition started_ok :: "Journal \<Rightarrow> string list \<Rightarrow> bool" where
  "started_ok j rs \<longleftrightarrow> distinct rs \<and>
     (\<forall>k\<in>set rs. \<exists>e. entry_of j k = Some e \<and> JeState e \<noteq> JAccepted \<and> JeState e \<noteq> JStarting)"

definition ag_inv :: "'n agent \<Rightarrow> bool" where
  "ag_inv a \<longleftrightarrow> jinv (AgJ a) \<and> started_ok (AgJ a) (AgRuns a)"

lemma started_ok_write: "journal_write j j' \<Longrightarrow> started_ok j rs \<Longrightarrow> started_ok j' rs"
proof -
  assume w: "journal_write j j'" and ok: "started_ok j rs"
  have "\<exists>e. entry_of j' k = Some e \<and> JeState e \<noteq> JAccepted \<and> JeState e \<noteq> JStarting" if k: "k \<in> set rs" for k
  proof -
    obtain e where e: "entry_of j k = Some e" "JeState e \<noteq> JAccepted" "JeState e \<noteq> JStarting" using ok k by (auto simp: started_ok_def)
    obtain e' where e': "entry_of j' k = Some e'" "jmove e e'" using journal_write_entry [OF w e(1)] by auto
    have "JeState e' \<noteq> JAccepted \<and> JeState e' \<noteq> JStarting" using e'(2) e by (cases "JeState e") (auto simp: jmove_def)
    then show ?thesis using e'(1) by blast
  qed
  then show ?thesis using ok by (simp add: started_ok_def)
qed

lemma ag_inv_write: "journal_write\<^sup>*\<^sup>* (AgJ a) (AgJ a') \<Longrightarrow> AgRuns a' = AgRuns a \<Longrightarrow> ag_inv a \<Longrightarrow> ag_inv a'"
proof -
  assume w: "journal_write\<^sup>*\<^sup>* (AgJ a) (AgJ a')" and r: "AgRuns a' = AgRuns a" and i: "ag_inv a"
  have "jinv (AgJ a') \<and> started_ok (AgJ a') (AgRuns a)"
    using w i by (induction rule: rtranclp_induct) (auto simp: ag_inv_def intro: journal_write_inv started_ok_write)
  then show ?thesis using r by (simp add: ag_inv_def)
qed

lemma ag_inv_quiet: "quiet k a a' \<Longrightarrow> ag_inv a \<Longrightarrow> ag_inv a'"
  using ag_inv_write touches_star unfolding quiet_def by blast

lemma ag_inv_sync:
  assumes "Sync v now e a = (x, a')" "JeState e = JAccepted \<or> JeState e = JStarting \<Longrightarrow> entry_of (AgJ a) (entry_key e) = Some e"
    and inv: "ag_inv a"
  shows "ag_inv a'"
proof -
  have ji: "jinv (AgJ a)" using inv by (simp add: ag_inv_def)
  from Sync_cases [OF assms(1) ji assms(2)] show ?thesis
  proof
    assume "quiet (entry_key e) a a'"
    then show ?thesis by (rule ag_inv_quiet [OF _ inv])
  next
    assume s: "(JeState e = JAccepted \<or> JeState e = JStarting) \<and> started_by v now e a a'"
    then obtain b c where b: "quiet (entry_key e) a b" "AgJ a' = AgJ b" "entry_of (AgJ a') (entry_key e) = Some c" "JeState c = JRunning"
      "AgRuns a' = AgRuns a \<or> AgRuns a' = AgRuns a @ [entry_key e]" using started_journal by blast
    have ib: "ag_inv b" by (rule ag_inv_quiet [OF b(1) inv])
    have rb: "AgRuns b = AgRuns a" using b(1) by (simp add: quiet_def)
    have "entry_of (AgJ a) (entry_key e) = Some e" using s assms(2) by blast
    then have "entry_key e \<notin> set (AgRuns a)" using inv s by (auto simp: ag_inv_def started_ok_def)
    then show ?thesis using ib rb b by (auto simp: ag_inv_def started_ok_def)
  qed
qed

lemma failing_frame: "AgJ (failing fa) = AgJ (snd fa) \<and> AgRuns (failing fa) = AgRuns (snd fa)"
  by (auto simp: failing_def split: flow.splits option.splits)

lemma ended_frame: "AgJ (ended k a) = AgJ a \<and> AgRuns (ended k a) = AgRuns a"
  by (simp add: ended_def)

lemma persist_write:
  "(\<And>j. f (AgJ a) = Inr j \<Longrightarrow> journal_write (AgJ a) j) \<Longrightarrow>
     journal_write\<^sup>*\<^sup>* (AgJ a) (AgJ (snd (persist v f a))) \<and> AgRuns (snd (persist v f a)) = AgRuns a"
  by (auto simp: persist_def Let_def split: prod.splits if_splits sum.splits)

lemma jwrite_write:
  "journal_write (AgJ a) (f (AgJ a)) \<Longrightarrow>
     journal_write\<^sup>*\<^sup>* (AgJ a) (AgJ (snd (jwrite v f a))) \<and> AgRuns (snd (jwrite v f a)) = AgRuns a"
  unfolding jwrite_def by (rule persist_write) auto

lemma agent_step_inv: "agent_step v a a' \<Longrightarrow> ag_inv a \<Longrightarrow> ag_inv a'"
proof (induction rule: agent_step.induct)
  case (sync now e a x a')
  then show ?case using ag_inv_sync by blast
next
  case (poll a x a')
  have p: "AgJ a' = AgJ a \<and> AgRuns a' = AgRuns a \<or> (\<exists>m b. AgJ b = AgJ a \<and> AgRuns b = AgRuns a \<and> a' = snd (persist v (\<lambda>j. map_sum id snd (Accept (WeFp v) m j)) b))"
    using poll(1) by (auto simp: poll_accept_def Let_def split: prod.splits option.splits flow.splits)
      (metis agent.select_convs(1,7) agent.surjective agent.update_convs(2) snd_conv)+
  have "journal_write\<^sup>*\<^sup>* (AgJ a) (AgJ a') \<and> AgRuns a' = AgRuns a"
  proof -
    have "journal_write\<^sup>*\<^sup>* (AgJ b) (AgJ (snd (persist v (\<lambda>j. map_sum id snd (Accept (WeFp v) m j)) b))) \<and>
        AgRuns (snd (persist v (\<lambda>j. map_sum id snd (Accept (WeFp v) m j)) b)) = AgRuns b" for m b
      by (rule persist_write) (auto simp: map_sum_def split: sum.splits intro: Accept_write)
    then show ?thesis using p by (metis rtranclp.rtrancl_refl)
  qed
  then show ?case using ag_inv_write poll by blast
next
  case (emit a k raw)
  have "journal_write\<^sup>*\<^sup>* (AgJ a) (AgJ (snd (persist v (AppendText k raw) a))) \<and> AgRuns (snd (persist v (AppendText k raw) a)) = AgRuns a"
    by (rule persist_write) (rule Append_write)
  then have "journal_write\<^sup>*\<^sup>* (AgJ a) (AgJ (emit_text v k raw a)) \<and> AgRuns (emit_text v k raw a) = AgRuns a"
    by (auto simp: emit_text_def split: prod.splits flow.splits option.splits work_error.splits jerror.splits)
  then show ?case using ag_inv_write emit by blast
next
  case (process a k pid)
  have "journal_write\<^sup>*\<^sup>* (AgJ a) (AgJ (snd (jwrite v (RecordProcess k pid) a))) \<and> AgRuns (snd (jwrite v (RecordProcess k pid) a)) = AgRuns a"
    by (rule jwrite_write) (rule Process_write)
  then have "journal_write\<^sup>*\<^sup>* (AgJ a) (AgJ (record_process v k pid a)) \<and> AgRuns (record_process v k pid a) = AgRuns a"
    by (auto simp: record_process_def split: prod.splits flow.splits option.splits)
  then show ?case using ag_inv_write process by blast
next
  case (finish a k code out stopped)
  have "journal_write\<^sup>*\<^sup>* (AgJ a) (AgJ (finish_effect v k code out stopped a)) \<and> AgRuns (finish_effect v k code out stopped a) = AgRuns a"
    using jwrite_write [of a "MarkUncertain k out" v, OF Uncertain_write]
      persist_write [of "RecordResult k c out" a v for c, OF Result_write]
    by (auto simp: finish_effect_def record_result_def ended_frame failing_frame split: option.splits)
  then show ?case using ag_inv_write finish by blast
next
  case (panic a k)
  have "journal_write\<^sup>*\<^sup>* (AgJ a) (AgJ (effect_panicked v k a)) \<and> AgRuns (effect_panicked v k a) = AgRuns a"
    using jwrite_write [of a "MarkUncertain k ''executor panicked; effect outcome unknown''" v, OF Uncertain_write]
    by (auto simp: effect_panicked_def ended_frame failing_frame)
  then show ?case using ag_inv_write panic by blast
next
  case (crash pending a a')
  have "journal_write (AgJ a) (AgJ a') \<and> AgRuns a' = AgRuns a"
    using crash(1) open_write [of "WeFp v" "JAgent (AgJ a)" "AgJ a" _ pending] by (auto simp: restart_def split: sum.splits)
  then show ?case using ag_inv_write [of a a'] crash by auto
next
  case (compact a before)
  then show ?case using ag_inv_write [of a "a\<lparr>AgJ := Compact before (AgJ a)\<rparr>"] Compact_write by auto
next
  case (environment a n)
  then show ?case by (simp add: ag_inv_def)
qed

end
