(* ===== verification/AgentServer.thy ===== *)
theory AgentServer
  imports WorkerRuns ExecutionRuns
begin

text \<open>
  The agent and the server together: the worker's posts are the operations of the execution engine,
  through the handlers of \<open>api/execution_lab.go\<close>, which take the identity of the agent from its
  credentials.  The network delivers every answer; a network that loses some is covered by the worker
  alone, which is proved against any server.
\<close>

record 'b net =
  NetStore :: "'b store"
  NetNow :: int

definition from_agent :: "string \<Rightarrow> Identity \<Rightarrow> Identity" where
  "from_agent agent i = i\<lparr>IdAgent := agent\<rparr>"

definition server_answer ::
  "'b engine \<Rightarrow> string \<Rightarrow> int \<Rightarrow> request \<Rightarrow> 'b store \<Rightarrow> exec_error + (Receipt \<times> 'b store)" where
  "server_answer e agent now q s =
     (case q of
        ReqAck i kind reason \<Rightarrow> AcknowledgeReason e now (from_agent agent i) kind reason s
      | ReqOutput i sq chunk \<Rightarrow> AppendOutput e (from_agent agent i) sq chunk s
      | ReqResult i code out \<Rightarrow>
          Complete e now \<lparr>ReIdentity = from_agent agent i, ReExit = code, ReOutput = out\<rparr> s)"

text \<open>Every status but 200 is an error of the transport.\<close>

definition server_post :: "'b engine \<Rightarrow> string \<Rightarrow> 'b net \<Rightarrow> request \<Rightarrow> Receipt option \<times> 'b net" where
  "server_post e agent n q =
     (case server_answer e agent (NetNow n) q (NetStore n) of
        Inl x \<Rightarrow> (None, n) | Inr (r, s) \<Rightarrow> (Some r, n\<lparr>NetStore := s\<rparr>))"

definition server_poll :: "'b engine \<Rightarrow> string \<Rightarrow> 'b net \<Rightarrow> bool \<Rightarrow> Envelope option option \<times> 'b net" where
  "server_poll e agent n available =
     (let (x, k, s1) = Reconcile e (NetNow n) (NetStore n) in
      if x \<noteq> None then (None, n\<lparr>NetStore := s1\<rparr>)
      else let (r, s2) = ClaimCapacity e (NetNow n) agent available s1 in
        (case r of Inl x \<Rightarrow> None | Inr m \<Rightarrow> Some m, n\<lparr>NetStore := s2\<rparr>))"

definition served :: "'b engine \<Rightarrow> string \<Rightarrow> (Envelope \<Rightarrow> string) \<Rightarrow> nat \<Rightarrow> (Entry \<Rightarrow> bool) option \<Rightarrow> 'b net worker_env" where
  "served e agent fp conc res =
     \<lparr>WePost = server_post e agent, WePoll = server_poll e agent, WeCommit = (\<lambda>n. (True, n)), WeFp = fp,
      WeConcurrent = conc, WeResumable = res\<rparr>"

section \<open>The round as a sequence of steps\<close>

lemma Sync_key_frame:
  "Sync v now e a = (x, a') \<Longrightarrow> jinv (AgJ a) \<Longrightarrow> (JeState e = JAccepted \<or> JeState e = JStarting \<Longrightarrow> entry_of (AgJ a) (entry_key e) = Some e) \<Longrightarrow>
     jinv (AgJ a') \<and> (\<forall>i. i \<noteq> entry_key e \<longrightarrow> entry_of (AgJ a') i = entry_of (AgJ a) i)"
proof -
  assume a: "Sync v now e a = (x, a')" "jinv (AgJ a)" "JeState e = JAccepted \<or> JeState e = JStarting \<Longrightarrow> entry_of (AgJ a) (entry_key e) = Some e"
  note t = touches_star [OF Sync_journal [OF a]]
  then show ?thesis using tombs.good_star a(2) by blast
qed

lemma sync_all_steps:
  "sync_all v now es a = (x, a') \<Longrightarrow> jinv (AgJ a) \<Longrightarrow> distinct (map entry_key es) \<Longrightarrow>
     (\<And>e. e \<in> set es \<Longrightarrow> entry_of (AgJ a) (entry_key e) = Some e) \<Longrightarrow> (agent_step v)\<^sup>*\<^sup>* a a'"
proof (induction es arbitrary: a)
  case Nil
  then show ?case by simp
next
  case (Cons e es)
  obtain y b where s: "Sync v now e a = (y, b)" by (cases "Sync v now e a")
  have st: "agent_step v a b" by (rule agent_step.sync [OF s]) (use Cons.prems(4) in simp)
  show ?case
  proof (cases y)
    case None
    have fr: "jinv (AgJ b)" "\<And>i. i \<noteq> entry_key e \<Longrightarrow> entry_of (AgJ b) i = entry_of (AgJ a) i"
      using Sync_key_frame [OF s Cons.prems(2)] Cons.prems(4) by auto
    have "(agent_step v)\<^sup>*\<^sup>* b a'"
    proof (rule Cons.IH)
      show "sync_all v now es b = (x, a')" using Cons.prems(1) s None by simp
      show "jinv (AgJ b)" by (rule fr(1))
      show "distinct (map entry_key es)" using Cons.prems(3) by simp
      fix f assume f: "f \<in> set es"
      then have "entry_key f \<noteq> entry_key e" using Cons.prems(3) by (auto simp: image_iff)
      then show "entry_of (AgJ b) (entry_key f) = Some f" using fr(2) Cons.prems(4) f by simp
    qed
    then show ?thesis using st by (rule converse_rtranclp_into_rtranclp [rotated])
  next
    case (Some z)
    then show ?thesis using Cons.prems(1) s st by auto
  qed
qed

lemma pending_keys:
  assumes "jinv j"
  shows "distinct (map entry_key (PendingEntries j)) \<and> (\<forall>e\<in>set (PendingEntries j). entry_of j (entry_key e) = Some e)"
proof -
  have sub: "set (PendingEntries j) \<subseteq> set (JEntries j)"
    unfolding PendingEntries_def by (auto dest: in_set_takeD)
  have key: "\<And>e. e \<in> set (JEntries j) \<Longrightarrow> entry_key e = JeId e" using assms by (simp add: jinv_def entry_key_def)
  have "distinct (map JeId (filter unfinished (JEntries j)))" using assms by (simp add: jinv_def keys_distinct_def distinct_map_filter)
  then have "distinct (map JeId (sort_key JeId (filter unfinished (JEntries j))))"
    by (simp add: distinct_map)
  then have "distinct (map JeId (PendingEntries j))" by (simp add: PendingEntries_def take_map [symmetric])
  moreover have "map JeId (PendingEntries j) = map entry_key (PendingEntries j)" using sub key by auto
  moreover have "entry_of j (entry_key e) = Some e" if "e \<in> set (PendingEntries j)" for e
    using that sub key assms row_of_in_set [of JeId "JEntries j" e] by (auto simp: entry_of_def jinv_def)
  ultimately show ?thesis by simp
qed

lemma WorkerTick_steps:
  assumes t: "WorkerTick v now a = (x, a')" and inv: "jinv (AgJ a)"
  shows "(agent_step v)\<^sup>*\<^sup>* a a'"
proof (cases "AgFatal a")
  case True
  then show ?thesis using t by (simp add: WorkerTick_def)
next
  case False
  obtain y b where s: "sync_all v now (PendingEntries (AgJ a)) a = (y, b)" by (cases "sync_all v now (PendingEntries (AgJ a)) a")
  have st: "(agent_step v)\<^sup>*\<^sup>* a b"
    using sync_all_steps [OF s inv] pending_keys [OF inv] by blast
  show ?thesis
  proof (cases y)
    case None
    then have "poll_accept v b = (x, a')" using t False s by (simp add: WorkerTick_def)
    then have "agent_step v b a'" by (rule agent_step.poll)
    then show ?thesis using st by simp
  next
    case (Some z)
    then show ?thesis using t False s st by (simp add: WorkerTick_def)
  qed
qed

section \<open>What the receipts of the server mean\<close>

lemma started_answer:
  assumes c: "AcknowledgeReason e now i ''started'' [] s = Inr (r, s')" and rs: "RcStart r"
  shows "\<exists>ord a. lockedAttempt s' (IdExec i) = Some (ord, a) \<and> is_current ord a \<and> AtState a = Running \<and> identityOK a i"
proof -
  obtain ord a where l: "lockedAttempt s (IdExec i) = Some (ord, a)" and ok: "identityOK a i"
    using c by (auto simp: AcknowledgeReason_def split: if_splits option.splits)
  show ?thesis
  proof (cases "ack_already ''started'' a")
    case True
    then have "r = phaseReceipt ord a True" "s' = s" using c l by (auto simp: AcknowledgeReason_def split: if_splits)
    then show ?thesis using rs l ok by (auto simp: phaseReceipt_def)
  next
    case False
    obtain nxt s1 where p: "ack_apply now ''started'' ord a s = Some (nxt, s1)" "is_current ord a"
      "ack_commit e now ''started'' [] ord a nxt None s1 = Inr (r, s')"
      using c l False by (auto simp: AcknowledgeReason_def split: if_splits option.splits)
    have s1: "s1 = upd_attempt (AtExec a) (\<lambda>x. x\<lparr>AtStarted := now\<rparr>) s" using p(1) by (auto simp: ack_apply_def split: if_splits)
    have nxt: "nxt = Running" using p(3) rs by (auto simp: ack_commit_def Let_def phaseReceipt_def split: sum.splits)
    obtain lease rr where t: "Attempts s' = update_where (\<lambda>x. AtExec x = AtExec a) (\<lambda>x. x\<lparr>AtState := nxt, AtLease := lease,
        AtContact := now, AtReason := rr\<rparr>) (Attempts s1)" "Orders s' = Orders s1"
      using p(3) transition_core by (fastforce simp: ack_commit_def Let_def core split: sum.splits if_splits)
    have k: "AtExec a = IdExec i" using lockedD [OF l] by simp
    let ?f = "\<lambda>x. (x\<lparr>AtStarted := now\<rparr>)\<lparr>AtState := nxt, AtLease := lease, AtContact := now, AtReason := rr\<rparr>"
    have "Attempts s' = update_where (\<lambda>x. AtExec x = IdExec i) ?f (Attempts s)"
      unfolding t(1) s1 upd_core k by (rule update_where_twice) simp
    then have "lockedAttempt s' (IdExec i) = Some (ord, ?f a)"
      by (intro lockedAttempt_change [OF _ _ _ l]) (simp_all add: same_ids_def t(2) s1 core)
    then show ?thesis using p(2) nxt ok by (fastforce simp: is_current_def identityOK_def)
  qed
qed

section \<open>An agent that cannot go on\<close>

text \<open>
  The receipt of an acceptance that came too late is an error for the server and an interrupted round
  for the worker.
\<close>

lemma accept_refused:
  assumes l: "lockedAttempt s k = Some (ord, a)" and st: "exec_terminal (AtState a)" "AtAccepted a = 0" and i: "IdExec i = k"
  shows "AcknowledgeReason e now i ''accepted'' [] s = Inl ErrConflict"
proof -
  have "\<not> ack_already ''accepted'' a" using st by (simp add: ack_already_def)
  then show ?thesis using l st i by (simp add: AcknowledgeReason_def ack_kinds_def)
qed

lemma accepted_entry_blocks:
  assumes l: "lockedAttempt (NetStore (AgNet a)) (entry_key x) = Some (ord, at)"
    and st: "exec_terminal (AtState at)" "AtAccepted at = 0"
    and e: "PendingEntries (AgJ a) = x # rest" "JeState x = JAccepted" "\<not> JeAccAck x"
    and room: "length (AgActive a) < conc" and fatal: "\<not> AgFatal a"
  shows "WorkerTick (served e agent fp conc res) now a = (Some ETransport, a)"
proof -
  have "AcknowledgeReason e (NetNow (AgNet a)) (from_agent agent (worker_identity x)) ''accepted'' [] (NetStore (AgNet a)) = Inl ErrConflict"
    by (rule accept_refused [OF l st]) (simp add: from_agent_def worker_identity_def entry_key_def)
  then have "phase (served e agent fp conc res) x ''accepted'' a = (None, a)"
    by (simp add: phase_def post_def served_def server_post_def server_answer_def)
  then have "sync_start (served e agent fp conc res) now x a = (Return (Some ETransport), a)"
    using room e by (simp add: sync_start_def room_def served_def accept_phase_def and_then_def)
  then have "Sync (served e agent fp conc res) now x a = (Some ETransport, a)"
    using e by (simp add: Sync_def sync_state_def and_then_def)
  then show ?thesis using e fatal by (simp add: WorkerTick_def)
qed

end
