(* ===== verification/AgentCorrect.thy ===== *)
theory AgentCorrect
  imports AgentServer ExecutionCorrect
begin

text \<open>The properties of the agent, alone against any server, and together with the execution engine.\<close>

inductive agent_reachable :: "'n worker_env \<Rightarrow> 'n agent \<Rightarrow> bool" for v where
  fresh: "JEntries (AgJ a) = [] \<Longrightarrow> AgRuns a = [] \<Longrightarrow> agent_reachable v a"
| step: "agent_reachable v a \<Longrightarrow> agent_step v a a' \<Longrightarrow> agent_reachable v a'"
| tick: "agent_reachable v a \<Longrightarrow> WorkerTick v now a = (x, a') \<Longrightarrow> agent_reachable v a'"

lemma agent_steps_inv: "(agent_step v)\<^sup>*\<^sup>* a a' \<Longrightarrow> ag_inv a \<Longrightarrow> ag_inv a'"
  by (induction rule: rtranclp_induct) (auto intro: agent_step_inv)

lemma agent_reachable_inv: "agent_reachable v a \<Longrightarrow> ag_inv a"
proof (induction rule: agent_reachable.induct)
  case (fresh a)
  then show ?case by (simp add: ag_inv_def jinv_def started_ok_def keys_distinct_def)
next
  case (step a a')
  then show ?case by (blast intro: agent_step_inv)
next
  case (tick a now x a')
  then show ?case using agent_steps_inv [OF WorkerTick_steps [OF tick.hyps(2)]] by (simp add: ag_inv_def)
qed

section \<open>A run\<close>

definition "demo_served = served demo_engine ''a'' (\<lambda>_. ''f'') 1 None"

definition agent0 :: "unit net agent" where
  "agent0 = \<lparr>AgJ = \<lparr>JEntries = [], JChunks = [], JAgent = ''a'', JMaxPending = 10\<rparr>, AgNet = \<lparr>NetStore = demo2, NetNow = 5\<rparr>,
     AgActive = [], AgBeat = (\<lambda>_. 0), AgBroken = [], AgFatal = False, AgRuns = [], AgWatches = []\<rparr>"

definition "agent1 = snd (WorkerTick demo_served 5 agent0)"
definition "agent2 = snd (WorkerTick demo_served 6 agent1)"

lemma agent1_entries: "map JeState (JEntries (AgJ agent1)) = [JAccepted] \<and> AgRuns agent1 = []"
  by code_simp

lemma agent2_entries: "map JeState (JEntries (AgJ agent2)) = [JRunning] \<and> AgRuns agent2 = [''E'']"
  by code_simp

lemma agent_reachables: "agent_reachable demo_served agent0" "agent_reachable demo_served agent1" "agent_reachable demo_served agent2"
proof -
  show 0: "agent_reachable demo_served agent0" by (rule agent_reachable.fresh) (simp_all add: agent0_def)
  show 1: "agent_reachable demo_served agent1"
    unfolding agent1_def by (rule agent_reachable.tick [OF 0, of 5 "fst (WorkerTick demo_served 5 agent0)"]) simp
  show "agent_reachable demo_served agent2"
    unfolding agent2_def by (rule agent_reachable.tick [OF 1, of 6 "fst (WorkerTick demo_served 6 agent1)"]) simp
qed

section \<open>Properties\<close>

text \<open>C8. An effect is started at most once.  Whatever the server answers, however often messages are
  delivered again, receipts are lost, writes to the journal fail or the agent crashes and restarts on
  its journal, the worker starts the effect of one execution at most once.\<close>

theorem effect_starts_once:
  assumes "agent_reachable v a"
  shows "count_list (AgRuns a) k \<le> 1"
proof -
  have d: "distinct (AgRuns a)" using agent_reachable_inv [OF assms] by (simp add: ag_inv_def started_ok_def)
  have "distinct xs \<Longrightarrow> count_list xs k \<le> 1" for xs
    by (induction xs) (auto simp: count_list_0_iff)
  then show ?thesis using d .
qed

theorem effect_starts_once_witness: "count_list (AgRuns agent2) ''E'' \<le> 1 \<and> AgRuns agent2 = [''E'']"
  using effect_starts_once [OF agent_reachables(3), of "''E''"] agent2_entries by simp

text \<open>C9. An effect starts only for the attempt the server holds.  When a round of synchronisation of one
  entry starts an effect, the server at that moment holds the attempt as the current one of its order,
  running, assigned to this agent under the fence the agent carries; and when the store of the server
  is a reachable one, every other attempt of that order has ended.\<close>

theorem effect_needs_running_attempt:
  assumes "agent_reachable (served e agent fp conc res) a" "Sync (served e agent fp conc res) now x a = (err, a')"
    and "JeState x = JAccepted \<or> JeState x = JStarting \<Longrightarrow> entry_of (AgJ a) (entry_key x) = Some x"
    and "AgRuns a' \<noteq> AgRuns a"
  shows "\<exists>ord t. lockedAttempt (NetStore (AgNet a')) (entry_key x) = Some (ord, t) \<and> is_current ord t \<and> AtState t = Running \<and>
    AtAgent t = agent \<and> AtFence t = MsgFence (JeEnv x) \<and>
    (exec_reachable e (NetStore (AgNet a')) \<longrightarrow>
       (\<forall>u\<in>set (Attempts (NetStore (AgNet a'))). AtOrder u = AtOrder t \<longrightarrow> u = t \<or> exec_terminal (AtState u)))"
proof -
  let ?v = "served e agent fp conc res" and ?i = "from_agent agent (worker_identity x)"
  have inv: "jinv (AgJ a)" using agent_reachable_inv [OF assms(1)] by (simp add: ag_inv_def)
  have "\<not> quiet (entry_key x) a a'" using assms(4) by (auto simp: quiet_def)
  then have "started_by ?v now x a a'" using Sync_cases [OF assms(2) inv assms(3)] by blast
  then obtain r n n' where p: "WePost ?v n (ReqAck (worker_identity x) ''started'' []) = (Some r, n')" "RcStart r"
    "AgNet a' = snd (WeCommit ?v (snd (WeCommit ?v n')))" unfolding started_by_def by blast
  then have "AcknowledgeReason e (NetNow n) ?i ''started'' [] (NetStore n) = Inr (r, NetStore (AgNet a'))"
    by (auto simp: served_def server_post_def server_answer_def split: sum.splits dest: arg_cong [of _ _ NetStore])
  from started_answer [OF this p(2)] obtain ord t where t: "lockedAttempt (NetStore (AgNet a')) (entry_key x) = Some (ord, t)"
    "is_current ord t" "AtState t = Running" "identityOK t ?i"
    by (auto simp: from_agent_def worker_identity_def entry_key_def)
  have live: "t \<in> set (Attempts (NetStore (AgNet a')))" "\<not> exec_terminal (AtState t)"
    using lockedD [OF t(1)] row_of_SomeD [of AtExec] t(3) by (auto simp: attempt_of_def exec_terminal_def)
  have "exec_reachable e (NetStore (AgNet a')) \<Longrightarrow>
      \<forall>u\<in>set (Attempts (NetStore (AgNet a'))). AtOrder u = AtOrder t \<longrightarrow> u = t \<or> exec_terminal (AtState u)"
    using live_unique [OF reachable_inv _ _ live] by blast
  then show ?thesis using t by (auto simp: identityOK_def from_agent_def worker_identity_def)
qed

definition "entry1 = hd (JEntries (AgJ agent1))"

theorem effect_needs_running_attempt_witness:
  "\<exists>ord t. lockedAttempt (NetStore (AgNet (snd (Sync demo_served 6 entry1 agent1)))) ''E'' = Some (ord, t) \<and> AtState t = Running \<and>
     AtAgent t = ''a''"
proof -
  have e: "entry_of (AgJ agent1) (entry_key entry1) = Some entry1" "entry_key entry1 = ''E''"
  proof -
    have m: "length (JEntries (AgJ agent1)) = 1" using agent1_entries by (metis length_map length_Cons list.size(3) One_nat_def)
    then have l: "JEntries (AgJ agent1) = [entry1]" by (cases "JEntries (AgJ agent1)") (auto simp: entry1_def)
    have "jinv (AgJ agent1)" using agent_reachable_inv [OF agent_reachables(2)] by (simp add: ag_inv_def)
    then show "entry_of (AgJ agent1) (entry_key entry1) = Some entry1" by (simp add: jinv_def l entry_of_def row_of_Cons entry_key_def)
    show "entry_key entry1 = ''E''" by code_simp
  qed
  have r: "AgRuns (snd (Sync demo_served 6 entry1 agent1)) = [''E'']" by code_simp
  then have n: "AgRuns (snd (Sync demo_served 6 entry1 agent1)) \<noteq> AgRuns agent1" using agent1_entries by simp
  have s: "Sync demo_served 6 entry1 agent1 = (fst (Sync demo_served 6 entry1 agent1), snd (Sync demo_served 6 entry1 agent1))" by simp
  show ?thesis
    using effect_needs_running_attempt [OF agent_reachables(2) [unfolded demo_served_def] s [unfolded demo_served_def] _ n [unfolded demo_served_def]] e
    unfolding demo_served_def by fastforce
qed

text \<open>C30. A finished execution is known for ever.  Once an entry of the journal is acknowledged, then
  after any further operations on the journal, retention included, the same dispatch message delivered
  again is recognised: it is accepted without a change of the journal and without becoming due again,
  and a message of the same execution with another content is refused.\<close>

theorem acknowledged_is_remembered:
  assumes "jinv j" "entry_of j k = Some e" "JeState e = JAcked" "journal_write\<^sup>*\<^sup>* j j'"
    and "valid_envelope m (JAgent j')" "MsgExec m = k" "MsgKind m = DispatchMsg" "MsgDef m \<noteq> None"
  shows "if sameIdentity (JeEnv e) m \<and> (JeHash e = [] \<or> JeHash e = fp m)
    then \<exists>x. Accept fp m j' = Inr (x, j') \<and> JeState x = JAcked
    else Accept fp m j' = Inl JConflict"
proof -
  have "map_option tomb (entry_of j' k) = Some (tomb e)"
    using tombs.final_kept [OF assms(4,1), of k "tomb e"] assms(2,3) by (simp add: tomb_def)
  then obtain x where x: "entry_of j' k = Some x" "tomb x = tomb e" by auto
  then have "JeState x = JAcked" "JeHash x = JeHash e" "sameIdentity (JeEnv x) m = sameIdentity (JeEnv e) m"
    using assms(3) by (simp_all add: tomb_def sameIdentity_def)
  then show ?thesis using x(1) assms(5-8) by (auto simp: Accept_def)
qed

definition "journal_done = AckEntry 7 ''E'' (AgJ agent2)"
definition "message_E = JeEnv (hd (JEntries (AgJ agent1)))"

theorem acknowledged_is_remembered_witness:
  "\<exists>x. Accept (\<lambda>_. ''f'') message_E (Compact 99 journal_done) = Inr (x, Compact 99 journal_done) \<and> JeState x = JAcked"
proof -
  have j: "jinv journal_done"
    using agent_reachable_inv [OF agent_reachables(3)] journal_write_inv [OF Ack_write] by (auto simp: ag_inv_def journal_done_def)
  have e: "map_option JeState (entry_of journal_done ''E'') = Some JAcked" "map_option JeHash (entry_of journal_done ''E'') = Some ''f''"
    "map_option (\<lambda>e. sameIdentity (JeEnv e) message_E) (entry_of journal_done ''E'') = Some True"
    "valid_envelope message_E (JAgent (Compact 99 journal_done))" "MsgExec message_E = ''E''" "MsgKind message_E = DispatchMsg"
    "MsgDef message_E \<noteq> None"
    by code_simp+
  obtain d where d: "entry_of journal_done ''E'' = Some d" "JeState d = JAcked" "JeHash d = ''f''" "sameIdentity (JeEnv d) message_E"
    using e(1-3) by (auto simp: map_option_eq_Some)
  show ?thesis
    using acknowledged_is_remembered [OF j d(1,2) r_into_rtranclp [of journal_write, OF Compact_write [of journal_done 99]] e(4-7), of "\<lambda>_. ''f''"] d(3,4)
    by simp
qed

text \<open>A recorded result fits.  The output that the agent records with a result is valid UTF-8 and within
  the limit of the server, so \<^theory_text>\<open>Complete\<close> never refuses it for its size (a transition hook that answers
  with that error itself excepted).\<close>

theorem recorded_result_fits:
  assumes "RecordResult k code raw j = Inr j'" "d \<in> set (JEntries j)" "effect_open k d"
    "\<And>h x ord a kind r. Transition e = Some h \<Longrightarrow> h x ord a kind r \<noteq> Inl ErrOutputLimit"
  shows "\<exists>d'\<in>set (JEntries j'). JeId d' = k \<and> JeState d' = (if JeCancel d then JCancel else JResult) \<and> JeExit d' = code \<and>
    ValidString (JeOutput d') \<and>
    Complete e now \<lparr>ReIdentity = i, ReExit = code, ReOutput = JeOutput d'\<rparr> s \<noteq> Inl ErrOutputLimit"
proof -
  have v: "ValidString (result_output raw) \<and> int (length (result_output raw)) \<le> MaxOutputBytes"
    using ToValidUTF8_valid [of raw] trim_invalid_valid [of "take (nat MaxOutput) (ToValidUTF8 raw)"]
    by (auto simp: result_output_def Let_def MaxOutput_def MaxOutputBytes_def)
  let ?d = "d\<lparr>JeState := (if JeCancel d then JCancel else JResult), JeExit := code, JeOutput := result_output raw\<rparr>"
  have "?d \<in> set (JEntries j')" using assms(1-3) by (force simp: RecordResult_def upd_entry_def set_update_where split: if_splits)
  moreover have "Complete e now \<lparr>ReIdentity = i, ReExit = code, ReOutput = result_output raw\<rparr> s \<noteq> Inl ErrOutputLimit"
    using v assms(4) by (auto simp: Complete_def Let_def exec_transition_def split: if_splits option.splits sum.splits)
  ultimately show ?thesis using v assms(3) by (intro bexI [of _ ?d]) (simp_all add: effect_open_def)
qed

theorem recorded_result_fits_witness:
  "\<exists>d\<in>set (JEntries (projr (RecordResult ''E'' 0 [CHR 0xFF] (AgJ agent2)))). ValidString (JeOutput d) \<and> JeState d = JResult"
proof -
  have r: "\<not> isl (RecordResult ''E'' 0 [CHR 0xFF] (AgJ agent2))"
    "map (\<lambda>d. (effect_open ''E'' d, JeCancel d)) (JEntries (AgJ agent2)) = [(True, False)]" by code_simp+
  obtain d where d: "JEntries (AgJ agent2) = [d]" "effect_open ''E'' d" "\<not> JeCancel d" using r(2) by (auto simp: map_eq_Cons_conv)
  have "RecordResult ''E'' 0 [CHR 0xFF] (AgJ agent2) = Inr (projr (RecordResult ''E'' 0 [CHR 0xFF] (AgJ agent2)))" using r(1) by (cases "RecordResult ''E'' 0 [CHR 0xFF] (AgJ agent2)") simp_all
  from recorded_result_fits [OF this, of d, where e = demo_engine and now = 0 and i = demo_id and s = demo0] d
  show ?thesis by (fastforce simp: demo_engine_def)
qed


text \<open>The delivery of \<open>E\<close> is cancelled and resolved before the agent came to accept it.\<close>

definition "ended1 = snd (projr (CancelFor demo_engine 6 ''O'' ''op'' (NetStore (AgNet agent1))))"
definition "ended2 = snd (projr (Resolve demo_engine 7 ''E'' 1 ''key'' ''op'' ''failed'' ''host lost'' True ended1))"
definition "blocked = agent1\<lparr>AgNet := \<lparr>NetStore = ended2, NetNow = 8\<rparr>\<rparr>"


end
