(* ===== verification/Leader.thy ===== *)
theory Leader
  imports Prelude "HOL-Library.Word"
begin

text \<open>
  The election of the scheduler's leader, \<open>leader/leader.go\<close> and \<open>scheduler/leadership.go\<close>: several
  nodes compete for one advisory lock of the database, the winner draws a term, and every decision
  of the scheduler is a transaction that first checks term and lock.

  The database is a record: the granted advisory locks, the table \<open>scheduler_leadership\<close>, the live
  sessions with their backend pids (a pid may be used again after its session ended).  A call is cut
  at its statements, because other nodes act between them; the stage of a node says how far its call
  has come, and the mutex \<open>op\<close> allows one call at a time.  A statement may be refused, or executed with
  its answer lost.
\<close>

section \<open>State\<close>

datatype stage = Idle | Locked nat | Inserted nat | Termed nat int int | Unlocking nat

record PgAdvisory =
  PgLeader :: bool
  PgClosed :: bool
  PgEpoch :: int
  PgPid :: int
  PgConn :: "nat option"
  PgStage :: stage

record TermRow =
  TrKey :: "64 word"
  TrEpoch :: int
  TrPid :: int

text \<open>
  \<open>ClPending\<close> holds what the guards of transactions that have begun read of their node, \<open>ClOpen\<close> the
  transactions whose guard has passed (node and term), \<open>ClLog\<close> those that committed, in order, and
  \<open>ClTerms\<close> every term that was drawn, with the node that drew it.
\<close>

record cluster =
  ClNodes :: "nat \<Rightarrow> PgAdvisory"
  ClRows :: "TermRow list"
  ClLocks :: "(nat \<times> int \<times> int) list"
  ClLive :: "(nat \<times> int) list"
  ClPending :: "(nat \<times> PgAdvisory) list"
  ClOpen :: "(nat \<times> int) list"
  ClLog :: "(nat \<times> int) list"
  ClTerms :: "(int \<times> nat) list"

definition DefaultAdvisoryKey :: "64 word" where "DefaultAdvisoryKey = 0x52474E54"

definition NewPgAdvisory :: PgAdvisory where
  "NewPgAdvisory = \<lparr>PgLeader = False, PgClosed = False, PgEpoch = 0, PgPid = 0, PgConn = None, PgStage = Idle\<rparr>"

definition advisory_key :: "64 word \<Rightarrow> 64 word" where
  "advisory_key k = (if k = 0 then DefaultAdvisoryKey else k)"

definition set_node :: "nat \<Rightarrow> (PgAdvisory \<Rightarrow> PgAdvisory) \<Rightarrow> cluster \<Rightarrow> cluster" where
  "set_node n f c = c\<lparr>ClNodes := (ClNodes c)(n := f (ClNodes c n))\<rparr>"

section \<open>The database\<close>

text \<open>How PostgreSQL names the lock of a 64-bit key in \<open>pg_locks\<close>.\<close>

definition key_halves :: "64 word \<Rightarrow> int \<times> int" where
  "key_halves k = (uint (drop_bit 32 k), uint (take_bit 32 k))"

definition pid_of :: "nat \<Rightarrow> cluster \<Rightarrow> int option" where
  "pid_of s c = map_of (ClLive c) s"

definition pg_try_advisory_lock :: "64 word \<Rightarrow> nat \<Rightarrow> cluster \<Rightarrow> bool \<times> cluster" where
  "pg_try_advisory_lock k s c =
     (if list_ex (\<lambda>l. snd l = key_halves k \<and> fst l \<noteq> s) (ClLocks c) then (False, c)
      else (True, c\<lparr>ClLocks := (s, key_halves k) # ClLocks c\<rparr>))"

definition pg_advisory_unlock :: "64 word \<Rightarrow> nat \<Rightarrow> cluster \<Rightarrow> cluster" where
  "pg_advisory_unlock k s c = c\<lparr>ClLocks := remove1 (s, key_halves k) (ClLocks c)\<rparr>"

definition term_row :: "64 word \<Rightarrow> cluster \<Rightarrow> TermRow option" where
  "term_row k c = row_of TrKey k (ClRows c)"

datatype answer = Answered | Refused | Lost

definition executes :: "nat \<Rightarrow> answer \<Rightarrow> cluster \<Rightarrow> bool" where
  "executes s ans c \<longleftrightarrow> ans \<noteq> Refused \<and> pid_of s c \<noteq> None"

section \<open>tryAcquire\<close>

text \<open>Up to the answer of \<open>pg_try_advisory_lock\<close>; \<open>conn\<close> is the session the pool hands out.\<close>

definition tryAcquire :: "64 word \<Rightarrow> nat \<Rightarrow> bool \<Rightarrow> nat option \<Rightarrow> answer \<Rightarrow> cluster \<Rightarrow> cluster" where
  "tryAcquire k n ping conn ans c =
     (let p = ClNodes c n in
      if PgClosed p then c
      else if PgLeader p \<and> PgConn p \<noteq> None then
        (if ping \<and> pid_of (the (PgConn p)) c \<noteq> None then c
         else set_node n (\<lambda>p. p\<lparr>PgConn := None, PgLeader := False\<rparr>) c)
      else case conn of
        None \<Rightarrow> c
      | Some s \<Rightarrow>
          if \<not> executes s ans c then c
          else let (got, c1) = pg_try_advisory_lock k s c in
            if ans = Lost \<or> \<not> got then c1 else set_node n (\<lambda>p. p\<lparr>PgStage := Locked s\<rparr>) c1)"

definition insert_term :: "64 word \<Rightarrow> nat \<Rightarrow> nat \<Rightarrow> answer \<Rightarrow> cluster \<Rightarrow> cluster" where
  "insert_term k n s ans c =
     (let c1 = (if executes s ans c \<and> term_row k c = None
                then c\<lparr>ClRows := ClRows c @ [\<lparr>TrKey = k, TrEpoch = 0, TrPid = 0\<rparr>]\<rparr> else c)
      in set_node n (\<lambda>p. p\<lparr>PgStage := (if executes s ans c \<and> ans = Answered then Inserted s else Idle)\<rparr>) c1)"

definition draw_term :: "64 word \<Rightarrow> nat \<Rightarrow> nat \<Rightarrow> answer \<Rightarrow> cluster \<Rightarrow> cluster" where
  "draw_term k n s ans c =
     (case term_row k c of
        None \<Rightarrow> set_node n (\<lambda>p. p\<lparr>PgStage := Idle\<rparr>) c
      | Some r \<Rightarrow>
          if \<not> executes s ans c then set_node n (\<lambda>p. p\<lparr>PgStage := Idle\<rparr>) c
          else let e = TrEpoch r + 1; pid = the (pid_of s c);
                   c1 = c\<lparr>ClRows := update_where (\<lambda>r. TrKey r = k) (\<lambda>r. r\<lparr>TrEpoch := e, TrPid := pid\<rparr>) (ClRows c),
                          ClTerms := (e, n) # ClTerms c\<rparr>
            in set_node n (\<lambda>p. p\<lparr>PgStage := (if ans = Answered then Termed s e pid else Idle)\<rparr>) c1)"

definition publish_term :: "nat \<Rightarrow> nat \<Rightarrow> int \<Rightarrow> int \<Rightarrow> cluster \<Rightarrow> cluster" where
  "publish_term n s e pid c =
     set_node n (\<lambda>p. if PgClosed p then p\<lparr>PgStage := Idle\<rparr>
       else p\<lparr>PgEpoch := e, PgPid := pid, PgConn := Some s, PgLeader := True, PgStage := Idle\<rparr>) c"

section \<open>Releasing\<close>

definition release_node :: "PgAdvisory \<Rightarrow> PgAdvisory" where
  "release_node p = p\<lparr>PgConn := None, PgLeader := False,
     PgStage := (case PgConn p of None \<Rightarrow> Idle | Some s \<Rightarrow> Unlocking s)\<rparr>"

definition release_lock :: "64 word \<Rightarrow> nat \<Rightarrow> nat \<Rightarrow> answer \<Rightarrow> cluster \<Rightarrow> cluster" where
  "release_lock k n s ans c =
     set_node n (\<lambda>p. p\<lparr>PgStage := Idle\<rparr>) (if executes s ans c then pg_advisory_unlock k s c else c)"

definition close_node :: "PgAdvisory \<Rightarrow> PgAdvisory" where
  "close_node p = p\<lparr>PgClosed := True\<rparr>"

section \<open>The guard\<close>

text \<open>\<open>p\<close> is what the guard read of its node; the row of the term is locked \<open>FOR SHARE\<close> until the transaction ends.\<close>

definition Guard :: "64 word \<Rightarrow> PgAdvisory \<Rightarrow> cluster \<Rightarrow> bool" where
  "Guard k p c \<longleftrightarrow>
     PgLeader p \<and>
     (case term_row k c of
        None \<Rightarrow> False
      | Some r \<Rightarrow> TrEpoch r = PgEpoch p \<and> TrPid r = PgPid p \<and>
          list_ex (\<lambda>l. snd l = key_halves k \<and> pid_of (fst l) c = Some (PgPid p)) (ClLocks c))"

text \<open>What the scheduler asks before a decision, by the kind of elector it was given.\<close>

datatype elector = NoElector | Plain bool | Advisory PgAdvisory

definition guardLeadership :: "64 word \<Rightarrow> elector \<Rightarrow> cluster \<Rightarrow> bool" where
  "guardLeadership k el c =
     (case el of NoElector \<Rightarrow> True | Plain leads \<Rightarrow> leads | Advisory p \<Rightarrow> Guard k p c)"

section \<open>Runs\<close>

inductive cluster_step :: "64 word \<Rightarrow> cluster \<Rightarrow> cluster \<Rightarrow> bool" for k where
  acquire: "PgStage (ClNodes c n) = Idle \<Longrightarrow> cluster_step k c (tryAcquire k n ping conn ans c)"
| insert: "PgStage (ClNodes c n) = Locked s \<Longrightarrow> cluster_step k c (insert_term k n s ans c)"
| draw: "PgStage (ClNodes c n) = Inserted s \<Longrightarrow> ClOpen c = [] \<Longrightarrow> cluster_step k c (draw_term k n s ans c)"
| publish: "PgStage (ClNodes c n) = Termed s e pid \<Longrightarrow> cluster_step k c (publish_term n s e pid c)"
| release: "PgStage (ClNodes c n) = Idle \<Longrightarrow> cluster_step k c (set_node n release_node c)"
| unlock: "PgStage (ClNodes c n) = Unlocking s \<Longrightarrow> cluster_step k c (release_lock k n s ans c)"
| close: "cluster_step k c (set_node n close_node c)"
| read: "cluster_step k c (c\<lparr>ClPending := (n, ClNodes c n) # ClPending c\<rparr>)"
| guard: "(n, p) \<in> set (ClPending c) \<Longrightarrow> guardLeadership k (Advisory p) c \<Longrightarrow>
    cluster_step k c (c\<lparr>ClOpen := (n, PgEpoch p) # ClOpen c\<rparr>)"
| commit: "x \<in> set (ClOpen c) \<Longrightarrow> cluster_step k c (c\<lparr>ClOpen := remove1 x (ClOpen c), ClLog := ClLog c @ [x]\<rparr>)"
| rollback: "cluster_step k c (c\<lparr>ClOpen := remove1 x (ClOpen c)\<rparr>)"
| connect: "pid_of s c = None \<Longrightarrow> pid \<notin> snd ` set (ClLive c) \<Longrightarrow> cluster_step k c (c\<lparr>ClLive := (s, pid) # ClLive c\<rparr>)"
| session_ends: "cluster_step k c (c\<lparr>ClLive := filter (\<lambda>x. fst x \<noteq> s) (ClLive c), ClLocks := filter (\<lambda>l. fst l \<noteq> s) (ClLocks c)\<rparr>)"
| other_lock: "k' \<noteq> k \<Longrightarrow> cluster_step k c (snd (pg_try_advisory_lock k' s c))"
| other_rows: "row_of TrKey k rows = term_row k c \<Longrightarrow> cluster_step k c (c\<lparr>ClRows := rows\<rparr>)"

text \<open>A database that no node has touched yet.\<close>

definition fresh_cluster :: "cluster \<Rightarrow> bool" where
  "fresh_cluster c \<longleftrightarrow> ClNodes c = (\<lambda>n. NewPgAdvisory) \<and> ClPending c = [] \<and> ClOpen c = [] \<and> ClLog c = [] \<and> ClTerms c = []"

inductive cluster_reachable :: "64 word \<Rightarrow> cluster \<Rightarrow> bool" for k where
  start: "fresh_cluster c \<Longrightarrow> cluster_reachable k c"
| move: "cluster_reachable k c \<Longrightarrow> cluster_step k c c' \<Longrightarrow> cluster_reachable k c'"

end
