(* ===== verification/LeaderCorrect.thy ===== *)
theory LeaderCorrect
  imports Leader
begin

text \<open>
  Why two leaders never decide at the same time.  The proof rests on the terms: each is drawn once,
  by one node, and none is drawn while a guarded transaction is open.
\<close>

section \<open>Invariant\<close>

definition knows :: "(int \<times> nat) list \<Rightarrow> nat \<Rightarrow> PgAdvisory \<Rightarrow> bool" where
  "knows ts n p \<longleftrightarrow> (PgLeader p \<longrightarrow> (PgEpoch p, n) \<in> set ts) \<and> (\<forall>s e pid. PgStage p = Termed s e pid \<longrightarrow> (e, n) \<in> set ts)"

definition row_epoch :: "64 word \<Rightarrow> TermRow list \<Rightarrow> int option" where
  "row_epoch k rows = map_option TrEpoch (row_of TrKey k rows)"

definition terms_ok :: "int option \<Rightarrow> (int \<times> nat) list \<Rightarrow> bool" where
  "terms_ok hi ts \<longleftrightarrow> distinct (map fst ts) \<and> (\<forall>x\<in>set ts. \<exists>m. hi = Some m \<and> fst x \<le> m)"

definition decisions_ok :: "int option \<Rightarrow> (int \<times> nat) list \<Rightarrow> (nat \<times> int) list \<Rightarrow> (nat \<times> int) list \<Rightarrow> bool" where
  "decisions_ok hi ts running done \<longleftrightarrow>
     (\<forall>x\<in>set running. hi = Some (snd x) \<and> (snd x, fst x) \<in> set ts) \<and>
     (\<forall>x\<in>set done. (snd x, fst x) \<in> set ts) \<and> sorted (map snd done)"

definition cluster_inv :: "64 word \<Rightarrow> cluster \<Rightarrow> bool" where
  "cluster_inv k c \<longleftrightarrow>
     terms_ok (row_epoch k (ClRows c)) (ClTerms c) \<and>
     decisions_ok (row_epoch k (ClRows c)) (ClTerms c) (ClOpen c) (ClLog c) \<and>
     (\<forall>n. knows (ClTerms c) n (ClNodes c n)) \<and> (\<forall>x\<in>set (ClPending c). knows (ClTerms c) (fst x) (snd x))"

lemma cluster_invI:
  "terms_ok (row_epoch k (ClRows c)) (ClTerms c) \<Longrightarrow> decisions_ok (row_epoch k (ClRows c)) (ClTerms c) (ClOpen c) (ClLog c) \<Longrightarrow>
     (\<And>n. knows (ClTerms c) n (ClNodes c n)) \<Longrightarrow> (\<And>x. x \<in> set (ClPending c) \<Longrightarrow> knows (ClTerms c) (fst x) (snd x)) \<Longrightarrow> cluster_inv k c"
  by (simp add: cluster_inv_def)

text \<open>A step that touches one node and neither terms nor transactions.\<close>

lemma cluster_inv_node:
  assumes "cluster_inv k c" "row_epoch k (ClRows c') = row_epoch k (ClRows c)" "ClTerms c' = ClTerms c" "ClOpen c' = ClOpen c"
    "ClLog c' = ClLog c" "ClPending c' = ClPending c" "\<And>m. m \<noteq> n \<Longrightarrow> ClNodes c' m = ClNodes c m"
    "knows (ClTerms c) n (ClNodes c n) \<Longrightarrow> knows (ClTerms c) n (ClNodes c' n)"
  shows "cluster_inv k c'"
proof (rule cluster_invI)
  fix m
  show "knows (ClTerms c') m (ClNodes c' m)"
    using assms by (cases "m = n") (auto simp: cluster_inv_def)
qed (use assms in \<open>auto simp: cluster_inv_def\<close>)

lemma set_node_sel [simp]:
  "ClNodes (set_node n f c) m = (if m = n then f (ClNodes c n) else ClNodes c m)" "ClRows (set_node n f c) = ClRows c"
  "ClLocks (set_node n f c) = ClLocks c" "ClLive (set_node n f c) = ClLive c" "ClPending (set_node n f c) = ClPending c"
  "ClOpen (set_node n f c) = ClOpen c" "ClLog (set_node n f c) = ClLog c" "ClTerms (set_node n f c) = ClTerms c"
  by (simp_all add: set_node_def)

lemma lock_sel [simp]:
  "ClNodes (snd (pg_try_advisory_lock k s c)) = ClNodes c" "ClRows (snd (pg_try_advisory_lock k s c)) = ClRows c"
  "ClPending (snd (pg_try_advisory_lock k s c)) = ClPending c" "ClOpen (snd (pg_try_advisory_lock k s c)) = ClOpen c"
  "ClLog (snd (pg_try_advisory_lock k s c)) = ClLog c" "ClTerms (snd (pg_try_advisory_lock k s c)) = ClTerms c"
  by (simp_all add: pg_try_advisory_lock_def)

lemma unlock_sel [simp]:
  "ClNodes (pg_advisory_unlock k s c) = ClNodes c" "ClRows (pg_advisory_unlock k s c) = ClRows c"
  "ClPending (pg_advisory_unlock k s c) = ClPending c" "ClOpen (pg_advisory_unlock k s c) = ClOpen c"
  "ClLog (pg_advisory_unlock k s c) = ClLog c" "ClTerms (pg_advisory_unlock k s c) = ClTerms c"
  by (simp_all add: pg_advisory_unlock_def)

lemma draw_inv:
  assumes inv: "cluster_inv k c" and o: "ClOpen c = []"
  shows "cluster_inv k (draw_term k n s ans c)"
proof -
  have idle: "cluster_inv k (set_node n (\<lambda>p. p\<lparr>PgStage := Idle\<rparr>) c)"
    by (rule cluster_inv_node [OF inv, of _ n]) (simp_all add: knows_def)
  show ?thesis
  proof (cases "term_row k c = None \<or> \<not> executes s ans c")
    case True
    then show ?thesis using idle by (auto simp: draw_term_def split: option.splits)
  next
    case False
    then obtain r where r: "row_of TrKey k (ClRows c) = Some r" "executes s ans c" by (auto simp: term_row_def)
    let ?e = "TrEpoch r + 1"
    let ?rows = "\<lambda>pid. update_where (\<lambda>r. TrKey r = k) (\<lambda>r. r\<lparr>TrEpoch := ?e, TrPid := pid\<rparr>) (ClRows c)"
    have hi: "row_epoch k (?rows pid) = Some ?e" for pid
      using r(1) row_of_SomeD [OF r(1)] by (simp add: row_epoch_def row_of_update_where)
    have old: "terms_ok (Some (TrEpoch r)) (ClTerms c)" "decisions_ok (Some (TrEpoch r)) (ClTerms c) [] (ClLog c)"
      using inv r(1) o by (simp_all add: cluster_inv_def row_epoch_def)
    have less: "fst x < ?e" if "x \<in> set (ClTerms c)" for x
      using old(1) that by (auto simp: terms_ok_def)
    have "terms_ok (Some ?e) ((?e, n) # ClTerms c)" using old(1) less by (fastforce simp: terms_ok_def)
    moreover have "decisions_ok (Some ?e) ((?e, n) # ClTerms c) [] (ClLog c)" using old(2) by (auto simp: decisions_ok_def)
    ultimately show ?thesis
      using r inv o by (intro cluster_invI) (auto simp: draw_term_def term_row_def Let_def hi cluster_inv_def knows_def)
  qed
qed

lemma tryAcquire_frame:
  "ClRows (tryAcquire k n ping conn ans c) = ClRows c \<and> ClTerms (tryAcquire k n ping conn ans c) = ClTerms c \<and>
   ClOpen (tryAcquire k n ping conn ans c) = ClOpen c \<and> ClLog (tryAcquire k n ping conn ans c) = ClLog c \<and>
   ClPending (tryAcquire k n ping conn ans c) = ClPending c \<and>
   (\<forall>m. m \<noteq> n \<longrightarrow> ClNodes (tryAcquire k n ping conn ans c) m = ClNodes c m) \<and>
   (knows ts n (ClNodes c n) \<longrightarrow> knows ts n (ClNodes (tryAcquire k n ping conn ans c) n))"
proof (cases conn)
  case None
  then show ?thesis by (simp add: tryAcquire_def Let_def knows_def)
next
  case (Some s)
  then show ?thesis by (simp add: tryAcquire_def Let_def knows_def case_prod_beta)
qed

lemma cluster_step_inv: "cluster_step k c c' \<Longrightarrow> cluster_inv k c \<Longrightarrow> cluster_inv k c'"
proof (induction rule: cluster_step.induct)
  case (acquire c n ping conn ans)
  show ?case by (rule cluster_inv_node [OF acquire.prems, of _ n]) (simp_all add: tryAcquire_frame)
next
  case (insert c n s ans)
  show ?case
  proof (cases "executes s ans c \<and> term_row k c = None")
    case True
    have none: "(\<And>a b. (a, b) \<notin> set xs) \<Longrightarrow> xs = []" for xs :: "('x \<times> 'y) list" by (cases xs) auto
    have e: "ClTerms c = []" "ClOpen c = []" "ClLog c = []"
      by (rule none, use insert.prems True in \<open>auto simp: cluster_inv_def terms_ok_def decisions_ok_def row_epoch_def term_row_def\<close>)+
    show ?thesis using insert.prems True e
      by (auto simp: cluster_inv_def insert_term_def Let_def terms_ok_def decisions_ok_def knows_def)
  next
    case False
    then show ?thesis
      by - (rule cluster_inv_node [OF insert.prems, of _ n]; auto simp: insert_term_def Let_def knows_def)
  qed
next
  case (draw c n s ans)
  then show ?case using draw_inv by blast
next
  case (publish c n s e pid)
  from publish.hyps show ?case by - (rule cluster_inv_node [OF publish.prems, of _ n]; auto simp: publish_term_def knows_def)
next
  case (release c n)
  from release.hyps show ?case by - (rule cluster_inv_node [OF release.prems, of _ n]; auto simp: release_node_def knows_def split: option.splits)
next
  case (unlock c n s ans)
  from unlock.hyps show ?case by - (rule cluster_inv_node [OF unlock.prems, of _ n]; auto simp: release_lock_def knows_def)
next
  case (close c n)
  show ?case by (rule cluster_inv_node [OF close.prems, of _ n]; auto simp: close_node_def knows_def)
next
  case (read c n)
  then show ?case by (auto simp: cluster_inv_def)
next
  case (guard n p c)
  then have "row_epoch k (ClRows c) = Some (PgEpoch p)" "(PgEpoch p, n) \<in> set (ClTerms c)"
    by (auto simp: guardLeadership_def Guard_def cluster_inv_def knows_def row_epoch_def term_row_def split: option.splits)
  then show ?case using guard.prems by (auto simp: cluster_inv_def decisions_ok_def)
next
  case (commit x c)
  have x: "row_epoch k (ClRows c) = Some (snd x)" "(snd x, fst x) \<in> set (ClTerms c)"
    using commit by (auto simp: cluster_inv_def decisions_ok_def)
  have "snd y \<le> snd x" if "y \<in> set (ClLog c)" for y
    using commit.prems that x(1) by (fastforce simp: cluster_inv_def decisions_ok_def terms_ok_def)
  then show ?case using commit.prems x by (auto simp: cluster_inv_def decisions_ok_def sorted_append dest: notin_set_remove1)
next
  case (rollback c x)
  then show ?case by (auto simp: cluster_inv_def decisions_ok_def dest: in_set_remove1 [THEN iffD1] set_remove1_subset [THEN subsetD])
next
  case (other_rows rows c)
  then show ?case by (simp add: cluster_inv_def row_epoch_def term_row_def)
qed (simp_all add: cluster_inv_def)

lemma cluster_reachable_inv: "cluster_reachable k c \<Longrightarrow> cluster_inv k c"
proof (induction rule: cluster_reachable.induct)
  case (start c)
  then show ?case
    by (auto simp: cluster_inv_def fresh_cluster_def terms_ok_def decisions_ok_def knows_def NewPgAdvisory_def)
next
  case (move c c')
  then show ?case by (blast intro: cluster_step_inv)
qed

lemma drawn_once: "terms_ok hi ts \<Longrightarrow> (e, n) \<in> set ts \<Longrightarrow> (e, m) \<in> set ts \<Longrightarrow> n = m"
  by (auto simp: terms_ok_def dest: eq_key_imp_eq_value)

text \<open>Different keys never name the same lock, so clusters that share a database do not disturb each other.\<close>

lemma key_halves_inject: "key_halves k = key_halves k' \<longleftrightarrow> k = k'"
proof
  assume h: "key_halves k = key_halves k'"
  then have "drop_bit 32 k = drop_bit 32 k'" "take_bit 32 k = take_bit 32 k'"
    by (simp_all only: key_halves_def prod.inject word_uint_eq_iff)
  then have "push_bit 32 (drop_bit 32 k) + take_bit 32 k = push_bit 32 (drop_bit 32 k') + take_bit 32 k'" by simp
  then show "k = k'" by (simp only: bits_ident)
qed simp

lemma other_lock_frame: "k' \<noteq> k \<Longrightarrow> Guard k p (snd (pg_try_advisory_lock k' s c)) = Guard k p c"
  by (simp add: Guard_def pg_try_advisory_lock_def term_row_def pid_of_def key_halves_inject split: option.splits)

section \<open>A run of two nodes\<close>

definition lead :: "nat \<Rightarrow> nat \<Rightarrow> int \<Rightarrow> int \<Rightarrow> cluster \<Rightarrow> cluster" where
  "lead n s e pid c =
     publish_term n s e pid (draw_term 5 n s Answered (insert_term 5 n s Answered (tryAcquire 5 n True (Some s) Answered c)))"

definition open_decision :: "nat \<Rightarrow> cluster \<Rightarrow> cluster" where
  "open_decision n c = c\<lparr>ClPending := (n, ClNodes c n) # ClPending c, ClOpen := (n, PgEpoch (ClNodes c n)) # ClOpen c\<rparr>"

lemma lead_reachable:
  assumes "cluster_reachable 5 c" "PgStage (ClNodes c n) = Idle"
    and "PgStage (ClNodes (tryAcquire 5 n True (Some s) Answered c) n) = Locked s"
    and "PgStage (ClNodes (insert_term 5 n s Answered (tryAcquire 5 n True (Some s) Answered c)) n) = Inserted s"
    and "PgStage (ClNodes (draw_term 5 n s Answered (insert_term 5 n s Answered (tryAcquire 5 n True (Some s) Answered c))) n) = Termed s e pid"
    and "ClOpen (insert_term 5 n s Answered (tryAcquire 5 n True (Some s) Answered c)) = []"
  shows "cluster_reachable 5 (lead n s e pid c)"
  unfolding lead_def using assms by (meson cluster_reachable.move cluster_step.intros(1-4))

lemma open_reachable:
  assumes "cluster_reachable 5 c" "Guard 5 (ClNodes c n) c"
  shows "cluster_reachable 5 (open_decision n c)"
proof -
  let ?c = "c\<lparr>ClPending := (n, ClNodes c n) # ClPending c\<rparr>"
  have "cluster_reachable 5 ?c" by (rule cluster_reachable.move [OF assms(1) cluster_step.read])
  moreover have "cluster_step 5 ?c (?c\<lparr>ClOpen := (n, PgEpoch (ClNodes c n)) # ClOpen ?c\<rparr>)"
    by (rule cluster_step.guard) (use assms(2) in \<open>simp_all add: guardLeadership_def Guard_def term_row_def pid_of_def split: option.splits\<close>)
  ultimately show ?thesis by (auto simp: open_decision_def dest: cluster_reachable.move)
qed

definition "two0 = \<lparr>ClNodes = (\<lambda>n. NewPgAdvisory), ClRows = [], ClLocks = [], ClLive = [(10, 100), (11, 101)], ClPending = [],
  ClOpen = [], ClLog = [], ClTerms = []\<rparr>"
definition "two1 = lead 0 10 1 100 two0"
definition "two2 = open_decision 0 two1"
definition "two3 = two2\<lparr>ClOpen := remove1 (0, 1) (ClOpen two2), ClLog := ClLog two2 @ [(0, 1)]\<rparr>"
definition "two4 = two3\<lparr>ClLive := filter (\<lambda>x. fst x \<noteq> 10) (ClLive two3), ClLocks := filter (\<lambda>l. fst l \<noteq> 10) (ClLocks two3)\<rparr>"
definition "two5 = lead 1 11 2 101 two4"
definition "two6 = open_decision 1 two5"

lemma two6_values: "ClOpen two6 = [(1, 2)] \<and> ClLog two6 = [(0, 1)] \<and> PgLeader (ClNodes two6 0)"
  by code_simp

lemma two6_reachable: "cluster_reachable 5 two6"
proof -
  have "cluster_reachable 5 two0" by (rule cluster_reachable.start) (simp add: fresh_cluster_def two0_def)
  then have "cluster_reachable 5 two1" unfolding two1_def by (rule lead_reachable) code_simp+
  then have "cluster_reachable 5 two2" unfolding two2_def by (rule open_reachable) code_simp
  then have "cluster_reachable 5 two3" unfolding two3_def
    by (rule cluster_reachable.move) (rule cluster_step.commit, code_simp)
  then have "cluster_reachable 5 two4" unfolding two4_def by (rule cluster_reachable.move [OF _ cluster_step.session_ends])
  then have "cluster_reachable 5 two5" unfolding two5_def by (rule lead_reachable) code_simp+
  then show ?thesis unfolding two6_def by (rule open_reachable) code_simp
qed

section \<open>Properties\<close>

text \<open>C24. Two leaders never decide at the same time.  However the nodes interleave, sessions end, answers are
  lost and backend pids are used again, all transactions whose guard has passed and that are still
  open belong to one node and to the term that the database holds, although several nodes may still
  believe that they lead.\<close>

theorem leader_decisions_never_overlap:
  assumes "cluster_reachable k c" "x \<in> set (ClOpen c)" "y \<in> set (ClOpen c)"
  shows "x = y \<and> (\<exists>r. term_row k c = Some r \<and> TrEpoch r = snd x)"
proof -
  have inv: "terms_ok (row_epoch k (ClRows c)) (ClTerms c)" "decisions_ok (row_epoch k (ClRows c)) (ClTerms c) (ClOpen c) (ClLog c)"
    using cluster_reachable_inv [OF assms(1)] by (simp_all add: cluster_inv_def)
  have x: "row_epoch k (ClRows c) = Some (snd x)" "(snd x, fst x) \<in> set (ClTerms c)"
    and y: "row_epoch k (ClRows c) = Some (snd y)" "(snd y, fst y) \<in> set (ClTerms c)"
    using inv(2) assms unfolding decisions_ok_def by blast+
  have "snd x = snd y" using x(1) y(1) by simp
  moreover have "fst x = fst y" using drawn_once [OF inv(1) x(2)] y(2) calculation by simp
  ultimately show ?thesis using x(1) by (auto simp: prod_eq_iff row_epoch_def term_row_def)
qed

theorem leader_decisions_never_overlap_witness:
  "(\<exists>r. term_row 5 two6 = Some r \<and> TrEpoch r = 2) \<and> PgLeader (ClNodes two6 0) \<and> PgLeader (ClNodes two6 1)"
proof -
  have "(1, 2) \<in> set (ClOpen two6)" using two6_values by simp
  moreover have "PgLeader (ClNodes two6 1)" by code_simp
  ultimately show ?thesis using leader_decisions_never_overlap [OF two6_reachable, of "(1, 2)" "(1, 2)"] two6_values by simp
qed

text \<open>Decisions follow the order of the terms.  In the order in which guarded transactions commit, their
  terms never go down, the open ones included, and all decisions of one term are of one node: once a
  decision of a later term is made, none of an earlier leader can follow.\<close>

theorem decision_terms_ascend:
  assumes "cluster_reachable k c" "ds = ClLog c @ ClOpen c"
  shows "sorted (map snd ds) \<and> (\<forall>i < length ds. \<forall>j < length ds. snd (ds ! i) = snd (ds ! j) \<longrightarrow> fst (ds ! i) = fst (ds ! j))"
proof -
  have inv: "terms_ok (row_epoch k (ClRows c)) (ClTerms c)" "decisions_ok (row_epoch k (ClRows c)) (ClTerms c) (ClOpen c) (ClLog c)"
    using cluster_reachable_inv [OF assms(1)] by (simp_all add: cluster_inv_def)
  have ts: "(snd x, fst x) \<in> set (ClTerms c)" if "x \<in> set ds" for x using inv(2) that assms(2) by (auto simp: decisions_ok_def)
  have le: "snd x \<le> snd y" if x: "x \<in> set ds" and y: "y \<in> set (ClOpen c)" for x y
  proof -
    have "row_epoch k (ClRows c) = Some (snd y)" using inv(2) y unfolding decisions_ok_def by blast
    then show ?thesis using inv(1) ts [OF x] by (fastforce simp: terms_ok_def)
  qed
  have "sorted (map snd (ClOpen c))" using le assms(2) by (simp add: sorted_wrt_map sorted_wrt_iff_nth_less)
  then have "sorted (map snd ds)" using inv(2) le by (auto simp: assms(2) decisions_ok_def sorted_append)
  moreover have "fst (ds ! i) = fst (ds ! j)" if "i < length ds" "j < length ds" "snd (ds ! i) = snd (ds ! j)" for i j
    using drawn_once [OF inv(1) ts] ts that by (metis nth_mem)
  ultimately show ?thesis by blast
qed

theorem decision_terms_ascend_witness: "sorted (map snd (ClLog two6 @ ClOpen two6)) \<and> map snd (ClLog two6 @ ClOpen two6) = [1, 2]"
  using decision_terms_ascend [OF two6_reachable refl] two6_values by simp

end
