(* ===== verification/Variables.thy ===== *)
theory Variables
  imports Calendars
begin

text \<open>
  Substitution of variables in the parameters of a job, \<open>scheduler/variables.go\<close>, and the directives by
  which the output of a job assigns variables (\<open>scheduler.go\<close>).  The regular expressions are written
  out as matchers at a position: they return what the groups capture and how much text they take, with
  the choices in the order in which Go tries them.
\<close>

section \<open>Contexts\<close>

record VarContext =
  VcRuntime :: "string \<Rightarrow> string option"
  VcLocal :: "string \<Rightarrow> string option"
  VcDefinition :: "string \<Rightarrow> string option"
  VcGlobal :: "string \<Rightarrow> string option"
  VcBusinessDay :: "(date \<Rightarrow> bool) option"

definition lookup_var :: "VarContext \<Rightarrow> string \<Rightarrow> string option" where
  "lookup_var ctx name =
     (case VcRuntime ctx name of Some v \<Rightarrow> Some v | None \<Rightarrow>
      (case VcLocal ctx name of Some v \<Rightarrow> Some v | None \<Rightarrow>
       (case VcDefinition ctx name of Some v \<Rightarrow> Some v | None \<Rightarrow> VcGlobal ctx name)))"

definition businessFn :: "VarContext \<Rightarrow> date \<Rightarrow> bool" where
  "businessFn ctx = (case VcBusinessDay ctx of Some f \<Rightarrow> f | None \<Rightarrow> (\<lambda>d. \<not> weekend d))"

section \<open>Date values\<close>

text \<open>The layouts \<open>20060102\<close> and \<open>2006-01-02\<close>.\<close>

definition FormatCompact :: "date \<Rightarrow> string" where
  "FormatCompact d = pad_int 4 (dyear d) @ pad_int 2 (dmonth d) @ pad_int 2 (dday d)"

definition ParseCompact :: "string \<Rightarrow> date option" where
  "ParseCompact s =
     (let d = \<lparr>dyear = digits_val 0 (take 4 s), dmonth = digits_val 0 (take 2 (drop 4 s)), dday = digits_val 0 (drop 6 s)\<rparr>
      in if length s = 8 \<and> list_all is_digit s \<and> valid_date d then Some d else None)"

definition calc_bases :: "string list" where
  "calc_bases = [''ODATE'', ''ORDERDATE'', ''RUNDATE'', ''EOM'', ''BOM'', ''EOY'', ''BOY'', ''NEXTBD'', ''PREVBD'', ''FIRSTBD'', ''LASTBD'']"

text \<open>\<open>calcLayouts\<close>: only \<open>ORDERDATE\<close> has dashes.\<close>

definition format_base :: "string \<Rightarrow> date \<Rightarrow> string" where
  "format_base base = (if base = ''ORDERDATE'' then FormatDate else FormatCompact)"

definition parse_base :: "string \<Rightarrow> string \<Rightarrow> date option" where
  "parse_base base = (if base = ''ORDERDATE'' then ParseDate else ParseCompact)"

fun step_business :: "nat \<Rightarrow> (date \<Rightarrow> bool) \<Rightarrow> int \<Rightarrow> date \<Rightarrow> date option" where
  "step_business 0 biz dir d = None"
| "step_business (Suc k) biz dir d = (if biz d then Some d else step_business k biz dir (AddDate dir d))"

definition native_names :: "string list" where
  "native_names = [''EOM'', ''BOM'', ''EOY'', ''BOY'', ''NEXTBD'', ''PREVBD'', ''FIRSTBD'', ''LASTBD'']"

definition native_date :: "(date \<Rightarrow> bool) \<Rightarrow> string \<Rightarrow> date \<Rightarrow> date option" where
  "native_date biz name t =
     (if name = ''EOM'' then Some (t\<lparr>dday := lastDayOfMonth t\<rparr>)
      else if name = ''BOM'' then Some (t\<lparr>dday := 1\<rparr>)
      else if name = ''EOY'' then Some (t\<lparr>dmonth := 12, dday := 31\<rparr>)
      else if name = ''BOY'' then Some (t\<lparr>dmonth := 1, dday := 1\<rparr>)
      else if name = ''NEXTBD'' then step_business 1000 biz 1 (AddDate 1 t)
      else if name = ''PREVBD'' then step_business 1000 biz (- 1) (AddDate (- 1) t)
      else if name = ''FIRSTBD'' then step_business 1000 biz 1 (t\<lparr>dday := 1\<rparr>)
      else step_business 1000 biz (- 1) (t\<lparr>dday := lastDayOfMonth t\<rparr>))"

definition resolveNativeDate :: "VarContext \<Rightarrow> string \<Rightarrow> string option" where
  "resolveNativeDate ctx name =
     (if name \<notin> set native_names then None
      else case lookup_var ctx ''ODATE'' of
        None \<Rightarrow> None
      | Some raw \<Rightarrow>
          (case ParseCompact raw of
             None \<Rightarrow> None
           | Some t \<Rightarrow> map_option FormatCompact (native_date (businessFn ctx) name t)))"

text \<open>The days left to count and the date, after at most the given number of steps.\<close>

fun walk_business :: "nat \<Rightarrow> (date \<Rightarrow> bool) \<Rightarrow> int \<Rightarrow> int \<Rightarrow> date \<Rightarrow> int \<times> date" where
  "walk_business 0 biz dir n t = (n, t)"
| "walk_business (Suc k) biz dir n t =
     (if n \<le> 0 then (n, t)
      else let t' = AddDate dir t in walk_business k biz dir (if biz t' then n - 1 else n) t')"

definition add_business :: "(date \<Rightarrow> bool) \<Rightarrow> int \<Rightarrow> date \<Rightarrow> date option" where
  "add_business biz n t =
     (let (left, t') = walk_business 1000 biz (if n < 0 then - 1 else 1) \<bar>n\<bar> t in if left > 0 then None else Some t')"

definition resolveDateCalc :: "VarContext \<Rightarrow> string \<Rightarrow> string \<Rightarrow> bool \<Rightarrow> string option" where
  "resolveDateCalc ctx base offset business =
     (if base \<notin> set calc_bases then None
      else case (case lookup_var ctx base of Some raw \<Rightarrow> Some raw | None \<Rightarrow> resolveNativeDate ctx base) of
        None \<Rightarrow> None
      | Some raw \<Rightarrow>
          (case (parse_base base raw, Atoi offset) of
             (Some t, Some n) \<Rightarrow>
               if \<not> business then Some (format_base base (AddDate n t))
               else map_option (format_base base) (add_business (businessFn ctx) n t)
           | _ \<Rightarrow> None))"

section \<open>Regular expressions\<close>

text \<open>\<open>ReplaceAllStringFunc\<close>: leftmost matches that do not overlap; no pattern here matches the empty text.\<close>

function replace_all :: "(string \<Rightarrow> ('m \<times> nat) option) \<Rightarrow> ('m \<Rightarrow> string option) \<Rightarrow> string \<Rightarrow> string" where
  "replace_all m r s =
     (if s = [] then []
      else case m s of
        None \<Rightarrow> hd s # replace_all m r (tl s)
      | Some (x, n) \<Rightarrow> (case r x of Some v \<Rightarrow> v | None \<Rightarrow> take (max 1 n) s) @ replace_all m r (drop (max 1 n) s))"
  by pat_completeness auto
termination
  by (relation "measure (\<lambda>(m, r, s). length s)") auto

declare replace_all.simps [simp del]

definition is_letter :: "char \<Rightarrow> bool" where
  "is_letter c \<longleftrightarrow> (let n = (of_char c :: nat) in 65 \<le> n \<and> n \<le> 90 \<or> 97 \<le> n \<and> n \<le> 122)"

definition word_char :: "char \<Rightarrow> bool" where
  "word_char c \<longleftrightarrow> is_letter c \<or> is_digit c \<or> c = CHR ''_''"

definition name_char :: "char \<Rightarrow> bool" where
  "name_char c \<longleftrightarrow> word_char c \<or> c = CHR ''.'' \<or> c = CHR ''-''"

text \<open>An alternation of words, followed by \<open>k\<close>; the next word is tried when what follows does not match.\<close>

fun first_alt :: "(string \<Rightarrow> 'a option) \<Rightarrow> string list \<Rightarrow> string \<Rightarrow> (string \<times> 'a) option" where
  "first_alt k [] s = None"
| "first_alt k (b # bs) s =
     (case cut_prefix b s of
        None \<Rightarrow> first_alt k bs s
      | Some r \<Rightarrow> (case k r of Some x \<Rightarrow> Some (b, x) | None \<Rightarrow> first_alt k bs s))"

text \<open>\<open>([+-]\<close>\<open>\d{1,3})(B?)\<close>: the offset, whether business days are meant, and the rest.\<close>

fun calc_tail :: "string \<Rightarrow> (string \<times> bool \<times> string) option" where
  "calc_tail [] = None"
| "calc_tail (c # cs) =
     (let ds = take 3 (takeWhile is_digit cs); r = drop (length ds) cs in
      if c \<noteq> CHR ''+'' \<and> c \<noteq> CHR ''-'' \<or> ds = [] then None
      else case r of
        x # r' \<Rightarrow> if x = CHR ''B'' then Some (c # ds, True, r') else Some (c # ds, False, r)
      | [] \<Rightarrow> Some (c # ds, False, []))"

fun closing_brace :: "string \<times> bool \<times> string \<Rightarrow> (string \<times> bool \<times> string) option" where
  "closing_brace (off, b, []) = None"
| "closing_brace (off, b, c # r) = (if c = CHR ''}'' then Some (off, b, r) else None)"

definition var_open :: string where "var_open = ''${var.''"

definition varCalcToken :: "string \<Rightarrow> ((string \<times> string \<times> bool) \<times> nat) option" where
  "varCalcToken s =
     (case cut_prefix var_open s of
        None \<Rightarrow> None
      | Some r \<Rightarrow>
          map_option (\<lambda>(base, off, b, rest). ((base, off, b), length s - length rest))
            (first_alt (\<lambda>r. Option.bind (calc_tail r) closing_brace) calc_bases r))"

definition ctmCalcToken :: "string \<Rightarrow> ((string \<times> string \<times> bool) \<times> nat) option" where
  "ctmCalcToken s =
     (case cut_prefix ''%%'' s of
        None \<Rightarrow> None
      | Some r \<Rightarrow>
          map_option (\<lambda>(base, off, b, rest). ((base, off, b), length s - length rest)) (first_alt calc_tail calc_bases r))"

definition varToken :: "string \<Rightarrow> (string \<times> nat) option" where
  "varToken s =
     (case cut_prefix var_open s of
        None \<Rightarrow> None
      | Some r \<Rightarrow>
          let name = takeWhile name_char r; rest = dropWhile name_char r in
          if name \<noteq> [] \<and> rest \<noteq> [] \<and> hd rest = CHR ''}'' then Some (name, length var_open + length name + 1) else None)"

definition ctmToken :: "string \<Rightarrow> (string \<times> nat) option" where
  "ctmToken s =
     (case cut_prefix ''%%'' s of
        None \<Rightarrow> None
      | Some r \<Rightarrow>
          let name = takeWhile word_char r in
          if name \<noteq> [] \<and> is_letter (hd name) then Some (name, 2 + length name) else None)"

section \<open>Interpolation\<close>

definition resolve_calc :: "VarContext \<Rightarrow> string \<times> string \<times> bool \<Rightarrow> string option" where
  "resolve_calc ctx = (\<lambda>(base, off, b). resolveDateCalc ctx base off b)"

definition resolve_name :: "VarContext \<Rightarrow> string \<Rightarrow> string option" where
  "resolve_name ctx name = (case lookup_var ctx name of Some v \<Rightarrow> Some v | None \<Rightarrow> resolveNativeDate ctx name)"

definition InterpolateString :: "string \<Rightarrow> VarContext \<Rightarrow> string" where
  "InterpolateString s ctx =
     replace_all ctmToken (resolve_name ctx)
       (replace_all varToken (resolve_name ctx)
         (replace_all ctmCalcToken (resolve_calc ctx)
           (replace_all varCalcToken (resolve_calc ctx) s)))"

fun InterpolateValue :: "goval \<Rightarrow> VarContext \<Rightarrow> goval" where
  "InterpolateValue (GoString s) ctx = GoString (InterpolateString s ctx)"
| "InterpolateValue (GoMap kvs) ctx = GoMap (map (\<lambda>(k, x). (k, InterpolateValue x ctx)) kvs)"
| "InterpolateValue (GoArray xs) ctx = GoArray (map (\<lambda>x. InterpolateValue x ctx) xs)"
| "InterpolateValue v ctx = v"

definition InterpolateParams :: "(string \<times> goval) list option \<Rightarrow> VarContext \<Rightarrow> (string \<times> goval) list option" where
  "InterpolateParams params ctx = map_option (map (\<lambda>(k, v). (k, InterpolateValue v ctx))) params"

section \<open>The context of a dispatch\<close>

text \<open>\<open>now\<close> is the business time: date, hour, minute, second.\<close>

definition BuildContextAt ::
  "JobDefinition \<Rightarrow> string \<Rightarrow> string \<Rightarrow> int option \<Rightarrow> string \<Rightarrow> date \<times> int \<times> int \<times> int \<Rightarrow> VarContext" where
  "BuildContextAt def iid orderDate exit_code out now =
     (let (day, h, m, s) = now;
          rt = [''order_date'' \<mapsto> orderDate, ''instance_id'' \<mapsto> iid, ''def_id'' \<mapsto> ID def, ''def_label'' \<mapsto> Label def,
            ''def_team'' \<mapsto> Team def, ''ODATE'' \<mapsto> filter (\<lambda>c. c \<noteq> CHR ''-'') orderDate, ''ORDERDATE'' \<mapsto> orderDate,
            ''RUNDATE'' \<mapsto> FormatCompact day, ''TIME'' \<mapsto> pad_int 2 h @ pad_int 2 m @ pad_int 2 s, ''JOBNAME'' \<mapsto> ID def,
            ''JOBLABEL'' \<mapsto> Label def, ''FOLDER'' \<mapsto> Team def, ''INSTANCEID'' \<mapsto> iid];
          rt1 = (case exit_code of None \<Rightarrow> rt | Some c \<Rightarrow> rt(''parent.exit_code'' \<mapsto> pad_int 1 c));
          rt2 = (if out \<noteq> [] then rt1(''parent.output'' \<mapsto> out) else rt1)
      in \<lparr>VcRuntime = rt2, VcLocal = Map.empty, VcDefinition = map_of (Variables def), VcGlobal = Map.empty,
          VcBusinessDay = None\<rparr>)"

text \<open>
  The row of the instance gives its date and its local variables (decoded), the stores the global
  variables and the calendars.
\<close>

definition buildVarContext ::
  "string \<Rightarrow> date \<times> int \<times> int \<times> int \<Rightarrow> (string \<times> (string \<Rightarrow> string option)) option \<Rightarrow> (string \<Rightarrow> string option) option \<Rightarrow>
   calLookup option \<Rightarrow> JobDefinition \<Rightarrow> string \<Rightarrow> VarContext" where
  "buildVarContext today now row globals cals def iid =
     (let orderDate = (case row of Some (od, _) \<Rightarrow> if od \<noteq> [] then od else today | None \<Rightarrow> today);
          ctx = BuildContextAt def iid orderDate None [] now
      in ctx\<lparr>VcLocal := (case row of Some (_, local) \<Rightarrow> local | None \<Rightarrow> Map.empty),
             VcGlobal := (case globals of Some g \<Rightarrow> g | None \<Rightarrow> Map.empty),
             VcBusinessDay := map_option (\<lambda>store d. isBusinessDay d (businessCalendar def store)) cals\<rparr>)"

section \<open>Directives in the output\<close>

definition re_space :: "char \<Rightarrow> bool" where
  "re_space c \<longleftrightarrow> c \<in> {CHR '' '', CHR 0x09, CHR 0x0A, CHR 0x0C, CHR 0x0D}"

definition newline :: char where "newline = CHR 0x0A"

definition strip_right :: "string \<Rightarrow> string" where
  "strip_right s = rev (dropWhile re_space (rev s))"

text \<open>
  At the start of a line: blanks (which may span lines), the keyword, at least one blank, a name, blanks,
  \<open>=\<close>, blanks, and then the rest of that line without its blanks at the end.  The number is what the
  match takes: up to the last line end after the value, or to the end of the text.
\<close>

definition after_value :: "string \<Rightarrow> string" where
  "after_value t =
     (let w = takeWhile re_space t in
      if w = t then [] else drop (length w - Suc (length (takeWhile (\<lambda>c. c \<noteq> newline) (rev w)))) t)"

definition match_set :: "string \<Rightarrow> string \<Rightarrow> ((string \<times> string) \<times> nat) option" where
  "match_set keyword s =
     (case cut_prefix keyword (dropWhile re_space s) of
        None \<Rightarrow> None
      | Some r1 \<Rightarrow>
          let r2 = dropWhile re_space r1; name = takeWhile name_char r2; r3 = dropWhile re_space (drop (length name) r2) in
          if r1 = r2 \<or> name = [] \<or> \<not> is_letter (hd name) \<or> r3 = [] \<or> hd r3 \<noteq> CHR ''='' then None
          else let r4 = dropWhile re_space (tl r3); v = strip_right (takeWhile (\<lambda>c. c \<noteq> newline) r4)
            in Some ((name, v), length s - length (after_value (drop (length v) r4))))"

text \<open>\<open>FindAllStringSubmatch\<close>; the first argument tells whether the position starts a line.\<close>

function find_sets :: "string \<Rightarrow> bool \<Rightarrow> string \<Rightarrow> (string \<times> string) list" where
  "find_sets keyword bol s =
     (if s = [] then []
      else case (if bol then match_set keyword s else None) of
        None \<Rightarrow> find_sets keyword (hd s = newline) (tl s)
      | Some (x, n) \<Rightarrow> x # find_sets keyword (last (take (max 1 n) s) = newline) (drop (max 1 n) s))"
  by pat_completeness auto
termination
  by (relation "measure (\<lambda>(k, b, s). length s)") auto

declare find_sets.simps [simp del]

definition maxSetVarsPerJob :: nat where "maxSetVarsPerJob = 20"

definition set_directives :: "string \<Rightarrow> (string \<times> string) list" where
  "set_directives out = take maxSetVarsPerJob (find_sets ''%%SET'' True out)"

definition local_directives :: "string \<Rightarrow> (string \<times> string) list" where
  "local_directives out = take maxSetVarsPerJob (find_sets ''%%SETLOCAL'' True out)"

text \<open>The store of global variables; \<open>ok\<close> tells for which names the write succeeds.\<close>

definition applySetVarDirectives :: "(string \<Rightarrow> bool) \<Rightarrow> string \<Rightarrow> (string \<Rightarrow> string option) \<Rightarrow> string \<Rightarrow> string option" where
  "applySetVarDirectives ok out store =
     foldl (\<lambda>st (name, v). if ok name then st(name \<mapsto> v) else st) store (set_directives out)"

definition applyLocalSetVarDirectives :: "string \<Rightarrow> (string \<Rightarrow> string option) \<Rightarrow> string \<Rightarrow> string option" where
  "applyLocalSetVarDirectives out local = foldl (\<lambda>st (name, v). st(name \<mapsto> v)) local (local_directives out)"

end
