(* ===== verification/VariablesCorrect.thy ===== *)
theory VariablesCorrect
  imports Variables
begin

text \<open>Properties of the substitution of variables and of the directives that assign them.\<close>

section \<open>Scanning\<close>

lemma replace_all_None: "(\<And>x. r x = None) \<Longrightarrow> replace_all m r s = s"
proof (induction s rule: length_induct)
  case (1 s)
  have ih: "length t < length s \<Longrightarrow> replace_all m r t = t" for t using 1 by blast
  show ?case
  proof (cases "s = []")
    case True
    then show ?thesis by (simp add: replace_all.simps)
  next
    case False
    have "replace_all m r (tl s) = tl s" "replace_all m r (drop (max 1 n) s) = drop (max 1 n) s" for n
      by (rule ih; use False in auto)+
    then show ?thesis using False 1(2) by (subst replace_all.simps) (auto split: option.splits)
  qed
qed

lemma replace_all_skip: "(\<And>a b. s = a @ b \<Longrightarrow> b \<noteq> [] \<Longrightarrow> m b = None) \<Longrightarrow> replace_all m r s = s"
proof (induction s)
  case Nil
  then show ?case by (simp add: replace_all.simps)
next
  case (Cons c s)
  have "replace_all m r s = s" by (rule Cons.IH) (use Cons.prems [of "c # _"] in simp)
  then show ?case using Cons.prems [of "[]" "c # s"] by (subst replace_all.simps) simp
qed

lemma replace_all_whole: "s \<noteq> [] \<Longrightarrow> m s = Some (x, length s) \<Longrightarrow> r x = Some v \<Longrightarrow> replace_all m r s = v"
  by (subst replace_all.simps) (cases s, simp_all add: replace_all.simps [of m r "[]"])

lemma cut_prefix_append [simp]: "cut_prefix p (p @ s) = Some s"
  by (induction p) auto

lemma cut_prefix_Some: "cut_prefix p s = Some r \<longleftrightarrow> s = p @ r"
  by (induction p s rule: cut_prefix.induct) auto

lemma var_match_hd: "varCalcToken b \<noteq> None \<or> varToken b \<noteq> None \<Longrightarrow> CHR ''$'' \<in> set b"
  by (auto simp: varCalcToken_def varToken_def var_open_def cut_prefix_Some split: option.splits)

lemma ctm_match_hd: "ctmCalcToken b \<noteq> None \<or> ctmToken b \<noteq> None \<Longrightarrow> \<exists>r. b = ''%%'' @ r"
  by (auto simp: ctmCalcToken_def ctmToken_def cut_prefix_Some split: option.splits)

lemma first_alt_None: "(\<And>b r. b \<in> set bs \<Longrightarrow> s = b @ r \<Longrightarrow> k r = None) \<Longrightarrow> first_alt k bs s = None"
proof (induction bs)
  case (Cons b bs)
  have "first_alt k bs s = None" by (rule Cons.IH) (use Cons.prems in auto)
  moreover have "cut_prefix b s = Some r \<Longrightarrow> k r = None" for r using Cons.prems [of b r] by (simp add: cut_prefix_Some)
  ultimately show ?case by (auto split: option.splits)
qed simp

text \<open>A name of the syntax \<open>%%NAME\<close>.\<close>

definition ctm_name :: "string \<Rightarrow> bool" where
  "ctm_name s \<longleftrightarrow> s \<noteq> [] \<and> is_letter (hd s) \<and> list_all word_char s"

lemma word_char_not: "word_char c \<Longrightarrow> c \<noteq> CHR ''$'' \<and> c \<noteq> CHR ''%'' \<and> c \<noteq> CHR ''+'' \<and> c \<noteq> CHR ''-'' \<and> c \<noteq> CHR ''}''"
  by (auto simp: word_char_def is_letter_def is_digit_def)

lemma calc_tail_None: "(\<And>c. r = c # r' \<Longrightarrow> c \<noteq> CHR ''+'' \<and> c \<noteq> CHR ''-'') \<Longrightarrow> r = [] \<or> r = hd r # r' \<Longrightarrow> calc_tail r = None"
  by (cases r) auto

lemma no_calc_in_name:
  assumes "list_all word_char name" "e = [] \<or> e = ''}''"
  shows "first_alt calc_tail bs (name @ e) = None" "first_alt (\<lambda>r. Option.bind (calc_tail r) closing_brace) bs (name @ e) = None"
proof -
  have k: "calc_tail r = None" if "name @ e = b @ r" for b r
  proof (cases r)
    case (Cons c cs)
    then have "c \<in> set (name @ e)" using that by simp
    then have "word_char c \<or> c = CHR ''}''" using assms by (auto simp: list_all_iff)
    then have "c \<noteq> CHR ''+'' \<and> c \<noteq> CHR ''-''" using word_char_not by auto
    then show ?thesis using Cons by simp
  qed simp
  show "first_alt calc_tail bs (name @ e) = None" "first_alt (\<lambda>r. Option.bind (calc_tail r) closing_brace) bs (name @ e) = None"
    by (rule first_alt_None; use k in simp)+
qed

lemma takeWhile_all: "list_all p xs \<Longrightarrow> takeWhile p xs = xs"
  by (induction xs) auto

lemma percent_name:
  assumes "ctm_name name"
  shows "replace_all varCalcToken r (''%%'' @ name) = ''%%'' @ name" "replace_all varToken r' (''%%'' @ name) = ''%%'' @ name"
    "replace_all ctmCalcToken r'' (''%%'' @ name) = ''%%'' @ name" "ctmToken (''%%'' @ name) = Some (name, length (''%%'' @ name))"
proof -
  have w: "c \<in> set name \<Longrightarrow> word_char c" for c using assms by (auto simp: ctm_name_def list_all_iff)
  have d: "CHR ''$'' \<notin> set (''%%'' @ name)" "CHR ''%'' \<notin> set name" using w word_char_not by auto
  show "replace_all varCalcToken r (''%%'' @ name) = ''%%'' @ name" "replace_all varToken r' (''%%'' @ name) = ''%%'' @ name"
    by (rule replace_all_skip; use var_match_hd d(1) in fastforce)+
  show "replace_all ctmCalcToken r'' (''%%'' @ name) = ''%%'' @ name"
  proof (rule replace_all_skip)
    fix a b assume s: "''%%'' @ name = a @ b" "b \<noteq> []"
    show "ctmCalcToken b = None"
    proof (rule ccontr)
      assume m: "ctmCalcToken b \<noteq> None"
      then obtain t where t: "b = ''%%'' @ t" using ctm_match_hd by blast
      have "a = []"
      proof (cases a)
        case (Cons x xs)
        then have "CHR ''%'' # name = xs @ CHR ''%'' # CHR ''%'' # t" using s(1) unfolding t by auto
        then have "CHR ''%'' \<in> set name" by (cases xs) auto
        then show ?thesis using d(2) by simp
      qed
      then have "t = name" using s t by simp
      then show False using m t no_calc_in_name(1) [of name "[]" calc_bases] assms by (simp add: ctmCalcToken_def ctm_name_def)
    qed
  qed
  show "ctmToken (''%%'' @ name) = Some (name, length (''%%'' @ name))"
    using assms by (simp add: ctmToken_def ctm_name_def takeWhile_all)
qed

lemma brace_name:
  assumes "ctm_name name"
  shows "replace_all varCalcToken r (var_open @ name @ ''}'') = var_open @ name @ ''}''"
    "replace_all ctmCalcToken r' (var_open @ name @ ''}'') = var_open @ name @ ''}''"
    "varToken (var_open @ name @ ''}'') = Some (name, length (var_open @ name @ ''}''))"
proof -
  have w: "c \<in> set name \<Longrightarrow> word_char c" for c using assms by (auto simp: ctm_name_def list_all_iff)
  have p: "CHR ''%'' \<notin> set (var_open @ name @ ''}'')" "CHR ''$'' \<notin> set (''{var.'' @ name @ ''}'')"
    using w word_char_not by (auto simp: var_open_def)
  show "replace_all ctmCalcToken r' (var_open @ name @ ''}'') = var_open @ name @ ''}''"
    by (rule replace_all_skip) (use ctm_match_hd p(1) in fastforce)
  show "replace_all varCalcToken r (var_open @ name @ ''}'') = var_open @ name @ ''}''"
  proof (rule replace_all_skip)
    fix a b assume s: "var_open @ name @ ''}'' = a @ b" "b \<noteq> []"
    show "varCalcToken b = None"
    proof (cases a)
      case Nil
      then have "b = var_open @ name @ ''}''" using s by simp
      then show ?thesis
        using no_calc_in_name(2) [of name "''}''" calc_bases] assms by (simp add: varCalcToken_def ctm_name_def)
    next
      case (Cons x xs)
      then have "''{var.'' @ name @ ''}'' = xs @ b" using s by (simp add: var_open_def)
      then have "CHR ''$'' \<notin> set b" using p(2) by auto
      then show ?thesis using var_match_hd by blast
    qed
  qed
  have "list_all name_char name" using assms by (auto simp: ctm_name_def list_all_iff name_char_def)
  moreover have "\<not> name_char (CHR ''}'')" by (simp add: name_char_def word_char_def is_letter_def is_digit_def)
  ultimately have "takeWhile name_char (name @ ''}'') = name" "dropWhile name_char (name @ ''}'') = ''}''"
    by (auto simp: list_all_iff takeWhile_append dropWhile_append)
  then show "varToken (var_open @ name @ ''}'') = Some (name, length (var_open @ name @ ''}''))"
    using assms by (simp add: varToken_def ctm_name_def)
qed

section \<open>Business days\<close>

lemma AddDate_step: "valid_date d \<Longrightarrow> dir = 1 \<or> dir = - 1 \<Longrightarrow> AddDate k (AddDate dir d) = AddDate (k + dir) d"
  using AddDate_next [of d k] AddDate_prev [of d k] next_day_AddDate [of d] prev_day_AddDate [of d] by auto

lemma step_business_spec:
  assumes "valid_date d" "dir = 1 \<or> dir = - 1"
  shows "step_business n biz dir d =
    (if \<exists>k<n. biz (AddDate (dir * int k) d) then Some (AddDate (dir * int (LEAST k. biz (AddDate (dir * int k) d))) d) else None)"
  using assms(1)
proof (induction n arbitrary: d)
  case 0
  then show ?case by simp
next
  case (Suc n)
  let ?p = "\<lambda>k. biz (AddDate (dir * int k) d)"
  have sh: "biz (AddDate (dir * int k) (AddDate dir d)) = ?p (Suc k)" for k
    using AddDate_step [OF Suc.prems assms(2), of "dir * int k"] by (simp add: algebra_simps)
  show ?case
  proof (cases "biz d")
    case True
    then have "(LEAST k. ?p k) = 0" by (intro Least_equality) auto
    then show ?thesis using True by auto
  next
    case False
    then have z: "\<not> ?p 0" by simp
    have ex: "(\<exists>k<Suc n. ?p k) = (\<exists>k<n. ?p (Suc k))" using z by (metis Suc_less_eq not0_implies_Suc)
    have l: "(LEAST k. ?p k) = Suc (LEAST k. ?p (Suc k))" if "\<exists>k. ?p (Suc k)"
      using that z Least_Suc [of ?p] by blast
    have "step_business (Suc n) biz dir d = step_business n biz dir (AddDate dir d)" using False by simp
    also have "\<dots> = (if \<exists>k<n. ?p (Suc k) then Some (AddDate (dir * int (LEAST k. ?p (Suc k))) (AddDate dir d)) else None)"
      unfolding Suc.IH [OF AddDate_valid [OF Suc.prems]] sh ..
    also have "\<dots> = (if \<exists>k<Suc n. ?p k then Some (AddDate (dir * int (LEAST k. ?p k)) d) else None)"
      using l AddDate_step [OF Suc.prems assms(2), of "dir * int (LEAST k. ?p (Suc k))"]
      by (cases "\<exists>k<n. ?p (Suc k)") (simp_all only: ex if_True if_False, force simp: algebra_simps)
    finally show ?thesis .
  qed
qed

text \<open>How many of the next \<open>m\<close> days count.\<close>

definition days_counted :: "(date \<Rightarrow> bool) \<Rightarrow> int \<Rightarrow> nat \<Rightarrow> date \<Rightarrow> nat" where
  "days_counted biz dir m t = length (filter (\<lambda>i. biz (AddDate (dir * (int i + 1)) t)) [0..<m])"

lemma days_counted_0 [simp]: "days_counted biz dir 0 t = 0"
  by (simp add: days_counted_def)

lemma days_counted_Suc:
  assumes "valid_date t" "dir = 1 \<or> dir = - 1"
  shows "days_counted biz dir (Suc m) t = (if biz (AddDate dir t) then 1 else 0) + days_counted biz dir m (AddDate dir t)"
proof -
  have "biz (AddDate (dir * (int i + 1)) (AddDate dir t)) = biz (AddDate (dir * (int (Suc i) + 1)) t)" for i
    using AddDate_step [OF assms, of "dir * (int i + 1)"] by (simp add: algebra_simps)
  then show ?thesis
    by (simp add: days_counted_def upt_conv_Cons map_Suc_upt [symmetric] filter_map o_def del: upt_Suc)
qed

lemma walk_business_spec:
  assumes "dir = 1 \<or> dir = - 1"
  shows "valid_date t \<Longrightarrow> 0 \<le> n \<Longrightarrow> walk_business k biz dir n t = (left, t') \<Longrightarrow>
    \<exists>m\<le>k. t' = AddDate (dir * int m) t \<and> left = n - int (days_counted biz dir m t) \<and> 0 \<le> left \<and> (left = 0 \<and> 0 < n \<longrightarrow> biz t')"
proof (induction k arbitrary: n t)
  case 0
  then show ?case by auto
next
  case (Suc k)
  show ?case
  proof (cases "n \<le> 0")
    case True
    then show ?thesis using Suc.prems by auto
  next
    case False
    let ?t = "AddDate dir t" and ?n = "if biz (AddDate dir t) then n - 1 else n"
    have "walk_business k biz dir ?n ?t = (left, t')" using Suc.prems False by (simp add: Let_def)
    moreover have "0 \<le> ?n" using False by simp
    ultimately obtain m where m: "m \<le> k" "t' = AddDate (dir * int m) ?t" "left = ?n - int (days_counted biz dir m ?t)" "0 \<le> left"
      "left = 0 \<and> 0 < ?n \<longrightarrow> biz t'" using Suc.IH [OF AddDate_valid [OF Suc.prems(1)]] by blast
    have "t' = AddDate (dir * int (Suc m)) t" using m(2) AddDate_step [OF Suc.prems(1) assms] by (simp add: algebra_simps)
    moreover have "left = n - int (days_counted biz dir (Suc m) t)"
      using m(3) by (simp add: days_counted_Suc [OF Suc.prems(1) assms])
    moreover have "left = 0 \<longrightarrow> biz t'"
    proof
      assume z: "left = 0"
      show "biz t'"
      proof (cases "0 < ?n")
        case False
        then have "biz ?t" "n = 1" using \<open>\<not> n \<le> 0\<close> by (auto split: if_splits)
        have w: "walk_business k biz dir ?n ?t = (left, t')" using Suc.prems \<open>\<not> n \<le> 0\<close> by (simp add: Let_def)
        then have "k = 0 \<or> walk_business k biz dir 0 ?t = (0, ?t)" by (cases k) auto
        then have "t' = ?t" using w \<open>biz ?t\<close> \<open>n = 1\<close> by auto
        then show ?thesis using \<open>biz ?t\<close> by simp
      qed (use m(5) z in simp)
    qed
    ultimately show ?thesis using m(1,4) by (intro exI [of _ "Suc m"]) simp
  qed
qed

section \<open>Directives\<close>

lemma strip_right_id: "L \<noteq> [] \<Longrightarrow> \<not> re_space (last L) \<Longrightarrow> strip_right L = L"
  by (cases L rule: rev_cases) (simp_all add: strip_right_def)

lemma dropWhile_spaces: "list_all re_space w \<Longrightarrow> L \<noteq> [] \<Longrightarrow> \<not> re_space (hd L) \<Longrightarrow> dropWhile re_space (w @ L) = L"
  by (cases L) (auto simp: dropWhile_append list_all_iff)

definition set_name :: "string \<Rightarrow> bool" where
  "set_name a \<longleftrightarrow> a \<noteq> [] \<and> is_letter (hd a) \<and> list_all name_char a"

definition set_value :: "string \<Rightarrow> bool" where
  "set_value v \<longleftrightarrow> v \<noteq> [] \<and> \<not> re_space (hd v) \<and> \<not> re_space (last v) \<and> newline \<notin> set v"

lemma name_char_not: "name_char c \<Longrightarrow> \<not> re_space c \<and> c \<noteq> CHR ''=''"
  by (auto simp: name_char_def word_char_def is_letter_def is_digit_def re_space_def)

text \<open>One directive whose value starts after the blanks \<open>w\<close>, which may span lines.\<close>

lemma match_set_line:
  assumes "set_name a" "list_all re_space w" "set_value L" "rest = [] \<or> \<not> re_space (hd rest)"
  shows "match_set ''%%SET'' (''%%SET '' @ a @ ''='' @ w @ L @ newline # rest) =
    Some ((a, L), length (''%%SET '' @ a @ ''='' @ w @ L) + (if rest = [] then 1 else 0))"
proof -
  let ?s = "''%%SET '' @ a @ ''='' @ w @ L @ newline # rest"
  have nl: "re_space newline" by (simp add: re_space_def newline_def)
  have a: "a \<noteq> []" "is_letter (hd a)" "\<not> re_space (hd a)" "c \<in> set a \<Longrightarrow> name_char c" for c
    using assms(1) name_char_not by (auto simp: set_name_def list_all_iff)
  have r0: "dropWhile re_space ?s = ?s" by (simp add: re_space_def)
  have r2: "dropWhile re_space ('' '' @ a @ ''='' @ w @ L @ newline # rest) = a @ ''='' @ w @ L @ newline # rest"
    by (rule dropWhile_spaces) (use a in \<open>auto simp: re_space_def\<close>)
  have nm: "takeWhile name_char (a @ ''='' @ w @ L @ newline # rest) = a"
    using a(4) name_char_not by (auto simp: takeWhile_append)
  have r3: "dropWhile re_space (''='' @ w @ L @ newline # rest) = ''='' @ w @ L @ newline # rest" by (simp add: re_space_def)
  have r4: "dropWhile re_space (w @ L @ newline # rest) = L @ newline # rest"
    using dropWhile_spaces [of w "L @ newline # rest"] assms(2,3) by (auto simp: set_value_def)
  have ln: "takeWhile (\<lambda>c. c \<noteq> newline) (L @ newline # rest) = L" using assms(3) by (auto simp: set_value_def takeWhile_append)
  have v: "strip_right L = L" using assms(3) by (simp add: set_value_def strip_right_id)
  have af: "after_value (newline # rest) = (if rest = [] then [] else newline # rest)"
    using assms(4) nl by (cases rest) (auto simp: after_value_def Let_def)
  have cp: "cut_prefix ''%%SET'' ?s = Some ('' '' @ a @ ''='' @ w @ L @ newline # rest)"
    by (simp add: cut_prefix_Some)
  have ne: "'' '' @ a @ ''='' @ w @ L @ newline # rest \<noteq> a @ ''='' @ w @ L @ newline # rest"
    by (rule notI, drule arg_cong [of _ _ length]) simp
  show ?thesis
    unfolding match_set_def r0 cp option.case Let_def r2 nm
    using a(1,2) ne by (simp add: r3 [simplified] r4 ln v af)
qed

lemma find_sets_line:
  assumes "set_name a" "list_all re_space w" "set_value L" "rest = [] \<or> \<not> re_space (hd rest)"
  shows "find_sets ''%%SET'' True (''%%SET '' @ a @ ''='' @ w @ L @ newline # rest) = (a, L) # find_sets ''%%SET'' True rest"
proof -
  let ?p = "''%%SET '' @ a @ ''='' @ w @ L" and ?s = "''%%SET '' @ a @ ''='' @ w @ L @ newline # rest"
  have l: "last L \<noteq> newline" "L \<noteq> []" using assms(3) by (metis last_in_set set_value_def)+
  have s: "?s = ?p @ newline # rest" by simp
  have f: "find_sets ''%%SET'' True ?s = (a, L) #
     find_sets ''%%SET'' (last (take (max 1 n) ?s) = newline) (drop (max 1 n) ?s)"
    if "n = length ?p + (if rest = [] then 1 else 0)" for n
    using match_set_line [OF assms] that by (subst find_sets.simps) simp
  show ?thesis
  proof (cases "rest = []")
    case True
    then show ?thesis using f [of "length ?s"] by (simp add: find_sets.simps [of _ _ "[]"])
  next
    case False
    have "find_sets ''%%SET'' True ?s = (a, L) # find_sets ''%%SET'' (last (take (length ?p) ?s) = newline) (drop (length ?p) ?s)"
      using f [of "length ?p"] False by (simp add: max_def)
    also have "drop (length ?p) ?s = newline # rest" unfolding s by (simp only: append_eq_conv_conj [THEN iffD1, THEN conjunct2] drop_append) simp
    also have "take (length ?p) ?s = ?p" unfolding s by simp
    also have "(last ?p = newline) = False" using l by simp
    also have "find_sets ''%%SET'' False (newline # rest) = find_sets ''%%SET'' True rest"
      by (subst find_sets.simps) simp
    finally show ?thesis .
  qed
qed

text \<open>The scheduler never hands the result of a parent to a context, so its names never resolve.\<close>

lemma parent_scope_is_empty:
  "VcRuntime (buildVarContext today now row globals cals def iid) ''parent.exit_code'' = None \<and>
   VcRuntime (buildVarContext today now row globals cals def iid) ''parent.output'' = None"
  by (auto simp: buildVarContext_def BuildContextAt_def Let_def split: prod.splits option.splits)

section \<open>Properties\<close>

definition "demo_vars = \<lparr>VcRuntime = [''ODATE'' \<mapsto> ''20260702''], VcLocal = Map.empty, VcDefinition = [''A'' \<mapsto> ''%%B''],
  VcGlobal = [''A'' \<mapsto> ''hidden'', ''B'' \<mapsto> ''x''], VcBusinessDay = None\<rparr>"

text \<open>Where the two syntaxes differ.  Both find the value by the same precedence, but what \<open>%%NAME\<close> puts in
  stays as it is, while the value that \<open>${var.NAME}\<close> puts in is searched again for \<open>%%\<close> names, so that a
  value (the output of a parent, for one) can bring in other variables.\<close>

theorem syntaxes_differ:
  assumes "ctm_name name" "lookup_var ctx name = Some v"
  shows "InterpolateString (''%%'' @ name) ctx = v \<and>
    InterpolateString (var_open @ name @ ''}'') ctx = replace_all ctmToken (resolve_name ctx) v"
proof -
  have r: "resolve_name ctx name = Some v" using assms(2) by (simp add: resolve_name_def)
  have "InterpolateString (''%%'' @ name) ctx = replace_all ctmToken (resolve_name ctx) (''%%'' @ name)"
    by (simp only: InterpolateString_def percent_name [OF assms(1)])
  also have "\<dots> = v" by (rule replace_all_whole [where m = ctmToken]) (use percent_name(4) [OF assms(1)] r in auto)
  finally have p: "InterpolateString (''%%'' @ name) ctx = v" .
  have "InterpolateString (var_open @ name @ ''}'') ctx =
      replace_all ctmToken (resolve_name ctx) (replace_all varToken (resolve_name ctx) (var_open @ name @ ''}''))"
    by (simp only: InterpolateString_def brace_name [OF assms(1)])
  also have "replace_all varToken (resolve_name ctx) (var_open @ name @ ''}'') = v"
    by (rule replace_all_whole [where m = varToken]) (use brace_name(3) [OF assms(1)] r in auto)
  finally show ?thesis using p by simp
qed

theorem syntaxes_differ_witness:
  "InterpolateString ''%%A'' demo_vars = ''%%B'' \<and> InterpolateString (var_open @ ''A}'') demo_vars = ''x''"
proof -
  have "ctm_name ''A''" "lookup_var demo_vars ''A'' = Some ''%%B''" by code_simp+
  moreover have "replace_all ctmToken (resolve_name demo_vars) ''%%B'' = ''x''" by code_simp
  ultimately show ?thesis using syntaxes_differ [of "''A''" demo_vars "''%%B''"] by simp
qed

text \<open>Unresolved tokens stay.  Whatever the text, a context that knows no name leaves every byte of it as it
  is: tokens that resolve to nothing are neither dropped nor changed.\<close>

theorem unresolved_tokens_stay:
  assumes "\<And>n. lookup_var ctx n = None"
  shows "InterpolateString s ctx = s \<and> InterpolateValue (GoString s) ctx = GoString s"
proof -
  have n: "resolveNativeDate ctx x = None" for x using assms by (simp add: resolveNativeDate_def)
  have "resolve_name ctx x = None" "resolve_calc ctx y = None" for x y
    using assms n by (simp_all add: resolve_name_def resolve_calc_def resolveDateCalc_def split: prod.splits)
  then show ?thesis by (simp add: InterpolateString_def replace_all_None)
qed

theorem unresolved_tokens_stay_witness:
  "InterpolateString ''a %%ODATE+1 %%X'' \<lparr>VcRuntime = Map.empty, VcLocal = Map.empty, VcDefinition = Map.empty,
     VcGlobal = Map.empty, VcBusinessDay = None\<rparr> = ''a %%ODATE+1 %%X''"
  by (rule unresolved_tokens_stay [THEN conjunct1]) (simp add: lookup_var_def)

text \<open>Native business days.  \<open>%%NEXTBD\<close>, \<open>%%PREVBD\<close>, \<open>%%FIRSTBD\<close> and \<open>%%LASTBD\<close> are the nearest business day in their
  direction, counted from the day after or before the order date, or from the first or last day of its
  month, within 1000 days; without one the token does not resolve.\<close>

theorem native_business_days:
  assumes "lookup_var ctx ''ODATE'' = Some raw" "ParseCompact raw = Some d"
    and "(name, dir, start) \<in> {(''NEXTBD'', 1, AddDate 1 d), (''PREVBD'', - 1, AddDate (- 1) d),
      (''FIRSTBD'', 1, d\<lparr>dday := 1\<rparr>), (''LASTBD'', - 1, d\<lparr>dday := lastDayOfMonth d\<rparr>)}"
  shows "resolveNativeDate ctx name =
    (if \<exists>k<1000. businessFn ctx (AddDate (dir * int k) start)
     then Some (FormatCompact (AddDate (dir * int (LEAST k. businessFn ctx (AddDate (dir * int k) start))) start)) else None)"
proof -
  have v: "valid_date d" using assms(2) by (auto simp: ParseCompact_def Let_def split: if_splits)
  then have "valid_date (d\<lparr>dday := 1\<rparr>)" "valid_date (d\<lparr>dday := lastDayOfMonth d\<rparr>)"
    using days_in_month_pos [of "dyear d" "dmonth d"] by (auto simp: valid_date_def lastDayOfMonth_def)
  then have s: "valid_date start" "dir = 1 \<or> dir = - 1" using assms(3) AddDate_valid [OF v] by auto
  have "resolveNativeDate ctx name = map_option FormatCompact (step_business 1000 (businessFn ctx) dir start)"
    using assms by (auto simp: resolveNativeDate_def native_date_def native_names_def)
  then show ?thesis unfolding step_business_spec [OF s] by simp
qed

theorem native_business_days_witness: "resolveNativeDate demo_vars ''LASTBD'' = Some ''20260731''"
proof -
  let ?d = "\<lparr>dyear = 2026, dmonth = 7, dday = 2\<rparr>" and ?e = "\<lparr>dyear = 2026, dmonth = 7, dday = 31\<rparr>"
  have l: "lookup_var demo_vars ''ODATE'' = Some ''20260702''" "ParseCompact ''20260702'' = Some ?d" by code_simp+
  have e: "?d\<lparr>dday := lastDayOfMonth ?d\<rparr> = ?e" "businessFn demo_vars (AddDate (- 1 * int 0) ?e)"
    "FormatCompact (AddDate (- 1 * int 0) ?e) = ''20260731''" by code_simp+
  have m: "(''LASTBD'', - 1, ?e) \<in> {(''NEXTBD'', 1, AddDate 1 ?d), (''PREVBD'', - 1, AddDate (- 1) ?d),
      (''FIRSTBD'', 1, ?d\<lparr>dday := 1\<rparr>), (''LASTBD'', - 1, ?d\<lparr>dday := lastDayOfMonth ?d\<rparr>)}" unfolding e(1) by simp
  have "(LEAST k. businessFn demo_vars (AddDate (- 1 * int k) ?e)) = 0" using e(2) by (intro Least_equality) auto
  moreover have "\<exists>k<1000::nat. businessFn demo_vars (AddDate (- 1 * int k) ?e)" using e(2) by (intro exI [of _ 0]) simp
  ultimately show ?thesis using native_business_days [OF l m] e(3) by simp
qed

text \<open>Business offsets.  When \<open>%%BASE+nB\<close> or \<open>%%BASE-nB\<close> resolves, its value is the date, in the direction of
  the sign, up to which exactly n business days have passed, and that date is one of them; the loop
  never looks further than 1000 days.\<close>

theorem business_offset_counts:
  assumes "base \<in> set calc_bases" "lookup_var ctx base = Some raw" "parse_base base raw = Some t"
    and "Atoi off = Some n" "n \<noteq> 0" "resolveDateCalc ctx base off True = Some s"
  shows "\<exists>m\<le>1000. s = format_base base (AddDate (sgn n * int m) t) \<and> int (days_counted (businessFn ctx) (sgn n) m t) = \<bar>n\<bar> \<and>
    businessFn ctx (AddDate (sgn n * int m) t)"
proof -
  have v: "valid_date t" using assms(3) ParseDate_valid by (auto simp: parse_base_def ParseCompact_def Let_def split: if_splits)
  have d: "(if n < 0 then - 1 else 1) = sgn n" "sgn n = 1 \<or> sgn n = - 1" using assms(5) by (auto simp: sgn_if)
  obtain left t' where w: "walk_business 1000 (businessFn ctx) (sgn n) \<bar>n\<bar> t = (left, t')"
    by (cases "walk_business 1000 (businessFn ctx) (sgn n) \<bar>n\<bar> t")
  have s: "s = format_base base t'" "left \<le> 0"
    using assms(1-4,6) w by (auto simp: resolveDateCalc_def add_business_def d(1) Let_def split: if_splits)
  from walk_business_spec [OF d(2) v abs_ge_zero w] obtain m where m: "m \<le> 1000" "t' = AddDate (sgn n * int m) t"
    "left = \<bar>n\<bar> - int (days_counted (businessFn ctx) (sgn n) m t)" "0 \<le> left" "left = 0 \<and> 0 < \<bar>n\<bar> \<longrightarrow> businessFn ctx t'" by blast
  then show ?thesis using s assms(5) by (intro exI [of _ m]) auto
qed

theorem business_offset_counts_witness:
  "\<exists>m\<le>1000. ''20260706'' = format_base ''ODATE'' (AddDate (sgn 2 * int m) \<lparr>dyear = 2026, dmonth = 7, dday = 2\<rparr>) \<and>
     int (days_counted (businessFn demo_vars) (sgn 2) m \<lparr>dyear = 2026, dmonth = 7, dday = 2\<rparr>) = 2"
proof -
  let ?d = "\<lparr>dyear = 2026, dmonth = 7, dday = 2\<rparr>"
  have "''ODATE'' \<in> set calc_bases" "lookup_var demo_vars ''ODATE'' = Some ''20260702''" "parse_base ''ODATE'' ''20260702'' = Some ?d"
    "Atoi ''+2'' = Some 2" "(2::int) \<noteq> 0" "resolveDateCalc demo_vars ''ODATE'' ''+2'' True = Some ''20260706''"
    by code_simp+
  from business_offset_counts [OF this] show ?thesis by auto
qed

text \<open>Directives are read back.  An output that consists of lines \<open>%%SET NAME=VALUE\<close>, with values that are not
  empty and have no blank at either end, gives exactly these assignments, in their order, the first
  twenty of them.\<close>

theorem set_directives_roundtrip:
  assumes "list_all (\<lambda>(n, v). set_name n \<and> set_value v) xs"
  shows "set_directives (concat (map (\<lambda>(n, v). ''%%SET '' @ n @ ''='' @ v @ [newline]) xs)) = take 20 xs"
proof -
  let ?text = "\<lambda>xs. concat (map (\<lambda>(n, v). ''%%SET '' @ n @ ''='' @ v @ [newline]) xs)"
  have "find_sets ''%%SET'' True (?text xs) = xs"
    using assms
  proof (induction xs)
    case Nil
    then show ?case by (simp add: find_sets.simps)
  next
    case (Cons x xs)
    obtain n v where x: "x = (n, v)" by (cases x)
    have "?text xs = [] \<or> \<not> re_space (hd (?text xs))" by (cases xs) (auto simp: re_space_def)
    then show ?case
      using find_sets_line [of n "[]" v "?text xs"] Cons x by simp
  qed
  then show ?thesis by (simp add: set_directives_def maxSetVarsPerJob_def)
qed

theorem set_directives_roundtrip_witness:
  "set_directives (concat (map (\<lambda>(n, v). ''%%SET '' @ n @ ''='' @ v @ [newline]) [(''A'', ''1''), (''B.c'', ''x y'')])) =
     [(''A'', ''1''), (''B.c'', ''x y'')]"
proof -
  have "list_all (\<lambda>(n, v). set_name n \<and> set_value v) [(''A'', ''1''), (''B.c'', ''x y'')]" by code_simp
  from set_directives_roundtrip [OF this] show ?thesis by simp
qed

text \<open>C32. An empty assignment takes the next line.  The blanks after \<open>=\<close> may span lines, so a directive with
  an empty value that is followed by another directive assigns the text of that directive, and the
  second variable keeps its old value.\<close>

theorem empty_set_takes_next_line:
  assumes "set_name a" "set_name b" "set_value v" "ok a" "a \<noteq> b"
  shows "applySetVarDirectives ok (''%%SET '' @ a @ ''='' @ newline # ''%%SET '' @ b @ ''='' @ v @ [newline]) store =
      store(a \<mapsto> ''%%SET '' @ b @ ''='' @ v) \<and>
    applySetVarDirectives ok (''%%SET '' @ a @ ''='' @ newline # ''%%SET '' @ b @ ''='' @ v @ [newline]) store b = store b"
proof -
  have nb: "newline \<notin> set b"
    using assms(2) name_char_not by (auto simp: set_name_def list_all_iff newline_def re_space_def)
  have L: "set_value (''%%SET '' @ b @ ''='' @ v)"
    using assms(3) nb by (auto simp: set_value_def re_space_def newline_def)
  have "find_sets ''%%SET'' True (''%%SET '' @ a @ ''='' @ newline # ''%%SET '' @ b @ ''='' @ v @ [newline]) =
      [(a, ''%%SET '' @ b @ ''='' @ v)]"
    using find_sets_line [of a "[newline]" "''%%SET '' @ b @ ''='' @ v" "[]"] assms(1) L
    by (simp add: re_space_def newline_def find_sets.simps [of _ _ "[]"])
  then show ?thesis using assms(4,5) by (simp add: applySetVarDirectives_def set_directives_def maxSetVarsPerJob_def)
qed

theorem empty_set_takes_next_line_witness:
  "applySetVarDirectives (\<lambda>_. True) (''%%SET A='' @ newline # ''%%SET B=1'' @ [newline]) [''B'' \<mapsto> ''0''] =
     [''B'' \<mapsto> ''0'', ''A'' \<mapsto> ''%%SET B=1'']"
proof -
  have "set_name ''A''" "set_name ''B''" "set_value ''1''" by code_simp+
  from empty_set_takes_next_line [OF this, of "\<lambda>_. True"] show ?thesis by simp
qed

end
