(* ===== verification/QuickAction.thy ===== *)
theory QuickAction
  imports Civil
begin

text \<open>
  Signed links for one action on one order, \<open>quickaction/quickaction.go\<close>.  HMAC-SHA256 is the parameter
  \<open>mac\<close> (secret, payload); \<open>base64.RawURLEncoding\<close> of Go's library is written out on bytes.
\<close>

section \<open>base64.RawURLEncoding\<close>

definition b64_char :: "nat \<Rightarrow> char" where
  "b64_char n =
     (if n < 26 then char_of (65 + n) else if n < 52 then char_of (71 + n) else if n < 62 then char_of (n - 4)
      else if n = 62 then CHR ''-'' else CHR ''_'')"

definition b64_val :: "char \<Rightarrow> nat option" where
  "b64_val c =
     (let n = of_char c in
      if 65 \<le> n \<and> n \<le> 90 then Some (n - 65) else if 97 \<le> n \<and> n \<le> 122 then Some (n - 71)
      else if 48 \<le> n \<and> n \<le> 57 then Some (n + 4) else if n = 45 then Some 62 else if n = 95 then Some 63 else None)"

fun b64_groups :: "nat list \<Rightarrow> nat list" where
  "b64_groups (a # b # c # r) =
     (a div 4) # (a mod 4 * 16 + b div 16) # (b mod 16 * 4 + c div 64) # (c mod 64) # b64_groups r"
| "b64_groups [a, b] = [a div 4, a mod 4 * 16 + b div 16, b mod 16 * 4]"
| "b64_groups [a] = [a div 4, a mod 4 * 16]"
| "b64_groups [] = []"

text \<open>Bits left over at the end are dropped; a single left-over digit is an error.\<close>

fun b64_bytes :: "nat list \<Rightarrow> nat list option" where
  "b64_bytes (p # q # r # s # t) =
     map_option (\<lambda>bs. (p * 4 + q div 16) # (q mod 16 * 16 + r div 4) # (r mod 4 * 64 + s) # bs) (b64_bytes t)"
| "b64_bytes [p, q, r] = Some [p * 4 + q div 16, q mod 16 * 16 + r div 4]"
| "b64_bytes [p, q] = Some [p * 4 + q div 16]"
| "b64_bytes [p] = None"
| "b64_bytes [] = Some []"

definition EncodeToString :: "string \<Rightarrow> string" where
  "EncodeToString s = map b64_char (b64_groups (map of_char s))"

definition DecodeString :: "string \<Rightarrow> string option" where
  "DecodeString s =
     (let cs = filter (\<lambda>c. c \<noteq> CHR 0x0A \<and> c \<noteq> CHR 0x0D) s; vs = map b64_val cs in
      if None \<in> set vs then None else map_option (map char_of) (b64_bytes (map the vs)))"

section \<open>Tokens\<close>

definition Allowed :: "string list" where
  "Allowed = [''rerun'', ''set-ok'', ''confirm'', ''hold'', ''release'']"

datatype token_error = ErrBadToken | ErrExpired | ErrAction | ErrInstance

definition token_payload :: "string \<Rightarrow> string \<Rightarrow> int \<Rightarrow> string" where
  "token_payload iid action exp = iid @ ''|'' @ action @ ''|'' @ pad_int 1 exp"

definition SignToken :: "(string \<Rightarrow> string \<Rightarrow> string) \<Rightarrow> string \<Rightarrow> string \<Rightarrow> string \<Rightarrow> int \<Rightarrow> token_error + string" where
  "SignToken mac secret iid action exp =
     (if action \<notin> set Allowed then Inl ErrAction
      else if CHR ''|'' \<in> set iid then Inl ErrInstance
      else let payload = token_payload iid action exp in
        Inr (EncodeToString payload @ ''.'' @ EncodeToString (mac secret payload)))"

definition VerifyToken :: "(string \<Rightarrow> string \<Rightarrow> string) \<Rightarrow> int \<Rightarrow> string \<Rightarrow> string \<Rightarrow> token_error + (string \<times> string)" where
  "VerifyToken mac now secret token =
     (case split_on (CHR ''.'') token of
        [p, q] \<Rightarrow>
          (case (DecodeString p, DecodeString q) of
             (Some payload, Some sig) \<Rightarrow>
               if sig \<noteq> mac secret payload then Inl ErrBadToken
               else (case split_on (CHR ''|'') payload of
                  [iid, action, e] \<Rightarrow>
                    if action \<notin> set Allowed then Inl ErrBadToken
                    else (case Atoi e of
                       None \<Rightarrow> Inl ErrBadToken
                     | Some exp \<Rightarrow> if now > exp then Inl ErrExpired else Inr (iid, action))
                | _ \<Rightarrow> Inl ErrBadToken)
           | _ \<Rightarrow> Inl ErrBadToken)
      | _ \<Rightarrow> Inl ErrBadToken)"

section \<open>The encoding is undone by the decoding\<close>

lemma b64_val_char: "n < 64 \<Longrightarrow> b64_val (b64_char n) = Some n"
  by (auto simp: b64_val_def b64_char_def Let_def)

lemma b64_groups_less: "list_all (\<lambda>x. x < 256) bs \<Longrightarrow> list_all (\<lambda>x. x < 64) (b64_groups bs)"
  by (induction bs rule: b64_groups.induct) auto

lemma b64_bytes_groups: "list_all (\<lambda>x. x < 256) bs \<Longrightarrow> b64_bytes (b64_groups bs) = Some bs"
  by (induction bs rule: b64_groups.induct) (auto simp: div_mult2_eq)

lemma b64_plain: "n < 64 \<Longrightarrow> b64_char n \<noteq> CHR ''.'' \<and> b64_char n \<noteq> CHR 0x0A \<and> b64_char n \<noteq> CHR 0x0D"
proof -
  assume "n < 64"
  then have v: "b64_val (b64_char n) = Some n" by (rule b64_val_char)
  have "b64_val (CHR ''.'') = None" "b64_val (CHR 0x0A) = None" "b64_val (CHR 0x0D) = None" by code_simp+
  then show ?thesis using v by (metis option.distinct(1))
qed

lemma of_char_bytes: "list_all (\<lambda>x. x < 256) (map of_char (s :: string) :: nat list)"
  by (simp add: list_all_iff)

lemma Encode_plain: "c \<in> set (EncodeToString s) \<Longrightarrow> c \<noteq> CHR ''.'' \<and> c \<noteq> CHR 0x0A \<and> c \<noteq> CHR 0x0D"
  using b64_groups_less [OF of_char_bytes [of s]] b64_plain by (auto simp: EncodeToString_def list_all_iff)

lemma Decode_Encode: "DecodeString (EncodeToString s) = Some s"
proof -
  let ?g = "b64_groups (map of_char s)"
  have l: "\<And>x. x \<in> set ?g \<Longrightarrow> x < 64" using b64_groups_less [OF of_char_bytes [of s]] by (simp add: list_all_iff)
  have f: "filter (\<lambda>c. c \<noteq> CHR 0x0A \<and> c \<noteq> CHR 0x0D) (EncodeToString s) = EncodeToString s"
    using Encode_plain by (intro filter_True) blast
  have v: "map b64_val (EncodeToString s) = map Some ?g"
    using l b64_val_char by (simp add: EncodeToString_def)
  have "DecodeString (EncodeToString s) = map_option (map char_of) (b64_bytes ?g)"
    unfolding DecodeString_def Let_def f v by (auto simp: o_def)
  then show ?thesis by (simp add: b64_bytes_groups [OF of_char_bytes] o_def)
qed

lemma split_on_absent: "c \<notin> set s \<Longrightarrow> split_on c s = [s]"
  by (induction s) auto

lemma split_on_append: "c \<notin> set s \<Longrightarrow> split_on c (s @ c # t) = s # split_on c t"
  by (induction s) auto

lemma digit_count_bound: "n < 10 ^ digit_count n \<and> 0 < digit_count n"
proof (induction n rule: digit_count.induct)
  case (1 n)
  show ?case
  proof (cases "n < 10")
    case True
    then show ?thesis by (simp add: digit_count.simps)
  next
    case False
    then have "n div 10 < 10 ^ digit_count (n div 10)" using 1 by simp
    then have "n < 10 * 10 ^ digit_count (n div 10)" by (simp add: less_mult_imp_div_less div_less_iff_less_mult mult.commute)
    then show ?thesis using False by (subst (1 2) digit_count.simps) simp
  qed
qed

lemma pad_nat_digits: "list_all is_digit (pad_nat 1 n)" "pad_nat 1 n \<noteq> []" "digits_val 0 (pad_nat 1 n) = int n"
proof -
  have w: "n < 10 ^ (if n < 10 ^ 1 then 1 else digit_count n)" "0 < (if n < 10 ^ 1 then 1 else digit_count n)"
    using digit_count_bound [of n] by simp_all
  show "list_all is_digit (pad_nat 1 n)" by (simp add: pad_nat_def dec_digits_digits)
  show "digits_val 0 (pad_nat 1 n) = int n" unfolding pad_nat_def by (rule digits_val_dec) (rule w(1))
  have "length (pad_nat 1 n) = (if n < 10 ^ 1 then 1 else digit_count n)" by (simp add: pad_nat_def)
  then show "pad_nat 1 n \<noteq> []" using w(2) by auto
qed

lemma Atoi_pad_int: "min_int64 \<le> n \<Longrightarrow> n \<le> max_int64 \<Longrightarrow> Atoi (pad_int 1 n) = Some n"
proof (cases "n < 0")
  case True
  assume "min_int64 \<le> n" "n \<le> max_int64"
  then show ?thesis using True pad_nat_digits [of "nat (- n)"] by (simp add: Atoi_def pad_int_def)
next
  case False
  assume b: "min_int64 \<le> n" "n \<le> max_int64"
  obtain c cs where c: "pad_nat 1 (nat n) = c # cs" using pad_nat_digits(2) [of "nat n"] by (cases "pad_nat 1 (nat n)") auto
  have "is_digit c" using pad_nat_digits(1) [of "nat n"] c by simp
  then have "c \<noteq> CHR ''-''" "c \<noteq> CHR ''+''" by (auto simp: is_digit_def)
  then show ?thesis using False b c pad_nat_digits [of "nat n"] by (simp add: Atoi_def pad_int_def)
qed

lemma pad_int_no_bar: "CHR ''|'' \<notin> set (pad_int 1 n)"
proof -
  have "\<not> is_digit (CHR ''|'')" by (simp add: is_digit_def)
  then have "CHR ''|'' \<notin> set (pad_nat 1 k)" for k using pad_nat_digits(1) [of k] by (auto simp: list_all_iff)
  then show ?thesis by (simp add: pad_int_def)
qed

section \<open>Properties\<close>

text \<open>Links are read back.  A signed link, whatever the signature function, gives back its order and
  action until it expires, and the error of an expired link from then on.\<close>

theorem signed_link_roundtrip:
  assumes "SignToken mac secret iid action exp = Inr token" "min_int64 \<le> exp" "exp \<le> max_int64"
  shows "VerifyToken mac now secret token = (if now > exp then Inl ErrExpired else Inr (iid, action))"
proof -
  let ?p = "token_payload iid action exp"
  have a: "action \<in> set Allowed" "CHR ''|'' \<notin> set iid"
    and t: "token = EncodeToString ?p @ ''.'' @ EncodeToString (mac secret ?p)"
    using assms(1) by (auto simp: SignToken_def Let_def split: if_splits)
  have n: "CHR ''|'' \<notin> set action" using a(1) by (auto simp: Allowed_def)
  have d: "CHR ''.'' \<notin> set (EncodeToString x)" for x using Encode_plain by blast
  have "split_on (CHR ''.'') token = [EncodeToString ?p, EncodeToString (mac secret ?p)]"
    using split_on_append [OF d] split_on_absent [OF d] by (simp add: t)
  moreover have "split_on (CHR ''|'') ?p = [iid, action, pad_int 1 exp]"
    using split_on_append [OF a(2)] split_on_append [OF n] split_on_absent [OF pad_int_no_bar]
    by (simp add: token_payload_def)
  ultimately show ?thesis
    using a(1) Atoi_pad_int [OF assms(2,3)] by (simp add: VerifyToken_def Decode_Encode)
qed

theorem signed_link_roundtrip_witness:
  "VerifyToken (\<lambda>s p. s @ p) 5 ''k'' (projr (SignToken (\<lambda>s p. s @ p) ''k'' ''job-1'' ''rerun'' 9)) = Inr (''job-1'', ''rerun'')"
proof -
  have "SignToken (\<lambda>s p. s @ p) ''k'' ''job-1'' ''rerun'' 9 = Inr (projr (SignToken (\<lambda>s p. s @ p) ''k'' ''job-1'' ''rerun'' 9))"
    by (simp add: SignToken_def Allowed_def Let_def)
  from signed_link_roundtrip [OF this, of 5] show ?thesis by (simp add: min_int64_def max_int64_def)
qed

end
