(* ===== verification/Alerting.thy ===== *)
theory Alerting
  imports Complex_Main Scheduler
begin

text \<open>
  The alert engine of \<open>server/internal/scheduler/alerting.go\<close>, the slow-run scan of
  \<open>slowalert.go\<close> and the self-monitor of \<open>selfmon.go\<close>.

  A rule's condition is JSON text; a rule carries the text and what it decodes to.  The floats of
  conditions and contexts are rationals.  Instants are nanoseconds of the process clock.  Message
  texts and broadcasts are not part of the state; a delivery to an outside sink is an element of
  \<open>AlSent\<close> (sink, rule, workflow), handed over at once although the code uses a goroutine.
\<close>

section \<open>State\<close>

record alertCondition =
  CoType :: string
  CoThresholdMs :: int
  CoMaxRetries :: int
  CoRate :: rat
  CoCount :: int
  CoPercentOver :: rat

record AlertRule =
  ArId :: string
  ArName :: string
  ArEnabled :: bool
  ArPattern :: string
  ArText :: string
  ArCond :: "alertCondition option"
  ArSeverity :: string
  ArChannels :: string
  ArCooldownMs :: int

record AlertContext =
  CxWorkflow :: string
  CxName :: string
  CxInst :: string
  CxStatus :: string
  CxDurationMs :: int
  CxMaxRetries :: int
  CxSuccessRate :: rat
  CxConsecutive :: int
  CxAvgMs :: int
  CxHistory :: int
  CxRunning :: bool
  CxSlowFired :: bool

record AlertEventRow =
  AeId :: int
  AeRule :: string
  AeRuleName :: string
  AeSeverity :: string
  AeWorkflow :: string
  AeWorkflowName :: string
  AeAck :: bool
  AeTs :: int
  AeResolution :: string

record AlertEngine =
  AlRules :: "AlertRule list"
  AlEvents :: "AlertEventRow list"
  AlNext :: int
  AlSettings :: "(string \<times> string) list"
  AlCool :: "string \<Rightarrow> int option"
  AlSent :: "(string \<times> string \<times> string) list"

abbreviation millisecond :: int where "millisecond \<equiv> 1000000"

definition UnixMilli :: "int \<Rightarrow> int" where
  "UnixMilli t = t div millisecond"

text \<open>\<open>Duration.Milliseconds\<close> truncates toward zero.\<close>

definition Milliseconds :: "int \<Rightarrow> int" where
  "Milliseconds d = sgn d * (\<bar>d\<bar> div millisecond)"

definition setting_of :: "(string \<times> string) list \<Rightarrow> string \<Rightarrow> string" where
  "setting_of kvs k = (case map_of kvs k of None \<Rightarrow> [] | Some v \<Rightarrow> v)"

section \<open>Default rules\<close>

definition zero_cond :: alertCondition where
  "zero_cond = \<lparr>CoType = [], CoThresholdMs = 0, CoMaxRetries = 0, CoRate = 0, CoCount = 0, CoPercentOver = 0\<rparr>"

definition slowDefaultJSON :: string where
  "slowDefaultJSON = ''{\"type\":\"slow_vs_average\",\"percentOver\":50}''"

definition oldSlowDefaultJSON :: string where
  "oldSlowDefaultJSON = ''{\"type\":\"duration_exceeded\",\"thresholdMs\":30000}''"

definition slow_default :: alertCondition where
  "slow_default = zero_cond\<lparr>CoType := ''slow_vs_average'', CoPercentOver := 50\<rparr>"

definition defaultRules :: "AlertRule list" where
  "defaultRules =
     [\<lparr>ArId = ''rule-failure'', ArName = ''Workflow Failure'', ArEnabled = True, ArPattern = ''*'',
       ArText = ''{\"type\":\"failure\"}'', ArCond = Some (zero_cond\<lparr>CoType := ''failure''\<rparr>),
       ArSeverity = ''critical'', ArChannels = ''toast'', ArCooldownMs = 0\<rparr>,
      \<lparr>ArId = ''rule-slow'', ArName = ''Slow Execution'', ArEnabled = True, ArPattern = ''*'',
       ArText = slowDefaultJSON, ArCond = Some slow_default,
       ArSeverity = ''warning'', ArChannels = ''toast'', ArCooldownMs = 300000\<rparr>,
      \<lparr>ArId = ''rule-retries'', ArName = ''Excessive Retries'', ArEnabled = True, ArPattern = ''*'',
       ArText = ''{\"type\":\"retry_exceeded\",\"maxRetries\":3}'',
       ArCond = Some (zero_cond\<lparr>CoType := ''retry_exceeded'', CoMaxRetries := 3\<rparr>),
       ArSeverity = ''warning'', ArChannels = ''toast'', ArCooldownMs = 120000\<rparr>]"

text \<open>Statements on the rule table succeed.\<close>

definition SeedDefaults :: "AlertEngine \<Rightarrow> AlertEngine" where
  "SeedDefaults st =
     (let migrated = update_where (\<lambda>r. ArId r = ''rule-slow'' \<and> ArText r = oldSlowDefaultJSON)
            (\<lambda>r. r\<lparr>ArText := slowDefaultJSON, ArCond := Some slow_default\<rparr>) (AlRules st)
      in if migrated \<noteq> [] then st\<lparr>AlRules := migrated\<rparr> else st\<lparr>AlRules := defaultRules\<rparr>)"

definition ListRules :: "AlertEngine \<Rightarrow> AlertRule list" where
  "ListRules st = sort_key ArId (AlRules st)"

section \<open>Conditions\<close>

definition matchesWorkflow :: "string \<Rightarrow> string \<Rightarrow> bool" where
  "matchesWorkflow pattern flow \<longleftrightarrow> pattern = ''*'' \<or> pattern = flow"

definition evalCondition :: "alertCondition \<Rightarrow> AlertContext \<Rightarrow> bool" where
  "evalCondition c ctx =
     (if CoType c = ''failure'' then CxStatus ctx = ''NOTOK''
      else if CoType c = ''duration_exceeded'' then CxDurationMs ctx > CoThresholdMs c
      else if CoType c = ''slow_vs_average'' then
        (if CxSlowFired ctx \<or> CxHistory ctx \<le> 0 \<or> CxAvgMs ctx \<le> 0 then False
         else let pct = (if CoPercentOver c \<le> 0 then 50 else CoPercentOver c)
              in of_int (CxDurationMs ctx) > of_int (CxAvgMs ctx) * (1 + pct / 100))
      else if CoType c = ''retry_exceeded'' then CxMaxRetries ctx > CoMaxRetries c
      else if CoType c = ''success_rate_below'' then CxSuccessRate ctx < CoRate c
      else if CoType c = ''consecutive_failures'' then CxConsecutive ctx \<ge> CoCount c
      else False)"

section \<open>Cooldown\<close>

definition cooldownKey :: "string \<Rightarrow> string \<Rightarrow> string" where
  "cooldownKey rule flow = rule @ [CHR 0x00] @ flow"

definition onCooldown :: "int \<Rightarrow> string \<Rightarrow> int \<Rightarrow> AlertEngine \<Rightarrow> bool" where
  "onCooldown now k ms st =
     (if ms \<le> 0 then False
      else case AlCool st k of None \<Rightarrow> False | Some t \<Rightarrow> now - t < ms * millisecond)"

definition setCooldown :: "int \<Rightarrow> string \<Rightarrow> AlertEngine \<Rightarrow> AlertEngine" where
  "setCooldown now k st = st\<lparr>AlCool := (AlCool st)(k \<mapsto> now)\<rparr>"

section \<open>Sinks\<close>

definition parseChannelSet :: "string \<Rightarrow> string list" where
  "parseChannelSet csv = filter (\<lambda>t. t \<noteq> []) (map (\<lambda>c. TrimSpace (ToLower c)) (split_on (CHR '','') csv))"

definition external_channels :: "string list" where
  "external_channels = [''slack'', ''webhook'', ''email'', ''pagerduty'']"

definition channelWanted :: "string \<Rightarrow> string \<Rightarrow> bool" where
  "channelWanted csv ch =
     (let s = parseChannelSet csv; external = list_ex (\<lambda>x. x \<in> set s) external_channels
      in \<not> external \<or> ch \<in> set s)"

definition hasExternalSink :: "(string \<times> string) list \<Rightarrow> bool" where
  "hasExternalSink kvs \<longleftrightarrow>
     setting_of kvs ''alert_slack_webhook'' \<noteq> [] \<or> setting_of kvs ''alert_webhook_url'' \<noteq> [] \<or>
     setting_of kvs ''alert_smtp_host'' \<noteq> [] \<or> setting_of kvs ''alert_pagerduty_routing_key'' \<noteq> []"

text \<open>Whether a sink sends at all; mail needs a host and at least one recipient.\<close>

definition mail_recipients :: "(string \<times> string) list \<Rightarrow> string list" where
  "mail_recipients kvs =
     filter (\<lambda>t. t \<noteq> []) (map TrimSpace (split_on (CHR '','') (setting_of kvs ''alert_smtp_to'')))"

definition sink_ready :: "(string \<times> string) list \<Rightarrow> string \<Rightarrow> bool" where
  "sink_ready kvs ch =
     (if ch = ''slack'' then setting_of kvs ''alert_slack_webhook'' \<noteq> []
      else if ch = ''webhook'' then setting_of kvs ''alert_webhook_url'' \<noteq> []
      else if ch = ''email'' then setting_of kvs ''alert_smtp_host'' \<noteq> [] \<and> mail_recipients kvs \<noteq> []
      else setting_of kvs ''alert_pagerduty_routing_key'' \<noteq> [])"

definition route :: "AlertRule \<Rightarrow> AlertContext \<Rightarrow> AlertEngine \<Rightarrow> AlertEngine" where
  "route r ctx st =
     st\<lparr>AlSent := AlSent st @ map (\<lambda>ch. (ch, ArId r, CxWorkflow ctx))
        (filter (\<lambda>ch. channelWanted (ArChannels r) ch \<and> sink_ready (AlSettings st) ch) external_channels)\<rparr>"

definition route_if_any :: "AlertRule \<Rightarrow> AlertContext \<Rightarrow> AlertEngine \<Rightarrow> AlertEngine" where
  "route_if_any r ctx st = (if hasExternalSink (AlSettings st) then route r ctx st else st)"

section \<open>Firing\<close>

definition insert_alert ::
  "int \<Rightarrow> string \<Rightarrow> string \<Rightarrow> string \<Rightarrow> string \<Rightarrow> string \<Rightarrow> AlertEngine \<Rightarrow> AlertEngine" where
  "insert_alert now rule name sev flow wfname st =
     st\<lparr>AlEvents := AlEvents st @ [\<lparr>AeId = AlNext st, AeRule = rule, AeRuleName = name, AeSeverity = sev,
          AeWorkflow = flow, AeWorkflowName = wfname, AeAck = False, AeTs = UnixMilli now, AeResolution = []\<rparr>],
        AlNext := AlNext st + 1\<rparr>"

text \<open>\<open>ok\<close>: the insert into \<open>alert_events\<close> succeeds; when it does not, nothing else happens.\<close>

definition fire :: "bool \<Rightarrow> int \<Rightarrow> AlertRule \<Rightarrow> AlertContext \<Rightarrow> AlertEngine \<Rightarrow> AlertEngine" where
  "fire ok now r ctx st =
     (if \<not> ok then st
      else route_if_any r ctx (setCooldown now (cooldownKey (ArId r) (CxWorkflow ctx))
             (insert_alert now (ArId r) (ArName r) (ArSeverity r) (CxWorkflow ctx) (CxName ctx) st)))"

definition rule_fires :: "int \<Rightarrow> AlertRule \<Rightarrow> AlertContext \<Rightarrow> AlertEngine \<Rightarrow> bool" where
  "rule_fires now r ctx st \<longleftrightarrow>
     matchesWorkflow (ArPattern r) (CxWorkflow ctx) \<and>
     \<not> onCooldown now (cooldownKey (ArId r) (CxWorkflow ctx)) (ArCooldownMs r) st \<and>
     (case ArCond r of None \<Rightarrow> False | Some c \<Rightarrow> evalCondition c ctx)"

definition evaluate_rule :: "(string \<Rightarrow> bool) \<Rightarrow> int \<Rightarrow> AlertContext \<Rightarrow> AlertRule \<Rightarrow> AlertEngine \<Rightarrow> AlertEngine" where
  "evaluate_rule ok now ctx r st =
     (if ArEnabled r \<and> rule_fires now r ctx st then fire (ok (ArId r)) now r ctx st else st)"

definition Evaluate :: "(string \<Rightarrow> bool) \<Rightarrow> int \<Rightarrow> AlertContext \<Rightarrow> AlertEngine \<Rightarrow> AlertEngine" where
  "Evaluate ok now ctx st = fold (evaluate_rule ok now ctx) (ListRules st) st"

definition SlowRules :: "AlertEngine \<Rightarrow> AlertRule list" where
  "SlowRules st =
     filter (\<lambda>r. ArEnabled r \<and> (case ArCond r of None \<Rightarrow> False | Some c \<Rightarrow> CoType c = ''slow_vs_average''))
       (ListRules st)"

definition slow_rule :: "(string \<Rightarrow> bool) \<Rightarrow> int \<Rightarrow> AlertContext \<Rightarrow> AlertRule \<Rightarrow> bool \<times> AlertEngine \<Rightarrow> bool \<times> AlertEngine" where
  "slow_rule ok now ctx r p =
     (if rule_fires now r ctx (snd p) then (True, fire (ok (ArId r)) now r ctx (snd p)) else p)"

definition FireSlowRules ::
  "(string \<Rightarrow> bool) \<Rightarrow> int \<Rightarrow> AlertRule list \<Rightarrow> AlertContext \<Rightarrow> AlertEngine \<Rightarrow> bool \<times> AlertEngine" where
  "FireSlowRules ok now rules ctx st = fold (slow_rule ok now ctx) rules (False, st)"

definition zero_context :: AlertContext where
  "zero_context = \<lparr>CxWorkflow = [], CxName = [], CxInst = [], CxStatus = [], CxDurationMs = 0, CxMaxRetries = 0,
     CxSuccessRate = 0, CxConsecutive = 0, CxAvgMs = 0, CxHistory = 0, CxRunning = False, CxSlowFired = False\<rparr>"

definition plain_rule :: "string \<Rightarrow> string \<Rightarrow> string \<Rightarrow> string \<Rightarrow> AlertRule" where
  "plain_rule rid name sev channels =
     \<lparr>ArId = rid, ArName = name, ArEnabled = False, ArPattern = [], ArText = [], ArCond = None,
      ArSeverity = sev, ArChannels = channels, ArCooldownMs = 0\<rparr>"

definition FireSystem :: "bool \<Rightarrow> int \<Rightarrow> string \<Rightarrow> string \<Rightarrow> string \<Rightarrow> int \<Rightarrow> AlertEngine \<Rightarrow> AlertEngine" where
  "FireSystem ok now key name sev ms st =
     (if onCooldown now (''sys:'' @ key) ms st \<or> \<not> ok then st
      else route_if_any (plain_rule ''rule-control-plane'' name sev [])
             (zero_context\<lparr>CxWorkflow := ''control-plane'', CxName := ''Control Plane''\<rparr>)
             (setCooldown now (''sys:'' @ key)
               (insert_alert now ''rule-control-plane'' name sev ''control-plane'' ''Control Plane'' st)))"

definition FireAction ::
  "bool \<Rightarrow> int \<Rightarrow> string \<Rightarrow> string \<Rightarrow> string \<Rightarrow> string \<Rightarrow> string list \<Rightarrow> AlertEngine \<Rightarrow> AlertEngine" where
  "FireAction ok now flow wfname name sev0 channels st =
     (let sev = (if sev0 = [] then ''warning'' else sev0) in
      if \<not> ok then st
      else route_if_any (plain_rule ''rule-action'' name sev (join_with '','' channels))
             (zero_context\<lparr>CxWorkflow := flow, CxName := wfname\<rparr>)
             (insert_alert now ''rule-action'' name sev flow wfname st))"

section \<open>The life of an alert\<close>

text \<open>The newest events first; ids are drawn in the order of insertion.\<close>

definition ListEvents :: "int \<Rightarrow> AlertEngine \<Rightarrow> AlertEventRow list" where
  "ListEvents limit st =
     take (nat (if limit \<le> 0 \<or> limit > 500 then 200 else limit)) (sort_key (\<lambda>v. - AeTs v) (AlEvents st))"

definition UnacknowledgedCount :: "AlertEngine \<Rightarrow> nat" where
  "UnacknowledgedCount st = count_where (\<lambda>v. \<not> AeAck v) (AlEvents st)"

definition ack_row :: "AlertEventRow \<Rightarrow> AlertEventRow" where
  "ack_row v = v\<lparr>AeAck := True, AeResolution := (if AeResolution v = [] then ''ack'' else AeResolution v)\<rparr>"

definition Acknowledge :: "int \<Rightarrow> AlertEngine \<Rightarrow> AlertEngine" where
  "Acknowledge k st = st\<lparr>AlEvents := update_where (\<lambda>v. AeId v = k) ack_row (AlEvents st)\<rparr>"

definition AcknowledgeAll :: "AlertEngine \<Rightarrow> AlertEngine" where
  "AcknowledgeAll st = st\<lparr>AlEvents := update_where (\<lambda>v. \<not> AeAck v) ack_row (AlEvents st)\<rparr>"

definition MarkHandledByWorkflow :: "string \<Rightarrow> string \<Rightarrow> AlertEngine \<Rightarrow> nat \<times> AlertEngine" where
  "MarkHandledByWorkflow flow resolution st =
     (let p = (\<lambda>v. AeWorkflow v = flow \<and> AeResolution v = []) in
      (count_where p (AlEvents st),
       st\<lparr>AlEvents := update_where p (\<lambda>v. v\<lparr>AeAck := True, AeResolution := resolution\<rparr>) (AlEvents st)\<rparr>))"

section \<open>Changing rules\<close>

definition upd_rule :: "string \<Rightarrow> (AlertRule \<Rightarrow> AlertRule) \<Rightarrow> AlertEngine \<Rightarrow> AlertEngine" where
  "upd_rule k f st = st\<lparr>AlRules := update_where (\<lambda>r. ArId r = k) f (AlRules st)\<rparr>"

definition ToggleRule :: "string \<Rightarrow> AlertEngine \<Rightarrow> AlertEngine option" where
  "ToggleRule k st =
     (case row_of ArId k (AlRules st) of
        None \<Rightarrow> None
      | Some r \<Rightarrow> Some (upd_rule k (\<lambda>x. x\<lparr>ArEnabled := \<not> ArEnabled r\<rparr>) st))"

definition validChannels :: "string list" where
  "validChannels = [''toast'', ''slack'', ''webhook'', ''email'', ''pagerduty'']"

fun clean_channels :: "string list \<Rightarrow> string list \<Rightarrow> string list" where
  "clean_channels acc [] = acc"
| "clean_channels acc (c # cs) =
     (let t = ToLower (TrimSpace c) in
      if t = [] \<or> t \<notin> set validChannels \<or> t \<in> set acc then clean_channels acc cs
      else clean_channels (acc @ [t]) cs)"

definition UpdateRuleChannels :: "string \<Rightarrow> string list \<Rightarrow> AlertEngine \<Rightarrow> AlertEngine" where
  "UpdateRuleChannels k channels st =
     upd_rule k (\<lambda>r. r\<lparr>ArChannels := join_with '','' (clean_channels [''toast''] channels)\<rparr>) st"

definition UpdateRuleCooldown :: "string \<Rightarrow> int \<Rightarrow> AlertEngine \<Rightarrow> AlertEngine" where
  "UpdateRuleCooldown k ms st = upd_rule k (\<lambda>r. r\<lparr>ArCooldownMs := (if ms < 0 then 0 else ms)\<rparr>) st"

section \<open>Contexts\<close>

definition slowAvgWindow :: nat where "slowAvgWindow = 30"

text \<open>The average of the last finished runs of a definition, and how many there were.\<close>

definition avgOKDurationMs :: "Instance list \<Rightarrow> string \<Rightarrow> string \<Rightarrow> int \<times> int" where
  "avgOKDurationMs rows defID excludeID =
     (let past = filter (\<lambda>i. IDefID i = defID \<and> IId i \<noteq> excludeID \<and> IStatus i = StatusOK \<and>
                   IStartedAt i \<noteq> None \<and> IFinishedAt i \<noteq> None) rows;
          recent = take slowAvgWindow (sort_key (\<lambda>i. - the (IFinishedAt i)) past);
          ds = filter (\<lambda>d. d \<ge> 0) (map (\<lambda>i. Milliseconds (the (IFinishedAt i) - the (IStartedAt i))) recent)
      in if ds = [] then (0, 0) else (sum_list ds div int (length ds), int (length ds)))"

text \<open>
  \<open>slow\<close>: the runs that have alerted while running; the context of a finished run consumes its mark.
  An instance that is not found leaves the zero values.
\<close>

definition buildAlertContext ::
  "Instance list \<Rightarrow> string \<Rightarrow> InstanceStatus \<Rightarrow> (string \<Rightarrow> bool) \<Rightarrow> AlertContext \<times> (string \<Rightarrow> bool)" where
  "buildAlertContext rows k st slow =
     (let row = row_of IId k rows;
          defID = (case row of None \<Rightarrow> [] | Some i \<Rightarrow> IDefID i);
          attempts = (case row of None \<Rightarrow> 0 | Some i \<Rightarrow> IAttempts i);
          dur = (case row of None \<Rightarrow> 0 | Some i \<Rightarrow>
                   (case (IStartedAt i, IFinishedAt i) of
                      (Some a, Some b) \<Rightarrow> Milliseconds (b - a) | _ \<Rightarrow> 0));
          label = (case row of None \<Rightarrow> defID | Some i \<Rightarrow>
                     (case ISnapshot i of Frozen d \<Rightarrow> if Label d \<noteq> [] then Label d else defID | _ \<Rightarrow> defID));
          hist = map IStatus (sort_key (\<lambda>i. the (IFinishedAt i)) (filter (\<lambda>i. IDefID i = defID \<and>
                   (IStatus i = StatusOK \<or> IStatus i = StatusNotOK) \<and> IFinishedAt i \<noteq> None) rows));
          window = drop (length hist - 10) hist;
          rate = (if window = [] then 1
                  else of_nat (length (filter (\<lambda>s. s = StatusOK) window)) / of_nat (length window));
          avg = avgOKDurationMs rows defID k
      in (\<lparr>CxWorkflow = defID, CxName = label, CxInst = k, CxStatus = status_string st, CxDurationMs = dur,
           CxMaxRetries = (if attempts - 1 < 0 then 0 else attempts - 1), CxSuccessRate = rate,
           CxConsecutive = int (length (takeWhile (\<lambda>s. s = StatusNotOK) (rev hist))),
           CxAvgMs = fst avg, CxHistory = snd avg, CxRunning = False, CxSlowFired = slow k\<rparr>,
          slow(k := False)))"

section \<open>The scan of running instances\<close>

record SlowState =
  SlEngine :: AlertEngine
  SlFired :: "string \<Rightarrow> bool"
  SlAvg :: "string \<Rightarrow> (int \<times> int \<times> int) option"

definition slowAvgTTL :: int where "slowAvgTTL = 60 * second"

definition cachedAvg :: "int \<Rightarrow> Instance list \<Rightarrow> string \<Rightarrow> SlowState \<Rightarrow> (int \<times> int) \<times> SlowState" where
  "cachedAvg wall rows defID s =
     (let fresh = (case SlAvg s defID of Some (a, n, t) \<Rightarrow> wall - t < slowAvgTTL | None \<Rightarrow> False) in
      if fresh then (case SlAvg s defID of Some (a, n, t) \<Rightarrow> ((a, n), s) | None \<Rightarrow> ((0, 0), s))
      else let (a, n) = avgOKDurationMs rows defID [] in
        ((a, n), s\<lparr>SlAvg := (SlAvg s)(defID \<mapsto> (a, n, wall))\<rparr>))"

definition min_percent :: "AlertRule list \<Rightarrow> rat" where
  "min_percent rules =
     (let ps = concat (map (\<lambda>r. case ArCond r of None \<Rightarrow> []
                   | Some c \<Rightarrow> [if CoPercentOver c \<le> 0 then 50 else CoPercentOver c]) rules);
          m = fold (\<lambda>p acc. if acc < 0 \<or> p < acc then p else acc) ps (- 1)
      in if m < 0 then 50 else m)"

text \<open>One running row: the cache as it stands, and the candidate if the run is over its average.\<close>

definition slow_candidate ::
  "int \<Rightarrow> int \<Rightarrow> rat \<Rightarrow> Instance list \<Rightarrow> Instance \<Rightarrow> (string \<times> int \<times> int \<times> int) list \<times> SlowState \<Rightarrow>
   (string \<times> int \<times> int \<times> int) list \<times> SlowState" where
  "slow_candidate now wall pct rows i acc =
     (let (cs, s) = acc in
      if SlFired s (IId i) then (cs, s)
      else let ((avg, runs), s') = cachedAvg wall rows (IDefID i) s;
               elapsed = Milliseconds (now - the (IStartedAt i))
           in if runs = 0 \<or> avg \<le> 0 then (cs, s')
              else if (of_int elapsed :: rat) \<le> of_int avg * (1 + pct / 100) then (cs, s')
              else (cs @ [(IId i, elapsed, avg, runs)], s'))"

definition fire_candidate ::
  "(string \<Rightarrow> bool) \<Rightarrow> int \<Rightarrow> AlertRule list \<Rightarrow> Instance list \<Rightarrow> string \<times> int \<times> int \<times> int \<Rightarrow> SlowState \<Rightarrow> SlowState" where
  "fire_candidate ok wall rules rows c s =
     (let (k, elapsed, avg, runs) = c;
          (ctx0, slow) = buildAlertContext rows k StatusRunning (SlFired s);
          ctx = ctx0\<lparr>CxRunning := True, CxDurationMs := elapsed, CxAvgMs := avg, CxHistory := runs, CxSlowFired := False\<rparr>;
          (fired, e) = FireSlowRules ok wall rules ctx (SlEngine s)
      in s\<lparr>SlEngine := e, SlFired := (if fired then slow(k := True) else slow)\<rparr>)"

definition evaluateSlowRunning ::
  "(string \<Rightarrow> bool) \<Rightarrow> int \<Rightarrow> int \<Rightarrow> Instance list \<Rightarrow> SlowState \<Rightarrow> SlowState" where
  "evaluateSlowRunning ok now wall rows s =
     (let rules = SlowRules (SlEngine s) in
      if rules = [] then s
      else let running = filter (\<lambda>i. IStatus i = StatusRunning \<and> IStartedAt i \<noteq> None) rows;
               (cs, s1) = fold (slow_candidate now wall (min_percent rules) rows) running ([], s);
               s2 = s1\<lparr>SlFired := (\<lambda>k. SlFired s1 k \<and> k \<in> IId ` set running)\<rparr>
           in fold (fire_candidate ok wall rules rows) cs s2)"

section \<open>The self-monitor\<close>

record cpReading =
  CpTickAge :: int
  CpDbErr :: bool
  CpLeader :: bool
  CpAgents :: int

record cpState =
  CpPrevLeader :: "bool option"
  CpFlips :: "int list"
  CpPrevAgents :: "int option"

datatype sysAlert = TickStalled | DbUnreachable | LeaderFlapping nat | AgentsDrop int int

definition eval_cp :: "int \<Rightarrow> cpReading \<Rightarrow> int \<Rightarrow> int \<Rightarrow> int \<Rightarrow> cpState \<Rightarrow> sysAlert list \<times> cpState" where
  "eval_cp now r tickStale flapWindow flapMax st =
     (let a1 = (if CpTickAge r \<ge> 0 \<and> CpTickAge r > tickStale then [TickStalled] else []);
          a2 = (if CpDbErr r then [DbUnreachable] else []);
          flipped = (case CpPrevLeader st of Some p \<Rightarrow> CpLeader r \<noteq> p | None \<Rightarrow> False);
          flips = filter (\<lambda>t. t > now - flapWindow) (if flipped then CpFlips st @ [now] else CpFlips st);
          a3 = (if int (length flips) > flapMax then [LeaderFlapping (length flips)] else []);
          a4 = (case CpPrevAgents st of
                  Some p \<Rightarrow> if CpAgents r < p then [AgentsDrop p (CpAgents r)] else [] | None \<Rightarrow> [])
      in (a1 @ a2 @ a3 @ a4,
          \<lparr>CpPrevLeader = Some (CpLeader r), CpFlips = flips, CpPrevAgents = Some (CpAgents r)\<rparr>))"

fun cp_signal :: "sysAlert \<Rightarrow> string \<times> string \<times> string" where
  "cp_signal TickStalled = (''tick-stalled'', ''Scheduler tick stalled'', ''critical'')"
| "cp_signal DbUnreachable = (''db-unreachable'', ''DB unreachable'', ''critical'')"
| "cp_signal (LeaderFlapping n) = (''leader-flapping'', ''Leader flapping'', ''critical'')"
| "cp_signal (AgentsDrop p n) = (''agents-drop'', ''Agent fleet shrank'', ''warning'')"

text \<open>One sweep: only the leader publishes.  \<open>last_tick\<close> is \<^const>\<open>None\<close> before the first tick.\<close>

definition cp_publish :: "(string \<Rightarrow> bool) \<Rightarrow> int \<Rightarrow> sysAlert \<Rightarrow> AlertEngine \<Rightarrow> AlertEngine" where
  "cp_publish ok wall a st =
     (let (key, name, sev) = cp_signal a in FireSystem (ok key) wall key name sev 300000 st)"

definition runOnce ::
  "(string \<Rightarrow> bool) \<Rightarrow> int \<Rightarrow> int \<Rightarrow> int option \<Rightarrow> bool \<Rightarrow> bool \<Rightarrow> int \<Rightarrow> int \<Rightarrow> cpState \<times> AlertEngine \<Rightarrow> cpState \<times> AlertEngine" where
  "runOnce ok now wall last_tick leader dbErr agents tickStale p =
     (let r = \<lparr>CpTickAge = (case last_tick of None \<Rightarrow> - 1 | Some t \<Rightarrow> now - t), CpDbErr = dbErr,
               CpLeader = leader, CpAgents = agents\<rparr>;
          (alerts, st) = eval_cp now r tickStale (300 * second) 5 (fst p)
      in (st, if leader then fold (cp_publish ok wall) alerts (snd p) else snd p))"

end
