(* ===== verification/AlertingCorrect.thy ===== *)
theory AlertingCorrect
  imports Alerting Lifecycle QuickAction
begin

text \<open>
  The properties of alerting: alerts of a rule about a workflow keep the rule's cooldown apart, the
  resolution of an alert is written once, the channels of a rule have a normal form, and the monitor's
  count of leadership changes is the count over its window.
\<close>

section \<open>Steps\<close>

text \<open>
  Whatever the server does with alerts, in any order, at instants that do not decrease: the scan of
  running instances, the evaluation of a finished one, system and action alerts, and the operator.
\<close>

inductive alert_step :: "int \<times> SlowState \<Rightarrow> int \<times> SlowState \<Rightarrow> bool" where
  scan: "t \<le> now \<Longrightarrow> alert_step (t, s) (now, evaluateSlowRunning ok clock now rows s)"
| finished: "t \<le> now \<Longrightarrow> buildAlertContext rows k st (SlFired s) = (ctx, slow) \<Longrightarrow>
    alert_step (t, s) (now, s\<lparr>SlFired := slow, SlEngine := Evaluate ok now ctx (SlEngine s)\<rparr>)"
| system: "t \<le> now \<Longrightarrow> alert_step (t, s) (now, s\<lparr>SlEngine := FireSystem yes now key name sev pause (SlEngine s)\<rparr>)"
| action: "t \<le> now \<Longrightarrow> alert_step (t, s) (now, s\<lparr>SlEngine := FireAction yes now flow label name sev channels (SlEngine s)\<rparr>)"
| seen: "alert_step (t, s) (t, s\<lparr>SlEngine := Acknowledge k (SlEngine s)\<rparr>)"
| all: "alert_step (t, s) (t, s\<lparr>SlEngine := AcknowledgeAll (SlEngine s)\<rparr>)"
| handled: "alert_step (t, s) (t, s\<lparr>SlEngine := snd (MarkHandledByWorkflow flow resolution (SlEngine s))\<rparr>)"
| toggle: "ToggleRule k (SlEngine s) = Some e \<Longrightarrow> alert_step (t, s) (t, s\<lparr>SlEngine := e\<rparr>)"
| channels: "alert_step (t, s) (t, s\<lparr>SlEngine := UpdateRuleChannels k cs (SlEngine s)\<rparr>)"
| cooldown: "alert_step (t, s) (t, s\<lparr>SlEngine := UpdateRuleCooldown k pause (SlEngine s)\<rparr>)"

section \<open>What firing writes\<close>

lemma route_frame [simp]: "AlEvents (route_if_any r ctx st) = AlEvents st" "AlCool (route_if_any r ctx st) = AlCool st"
  "AlRules (route_if_any r ctx st) = AlRules st"
  by (simp_all add: route_if_any_def route_def)



section \<open>The cooldown\<close>










section \<open>The engine's rules under the steps\<close>


lemma candidate_fires:
  "\<exists>ctx. SlEngine (fire_candidate ok now rules rows c s) = snd (fold (slow_rule ok now ctx) rules (False, SlEngine s))"
proof -
  obtain k elapsed avg runs where c: "c = (k, elapsed, avg, runs)" by (cases c)
  obtain ctx0 slow where b: "buildAlertContext rows k StatusRunning (SlFired s) = (ctx0, slow)"
    by (cases "buildAlertContext rows k StatusRunning (SlFired s)")
  define ctx where "ctx = ctx0\<lparr>CxRunning := True, CxDurationMs := elapsed, CxAvgMs := avg, CxHistory := runs, CxSlowFired := False\<rparr>"
  have "SlEngine (fire_candidate ok now rules rows c s) = snd (fold (slow_rule ok now ctx) rules (False, SlEngine s))"
    by (simp add: fire_candidate_def FireSlowRules_def c b ctx_def split: prod.split)
  then show ?thesis by blast
qed


lemma candidate_engine: "SlEngine (snd (fold (slow_candidate clock now pct rows) xs acc)) = SlEngine (snd acc)"
proof (induction xs arbitrary: acc)
  case Nil
  then show ?case by simp
next
  case (Cons x xs)
  have "SlEngine (snd (slow_candidate clock now pct rows x acc)) = SlEngine (snd acc)"
    by (auto simp: slow_candidate_def cachedAvg_def Let_def split: prod.splits if_splits option.splits)
  then show ?case using Cons by simp
qed


text \<open>The scan fires candidates with the slow rules it read at the start.\<close>

lemma scan_fires:
  obtains cs s1 where "SlEngine (evaluateSlowRunning ok clock now rows s) =
      SlEngine (fold (fire_candidate ok now (SlowRules (SlEngine s)) rows) cs s1)" "SlEngine s1 = SlEngine s"
proof (cases "SlowRules (SlEngine s) = []")
  case True
  then show ?thesis using that [of "[]" s] by (simp add: evaluateSlowRunning_def)
next
  case False
  define rules where "rules = SlowRules (SlEngine s)"
  define running where "running = filter (\<lambda>i. IStatus i = StatusRunning \<and> IStartedAt i \<noteq> None) rows"
  obtain cs s1 where f: "fold (slow_candidate clock now (min_percent rules) rows) running ([], s) = (cs, s1)"
    by (cases "fold (slow_candidate clock now (min_percent rules) rows) running ([], s)")
  have e: "SlEngine s1 = SlEngine s" using candidate_engine [of clock now "min_percent rules" rows running "([], s)"] f by simp
  have "evaluateSlowRunning ok clock now rows s =
      fold (fire_candidate ok now rules rows) cs (s1\<lparr>SlFired := (\<lambda>k. SlFired s1 k \<and> k \<in> IId ` set running)\<rparr>)"
    using False unfolding evaluateSlowRunning_def Let_def rules_def [symmetric] running_def [symmetric] f prod.case by simp
  then show ?thesis using that [of cs "s1\<lparr>SlFired := (\<lambda>k. SlFired s1 k \<and> k \<in> IId ` set running)\<rparr>"] e by (simp add: rules_def)
qed



section \<open>The life of an alert\<close>

definition alert_of :: "int \<times> SlowState \<Rightarrow> int \<Rightarrow> AlertEventRow option" where
  "alert_of x k = row_of AeId k (AlEvents (SlEngine (snd x)))"

text \<open>An alert keeps what it says; it is acknowledged for good and resolved once.\<close>

definition alert_move :: "AlertEventRow \<Rightarrow> AlertEventRow \<Rightarrow> bool" where
  "alert_move v w \<longleftrightarrow> AeAck w \<and> (AeResolution v \<noteq> [] \<longrightarrow> AeResolution w = AeResolution v) \<and>
     w = v\<lparr>AeAck := AeAck w, AeResolution := AeResolution w\<rparr>"

definition resolved_alert :: "AlertEventRow \<Rightarrow> bool" where
  "resolved_alert v \<longleftrightarrow> AeAck v \<and> AeResolution v \<noteq> []"

text \<open>What a step does to the list of alerts: alerts are added, or rows are marked.\<close>

inductive alert_write :: "AlertEventRow list \<Rightarrow> AlertEventRow list \<Rightarrow> bool" where
  add: "alert_write vs (vs @ ws)"
| mark: "(\<And>v. f v = v \<or> \<not> resolved_alert v \<and> alert_move v (f v)) \<Longrightarrow> alert_write vs (map f vs)"

definition added :: "AlertEngine \<Rightarrow> AlertEngine \<Rightarrow> bool" where
  "added st st' \<longleftrightarrow> (\<exists>ws. AlEvents st' = AlEvents st @ ws)"

lemma added_refl [simp]: "added st st" and added_trans: "added a b \<Longrightarrow> added b c \<Longrightarrow> added a c"
  by (auto simp: added_def)

lemma fire_added: "added st (fire ok now r ctx st)"
  by (cases ok) (auto simp: added_def fire_def setCooldown_def insert_alert_def)

lemma rules_added: "added st (fold (evaluate_rule ok now ctx) rs st)"
  by (induction rs arbitrary: st) (auto simp: evaluate_rule_def intro: fire_added added_trans)

lemma slow_rules_added: "added (snd p) (snd (fold (slow_rule ok now ctx) rs p))"
proof (induction rs arbitrary: p)
  case Nil
  then show ?case by simp
next
  case (Cons r rs)
  have "added (snd p) (snd (slow_rule ok now ctx r p))" by (simp add: slow_rule_def fire_added)
  then show ?case using Cons added_trans by fastforce
qed

lemma candidates_added: "added (SlEngine s) (SlEngine (fold (fire_candidate ok now rules rows) cs s))"
proof (induction cs arbitrary: s)
  case Nil
  then show ?case by simp
next
  case (Cons c cs)
  obtain ctx where "SlEngine (fire_candidate ok now rules rows c s) = snd (fold (slow_rule ok now ctx) rules (False, SlEngine s))"
    using candidate_fires by blast
  then have "added (SlEngine s) (SlEngine (fire_candidate ok now rules rows c s))" using slow_rules_added by (metis snd_conv)
  then show ?case using Cons added_trans by fastforce
qed

lemma step_write: "alert_step x y \<Longrightarrow> alert_write (AlEvents (SlEngine (snd x))) (AlEvents (SlEngine (snd y)))"
proof (induction rule: alert_step.induct)
  case (scan t now s ok clock rows)
  obtain cs s1 where "SlEngine (evaluateSlowRunning ok clock now rows s) = SlEngine (fold (fire_candidate ok now (SlowRules (SlEngine s)) rows) cs s1)"
    "SlEngine s1 = SlEngine s" by (rule scan_fires)
  then have "added (SlEngine s) (SlEngine (evaluateSlowRunning ok clock now rows s))" using candidates_added by metis
  then show ?case by (auto simp: added_def intro: alert_write.add)
next
  case (finished t now rows k st s ctx slow ok)
  have "added (SlEngine s) (Evaluate ok now ctx (SlEngine s))" by (simp add: Evaluate_def rules_added)
  then show ?case by (auto simp: added_def intro: alert_write.add)
next
  case (system t now s yes key name sev pause)
  show ?case using alert_write.add [of _ "[]"]
    by (auto simp: FireSystem_def insert_alert_def setCooldown_def intro: alert_write.add)
next
  case (action t now s yes flow label name sev channels)
  show ?case using alert_write.add [of _ "[]"] by (auto simp: FireAction_def insert_alert_def Let_def intro: alert_write.add)
next
  case (seen t s k)
  have "alert_write (AlEvents (SlEngine s)) (map (\<lambda>v. if AeId v = k then ack_row v else v) (AlEvents (SlEngine s)))"
    by (rule alert_write.mark) (auto simp: resolved_alert_def alert_move_def ack_row_def)
  then show ?case by (simp add: Acknowledge_def update_where_def)
next
  case (all t s)
  have "alert_write (AlEvents (SlEngine s)) (map (\<lambda>v. if \<not> AeAck v then ack_row v else v) (AlEvents (SlEngine s)))"
    by (rule alert_write.mark) (auto simp: resolved_alert_def alert_move_def ack_row_def)
  then show ?case by (simp add: AcknowledgeAll_def update_where_def)
next
  case (handled t s flow resolution)
  have "alert_write (AlEvents (SlEngine s)) (map (\<lambda>v. if AeWorkflow v = flow \<and> AeResolution v = []
      then v\<lparr>AeAck := True, AeResolution := resolution\<rparr> else v) (AlEvents (SlEngine s)))"
    by (rule alert_write.mark) (auto simp: resolved_alert_def alert_move_def)
  then show ?case by (simp add: MarkHandledByWorkflow_def Let_def update_where_def)
next
  case (toggle k s e t)
  then have "AlEvents e = AlEvents (SlEngine s)" by (auto simp: ToggleRule_def upd_rule_def split: option.splits)
  then show ?case using alert_write.add [of _ "[]"] by simp
qed (use alert_write.add [of _ "[]"] in \<open>simp_all add: UpdateRuleChannels_def UpdateRuleCooldown_def upd_rule_def\<close>)

lemma write_row:
  assumes "alert_write vs ws" "row_of AeId k vs = Some v"
  shows "\<exists>w. row_of AeId k ws = Some w \<and> (w = v \<or> \<not> resolved_alert v \<and> alert_move v w)"
  using assms
proof (induction rule: alert_write.induct)
  case (add vs ws)
  then show ?case by (auto simp: row_of_append)
next
  case (mark f vs)
  have "AeId (f x) = AeId x" for x using mark(1) [of x] by (auto simp: alert_move_def) (metis AlertEventRow.select_convs(1) AlertEventRow.surjective AlertEventRow.update_convs(7) AlertEventRow.update_convs(9))
  then have "row_of AeId k (map f vs) = map_option f (row_of AeId k vs)" by (induction vs) (auto simp: row_of_Cons)
  then show ?case using mark by auto
qed

interpretation alerts: lifecycle "\<lambda>_. True" alert_step alert_of alert_move resolved_alert
  by unfold_locales (auto simp: alert_of_def dest: step_write write_row)

section \<open>Channels\<close>

lemma split_join: "cs \<noteq> [] \<Longrightarrow> (\<And>c. c \<in> set cs \<Longrightarrow> sep \<notin> set c) \<Longrightarrow> split_on sep (join_with [sep] cs) = cs"
proof (induction cs)
  case Nil
  then show ?case by simp
next
  case (Cons c cs)
  then show ?case by (cases cs) (simp_all add: split_on_absent split_on_append)
qed

lemma valid_channels: "list_all (\<lambda>c. TrimSpace (ToLower c) = c \<and> ToLower (TrimSpace c) = c \<and> c \<noteq> [] \<and> CHR '','' \<notin> set c) validChannels"
  by code_simp

lemma clean_result:
  "distinct acc \<Longrightarrow> distinct (clean_channels acc cs) \<and> (\<exists>ys. clean_channels acc cs = acc @ ys) \<and>
     set (clean_channels acc cs) = set acc \<union> ((\<lambda>c. ToLower (TrimSpace c)) ` set cs \<inter> set validChannels)"
proof (induction acc cs rule: clean_channels.induct)
  case (1 acc)
  then show ?case by simp
next
  case (2 acc c cs)
  let ?t = "ToLower (TrimSpace c)"
  have e: "[] \<notin> set validChannels" by (simp add: validChannels_def)
  show ?case
  proof (cases "?t = [] \<or> ?t \<notin> set validChannels \<or> ?t \<in> set acc")
    case True
    then have "clean_channels acc (c # cs) = clean_channels acc cs" by (simp add: Let_def)
    moreover note 2(1) [OF refl True 2(3)]
    ultimately show ?thesis using True e by auto
  next
    case False
    then have "clean_channels acc (c # cs) = clean_channels (acc @ [?t]) cs" by (auto simp: Let_def)
    moreover have "distinct (acc @ [?t])" using False 2(3) by simp
    moreover note 2(2) [OF refl False this]
    ultimately show ?thesis using False by auto
  qed
qed

lemma clean_clean:
  "distinct (acc @ ys) \<Longrightarrow> set ys \<subseteq> set validChannels \<Longrightarrow> clean_channels acc ys = acc @ ys"
proof (induction ys arbitrary: acc)
  case Nil
  then show ?case by simp
next
  case (Cons y ys)
  have "ToLower (TrimSpace y) = y" "y \<noteq> []" using valid_channels Cons.prems(2) by (auto simp: list_all_iff)
  then show ?case using Cons.IH [of "acc @ [y]"] Cons.prems by (simp add: Let_def)
qed

lemma clean_toast:
  obtains ys where "clean_channels [''toast''] cs = ''toast'' # ys" "distinct (''toast'' # ys)" "set (''toast'' # ys) \<subseteq> set validChannels"
proof -
  note r = clean_result [of "[''toast'']" cs, OF distinct_singleton]
  obtain ys where ys: "clean_channels [''toast''] cs = ''toast'' # ys" using r by auto
  have t: "''toast'' \<in> set validChannels" by (simp add: validChannels_def)
  have "set (''toast'' # ys) \<subseteq> set validChannels"
  proof
    fix c assume "c \<in> set (''toast'' # ys)"
    then have "c \<in> set [''toast''] \<union> ((\<lambda>c. ToLower (TrimSpace c)) ` set cs \<inter> set validChannels)" using r ys by metis
    then show "c \<in> set validChannels" using t by (elim UnE IntE) simp_all
  qed
  then show thesis using that ys conjunct1 [OF r] by simp
qed

lemma clean_normal: "clean_channels [''toast''] (clean_channels [''toast''] cs) = clean_channels [''toast''] cs"
proof -
  obtain ys where ys: "clean_channels [''toast''] cs = ''toast'' # ys" "distinct (''toast'' # ys)" "set (''toast'' # ys) \<subseteq> set validChannels"
    by (rule clean_toast)
  have "ToLower (TrimSpace ''toast'') = ''toast''" using valid_channels by (simp add: validChannels_def)
  then have "clean_channels [''toast''] (''toast'' # ys) = clean_channels [''toast''] ys" by (simp add: Let_def)
  then show ?thesis using clean_clean [of "[''toast'']" ys] ys by simp
qed

lemma parse_clean: "parseChannelSet (join_with '','' (clean_channels [''toast''] cs)) = clean_channels [''toast''] cs"
proof -
  let ?ns = "clean_channels [''toast''] cs"
  have v: "set ?ns \<subseteq> set validChannels" "?ns \<noteq> []" by (rule clean_toast [of cs], simp)+
  have g: "TrimSpace (ToLower c) = c \<and> c \<noteq> [] \<and> CHR '','' \<notin> set c" if "c \<in> set ?ns" for c
    using valid_channels v(1) that by (auto simp: list_all_iff)
  have "split_on (CHR '','') (join_with '','' ?ns) = ?ns" by (rule split_join) (use v(2) g in auto)
  moreover have "map (\<lambda>c. TrimSpace (ToLower c)) ?ns = ?ns" by (rule map_idI) (use g in simp)
  moreover have "filter (\<lambda>t. t \<noteq> []) ?ns = ?ns" by (rule filter_True) (use g in simp)
  ultimately show ?thesis by (simp add: parseChannelSet_def)
qed

lemma stored_channels:
  "r \<in> set (AlRules (UpdateRuleChannels k cs st)) \<Longrightarrow> ArId r = k \<Longrightarrow> ArChannels r = join_with '','' (clean_channels [''toast''] cs)"
proof -
  have g: "ArChannels r = x"
    if m: "r \<in> set (update_where (\<lambda>r. ArId r = k) (\<lambda>r. r\<lparr>ArChannels := x\<rparr>) rs)" and k: "ArId r = k" for x and rs :: "AlertRule list"
  proof -
    obtain a where a: "r = (if ArId a = k then a\<lparr>ArChannels := x\<rparr> else a)" using m unfolding set_update_where by blast
    then show ?thesis using k by (cases "ArId a = k") simp_all
  qed
  show "r \<in> set (AlRules (UpdateRuleChannels k cs st)) \<Longrightarrow> ArId r = k \<Longrightarrow> ArChannels r = join_with '','' (clean_channels [''toast''] cs)"
    by (rule g [where rs = "AlRules st"]) (simp_all add: UpdateRuleChannels_def upd_rule_def)
qed

section \<open>Leadership changes\<close>

text \<open>The instants at which a sequence of readings changes between leader and follower.\<close>

fun changes :: "bool option \<Rightarrow> (int \<times> cpReading) list \<Rightarrow> int list" where
  "changes prev [] = []"
| "changes prev ((t, r) # rs) = (if prev = None \<or> prev = Some (CpLeader r) then [] else [t]) @ changes (Some (CpLeader r)) rs"

text \<open>The sweeps of the monitor over the readings.\<close>

fun sweeps :: "int \<Rightarrow> int \<Rightarrow> int \<Rightarrow> (int \<times> cpReading) list \<Rightarrow> cpState \<Rightarrow> cpState" where
  "sweeps stale window most [] st = st"
| "sweeps stale window most ((t, r) # rs) st = sweeps stale window most rs (snd (eval_cp t r stale window most st))"

definition cp_start :: cpState where
  "cp_start = \<lparr>CpPrevLeader = None, CpFlips = [], CpPrevAgents = None\<rparr>"

lemma changes_snoc: "changes prev (rs @ [(t, r)]) = changes prev rs @
    (let p = (if rs = [] then prev else Some (CpLeader (snd (last rs)))) in if p = None \<or> p = Some (CpLeader r) then [] else [t])"
  by (induction prev rs rule: changes.induct) (auto simp: Let_def)

lemma sweeps_snoc: "sweeps stale window most (rs @ [(t, r)]) st = snd (eval_cp t r stale window most (sweeps stale window most rs st))"
  by (induction rs arbitrary: st) auto

lemma eval_state: "snd (eval_cp now r stale window most st) =
    \<lparr>CpPrevLeader = Some (CpLeader r),
     CpFlips = filter (\<lambda>t. t > now - window) (if (case CpPrevLeader st of Some p \<Rightarrow> CpLeader r \<noteq> p | None \<Rightarrow> False) then CpFlips st @ [now] else CpFlips st),
     CpPrevAgents = Some (CpAgents r)\<rparr>"
  by (simp add: eval_cp_def Let_def)

lemma sweeps_flips:
  assumes "sorted (map fst rs)"
  shows "CpPrevLeader (sweeps stale window most rs cp_start) = (if rs = [] then None else Some (CpLeader (snd (last rs)))) \<and>
    CpFlips (sweeps stale window most rs cp_start) =
      (if rs = [] then [] else filter (\<lambda>t. t > fst (last rs) - window) (changes None rs))"
  using assms
proof (induction rs rule: rev_induct)
  case Nil
  then show ?case by (simp add: cp_start_def)
next
  case (snoc x rs)
  obtain t r where x: "x = (t, r)" by (cases x)
  have s: "sorted (map fst rs)" "rs \<noteq> [] \<Longrightarrow> fst (last rs) \<le> t" using snoc.prems x by (auto simp: sorted_append)
  have old: "filter (\<lambda>u. u > t - window) (filter (\<lambda>u. u > fst (last rs) - window) us) = filter (\<lambda>u. u > t - window) us" if "rs \<noteq> []" for us
    using s(2) [OF that] by (auto intro!: filter_cong)
  note ih = snoc.IH [OF s(1)]
  show ?case
  proof (cases "rs = []")
    case True
    then show ?thesis using x by (simp add: cp_start_def eval_state)
  next
    case False
    then show ?thesis using ih x old [OF False]
      by (auto simp: sweeps_snoc eval_state changes_snoc Let_def)
  qed
qed

section \<open>A run\<close>

text \<open>The rule for failures with a cooldown of a minute; three failures of one workflow, and one is handled.\<close>

definition slow0 :: SlowState where
  "slow0 = \<lparr>SlEngine = \<lparr>AlRules = map (\<lambda>r. r\<lparr>ArCooldownMs := 60000\<rparr>) defaultRules, AlEvents = [], AlNext = 1, AlSettings = [],
     AlCool = Map.empty, AlSent = []\<rparr>, SlFired = (\<lambda>_. False), SlAvg = Map.empty\<rparr>"

definition failed_at :: "int \<Rightarrow> SlowState \<Rightarrow> SlowState" where
  "failed_at now s = s\<lparr>SlFired := snd (buildAlertContext [] ''I'' StatusNotOK (SlFired s)),
     SlEngine := Evaluate (\<lambda>_. True) now (fst (buildAlertContext [] ''I'' StatusNotOK (SlFired s))) (SlEngine s)\<rparr>"

definition "slow1 = failed_at 0 slow0"
definition "slow2 = failed_at (30 * second) slow1"
definition "slow3 = failed_at (61 * second) slow2"
definition "slow4 = slow3\<lparr>SlEngine := snd (MarkHandledByWorkflow [] ''rerun'' (SlEngine slow3))\<rparr>"
definition "slow5 = slow4\<lparr>SlEngine := Acknowledge 1 (SlEngine slow4)\<rparr>"

lemma slow_states:
  "map AeTs (AlEvents (SlEngine slow3)) = [0, 61000] \<and> map AeRule (AlEvents (SlEngine slow3)) = [''rule-failure'', ''rule-failure''] \<and>
   map AeWorkflow (AlEvents (SlEngine slow3)) = [[], []] \<and>
   map_option (\<lambda>v. (AeAck v, AeResolution v)) (row_of AeId 1 (AlEvents (SlEngine slow4))) = Some (True, ''rerun'')"
  by code_simp



section \<open>Properties\<close>



text \<open>An alert is resolved once.  Through every history an alert keeps what it says (rule, workflow,
  severity, time); once acknowledged it stays so, its resolution is never replaced by another, and an
  acknowledged alert that has a resolution never changes again.\<close>

theorem alert_resolved_once:
  assumes "alert_step\<^sup>*\<^sup>* x y" "row_of AeId k (AlEvents (SlEngine (snd x))) = Some v"
  shows "\<exists>w. row_of AeId k (AlEvents (SlEngine (snd y))) = Some w \<and> w = v\<lparr>AeAck := AeAck w, AeResolution := AeResolution w\<rparr> \<and>
    (AeAck v \<longrightarrow> AeAck w) \<and> (AeResolution v \<noteq> [] \<longrightarrow> AeResolution w = AeResolution v) \<and>
    (AeAck v \<and> AeResolution v \<noteq> [] \<longrightarrow> w = v)"
proof -
  obtain w where w: "alert_of y k = Some w" "alert_move\<^sup>*\<^sup>* v w"
    using alerts.path [OF assms(1) TrueI, of k v] assms(2) by (auto simp: alert_of_def)
  from w(2) have "w = v\<lparr>AeAck := AeAck w, AeResolution := AeResolution w\<rparr> \<and> (AeAck v \<longrightarrow> AeAck w) \<and>
      (AeResolution v \<noteq> [] \<longrightarrow> AeResolution w = AeResolution v)"
  proof (induction rule: rtranclp_induct)
    case base
    then show ?case by simp
  next
    case (step y z)
    then show ?case by (cases v; cases y; cases z) (auto simp: alert_move_def)
  qed
  moreover have "w = v" if "AeAck v" "AeResolution v \<noteq> []"
    using alerts.final_kept [OF assms(1) TrueI, of k v] assms(2) w(1) that by (simp add: alert_of_def resolved_alert_def)
  ultimately show ?thesis using w(1) by (auto simp: alert_of_def)
qed

theorem alert_resolved_once_witness:
  "row_of AeId 1 (AlEvents (SlEngine slow5)) = row_of AeId 1 (AlEvents (SlEngine slow4)) \<and>
   map_option AeResolution (row_of AeId 1 (AlEvents (SlEngine slow5))) = Some ''rerun''"
proof -
  obtain v where v: "row_of AeId 1 (AlEvents (SlEngine slow4)) = Some v" "AeAck v" "AeResolution v = ''rerun''"
    using slow_states by (auto simp: map_option_eq_Some)
  have "alert_step (0, slow4) (0, slow5)" unfolding slow5_def by (rule alert_step.seen)
  then show ?thesis using alert_resolved_once [OF r_into_rtranclp [of alert_step], of "(0, slow4)" "(0, slow5)" 1 v] v by auto
qed

text \<open>The channels of a rule have one form.  \<open>UpdateRuleChannels\<close> stores the toast and the known channels
  of the request, each once and in their order; what the engine reads back when it routes an alert is
  exactly that list, and storing the list that was read changes nothing.\<close>

theorem channels_roundtrip:
  "distinct (clean_channels [''toast''] cs) \<and>
   set (clean_channels [''toast''] cs) = insert ''toast'' ((\<lambda>c. ToLower (TrimSpace c)) ` set cs \<inter> set validChannels) \<and>
   (\<forall>r\<in>set (AlRules (UpdateRuleChannels k cs st)). ArId r = k \<longrightarrow> parseChannelSet (ArChannels r) = clean_channels [''toast''] cs) \<and>
   UpdateRuleChannels k (clean_channels [''toast''] cs) (UpdateRuleChannels k cs st) = UpdateRuleChannels k cs st"
proof -
  note r = clean_result [of "[''toast'']" cs, OF distinct_singleton]
  have "\<forall>r\<in>set (AlRules (UpdateRuleChannels k cs st)). ArId r = k \<longrightarrow> parseChannelSet (ArChannels r) = clean_channels [''toast''] cs"
    using stored_channels parse_clean by metis
  moreover have "UpdateRuleChannels k (clean_channels [''toast''] cs) (UpdateRuleChannels k cs st) = UpdateRuleChannels k cs st"
    by (simp add: UpdateRuleChannels_def upd_rule_def clean_normal update_where_def)
  moreover have "set (clean_channels [''toast''] cs) = insert ''toast'' ((\<lambda>c. ToLower (TrimSpace c)) ` set cs \<inter> set validChannels)"
    unfolding conjunct2 [OF conjunct2 [OF r]] by (simp only: list.set Un_insert_left Un_empty_left)
  ultimately show ?thesis using conjunct1 [OF r] by blast
qed

theorem channels_roundtrip_witness:
  "map (\<lambda>r. parseChannelSet (ArChannels r)) (filter (\<lambda>r. ArId r = ''rule-slow'')
     (AlRules (UpdateRuleChannels ''rule-slow'' ['' Email'', ''fax'', ''slack'', ''EMAIL''] (SlEngine slow0)))) = [[''toast'', ''email'', ''slack'']]"
proof -
  have f: "\<exists>r. filter (\<lambda>r. ArId r = ''rule-slow'') (AlRules (UpdateRuleChannels ''rule-slow'' ['' Email'', ''fax'', ''slack'', ''EMAIL''] (SlEngine slow0))) = [r]"
    by (simp add: UpdateRuleChannels_def upd_rule_def slow0_def defaultRules_def update_where_def)
  then obtain r where r: "filter (\<lambda>r. ArId r = ''rule-slow'') (AlRules (UpdateRuleChannels ''rule-slow'' ['' Email'', ''fax'', ''slack'', ''EMAIL''] (SlEngine slow0))) = [r]"
    by blast
  then have "r \<in> set (filter (\<lambda>r. ArId r = ''rule-slow'') (AlRules (UpdateRuleChannels ''rule-slow'' ['' Email'', ''fax'', ''slack'', ''EMAIL''] (SlEngine slow0))))"
    by simp
  then have "r \<in> set (AlRules (UpdateRuleChannels ''rule-slow'' ['' Email'', ''fax'', ''slack'', ''EMAIL''] (SlEngine slow0)))" "ArId r = ''rule-slow''"
    by (simp_all only: set_filter mem_Collect_eq)
  moreover have "clean_channels [''toast''] ['' Email'', ''fax'', ''slack'', ''EMAIL''] = [''toast'', ''email'', ''slack'']" by code_simp
  ultimately show ?thesis
    using channels_roundtrip [of "['' Email'', ''fax'', ''slack'', ''EMAIL'']" "''rule-slow''" "SlEngine slow0"] r by simp
qed

text \<open>Flapping is the number of leadership changes.  After any sequence of readings in the order of time,
  the self-monitor raises \<open>LeaderFlapping n\<close> exactly when \<open>n\<close> is the number of changes between leader and
  follower in the window that ends now and exceeds the limit, although it keeps only the changes of the
  last window.\<close>

theorem flapping_counts_changes:
  assumes "sorted (map fst (rs @ [(now, r)]))"
  shows "LeaderFlapping n \<in> set (fst (eval_cp now r stale window most (sweeps stale window most rs cp_start))) \<longleftrightarrow>
    n = length (filter (\<lambda>t. t > now - window) (changes None (rs @ [(now, r)]))) \<and> int n > most"
proof -
  let ?st = "sweeps stale window most rs cp_start"
  have "LeaderFlapping n \<in> set (fst (eval_cp now r stale window most ?st)) \<longleftrightarrow>
      n = length (CpFlips (snd (eval_cp now r stale window most ?st))) \<and> int n > most"
    by (auto simp: eval_cp_def Let_def split: option.splits)
  moreover have "CpFlips (snd (eval_cp now r stale window most ?st)) = filter (\<lambda>t. t > now - window) (changes None (rs @ [(now, r)]))"
    using sweeps_flips [OF assms, of stale window most] by (simp add: sweeps_snoc)
  ultimately show ?thesis by simp
qed

theorem flapping_counts_changes_witness:
  "LeaderFlapping 2 \<in> set (fst (eval_cp 2 \<lparr>CpTickAge = 0, CpDbErr = False, CpLeader = True, CpAgents = 1\<rparr> 30 300 1
     (sweeps 30 300 1 [(0, \<lparr>CpTickAge = 0, CpDbErr = False, CpLeader = True, CpAgents = 1\<rparr>),
       (1, \<lparr>CpTickAge = 0, CpDbErr = False, CpLeader = False, CpAgents = 1\<rparr>)] cp_start)))"
  by (subst flapping_counts_changes) simp_all

section \<open>What the code does not do\<close>

text \<open>
  The check of the cooldown and its record are two critical sections with the insert between them: two
  evaluations that overlap both pass the check and both alert, whatever the cooldown.
\<close>

definition "race_rule = (hd defaultRules)\<lparr>ArCooldownMs := 60000\<rparr>"
definition "race_context = fst (buildAlertContext [] ''I'' StatusNotOK (\<lambda>_. False))"

lemma cooldown_race:
  "rule_fires 5 race_rule race_context (SlEngine slow0) \<and>
   map AeTs (AlEvents (fire True 5 race_rule race_context (fire True 5 race_rule race_context (SlEngine slow0)))) = [0, 0] \<and>
   \<not> rule_fires 5 race_rule race_context (fire True 5 race_rule race_context (SlEngine slow0))"
  by code_simp

end
