(* ===== verification/DurableModel.thy ===== *)
theory DurableModel
  imports Alerting Variables Delivery
begin

text \<open>
  The durable mode of the scheduler: the business tables and the hooks that the execution engine
  calls inside its transactions (\<open>server/internal/scheduler/durable.go\<close>, \<open>agent_capacity.go\<close>,
  \<open>durable_alerts.go\<close>).

  \<open>Biz\<close> is the component \<open>Business\<close> of the engine's store: the tables the hooks read and write,
  the two clocks (\<open>s.Now()\<close>, the business clock, and the process clock), the answer of the leader
  guard at this moment and the loaded definitions.  A hook is one function from the store to an
  error, which rolls the transaction back, or to the new business tables.  SQL statements succeed
  unless a constraint or a missing row makes them fail (\<^const>\<open>ErrStorage\<close>).
\<close>

section \<open>State\<close>

text \<open>An instance with the columns of the durable mode; \<^const>\<open>None\<close>: local variables that do not decode.\<close>

record DInst = Instance +
  DiAgent :: string
  DiLocal :: "(string \<Rightarrow> string option) option"
  DiScope :: string

datatype effect_state = EPending | EClaimed | EUncertain | EDone | ECancelled

record Notification =
  NtRule :: AlertRule
  NtContext :: AlertContext
  NtAlertId :: int
  NtAt :: int
  NtSettings :: "(string \<times> string) list"

datatype payload =
    PAction JobDefinition ActionRule string
  | PNotify Notification
  | PWebhook string string
  | POutput string

record EffectRow =
  EfId :: string
  EfExec :: string
  EfInst :: string
  EfKind :: string
  EfPayload :: payload
  EfState :: effect_state
  EfCreated :: int
  EfLease :: int
  EfGen :: int
  EfReason :: string
  EfResolvedBy :: string
  EfResolvedAt :: int

record HoldRow =
  HoInst :: string
  HoName :: string
  HoQty :: int
  HoExec :: string

record CapacityRow =
  CaAgent :: string
  CaSlots :: int
  CaPending :: int
  CaAvailable :: bool
  CaSeen :: int

record EffectDecision =
  EdKey :: string
  EdEffect :: string
  EdActor :: string
  EdDecision :: string
  EdReason :: string
  EdClass :: string
  EdGen :: int

record BreachRow =
  BrInst :: string
  BrKind :: string
  BrNotified :: bool

record Biz =
  BzInsts :: "DInst list"
  BzRuns :: "RunRow list"
  BzEvents :: "EventRow list"
  BzEffects :: "EffectRow list"
  BzDecisions :: "EffectDecision list"
  BzHolds :: "HoldRow list"
  BzResources :: "(string \<times> int) list"
  BzCapacity :: "CapacityRow list"
  BzPool :: pool
  BzLedger :: "LedgerRow list"
  BzDailies :: "DailyRunRow list"
  BzSettings :: "(string \<times> string) list"
  BzRules :: "AlertRule list"
  BzAlerts :: "AlertEventRow list"
  BzAlertNext :: int
  BzBreaches :: "BreachRow list"
  BzGlobals :: "(string \<Rightarrow> string option) option"
  BzDefs :: "JobDefinition list"
  BzNow :: int
  BzWall :: int
  BzLeads :: bool

text \<open>What the scheduler is configured with.\<close>

record durable_cfg =
  DEnv :: env
  DAlertsOn :: bool
  DSlaOn :: bool
  DCals :: "calLookup option"

section \<open>Errors in sequence\<close>

definition and_then :: "'e + 'a \<Rightarrow> ('a \<Rightarrow> 'e + 'b) \<Rightarrow> 'e + 'b" where
  "and_then r f = (case r of Inl x \<Rightarrow> Inl x | Inr y \<Rightarrow> f y)"

fun each :: "('x \<Rightarrow> 'a \<Rightarrow> 'e + 'a) \<Rightarrow> 'x list \<Rightarrow> 'a \<Rightarrow> 'e + 'a" where
  "each f [] b = Inr b"
| "each f (x # xs) b = (case f x b of Inl e \<Rightarrow> Inl e | Inr b' \<Rightarrow> each f xs b')"

lemma and_then_Inr: "and_then r f = Inr y \<longleftrightarrow> (\<exists>x. r = Inr x \<and> f x = Inr y)"
  by (cases r) (simp_all add: and_then_def)

lemma each_rel:
  assumes step: "\<And>x b b'. x \<in> set xs \<Longrightarrow> f x b = Inr b' \<Longrightarrow> R b b'" and refl: "\<And>b. R b b"
    and trans: "\<And>a b c. R a b \<Longrightarrow> R b c \<Longrightarrow> R a c" and e: "each f xs b = Inr b'"
  shows "R b b'"
  using step e
proof (induction xs arbitrary: b)
  case Nil
  then show ?case using refl by simp
next
  case (Cons x xs)
  from Cons.prems(2) obtain c where c: "f x b = Inr c" "each f xs c = Inr b'" by (auto split: sum.splits)
  have "R b c" using Cons.prems(1) [OF _ c(1)] by simp
  moreover have "R c b'" by (rule Cons.IH [OF _ c(2)]) (use Cons.prems(1) in auto)
  ultimately show ?case by (rule trans)
qed

section \<open>Rows\<close>

definition biz_inst :: "Biz \<Rightarrow> string \<Rightarrow> DInst option" where
  "biz_inst b k = row_of IId k (BzInsts b)"

definition upd_biz_inst :: "string \<Rightarrow> (DInst \<Rightarrow> DInst) \<Rightarrow> Biz \<Rightarrow> Biz" where
  "upd_biz_inst k f b = b\<lparr>BzInsts := update_where (\<lambda>i. IId i = k) f (BzInsts b)\<rparr>"

definition biz_sum :: "Biz \<Rightarrow> string \<Rightarrow> string" where
  "biz_sum b k = (case row_of LrInst k (BzLedger b) of None \<Rightarrow> [] | Some l \<Rightarrow> LrSum l)"

text \<open>Orders of a daily that is not settled may not move.\<close>

definition daily_blocked :: "Biz \<Rightarrow> string \<Rightarrow> bool" where
  "daily_blocked b k \<longleftrightarrow>
     list_ex (\<lambda>l. LrInst l = k \<and>
       list_ex (\<lambda>d. DrDate d = LrDate l \<and> DrState d \<noteq> ''completed'' \<and> DrState d \<noteq> ''legacy'') (BzDailies b))
       (BzLedger b)"

definition durableEvent :: "string \<Rightarrow> string \<Rightarrow> string \<Rightarrow> Biz \<Rightarrow> Biz" where
  "durableEvent k kind actor b =
     b\<lparr>BzEvents := BzEvents b @ [\<lparr>EvInst = k, EvKindOf = kind, EvActor = actor, EvTs = BzNow b\<rparr>]\<rparr>"

text \<open>The leader guard of \<open>leadership.go\<close>; its protocol is the subject of the leader theories.\<close>

definition guard_answer :: "Biz \<Rightarrow> exec_error + unit" where
  "guard_answer b = (if BzLeads b then Inr () else Inl ErrConflict)"

text \<open>\<open>INSERT .. ON CONFLICT(id) DO NOTHING\<close>.\<close>

definition insert_effect :: "EffectRow \<Rightarrow> Biz \<Rightarrow> Biz" where
  "insert_effect e b = (if row_of EfId (EfId e) (BzEffects b) \<noteq> None then b else b\<lparr>BzEffects := BzEffects b @ [e]\<rparr>)"

definition new_effect :: "string \<Rightarrow> string \<Rightarrow> string \<Rightarrow> string \<Rightarrow> payload \<Rightarrow> effect_state \<Rightarrow> Biz \<Rightarrow> EffectRow" where
  "new_effect eid ex k kind p st b =
     \<lparr>EfId = eid, EfExec = ex, EfInst = k, EfKind = kind, EfPayload = p, EfState = st,
      EfCreated = UnixMilli (BzNow b), EfLease = 0, EfGen = 0, EfReason = [], EfResolvedBy = [], EfResolvedAt = 0\<rparr>"

section \<open>Preparing a dispatch\<close>

definition wall_clock :: "zone \<Rightarrow> int \<Rightarrow> date \<times> int \<times> int \<times> int" where
  "wall_clock z t =
     (let w = local_time z t; s = w div second mod 86400
      in (date_of_wall w, s div 3600, s div 60 mod 60, s mod 60))"

definition durablePrepare ::
  "durable_cfg \<Rightarrow> Biz store \<Rightarrow> LabOrder \<Rightarrow> JobDefinition \<Rightarrow> exec_error + JobDefinition" where
  "durablePrepare c s ord d =
     (let b = Business s; k = LoSource ord in
      and_then (guard_answer b) (\<lambda>_.
      case biz_inst b k of
        None \<Rightarrow> Inl ErrStorage
      | Some i \<Rightarrow>
          if Confirm d \<and> \<not> IConfirmed i then Inl ErrConflict
          else case frozenCalendar (Loc (DEnv c)) d of
            None \<Rightarrow> Inl ErrInvalid
          | Some cal \<Rightarrow>
              (case DiLocal i of
                 None \<Rightarrow> Inl ErrStorage
               | Some local \<Rightarrow>
                   (let ctx = BuildContextAt d k (inst_odate (Instance.truncate i)) None []
                          (wall_clock (LocationOf (Loc (DEnv c)) cal) (BzNow b));
                        ctx1 = ctx\<lparr>VcLocal := local\<rparr>;
                        ctx2 = (case BzGlobals b of Some g \<Rightarrow> ctx1\<lparr>VcGlobal := g\<rparr> | None \<Rightarrow> ctx1);
                        ctx3 = (case DCals c of None \<Rightarrow> ctx2
                                | Some store \<Rightarrow> ctx2\<lparr>VcBusinessDay := Some (\<lambda>t. isBusinessDay t (businessCalendar d store))\<rparr>)
                    in Inr (d\<lparr>Params := InterpolateParams (Params d) ctx3\<rparr>)))))"

section \<open>Conditions\<close>

definition durableCondition :: "string \<Rightarrow> string \<Rightarrow> string \<Rightarrow> bool \<Rightarrow> Biz \<Rightarrow> Biz" where
  "durableCondition name odate actor remove b =
     (let (base, scope) = resolveCondScope name odate (prevDaily (BzDailies b)) in
      if remove then b\<lparr>BzPool := delete_where (\<lambda>r. CondName r = base \<and> ScopeDate r = scope) (BzPool b)\<rparr>
      else b\<lparr>BzPool := SetCond (BzNow b) base scope actor (BzPool b)\<rparr>)"

definition durableOut :: "JobDefinition \<Rightarrow> string \<Rightarrow> string \<Rightarrow> Biz \<Rightarrow> Biz" where
  "durableOut d odate actor b =
     fold (\<lambda>n. durableCondition n odate actor True) (ConditionsOutRemove d)
       (fold (\<lambda>n. durableCondition n odate actor False) (ConditionsOutAdd d) b)"

section \<open>Agent capacity\<close>

definition ReportAgentCapacity :: "string \<Rightarrow> int \<Rightarrow> int \<Rightarrow> bool \<Rightarrow> Biz \<Rightarrow> exec_error + Biz" where
  "ReportAgentCapacity agent slots pending available b =
     (if agent = [] \<or> slots < 1 \<or> slots > 10000 \<or> pending < 1 \<or> pending > 100000 then Inl ErrInvalid
      else let r = \<lparr>CaAgent = agent, CaSlots = slots, CaPending = pending, CaAvailable = available,
                    CaSeen = UnixMilli (BzWall b)\<rparr>
        in Inr (b\<lparr>BzCapacity := (if row_of CaAgent agent (BzCapacity b) = None then BzCapacity b @ [r]
                   else update_where (\<lambda>x. CaAgent x = agent) (\<lambda>_. r) (BzCapacity b))\<rparr>))"

definition agent_load :: "'b store \<Rightarrow> string \<Rightarrow> int" where
  "agent_load s agent = int (count_where (\<lambda>a. AtAgent a = agent \<and> \<not> exec_terminal (AtState a)) (Attempts s))"

text \<open>The attempt being planned is already in the table.\<close>

definition durableAgentAdmission :: "Biz store \<Rightarrow> string \<Rightarrow> exec_error + unit" where
  "durableAgentAdmission s agent =
     (case row_of CaAgent agent (BzCapacity (Business s)) of
        None \<Rightarrow> Inl ErrStorage
      | Some c \<Rightarrow>
          if \<not> CaAvailable c \<or> CaSeen c < UnixMilli (BzWall (Business s) - 15 * second) \<or>
             agent_load s agent > CaSlots c \<or> agent_load s agent > CaPending c
          then Inl ErrCapacity else Inr ())"

section \<open>Resource holds\<close>

definition used_of :: "Biz \<Rightarrow> string \<Rightarrow> int" where
  "used_of b name = sum_list (map HoQty (filter (\<lambda>h. HoName h = name) (BzHolds b)))"

definition hold_of :: "Biz \<Rightarrow> string \<Rightarrow> string \<Rightarrow> HoldRow option" where
  "hold_of b k name = List.find (\<lambda>h. HoInst h = k \<and> HoName h = name) (BzHolds b)"

text \<open>\<open>INSERT INTO resources .. ON CONFLICT(name) DO NOTHING\<close>: an unknown resource has capacity 1.\<close>

definition ensure_resource :: "string \<Rightarrow> Biz \<Rightarrow> Biz" where
  "ensure_resource name b =
     (if map_of (BzResources b) name = None then b\<lparr>BzResources := BzResources b @ [(name, 1)]\<rparr> else b)"

definition put_hold :: "string \<Rightarrow> string \<Rightarrow> int \<Rightarrow> string \<Rightarrow> Biz \<Rightarrow> Biz" where
  "put_hold k name q ex b =
     b\<lparr>BzHolds := (if hold_of b k name = None
        then BzHolds b @ [\<lparr>HoInst = k, HoName = name, HoQty = q, HoExec = ex\<rparr>]
        else update_where (\<lambda>h. HoInst h = k \<and> HoName h = name) (\<lambda>h. h\<lparr>HoQty := q, HoExec := ex\<rparr>) (BzHolds b))\<rparr>"

text \<open>The executions of an instance that are known to have ended.\<close>

definition known_ended :: "'b store \<Rightarrow> string \<Rightarrow> string \<Rightarrow> nat" where
  "known_ended s ex k =
     sum_list (map (\<lambda>a. count_where (\<lambda>r. snd r = AtOrder a \<and> fst r = k) (RuntimeOrders s))
       (filter (\<lambda>a. AtExec a = ex \<and> exec_terminal (AtState a)) (Attempts s)))"

definition reserve_one ::
  "Biz store \<Rightarrow> string \<Rightarrow> string \<Rightarrow> bool \<Rightarrow> string \<times> int \<Rightarrow> Biz \<Rightarrow> exec_error + Biz" where
  "reserve_one s k ex bypass w b0 =
     (let (name, q) = w in
      if q \<le> 0 then Inr b0
      else let b = ensure_resource name b0; used = used_of b name; h = hold_of b k name;
               held = (case h of None \<Rightarrow> 0 | Some x \<Rightarrow> HoQty x);
               foreign = (case h of None \<Rightarrow> False | Some x \<Rightarrow> HoExec x \<noteq> ex \<and>
                 (known_ended s (HoExec x) k \<noteq> 1 \<or> held \<noteq> q))
           in if foreign then Inl ErrConflict
              else (case map_of (BzResources b) name of
                 None \<Rightarrow> Inl ErrStorage
               | Some cap \<Rightarrow>
                   if \<not> bypass \<and> used - held + q > cap then Inl ErrCapacity
                   else Inr (put_hold k name q ex b)))"

text \<open>The code ranges over a map, whose keys are distinct; the order only decides which error is seen.\<close>

definition durableResources ::
  "Biz store \<Rightarrow> string \<Rightarrow> string \<Rightarrow> (string \<times> int) list \<Rightarrow> bool \<Rightarrow> Biz \<Rightarrow> exec_error + Biz" where
  "durableResources s k ex want bypass b = each (reserve_one s k ex bypass) want b"

section \<open>Alerts inside the transaction\<close>

text \<open>\<open>LIKE 'alert_%'\<close>: the underscore stands for any one character.\<close>

definition alert_settings :: "Biz \<Rightarrow> (string \<times> string) list" where
  "alert_settings b =
     filter (\<lambda>(k, v). cut_prefix ''alert'' k \<noteq> None \<and> length k > 5 \<or> k = ''public_url'' \<or> k = ''quickaction_secret'') (BzSettings b)"

definition external_sink :: "(string \<times> string) list \<Rightarrow> string \<Rightarrow> bool" where
  "external_sink kvs channels \<longleftrightarrow>
     list_ex (\<lambda>(ch, key). channelWanted channels ch \<and> setting_of kvs key \<noteq> [])
       [(''slack'', ''alert_slack_webhook''), (''webhook'', ''alert_webhook_url''),
        (''email'', ''alert_smtp_host''), (''pagerduty'', ''alert_pagerduty_routing_key'')]"

definition durableNotificationTx :: "AlertRule \<Rightarrow> AlertContext \<Rightarrow> Biz \<Rightarrow> payload \<times> effect_state \<times> Biz" where
  "durableNotificationTx r ctx b =
     (let b' = b\<lparr>BzAlerts := BzAlerts b @ [\<lparr>AeId = BzAlertNext b, AeRule = ArId r, AeRuleName = ArName r,
                   AeSeverity = ArSeverity r, AeWorkflow = CxWorkflow ctx, AeWorkflowName = CxName ctx, AeAck = False,
                   AeTs = UnixMilli (BzNow b), AeResolution = []\<rparr>], BzAlertNext := BzAlertNext b + 1\<rparr>;
          kvs = alert_settings b
      in (PNotify \<lparr>NtRule = r, NtContext = ctx, NtAlertId = BzAlertNext b, NtAt = UnixMilli (BzNow b), NtSettings = kvs\<rparr>,
          if external_sink kvs (ArChannels r) then EPending else EDone, b'))"

definition durableActionNotify :: "JobDefinition \<Rightarrow> ActionRule \<Rightarrow> string \<Rightarrow> Biz \<Rightarrow> payload \<times> effect_state \<times> Biz" where
  "durableActionNotify d rule k b =
     (let sev = (if RuleSeverity rule = [] then ''warning'' else RuleSeverity rule) in
      durableNotificationTx
        (plain_rule ''rule-action'' (''On/Do '' @ [CHR 0xC2, CHR 0xB7, CHR '' ''] @ labelOf d) sev (join_with '','' (Channels rule)))
        (zero_context\<lparr>CxWorkflow := ID d, CxName := labelOf d, CxInst := k\<rparr>) b)"

text \<open>Averages are of exact durations; the code lets the database compute them on day numbers.\<close>

definition trunc_div :: "int \<Rightarrow> int \<Rightarrow> int" where
  "trunc_div x y = sgn x * (\<bar>x\<bar> div y)"

definition durable_context :: "AttemptRow \<Rightarrow> JobDefinition \<Rightarrow> string \<Rightarrow> string \<Rightarrow> int \<Rightarrow> Biz \<Rightarrow> AlertContext" where
  "durable_context a d k status budget b =
     (let past = take 30 (sort_key (\<lambda>r. - the (RunFinished r)) (filter (\<lambda>r. RunDef r = ID d \<and> RunStatus r = StatusOK \<and>
                   RunFinished r \<noteq> None \<and> \<not> (RunInst r = k \<and> RunAttempt r = AtNumber a)) (BzRuns b)));
          total = sum_list (map (\<lambda>r. the (RunFinished r) - RunStarted r) past);
          hist = map IStatus (take 10 (sort_key (\<lambda>i. - the (IFinishedAt i)) (filter (\<lambda>i. IDefID i = ID d \<and>
                   (IStatus i = StatusOK \<or> IStatus i = StatusNotOK) \<and> IFinishedAt i \<noteq> None) (BzInsts b))))
      in \<lparr>CxWorkflow = ID d, CxName = labelOf d, CxInst = k, CxStatus = status,
          CxDurationMs = (if AtStarted a \<noteq> 0 then UnixMilli (BzNow b) - AtStarted a else 0), CxMaxRetries = budget - 1,
          CxSuccessRate = (if hist = [] then 0 else
             of_nat (length (filter (\<lambda>s. s = StatusOK) hist)) / of_nat (length hist)),
          CxConsecutive = int (length (takeWhile (\<lambda>s. s = StatusNotOK) hist)),
          CxAvgMs = (if past = [] then 0 else trunc_div total (millisecond * int (length past))),
          CxHistory = int (length past), CxRunning = False, CxSlowFired = False\<rparr>)"

definition last_alert :: "Biz \<Rightarrow> string \<Rightarrow> string \<Rightarrow> int" where
  "last_alert b rule flow =
     fold max (map AeTs (filter (\<lambda>v. AeRule v = rule \<and> AeWorkflow v = flow) (BzAlerts b))) 0"

definition alert_one ::
  "string \<Rightarrow> string \<Rightarrow> JobDefinition \<Rightarrow> string \<Rightarrow> AlertContext \<Rightarrow> AlertRule \<Rightarrow> Biz \<Rightarrow> Biz" where
  "alert_one ex k d status ctx r b =
     (let eid = ex @ ''-alert-'' @ ArId r in
      if \<not> ArEnabled r \<or> \<not> matchesWorkflow (ArPattern r) (ID d) then b
      else case ArCond r of None \<Rightarrow> b
      | Some cond \<Rightarrow>
          if \<not> evalCondition cond ctx then b
          else if status = ''RUNNING'' \<and> CoType cond \<noteq> ''slow_vs_average'' then b
          else if row_of EfId eid (BzEffects b) \<noteq> None then b
          else if ArCooldownMs r > 0 \<and> UnixMilli (BzNow b) - last_alert b (ArId r) (ID d) < ArCooldownMs r then b
          else (let (p, st, b1) = durableNotificationTx r ctx b
                in insert_effect (new_effect eid ex k ''notify'' p st b1) b1))"

definition durableAlerts ::
  "durable_cfg \<Rightarrow> AttemptRow \<Rightarrow> JobDefinition \<Rightarrow> string \<Rightarrow> string \<Rightarrow> int \<Rightarrow> Biz \<Rightarrow> Biz" where
  "durableAlerts c a d k status budget b =
     (if \<not> DAlertsOn c \<or> (status \<noteq> ''OK'' \<and> status \<noteq> ''NOTOK'' \<and> status \<noteq> ''RUNNING'') then b
      else fold (alert_one (AtExec a) k d status (durable_context a d k status budget b)) (sort_key ArId (BzRules b)) b)"

section \<open>The transition hook\<close>

text \<open>
  What every transition checks first: the instance exists, its snapshot decodes with a valid
  calendar, is the one frozen into the order and the ledger, and its daily is settled.
\<close>

definition durable_source ::
  "durable_cfg \<Rightarrow> Biz store \<Rightarrow> LabOrder \<Rightarrow> exec_error + (DInst \<times> JobDefinition)" where
  "durable_source c s ord =
     (let b = Business s; k = LoSource ord in
      case biz_inst b k of
        None \<Rightarrow> Inl ErrStorage
      | Some i \<Rightarrow>
          (case ISnapshot i of
             Frozen d \<Rightarrow>
               if frozenCalendar (Loc (DEnv c)) d = None then Inl ErrInvalid
               else (case order_of s (LoId ord) of
                  None \<Rightarrow> Inl ErrStorage
                | Some x \<Rightarrow>
                    if Digest (DEnv c) (ISnapshot i) \<noteq> LoSum x \<or> biz_sum b k \<noteq> [] \<and> biz_sum b k \<noteq> LoSum x
                    then Inl ErrConflict
                    else if daily_blocked b k then Inl ErrConflict else Inr (i, d))
           | _ \<Rightarrow> Inl ErrInvalid))"

definition mark_eligible :: "string \<Rightarrow> Biz \<Rightarrow> Biz" where
  "mark_eligible k b =
     (if list_ex (\<lambda>v. EvInst v = k \<and> EvKindOf v = ''eligible'') (BzEvents b) then b
      else durableEvent k ''eligible'' ''scheduler'' b)"

definition durable_planned ::
  "durable_cfg \<Rightarrow> Biz store \<Rightarrow> string \<Rightarrow> AttemptRow \<Rightarrow> DInst \<Rightarrow> JobDefinition \<Rightarrow> exec_error + Biz" where
  "durable_planned c s k a i d =
     (let b = mark_eligible k (Business s) in
      if IStatus i \<noteq> StatusWaiting then Inl ErrConflict
      else and_then (guard_answer b) (\<lambda>_. and_then (durableAgentAdmission s (AtAgent a)) (\<lambda>_.
        and_then (durableResources s k (AtExec a) (ResourcesOf d) (IForced i \<and> IForceMode i \<noteq> ForceModeOrder) b)
          (\<lambda>b1. Inr (durableEvent k ''submitted'' ''scheduler''
             (b1\<lparr>BzInsts := update_where (\<lambda>x. IId x = k \<and> IStatus x = StatusWaiting)
                (\<lambda>x. x\<lparr>IStatus := StatusRunning, IStartedAt := None, IFinishedAt := None, IExitCode := None,
                  DiAgent := AtAgent a\<rparr>) (BzInsts b1)\<rparr>))))))"

definition durable_started :: "string \<Rightarrow> AttemptRow \<Rightarrow> DInst \<Rightarrow> JobDefinition \<Rightarrow> Biz \<Rightarrow> Biz" where
  "durable_started k a i d b =
     (if AtState a \<noteq> Running then b
      else let b1 = upd_biz_inst k (\<lambda>x. x\<lparr>IStartedAt := Some (BzNow b), IStatus := StatusRunning\<rparr>) b;
               b2 = b1\<lparr>BzRuns := BzRuns b1 @ [\<lparr>RunInst = k, RunDef = ID d, RunOdate = inst_odate (Instance.truncate i),
                       RunAttempt = AtNumber a, RunStarted = BzNow b, RunFinished = None,
                       RunStatus = StatusRunning, RunExit = None\<rparr>]\<rparr>
           in durableEvent k ''started'' ''agent'' b2)"

text \<open>The outcome of an ended attempt before any rule: exit code, output, status.\<close>

definition end_outcome :: "AttemptRow \<Rightarrow> ExecResult option \<Rightarrow> int \<times> string \<times> InstanceStatus" where
  "end_outcome a r =
     (let (code0, out0) = (case r of None \<Rightarrow> (0, []) | Some x \<Rightarrow> (ReExit x, ReOutput x));
          cancelled = (AtState a = Cancelled);
          code = (if cancelled then - 1 else code0);
          out = (if cancelled \<and> out0 = [] then cancel_note else out0);
          final = (if cancelled \<and> AtStarted a = 0 then StatusCancelled
                   else if code \<noteq> 0 then StatusNotOK else StatusOK)
      in (code, out, final))"

definition end_events :: "string \<Rightarrow> AttemptRow \<Rightarrow> bool \<Rightarrow> int \<Rightarrow> int \<Rightarrow> InstanceStatus \<Rightarrow> actionEvent list" where
  "end_events kind a retry budget code final =
     (if final = StatusNotOK \<and> kind = ''result'' \<and> AtState a \<noteq> Cancelled then [attempt_event budget] else []) @
     (if \<not> retry \<and> final \<noteq> StatusCancelled then [result_event final, exit_event code] else [])"

definition durable_rule ::
  "string \<Rightarrow> string \<Rightarrow> JobDefinition \<Rightarrow> string \<Rightarrow> bool \<Rightarrow> actionEvent list \<Rightarrow> nat \<times> ActionRule \<Rightarrow>
   InstanceStatus \<times> int \<times> Biz \<Rightarrow> exec_error + (InstanceStatus \<times> int \<times> Biz)" where
  "durable_rule ex k d odate retry evs ir acc =
     (let (n, rule) = ir; (final, code, b) = acc; eid = ex @ ''-action-'' @ Itoa (int n);
          plain = PAction d rule odate;
          put = (\<lambda>final code p st b. Inr (final, code,
             durableEvent k ''action'' ''actions'' (insert_effect (new_effect eid ex k (Do rule) p st b) b)))
      in if \<not> list_ex (actionMatches rule) evs then Inr acc
         else if Do rule = ''set-condition'' then
           put final code plain EDone (durableCondition (RuleCondition rule) odate ''actions'' False b)
         else if Do rule = ''set-ok'' then
           (if \<not> retry \<and> final = StatusNotOK then put StatusOK 0 plain EDone b else put final code plain EDone b)
         else if Do rule = ''notify'' then
           (let (p, st, b1) = durableActionNotify d rule k b in put final code p st b1)
         else if Do rule = ''run-job'' then put final code plain EPending b
         else Inl ErrInvalid)"

text \<open>Whether a finished cyclic job is armed again, and when.\<close>

definition next_cycle ::
  "durable_cfg \<Rightarrow> JobDefinition \<Rightarrow> string \<Rightarrow> bool \<Rightarrow> InstanceStatus \<Rightarrow> int \<Rightarrow> int \<Rightarrow> int option" where
  "next_cycle c d odate retry final runs now =
     (let s = ScheduleOf d; next = now + IntervalMin s * minute; done = runs + 1 in
      if \<not> retry \<and> final = StatusOK \<and> Cyclic s \<and> IntervalMin s > 0 \<and>
         (CyclicMaxRuns s \<le> 0 \<or> done < CyclicMaxRuns s) \<and>
         (case orderWindowEnd (Loc (DEnv c)) d odate of None \<Rightarrow> True | Some t \<Rightarrow> next \<le> t)
      then Some next else None)"

definition set_locals :: "string \<Rightarrow> (string \<times> string) list \<Rightarrow> Biz \<Rightarrow> Biz" where
  "set_locals k ms b = fold (\<lambda>_. durableEvent k ''set-var-local'' ''execution'') ms b"

definition durable_close ::
  "durable_cfg \<Rightarrow> string \<Rightarrow> string \<Rightarrow> AttemptRow \<Rightarrow> DInst \<Rightarrow> JobDefinition \<Rightarrow> string \<Rightarrow> bool \<Rightarrow>
   (string \<Rightarrow> string option) \<Rightarrow> InstanceStatus \<Rightarrow> int \<Rightarrow> Biz \<Rightarrow> Biz" where
  "durable_close c k kind a i d out retry local final0 code b =
     (let odate = inst_odate (Instance.truncate i); now = BzNow b; budget = IAttempts i; runs = ICycleRuns i;
          b1 = (if \<not> retry \<and> final0 = StatusOK then durableOut d odate ''execution'' b else b);
          delay = (if RetryDelayMin d > 0 then RetryDelayMin d * minute else 5 * second);
          cyc = next_cycle c d odate retry final0 runs now;
          again = retry \<or> cyc \<noteq> None;
          final = (if again then StatusWaiting else final0);
          due = (if retry then now + delay else case cyc of Some t \<Rightarrow> t | None \<Rightarrow> now);
          n = (if retry then budget + 1 else if cyc \<noteq> None then 1 else budget);
          b2 = upd_biz_inst k (\<lambda>x. x\<lparr>IStatus := final, IExitCode := Some code, IOutput := out,
                 IFinishedAt := (if again then None else Some now), IScheduledAt := Some due, IAttempts := n,
                 ICycleRuns := (if cyc \<noteq> None then runs + 1 else runs), DiLocal := Some local\<rparr>) b1;
          b3 = (if retry then b2
                else b2\<lparr>BzHolds := delete_where (\<lambda>h. HoInst h = k \<and> HoExec h = AtExec a) (BzHolds b2)\<rparr>);
          b4 = (if retry then b3
                else durableAlerts c a d k (if code = 0 then ''OK'' else if final = StatusCancelled then ''CANCELLED'' else ''NOTOK'') budget b3);
          b5 = durableEvent k (if kind = ''resolved'' then ''resolved'' else if cyc \<noteq> None then ''cyclic''
                 else if retry then ''retry'' else ''finished'') ''execution'' b4
      in if \<not> retry \<and> final \<noteq> StatusCancelled
         then insert_effect (new_effect (AtExec a @ ''-hooks'') (AtExec a) k ''terminal-hooks'' (POutput out) EPending b5) b5
         else b5)"

definition durable_end ::
  "durable_cfg \<Rightarrow> string \<Rightarrow> string \<Rightarrow> AttemptRow \<Rightarrow> ExecResult option \<Rightarrow> DInst \<Rightarrow> JobDefinition \<Rightarrow> Biz \<Rightarrow> exec_error + Biz" where
  "durable_end c k kind a r i d b =
     (let (code, out, final) = end_outcome a r; budget = IAttempts i; odate = inst_odate (Instance.truncate i);
          b1 = b\<lparr>BzRuns := update_where (\<lambda>x. RunInst x = k \<and> RunFinished x = None)
                 (\<lambda>x. x\<lparr>RunFinished := Some (BzNow b), RunStatus := final, RunExit := Some code\<rparr>) (BzRuns b)\<rparr>
      in case DiLocal i of
           None \<Rightarrow> Inl ErrStorage
         | Some local0 \<Rightarrow>
             (let ms = local_directives out;
                  local = foldl (\<lambda>m (x, v). m(x \<mapsto> v)) local0 ms;
                  b2 = set_locals k ms b1;
                  retry = (kind = ''result'' \<and> AtState a \<noteq> Cancelled \<and> final = StatusNotOK \<and>
                           Retries d > 0 \<and> budget \<le> Retries d);
                  evs = end_events kind a retry budget code final
              in and_then (each (durable_rule (AtExec a) k d odate retry evs) (enumerate 0 (Actions d)) (final, code, b2))
                   (\<lambda>(final1, code1, b3). Inr (durable_close c k kind a i d out retry local final1 code1 b3))))"

definition end_kinds :: "string list" where
  "end_kinds = [''result'', ''cancelled'', ''resolved'']"

definition durableTransition ::
  "durable_cfg \<Rightarrow> Biz store \<Rightarrow> LabOrder \<Rightarrow> AttemptRow \<Rightarrow> string \<Rightarrow> ExecResult option \<Rightarrow> exec_error + Biz" where
  "durableTransition c s ord a kind r =
     and_then (durable_source c s ord) (\<lambda>(i, d).
       let k = LoSource ord; b = Business s in
       if kind = ''planned'' then durable_planned c s k a i d
       else if kind = ''started'' then Inr (durable_started k a i d b)
       else if kind = ''uncertain'' then
         Inr (durableEvent k ''uncertain'' ''execution'' (upd_biz_inst k (\<lambda>x. x\<lparr>IStatus := StatusUncertain\<rparr>) b))
       else if kind = ''cancel_requested'' then Inr (durableEvent k ''cancel-requested'' ''operator'' b)
       else if kind \<in> set end_kinds then durable_end c k kind a r i d b
       else Inr b)"

text \<open>The engine in durable mode.\<close>

definition open_effects :: "Biz \<Rightarrow> int" where
  "open_effects b = int (count_where (\<lambda>f. EfState f \<noteq> EDone \<and> EfState f \<noteq> ECancelled) (BzEffects b))"

definition durable_engine :: "durable_cfg \<Rightarrow> Biz engine \<Rightarrow> Biz engine" where
  "durable_engine c e =
     e\<lparr>Transition := Some (durableTransition c), Prepare := Some (durablePrepare c), OpenEffects := open_effects,
       SnapSum := Digest (DEnv c), Zones := Loc (DEnv c)\<rparr>"

end
