(* ===== verification/DurableOps.thy ===== *)
theory DurableOps
  imports DurableModel
begin

text \<open>
  The operations of the durable mode outside the engine's hooks: actions of the operator
  (\<open>durable_operations.go\<close>), the table of resource holds (\<open>durable_resources.go\<close>), the
  evaluation of running orders (\<open>durable_running.go\<close>) and the effects
  (\<open>durable_effects.go\<close>, \<open>durable_effect_resolution.go\<close>).

  Each operation is a transaction; an error that is not one of the engine's is \<^const>\<open>ErrStorage\<close>.
\<close>

section \<open>Actions of the operator\<close>

text \<open>The attempts of the orders of an instance that have not ended.\<close>

definition unresolved :: "'b store \<Rightarrow> string \<Rightarrow> nat" where
  "unresolved s k =
     sum_list (map (\<lambda>r. count_where (\<lambda>a. AtOrder a = snd r \<and> \<not> exec_terminal (AtState a)) (Attempts s))
       (filter (\<lambda>r. fst r = k) (RuntimeOrders s)))"

text \<open>The actions that read the frozen definition require it to be intact and its daily settled.\<close>

definition action_def :: "durable_cfg \<Rightarrow> Biz \<Rightarrow> string \<Rightarrow> DInst \<Rightarrow> JobDefinition option" where
  "action_def c b k i =
     (case ISnapshot i of
        Frozen d \<Rightarrow>
          if frozenCalendar (Loc (DEnv c)) d = None \<or>
             biz_sum b k \<noteq> [] \<and> biz_sum b k \<noteq> Digest (DEnv c) (ISnapshot i) \<or> daily_blocked b k
          then None else Some d
      | _ \<Rightarrow> None)"

definition drop_holds :: "string \<Rightarrow> Biz \<Rightarrow> Biz" where
  "drop_holds k b = b\<lparr>BzHolds := delete_where (\<lambda>h. HoInst h = k) (BzHolds b)\<rparr>"

definition rerun_row :: "DInst \<Rightarrow> DInst" where
  "rerun_row x = x\<lparr>IStatus := StatusWaiting, IStartedAt := None, IFinishedAt := None, IExitCode := None, IOutput := [],
     IHeldFrom := [], IAttempts := 1, IForced := (if IForceMode x = [] then False else IForced x)\<rparr>"

definition held_status :: "DInst \<Rightarrow> InstanceStatus" where
  "held_status i =
     (if IHeldFrom i = [] \<or> IHeldFrom i = ''WAITING'' then StatusWaiting
      else if IHeldFrom i = ''UNCERTAIN'' then StatusUncertain
      else if IHeldFrom i = ''RUNNING'' then StatusRunning
      else if IHeldFrom i = ''OK'' then StatusOK
      else if IHeldFrom i = ''NOTOK'' then StatusNotOK
      else if IHeldFrom i = ''HELD'' then StatusHeld
      else if IHeldFrom i = ''CANCELLED'' then StatusCancelled
      else if IHeldFrom i = ''SLA_BREACH'' then StatusSLABreach
      else StatusOther (IHeldFrom i))"

text \<open>What each action writes to the row and the pool: the answer and the tables, before the event.\<close>

definition action_write ::
  "durable_cfg \<Rightarrow> string \<Rightarrow> string \<Rightarrow> string \<Rightarrow> DInst \<Rightarrow> Biz \<Rightarrow> exec_error + (string \<times> Biz)" where
  "action_write c actor k action i b =
     (let st = IStatus i; now = BzNow b in
      if action = ''hold'' then
        Inr (''HELD'', upd_biz_inst k (\<lambda>x. x\<lparr>IHeldFrom := status_string st, IStatus := StatusHeld, DiScope := []\<rparr>) b)
      else if action = ''release'' then
        (if st \<noteq> StatusHeld \<or> DiScope i \<noteq> [] then Inl ErrConflict
         else Inr (status_string (held_status i),
           upd_biz_inst k (\<lambda>x. x\<lparr>IStatus := held_status i, IHeldFrom := [], DiScope := []\<rparr>) b))
      else if action = ''cancel'' then
        (if st \<noteq> StatusWaiting \<and> st \<noteq> StatusHeld then Inl ErrConflict
         else Inr (''CANCELLED'', upd_biz_inst k (\<lambda>x. x\<lparr>IStatus := StatusCancelled, IHeldFrom := [], IFinishedAt := Some now\<rparr>) b))
      else if action = ''rerun'' then
        (if st \<noteq> StatusOK \<and> st \<noteq> StatusNotOK \<and> st \<noteq> StatusCancelled then Inl ErrConflict
         else Inr (''WAITING'', upd_biz_inst k rerun_row b))
      else if action = ''force'' then
        (if st \<noteq> StatusWaiting \<and> st \<noteq> StatusHeld then Inl ErrConflict
         else Inr (''WAITING'', upd_biz_inst k (\<lambda>x. x\<lparr>IStatus := StatusWaiting, IForced := True, IForceMode := [],
                 IHeldFrom := [], IScheduledAt := Some now\<rparr>) b))
      else if action = ''set-ok'' then
        (if st \<noteq> StatusWaiting \<and> st \<noteq> StatusNotOK \<and> st \<noteq> StatusCancelled then Inl ErrConflict
         else case action_def c b k i of
           None \<Rightarrow> Inl ErrConflict
         | Some d \<Rightarrow> Inr (''OK'', durableOut d (inst_odate (Instance.truncate i)) actor
             (upd_biz_inst k (\<lambda>x. x\<lparr>IStatus := StatusOK, IExitCode := Some 0,
                IFinishedAt := (case IFinishedAt x of None \<Rightarrow> Some now | t \<Rightarrow> t)\<rparr>) b)))
      else if action = ''confirm'' then
        (if st \<noteq> StatusWaiting \<and> st \<noteq> StatusHeld then Inl ErrConflict
         else Inr (status_string st, upd_biz_inst k (\<lambda>x. x\<lparr>IConfirmed := True\<rparr>) b))
      else if action = ''delete'' then
        (if st \<noteq> StatusHeld then Inl ErrConflict
         else if list_ex (\<lambda>f. EfInst f = k \<and> EfState f \<noteq> EDone \<and> EfState f \<noteq> ECancelled) (BzEffects b) then Inl ErrConflict
         else Inr (''deleted'', (drop_holds k b)\<lparr>BzEvents := delete_where (\<lambda>v. EvInst v = k) (BzEvents b),
                BzInsts := delete_where (\<lambda>x. IId x = k) (BzInsts b)\<rparr>))
      else Inl ErrInvalid)"

text \<open>Deleting an instance deletes its row of \<open>runtime_orders\<close> (a cascade of the schema).\<close>

definition DurableAction_tx ::
  "durable_cfg \<Rightarrow> string \<Rightarrow> string \<Rightarrow> string \<Rightarrow> Biz store \<Rightarrow> exec_error + (string \<times> Biz store)" where
  "DurableAction_tx c actor k action s =
     (let b = Business s in
      case biz_inst b k of
        None \<Rightarrow> Inl ErrNotFound
      | Some i \<Rightarrow>
          if unresolved s k \<noteq> 0 \<or> IStatus i = StatusRunning \<or> IStatus i = StatusUncertain then Inl ErrConflict
          else if action \<in> {''set-ok'', ''rerun'', ''force''} \<and> action_def c b k i = None then Inl ErrConflict
          else if action = ''hold'' \<and> IStatus i = StatusHeld then Inr (''HELD'', s)
          else and_then (action_write c actor k action i b) (\<lambda>(answer, b1).
            let b2 = (if action = ''delete'' then b1 else durableEvent k action actor b1);
                b3 = (if action \<in> {''cancel'', ''set-ok'', ''rerun''} then drop_holds k b2 else b2)
            in Inr (answer, s\<lparr>Business := b3, RuntimeOrders := (if action = ''delete''
                 then delete_where (\<lambda>r. fst r = k) (RuntimeOrders s) else RuntimeOrders s)\<rparr>)))"

text \<open>Cancelling an order with a live attempt is a request to the engine, in a transaction of its own.\<close>

definition live_order :: "'b store \<Rightarrow> string \<Rightarrow> (LabOrder \<times> AttemptRow) option" where
  "live_order s k =
     (case RuntimeOrder s k of
        None \<Rightarrow> None
      | Some ord \<Rightarrow> if LoCurrent ord = [] then None
          else (case attempt_of s (LoCurrent ord) of
             None \<Rightarrow> None | Some a \<Rightarrow> if exec_terminal (AtState a) then None else Some (ord, a)))"

definition DurableAction ::
  "durable_cfg \<Rightarrow> Biz engine \<Rightarrow> int \<Rightarrow> string \<Rightarrow> string \<Rightarrow> string \<Rightarrow> Biz store \<Rightarrow> exec_error + (string \<times> Biz store)" where
  "DurableAction c e now actor k action s =
     (case (if action = ''cancel'' then live_order s k else None) of
        Some (ord, a) \<Rightarrow>
          and_then (CancelFor e now (LoId ord) actor s) (\<lambda>(a', s').
            case biz_inst (Business s') k of
              None \<Rightarrow> Inl ErrStorage
            | Some i \<Rightarrow> Inr (status_string (IStatus i), s'))
      | None \<Rightarrow> DurableAction_tx c actor k action s)"

section \<open>Holds and resources\<close>

text \<open>The orders whose holds must exist: a live attempt, or a retry that waits.\<close>

definition rebuild_rows :: "Biz store \<Rightarrow> (string \<times> string \<times> LabOrder) list" where
  "rebuild_rows s =
     concat (map (\<lambda>(k, oid). case order_of s oid of
        None \<Rightarrow> []
      | Some ord \<Rightarrow>
          (case (attempt_of s (LoCurrent ord), biz_inst (Business s) k) of
             (Some a, Some i) \<Rightarrow>
               if \<not> exec_terminal (AtState a) \<or> IStatus i = StatusWaiting \<and> IAttempts i > 1
               then [(k, LoCurrent ord, ord)] else []
           | _ \<Rightarrow> [])) (RuntimeOrders s))"

definition rebuild_hold :: "string \<Rightarrow> string \<Rightarrow> string \<times> int \<Rightarrow> Biz \<Rightarrow> exec_error + Biz" where
  "rebuild_hold k ex w b0 =
     (let (name, q) = w in
      if q \<le> 0 then Inr b0
      else let b = ensure_resource name b0;
               b1 = (if hold_of b k name = None then put_hold k name q ex b else b)
           in case hold_of b1 k name of
                None \<Rightarrow> Inl ErrStorage
              | Some h \<Rightarrow> if HoQty h \<noteq> q \<or> HoExec h \<noteq> ex then Inl ErrConflict else Inr b1)"

definition rebuild_order :: "durable_cfg \<Rightarrow> string \<times> string \<times> LabOrder \<Rightarrow> Biz \<Rightarrow> exec_error + Biz" where
  "rebuild_order c row b =
     (let (k, ex, ord) = row in
      case LoSnapshot ord of
        Frozen d \<Rightarrow>
          if Digest (DEnv c) (LoSnapshot ord) \<noteq> LoSum ord then Inl ErrConflict
          else each (rebuild_hold k ex) (ResourcesOf d) b
      | _ \<Rightarrow> Inl ErrConflict)"

definition rebuildDurableResources :: "durable_cfg \<Rightarrow> Biz store \<Rightarrow> exec_error + (nat \<times> Biz)" where
  "rebuildDurableResources c s =
     and_then (guard_answer (Business s)) (\<lambda>_.
     and_then (each (rebuild_order c) (rebuild_rows s) (Business s)) (\<lambda>b.
       Inr (length (rebuild_rows s), b)))"

definition held_by :: "Biz \<Rightarrow> string \<Rightarrow> string \<Rightarrow> int" where
  "held_by b k name = sum_list (map HoQty (filter (\<lambda>h. HoName h = name \<and> HoInst h = k) (BzHolds b)))"

definition durableShortfalls :: "string \<Rightarrow> (string \<times> int) list \<Rightarrow> Biz \<Rightarrow> (string \<times> int \<times> int \<times> int) list" where
  "durableShortfalls k want b =
     concat (map (\<lambda>(name, q).
       let cap = (case map_of (BzResources b) name of Some n \<Rightarrow> n | None \<Rightarrow> 1) in
       if q > 0 \<and> used_of b name - held_by b k name + q > cap then [(name, q, used_of b name, cap)] else []) want)"

definition DurableResourceSnapshot :: "Biz \<Rightarrow> (string \<times> int \<times> int) list" where
  "DurableResourceSnapshot b =
     map (\<lambda>(name, cap). (name, cap, used_of b name)) (sort_key fst (BzResources b))"

definition DurableResourceChange :: "string \<Rightarrow> int \<Rightarrow> bool \<Rightarrow> Biz \<Rightarrow> exec_error + Biz" where
  "DurableResourceChange name cap remove b =
     (if name = [] \<or> cap < 0 then Inl ErrInvalid
      else if remove then
        (if used_of b name > 0 then Inl ErrConflict
         else if map_of (BzResources b) name = None then Inl ErrNotFound
         else Inr (b\<lparr>BzResources := delete_where (\<lambda>r. fst r = name) (BzResources b)\<rparr>))
      else if map_of (BzResources b) name = None then Inr (b\<lparr>BzResources := BzResources b @ [(name, cap)]\<rparr>)
      else Inr (b\<lparr>BzResources := update_where (\<lambda>r. fst r = name) (\<lambda>_. (name, cap)) (BzResources b)\<rparr>))"

section \<open>Running orders\<close>

definition running_rule ::
  "string \<Rightarrow> string \<Rightarrow> JobDefinition \<Rightarrow> string \<Rightarrow> actionEvent \<Rightarrow> nat \<times> ActionRule \<Rightarrow> Biz \<Rightarrow> exec_error + Biz" where
  "running_rule ex k d odate ev ir b =
     (let (n, rule) = ir; eid = ex @ ''-runtime-action-'' @ Itoa (int n); plain = PAction d rule odate;
          put = (\<lambda>p st b. Inr (durableEvent k ''action'' ''actions''
                   (b\<lparr>BzEffects := BzEffects b @ [new_effect eid ex k (Do rule) p st b]\<rparr>)))
      in if \<not> actionMatches rule ev \<or> row_of EfId eid (BzEffects b) \<noteq> None then Inr b
         else if Do rule = ''set-condition'' then
           put plain EDone (durableCondition (RuleCondition rule) odate ''actions'' False b)
         else if Do rule = ''notify'' then (let (p, st, b1) = durableActionNotify d rule k b in put p st b1)
         else if Do rule = ''run-job'' then put plain EPending b
         else if Do rule = ''set-ok'' then put plain EDone b
         else Inl ErrInvalid)"

definition durableSLATx :: "string \<Rightarrow> string \<Rightarrow> SLASpec \<Rightarrow> string \<Rightarrow> Biz \<Rightarrow> exec_error + Biz" where
  "durableSLATx ex k sla kind b =
     (if list_ex (\<lambda>r. BrInst r = k \<and> BrKind r = kind) (BzBreaches b) then Inr b
      else let eid = ex @ ''-sla-'' @ kind;
               b1 = b\<lparr>BzBreaches := BzBreaches b @ [\<lparr>BrInst = k, BrKind = kind, BrNotified = False\<rparr>]\<rparr>
           in if row_of EfId eid (BzEffects b) \<noteq> None then Inl ErrStorage
              else Inr (b1\<lparr>BzEffects := BzEffects b1 @ [new_effect eid ex k ''webhook'' (PWebhook (WebhookURL sla) kind)
                     (if WebhookURL sla \<noteq> [] then EPending else EDone) b1]\<rparr>))"

definition run_minutes :: "Biz \<Rightarrow> AttemptRow \<Rightarrow> int" where
  "run_minutes b a = trunc_div (UnixMilli (BzNow b) - AtStarted a) 60000"

definition sla_check :: "durable_cfg \<Rightarrow> AttemptRow \<Rightarrow> JobDefinition \<Rightarrow> string \<Rightarrow> string \<Rightarrow> Biz \<Rightarrow> exec_error + Biz" where
  "sla_check c a d k odate b =
     (case (if DSlaOn c then SLA d else None) of
        None \<Rightarrow> Inr b
      | Some sla \<Rightarrow>
          and_then (if ExpectedDurationMin sla > 0 \<and> run_minutes b a \<ge> ExpectedDurationMin sla \<and>
                       UnixMilli (BzNow b) - AtStarted a > ExpectedDurationMin sla * 60000
                    then durableSLATx (AtExec a) k sla ''duration'' b else Inr b)
            (\<lambda>b1. case (if DeadlineHM sla \<noteq> [] then frozenCalendar (Loc (DEnv c)) d else None) of
               None \<Rightarrow> Inr b1
             | Some cal \<Rightarrow>
                 (case At (Loc (DEnv c)) cal odate (DeadlineHM sla) of
                    None \<Rightarrow> Inr b1
                  | Some t \<Rightarrow> if BzNow b1 > t then durableSLATx (AtExec a) k sla ''deadline'' b1 else Inr b1)))"

text \<open>The callback of one running order.\<close>

definition running_update :: "durable_cfg \<Rightarrow> string \<Rightarrow> Biz store \<Rightarrow> LabOrder \<Rightarrow> AttemptRow \<Rightarrow> exec_error + Biz" where
  "running_update c k s ord a =
     (let b = Business s in
      and_then (guard_answer b) (\<lambda>_.
      case (biz_inst b k, order_of s (LoId ord)) of
        (Some i, Some x) \<Rightarrow>
          (case ISnapshot i of
             Frozen d \<Rightarrow>
               if IStatus i \<noteq> StatusRunning \<or> frozenCalendar (Loc (DEnv c)) d = None \<or>
                  Digest (DEnv c) (ISnapshot i) \<noteq> LoSum x \<or> biz_sum b k \<noteq> [] \<and> biz_sum b k \<noteq> LoSum x \<or> daily_blocked b k
               then Inl ErrConflict
               else (let odate = inst_odate (Instance.truncate i);
                         ev = zero_event\<lparr>EvKind := ''runtime'', EvRunMin := run_minutes b a\<rparr>
                     in and_then (each (running_rule (AtExec a) k d odate ev) (enumerate 0 (Actions d)) b) (\<lambda>b1.
                          sla_check c a d k odate (durableAlerts c a d k ''RUNNING'' (IAttempts i) b1)))
           | _ \<Rightarrow> Inl ErrConflict)
      | _ \<Rightarrow> Inl ErrStorage))"

definition running_ids :: "'b store \<Rightarrow> string list" where
  "running_ids s =
     map fst (filter (\<lambda>(k, oid). case order_of s oid of
        None \<Rightarrow> False
      | Some ord \<Rightarrow> (case attempt_of s (LoCurrent ord) of
           None \<Rightarrow> False | Some a \<Rightarrow> AtState a = Running \<and> AtStarted a > 0)) (RuntimeOrders s))"

definition evaluate_one :: "durable_cfg \<Rightarrow> string \<Rightarrow> Biz store \<Rightarrow> Biz store" where
  "evaluate_one c k s = (case RuntimeUpdate k (running_update c k) s of Inl _ \<Rightarrow> s | Inr s' \<Rightarrow> s')"

definition evaluateDurableRunning :: "durable_cfg \<Rightarrow> Biz store \<Rightarrow> Biz store" where
  "evaluateDurableRunning c s = fold (evaluate_one c) (running_ids s) s"

section \<open>Effects\<close>

definition upd_effect :: "string \<Rightarrow> (EffectRow \<Rightarrow> EffectRow) \<Rightarrow> Biz \<Rightarrow> Biz" where
  "upd_effect k f b = b\<lparr>BzEffects := update_where (\<lambda>x. EfId x = k) f (BzEffects b)\<rparr>"

definition effect_of :: "Biz \<Rightarrow> string \<Rightarrow> EffectRow option" where
  "effect_of b k = row_of EfId k (BzEffects b)"

definition lost_reason :: string where
  "lost_reason = ''worker disappeared after claiming this effect; external outcome unknown''"

definition unclear_reason :: string where
  "unclear_reason = ''effect receipt unavailable; verify external state before resolving or repeating''"

text \<open>The first statement of a drain: claims whose lease has run out become uncertain.\<close>

definition recover_effects :: "Biz \<Rightarrow> exec_error + Biz" where
  "recover_effects b =
     and_then (guard_answer b) (\<lambda>_. Inr (b\<lparr>BzEffects := update_where
       (\<lambda>x. EfState x = EClaimed \<and> EfLease x > 0 \<and> EfLease x \<le> UnixMilli (BzNow b))
       (\<lambda>x. x\<lparr>EfState := EUncertain, EfReason := lost_reason, EfLease := 0\<rparr>) (BzEffects b)\<rparr>))"

definition pending_ids :: "Biz \<Rightarrow> string list" where
  "pending_ids b =
     take 100 (map EfId (sort_key (\<lambda>x. (EfCreated x, EfId x)) (filter (\<lambda>x. EfState x = EPending) (BzEffects b))))"

text \<open>The instance that a \<open>run-job\<close> effect orders; its id is derived from the effect's.\<close>

definition forced_id :: "string \<Rightarrow> string \<Rightarrow> string" where
  "forced_id target eid = target @ ''-ACTION-'' @ eid"

definition forced_row :: "string \<Rightarrow> JobDefinition \<Rightarrow> string \<Rightarrow> int \<Rightarrow> DInst" where
  "forced_row k d date now =
     Instance.extend (forced_instance k d date now) (DInst.fields [] (Some Map.empty) [])"

definition durableForceTx :: "durable_cfg \<Rightarrow> string \<Rightarrow> string \<Rightarrow> Biz \<Rightarrow> exec_error + Biz" where
  "durableForceTx c eid target b =
     (case List.find (\<lambda>d. ID d = target) (BzDefs b) of
        None \<Rightarrow> Inl ErrStorage
      | Some d0 \<Rightarrow>
          (let cal = BusinessCalendar (Some (BzSettings b)) in
           if ValidateCalendar (Loc (DEnv c)) cal \<noteq> None then Inl ErrStorage
           else let k = forced_id target eid in
             if biz_inst b k \<noteq> None then Inl ErrStorage
             else Inr (durableEvent k ''force-ordered'' ''actions'' (b\<lparr>BzInsts := BzInsts b @
               [forced_row k (freezeTime d0 cal) (BusinessDate (Loc (DEnv c)) cal (BzNow b)) (BzNow b)]\<rparr>))))"

text \<open>
  The claim of an effect: a job is ordered in the same transaction; for the other kinds the row is
  claimed and the answer is the row to be performed outside, with its new generation.
\<close>

definition claim_effect :: "durable_cfg \<Rightarrow> string \<Rightarrow> Biz \<Rightarrow> exec_error + (EffectRow option \<times> Biz)" where
  "claim_effect c k b =
     and_then (guard_answer b) (\<lambda>_.
     case effect_of b k of
       None \<Rightarrow> Inr (None, b)
     | Some f \<Rightarrow>
         if EfState f \<noteq> EPending then Inr (None, b)
         else if EfKind f = ''run-job'' then
           (case EfPayload f of
              PAction d rule odate \<Rightarrow>
                and_then (durableForceTx c k (TargetJob rule) b) (\<lambda>b1.
                  Inr (None, upd_effect k (\<lambda>x. x\<lparr>EfState := EDone\<rparr>) b1))
            | _ \<Rightarrow> Inl ErrStorage)
         else if EfKind f \<noteq> ''notify'' \<and> EfKind f \<noteq> ''terminal-hooks'' \<and> EfKind f \<noteq> ''webhook'' then Inl ErrStorage
         else let claim = (\<lambda>x. x\<lparr>EfState := EClaimed, EfLease := UnixMilli (BzNow b + minute), EfGen := EfGen x + 1\<rparr>)
           in Inr (Some (claim f), upd_effect k claim b))"

text \<open>
  The receipt: only the generation that was claimed, and only while the operator has not resolved
  the effect.  The number of rows changed says whether the breach is marked as notified.
\<close>

definition receipt_effect :: "EffectRow \<Rightarrow> bool \<Rightarrow> Biz \<Rightarrow> Biz" where
  "receipt_effect f ok b =
     (let p = (\<lambda>x. EfId x = EfId f \<and> (EfState x = EClaimed \<or> EfState x = EUncertain) \<and>
                   EfResolvedAt x = 0 \<and> EfGen x = EfGen f);
          b1 = b\<lparr>BzEffects := update_where p
                 (\<lambda>x. x\<lparr>EfState := (if ok then EDone else EUncertain), EfReason := (if ok then [] else unclear_reason),
                        EfLease := 0\<rparr>) (BzEffects b)\<rparr>
      in case EfPayload f of
           PWebhook url kind \<Rightarrow>
             if count_where p (BzEffects b) = 1 \<and> EfKind f = ''webhook'' \<and> ok
             then b1\<lparr>BzBreaches := update_where (\<lambda>r. BrInst r = EfInst f \<and> BrKind r = kind)
                    (\<lambda>r. r\<lparr>BrNotified := True\<rparr>) (BzBreaches b1)\<rparr>
             else b1
         | _ \<Rightarrow> b1)"

text \<open>The assignments of global variables in an output, up to the first that the store refuses.\<close>

fun set_globals :: "(string \<Rightarrow> bool) \<Rightarrow> (string \<times> string) list \<Rightarrow> (string \<Rightarrow> string option) \<Rightarrow> bool \<times> (string \<Rightarrow> string option)" where
  "set_globals ok [] g = (True, g)"
| "set_globals ok ((x, v) # ms) g = (if ok x then set_globals ok ms (g(x \<mapsto> v)) else (False, g))"

text \<open>
  What is done outside the transactions; \<open>answer\<close> says which requests succeed.  A payload of the
  wrong shape does not decode.
\<close>

definition perform_effect :: "(EffectRow \<Rightarrow> bool) \<Rightarrow> (string \<Rightarrow> bool) \<Rightarrow> EffectRow \<Rightarrow> Biz \<Rightarrow> bool \<times> Biz" where
  "perform_effect answer var_ok f b =
     (case EfPayload f of
        POutput out \<Rightarrow>
          if EfKind f \<noteq> ''terminal-hooks'' then (False, b)
          else (case BzGlobals b of
             None \<Rightarrow> (True, b)
           | Some g \<Rightarrow> (let (ok, g') = set_globals var_ok (set_directives out) g in (ok, b\<lparr>BzGlobals := Some g'\<rparr>)))
      | PWebhook url kind \<Rightarrow> (EfKind f = ''webhook'' \<and> answer f, b)
      | PNotify n \<Rightarrow> (EfKind f = ''notify'' \<and> answer f, b)
      | PAction d rule odate \<Rightarrow> (False, b))"

definition durableEffect ::
  "durable_cfg \<Rightarrow> (EffectRow \<Rightarrow> bool) \<Rightarrow> (string \<Rightarrow> bool) \<Rightarrow> string \<Rightarrow> Biz \<Rightarrow> Biz" where
  "durableEffect c answer var_ok k b =
     (case claim_effect c k b of
        Inl x \<Rightarrow> b
      | Inr (None, b1) \<Rightarrow> b1
      | Inr (Some f, b1) \<Rightarrow> (let (ok, b2) = perform_effect answer var_ok f b1 in receipt_effect f ok b2))"

definition drainDurableEffects ::
  "durable_cfg \<Rightarrow> (EffectRow \<Rightarrow> bool) \<Rightarrow> (string \<Rightarrow> bool) \<Rightarrow> Biz \<Rightarrow> Biz" where
  "drainDurableEffects c answer var_ok b =
     (case recover_effects b of
        Inl x \<Rightarrow> b
      | Inr b1 \<Rightarrow> fold (durableEffect c answer var_ok) (pending_ids b1) b1)"

section \<open>Resolution of effects by the operator\<close>

definition resolution_valid :: "string \<Rightarrow> string \<Rightarrow> string \<Rightarrow> string \<Rightarrow> string \<Rightarrow> bool \<Rightarrow> bool \<Rightarrow> int \<Rightarrow> bool" where
  "resolution_valid key actor decision reason cls stopped risk gen \<longleftrightarrow>
     key \<noteq> [] \<and> length key \<le> 128 \<and> actor \<noteq> [] \<and> reason \<noteq> [] \<and> length reason \<le> 2000 \<and> stopped \<and> 0 \<le> gen \<and>
     (decision = ''done'' \<or> decision = ''cancelled'' \<or> decision = ''retry'') \<and>
     (decision \<noteq> ''retry'' \<or> risk \<and> (cls = ''idempotent'' \<or> cls = ''verified-absent'' \<or> cls = ''duplicate-risk-accepted''))"

definition decided_state :: "string \<Rightarrow> effect_state" where
  "decided_state decision =
     (if decision = ''done'' then EDone else if decision = ''cancelled'' then ECancelled else EPending)"

definition ResolveEffect ::
  "string \<Rightarrow> string \<Rightarrow> string \<Rightarrow> string \<Rightarrow> string \<Rightarrow> string \<Rightarrow> bool \<Rightarrow> bool \<Rightarrow> int \<Rightarrow> Biz \<Rightarrow> exec_error + Biz" where
  "ResolveEffect k key actor decision reason0 cls stopped risk gen b =
     (let reason = TrimSpace reason0 in
      if \<not> resolution_valid key actor decision reason cls stopped risk gen then Inl ErrInvalid
      else case effect_of b k of
        None \<Rightarrow> Inl ErrNotFound
      | Some f \<Rightarrow>
          (case row_of EdKey key (BzDecisions b) of
             Some r \<Rightarrow>
               if EdEffect r \<noteq> k \<or> EdActor r \<noteq> actor \<or> EdDecision r \<noteq> decision \<or> EdReason r \<noteq> reason \<or>
                  EdClass r \<noteq> cls \<or> EdGen r \<noteq> gen
               then Inl ErrConflict else Inr b
           | None \<Rightarrow>
               if EfGen f \<noteq> gen \<or> (EfState f \<noteq> EUncertain \<and> EfState f \<noteq> EPending) then Inl ErrConflict
               else (let b1 = upd_effect k (\<lambda>x. x\<lparr>EfState := decided_state decision, EfReason := reason,
                           EfResolvedBy := actor,
                           EfResolvedAt := (if decision = ''retry'' then 0 else UnixMilli (BzNow b)),
                           EfLease := 0, EfGen := EfGen x + 1\<rparr>) b;
                         b2 = b1\<lparr>BzDecisions := BzDecisions b1 @ [\<lparr>EdKey = key, EdEffect = k, EdActor = actor,
                           EdDecision = decision, EdReason = reason, EdClass = cls, EdGen = gen\<rparr>]\<rparr>
                     in Inr (durableEvent (EfInst f) ''effect-resolved'' actor b2))))"

section \<open>Starting an order\<close>

text \<open>
  The agent of an order, \<open>durableAgent\<close>: the internal one for SSH and \<open>SERVER-AGENT\<close> jobs, otherwise
  the least loaded agent that can run the job.  \<open>token_ok\<close> says which external agents have a valid token.
\<close>

definition agent_ready :: "(string \<Rightarrow> bool) \<Rightarrow> Biz store \<Rightarrow> Principal \<Rightarrow> bool" where
  "agent_ready token_ok s p =
     (case row_of CaAgent (PrAgent p) (BzCapacity (Business s)) of
        None \<Rightarrow> False
      | Some c \<Rightarrow> CaAvailable c \<and> CaSeen c > UnixMilli (BzWall (Business s) - 15 * second) \<and>
          agent_load s (PrAgent p) < CaSlots c \<and> agent_load s (PrAgent p) < CaPending c \<and>
          (PrInternal p \<or> token_ok (PrAgent p)))"

definition durableAgent :: "string \<Rightarrow> (string \<Rightarrow> bool) \<Rightarrow> JobDefinition \<Rightarrow> Biz store \<Rightarrow> string option" where
  "durableAgent internal token_ok d s =
     (if EqualFold (JobType d) ''SSH'' \<or> AgentID d = ''SERVER-AGENT'' then (if internal = [] then None else Some internal)
      else map_option PrAgent (List.find (\<lambda>p.
             \<not> (PrInternal p \<and> PrAgent p \<noteq> internal) \<and> (AgentID d = [] \<or> AgentID d = PrAgent p) \<and>
             Capability \<in> set (split_on (CHR '','') (PrCaps p)) \<and>
             ToUpper (JobType d) \<in> set (split_on (CHR '','') (PrCaps p)))
           (sort_key (\<lambda>p. (agent_load s (PrAgent p), PrAgent p)) (filter (agent_ready token_ok s) (Principals s)))))"

definition start_intent :: "LabOrder \<Rightarrow> string" where
  "start_intent ord =
     (if LoCurrent ord = [] then ''start'' else if LoState ord = OFailed then ''retry'' else ''rerun'')"

text \<open>Two transactions of the engine; the second may be refused, and the first stays.\<close>

definition startDurable ::
  "Biz engine \<Rightarrow> int \<Rightarrow> string \<Rightarrow> string \<Rightarrow> string \<Rightarrow> (string \<Rightarrow> bool) \<Rightarrow> string \<Rightarrow> JobDefinition \<Rightarrow> Biz store \<Rightarrow> Biz store" where
  "startDurable e now oid nid internal token_ok k d s =
     (if \<not> BzLeads (Business s) then s
      else case durableAgent internal token_ok d s of
        None \<Rightarrow> s
      | Some agent \<Rightarrow>
          (case CreateRuntimeOrder e oid k s of
             Inl _ \<Rightarrow> s
           | Inr (ord, s1) \<Rightarrow>
               (case StartAttempt e now nid (LoId ord) agent (''runtime:'' @ Itoa (LoAttempt ord + 1)) (start_intent ord) s1 of
                  Inl _ \<Rightarrow> s1
                | Inr (a, s2) \<Rightarrow> s2)))"

section \<open>The store the engine sees\<close>

text \<open>The columns of \<open>instances\<close>, the ledger and the dailies that \<open>CreateRuntimeOrder\<close> reads.\<close>

definition source_view :: "Biz \<Rightarrow> string \<Rightarrow> SourceRow option" where
  "source_view b k =
     (case biz_inst b k of
        None \<Rightarrow> None
      | Some i \<Rightarrow> Some \<lparr>SrDef = IDefID i, SrStatus = IStatus i, SrSnapshot = ISnapshot i, SrExpected = biz_sum b k,
          SrDaily = (case row_of LrInst k (BzLedger b) of None \<Rightarrow> None
                     | Some l \<Rightarrow> map_option DrState (row_of DrDate (LrDate l) (BzDailies b)))\<rparr>)"

definition synced :: "Biz store \<Rightarrow> Biz store" where
  "synced s = s\<lparr>Sources := source_view (Business s)\<rparr>"

end
