(* ===== verification/ExecutionHooks.thy ===== *)
theory ExecutionHooks
  imports ExecutionRuns
begin

text \<open>
  What the engine promises to its hooks.  The view of the store (\<open>run_view\<close>) gives, for each
  instance, the current execution of its runtime order and whether it is live.  A transaction of the
  engine either leaves view and business tables alone, or runs the transition hook exactly once: to
  plan an execution where none is live, on the live one, or to end it.  \<open>business\<close> is the contract of
  a hook that keeps an invariant between the view and its tables; the engine's steps keep it too.
\<close>

section \<open>The view\<close>

definition runtime_order_of :: "'b store \<Rightarrow> string \<Rightarrow> LabOrder option" where
  "runtime_order_of s k = List.find (\<lambda>x. LoRuntime x \<and> LoSource x = k) (Orders s)"

definition order_view :: "LabOrder \<Rightarrow> string \<times> bool" where
  "order_view x = (LoCurrent x, LoCurrent x \<noteq> [] \<and> \<not> order_terminal (LoState x))"

definition run_view :: "'b store \<Rightarrow> string \<Rightarrow> string \<times> bool" where
  "run_view s k = (case runtime_order_of s k of None \<Rightarrow> ([], False) | Some x \<Rightarrow> order_view x)"

text \<open>Keys of runtime orders are derived from the instance, so an instance has one at most.\<close>

definition runtime_keys :: "'b store \<Rightarrow> bool" where
  "runtime_keys s \<longleftrightarrow> keys_distinct LoKey (Orders s) \<and> (\<forall>x\<in>set (Orders s). LoRuntime x \<longrightarrow> LoKey x = ''runtime:'' @ LoSource x)"

lemma find_unique:
  assumes "x \<in> set xs" "P x" "\<And>y. y \<in> set xs \<Longrightarrow> P y \<Longrightarrow> y = x"
  shows "List.find P xs = Some x"
proof -
  have "List.find P xs \<noteq> None" using assms(1,2) by (auto simp: find_None_iff)
  then obtain y where y: "List.find P xs = Some y" by auto
  then have "y \<in> set xs" "P y" by (auto simp: find_Some_iff)
  then show ?thesis using y assms(3) by simp
qed

lemma runtime_unique:
  assumes "runtime_keys s" "x \<in> set (Orders s)" "y \<in> set (Orders s)" "LoRuntime x" "LoRuntime y" "LoSource x = LoSource y"
  shows "x = y"
proof -
  have "LoKey x = LoKey y" "distinct (map LoKey (Orders s))" using assms by (simp_all add: runtime_keys_def keys_distinct_def)
  then show ?thesis using assms(2,3) by (metis distinct_map inj_on_def)
qed

lemma view_of_order:
  assumes "runtime_keys s" "x \<in> set (Orders s)" "LoRuntime x"
  shows "run_view s (LoSource x) = order_view x" "runtime_order_of s (LoSource x) = Some x"
proof -
  have "List.find (\<lambda>y. LoRuntime y \<and> LoSource y = LoSource x) (Orders s) = Some x"
    by (rule find_unique) (use assms runtime_unique [OF assms(1) _ assms(2)] in auto)
  then show "run_view s (LoSource x) = order_view x" "runtime_order_of s (LoSource x) = Some x"
    by (simp_all add: run_view_def runtime_order_of_def)
qed

lemma view_same: "Orders s' = Orders s \<Longrightarrow> run_view s' = run_view s"
  by (simp add: run_view_def runtime_order_of_def fun_eq_iff)

lemma runtime_keys_same: "Orders s' = Orders s \<Longrightarrow> runtime_keys s' = runtime_keys s"
  by (simp add: runtime_keys_def)

lemma find_map: "List.find P (map f xs) = map_option f (List.find (P \<circ> f) xs)"
  by (induction xs) auto

text \<open>A change of one order that keeps its identity changes the view at its instance only.\<close>

definition keeps_tags :: "LabOrder \<Rightarrow> LabOrder \<Rightarrow> bool" where
  "keeps_tags x y \<longleftrightarrow> LoId y = LoId x \<and> LoKey y = LoKey x \<and> LoSource y = LoSource x \<and> LoRuntime y = LoRuntime x"

lemma runtime_keys_update:
  assumes "\<And>x. keeps_tags x (g x)" "Orders s' = update_where p g (Orders s)" "runtime_keys s"
  shows "runtime_keys s'"
  using assms keys_distinct_update_where [of p LoKey g "Orders s"]
  by (auto simp: runtime_keys_def keeps_tags_def set_update_where)

lemma runtime_order_update:
  assumes "\<And>x. keeps_tags x (g x)" "Orders s' = update_where p g (Orders s)"
  shows "runtime_order_of s' k = map_option (\<lambda>x. if p x then g x else x) (runtime_order_of s k)"
proof -
  have "(\<lambda>x. LoRuntime x \<and> LoSource x = k) \<circ> (\<lambda>x. if p x then g x else x) = (\<lambda>x. LoRuntime x \<and> LoSource x = k)"
    using assms(1) by (auto simp: keeps_tags_def fun_eq_iff)
  then show ?thesis by (simp add: runtime_order_of_def assms(2) update_where_def find_map)
qed

lemma view_update:
  assumes inv: "exec_inv s" "runtime_keys s" and x: "order_of s (LoId x) = Some x" and g: "\<And>x. keeps_tags x (g x)"
    and s': "Orders s' = update_where (\<lambda>y. LoId y = LoId x) g (Orders s)"
  shows "run_view s' = (if LoRuntime x then (run_view s)(LoSource x := order_view (g x)) else run_view s)"
proof -
  have xs: "x \<in> set (Orders s)" using exec_inv_order [OF inv(1) x] by simp
  have uniq: "y = x" if "y \<in> set (Orders s)" "LoId y = LoId x" for y
    using that xs inv(1) row_of_in_set [of LoId "Orders s" y] x by (simp add: exec_inv_def order_of_def)
  have at: "run_view s' k = (if LoRuntime x \<and> k = LoSource x then order_view (g x) else run_view s k)" for k
  proof (cases "LoRuntime x \<and> k = LoSource x")
    case True
    then have "runtime_order_of s k = Some x" using view_of_order(2) [OF inv(2) xs] by simp
    then show ?thesis using True by (simp add: run_view_def runtime_order_update [OF g s'])
  next
    case False
    have "LoId y \<noteq> LoId x" if y: "runtime_order_of s k = Some y" for y
    proof
      assume e: "LoId y = LoId x"
      have "y \<in> set (Orders s)" "LoRuntime y" "LoSource y = k"
        using y unfolding runtime_order_of_def find_Some_iff by auto
      then show False using uniq [OF _ e] False by auto
    qed
    then show ?thesis unfolding if_not_P [OF False] by (simp add: run_view_def runtime_order_update [OF g s'] split: option.split)
  qed
  show ?thesis
  proof (cases "LoRuntime x")
    case True
    then show ?thesis by (intro ext) (simp add: at)
  next
    case False
    then show ?thesis by (intro ext) (simp add: at)
  qed
qed

lemma view_insert:
  assumes "Orders s' = Orders s @ [x]" "row_of LoKey (LoKey x) (Orders s) = None" "LoCurrent x = []"
    "LoRuntime x \<longrightarrow> LoKey x = ''runtime:'' @ LoSource x" "runtime_keys s"
  shows "run_view s' = run_view s \<and> runtime_keys s'"
proof
  show "runtime_keys s'" using assms by (auto simp: runtime_keys_def keys_distinct_snoc)
  have "find P (xs @ [x]) = (case find P xs of None \<Rightarrow> if P x then Some x else None | Some y \<Rightarrow> Some y)" for P and xs :: "LabOrder list"
    by (induction xs) auto
  then show "run_view s' = run_view s"
    by (auto simp: fun_eq_iff run_view_def runtime_order_of_def assms order_view_def split: option.splits)
qed

lemma exec_write_keys:
  assumes w: "exec_write e s s'" and k: "runtime_keys s"
  shows "runtime_keys s'"
  using w
proof cases
  case keep
  then show ?thesis using k by (simp add: runtime_keys_def)
next
  case (change j ord a f g)
  have "keeps_tags x (g x)" for x using change(5) [of x] by (simp add: same_order_def keeps_tags_def)
  then show ?thesis using runtime_keys_update [OF _ change(10)] k by blast
next
  case (plan oid ord nid a agent key intent)
  show ?thesis by (rule runtime_keys_update [OF _ plan(8) k]) (simp add: keeps_tags_def)
next
  case (create x)
  then show ?thesis using view_insert [of s' s x] k by simp
qed

section \<open>Steps that run the hook\<close>

definition end_kind :: "string \<Rightarrow> bool" where
  "end_kind kind \<longleftrightarrow> kind = ''result'' \<or> kind = ''cancelled'' \<or> kind = ''resolved''"

inductive hook_step :: "'b engine \<Rightarrow> 'b store \<Rightarrow> 'b store \<Rightarrow> bool" for e where
  quiet: "Business s' = Business s \<Longrightarrow> run_view s' = run_view s \<Longrightarrow> hook_step e s s'"
| planned: "Transition e = Some h \<Longrightarrow> h t ord a ''planned'' r = Inr (Business s') \<Longrightarrow> Business t = Business s \<Longrightarrow>
    \<not> snd (run_view s (LoSource ord)) \<Longrightarrow> run_view s' = (run_view s)(LoSource ord := (AtExec a, True)) \<Longrightarrow>
    AtExec a \<noteq> [] \<Longrightarrow> attempt_of s (AtExec a) = None \<Longrightarrow> hook_step e s s'"
| going: "Transition e = Some h \<Longrightarrow> h t ord a kind r = Inr (Business s') \<Longrightarrow> Business t = Business s \<Longrightarrow>
    \<not> end_kind kind \<Longrightarrow> kind \<noteq> ''planned'' \<Longrightarrow> run_view s (LoSource ord) = (AtExec a, True) \<Longrightarrow>
    run_view s' = run_view s \<Longrightarrow> hook_step e s s'"
| ended: "Transition e = Some h \<Longrightarrow> h t ord a kind r = Inr (Business s') \<Longrightarrow> Business t = Business s \<Longrightarrow>
    end_kind kind \<Longrightarrow> run_view s (LoSource ord) = (AtExec a, True) \<Longrightarrow>
    run_view s' = (run_view s)(LoSource ord := (AtExec a, False)) \<Longrightarrow> hook_step e s s'"

lemma event_business [core]: "Business (exec_event k x s) = Business s"
  by (simp add: exec_event_def)

text \<open>The live attempt of an order changes, and the order with it.\<close>

lemma hook_change:
  assumes inv: "exec_inv s" "runtime_keys s" and l: "lockedAttempt s k = Some (ord, a)" and c: "is_current ord a"
    and n: "\<not> exec_terminal (AtState a)" and g: "\<And>x. same_order x (g x)"
    and t: "exec_transition e ord b kind r t = Inr u" and b: "AtExec b = AtExec a" "kind \<noteq> ''planned''"
    and st: "order_terminal (LoState (g ord)) = end_kind kind"
    and s': "Orders s' = update_where (\<lambda>x. LoId x = LoId ord) g (Orders s)" "Business t = Business s" "Business s' = Business u"
  shows "hook_step e s s'"
proof -
  note a = lockedD [OF l]
  have ord: "order_of s (LoId ord) = Some ord" using a by simp
  have kt: "\<And>x. keeps_tags x (g x)" using g by (simp add: same_order_def keeps_tags_def)
  note v = view_update [OF inv ord kt s'(1)]
  have cur: "LoCurrent ord = AtExec a" "AtExec a \<noteq> []" "\<not> order_terminal (LoState ord)"
    using c current_order [OF inv(1) l c] n exec_inv_attempt [OF inv(1), of k a] a by (auto simp: is_current_def owned_def)
  have gv: "order_view (g ord) = (AtExec a, \<not> end_kind kind)"
    using g [of ord] cur st by (simp add: order_view_def same_order_def)
  show ?thesis
  proof (cases "LoRuntime ord")
    case False
    then show ?thesis using t s' v by (intro hook_step.quiet) (simp_all add: exec_transition_def)
  next
    case True
    have vs: "run_view s (LoSource ord) = (AtExec b, True)"
      using view_of_order [OF inv(2) _ True] exec_inv_order [OF inv(1) ord] cur b by (simp add: order_view_def)
    obtain h where h: "Transition e = Some h" "h t ord b kind r = Inr (Business s')"
      using t True s'(3) by (auto simp: exec_transition_def split: option.splits sum.splits)
    show ?thesis
    proof (cases "end_kind kind")
      case True
      then show ?thesis using v gv b \<open>LoRuntime ord\<close> by (intro hook_step.ended [OF h s'(2) True vs]) simp
    next
      case False
      have "run_view s' = run_view s" using v gv b vs \<open>LoRuntime ord\<close> False by (simp add: fun_upd_idem)
      then show ?thesis by (rule hook_step.going [OF h s'(2) False b(2) vs])
    qed
  qed
qed

lemma exhaust_hook:
  assumes "exec_inv s" "runtime_keys s" "lockedAttempt s k = Some (ord, a)" "is_current ord a" "\<not> exec_terminal (AtState a)"
    and c: "exhaust e ord a b s = Inr s'"
  shows "hook_step e s s'"
proof -
  obtain u where "exec_transition e ord (mark_uncertain ''delivery limit exhausted; acceptance unknown'' a) ''uncertain'' None
      (upd_order (LoId ord) (\<lambda>x. x\<lparr>LoState := OUncertain\<rparr>) (upd_attempt (AtExec a)
        (mark_uncertain ''delivery limit exhausted; acceptance unknown'')
        (upd_box (\<lambda>x. ObId x = b) (\<lambda>x. x\<lparr>ObState := Paused\<rparr>) s))) = Inr u" and s': "s' = exec_event (AtExec a) ''delivery_uncertain'' u"
    using c by (auto simp: exhaust_def Let_def split: sum.splits)
  note t = this(1)
  show ?thesis
    by (rule hook_change [OF assms(1-5) _ t, where g = "\<lambda>x. x\<lparr>LoState := OUncertain\<rparr>"])
      (use transition_core [OF t] in \<open>simp_all add: s' core same_order_def mark_uncertain_def end_kind_def order_terminal_def\<close>)
qed

lemma claimOne_hook:
  assumes inv: "exec_inv s" "runtime_keys s" and c: "claimOne e now agent k s = Inr (m, s')"
  shows "hook_step e s s'"
proof -
  obtain b ord a where b: "box_of s k = Some b" "lockedAttempt s (ObExec b) = Some (ord, a)"
    using c by (auto simp: claimOne_def split: option.splits)
  show ?thesis
  proof (cases "claim_skipped now agent b ord a")
    case True
    then show ?thesis using c b by (intro hook_step.quiet) (simp_all add: claimOne_def)
  next
    case False
    then have cur: "is_current ord a" "\<not> exec_terminal (AtState a)" by (auto simp: claim_skipped_def)
    have d: "hook_step e s (deliver e now b a s)" by (rule hook_step.quiet [OF _ view_same]) (simp_all add: deliver_def Let_def core)
    have "exhaust e ord a k s = Inr s' \<or> s' = deliver e now b a s"
      using c unfolding claimOne_def b option.case prod.case if_not_P [OF False]
      by (auto split: if_splits sum.splits)
    then show ?thesis using d exhaust_hook [OF inv b(2) cur, of e k s'] by auto
  qed
qed

lemma ack_apply_kind:
  "ack_apply now kind ord a s = Some (nxt, s1) \<Longrightarrow> kind \<in> set ack_kinds \<Longrightarrow> kind \<noteq> ''status'' \<Longrightarrow> \<not> exec_terminal (AtState a) \<Longrightarrow>
     Business s1 = Business s \<and> exec_terminal nxt = end_kind kind \<and> kind \<noteq> ''planned''"
  by (auto simp: ack_apply_def ack_kinds_def end_kind_def exec_terminal_def ack_uncertain_def ack_accepted_def ack_cancelled_def
      Let_def core split: if_splits)

lemma ack_hook:
  assumes inv: "exec_inv s" "runtime_keys s" and c: "AcknowledgeReason e now i kind reason s = Inr (rc, s')"
  shows "hook_step e s s'"
proof -
  obtain ord a where l: "lockedAttempt s (IdExec i) = Some (ord, a)"
    using c by (auto simp: AcknowledgeReason_def split: if_splits option.splits)
  show ?thesis
  proof (cases "kind = ''status'' \<or> ack_already kind a")
    case True
    then have "s' = s" using c l by (simp add: AcknowledgeReason_def split: if_splits)
    then show ?thesis by (intro hook_step.quiet) simp_all
  next
    case False
    obtain nxt s1 res where p: "ack_apply now kind ord a s = Some (nxt, s1)" "is_current ord a" "\<not> exec_terminal (AtState a)"
      "ack_commit e now kind reason ord a nxt res s1 = Inr (rc, s')" "kind \<in> set ack_kinds"
      using c l False by (auto simp: AcknowledgeReason_def split: if_splits option.splits)
    note cur = current_order [OF inv(1) l p(2)]
    obtain f g where fg: "ack_effect ord a nxt f g" "Orders s1 = update_where (\<lambda>x. LoId x = LoId ord) g (Orders s)"
      using ack_apply_effect [OF p(1) p(5) _ _ _ p(3) p(2)] False cur by auto
    have ek: "Business s1 = Business s" "exec_terminal nxt = end_kind kind" "kind \<noteq> ''planned''"
      using ack_apply_kind [OF p(1,5) _ p(3)] False by auto
    obtain b t u where t: "exec_transition e ord b kind res t = Inr u" "AtExec b = AtExec a" "Business t = Business s1"
        "Orders t = Orders s1" "Business s' = Business u" "Orders s' = Orders u"
      using p(4) by (fastforce simp: ack_commit_def Let_def core split: sum.splits if_splits)
    show ?thesis
      by (rule hook_change [OF inv l p(2,3) _ t(1,2) ek(3), where g = g])
        (use fg ek t transition_core [OF t(1)] in \<open>simp_all add: ack_effect_def\<close>)
  qed
qed

lemma cancel_boxes_business [core]: "Business (cancel_boxes now a b s) = Business s"
  by (simp add: cancel_boxes_def Let_def core)

lemma cancel_hook:
  assumes inv: "exec_inv s" "runtime_keys s" and c: "CancelFor e now oid actor s = Inr (r, s')"
  shows "hook_step e s s'"
proof -
  obtain ord a where l: "order_of s oid = Some ord" "LoCurrent ord \<noteq> []" "attempt_of s (LoCurrent ord) = Some a"
    using c by (auto simp: CancelFor_def split: if_splits option.splits)
  note cur = current_locked [OF inv(1) l]
  show ?thesis
  proof (cases "AtState a = CancelRequested \<or> AtState a = Cancelled")
    case True
    then have "s' = s" using c l by (simp add: CancelFor_def split: if_splits)
    then show ?thesis by (intro hook_step.quiet) simp_all
  next
    case False
    then have n: "\<not> exec_terminal (AtState a)" using c l by (auto simp: CancelFor_def split: if_splits)
    obtain b where b: "List.find (\<lambda>b. ObExec b = AtExec a \<and> ObKind b = DispatchMsg) (Outbox s) = Some b"
      using c l False n by (auto simp: CancelFor_def split: if_splits option.splits)
    define st where "st = (if cancel_early a b then Cancelled else CancelRequested)"
    define ost where "ost = (if cancel_early a b then OCancelled else OUncertain)"
    define kind where "kind = (if cancel_early a b then ''cancelled'' else ''cancel_requested'')"
    obtain s4 fin where t: "exec_transition e ord (a\<lparr>AtState := st\<rparr>) kind None
        (upd_order (LoId ord) (\<lambda>x. x\<lparr>LoState := ost\<rparr>) (upd_attempt (AtExec a) (\<lambda>x. x\<lparr>AtState := st, AtFinished := fin\<rparr>)
          (cancel_boxes now a b s))) = Inr s4"
      and s': "Orders s' = Orders s4" "Business s' = Business s4"
      using c l False n b unfolding st_def ost_def kind_def
      by (auto simp: CancelFor_def Let_def core split: if_splits option.splits sum.splits)
    show ?thesis
      by (rule hook_change [OF inv _ _ n _ t, where g = "\<lambda>x. x\<lparr>LoState := ost\<rparr>"])
        (use cur s' transition_core [OF t] in
          \<open>auto simp: core same_order_def end_kind_def order_terminal_def ost_def kind_def\<close>)
  qed
qed

lemma expire_hook:
  assumes inv: "exec_inv s" "runtime_keys s" and c: "expire e now k s = Inr (b, s')"
  shows "hook_step e s s'"
proof -
  obtain ord a where l: "lockedAttempt s k = Some (ord, a)" using c by (auto simp: expire_def split: option.splits)
  show ?thesis
  proof (cases "\<not> is_current ord a \<or> exec_terminal (AtState a) \<or> AtState a = Uncertain \<or> AtLease a = 0 \<or> AtLease a > now")
    case True
    then have "s' = s" using c l by (auto simp: expire_def split: if_splits)
    then show ?thesis by (intro hook_step.quiet) simp_all
  next
    case False
    then have n: "is_current ord a" "\<not> exec_terminal (AtState a)" by auto
    let ?r = "''execution lease expired; effect outcome unknown''"
    obtain u where t: "exec_transition e ord (mark_uncertain ?r a) ''uncertain'' None
        (upd_order (LoId ord) (\<lambda>x. x\<lparr>LoState := OUncertain\<rparr>) (upd_attempt k (mark_uncertain ?r) s)) = Inr u"
      and s': "s' = exec_event k ''lease_uncertain'' u"
      using c l False by (auto simp: expire_def Let_def split: sum.splits)
    show ?thesis
      by (rule hook_change [OF inv l n _ t, where g = "\<lambda>x. x\<lparr>LoState := OUncertain\<rparr>"])
        (use s' transition_core [OF t] in \<open>simp_all add: core same_order_def mark_uncertain_def end_kind_def order_terminal_def\<close>)
  qed
qed

lemma complete_hook:
  assumes inv: "exec_inv s" "runtime_keys s" and c: "Complete e now r s = Inr (rc, s')"
  shows "hook_step e s s'"
proof -
  obtain ord a where l: "lockedAttempt s (IdExec (ReIdentity r)) = Some (ord, a)"
    using c by (auto simp: Complete_def split: if_splits option.splits)
  show ?thesis
  proof (cases "AtSum a = []")
    case False
    then have "s' = s" using c l by (auto simp: Complete_def Let_def split: if_splits)
    then show ?thesis by (intro hook_step.quiet) simp_all
  next
    case True
    define f :: "AttemptRow \<Rightarrow> AttemptRow" where "f = (\<lambda>x. x\<lparr>AtState := result_state (ReExit r), AtExit := Some (ReExit r), AtOutput := ReOutput r,
      AtSum := ResultSum e (ReExit r) (ReOutput r), AtFinished := now, AtLease := 0\<rparr>)"
    obtain s4 where n: "is_current ord a" "\<not> exec_terminal (AtState a)"
      and t: "exec_transition e ord (a\<lparr>AtState := result_state (ReExit r), AtFinished := now, AtContact := now\<rparr>) ''result'' (Some r)
        (upd_box (\<lambda>b. ObExec b = AtExec a) (\<lambda>b. b\<lparr>ObState := Acked, ObLease := 0\<rparr>)
          (upd_order (LoId ord) (\<lambda>x. x\<lparr>LoState := result_order_state (ReExit r)\<rparr>) (upd_attempt (AtExec a) f s))) = Inr s4"
      and s': "Orders s' = Orders s4" "Business s' = Business s4"
      using c l True unfolding f_def by (auto simp: Complete_def Let_def core split: if_splits sum.splits)
    show ?thesis
      by (rule hook_change [OF inv l n _ t, where g = "\<lambda>x. x\<lparr>LoState := result_order_state (ReExit r)\<rparr>"])
        (use s' transition_core [OF t] in \<open>simp_all add: core same_order_def end_kind_def order_terminal_def result_order_state_def\<close>)
  qed
qed

lemma append_hook: "AppendOutput e i sq chunk s = Inr (rc, s') \<Longrightarrow> hook_step e s s'"
  by (rule hook_step.quiet [OF _ view_same]) (auto simp: AppendOutput_def core split: if_splits option.splits)

lemma resolve_hook:
  assumes inv: "exec_inv s" "runtime_keys s" and c: "Resolve e now k fence key actor decision reason stopped s = Inr (r, s')"
  shows "hook_step e s s'"
proof -
  obtain st ost code where d: "decided decision = Some (st, ost, code)"
    using c by (auto simp: Resolve_def Let_def split: if_splits option.splits)
  note dt = decided_terminal [OF d]
  obtain ord a where l: "lockedAttempt s k = Some (ord, a)"
    using c d by (auto simp: Resolve_def Let_def split: if_splits option.splits)
  show ?thesis
  proof (cases "row_of DcKey key (Decisions s)")
    case (Some x)
    then have "s' = s" using c l d by (auto simp: Resolve_def Let_def split: if_splits)
    then show ?thesis by (intro hook_step.quiet) simp_all
  next
    case None
    have n: "is_current ord a" "\<not> exec_terminal (AtState a)"
      using c l d None by (auto simp: Resolve_def Let_def exec_terminal_def split: if_splits)
    obtain b rr t s5 where t: "exec_transition e ord b ''resolved'' rr t = Inr s5" "AtExec b = AtExec a"
      and t': "Orders t = update_where (\<lambda>x. LoId x = LoId ord) (\<lambda>x. x\<lparr>LoState := ost\<rparr>) (Orders s)" "Business t = Business s"
      and s': "s' = exec_event k ''operator_resolved'' s5"
      using c l d None by (fastforce simp: Resolve_def Let_def core split: if_splits sum.splits option.splits)
    show ?thesis
      by (rule hook_change [OF inv l n _ t, where g = "\<lambda>x. x\<lparr>LoState := ost\<rparr>"])
        (use s' t' dt transition_core [OF t(1)] in \<open>simp_all add: core same_order_def end_kind_def\<close>)
  qed
qed

text \<open>A start that is not the repetition of a request.\<close>

definition plan_order :: "string \<Rightarrow> AttemptRow \<Rightarrow> LabOrder \<Rightarrow> LabOrder" where
  "plan_order nid a x = x\<lparr>LoCurrent := nid, LoAttempt := AtNumber a, LoFence := AtFence a, LoState := OActive\<rparr>"

lemma plan_order_tags: "keeps_tags x (plan_order nid a x)"
  by (simp add: keeps_tags_def plan_order_def)

lemma start_planD:
  assumes c: "StartAttempt e now nid oid agent key intent s = Inr (r, s')" and od: "order_of s oid = Some ord"
    and new: "List.find (\<lambda>a. AtOrder a = oid \<and> AtKey a = key) (Attempts s) = None"
  defines "a \<equiv> new_attempt nid ord agent key intent"
  obtains t u where "exec_transition e (plan_order nid a ord) a ''planned'' None t = Inr u" "s' = exec_event nid ''planned'' u"
    "Business t = Business s" "Orders t = update_where (\<lambda>x. LoId x = LoId ord) (plan_order nid a) (Orders s)"
    "Attempts t = Attempts s @ [a]" "RuntimeOrders t = RuntimeOrders s"
    "LoCurrent ord = [] \<or> order_terminal (LoState ord)" "attempt_of s nid = None" "r = a"
proof -
  obtain d where free: "LoCurrent ord = [] \<or> order_terminal (LoState ord)"
    and pl: "plan_attempt e now nid ord agent key intent d s = Inr (r, s')"
    using c od new by (auto simp: StartAttempt_def start_refused_def split: if_splits option.splits snapshot.splits sum.splits)
  then have cl: "\<not> list_ex (attempt_clash a) (Attempts s)" by (auto simp: plan_attempt_def a_def Let_def split: if_splits)
  have ae: "AtExec a = nid" by (simp add: a_def new_attempt_def)
  then have fresh: "attempt_of s nid = None" using cl by (auto simp: attempt_of_def row_of_None list_ex_iff attempt_clash_def)
  have f: "plan_order nid a = (\<lambda>x. x\<lparr>LoCurrent := nid, LoAttempt := AtNumber a, LoFence := AtFence a, LoState := OActive\<rparr>)"
    by (simp add: plan_order_def fun_eq_iff)
  define b where "b = new_box (nid @ ''-dispatch'') a DispatchMsg (Some d) now"
  define t where "t = upd_order (LoId ord) (plan_order nid a) (s\<lparr>Attempts := Attempts s @ [a], Outbox := Outbox s @ [b]\<rparr>)"
  have "plan_attempt e now nid ord agent key intent d s =
      (if list_ex (attempt_clash a) (Attempts s) \<or> list_ex (box_clash b) (Outbox s) then Inl ErrStorage
       else case exec_transition e (plan_order nid a ord) a ''planned'' None t of
         Inl x \<Rightarrow> Inl x | Inr s3 \<Rightarrow> Inr (a, exec_event nid ''planned'' s3))"
    unfolding plan_attempt_def Let_def t_def b_def f unfolding a_def by (rule refl)
  then obtain u where u: "exec_transition e (plan_order nid a ord) a ''planned'' None t = Inr u" "s' = exec_event nid ''planned'' u" "r = a"
    using pl by (auto split: if_splits sum.splits)
  show thesis
    by (rule that [OF u(1,2) _ _ _ _ free fresh u(3)]) (simp_all add: t_def upd_order_def)
qed

lemma start_hook:
  assumes inv: "exec_inv s" "runtime_keys s" and c: "StartAttempt e now nid oid agent key intent s = Inr (r, s')" and n: "nid \<noteq> []"
  shows "hook_step e s s'"
proof -
  obtain ord where od: "order_of s oid = Some ord"
    using c by (auto simp: StartAttempt_def split: if_splits option.splits sum.splits)
  show ?thesis
  proof (cases "List.find (\<lambda>a. AtOrder a = oid \<and> AtKey a = key) (Attempts s)")
    case (Some x)
    then have "s' = s" using c od by (auto simp: StartAttempt_def split: if_splits)
    then show ?thesis by (intro hook_step.quiet) simp_all
  next
    case None
    have lo: "LoId ord = oid" and ins: "ord \<in> set (Orders s)" using exec_inv_order [OF inv(1) od] by simp_all
    define a where "a = new_attempt nid ord agent key intent"
    have ae: "AtExec a = nid" by (simp add: a_def new_attempt_def)
    obtain t u where t: "exec_transition e (plan_order nid a ord) a ''planned'' None t = Inr u" "Business t = Business s"
        "Orders t = update_where (\<lambda>x. LoId x = LoId ord) (plan_order nid a) (Orders s)" and s': "s' = exec_event nid ''planned'' u"
      and free: "LoCurrent ord = [] \<or> order_terminal (LoState ord)" and fresh: "attempt_of s nid = None"
      by (rule start_planD [OF c od None, folded a_def]) blast
    have os': "Orders s' = update_where (\<lambda>x. LoId x = LoId ord) (plan_order nid a) (Orders s)"
      using transition_core [OF t(1)] t(3) by (simp add: s' core)
    note v = view_update [OF inv _ plan_order_tags os']
    have fv: "order_view (plan_order nid a ord) = (nid, True)" using n by (simp add: plan_order_def order_view_def order_terminal_def)
    show ?thesis
    proof (cases "LoRuntime ord")
      case False
      then show ?thesis using t v od lo by (intro hook_step.quiet) (simp_all add: s' core exec_transition_def plan_order_def)
    next
      case True
      obtain h where h: "Transition e = Some h" "h t (plan_order nid a ord) a ''planned'' None = Inr (Business s')"
        using t(1) True by (auto simp: s' core exec_transition_def plan_order_def split: option.splits sum.splits)
      have "run_view s (LoSource ord) = order_view ord" by (rule view_of_order(1) [OF inv(2) ins True])
      then have "\<not> snd (run_view s (LoSource (plan_order nid a ord)))" using free by (auto simp: order_view_def plan_order_def)
      then show ?thesis using v fv od lo True ae n fresh
        by (intro hook_step.planned [OF h t(2)]) (simp_all add: plan_order_def)
    qed
  qed
qed

lemma insert_hook:
  assumes "insert_order_row (new_order e' nid src key snap ev rt) s = Inr s'" "rt \<longrightarrow> key = ''runtime:'' @ src" "runtime_keys s"
  shows "hook_step e s s'"
proof (cases "row_of LoKey key (Orders s)")
  case None
  let ?x = "new_order e' nid src key snap ev rt"
  have o: "Orders s' = Orders s @ [?x]" "Business s' = Business s" using None assms(1) by (auto simp: insert_order_row_def new_order_def split: if_splits)
  have "run_view s' = run_view s" using view_insert [OF o(1) _ _ _ assms(3)] None assms(2) by (simp add: new_order_def)
  then show ?thesis by (rule hook_step.quiet [OF o(2)])
next
  case (Some x)
  then show ?thesis using assms(1) by (intro hook_step.quiet) (auto simp: insert_order_row_def new_order_def split: if_splits)
qed

lemma create_hook: "CreateOrder e' nid src key s = Inr (r, s') \<Longrightarrow> runtime_keys s \<Longrightarrow> hook_step e s s'"
  by (auto simp: CreateOrder_def intro: hook_step.quiet insert_hook split: if_splits option.splits sum.splits)

lemma hook_more: "hook_step e s t \<Longrightarrow> Business s' = Business t \<Longrightarrow> Orders s' = Orders t \<Longrightarrow> hook_step e s s'"
proof (induction rule: hook_step.induct)
  case (quiet t s)
  show ?case by (rule hook_step.quiet) (use quiet view_same [of s' t] in simp_all)
next
  case (planned h t0 ord a r t s)
  show ?case by (rule hook_step.planned [of e h t0 ord a r]) (use planned view_same [of s' t] in simp_all)
next
  case (going h t0 ord a kind r t s)
  show ?case by (rule hook_step.going [of e h t0 ord a kind r]) (use going view_same [of s' t] in simp_all)
next
  case (ended h t0 ord a kind r t s)
  show ?case by (rule hook_step.ended [of e h t0 ord a kind r]) (use ended view_same [of s' t] in simp_all)
qed

lemma create_runtime_hook: "CreateRuntimeOrder e' nid i s = Inr (r, s') \<Longrightarrow> runtime_keys s \<Longrightarrow> hook_step e s s'"
  by (auto simp: CreateRuntimeOrder_def Let_def intro: hook_step.quiet insert_hook hook_more [OF insert_hook]
      split: if_splits option.splits sum.splits)

section \<open>The contract of a hook\<close>

text \<open>
  \<open>keeps v b\<close>: the tables \<open>b\<close> fit the view \<open>v\<close>.  The laws say what the transition hook does with
  it; the engine's operations then keep it, whatever their order.
\<close>

locale business =
  fixes e :: "'b engine" and keeps :: "(string \<Rightarrow> string \<times> bool) \<Rightarrow> 'b \<Rightarrow> bool"
  assumes plan_law: "Transition e = Some h \<Longrightarrow> h t ord a ''planned'' r = Inr b \<Longrightarrow> keeps v (Business t) \<Longrightarrow>
      \<not> snd (v (LoSource ord)) \<Longrightarrow> AtExec a \<noteq> [] \<Longrightarrow> keeps (v(LoSource ord := (AtExec a, True))) b"
    and going_law: "Transition e = Some h \<Longrightarrow> h t ord a kind r = Inr b \<Longrightarrow> keeps v (Business t) \<Longrightarrow>
      \<not> end_kind kind \<Longrightarrow> kind \<noteq> ''planned'' \<Longrightarrow> v (LoSource ord) = (AtExec a, True) \<Longrightarrow> keeps v b"
    and end_law: "Transition e = Some h \<Longrightarrow> h t ord a kind r = Inr b \<Longrightarrow> keeps v (Business t) \<Longrightarrow>
      end_kind kind \<Longrightarrow> v (LoSource ord) = (AtExec a, True) \<Longrightarrow> keeps (v(LoSource ord := (AtExec a, False))) b"
begin

definition fits :: "'b store \<Rightarrow> bool" where
  "fits s \<longleftrightarrow> exec_inv s \<and> runtime_keys s \<and> keeps (run_view s) (Business s)"

lemma hook_keeps: "hook_step e s s' \<Longrightarrow> keeps (run_view s) (Business s) \<Longrightarrow> keeps (run_view s') (Business s')"
proof (induction rule: hook_step.induct)
  case (quiet s' s)
  then show ?case by simp
next
  case (planned h t ord a r s' s)
  show ?case unfolding planned.hyps(5) by (rule plan_law [of h t ord a r]) (simp_all add: planned)
next
  case (going h t ord a kind r s' s)
  show ?case unfolding going.hyps(7) by (rule going_law [of h t ord a kind r]) (simp_all add: going)
next
  case (ended h t ord a kind r s' s)
  show ?case unfolding ended.hyps(6) by (rule end_law [of h t ord a kind r]) (simp_all add: ended)
qed

lemma write_fits: "exec_write e s s' \<Longrightarrow> hook_step e s s' \<Longrightarrow> fits s \<Longrightarrow> fits s'"
  using exec_write_inv exec_write_keys hook_keeps by (auto simp: fits_def)

lemma claim_fits: "claim_loop e now agent ks s = (r, s') \<Longrightarrow> fits s \<Longrightarrow> fits s'"
proof (induction ks arbitrary: s)
  case Nil
  then show ?case by simp
next
  case (Cons k ks)
  show ?case
  proof (cases "claimOne e now agent k s")
    case (Inl x)
    then show ?thesis using Cons.prems by simp
  next
    case (Inr p)
    obtain m t where p: "p = (m, t)" by (cases p)
    have "fits t" using write_fits claimOne_write claimOne_hook Inr p Cons.prems(2) by (metis fits_def)
    then show ?thesis using Cons.IH [of t] Cons.prems(1) Inr p by (cases m) auto
  qed
qed

lemma expire_fits: "expire_all e now ks n s = (x, m, s') \<Longrightarrow> fits s \<Longrightarrow> fits s'"
proof (induction ks arbitrary: n s)
  case Nil
  then show ?case by simp
next
  case (Cons k ks)
  show ?case
  proof (cases "expire e now k s")
    case (Inl x)
    then show ?thesis using Cons.prems by simp
  next
    case (Inr p)
    obtain b t where p: "p = (b, t)" by (cases p)
    have "fits t" using write_fits expire_write expire_hook Inr p Cons.prems(2) by (metis fits_def)
    then show ?thesis using Cons.IH [of _ t] Cons.prems(1) Inr p by (auto split: if_splits)
  qed
qed

text \<open>One transaction of the engine; the callback of \<open>RuntimeUpdate\<close> and the writers of the business
  tables are the caller's.\<close>

lemma engine_fits:
  assumes "fits s"
  shows "CreateOrder e nid src key s = Inr (ord, s') \<Longrightarrow> fits s'"
    and "CreateRuntimeOrder e nid i s = Inr (ord, s') \<Longrightarrow> fits s'"
    and "StartAttempt e now nid oid agent key intent s = Inr (a, s') \<Longrightarrow> nid \<noteq> [] \<Longrightarrow> fits s'"
    and "ClaimCapacity e now agent available s = (res, s') \<Longrightarrow> fits s'"
    and "AcknowledgeReason e now idn kind reason s = Inr (rc, s') \<Longrightarrow> fits s'"
    and "CancelFor e now oid actor s = Inr (a, s') \<Longrightarrow> fits s'"
    and "Reconcile e now s = (x, n, s') \<Longrightarrow> fits s'"
    and "Complete e now r s = Inr (rc, s') \<Longrightarrow> fits s'"
    and "AppendOutput e idn sq chunk s = Inr (rc, s') \<Longrightarrow> fits s'"
    and "Resolve e now k fence key actor decision reason stopped s = Inr (a, s') \<Longrightarrow> fits s'"
proof -
  note i = assms [unfolded fits_def]
  have k: "exec_inv s" "runtime_keys s" using i by simp_all
  show "CreateOrder e nid src key s = Inr (ord, s') \<Longrightarrow> fits s'"
    by (rule write_fits [OF create_write create_hook assms]) (use k in auto)
  show "CreateRuntimeOrder e nid i s = Inr (ord, s') \<Longrightarrow> fits s'"
    by (rule write_fits [OF create_runtime_write create_runtime_hook assms]) (use k in auto)
  show "StartAttempt e now nid oid agent key intent s = Inr (a, s') \<Longrightarrow> nid \<noteq> [] \<Longrightarrow> fits s'"
    by (rule write_fits [OF start_write start_hook [OF k] assms])
  show "ClaimCapacity e now agent available s = (res, s') \<Longrightarrow> fits s'"
    using assms by (auto simp: ClaimCapacity_def intro: claim_fits split: if_splits)
  show "AcknowledgeReason e now idn kind reason s = Inr (rc, s') \<Longrightarrow> fits s'"
    by (rule write_fits [OF ack_write [OF k(1)] ack_hook [OF k] assms])
  show "CancelFor e now oid actor s = Inr (a, s') \<Longrightarrow> fits s'"
    by (rule write_fits [OF cancel_write [OF k(1)] cancel_hook [OF k] assms])
  show "Reconcile e now s = (x, n, s') \<Longrightarrow> fits s'"
    using assms unfolding Reconcile_def by (rule expire_fits [rotated])
  show "Complete e now r s = Inr (rc, s') \<Longrightarrow> fits s'"
    by (rule write_fits [OF complete_write [OF k(1)] complete_hook [OF k] assms])
  show "AppendOutput e idn sq chunk s = Inr (rc, s') \<Longrightarrow> fits s'"
    by (rule write_fits [OF append_write [OF k(1)] append_hook assms])
  show "Resolve e now k fence key actor decision reason stopped s = Inr (a, s') \<Longrightarrow> fits s'" for k
    by (rule write_fits [OF resolve_write [OF k(1)] resolve_hook [OF k] assms])
qed

text \<open>Writes that leave the orders alone.\<close>

lemma business_fits:
  "fits s \<Longrightarrow> keeps (run_view s) b \<Longrightarrow> Orders s' = Orders s \<Longrightarrow> Attempts s' = Attempts s \<Longrightarrow> Business s' = b \<Longrightarrow> fits s'"
  using exec_inv_core [of s' s] runtime_keys_same [of s' s] view_same [of s' s] by (simp add: fits_def)

end

end
