(* ===== verification/DurableInv.thy ===== *)
theory DurableInv
  imports DurableOps ExecutionHooks
begin

text \<open>
  Invariants between the engine and the business tables in durable mode: the status of an instance
  tells whether its order has a live execution (\<open>status_fits\<close>), holds belong to orders that run or
  wait for a retry (\<open>holds_fit\<close>), and effects are only ever appended by the hooks
  (\<open>effects_grow\<close>).  Each is an instance of the contract \<^theory_text>\<open>business\<close>.
\<close>

named_theorems biz "what the operations leave alone"

section \<open>Quiet writes\<close>

lemma else_Inr: "(if P then Inl x else y) = Inr z \<longleftrightarrow> \<not> P \<and> y = Inr z"
  by simp

definition fresh_effect :: "EffectRow \<Rightarrow> bool" where
  "fresh_effect x \<longleftrightarrow> EfGen x = 0 \<and> (EfState x = EPending \<or> EfState x = EDone)"

definition insert1 :: "EffectRow list \<Rightarrow> EffectRow list \<Rightarrow> bool" where
  "insert1 es es' \<longleftrightarrow> (\<exists>x. es' = es @ [x] \<and> row_of EfId (EfId x) es = None \<and> fresh_effect x)"

definition effects_grow :: "Biz \<Rightarrow> Biz \<Rightarrow> bool" where
  "effects_grow b b' \<longleftrightarrow> insert1\<^sup>*\<^sup>* (BzEffects b) (BzEffects b') \<and> BzDecisions b' = BzDecisions b"

text \<open>A write that touches no instance and no hold.\<close>

definition quiet_biz :: "Biz \<Rightarrow> Biz \<Rightarrow> bool" where
  "quiet_biz b b' \<longleftrightarrow> BzInsts b' = BzInsts b \<and> BzHolds b' = BzHolds b \<and> effects_grow b b'"

lemma effects_grow_refl [simp, intro]: "effects_grow b b"
  by (simp add: effects_grow_def)

lemma effects_grow_trans: "effects_grow a b \<Longrightarrow> effects_grow b c \<Longrightarrow> effects_grow a c"
  by (auto simp: effects_grow_def)

lemma effects_grow_same: "BzEffects b' = BzEffects b \<Longrightarrow> BzDecisions b' = BzDecisions b \<Longrightarrow> effects_grow b b'"
  by (simp add: effects_grow_def)

lemma effects_grow_insert:
  "BzEffects b' = BzEffects b @ [x] \<Longrightarrow> row_of EfId (EfId x) (BzEffects b) = None \<Longrightarrow> fresh_effect x \<Longrightarrow>
     BzDecisions b' = BzDecisions b \<Longrightarrow> effects_grow b b'"
  by (auto simp: effects_grow_def insert1_def intro!: r_into_rtranclp)

lemma silent_refl [simp, intro]: "quiet_biz b b"
  by (simp add: quiet_biz_def)

lemma silent_trans: "quiet_biz a b \<Longrightarrow> quiet_biz b c \<Longrightarrow> quiet_biz a c"
  by (auto simp: quiet_biz_def intro: effects_grow_trans)

lemma silent_same:
  "BzInsts b' = BzInsts b \<Longrightarrow> BzHolds b' = BzHolds b \<Longrightarrow> BzEffects b' = BzEffects b \<Longrightarrow> BzDecisions b' = BzDecisions b \<Longrightarrow>
     quiet_biz b b'"
  by (simp add: quiet_biz_def effects_grow_same)

lemma quiet_fold: "(\<And>x b. quiet_biz b (f x b)) \<Longrightarrow> quiet_biz b (fold f xs b)"
  by (induction xs arbitrary: b) (auto intro: silent_trans)

lemma quiet_each: "(\<And>x b b'. x \<in> set xs \<Longrightarrow> f x b = Inr b' \<Longrightarrow> quiet_biz b b') \<Longrightarrow> each f xs b = Inr b' \<Longrightarrow> quiet_biz b b'"
  by (rule each_rel [of xs f quiet_biz]) (auto intro: silent_trans)

lemma event_quiet: "quiet_biz b (durableEvent k kind actor b)"
  by (rule silent_same) (simp_all add: durableEvent_def)

lemma fresh_new: "st = EPending \<or> st = EDone \<Longrightarrow> fresh_effect (new_effect eid ex k kind p st b)"
  by (simp add: fresh_effect_def new_effect_def)

lemma insert_quiet: "fresh_effect x \<Longrightarrow> quiet_biz b (insert_effect x b)"
  by (auto simp: quiet_biz_def insert_effect_def intro: effects_grow_insert)

lemma condition_quiet: "quiet_biz b (durableCondition n odate actor rem b)"
  by (rule silent_same) (auto simp: durableCondition_def split: prod.splits)

lemma out_quiet: "quiet_biz b (durableOut d odate actor b)"
  unfolding durableOut_def by (rule silent_trans [OF quiet_fold quiet_fold]) (rule condition_quiet)+

lemma locals_quiet: "quiet_biz b (set_locals k ms b)"
  unfolding set_locals_def by (rule quiet_fold) (rule event_quiet)

lemma notification_quiet:
  "durableNotificationTx r ctx b = (p, st, b') \<Longrightarrow>
     quiet_biz b b' \<and> (st = EPending \<or> st = EDone) \<and> BzEffects b' = BzEffects b"
  by (auto simp: durableNotificationTx_def Let_def intro!: silent_same split: if_splits)

lemma notify_quiet:
  "durableActionNotify d rule k b = (p, st, b') \<Longrightarrow>
     quiet_biz b b' \<and> (st = EPending \<or> st = EDone) \<and> BzEffects b' = BzEffects b"
  unfolding durableActionNotify_def Let_def by (rule notification_quiet)

lemma alert_quiet: "quiet_biz b (alert_one ex k d status ctx r b)"
proof -
  obtain p st b1 where n: "durableNotificationTx r ctx b = (p, st, b1)" by (cases "durableNotificationTx r ctx b")
  have "quiet_biz b (insert_effect (new_effect (ex @ ''-alert-'' @ ArId r) ex k ''notify'' p st b1) b1)"
    using silent_trans [OF _ insert_quiet [OF fresh_new]] notification_quiet [OF n] by blast
  then show ?thesis by (simp add: alert_one_def Let_def n split: option.split)
qed

lemma alerts_quiet: "quiet_biz b (durableAlerts c a d k status budget b)"
  using quiet_fold [of "alert_one (AtExec a) k d status (durable_context a d k status budget b)"] alert_quiet
  by (simp add: durableAlerts_def)

lemma put_effect_quiet:
  "quiet_biz b b1 \<Longrightarrow> st = EPending \<or> st = EDone \<Longrightarrow>
     quiet_biz b (durableEvent k kind actor (insert_effect (new_effect eid ex k' kind' p st b1) b1))"
  by (meson silent_trans event_quiet insert_quiet fresh_new)

lemma rule_quiet:
  assumes "durable_rule ex k d odate retry evs ir (final, code, b) = Inr (final', code', b')"
  shows "quiet_biz b b' \<and> (final' = final \<or> final' = StatusOK \<and> final = StatusNotOK \<and> \<not> retry)"
proof -
  obtain n rule where ir: "ir = (n, rule)" by (cases ir)
  obtain p st b1 where nt: "durableActionNotify d rule k b = (p, st, b1)" by (cases "durableActionNotify d rule k b")
  then have "quiet_biz b b1 \<and> (st = EPending \<or> st = EDone)" using notify_quiet by blast
  then show ?thesis
    using assms nt put_effect_quiet [of b b st] put_effect_quiet [of b b1 st] put_effect_quiet [OF silent_refl] put_effect_quiet [OF condition_quiet]
    by (auto simp: durable_rule_def ir Let_def nt split: if_splits)
qed

lemma rules_quiet:
  "each (durable_rule ex k d odate retry evs) irs (final, code, b) = Inr (final', code', b') \<Longrightarrow>
     quiet_biz b b' \<and> (final' = final \<or> final' = StatusOK \<and> final = StatusNotOK \<and> \<not> retry)"
proof (induction irs arbitrary: final code b)
  case Nil
  then show ?case by simp
next
  case (Cons ir irs)
  then obtain f1 c1 b1 where s: "durable_rule ex k d odate retry evs ir (final, code, b) = Inr (f1, c1, b1)"
    "each (durable_rule ex k d odate retry evs) irs (f1, c1, b1) = Inr (final', code', b')"
    by (auto split: sum.splits)
  show ?case using rule_quiet [OF s(1)] Cons.IH [OF s(2)] silent_trans by blast
qed

section \<open>What each transition does to instances and holds\<close>

definition busy :: "InstanceStatus \<Rightarrow> bool" where
  "busy st \<longleftrightarrow> st = StatusRunning \<or> st = StatusUncertain"

definition wanted :: "JobDefinition \<Rightarrow> string set" where
  "wanted d = fst ` {w \<in> set (ResourcesOf d). snd w > 0}"

text \<open>Reserving: the holds of the instance on the wanted resources now belong to the execution.\<close>

lemma put_hold_set:
  assumes "h \<in> set (BzHolds (put_hold k name q ex b))"
  shows "h \<in> set (BzHolds b) \<and> \<not> (HoInst h = k \<and> HoName h = name) \<or> HoInst h = k \<and> HoName h = name \<and> HoExec h = ex \<and> HoQty h = q"
proof (cases "hold_of b k name")
  case None
  then have "\<not> (HoInst x = k \<and> HoName x = name)" if "x \<in> set (BzHolds b)" for x
    using that by (auto simp: hold_of_def find_None_iff)
  then show ?thesis using assms None by (auto simp: put_hold_def)
next
  case (Some y)
  then show ?thesis using assms by (auto simp: put_hold_def set_update_where split: if_splits)
qed

lemma ensure_holds [biz]: "BzHolds (ensure_resource name b) = BzHolds b" "BzInsts (ensure_resource name b) = BzInsts b"
  "BzEffects (ensure_resource name b) = BzEffects b" "BzDecisions (ensure_resource name b) = BzDecisions b"
  by (simp_all add: ensure_resource_def)

lemma put_hold_frame [biz]: "BzInsts (put_hold k name q ex b) = BzInsts b" "BzEffects (put_hold k name q ex b) = BzEffects b"
  "BzDecisions (put_hold k name q ex b) = BzDecisions b" "BzResources (put_hold k name q ex b) = BzResources b"
  by (simp_all add: put_hold_def)

lemma reserve_one_cases:
  assumes "reserve_one s k ex bypass (name, q) b = Inr b'"
  shows "q \<le> 0 \<and> b' = b \<or> q > 0 \<and> b' = put_hold k name q ex (ensure_resource name b)"
  using assms by (auto simp: reserve_one_def Let_def split: if_splits option.splits)

lemma reserve_frame:
  "durableResources s k ex want bypass b = Inr b' \<Longrightarrow> BzInsts b' = BzInsts b \<and> BzEffects b' = BzEffects b \<and> BzDecisions b' = BzDecisions b"
  unfolding durableResources_def
  by (rule each_rel [of want "reserve_one s k ex bypass" "\<lambda>b b'. BzInsts b' = BzInsts b \<and> BzEffects b' = BzEffects b \<and> BzDecisions b' = BzDecisions b"])
    (auto simp: biz dest: reserve_one_cases)

lemma reserve_holds:
  assumes "durableResources s k ex want bypass b = Inr b'" "h \<in> set (BzHolds b')"
  shows "h \<in> set (BzHolds b) \<and> \<not> (HoInst h = k \<and> HoName h \<in> fst ` {w \<in> set want. snd w > 0}) \<or>
    HoInst h = k \<and> HoExec h = ex \<and> HoName h \<in> fst ` {w \<in> set want. snd w > 0}"
  using assms unfolding durableResources_def
proof (induction want arbitrary: b)
  case Nil
  then show ?case by simp
next
  case (Cons w want)
  obtain name q where w: "w = (name, q)" by (cases w)
  obtain b1 where b1: "reserve_one s k ex bypass (name, q) b = Inr b1" "each (reserve_one s k ex bypass) want b1 = Inr b'"
    using Cons.prems(1) w by (auto split: sum.splits)
  note ih = Cons.IH [OF b1(2) Cons.prems(2)]
  from reserve_one_cases [OF b1(1)] show ?case
  proof
    assume "q \<le> 0 \<and> b1 = b"
    then show ?thesis using ih by (auto simp: w)
  next
    assume p: "q > 0 \<and> b1 = put_hold k name q ex (ensure_resource name b)"
    then have "h \<in> set (BzHolds b1) \<Longrightarrow> h \<in> set (BzHolds b) \<and> \<not> (HoInst h = k \<and> HoName h = name) \<or> HoInst h = k \<and> HoName h = name \<and> HoExec h = ex"
      using put_hold_set [of h k name q ex "ensure_resource name b"] by (auto simp: biz)
    moreover have "fst ` {v \<in> set (w # want). snd v > 0} = insert name (fst ` {v \<in> set want. snd v > 0})"
      using p by (force simp: w)
    ultimately show ?thesis using ih by auto
  qed
qed

lemma inst_row: "biz_inst b k = Some i \<Longrightarrow> i \<in> set (BzInsts b) \<and> IId i = k"
  using row_of_SomeD [of IId k "BzInsts b" i] by (simp add: biz_inst_def)

lemma source_row: "durable_source c s ord = Inr (i, d) \<Longrightarrow> biz_inst (Business s) (LoSource ord) = Some i \<and> ISnapshot i = Frozen d"
  by (auto simp: durable_source_def Let_def split: option.splits snapshot.splits if_splits)

text \<open>The row of the instance after a transition: what changes is given by a function on rows.\<close>

definition row_write :: "string \<Rightarrow> (DInst \<Rightarrow> DInst) \<Rightarrow> Biz \<Rightarrow> Biz \<Rightarrow> bool" where
  "row_write k f b b' \<longleftrightarrow> BzInsts b' = update_where (\<lambda>x. IId x = k) f (BzInsts b) \<and>
     (\<forall>x. IId (f x) = IId x \<and> ISnapshot (f x) = ISnapshot x \<and> IHeldFrom (f x) = IHeldFrom x)"

lemma planned_effect:
  assumes "durable_planned c s k a i d = Inr b'" "biz_inst (Business s) k = Some i" "keys_distinct IId (BzInsts (Business s))"
  shows "IStatus i = StatusWaiting \<and> (\<exists>f. row_write k f (Business s) b' \<and> IStatus (f i) = StatusRunning) \<and>
    (\<exists>b1. durableResources s k (AtExec a) (ResourcesOf d) (IForced i \<and> IForceMode i \<noteq> ForceModeOrder) (mark_eligible k (Business s)) = Inr b1 \<and>
       BzHolds b' = BzHolds b1 \<and> BzResources b' = BzResources b1) \<and> effects_grow (Business s) b'"
proof -
  let ?f = "\<lambda>x. x\<lparr>IStatus := StatusRunning, IStartedAt := None, IFinishedAt := None, IExitCode := None, DiAgent := AtAgent a\<rparr>"
  let ?b = "mark_eligible k (Business s)"
  have m: "BzInsts ?b = BzInsts (Business s)" "BzEffects ?b = BzEffects (Business s)" "BzDecisions ?b = BzDecisions (Business s)"
    by (simp_all add: mark_eligible_def durableEvent_def)
  obtain b1 where b1: "IStatus i = StatusWaiting"
      "durableResources s k (AtExec a) (ResourcesOf d) (IForced i \<and> IForceMode i \<noteq> ForceModeOrder) ?b = Inr b1"
      "b' = durableEvent k ''submitted'' ''scheduler'' (b1\<lparr>BzInsts := update_where (\<lambda>x. IId x = k \<and> IStatus x = StatusWaiting) ?f (BzInsts b1)\<rparr>)"
    using assms(1) by (auto simp: durable_planned_def Let_def and_then_Inr split: if_splits)
  note fr = reserve_frame [OF b1(2)]
  have "update_where (\<lambda>x. IId x = k \<and> IStatus x = StatusWaiting) ?f (BzInsts (Business s)) =
      update_where (\<lambda>x. IId x = k) ?f (BzInsts (Business s))"
    unfolding update_where_def
  proof (rule map_cong [OF refl])
    fix x assume x: "x \<in> set (BzInsts (Business s))"
    show "(if IId x = k \<and> IStatus x = StatusWaiting then ?f x else x) = (if IId x = k then ?f x else x)"
      using row_of_in_set [OF assms(3) x] assms(2) b1(1) by (auto simp: biz_inst_def)
  qed
  then have "row_write k ?f (Business s) b'" using b1(3) fr m by (simp add: row_write_def durableEvent_def)
  moreover have "effects_grow (Business s) b'" using b1(3) fr m by (intro effects_grow_same) (simp_all add: durableEvent_def)
  ultimately show ?thesis using b1 by (intro conjI exI [of _ ?f] exI [of _ b1]) (simp_all add: durableEvent_def)
qed

lemma close_effect:
  fixes c :: durable_cfg and d :: JobDefinition and i :: DInst and b :: Biz and retry :: bool and final0 :: InstanceStatus
  defines "cyc \<equiv> next_cycle c d (inst_odate (Instance.truncate i)) retry final0 (ICycleRuns i) (BzNow b)"
  shows "(\<exists>f. row_write k f b (durable_close c k kind a i d out retry local final0 code b) \<and>
      (\<forall>x. IStatus (f x) = (if retry \<or> cyc \<noteq> None then StatusWaiting else final0))) \<and>
    BzHolds (durable_close c k kind a i d out retry local final0 code b) =
      (if retry then BzHolds b else delete_where (\<lambda>h. HoInst h = k \<and> HoExec h = AtExec a) (BzHolds b)) \<and>
    effects_grow b (durable_close c k kind a i d out retry local final0 code b)"
proof -
  let ?od = "inst_odate (Instance.truncate i)"
  define again where "again = (retry \<or> cyc \<noteq> None)"
  define b1 where "b1 = (if \<not> retry \<and> final0 = StatusOK then durableOut d ?od ''execution'' b else b)"
  define f where "f = (\<lambda>x :: DInst. x\<lparr>IStatus := (if again then StatusWaiting else final0), IExitCode := Some code, IOutput := out,
      IFinishedAt := (if again then None else Some (BzNow b)),
      IScheduledAt := Some (if retry then BzNow b + (if RetryDelayMin d > 0 then RetryDelayMin d * minute else 5 * second)
        else case cyc of Some t \<Rightarrow> t | None \<Rightarrow> BzNow b),
      IAttempts := (if retry then IAttempts i + 1 else if cyc \<noteq> None then 1 else IAttempts i),
      ICycleRuns := (if cyc \<noteq> None then ICycleRuns i + 1 else ICycleRuns i), DiLocal := Some local\<rparr>)"
  define b2 where "b2 = upd_biz_inst k f b1"
  define b3 where "b3 = (if retry then b2 else b2\<lparr>BzHolds := delete_where (\<lambda>h. HoInst h = k \<and> HoExec h = AtExec a) (BzHolds b2)\<rparr>)"
  define b4 where "b4 = (if retry then b3 else durableAlerts c a d k (if code = 0 then ''OK''
      else if (if again then StatusWaiting else final0) = StatusCancelled then ''CANCELLED'' else ''NOTOK'') (IAttempts i) b3)"
  define b5 where "b5 = durableEvent k (if kind = ''resolved'' then ''resolved'' else if cyc \<noteq> None then ''cyclic''
      else if retry then ''retry'' else ''finished'') ''execution'' b4"
  define b6 where "b6 = (if \<not> retry \<and> (if again then StatusWaiting else final0) \<noteq> StatusCancelled
      then insert_effect (new_effect (AtExec a @ ''-hooks'') (AtExec a) k ''terminal-hooks'' (POutput out) EPending b5) b5 else b5)"
  have e: "durable_close c k kind a i d out retry local final0 code b = b6"
    unfolding b6_def b5_def b4_def b3_def b2_def f_def b1_def again_def cyc_def durable_close_def Let_def by simp
  have q1: "quiet_biz b b1" using out_quiet [of b d ?od "''execution''"] by (simp add: b1_def)
  have q3: "quiet_biz b3 b6"
  proof -
    have "quiet_biz b3 b4" using alerts_quiet by (simp add: b4_def)
    moreover have "quiet_biz b4 b5" by (simp add: b5_def event_quiet)
    moreover have "quiet_biz b5 b6" using insert_quiet [OF fresh_new] by (simp add: b6_def)
    ultimately show ?thesis using silent_trans by blast
  qed
  have m: "BzInsts b3 = update_where (\<lambda>x. IId x = k) f (BzInsts b1)" "BzEffects b3 = BzEffects b1" "BzDecisions b3 = BzDecisions b1"
    "BzHolds b3 = (if retry then BzHolds b1 else delete_where (\<lambda>h. HoInst h = k \<and> HoExec h = AtExec a) (BzHolds b1))"
    by (simp_all add: b3_def b2_def upd_biz_inst_def)
  have "row_write k f b b6" using q1 q3 m by (simp add: row_write_def quiet_biz_def f_def)
  moreover have "IStatus (f x) = (if retry \<or> cyc \<noteq> None then StatusWaiting else final0)" for x by (simp add: f_def again_def)
  moreover have "effects_grow b b6"
    using q1 q3 m effects_grow_trans effects_grow_same [OF m(2,3)] unfolding quiet_biz_def by blast
  ultimately show ?thesis unfolding e using q1 q3 m by (auto simp: quiet_biz_def)
qed

text \<open>An ended attempt: the row is not busy, and unless it is retried its holds are gone.\<close>

lemma outcome_status: "end_outcome a r = (code, out, final) \<Longrightarrow> final = StatusOK \<or> final = StatusNotOK \<or> final = StatusCancelled"
  by (auto simp: end_outcome_def Let_def split: prod.splits if_splits)

definition idle_status :: "InstanceStatus \<Rightarrow> bool" where
  "idle_status st \<longleftrightarrow> st = StatusOK \<or> st = StatusNotOK \<or> st = StatusCancelled"

lemma end_effect:
  assumes e: "durable_end c k kind a r i d b = Inr b'"
  shows "\<exists>f. row_write k f b b' \<and> effects_grow b b' \<and>
    ((\<forall>x. IStatus (f x) = StatusWaiting) \<and> BzHolds b' = BzHolds b \<or>
     (\<forall>x. IStatus (f x) = StatusWaiting \<or> idle_status (IStatus (f x))) \<and>
       BzHolds b' = delete_where (\<lambda>h. HoInst h = k \<and> HoExec h = AtExec a) (BzHolds b))"
proof -
  obtain code out final where o: "end_outcome a r = (code, out, final)" by (cases "end_outcome a r")
  define b1 where "b1 = b\<lparr>BzRuns := update_where (\<lambda>x. RunInst x = k \<and> RunFinished x = None)
      (\<lambda>x. x\<lparr>RunFinished := Some (BzNow b), RunStatus := final, RunExit := Some code\<rparr>) (BzRuns b)\<rparr>"
  obtain local0 where l: "DiLocal i = Some local0" using e by (auto simp: durable_end_def Let_def o split: option.splits)
  define retry where "retry = (kind = ''result'' \<and> AtState a \<noteq> Cancelled \<and> final = StatusNotOK \<and> Retries d > 0 \<and> IAttempts i \<le> Retries d)"
  define od where "od = inst_odate (Instance.truncate i)"
  define ms where "ms = local_directives out"
  define locals where "locals = foldl (\<lambda>m (x, v). m(x \<mapsto> v)) local0 ms"
  define evs where "evs = end_events kind a retry (IAttempts i) code final"
  have ee: "and_then (each (durable_rule (AtExec a) k d od retry evs) (enumerate 0 (Actions d)) (final, code, set_locals k ms b1))
      (\<lambda>(final1, code1, b3). Inr (durable_close c k kind a i d out retry locals final1 code1 b3)) = Inr b'"
    using e unfolding durable_end_def o l Let_def prod.case option.case
    by (simp only: b1_def [symmetric] retry_def [symmetric] od_def [symmetric] ms_def [symmetric] locals_def [symmetric] evs_def [symmetric])
  then obtain final1 code1 b3 where s: "each (durable_rule (AtExec a) k d od retry evs) (enumerate 0 (Actions d)) (final, code, set_locals k ms b1) = Inr (final1, code1, b3)"
    "b' = durable_close c k kind a i d out retry locals final1 code1 b3"
    by (auto simp: and_then_Inr)
  have "quiet_biz b b1" by (rule silent_same) (simp_all add: b1_def)
  moreover note locals_quiet [of b1 k ms] rules_quiet [OF s(1)]
  ultimately have q: "quiet_biz b b3" and fin: "idle_status final1"
    using silent_trans outcome_status [OF o] by (blast, auto simp: idle_status_def)
  note cl = close_effect [of k b3 c kind a i d out retry locals final1 code1, folded s(2)]
  obtain f where f: "row_write k f b3 b'" "\<forall>x. IStatus (f x) = StatusWaiting \<or> IStatus (f x) = final1"
    "retry \<longrightarrow> (\<forall>x. IStatus (f x) = StatusWaiting)" using cl by auto
  have "row_write k f b b'" using f(1) q by (simp add: row_write_def quiet_biz_def)
  moreover have "effects_grow b b'" using cl q effects_grow_trans by (auto simp: quiet_biz_def)
  ultimately show ?thesis using f fin cl q by (intro exI [of _ f]) (auto simp: quiet_biz_def)
qed

section \<open>Invariants\<close>

definition proper :: "InstanceStatus \<Rightarrow> bool" where
  "proper st \<longleftrightarrow> (\<forall>x. st \<noteq> StatusOther x)"

definition held_ok :: "string \<Rightarrow> bool" where
  "held_ok h \<longleftrightarrow> h = [] \<or> (\<exists>st. h = status_string st \<and> \<not> busy st \<and> proper st)"

definition status_fits :: "(string \<Rightarrow> string \<times> bool) \<Rightarrow> Biz \<Rightarrow> bool" where
  "status_fits v b \<longleftrightarrow> keys_distinct IId (BzInsts b) \<and>
     (\<forall>i\<in>set (BzInsts b). (busy (IStatus i) \<longleftrightarrow> snd (v (IId i))) \<and> proper (IStatus i) \<and> held_ok (IHeldFrom i)) \<and>
     (\<forall>k. snd (v k) \<longrightarrow> biz_inst b k \<noteq> None)"

text \<open>Who may hold resources: an order that runs, waits, or was put on hold while it waited.\<close>

definition may_hold :: "DInst \<Rightarrow> bool" where
  "may_hold i \<longleftrightarrow> busy (IStatus i) \<or> IStatus i = StatusWaiting \<or>
     IStatus i = StatusHeld \<and> (IHeldFrom i = [] \<or> IHeldFrom i = ''WAITING'')"

definition hold_fits :: "(string \<Rightarrow> string \<times> bool) \<Rightarrow> Biz \<Rightarrow> HoldRow \<Rightarrow> bool" where
  "hold_fits v b h \<longleftrightarrow> HoExec h = fst (v (HoInst h)) \<and>
     (\<exists>i. biz_inst b (HoInst h) = Some i \<and> may_hold i \<and> (\<exists>d. ISnapshot i = Frozen d \<and> HoName h \<in> wanted d))"

definition mirrors :: "(string \<Rightarrow> string \<times> bool) \<Rightarrow> Biz \<Rightarrow> bool" where
  "mirrors v b \<longleftrightarrow> status_fits v b \<and> (\<forall>h\<in>set (BzHolds b). hold_fits v b h)"

lemma update_inst:
  assumes "BzInsts b' = update_where (\<lambda>x. IId x = k) f (BzInsts b)" "\<And>x. IId (f x) = IId x"
  shows "biz_inst b' j = map_option (\<lambda>x. if j = k then f x else x) (biz_inst b j)"
proof -
  have "biz_inst b' j = map_option (\<lambda>x. if IId x = k then f x else x) (biz_inst b j)"
    unfolding biz_inst_def using assms row_of_update_where [of "\<lambda>x. IId x = k" IId f j "BzInsts b"] by simp
  then show ?thesis using inst_row [of b j] by (cases "biz_inst b j") auto
qed

lemma mirrors_change:
  assumes m: "mirrors v b" and f: "\<And>x. IId (f x) = IId x" "\<And>x. ISnapshot (f x) = ISnapshot x"
    and b': "BzInsts b' = update_where (\<lambda>x. IId x = k) f (BzInsts b)" and i: "biz_inst b k = Some i"
    and st: "busy (IStatus (f i)) \<longleftrightarrow> live" "proper (IStatus (f i))" "held_ok (IHeldFrom (f i))"
    and h: "\<And>h. h \<in> set (BzHolds b') \<Longrightarrow> HoInst h = k \<Longrightarrow> HoExec h = ex \<and> may_hold (f i) \<and> (\<exists>d. ISnapshot i = Frozen d \<and> HoName h \<in> wanted d)"
      "\<And>h. h \<in> set (BzHolds b') \<Longrightarrow> HoInst h \<noteq> k \<Longrightarrow> h \<in> set (BzHolds b)"
  shows "mirrors (v(k := (ex, live))) b'"
proof -
  have bi: "biz_inst b' j = map_option (\<lambda>x. if j = k then f x else x) (biz_inst b j)" for j by (rule update_inst [OF b' f(1)])
  have m': "keys_distinct IId (BzInsts b)" "\<And>i. i \<in> set (BzInsts b) \<Longrightarrow> (busy (IStatus i) \<longleftrightarrow> snd (v (IId i))) \<and> proper (IStatus i) \<and> held_ok (IHeldFrom i)"
    "\<And>k. snd (v k) \<Longrightarrow> biz_inst b k \<noteq> None" "\<And>h. h \<in> set (BzHolds b) \<Longrightarrow> hold_fits v b h"
    using m by (auto simp: mirrors_def status_fits_def)
  have only: "x = i" if "x \<in> set (BzInsts b)" "IId x = k" for x
    using row_of_in_set [OF m'(1) that(1)] that(2) i by (simp add: biz_inst_def)
  have "status_fits (v(k := (ex, live))) b'"
    unfolding status_fits_def
  proof (intro conjI ballI allI impI)
    show "keys_distinct IId (BzInsts b')" using m'(1) f by (simp add: b' keys_distinct_update_where)
  next
    fix y assume "y \<in> set (BzInsts b')"
    then obtain x where x: "x \<in> set (BzInsts b)" "y = (if IId x = k then f x else x)" by (auto simp: b' set_update_where)
    then show "busy (IStatus y) = snd ((v(k := (ex, live))) (IId y))" "proper (IStatus y)" "held_ok (IHeldFrom y)"
      using m'(2) [OF x(1)] only [OF x(1)] st f by (auto split: if_splits)
  next
    fix j assume "snd ((v(k := (ex, live))) j)"
    then show "biz_inst b' j \<noteq> None" using m'(3) [of j] i by (auto simp: bi split: if_splits)
  qed
  moreover have "hold_fits (v(k := (ex, live))) b' h" if hh: "h \<in> set (BzHolds b')" for h
  proof (cases "HoInst h = k")
    case True
    then show ?thesis using h(1) [OF hh True] i f by (auto simp: hold_fits_def bi)
  next
    case False
    then show ?thesis using m'(4) [OF h(2) [OF hh False]] by (simp add: hold_fits_def bi)
  qed
  ultimately show ?thesis by (simp add: mirrors_def)
qed

lemma mirrors_row:
  assumes m: "mirrors v b" and w: "row_write k f b b'" and i: "biz_inst b k = Some i"
    and st: "busy (IStatus (f i)) \<longleftrightarrow> live" "proper (IStatus (f i))"
    and h: "\<And>h. h \<in> set (BzHolds b') \<Longrightarrow> HoInst h = k \<Longrightarrow> HoExec h = ex \<and> may_hold (f i) \<and> (\<exists>d. ISnapshot i = Frozen d \<and> HoName h \<in> wanted d)"
      "\<And>h. h \<in> set (BzHolds b') \<Longrightarrow> HoInst h \<noteq> k \<Longrightarrow> h \<in> set (BzHolds b)"
  shows "mirrors (v(k := (ex, live))) b'"
proof (rule mirrors_change [of v b f b' k i live ex, OF m _ _ _ i st _ h])
  have "held_ok (IHeldFrom i)" using m inst_row [OF i] by (auto simp: mirrors_def status_fits_def)
  then show "held_ok (IHeldFrom (f i))" using w by (simp add: row_write_def)
qed (use w in \<open>simp_all add: row_write_def\<close>)

lemma mirrors_quiet: "quiet_biz b b' \<Longrightarrow> mirrors v b \<Longrightarrow> mirrors v b'"
  by (simp add: quiet_biz_def mirrors_def status_fits_def hold_fits_def biz_inst_def)

lemma mirrors_holds:
  "mirrors v b \<Longrightarrow> biz_inst b k = Some i \<Longrightarrow> h \<in> set (BzHolds b) \<Longrightarrow> HoInst h = k \<Longrightarrow>
     HoExec h = fst (v k) \<and> may_hold i \<and> (\<exists>d. ISnapshot i = Frozen d \<and> HoName h \<in> wanted d)"
  by (auto simp: mirrors_def hold_fits_def)

lemma mirrors_inst: "mirrors v b \<Longrightarrow> biz_inst b k = Some i \<Longrightarrow> (busy (IStatus i) \<longleftrightarrow> snd (v k)) \<and> proper (IStatus i) \<and> held_ok (IHeldFrom i)"
  using inst_row [of b k i] by (auto simp: mirrors_def status_fits_def)

text \<open>What one transition did, by the kind it was called with.\<close>

definition branch ::
  "durable_cfg \<Rightarrow> Biz store \<Rightarrow> string \<Rightarrow> AttemptRow \<Rightarrow> string \<Rightarrow> ExecResult option \<Rightarrow> Biz \<Rightarrow> DInst \<Rightarrow> JobDefinition \<Rightarrow> bool" where
  "branch c s k a kind r b' i d \<longleftrightarrow> biz_inst (Business s) k = Some i \<and> ISnapshot i = Frozen d \<and>
     (kind = ''planned'' \<longrightarrow> durable_planned c s k a i d = Inr b') \<and>
     (kind = ''started'' \<longrightarrow> b' = durable_started k a i d (Business s)) \<and>
     (kind = ''uncertain'' \<longrightarrow> b' = durableEvent k ''uncertain'' ''execution''
        (upd_biz_inst k (\<lambda>x. x\<lparr>IStatus := StatusUncertain\<rparr>) (Business s))) \<and>
     (end_kind kind \<longrightarrow> durable_end c k kind a r i d (Business s) = Inr b') \<and>
     (kind \<noteq> ''planned'' \<longrightarrow> kind \<noteq> ''started'' \<longrightarrow> kind \<noteq> ''uncertain'' \<longrightarrow> \<not> end_kind kind \<longrightarrow> quiet_biz (Business s) b')"

lemma transitionD:
  assumes "durableTransition c s ord a kind r = Inr b'"
  obtains i d where "branch c s (LoSource ord) a kind r b' i d"
proof -
  obtain i d where so: "durable_source c s ord = Inr (i, d)"
    using assms by (cases "durable_source c s ord") (auto simp: durableTransition_def and_then_def)
  note t = assms [unfolded durableTransition_def and_then_def so sum.case prod.case Let_def]
  have "branch c s (LoSource ord) a kind r b' i d"
    using t source_row [OF so] event_quiet by (auto simp: branch_def end_kinds_def end_kind_def split: if_splits)
  then show thesis by (rule that)
qed

lemma plan_mirrors:
  assumes t: "durableTransition c s ord a ''planned'' r = Inr b'" and m: "mirrors v (Business s)"
  shows "mirrors (v(LoSource ord := (AtExec a, True))) b'"
proof -
  obtain i d where "branch c s (LoSource ord) a ''planned'' r b' i d" by (rule transitionD [OF t])
  then have x: "biz_inst (Business s) (LoSource ord) = Some i" "ISnapshot i = Frozen d"
      "durable_planned c s (LoSource ord) a i d = Inr b'" by (simp_all add: branch_def)
  have kd: "keys_distinct IId (BzInsts (Business s))" using m by (simp add: mirrors_def status_fits_def)
  note pe = planned_effect [OF x(3,1) kd]
  then obtain f b1 where f: "row_write (LoSource ord) f (Business s) b'" "IStatus (f i) = StatusRunning"
    and b1: "durableResources s (LoSource ord) (AtExec a) (ResourcesOf d) (IForced i \<and> IForceMode i \<noteq> ForceModeOrder)
      (mark_eligible (LoSource ord) (Business s)) = Inr b1" "BzHolds b' = BzHolds b1" by auto
  have mh: "BzHolds (mark_eligible (LoSource ord) (Business s)) = BzHolds (Business s)"
    by (simp add: mark_eligible_def durableEvent_def)
  show ?thesis
  proof (rule mirrors_row [OF m f(1) x(1)])
    fix h assume h: "h \<in> set (BzHolds b')"
    note rh = reserve_holds [OF b1(1), of h, folded wanted_def]
    {
      assume k: "HoInst h = LoSource ord"
      have "HoExec h = AtExec a \<and> HoName h \<in> wanted d"
        using rh h b1(2) mh k mirrors_holds [OF m x(1), of h] x(2) by auto
      then show "HoExec h = AtExec a \<and> may_hold (f i) \<and> (\<exists>d. ISnapshot i = Frozen d \<and> HoName h \<in> wanted d)"
        using x(2) f(2) by (simp add: may_hold_def busy_def)
    }
    assume "HoInst h \<noteq> LoSource ord"
    then show "h \<in> set (BzHolds (Business s))" using rh h b1(2) mh by auto
  qed (use f in \<open>simp_all add: busy_def proper_def\<close>)
qed

lemma set_status_mirrors:
  assumes m: "mirrors v b" and i: "biz_inst b k = Some i" and v: "v k = (ex, True)" and st: "busy st"
    and b': "BzInsts b' = update_where (\<lambda>x. IId x = k) g (BzInsts b)" "BzHolds b' = BzHolds b"
    and g: "\<And>x. IId (g x) = IId x \<and> ISnapshot (g x) = ISnapshot x \<and> IHeldFrom (g x) = IHeldFrom x \<and> IStatus (g x) = st"
  shows "mirrors v b'"
proof -
  have w: "row_write k g b b'" using g b'(1) by (simp add: row_write_def)
  have "mirrors (v(k := (ex, True))) b'"
    by (rule mirrors_row [OF m w i])
      (use st g v b'(2) mirrors_holds [OF m i] in \<open>auto simp: busy_def proper_def may_hold_def\<close>)
  moreover have "v(k := (ex, True)) = v" using v by (simp add: fun_upd_idem)
  ultimately show ?thesis by simp
qed

lemma going_mirrors:
  assumes t: "durableTransition c s ord a kind r = Inr b'" and m: "mirrors v (Business s)" and k: "\<not> end_kind kind" "kind \<noteq> ''planned''"
    and v: "v (LoSource ord) = (AtExec a, True)"
  shows "mirrors v b'"
proof -
  obtain i d where "branch c s (LoSource ord) a kind r b' i d" by (rule transitionD [OF t])
  then have x: "biz_inst (Business s) (LoSource ord) = Some i"
      "kind = ''started'' \<Longrightarrow> b' = durable_started (LoSource ord) a i d (Business s)"
      "kind = ''uncertain'' \<Longrightarrow> b' = durableEvent (LoSource ord) ''uncertain'' ''execution''
         (upd_biz_inst (LoSource ord) (\<lambda>x. x\<lparr>IStatus := StatusUncertain\<rparr>) (Business s))"
      "kind \<noteq> ''planned'' \<Longrightarrow> kind \<noteq> ''started'' \<Longrightarrow> kind \<noteq> ''uncertain'' \<Longrightarrow> \<not> end_kind kind \<Longrightarrow> quiet_biz (Business s) b'"
    by (simp_all add: branch_def)
  consider "kind = ''started''" | "kind = ''uncertain''" | "kind \<noteq> ''started''" "kind \<noteq> ''uncertain''" by blast
  then show ?thesis
  proof cases
    case 1
    note b' = x(2) [OF 1]
    show ?thesis
    proof (cases "AtState a = Running")
      case True
      show ?thesis
        by (rule set_status_mirrors [OF m x(1) v, where st = StatusRunning and g = "\<lambda>x. x\<lparr>IStartedAt := Some (BzNow (Business s)), IStatus := StatusRunning\<rparr>"])
          (use b' True in \<open>simp_all add: durable_started_def Let_def durableEvent_def upd_biz_inst_def busy_def\<close>)
    next
      case False
      then show ?thesis using m b' by (simp add: durable_started_def)
    qed
  next
    case 2
    show ?thesis
      by (rule set_status_mirrors [OF m x(1) v, where st = StatusUncertain and g = "\<lambda>x. x\<lparr>IStatus := StatusUncertain\<rparr>"])
        (use x(3) [OF 2] in \<open>simp_all add: durableEvent_def upd_biz_inst_def busy_def\<close>)
  next
    case 3
    then show ?thesis using mirrors_quiet [OF x(4) m] k by simp
  qed
qed

lemma end_mirrors:
  assumes t: "durableTransition c s ord a kind r = Inr b'" and m: "mirrors v (Business s)" and k: "end_kind kind"
    and v: "v (LoSource ord) = (AtExec a, True)"
  shows "mirrors (v(LoSource ord := (AtExec a, False))) b'"
proof -
  obtain i d where "branch c s (LoSource ord) a kind r b' i d" by (rule transitionD [OF t])
  then have x: "biz_inst (Business s) (LoSource ord) = Some i"
      "end_kind kind \<Longrightarrow> durable_end c (LoSource ord) kind a r i d (Business s) = Inr b'"
    by (simp_all add: branch_def)
  obtain f where f: "row_write (LoSource ord) f (Business s) b'"
    "(\<forall>x. IStatus (f x) = StatusWaiting) \<and> BzHolds b' = BzHolds (Business s) \<or>
     (\<forall>x. IStatus (f x) = StatusWaiting \<or> idle_status (IStatus (f x))) \<and>
       BzHolds b' = delete_where (\<lambda>h. HoInst h = LoSource ord \<and> HoExec h = AtExec a) (BzHolds (Business s))"
    using end_effect [OF x(2) [OF k]] by blast
  note hs = mirrors_holds [OF m x(1)]
  show ?thesis
  proof (rule mirrors_row [OF m f(1) x(1)])
    have "IStatus (f i) = StatusWaiting \<or> idle_status (IStatus (f i))" using f(2) by blast
    then show "busy (IStatus (f i)) \<longleftrightarrow> False" "proper (IStatus (f i))"
      by (auto simp: busy_def proper_def idle_status_def)
  next
    fix h assume h: "h \<in> set (BzHolds b')"
    show "h \<in> set (BzHolds (Business s))" using f(2) h by (auto simp: delete_where_def)
    assume hk: "HoInst h = LoSource ord"
    then have w: "(\<forall>x. IStatus (f x) = StatusWaiting)" using f(2) h hs [of h] v by (auto simp: delete_where_def)
    show "HoExec h = AtExec a \<and> may_hold (f i) \<and> (\<exists>d. ISnapshot i = Frozen d \<and> HoName h \<in> wanted d)"
      using hs [OF \<open>h \<in> set (BzHolds (Business s))\<close> hk] v w by (simp add: may_hold_def)
  qed
qed

text \<open>The durable hooks honour the contract for both invariants.\<close>

lemma durable_hook [simp]: "Transition (durable_engine c e) = Some (durableTransition c)"
  by (simp add: durable_engine_def)

interpretation mirror: business "durable_engine c e" mirrors for c e
  by unfold_locales (auto intro: plan_mirrors going_mirrors end_mirrors)

lemma transition_grows:
  assumes t: "durableTransition c s ord a kind r = Inr b'" and kd: "kind = ''planned'' \<longrightarrow> keys_distinct IId (BzInsts (Business s))"
  shows "effects_grow (Business s) b'"
proof -
  obtain i d where "branch c s (LoSource ord) a kind r b' i d" by (rule transitionD [OF t])
  then have x: "biz_inst (Business s) (LoSource ord) = Some i"
      "kind = ''planned'' \<Longrightarrow> durable_planned c s (LoSource ord) a i d = Inr b'"
      "kind = ''started'' \<Longrightarrow> b' = durable_started (LoSource ord) a i d (Business s)"
      "kind = ''uncertain'' \<Longrightarrow> b' = durableEvent (LoSource ord) ''uncertain'' ''execution''
         (upd_biz_inst (LoSource ord) (\<lambda>x. x\<lparr>IStatus := StatusUncertain\<rparr>) (Business s))"
      "end_kind kind \<Longrightarrow> durable_end c (LoSource ord) kind a r i d (Business s) = Inr b'"
      "kind \<noteq> ''planned'' \<Longrightarrow> kind \<noteq> ''started'' \<Longrightarrow> kind \<noteq> ''uncertain'' \<Longrightarrow> \<not> end_kind kind \<Longrightarrow> quiet_biz (Business s) b'"
    by (simp_all add: branch_def)
  consider "kind = ''planned''" | "kind = ''started''" | "kind = ''uncertain''" | "end_kind kind"
    | "kind \<noteq> ''planned''" "kind \<noteq> ''started''" "kind \<noteq> ''uncertain''" "\<not> end_kind kind" by blast
  then show ?thesis
  proof cases
    case 1
    then show ?thesis using planned_effect [OF x(2) x(1)] kd by blast
  next
    case 2
    then show ?thesis using x(3) by (auto intro!: effects_grow_same simp: durable_started_def Let_def durableEvent_def upd_biz_inst_def)
  next
    case 3
    then show ?thesis using x(4) by (auto intro!: effects_grow_same simp: durableEvent_def upd_biz_inst_def)
  next
    case 4
    then show ?thesis using end_effect [OF x(5)] by blast
  next
    case 5
    then show ?thesis using x(6) by (simp add: quiet_biz_def)
  qed
qed

section \<open>The operations outside the hooks\<close>

lemma held_status_ok: "held_ok (IHeldFrom i) \<Longrightarrow> \<not> busy (held_status i) \<and> proper (held_status i)"
  unfolding held_ok_def
proof (elim disjE exE conjE, goal_cases)
  case 1
  then show ?case by (simp add: held_status_def busy_def proper_def)
next
  case (2 st)
  then show ?case by (cases st) (auto simp: held_status_def busy_def proper_def)
qed

lemma held_ok_status: "\<not> busy st \<Longrightarrow> proper st \<Longrightarrow> held_ok (status_string st)"
  by (auto simp: held_ok_def)

text \<open>A change of the row of an order that is not running.\<close>

lemma mirrors_idle:
  assumes m: "mirrors v b" and i: "biz_inst b k = Some i" and n: "\<not> busy (IStatus i)"
    and f: "\<And>x. IId (f x) = IId x" "\<And>x. ISnapshot (f x) = ISnapshot x"
    and b': "BzInsts b' = update_where (\<lambda>x. IId x = k) f (BzInsts b)"
    and st: "\<not> busy (IStatus (f i))" "proper (IStatus (f i))" "held_ok (IHeldFrom (f i))"
    and h: "\<And>h. h \<in> set (BzHolds b') \<Longrightarrow> h \<in> set (BzHolds b) \<and> (HoInst h = k \<longrightarrow> may_hold i \<longrightarrow> may_hold (f i))"
  shows "mirrors v b'"
proof -
  have v: "v(k := (fst (v k), False)) = v" using mirrors_inst [OF m i] n by (auto simp: fun_eq_iff prod_eq_iff)
  have "mirrors (v(k := (fst (v k), False))) b'"
    by (rule mirrors_change [of v b f b' k i False "fst (v k)", OF m f b' i _ st(2,3)])
      (use st(1) h mirrors_holds [OF m i] in \<open>auto dest!: h\<close>)
  then show ?thesis by (simp add: v)
qed

lemma mirrors_delete:
  assumes m: "mirrors v b" and i: "biz_inst b k = Some i" and n: "\<not> busy (IStatus i)"
    and b': "BzInsts b' = delete_where (\<lambda>x. IId x = k) (BzInsts b)" "BzHolds b' = delete_where (\<lambda>h. HoInst h = k) (BzHolds b)"
  shows "mirrors v b'"
proof -
  have bi: "j \<noteq> k \<Longrightarrow> biz_inst b' j = biz_inst b j" for j
    unfolding biz_inst_def b' by (rule row_of_delete_where) auto
  have nk: "\<not> snd (v k)" using mirrors_inst [OF m i] n by simp
  have live: "biz_inst b' j \<noteq> None" if "snd (v j)" for j
    using that nk bi [of j] m by (cases "j = k") (auto simp: mirrors_def status_fits_def)
  have "hold_fits v b' h" if "h \<in> set (BzHolds b')" for h
    using that m bi [of "HoInst h"] by (auto simp: mirrors_def hold_fits_def b' delete_where_def)
  moreover have "status_fits v b'"
    using m live by (auto simp: mirrors_def status_fits_def b' delete_where_def keys_distinct_def distinct_map_filter)
  ultimately show ?thesis by (simp add: mirrors_def)
qed

lemma action_names:
  assumes "action_write c actor k action i b = Inr r"
  obtains "action = ''hold''" | "action = ''release''" "IStatus i = StatusHeld" | "action = ''cancel''" | "action = ''rerun''"
    | "action = ''force''" | "action = ''set-ok''" | "action = ''confirm''" | "action = ''delete''"
proof -
  have "action = ''hold'' \<or> action = ''release'' \<or> action = ''cancel'' \<or> action = ''rerun'' \<or> action = ''force'' \<or>
      action = ''set-ok'' \<or> action = ''confirm'' \<or> action = ''delete''"
    by (rule ccontr) (use assms in \<open>simp add: action_write_def\<close>)
  then show thesis
  proof (cases "action = ''release''")
    case True
    then show ?thesis using assms by (intro that(2)) (simp_all add: action_write_def split: if_splits)
  next
    case False
    assume "action = ''hold'' \<or> action = ''release'' \<or> action = ''cancel'' \<or> action = ''rerun'' \<or> action = ''force'' \<or>
      action = ''set-ok'' \<or> action = ''confirm'' \<or> action = ''delete''"
    then show ?thesis using False by (elim disjE; simp only: that)
  qed
qed

lemma action_effects:
  assumes "action_write c actor k action i b = Inr (ans, b1)"
  shows "BzEffects b1 = BzEffects b \<and> BzDecisions b1 = BzDecisions b"
proof -
  have f: "BzEffects (fold (\<lambda>n. durableCondition n od actor rem) ns x) = BzEffects x \<and>
      BzDecisions (fold (\<lambda>n. durableCondition n od actor rem) ns x) = BzDecisions x" for od rem ns x
    by (induction ns arbitrary: x) (simp_all add: durableCondition_def split: prod.splits)
  show ?thesis
    by (rule action_names [OF assms]; use assms in \<open>auto simp: action_write_def Let_def upd_biz_inst_def drop_holds_def durableOut_def f
      split: if_splits option.splits\<close>)
qed

text \<open>What an action of the operator leaves to be shown: the row and the holds.\<close>

lemma action_effect:
  assumes aw: "action_write c actor k action i b = Inr (ans, b1)" and n: "\<not> busy (IStatus i)" and i: "biz_inst b k = Some i"
    and b2: "BzInsts b2 = BzInsts b1" "BzHolds b2 = (if action \<in> {''cancel'', ''set-ok'', ''rerun''}
      then delete_where (\<lambda>h. HoInst h = k) (BzHolds b1) else BzHolds b1)"
    and m: "mirrors v b" and hh: "\<not> (action = ''hold'' \<and> IStatus i = StatusHeld)"
  shows "mirrors v b2"
proof -
  note mi = mirrors_inst [OF m i]
  have ho: "held_ok (status_string (IStatus i))" using mi n by (intro held_ok_status) simp_all
  have out: "BzInsts (durableOut d od actor x) = BzInsts x \<and> BzHolds (durableOut d od actor x) = BzHolds x" for d od x
    using out_quiet [of x d od actor] by (simp add: quiet_biz_def)
  show ?thesis
  proof (cases "action = ''delete''")
    case True
    then show ?thesis
      by (intro mirrors_delete [OF m i n]) (use aw b2 in \<open>auto simp: action_write_def Let_def drop_holds_def split: if_splits\<close>)
  next
    case nd: False
    define f where "f = (if action = ''hold'' then (\<lambda>x :: DInst. x\<lparr>IHeldFrom := status_string (IStatus i), IStatus := StatusHeld, DiScope := []\<rparr>)
      else if action = ''release'' then (\<lambda>x. x\<lparr>IStatus := held_status i, IHeldFrom := [], DiScope := []\<rparr>)
      else if action = ''cancel'' then (\<lambda>x. x\<lparr>IStatus := StatusCancelled, IHeldFrom := [], IFinishedAt := Some (BzNow b)\<rparr>)
      else if action = ''rerun'' then rerun_row
      else if action = ''force'' then (\<lambda>x. x\<lparr>IStatus := StatusWaiting, IForced := True, IForceMode := [], IHeldFrom := [], IScheduledAt := Some (BzNow b)\<rparr>)
      else if action = ''set-ok'' then (\<lambda>x. x\<lparr>IStatus := StatusOK, IExitCode := Some 0,
                IFinishedAt := (case IFinishedAt x of None \<Rightarrow> Some (BzNow b) | t \<Rightarrow> t)\<rparr>)
      else (\<lambda>x. x\<lparr>IConfirmed := True\<rparr>))"
    have b1: "BzInsts b1 = update_where (\<lambda>x. IId x = k) f (BzInsts b) \<and> BzHolds b1 = BzHolds b"
      by (rule action_names [OF aw]; use aw nd out in \<open>auto simp: action_write_def f_def upd_biz_inst_def Let_def
        split: if_splits option.splits\<close>)
    have st: "\<not> busy (IStatus (f i)) \<and> proper (IStatus (f i)) \<and> held_ok (IHeldFrom (f i))"
      by (rule action_names [OF aw]; use held_status_ok [of i] mi n ho nd in \<open>auto simp: f_def busy_def proper_def held_ok_def rerun_row_def\<close>)
    have keep: "may_hold i \<Longrightarrow> may_hold (f i)" if "action \<notin> {''cancel'', ''set-ok'', ''rerun''}"
      by (rule action_names [OF aw]; use that n hh nd in \<open>auto simp: f_def may_hold_def busy_def held_status_def split: if_splits\<close>)
    show ?thesis
    proof (rule mirrors_idle [OF m i n, of f])
      show "\<And>h. h \<in> set (BzHolds b2) \<Longrightarrow> h \<in> set (BzHolds b) \<and> (HoInst h = k \<longrightarrow> may_hold i \<longrightarrow> may_hold (f i))"
        using b2 b1 keep by (auto simp: delete_where_def split: if_splits)
    next
      have id: "IId (f x) = IId x \<and> ISnapshot (f x) = ISnapshot x" for x by (simp add: f_def rerun_row_def)
      show "\<And>x. IId (f x) = IId x" "\<And>x. ISnapshot (f x) = ISnapshot x" using id by simp_all
    qed (use b1 b2 st in simp_all)
  qed
qed

lemma action_txD:
  assumes a: "DurableAction_tx c actor k action s = Inr (ans, s')"
  obtains "s' = s" | i b1 where "biz_inst (Business s) k = Some i" "\<not> busy (IStatus i)" "\<not> (action = ''hold'' \<and> IStatus i = StatusHeld)"
    "action_write c actor k action i (Business s) = Inr (ans, b1)"
    "s' = s\<lparr>Business := (let b2 = (if action = ''delete'' then b1 else durableEvent k action actor b1)
          in if action \<in> {''cancel'', ''set-ok'', ''rerun''} then drop_holds k b2 else b2),
        RuntimeOrders := (if action = ''delete'' then delete_where (\<lambda>r. fst r = k) (RuntimeOrders s) else RuntimeOrders s)\<rparr>"
proof -
  obtain i where i: "biz_inst (Business s) k = Some i" and n: "\<not> busy (IStatus i)"
    using a by (auto simp: DurableAction_tx_def Let_def busy_def split: option.splits if_splits)
  show thesis
  proof (cases "action = ''hold'' \<and> IStatus i = StatusHeld")
    case True
    then have "s' = s" using a i by (auto simp: DurableAction_tx_def Let_def split: if_splits)
    then show ?thesis by (rule that(1))
  next
    case False
    note x = a [unfolded DurableAction_tx_def Let_def i option.case if_not_P [OF False] else_Inr and_then_Inr]
    then obtain p where "action_write c actor k action i (Business s) = Inr p" by blast
    with x show ?thesis by (cases p) (auto intro!: that(2) [OF i n False] simp: Let_def)
  qed
qed

lemma action_tx_mirrors:
  assumes a: "DurableAction_tx c actor k action s = Inr (ans, s')" and m: "mirrors v (Business s)"
  shows "mirrors v (Business s') \<and> Orders s' = Orders s \<and> Attempts s' = Attempts s \<and> effects_grow (Business s) (Business s')"
proof (rule action_txD [OF a])
  assume "s' = s"
  then show ?thesis using m by simp
next
  fix i b1
  assume i: "biz_inst (Business s) k = Some i" "\<not> busy (IStatus i)" "\<not> (action = ''hold'' \<and> IStatus i = StatusHeld)"
    and b1: "action_write c actor k action i (Business s) = Inr (ans, b1)"
    and s': "s' = s\<lparr>Business := (let b2 = (if action = ''delete'' then b1 else durableEvent k action actor b1)
          in if action \<in> {''cancel'', ''set-ok'', ''rerun''} then drop_holds k b2 else b2),
        RuntimeOrders := (if action = ''delete'' then delete_where (\<lambda>r. fst r = k) (RuntimeOrders s) else RuntimeOrders s)\<rparr>"
  have "mirrors v (Business s')"
    by (rule action_effect [OF b1 i(2,1) _ _ m i(3)]) (auto simp: s' Let_def drop_holds_def durableEvent_def)
  moreover note action_effects [OF b1]
  ultimately show ?thesis by (auto intro!: effects_grow_same simp: s' Let_def drop_holds_def durableEvent_def)
qed

lemma action_holds:
  assumes "action_write c actor k action i b = Inr (ans, b1)"
  shows "BzHolds b1 = BzHolds b \<or> (\<exists>p. BzHolds b1 = delete_where p (BzHolds b))"
proof -
  have out: "BzHolds (durableOut d od actor x) = BzHolds x" for d od x
    using out_quiet [of x d od actor] by (simp add: quiet_biz_def)
  show ?thesis
    by (rule action_names [OF assms]; use assms in \<open>auto simp: action_write_def Let_def upd_biz_inst_def drop_holds_def out
      split: if_splits option.splits\<close>)
qed

lemma action_tx_holds:
  assumes a: "DurableAction_tx c actor k action s = Inr (ans, s')"
  shows "\<exists>p. BzHolds (Business s') = delete_where p (BzHolds (Business s))"
proof -
  have id: "delete_where (\<lambda>_. False) hs = hs" for hs :: "HoldRow list" by (simp add: delete_where_def)
  have twice: "delete_where q (delete_where p hs) = delete_where (\<lambda>h. p h \<or> q h) hs" for p q and hs :: "HoldRow list"
    by (simp add: delete_where_def conj_commute)
  show ?thesis
  proof (rule action_txD [OF a])
    assume "s' = s"
    then show ?thesis using id by metis
  next
    fix i b1
    assume "action_write c actor k action i (Business s) = Inr (ans, b1)"
    then obtain p where p: "BzHolds b1 = delete_where p (BzHolds (Business s))" using action_holds id by metis
    assume "s' = s\<lparr>Business := (let b2 = (if action = ''delete'' then b1 else durableEvent k action actor b1)
          in if action \<in> {''cancel'', ''set-ok'', ''rerun''} then drop_holds k b2 else b2),
        RuntimeOrders := (if action = ''delete'' then delete_where (\<lambda>r. fst r = k) (RuntimeOrders s) else RuntimeOrders s)\<rparr>"
    then have "BzHolds (Business s') = BzHolds b1 \<or> BzHolds (Business s') = delete_where (\<lambda>h. HoInst h = k) (BzHolds b1)"
      by (auto simp: Let_def drop_holds_def durableEvent_def)
    then show ?thesis using p twice by metis
  qed
qed

lemma running_rule_quiet: "running_rule ex k d odate ev ir b = Inr b' \<Longrightarrow> quiet_biz b b'"
proof -
  assume r: "running_rule ex k d odate ev ir b = Inr b'"
  obtain n rule where ir: "ir = (n, rule)" by (cases ir)
  obtain p st b1 where nt: "durableActionNotify d rule k b = (p, st, b1)" by (cases "durableActionNotify d rule k b")
  note q1 = notify_quiet [OF nt]
  have q2: "quiet_biz b (durableCondition n od actor rem b) \<and> BzEffects (durableCondition n od actor rem b) = BzEffects b" for n od actor rem
    using condition_quiet [of b n od actor rem] by (auto simp: durableCondition_def split: prod.splits)
  have put: "quiet_biz b (durableEvent k ''action'' ''actions'' (x\<lparr>BzEffects := BzEffects x @ [new_effect eid ex k kind p st x]\<rparr>))"
    if "quiet_biz b x" "BzEffects x = BzEffects b" "row_of EfId eid (BzEffects b) = None" "st = EPending \<or> st = EDone" for x eid kind p st
  proof (rule silent_trans [OF _ event_quiet])
    have "effects_grow b (x\<lparr>BzEffects := BzEffects x @ [new_effect eid ex k kind p st x]\<rparr>)"
      by (rule effects_grow_insert [where x = "new_effect eid ex k kind p st x"])
        (use that fresh_new [OF that(4)] in \<open>auto simp: quiet_biz_def effects_grow_def new_effect_def\<close>)
    then show "quiet_biz b (x\<lparr>BzEffects := BzEffects x @ [new_effect eid ex k kind p st x]\<rparr>)"
      using that(1) by (simp add: quiet_biz_def)
  qed
  show ?thesis
  proof (cases "\<not> actionMatches rule ev \<or> row_of EfId (ex @ ''-runtime-action-'' @ Itoa (int n)) (BzEffects b) \<noteq> None")
    case True
    then show ?thesis using r by (auto simp: running_rule_def ir)
  next
    case False
    note x = r [unfolded running_rule_def ir Let_def prod.case if_not_P [OF False]]
    have new: "row_of EfId (ex @ ''-runtime-action-'' @ Itoa (int n)) (BzEffects b) = None" using False by blast
    consider "Do rule = ''set-condition''" | "Do rule = ''notify''" | "Do rule = ''run-job'' \<or> Do rule = ''set-ok''"
      using x by (force split: if_splits)
    then show ?thesis
    proof cases
      case 1
      then have "b' = durableEvent k ''action'' ''actions'' (durableCondition (RuleCondition rule) odate ''actions'' False b
          \<lparr>BzEffects := BzEffects (durableCondition (RuleCondition rule) odate ''actions'' False b) @
            [new_effect (ex @ ''-runtime-action-'' @ Itoa (int n)) ex k (Do rule) (PAction d rule odate) EDone
              (durableCondition (RuleCondition rule) odate ''actions'' False b)]\<rparr>)"
        using x by simp
      then show ?thesis using put [OF _ _ new] q2 by blast
    next
      case 2
      then have "b' = durableEvent k ''action'' ''actions'' (b1\<lparr>BzEffects := BzEffects b1 @
            [new_effect (ex @ ''-runtime-action-'' @ Itoa (int n)) ex k (Do rule) p st b1]\<rparr>)"
        using x nt by simp
      then show ?thesis using put [OF _ _ new] q1 by blast
    next
      case 3
      then have "\<exists>st. (st = EPending \<or> st = EDone) \<and> b' = durableEvent k ''action'' ''actions'' (b\<lparr>BzEffects := BzEffects b @
            [new_effect (ex @ ''-runtime-action-'' @ Itoa (int n)) ex k (Do rule) (PAction d rule odate) st b]\<rparr>)"
        using x by auto
      then show ?thesis using put [OF silent_refl refl new] by blast
    qed
  qed
qed

lemma sla_quiet: "durableSLATx ex k sla kind b = Inr b' \<Longrightarrow> quiet_biz b b'"
proof -
  assume "durableSLATx ex k sla kind b = Inr b'"
  then show ?thesis
    by (auto simp: durableSLATx_def Let_def quiet_biz_def new_effect_def fresh_effect_def intro!: effects_grow_insert split: if_splits)
qed

lemma sla_check_quiet:
  assumes "sla_check c a d k od b = Inr b2"
  shows "quiet_biz b b2"
proof -
  have step: "quiet_biz x y" if "(if P then durableSLATx ex k sla kind x else Inr x) = Inr y" for P ex sla kind x y
    using that by (cases P) (auto intro: sla_quiet)
  show ?thesis
  proof (cases "if DSlaOn c then SLA d else None")
    case None
    then show ?thesis using assms by (simp add: sla_check_def)
  next
    case (Some sla)
    note e = assms [unfolded sla_check_def Some option.case and_then_Inr]
    then obtain b1 where b1: "quiet_biz b b1"
      and r: "(case (if DeadlineHM sla \<noteq> [] then frozenCalendar (Loc (DEnv c)) d else None) of None \<Rightarrow> Inr b1
        | Some cal \<Rightarrow> (case At (Loc (DEnv c)) cal od (DeadlineHM sla) of None \<Rightarrow> Inr b1
            | Some t \<Rightarrow> if BzNow b1 > t then durableSLATx (AtExec a) k sla ''deadline'' b1 else Inr b1)) = Inr b2"
      using step by blast
    have "quiet_biz b1 b2"
      using r by (cases "if DeadlineHM sla \<noteq> [] then frozenCalendar (Loc (DEnv c)) d else None")
        (auto split: option.splits dest: step)
    then show ?thesis using b1 silent_trans by blast
  qed
qed

lemma running_quiet: "running_update c k s ord a = Inr b' \<Longrightarrow> quiet_biz (Business s) b'"
proof -
  assume r: "running_update c k s ord a = Inr b'"
  obtain d :: JobDefinition and i :: DInst and b1 where x: "each (running_rule (AtExec a) k d (inst_odate (Instance.truncate i))
        (zero_event\<lparr>EvKind := ''runtime'', EvRunMin := run_minutes (Business s) a\<rparr>)) (enumerate 0 (Actions d)) (Business s) = Inr b1"
      "sla_check c a d k (inst_odate (Instance.truncate i)) (durableAlerts c a d k ''RUNNING'' (IAttempts i) b1) = Inr b'"
  proof -
    obtain i x where ix: "biz_inst (Business s) k = Some i" "order_of s (LoId ord) = Some x"
      using r by (cases "biz_inst (Business s) k"; cases "order_of s (LoId ord)") (simp_all add: running_update_def and_then_Inr)
    obtain d where d: "ISnapshot i = Frozen d"
      using r ix by (cases "ISnapshot i") (simp_all add: running_update_def and_then_Inr)
    show thesis using r ix d that [of d i] by (auto simp: running_update_def Let_def and_then_Inr split: if_splits)
  qed
  show ?thesis
    using silent_trans [OF quiet_each [OF _ x(1)] silent_trans [OF alerts_quiet sla_check_quiet [OF x(2)]]] running_rule_quiet by blast
qed

end
