(* ===== verification/DurableRuns.thy ===== *)
theory DurableRuns
  imports DurableInv
begin

text \<open>
  Runs of the durable mode: the engine with its hooks, the operator, the evaluation of running
  orders, the drain of effects with late receipts, and the rest of the server, in any order.  The log
  lists the claims of effects that were handed out to be performed outside the database.

  Shown here: the invariants of \<^theory_text>\<open>DurableInv\<close> hold in every run, holds are unique, and
  the books of effects balance: the generation of an effect counts its claims and decisions, and it is
  claimed once and then once per decision to retry.
\<close>

section \<open>Steps\<close>

text \<open>What the rest of the server may do: anything but to the status of an instance it finds, the holds and the effects.\<close>

definition fresh_inst :: "DInst \<Rightarrow> bool" where
  "fresh_inst i \<longleftrightarrow> \<not> busy (IStatus i) \<and> proper (IStatus i) \<and> held_ok (IHeldFrom i)"

definition elsewhere :: "Biz \<Rightarrow> Biz \<Rightarrow> bool" where
  "elsewhere b b' \<longleftrightarrow> BzHolds b' = BzHolds b \<and> BzEffects b' = BzEffects b \<and> BzDecisions b' = BzDecisions b \<and>
     (\<exists>g new. BzInsts b' = map g (BzInsts b) @ new \<and> keys_distinct IId (BzInsts b') \<and> (\<forall>i\<in>set new. fresh_inst i) \<and>
        (\<forall>x. IId (g x) = IId x \<and> IStatus (g x) = IStatus x \<and> IHeldFrom (g x) = IHeldFrom x \<and> ISnapshot (g x) = ISnapshot x))"

inductive engine_call :: "Biz engine \<Rightarrow> Biz store \<Rightarrow> Biz store \<Rightarrow> bool" for e where
  "CreateRuntimeOrder e nid i (synced s) = Inr (ord, s') \<Longrightarrow> engine_call e s s'"
| "CreateOrder e nid src key (synced s) = Inr (ord, s') \<Longrightarrow> engine_call e s s'"
| "StartAttempt e now nid oid agent key intent s = Inr (a, s') \<Longrightarrow> nid \<noteq> [] \<Longrightarrow> engine_call e s s'"
| "ClaimCapacity e now agent available s = (res, s') \<Longrightarrow> engine_call e s s'"
| "AcknowledgeReason e now idn kind reason s = Inr (rc, s') \<Longrightarrow> engine_call e s s'"
| "CancelFor e now oid actor s = Inr (a, s') \<Longrightarrow> engine_call e s s'"
| "Reconcile e now s = (x, n, s') \<Longrightarrow> engine_call e s s'"
| "Complete e now r s = Inr (rc, s') \<Longrightarrow> engine_call e s s'"
| "AppendOutput e idn sq chunk s = Inr (rc, s') \<Longrightarrow> engine_call e s s'"
| "Resolve e now k fence key actor decision reason stopped s = Inr (a, s') \<Longrightarrow> engine_call e s s'"

inductive durable_step ::
  "durable_cfg \<Rightarrow> Biz engine \<Rightarrow> Biz store \<times> EffectRow list \<Rightarrow> Biz store \<times> EffectRow list \<Rightarrow> bool" for c e where
  engine: "engine_call (durable_engine c e) s s' \<Longrightarrow> durable_step c e (s, claims) (s', claims)"
| action: "DurableAction c (durable_engine c e) now actor k action s = Inr (ans, s') \<Longrightarrow> durable_step c e (s, claims) (s', claims)"
| running: "durable_step c e (s, claims) (evaluateDurableRunning c s, claims)"
| recover: "recover_effects (Business s) = Inr b \<Longrightarrow> durable_step c e (s, claims) (s\<lparr>Business := b\<rparr>, claims)"
| claim: "claim_effect c k (Business s) = Inr (f, b) \<Longrightarrow>
    durable_step c e (s, claims) (s\<lparr>Business := b\<rparr>, claims @ (case f of None \<Rightarrow> [] | Some x \<Rightarrow> [x]))"
| receipt: "f \<in> set claims \<Longrightarrow> durable_step c e (s, claims) (s\<lparr>Business := receipt_effect f ok (Business s)\<rparr>, claims)"
| decide: "ResolveEffect k key actor decision reason cls stopped risk gen (Business s) = Inr b \<Longrightarrow>
    durable_step c e (s, claims) (s\<lparr>Business := b\<rparr>, claims)"
| resources: "DurableResourceChange name cap remove (Business s) = Inr b \<Longrightarrow> durable_step c e (s, claims) (s\<lparr>Business := b\<rparr>, claims)"
| report: "ReportAgentCapacity agent slots pending available (Business s) = Inr b \<Longrightarrow>
    durable_step c e (s, claims) (s\<lparr>Business := b\<rparr>, claims)"
| elsewhere: "elsewhere (Business s) b \<Longrightarrow> durable_step c e (s, claims) (s\<lparr>Business := b, Principals := ps\<rparr>, claims)"

definition durable_start :: "Biz store \<Rightarrow> bool" where
  "durable_start s \<longleftrightarrow> Orders s = [] \<and> Attempts s = [] \<and> Outbox s = [] \<and> Outputs s = [] \<and> BzHolds (Business s) = [] \<and>
     BzEffects (Business s) = [] \<and> BzDecisions (Business s) = [] \<and> keys_distinct IId (BzInsts (Business s)) \<and>
     (\<forall>i\<in>set (BzInsts (Business s)). fresh_inst i)"

definition durable_reachable :: "durable_cfg \<Rightarrow> Biz engine \<Rightarrow> Biz store \<times> EffectRow list \<Rightarrow> bool" where
  "durable_reachable c e x \<longleftrightarrow> (\<exists>s. durable_start s \<and> (durable_step c e)\<^sup>*\<^sup>* (s, []) x)"

section \<open>The engine\<close>

definition unique_holds :: "Biz \<Rightarrow> bool" where
  "unique_holds b \<longleftrightarrow> keys_distinct (\<lambda>h. (HoInst h, HoName h)) (BzHolds b)"

lemma put_hold_unique: "unique_holds b \<Longrightarrow> unique_holds (put_hold k name q ex b)"
proof -
  assume u: "unique_holds b"
  show ?thesis
  proof (cases "hold_of b k name")
    case None
    then have "row_of (\<lambda>h. (HoInst h, HoName h)) (k, name) (BzHolds b) = None"
      by (auto simp: hold_of_def row_of_None find_None_iff)
    then show ?thesis using u None by (simp add: unique_holds_def put_hold_def keys_distinct_snoc)
  next
    case (Some h)
    have "keys_distinct (\<lambda>h. (HoInst h, HoName h))
        (update_where (\<lambda>h. HoInst h = k \<and> HoName h = name) (\<lambda>h. h\<lparr>HoQty := q, HoExec := ex\<rparr>) (BzHolds b))"
      using u by (subst keys_distinct_update_where) (simp_all add: unique_holds_def)
    then show ?thesis using Some by (simp add: unique_holds_def put_hold_def)
  qed
qed

lemma unique_frame: "BzHolds b' = BzHolds b \<Longrightarrow> unique_holds b' = unique_holds b"
  by (simp add: unique_holds_def)

lemma reserve_unique: "durableResources s k ex want bypass b = Inr b' \<Longrightarrow> unique_holds b \<longrightarrow> unique_holds b'"
  unfolding durableResources_def
proof (rule each_rel [of want "reserve_one s k ex bypass" "\<lambda>b b'. unique_holds b \<longrightarrow> unique_holds b'"])
  fix w b b' assume "reserve_one s k ex bypass w b = Inr b'"
  then show "unique_holds b \<longrightarrow> unique_holds b'"
    using reserve_one_cases [of s k ex bypass "fst w" "snd w" b b'] put_hold_unique [of "ensure_resource (fst w) b"]
      unique_frame [of "ensure_resource (fst w) b" b] by (auto simp: biz)
qed auto

lemma delete_unique: "unique_holds b \<Longrightarrow> BzHolds b' = delete_where p (BzHolds b) \<Longrightarrow> unique_holds b'"
  by (simp add: unique_holds_def keys_distinct_delete_where)

lemma branch_unique:
  assumes t: "durableTransition c s ord a kind r = Inr b'" and u: "unique_holds (Business s)"
    and d: "keys_distinct IId (BzInsts (Business s))"
  shows "unique_holds b'"
proof -
  obtain i d where x: "branch c s (LoSource ord) a kind r b' i d" by (rule transitionD [OF t])
  consider "kind = ''planned''" | "kind = ''started''" | "kind = ''uncertain''" | "end_kind kind"
    | "kind \<noteq> ''planned''" "kind \<noteq> ''started''" "kind \<noteq> ''uncertain''" "\<not> end_kind kind" by blast
  then show ?thesis
  proof cases
    case 1
    then obtain b1 where b1: "durableResources s (LoSource ord) (AtExec a) (ResourcesOf d) (IForced i \<and> IForceMode i \<noteq> ForceModeOrder)
        (mark_eligible (LoSource ord) (Business s)) = Inr b1" "BzHolds b' = BzHolds b1"
      using x planned_effect [of c s "LoSource ord" a i d b'] assms(3) by (auto simp: branch_def)
    have "unique_holds (mark_eligible (LoSource ord) (Business s))" using u by (simp add: unique_holds_def mark_eligible_def durableEvent_def)
    then show ?thesis using reserve_unique [OF b1(1)] unique_frame [OF b1(2)] by simp
  next
    case 2
    then have "BzHolds b' = BzHolds (Business s)"
      using x by (auto simp: branch_def durable_started_def Let_def durableEvent_def upd_biz_inst_def)
    then show ?thesis using u unique_frame by blast
  next
    case 3
    then have "BzHolds b' = BzHolds (Business s)"
      using x by (auto simp: branch_def durableEvent_def upd_biz_inst_def)
    then show ?thesis using u unique_frame by blast
  next
    case 4
    then have "durable_end c (LoSource ord) kind a r i d (Business s) = Inr b'" using x by (simp add: branch_def)
    then have "BzHolds b' = BzHolds (Business s) \<or>
        BzHolds b' = delete_where (\<lambda>h. HoInst h = LoSource ord \<and> HoExec h = AtExec a) (BzHolds (Business s))"
      using end_effect by blast
    then show ?thesis using u unique_frame delete_unique by blast
  next
    case 5
    then show ?thesis using x u unique_frame [of b' "Business s"] by (simp add: branch_def quiet_biz_def)
  qed
qed

text \<open>All of it at once, relative to the tables before the call.\<close>

definition sound :: "Biz \<Rightarrow> (string \<Rightarrow> string \<times> bool) \<Rightarrow> Biz \<Rightarrow> bool" where
  "sound b0 v b \<longleftrightarrow> mirrors v b \<and> unique_holds b \<and> effects_grow b0 b"

lemma mirrors_keys: "mirrors v b \<Longrightarrow> keys_distinct IId (BzInsts b)"
  by (simp add: mirrors_def status_fits_def)

interpretation whole: business "durable_engine c e" "sound b0" for c e b0
proof (unfold_locales, goal_cases)
  case (1 h t ord a r b v)
  then have t: "durableTransition c t ord a ''planned'' r = Inr b" by simp
  show ?case using 1 plan_mirrors [OF t] transition_grows [OF t] branch_unique [OF t] mirrors_keys effects_grow_trans
    unfolding sound_def by blast
next
  case (2 h t ord a kind r b v)
  then have t: "durableTransition c t ord a kind r = Inr b" by simp
  show ?case using 2 going_mirrors [OF t] transition_grows [OF t] branch_unique [OF t] mirrors_keys effects_grow_trans
    unfolding sound_def by blast
next
  case (3 h t ord a kind r b v)
  then have t: "durableTransition c t ord a kind r = Inr b" by simp
  have "kind \<noteq> ''planned''" using 3(4) by (auto simp: end_kind_def)
  then show ?case using 3 end_mirrors [OF t] transition_grows [OF t] branch_unique [OF t] mirrors_keys effects_grow_trans
    unfolding sound_def by blast
qed

abbreviation tables_fit :: "Biz \<Rightarrow> Biz store \<Rightarrow> bool" where
  "tables_fit b0 s \<equiv> business.fits (sound b0) s"

lemma tables_fit_iff: "tables_fit b0 s \<longleftrightarrow> exec_inv s \<and> runtime_keys s \<and> sound b0 (run_view s) (Business s)"
  by (rule whole.fits_def)

text \<open>A step that relates a state that fits to one that fits, and whose effects grow.\<close>

lemma synced_fits: "tables_fit b0 (synced s) = tables_fit b0 s"
proof -
  have "run_view (synced s) = run_view s" by (rule view_same) (simp add: synced_def)
  then show ?thesis using exec_inv_core [of "synced s" s] runtime_keys_same [of "synced s" s] by (simp add: tables_fit_iff synced_def)
qed

lemma engine_call_fits:
  assumes "engine_call (durable_engine c e) s s'" "tables_fit b0 s"
  shows "tables_fit b0 s'"
  using assms
proof (induction rule: engine_call.induct)
  case (1 nid i s ord s')
  then show ?case using whole.engine_fits(2) [of b0 "synced s"] synced_fits by blast
next
  case (2 nid src key s ord s')
  then show ?case using whole.engine_fits(1) [of b0 "synced s"] synced_fits by blast
qed (blast intro: whole.engine_fits)+

lemma fits_self: "tables_fit b0 s \<Longrightarrow> tables_fit (Business s) s"
  by (simp add: tables_fit_iff sound_def)

section \<open>The books of effects\<close>

type_synonym books = "EffectRow list \<times> EffectDecision list \<times> EffectRow list"

definition books_of :: "Biz store \<times> EffectRow list \<Rightarrow> books" where
  "books_of x = (BzEffects (Business (fst x)), BzDecisions (Business (fst x)), snd x)"

definition settled :: "EffectRow \<Rightarrow> bool" where
  "settled x \<longleftrightarrow> EfState x = EDone \<or> EfState x = ECancelled"

text \<open>Every operation on effects is one of four writes.\<close>

inductive effect_write :: "books \<Rightarrow> books \<Rightarrow> bool" where
  insert: "insert1 es es' \<Longrightarrow> effect_write (es, ds, cl) (es', ds, cl)"
| claim: "row_of EfId k es = Some f \<Longrightarrow> EfState f = EPending \<Longrightarrow> (\<And>x. EfId (g x) = EfId x) \<Longrightarrow>
    EfGen (g f) = EfGen f + 1 \<Longrightarrow> EfState (g f) = EClaimed \<Longrightarrow>
    effect_write (es, ds, cl) (update_where (\<lambda>x. EfId x = k) g es, ds, cl @ [g f])"
| settle: "(\<And>x. EfId (g x) = EfId x \<and> EfGen (g x) = EfGen x) \<Longrightarrow>
    (\<And>x. row_of EfId (EfId x) es = Some x \<Longrightarrow> p x \<Longrightarrow> \<not> settled x \<and> EfState (g x) \<noteq> EPending) \<Longrightarrow>
    effect_write (es, ds, cl) (update_where p g es, ds, cl)"
| decide: "row_of EfId k es = Some f \<Longrightarrow> \<not> settled f \<Longrightarrow> (\<And>x. EfId (g x) = EfId x) \<Longrightarrow> EfGen (g f) = EfGen f + 1 \<Longrightarrow>
    EdEffect d = k \<Longrightarrow> (EfState (g f) = EPending \<longrightarrow> EdDecision d = ''retry'') \<Longrightarrow>
    effect_write (es, ds, cl) (update_where (\<lambda>x. EfId x = k) g es, ds @ [d], cl)"

definition claims_of :: "string \<Rightarrow> EffectRow list \<Rightarrow> nat" where
  "claims_of k cl = count_where (\<lambda>x. EfId x = k) cl"

definition decisions_of :: "string \<Rightarrow> EffectDecision list \<Rightarrow> nat" where
  "decisions_of k ds = count_where (\<lambda>d. EdEffect d = k) ds"

definition retries_of :: "string \<Rightarrow> EffectDecision list \<Rightarrow> nat" where
  "retries_of k ds = count_where (\<lambda>d. EdEffect d = k \<and> EdDecision d = ''retry'') ds"

fun book :: "EffectRow option \<Rightarrow> nat \<Rightarrow> nat \<Rightarrow> nat \<Rightarrow> bool" where
  "book None n m q \<longleftrightarrow> n = 0 \<and> m = 0"
| "book (Some f) n m q \<longleftrightarrow> EfGen f = int n + int m \<and> n + (if EfState f = EPending then 1 else 0) \<le> 1 + q"

definition balanced :: "books \<Rightarrow> bool" where
  "balanced w \<longleftrightarrow> (case w of (es, ds, cl) \<Rightarrow> keys_distinct EfId es \<and>
     (\<forall>k. book (row_of EfId k es) (claims_of k cl) (decisions_of k ds) (retries_of k ds)) \<and>
     (\<forall>x\<in>set cl. \<exists>f. row_of EfId (EfId x) es = Some f \<and> EfGen x \<le> EfGen f) \<and>
     distinct (map (\<lambda>x. (EfId x, EfGen x)) cl))"

lemmas book_counts = claims_of_def decisions_of_def retries_of_def count_where_append

lemma balanced_row: "balanced (es, ds, cl) \<Longrightarrow> row_of EfId k es = Some f \<Longrightarrow>
    EfGen f = int (claims_of k cl) + int (decisions_of k ds) \<and> claims_of k cl + (if EfState f = EPending then 1 else 0) \<le> 1 + retries_of k ds"
  unfolding balanced_def prod.case by (metis book.simps(2))

lemma row_update: "(\<And>x. EfId (g x) = EfId x) \<Longrightarrow> row_of EfId j (update_where p g es) = map_option (\<lambda>x. if p x then g x else x) (row_of EfId j es)"
  by (rule row_of_update_where) simp

lemma key_update:
  assumes "\<And>x. EfId (g x) = EfId x"
  shows "row_of EfId j (update_where (\<lambda>x. EfId x = k) g es) = (if j = k then map_option g (row_of EfId k es) else row_of EfId j es)"
  using row_of_SomeD [of EfId j es] by (cases "row_of EfId j es") (auto simp: row_update [OF assms])

text \<open>A row that is settled stays as it is; generations only grow.\<close>

definition grown :: "EffectRow \<Rightarrow> EffectRow \<Rightarrow> bool" where
  "grown x y \<longleftrightarrow> EfId y = EfId x \<and> EfGen x \<le> EfGen y"

lemma effect_write_row:
  assumes "effect_write w w'" "row_of EfId k (fst w) = Some r"
  shows "\<exists>r'. row_of EfId k (fst w') = Some r' \<and> (r' = r \<or> \<not> settled r \<and> grown r r')"
  using assms
proof (induction rule: effect_write.induct)
  case (insert es es' ds cl)
  then show ?case by (auto simp: insert1_def row_of_append)
next
  case (claim j es f g ds cl)
  have "\<not> settled f" using claim(2) by (simp add: settled_def)
  then show ?case using claim by (auto simp: key_update grown_def)
next
  case (settle g es p ds cl)
  have "row_of EfId k (update_where p g es) = map_option (\<lambda>x. if p x then g x else x) (row_of EfId k es)"
    by (rule row_update) (simp add: settle(1))
  moreover have "row_of EfId (EfId r) es = Some r" using row_of_SomeD [of EfId k es] settle(3) by auto
  ultimately show ?case using settle by (auto simp: grown_def)
next
  case (decide j es f g d ds cl)
  then show ?case by (auto simp: key_update grown_def)
qed

lemma effect_write_balanced:
  assumes "effect_write w w'" "balanced w"
  shows "balanced w'"
  using assms
proof (induction rule: effect_write.induct)
  case (insert es es' ds cl)
  obtain x where x: "es' = es @ [x]" "row_of EfId (EfId x) es = None" "fresh_effect x" using insert(1) by (auto simp: insert1_def)
  note b = insert(2) [unfolded balanced_def prod.case]
  have z: "claims_of (EfId x) cl = 0 \<and> decisions_of (EfId x) ds = 0" using b x(2) by (metis book.simps(1))
  show ?case
    unfolding balanced_def prod.case
  proof (intro conjI allI ballI)
    show "keys_distinct EfId es'" using b x(2) by (simp add: x(1) keys_distinct_snoc)
  next
    fix k
    have r: "row_of EfId k es' = (case row_of EfId k es of None \<Rightarrow> (if EfId x = k then Some x else None) | Some y \<Rightarrow> Some y)"
      by (auto simp: x(1) row_of_append row_of_Cons split: option.split)
    show "book (row_of EfId k es') (claims_of k cl) (decisions_of k ds) (retries_of k ds)"
    proof (cases "row_of EfId k es")
      case None
      then have "claims_of k cl = 0 \<and> decisions_of k ds = 0" using b by (metis book.simps(1))
      then show ?thesis using None r x(3) by (auto simp: fresh_effect_def)
    next
      case (Some y)
      then show ?thesis using r b by (metis option.simps(5))
    qed
  next
    fix y assume "y \<in> set cl"
    then show "\<exists>f. row_of EfId (EfId y) es' = Some f \<and> EfGen y \<le> EfGen f" using b by (force simp: x(1) row_of_append)
  qed (use b in blast)
next
  case (claim k es f g ds cl)
  note b = claim(6) [unfolded balanced_def prod.case]
  note row = key_update [of g _ k es, OF claim(3)]
  have kf: "EfId f = k" using row_of_SomeD [OF claim(1)] by simp
  note bf = balanced_row [OF claim(6,1)]
  show ?case
    unfolding balanced_def prod.case
  proof (intro conjI allI ballI)
    show "keys_distinct EfId (update_where (\<lambda>x. EfId x = k) g es)" using b claim(3) by (simp add: keys_distinct_update_where)
  next
    fix j
    show "book (row_of EfId j (update_where (\<lambda>x. EfId x = k) g es)) (claims_of j (cl @ [g f])) (decisions_of j ds) (retries_of j ds)"
    proof (cases "j = k")
      case True
      then show ?thesis using row claim bf kf by (simp add: book_counts) (simp add: count_where_def)
    next
      case False
      then have "claims_of j (cl @ [g f]) = claims_of j cl" using claim(3) kf by (simp add: book_counts) (simp add: count_where_def)
      then show ?thesis using False row b by simp
    qed
  next
    fix y assume y: "y \<in> set (cl @ [g f])"
    show "\<exists>f. row_of EfId (EfId y) (update_where (\<lambda>x. EfId x = k) g es) = Some f \<and> EfGen y \<le> EfGen f"
    proof (cases "y = g f")
      case True
      then show ?thesis using row claim(1,3) kf by simp
    next
      case False
      then obtain h where h: "row_of EfId (EfId y) es = Some h" "EfGen y \<le> EfGen h" using y b by auto
      then show ?thesis using row claim(1,4) by (cases "EfId y = k") auto
    qed
  next
    have "EfGen y \<le> EfGen f" if "y \<in> set cl" "EfId y = k" for y using b that claim(1) by auto
    then have "(EfId (g f), EfGen (g f)) \<notin> (\<lambda>x. (EfId x, EfGen x)) ` set cl" using claim(3,4) kf by force
    then show "distinct (map (\<lambda>x. (EfId x, EfGen x)) (cl @ [g f]))" using b by simp
  qed
next
  case (settle g es p ds cl)
  note b = settle(3) [unfolded balanced_def prod.case]
  have id: "\<And>x. EfId (g x) = EfId x" using settle(1) by simp
  note row = row_update [of g _ p es, OF id]
  show ?case
    unfolding balanced_def prod.case
  proof (intro conjI allI ballI)
    show "keys_distinct EfId (update_where p g es)" using b id by (simp add: keys_distinct_update_where)
  next
    fix j
    show "book (row_of EfId j (update_where p g es)) (claims_of j cl) (decisions_of j ds) (retries_of j ds)"
    proof (cases "row_of EfId j es")
      case None
      then show ?thesis using row b by (metis option.simps(8))
    next
      case (Some f)
      have "row_of EfId (EfId f) es = Some f" using row_of_SomeD [OF Some] Some by simp
      then show ?thesis using row Some balanced_row [OF settle(3) Some] settle(1,2) by auto
    qed
  next
    fix y assume "y \<in> set cl"
    then obtain h where "row_of EfId (EfId y) es = Some h" "EfGen y \<le> EfGen h" using b by auto
    then show "\<exists>f. row_of EfId (EfId y) (update_where p g es) = Some f \<and> EfGen y \<le> EfGen f" using row settle(1) by simp
  qed (use b in blast)
next
  case (decide k es f g d ds cl)
  note b = decide(7) [unfolded balanced_def prod.case]
  note row = key_update [of g _ k es, OF decide(3)]
  note bf = balanced_row [OF decide(7,1)]
  show ?case
    unfolding balanced_def prod.case
  proof (intro conjI allI ballI)
    show "keys_distinct EfId (update_where (\<lambda>x. EfId x = k) g es)" using b decide(3) by (simp add: keys_distinct_update_where)
  next
    fix j
    show "book (row_of EfId j (update_where (\<lambda>x. EfId x = k) g es)) (claims_of j cl) (decisions_of j (ds @ [d])) (retries_of j (ds @ [d]))"
    proof (cases "j = k")
      case True
      then show ?thesis using row decide bf by (auto simp: book_counts count_where_def split: if_splits)
    next
      case False
      then have "decisions_of j (ds @ [d]) = decisions_of j ds" "retries_of j (ds @ [d]) = retries_of j ds"
        using decide(5) by (simp_all add: book_counts count_where_def)
      then show ?thesis using False row b by simp
    qed
  next
    fix y assume "y \<in> set cl"
    then obtain h where "row_of EfId (EfId y) es = Some h" "EfGen y \<le> EfGen h" using b by auto
    then show "\<exists>f. row_of EfId (EfId y) (update_where (\<lambda>x. EfId x = k) g es) = Some f \<and> EfGen y \<le> EfGen f"
      using row decide(1,4) by (cases "EfId y = k") auto
  qed (use b in blast)
qed

interpretation effects: lifecycle balanced effect_write "\<lambda>w k. row_of EfId k (fst w)" grown settled
  by unfold_locales (auto intro: effect_write_balanced dest: effect_write_row)

section \<open>Every step\<close>

definition good :: "Biz store \<times> EffectRow list \<Rightarrow> bool" where
  "good x \<longleftrightarrow> tables_fit (Business (fst x)) (fst x) \<and> balanced (books_of x)"

lemma fits_write:
  assumes "tables_fit b0 s" "mirrors (run_view s) b" "unique_holds b" "Orders s' = Orders s" "Attempts s' = Attempts s" "Business s' = b"
  shows "tables_fit b s'"
  using assms exec_inv_core [of s' s] runtime_keys_same [of s' s] view_same [of s' s] by (simp add: tables_fit_iff sound_def)

lemma quiet_fits:
  "tables_fit b0 s \<Longrightarrow> quiet_biz (Business s) b \<Longrightarrow> tables_fit b (s\<lparr>Business := b\<rparr>)"
  by (rule fits_write) (auto simp: tables_fit_iff sound_def quiet_biz_def unique_holds_def intro: mirrors_quiet [of "Business s"])

lemma frame_fits:
  assumes "tables_fit b0 s" "BzInsts b = BzInsts (Business s)" "BzHolds b = BzHolds (Business s)"
  shows "tables_fit b (s\<lparr>Business := b\<rparr>)"
  by (rule fits_write [OF assms(1)])
    (use assms in \<open>auto simp: tables_fit_iff sound_def unique_holds_def mirrors_def status_fits_def hold_fits_def biz_inst_def\<close>)

lemma grow_writes:
  "effects_grow b b' \<Longrightarrow> effect_write\<^sup>*\<^sup>* (BzEffects b, BzDecisions b, cl) (BzEffects b', BzDecisions b', cl)"
proof -
  assume "effects_grow b b'"
  then have "insert1\<^sup>*\<^sup>* (BzEffects b) (BzEffects b')" "BzDecisions b' = BzDecisions b" by (simp_all add: effects_grow_def)
  then show ?thesis
    by (induction rule: rtranclp_induct) (auto intro: rtranclp.rtrancl_into_rtrancl effect_write.insert)
qed

text \<open>What is to be shown of a step that only changes the business tables.\<close>

definition ok_step :: "Biz store \<times> EffectRow list \<Rightarrow> Biz store \<times> EffectRow list \<Rightarrow> bool" where
  "ok_step x y \<longleftrightarrow> (tables_fit (Business (fst x)) (fst x) \<longrightarrow>
     tables_fit (Business (fst y)) (fst y) \<and> effect_write\<^sup>*\<^sup>* (books_of x) (books_of y))"

lemma ok_stepI:
  "(tables_fit (Business s) s \<Longrightarrow> tables_fit (Business s') s' \<and> effect_write\<^sup>*\<^sup>* (books_of (s, cl)) (books_of (s', cl'))) \<Longrightarrow> ok_step (s, cl) (s', cl')"
  by (simp add: ok_step_def)

lemma ok_engine: "engine_call (durable_engine c e) s s' \<Longrightarrow> ok_step (s, cl) (s', cl)"
proof (rule ok_stepI)
  assume e: "engine_call (durable_engine c e) s s'" and f: "tables_fit (Business s) s"
  have f': "tables_fit (Business s) s'" by (rule engine_call_fits [OF e f])
  then have "effects_grow (Business s) (Business s')" by (simp add: tables_fit_iff sound_def)
  then show "tables_fit (Business s') s' \<and> effect_write\<^sup>*\<^sup>* (books_of (s, cl)) (books_of (s', cl))"
    using fits_self [OF f'] grow_writes by (simp add: books_of_def)
qed

lemma ok_quiet: "quiet_biz (Business s) b \<Longrightarrow> ok_step (s, cl) (s\<lparr>Business := b\<rparr>, cl)"
  by (rule ok_stepI) (use quiet_fits grow_writes in \<open>auto simp: books_of_def quiet_biz_def\<close>)

lemma ok_frame:
  "BzInsts b = BzInsts (Business s) \<Longrightarrow> BzHolds b = BzHolds (Business s) \<Longrightarrow> effect_write\<^sup>*\<^sup>* (books_of (s, cl)) (books_of (s\<lparr>Business := b\<rparr>, cl')) \<Longrightarrow>
     ok_step (s, cl) (s\<lparr>Business := b\<rparr>, cl')"
  by (rule ok_stepI) (use frame_fits in auto)

lemma ok_refl: "ok_step x x"
  by (simp add: ok_step_def)

lemma ok_trans: "ok_step x y \<Longrightarrow> ok_step y z \<Longrightarrow> ok_step x z"
  by (auto simp: ok_step_def)

lemma ok_action:
  assumes "DurableAction c (durable_engine c e) now actor k action s = Inr (ans, s')"
  shows "ok_step (s, cl) (s', cl)"
proof (cases "if action = ''cancel'' then live_order s k else None")
  case (Some p)
  then obtain a where "CancelFor (durable_engine c e) now (LoId (fst p)) actor s = Inr (a, s')"
    using assms by (cases p) (auto simp: DurableAction_def and_then_Inr split: option.splits)
  then show ?thesis using engine_call.intros(6) ok_engine by blast
next
  case None
  then have a: "DurableAction_tx c actor k action s = Inr (ans, s')" using assms by (simp add: DurableAction_def)
  show ?thesis
  proof (rule ok_stepI)
    assume f: "tables_fit (Business s) s"
    note m = action_tx_mirrors [OF a, of "run_view s"]
    have mm: "mirrors (run_view s) (Business s)" "unique_holds (Business s)" using f by (simp_all add: tables_fit_iff sound_def)
    have "unique_holds (Business s')" using action_tx_holds [OF a] delete_unique [OF mm(2)] by blast
    then show "tables_fit (Business s') s' \<and> effect_write\<^sup>*\<^sup>* (books_of (s, cl)) (books_of (s', cl))"
      using fits_write [OF f, of "Business s'" s'] m [OF mm(1)] grow_writes by (simp add: books_of_def)
  qed
qed

lemma ok_running: "ok_step (s, cl) (evaluateDurableRunning c s, cl)"
proof -
  have one: "ok_step (s, cl) (evaluate_one c k s, cl)" for k s
  proof (cases "RuntimeUpdate k (running_update c k) s")
    case (Inl x)
    then show ?thesis by (simp add: evaluate_one_def ok_refl)
  next
    case (Inr s')
    then obtain ord a b where "running_update c k s ord a = Inr b" "s' = s\<lparr>Business := b\<rparr>"
      by (auto simp: RuntimeUpdate_def split: option.splits if_splits sum.splits)
    then show ?thesis using ok_quiet running_quiet Inr by (simp add: evaluate_one_def)
  qed
  have "ok_step (s, cl) (fold (evaluate_one c) ks s, cl)" for ks
    by (induction ks arbitrary: s) (auto intro: ok_refl ok_trans one)
  then show ?thesis by (simp add: evaluateDurableRunning_def)
qed

text \<open>Instances that are added, and changes that leave alone what the invariants read.\<close>

lemma mirrors_more:
  assumes m: "mirrors v b" and h: "BzHolds b' = BzHolds b" and i: "BzInsts b' = map g (BzInsts b) @ new"
    and d: "keys_distinct IId (BzInsts b')" and new: "\<And>i. i \<in> set new \<Longrightarrow> fresh_inst i"
    and g: "\<And>x. IId (g x) = IId x \<and> IStatus (g x) = IStatus x \<and> IHeldFrom (g x) = IHeldFrom x \<and> ISnapshot (g x) = ISnapshot x"
  shows "mirrors v b'"
proof -
  have row: "biz_inst b' k = Some (g x)" if "biz_inst b k = Some x" for k x
  proof -
    have "g x \<in> set (BzInsts b')" "IId (g x) = k" using inst_row [OF that] g i by auto
    then show ?thesis using row_of_in_set [OF d] by (auto simp: biz_inst_def)
  qed
  have st: "\<not> snd (v (IId y))" if y: "y \<in> set new" for y
  proof
    assume "snd (v (IId y))"
    then obtain x where "biz_inst b (IId y) = Some x" using m by (auto simp: mirrors_def status_fits_def)
    then have "g x \<in> set (map g (BzInsts b))" "IId (g x) = IId y" using inst_row g by fastforce+
    then show False using d y i by (force simp: keys_distinct_def)
  qed
  have "status_fits v b'"
    unfolding status_fits_def
  proof (intro conjI ballI allI impI)
    fix y assume "y \<in> set (BzInsts b')"
    then show "busy (IStatus y) = snd (v (IId y))" "proper (IStatus y)" "held_ok (IHeldFrom y)"
      using m g st new i by (auto simp: mirrors_def status_fits_def fresh_inst_def)
  next
    fix k assume "snd (v k)"
    then show "biz_inst b' k \<noteq> None" using m row by (fastforce simp: mirrors_def status_fits_def)
  qed (rule d)
  moreover have "hold_fits v b' x" if "hold_fits v b x" for x
    using that row g by (fastforce simp: hold_fits_def may_hold_def)
  ultimately show ?thesis using m h by (simp add: mirrors_def)
qed

lemma force_effect:
  assumes "durableForceTx c eid target b = Inr b'"
  shows "BzHolds b' = BzHolds b \<and> BzEffects b' = BzEffects b \<and> BzDecisions b' = BzDecisions b \<and>
    (\<exists>i. BzInsts b' = BzInsts b @ [i] \<and> IId i = forced_id target eid \<and> biz_inst b (IId i) = None \<and> fresh_inst i)"
proof -
  obtain d cal where b': "b' = durableEvent (forced_id target eid) ''force-ordered'' ''actions'' (b\<lparr>BzInsts := BzInsts b @
      [forced_row (forced_id target eid) d cal (BzNow b)]\<rparr>)" "biz_inst b (forced_id target eid) = None"
    using assms by (auto simp: durableForceTx_def Let_def split: option.splits if_splits)
  have "IId (forced_row k d cal t) = k \<and> fresh_inst (forced_row k d cal t)" for k d cal t
    by (simp add: forced_row_def forced_instance_def Instance.extend_def DInst.fields_def fresh_inst_def busy_def proper_def held_ok_def)
  then show ?thesis using b' by (simp add: durableEvent_def)
qed

lemma ok_claim:
  assumes c: "claim_effect c k (Business s) = Inr (f, b)"
  shows "ok_step (s, cl) (s\<lparr>Business := b\<rparr>, cl @ (case f of None \<Rightarrow> [] | Some x \<Rightarrow> [x]))"
proof -
  let ?b = "Business s"
  let ?g = "\<lambda>x. x\<lparr>EfState := EClaimed, EfLease := UnixMilli (BzNow ?b + minute), EfGen := EfGen x + 1\<rparr>"
  consider "f = None" "b = ?b"
    | x target b1 where "f = None" "effect_of ?b k = Some x" "EfState x = EPending" "durableForceTx c k target ?b = Inr b1"
        "b = upd_effect k (\<lambda>x. x\<lparr>EfState := EDone\<rparr>) b1"
    | x where "effect_of ?b k = Some x" "EfState x = EPending" "f = Some (?g x)" "b = upd_effect k ?g ?b"
    using c by (auto simp: claim_effect_def and_then_Inr Let_def split: option.splits if_splits payload.splits)
  then show ?thesis
  proof cases
    case 1
    then show ?thesis by (simp add: ok_refl)
  next
    case (2 x target b1)
    note fe = force_effect [OF 2(4)]
    show ?thesis
    proof (rule ok_stepI)
      assume ft: "tables_fit (Business s) s"
      then have m: "mirrors (run_view s) ?b" "unique_holds ?b" by (simp_all add: tables_fit_iff sound_def)
      obtain i where i: "BzInsts b1 = BzInsts ?b @ [i]" "biz_inst ?b (IId i) = None" "fresh_inst i" using fe by blast
      have kd: "keys_distinct IId (BzInsts b)"
        using mirrors_keys [OF m(1)] i by (simp add: 2 upd_effect_def keys_distinct_snoc biz_inst_def)
      have "mirrors (run_view s) b"
        by (rule mirrors_more [OF m(1), of b id "[i]"]) (use kd fe i 2 in \<open>simp_all add: upd_effect_def\<close>)
      moreover have "unique_holds b" using m(2) fe unique_frame [of b ?b] by (simp add: 2 upd_effect_def)
      ultimately have "tables_fit b (s\<lparr>Business := b\<rparr>)" using fits_write [OF ft] by simp
      moreover have "effect_write (BzEffects ?b, BzDecisions ?b, cl) (BzEffects b, BzDecisions b, cl)"
      proof -
        have u: "BzEffects b = update_where (\<lambda>x. EfId x = k) (\<lambda>x. x\<lparr>EfState := EDone\<rparr>) (BzEffects ?b)" "BzDecisions b = BzDecisions ?b"
          using fe by (simp_all add: 2 upd_effect_def)
        show ?thesis unfolding u by (rule effect_write.settle) (use 2 in \<open>auto simp: effect_of_def settled_def\<close>)
      qed
      ultimately show "tables_fit (Business (s\<lparr>Business := b\<rparr>)) (s\<lparr>Business := b\<rparr>) \<and>
          effect_write\<^sup>*\<^sup>* (books_of (s, cl)) (books_of (s\<lparr>Business := b\<rparr>, cl @ (case f of None \<Rightarrow> [] | Some x \<Rightarrow> [x])))"
        by (simp add: books_of_def 2(1))
    qed
  next
    case (3 x)
    have "effect_write (BzEffects ?b, BzDecisions ?b, cl) (update_where (\<lambda>x. EfId x = k) ?g (BzEffects ?b), BzDecisions ?b, cl @ [?g x])"
      by (rule effect_write.claim) (use 3 in \<open>simp_all add: effect_of_def\<close>)
    then show ?thesis using 3 by (intro ok_frame) (simp_all add: upd_effect_def books_of_def r_into_rtranclp)
  qed
qed

lemma ok_receipt: "ok_step (s, cl) (s\<lparr>Business := receipt_effect f ok (Business s)\<rparr>, cl)"
proof (rule ok_frame)
  define p where "p = (\<lambda>x :: EffectRow. EfId x = EfId f \<and> (EfState x = EClaimed \<or> EfState x = EUncertain) \<and> EfResolvedAt x = 0 \<and> EfGen x = EfGen f)"
  define g where "g = (\<lambda>x :: EffectRow. x\<lparr>EfState := (if ok then EDone else EUncertain), EfReason := (if ok then [] else unclear_reason), EfLease := 0\<rparr>)"
  have b: "BzEffects (receipt_effect f ok (Business s)) = update_where p g (BzEffects (Business s)) \<and>
      BzDecisions (receipt_effect f ok (Business s)) = BzDecisions (Business s) \<and>
      BzInsts (receipt_effect f ok (Business s)) = BzInsts (Business s) \<and> BzHolds (receipt_effect f ok (Business s)) = BzHolds (Business s)"
    by (simp add: receipt_effect_def Let_def p_def g_def split: payload.split)
  then show "BzInsts (receipt_effect f ok (Business s)) = BzInsts (Business s)" "BzHolds (receipt_effect f ok (Business s)) = BzHolds (Business s)"
    by simp_all
  have "effect_write (BzEffects (Business s), BzDecisions (Business s), cl) (update_where p g (BzEffects (Business s)), BzDecisions (Business s), cl)"
    by (rule effect_write.settle) (auto simp: p_def g_def settled_def)
  then show "effect_write\<^sup>*\<^sup>* (books_of (s, cl)) (books_of (s\<lparr>Business := receipt_effect f ok (Business s)\<rparr>, cl))"
    using b by (simp add: books_of_def)
qed

lemma ok_recover: "recover_effects (Business s) = Inr b \<Longrightarrow> ok_step (s, cl) (s\<lparr>Business := b\<rparr>, cl)"
proof (rule ok_frame, goal_cases)
  case 3
  then have "effect_write (BzEffects (Business s), BzDecisions (Business s), cl) (BzEffects b, BzDecisions b, cl)"
    by (auto simp: recover_effects_def and_then_Inr settled_def intro!: effect_write.settle)
  then show ?case by (simp add: books_of_def)
qed (auto simp: recover_effects_def and_then_Inr)

text \<open>A decision that is new: the row with its generation raised, and the decision recorded.\<close>

definition resolved_row :: "string \<Rightarrow> string \<Rightarrow> string \<Rightarrow> int \<Rightarrow> EffectRow \<Rightarrow> EffectRow" where
  "resolved_row decision reason actor now x =
     x\<lparr>EfState := decided_state decision, EfReason := reason, EfResolvedBy := actor,
       EfResolvedAt := (if decision = ''retry'' then 0 else UnixMilli now), EfLease := 0, EfGen := EfGen x + 1\<rparr>"

lemma resolved_simps [simp]: "EfId (resolved_row dn r actor now x) = EfId x" "EfGen (resolved_row dn r actor now x) = EfGen x + 1"
  "EfState (resolved_row dn r actor now x) = decided_state dn"
  by (simp_all add: resolved_row_def)

lemma resolve_new:
  assumes "ResolveEffect k key actor decision reason cls stopped risk gen b0 = Inr b" "row_of EdKey key (BzDecisions b0) = None"
  obtains f d r where "effect_of b0 k = Some f" "\<not> settled f" "EdEffect d = k" "EdDecision d = decision"
    "decided_state decision = EPending \<longrightarrow> decision = ''retry''" "decision \<noteq> ''retry'' \<longrightarrow> decided_state decision \<noteq> EPending"
    "BzEffects b = update_where (\<lambda>x. EfId x = k) (resolved_row decision r actor (BzNow b0)) (BzEffects b0)"
    "BzDecisions b = BzDecisions b0 @ [d]" "BzInsts b = BzInsts b0" "BzHolds b = BzHolds b0"
proof -
  define r where "r = TrimSpace reason"
  let ?d = "\<lparr>EdKey = key, EdEffect = k, EdActor = actor, EdDecision = decision, EdReason = r, EdClass = cls, EdGen = gen\<rparr>"
  note e = assms(1) [unfolded ResolveEffect_def Let_def, folded r_def, unfolded else_Inr not_not]
  have v: "resolution_valid key actor decision r cls stopped risk gen" using e by blast
  obtain f where f: "effect_of b0 k = Some f" using e by (cases "effect_of b0 k") simp_all
  note a = conjunct2 [OF e, unfolded f option.case assms(2) else_Inr]
  have g: "(\<lambda>x. x\<lparr>EfState := decided_state decision, EfReason := r, EfResolvedBy := actor,
      EfResolvedAt := (if decision = ''retry'' then 0 else UnixMilli (BzNow b0)), EfLease := 0, EfGen := EfGen x + 1\<rparr>) =
      resolved_row decision r actor (BzNow b0)"
    by (simp add: resolved_row_def fun_eq_iff)
  have st: "\<not> settled f" using a by (auto simp: settled_def)
  have d: "decided_state decision = EPending \<longleftrightarrow> decision = ''retry''" using v by (auto simp: resolution_valid_def decided_state_def)
  show thesis
    by (rule that [OF f st, of ?d r]) (use a d in \<open>auto simp: durableEvent_def upd_effect_def g\<close>)
qed

lemma resolve_old:
  assumes "ResolveEffect k key actor decision reason cls stopped risk gen b0 = Inr b" "row_of EdKey key (BzDecisions b0) = Some r"
  shows "b = b0"
  using assms(1) unfolding ResolveEffect_def Let_def else_Inr not_not
  by (cases "effect_of b0 k") (simp_all add: assms(2) split: if_splits)

lemma ok_decide:
  assumes "ResolveEffect k key actor decision reason cls stopped risk gen (Business s) = Inr b"
  shows "ok_step (s, cl) (s\<lparr>Business := b\<rparr>, cl)"
proof (cases "row_of EdKey key (BzDecisions (Business s))")
  case (Some r)
  then show ?thesis using resolve_old [OF assms] by (simp add: ok_refl)
next
  case None
  obtain f d r where f: "effect_of (Business s) k = Some f" "\<not> settled f" "EdEffect d = k" "EdDecision d = decision"
    "decided_state decision = EPending \<longrightarrow> decision = ''retry''"
    and b: "BzEffects b = update_where (\<lambda>x. EfId x = k) (resolved_row decision r actor (BzNow (Business s))) (BzEffects (Business s))"
      "BzDecisions b = BzDecisions (Business s) @ [d]" "BzInsts b = BzInsts (Business s)" "BzHolds b = BzHolds (Business s)"
    by (rule resolve_new [OF assms None])
  have "effect_write (BzEffects (Business s), BzDecisions (Business s), cl) (BzEffects b, BzDecisions b, cl)"
    unfolding b(1,2) by (rule effect_write.decide [where f = f]) (use f in \<open>simp_all add: effect_of_def\<close>)
  then show ?thesis using b(3,4) by (intro ok_frame) (simp_all add: books_of_def r_into_rtranclp)
qed

lemma step_ok: "durable_step c e x y \<Longrightarrow> ok_step x y"
proof (induction rule: durable_step.induct)
  case (resources name cap remove s b claims)
  then have "quiet_biz (Business s) b" by (intro silent_same) (auto simp: DurableResourceChange_def split: if_splits)
  then show ?case by (rule ok_quiet)
next
  case (report agent slots pending available s b claims)
  then have "quiet_biz (Business s) b" by (intro silent_same) (auto simp: ReportAgentCapacity_def Let_def split: if_splits)
  then show ?case by (rule ok_quiet)
next
  case (elsewhere s b claims ps)
  show ?case
  proof (rule ok_stepI)
    assume f: "tables_fit (Business s) s"
    then have m: "mirrors (run_view s) (Business s)" "unique_holds (Business s)" by (simp_all add: tables_fit_iff sound_def)
    obtain g new where g: "BzInsts b = map g (BzInsts (Business s)) @ new" "keys_distinct IId (BzInsts b)" "\<And>i. i \<in> set new \<Longrightarrow> fresh_inst i"
      "\<And>x. IId (g x) = IId x \<and> IStatus (g x) = IStatus x \<and> IHeldFrom (g x) = IHeldFrom x \<and> ISnapshot (g x) = ISnapshot x"
      and h: "BzHolds b = BzHolds (Business s)" "BzEffects b = BzEffects (Business s)" "BzDecisions b = BzDecisions (Business s)"
      using elsewhere unfolding elsewhere_def by blast
    have "mirrors (run_view s) b" by (rule mirrors_more [OF m(1) h(1) g])
    moreover have "unique_holds b" using m(2) h by (simp add: unique_holds_def)
    ultimately show "tables_fit (Business (s\<lparr>Business := b, Principals := ps\<rparr>)) (s\<lparr>Business := b, Principals := ps\<rparr>) \<and>
        effect_write\<^sup>*\<^sup>* (books_of (s, claims)) (books_of (s\<lparr>Business := b, Principals := ps\<rparr>, claims))"
      using fits_write [OF f] h by (simp add: books_of_def)
  qed
qed (auto intro: ok_engine ok_action ok_running ok_recover ok_claim ok_receipt ok_decide)

lemma steps_ok: "(durable_step c e)\<^sup>*\<^sup>* x y \<Longrightarrow> ok_step x y"
  by (induction rule: rtranclp_induct) (auto intro: ok_refl ok_trans step_ok)

lemma good_steps: "(durable_step c e)\<^sup>*\<^sup>* x y \<Longrightarrow> good x \<Longrightarrow> good y \<and> effect_write\<^sup>*\<^sup>* (books_of x) (books_of y)"
  using steps_ok effects.good_star unfolding good_def ok_step_def by blast

lemma start_good: "durable_start s \<Longrightarrow> good (s, [])"
proof -
  assume d: "durable_start s"
  then have v: "run_view s = (\<lambda>k. ([], False))" by (simp add: durable_start_def run_view_def runtime_order_of_def fun_eq_iff)
  have "mirrors (run_view s) (Business s)"
    using d v by (simp add: mirrors_def status_fits_def durable_start_def fresh_inst_def)
  moreover have "exec_inv s" using exec_inv_empty [of s] d by (simp add: durable_start_def)
  moreover have "balanced (books_of (s, []))"
    using d by (simp add: durable_start_def balanced_def books_of_def keys_distinct_def claims_of_def decisions_of_def count_where_def)
  ultimately show ?thesis
    using d by (simp add: good_def tables_fit_iff sound_def durable_start_def runtime_keys_def keys_distinct_def unique_holds_def)
qed

lemma reachable_good: "durable_reachable c e x \<Longrightarrow> good x"
  using start_good good_steps unfolding durable_reachable_def by blast

lemma reachable_more: "durable_reachable c e x \<Longrightarrow> (durable_step c e)\<^sup>*\<^sup>* x y \<Longrightarrow> durable_reachable c e y"
  unfolding durable_reachable_def by (meson rtranclp_trans)

text \<open>The log and the decisions are only appended to.\<close>

lemma step_log: "durable_step c e x y \<Longrightarrow> \<exists>more. snd y = snd x @ more"
  by (induction rule: durable_step.induct) auto

lemma steps_log: "(durable_step c e)\<^sup>*\<^sup>* x y \<Longrightarrow> \<exists>more. snd y = snd x @ more"
proof (induction rule: rtranclp_induct)
  case base
  then show ?case by simp
next
  case (step y z)
  then show ?case using step_log [OF step.hyps(2)] by auto
qed

lemma writes_decisions: "effect_write\<^sup>*\<^sup>* w w' \<Longrightarrow> \<exists>more. fst (snd w') = fst (snd w) @ more"
proof (induction rule: rtranclp_induct)
  case base
  then show ?case by simp
next
  case (step y z)
  have "\<exists>more. fst (snd z) = fst (snd y) @ more" using step.hyps(2) by (induction rule: effect_write.induct) auto
  then show ?case using step.IH by auto
qed

text \<open>An effect that is settled stays as it is, and is not handed out again.\<close>

lemma settled_stays:
  assumes st: "(durable_step c e)\<^sup>*\<^sup>* (s, cl) (s2, cl2)" and g: "good (s, cl)" and f: "effect_of (Business s) k = Some f" "settled f"
  shows "effect_of (Business s2) k = Some f \<and> filter (\<lambda>x. EfId x = k) cl2 = filter (\<lambda>x. EfId x = k) cl"
proof -
  note s2 = good_steps [OF st g]
  have b: "balanced (books_of (s, cl))" using g by (simp add: good_def)
  have f2: "effect_of (Business s2) k = Some f"
    using effects.final_kept [OF conjunct2 [OF s2] b, of k f] f by (simp add: books_of_def effect_of_def)
  obtain cs where cs: "cl2 = cl @ cs" using steps_log [OF st] by auto
  obtain ds where ds: "BzDecisions (Business s2) = BzDecisions (Business s) @ ds" using writes_decisions [OF conjunct2 [OF s2]] by (auto simp: books_of_def)
  have "EfGen f = int (claims_of k cl) + int (decisions_of k (BzDecisions (Business s)))"
    using balanced_row b f(1) by (simp add: books_of_def effect_of_def)
  moreover have "EfGen f = int (claims_of k cl2) + int (decisions_of k (BzDecisions (Business s2)))"
    using balanced_row [of "BzEffects (Business s2)" "BzDecisions (Business s2)" cl2 k f] s2 f2
    by (simp add: good_def books_of_def effect_of_def)
  ultimately have "claims_of k cs = 0" by (simp add: cs ds book_counts)
  then have "filter (\<lambda>x. EfId x = k) cs = []" by (simp add: claims_of_def count_where_def)
  then show ?thesis using f2 cs by simp
qed

text \<open>A receipt of a generation that has passed.\<close>

lemma receipt_stale:
  assumes "good (s, cl)" "effect_of (Business s) (EfId f) = Some x" "EfGen f \<noteq> EfGen x"
  shows "receipt_effect f ok (Business s) = Business s"
proof -
  have kd: "keys_distinct EfId (BzEffects (Business s))" using assms(1) by (simp add: good_def balanced_def books_of_def)
  define p where "p = (\<lambda>x :: EffectRow. EfId x = EfId f \<and> (EfState x = EClaimed \<or> EfState x = EUncertain) \<and> EfResolvedAt x = 0 \<and> EfGen x = EfGen f)"
  have "\<not> p y" if "y \<in> set (BzEffects (Business s))" for y
    using row_of_in_set [OF kd that] assms(2,3) by (auto simp: p_def effect_of_def)
  then have "update_where p g (BzEffects (Business s)) = BzEffects (Business s)" "count_where p (BzEffects (Business s)) = 0" for g
    by (auto simp: update_where_def count_where_zero intro: map_idI)
  then show ?thesis by (simp add: receipt_effect_def Let_def p_def [symmetric] split: payload.split)
qed

end
