(* ===== verification/DurableHolds.thy ===== *)
theory DurableHolds
  imports DurableRuns
begin

text \<open>
  What the properties of the durable mode rest on: the view of the engine read as a live attempt, the
  arithmetic of reservations, the reservation of a retry, and the rebuilding of holds.
\<close>

section \<open>Live executions\<close>

lemma view_live:
  assumes inv: "exec_inv s" "runtime_keys s"
  shows "snd (run_view s k) \<longleftrightarrow> (\<exists>a\<in>set (Attempts s). \<not> exec_terminal (AtState a) \<and>
    (\<exists>ord. order_of s (AtOrder a) = Some ord \<and> LoRuntime ord \<and> LoSource ord = k))"
proof
  assume v: "snd (run_view s k)"
  then obtain x where x: "runtime_order_of s k = Some x" "LoCurrent x \<noteq> []" "\<not> order_terminal (LoState x)"
    by (auto simp: run_view_def order_view_def split: option.splits)
  then have xs: "x \<in> set (Orders s)" "LoRuntime x" "LoSource x = k" by (auto simp: runtime_order_of_def find_Some_iff)
  have od: "order_of s (LoId x) = Some x" unfolding order_of_def
    by (rule row_of_in_set) (use inv(1) xs(1) in \<open>simp_all add: exec_inv_def\<close>)
  obtain b where b: "attempt_of s (LoCurrent x) = Some b" "\<not> exec_terminal (AtState b)" "AtOrder b = LoId x"
    using exec_inv_order [OF inv(1) od] x(2,3) by (auto simp: order_ok_def)
  have "b \<in> set (Attempts s)" using exec_inv_attempt [OF inv(1) b(1)] by simp
  then show "\<exists>a\<in>set (Attempts s). \<not> exec_terminal (AtState a) \<and>
      (\<exists>ord. order_of s (AtOrder a) = Some ord \<and> LoRuntime ord \<and> LoSource ord = k)" using b(2,3) od xs by metis
next
  assume "\<exists>a\<in>set (Attempts s). \<not> exec_terminal (AtState a) \<and>
      (\<exists>ord. order_of s (AtOrder a) = Some ord \<and> LoRuntime ord \<and> LoSource ord = k)"
  then obtain a ord where a: "a \<in> set (Attempts s)" "\<not> exec_terminal (AtState a)"
    and o: "order_of s (AtOrder a) = Some ord" "LoRuntime ord" "LoSource ord = k" by blast
  have c: "is_current ord a" "\<not> order_terminal (LoState ord)" using live_is_current [OF inv(1) a] o(1) by auto
  have "AtExec a \<noteq> []" using inv(1) a(1) by (simp add: exec_inv_def owned_def)
  then have "snd (order_view ord)" using c by (auto simp: order_view_def is_current_def)
  moreover have "run_view s k = order_view ord" using view_of_order(1) [OF inv(2) _ o(2)] exec_inv_order [OF inv(1) o(1)] o(3) by auto
  ultimately show "snd (run_view s k)" by simp
qed

section \<open>Capacity\<close>

lemma used_append: "used_of (b\<lparr>BzHolds := BzHolds b @ [h]\<rparr>) m = used_of b m + (if HoName h = m then HoQty h else 0)"
  by (simp add: used_of_def)

lemma hold_key: "hold_of b k n = row_of (\<lambda>h. (HoInst h, HoName h)) (k, n) (BzHolds b)"
  by (simp add: hold_of_def row_of_def)

definition held_qty :: "Biz \<Rightarrow> string \<Rightarrow> string \<Rightarrow> int" where
  "held_qty b k n = (case hold_of b k n of None \<Rightarrow> 0 | Some h \<Rightarrow> HoQty h)"

lemma used_replace:
  assumes "distinct (map (\<lambda>h. (HoInst h, HoName h)) hs)" "row_of (\<lambda>h. (HoInst h, HoName h)) (k, n) hs = Some x"
  shows "sum_list (map HoQty (filter (\<lambda>h. HoName h = m)
      (update_where (\<lambda>h. HoInst h = k \<and> HoName h = n) (\<lambda>h. h\<lparr>HoQty := q, HoExec := ex\<rparr>) hs))) =
    sum_list (map HoQty (filter (\<lambda>h. HoName h = m) hs)) + (if m = n then q - HoQty x else 0)"
  using assms
proof (induction hs)
  case Nil
  then show ?case by simp
next
  case (Cons h hs)
  show ?case
  proof (cases "HoInst h = k \<and> HoName h = n")
    case True
    then have "update_where (\<lambda>h. HoInst h = k \<and> HoName h = n) (\<lambda>h. h\<lparr>HoQty := q, HoExec := ex\<rparr>) hs = hs"
      using Cons.prems(1) True unfolding update_where_def by (intro map_idI) (force simp: image_iff)
    then show ?thesis using True Cons.prems(2) by (simp add: update_where_Cons row_of_Cons)
  next
    case False
    then show ?thesis using Cons by (auto simp: update_where_Cons row_of_Cons)
  qed
qed

lemma put_hold_used:
  assumes "unique_holds b"
  shows "used_of (put_hold k n q ex b) m = used_of b m + (if m = n then q - held_qty b k n else 0)"
proof (cases "hold_of b k n")
  case None
  then show ?thesis by (simp add: put_hold_def held_qty_def used_append)
next
  case (Some x)
  then show ?thesis
    using used_replace [where hs = "BzHolds b" and k = k and n = n and x = x and m = m and q = q and ex = ex] assms
    by (simp add: put_hold_def held_qty_def unique_holds_def keys_distinct_def hold_key used_of_def)
qed

lemma put_hold_of:
  "hold_of (put_hold k n q ex b) j m =
     (if j = k \<and> m = n then Some \<lparr>HoInst = k, HoName = n, HoQty = q, HoExec = ex\<rparr> else hold_of b j m)"
proof (cases "hold_of b k n")
  case None
  then show ?thesis by (auto simp: put_hold_def hold_key row_of_append row_of_Cons split: option.split)
next
  case (Some x)
  have "row_of (\<lambda>h. (HoInst h, HoName h)) (j, m) (update_where (\<lambda>h. HoInst h = k \<and> HoName h = n) (\<lambda>h. h\<lparr>HoQty := q, HoExec := ex\<rparr>) (BzHolds b)) =
      map_option (\<lambda>h. if HoInst h = k \<and> HoName h = n then h\<lparr>HoQty := q, HoExec := ex\<rparr> else h) (hold_of b j m)"
    unfolding hold_key by (rule row_of_update_where) simp
  then have u: "hold_of (put_hold k n q ex b) j m =
      map_option (\<lambda>h. if HoInst h = k \<and> HoName h = n then h\<lparr>HoQty := q, HoExec := ex\<rparr> else h) (hold_of b j m)"
    using Some by (simp add: put_hold_def hold_key)
  have key: "HoInst h = j \<and> HoName h = m" if "hold_of b j m = Some h" for h
    using row_of_SomeD [OF that [unfolded hold_key]] by simp
  show ?thesis
  proof (cases "hold_of b j m")
    case None
    then show ?thesis using u Some by auto
  next
    case (Some h)
    then show ?thesis using u key [OF Some] by auto
  qed
qed

lemma ensure_used: "used_of (ensure_resource n b) m = used_of b m" "hold_of (ensure_resource n b) k m = hold_of b k m"
  "held_qty (ensure_resource n b) k m = held_qty b k m"
  by (simp_all add: used_of_def hold_of_def held_qty_def biz)

lemma ensure_cap: "map_of (BzResources b) n = Some x \<Longrightarrow> map_of (BzResources (ensure_resource m b)) n = Some x"
  by (auto simp: ensure_resource_def map_add_def)

lemma reserve_one_bound:
  assumes r: "reserve_one s k ex False (n, q) b = Inr b'" and q: "0 < q" and u: "unique_holds b"
  shows "hold_of b' k n = Some \<lparr>HoInst = k, HoName = n, HoQty = q, HoExec = ex\<rparr> \<and>
    (\<exists>cap. map_of (BzResources b') n = Some cap \<and> used_of b' n \<le> cap)"
proof -
  have b': "b' = put_hold k n q ex (ensure_resource n b)" using reserve_one_cases [OF r] q by simp
  obtain cap where "map_of (BzResources (ensure_resource n b)) n = Some cap"
    "used_of b n - (case hold_of b k n of None \<Rightarrow> 0 | Some x \<Rightarrow> HoQty x) + q \<le> cap"
    using r q by (auto simp: reserve_one_def Let_def ensure_used split: if_splits option.splits)
  moreover have "unique_holds (ensure_resource n b)" using u by (simp add: unique_holds_def biz)
  ultimately show ?thesis by (simp add: b' put_hold_of put_hold_used ensure_used biz held_qty_def)
qed

lemma reserve_one_other:
  assumes "reserve_one s k ex bypass (n, q) b = Inr b'" "unique_holds b" "m \<noteq> n"
  shows "used_of b' m = used_of b m \<and> hold_of b' j m = hold_of b j m \<and>
    (map_of (BzResources b) m = Some cap \<longrightarrow> map_of (BzResources b') m = Some cap)"
  using reserve_one_cases [OF assms(1)] assms(2,3) put_hold_used [of "ensure_resource n b" k n q ex m]
  by (auto simp: put_hold_of ensure_used ensure_cap biz unique_holds_def)

lemma reserve_bound:
  assumes "durableResources s k ex want False b = Inr b'" "unique_holds b" "distinct (map fst want)" "(n, q) \<in> set want" "0 < q"
  shows "hold_of b' k n = Some \<lparr>HoInst = k, HoName = n, HoQty = q, HoExec = ex\<rparr> \<and>
    (\<exists>cap. map_of (BzResources b') n = Some cap \<and> used_of b' n \<le> cap)"
  using assms unfolding durableResources_def
proof (induction want arbitrary: b)
  case Nil
  then show ?case by simp
next
  case (Cons w want)
  obtain m p where w: "w = (m, p)" by (cases w)
  obtain b1 where b1: "reserve_one s k ex False (m, p) b = Inr b1" "each (reserve_one s k ex False) want b1 = Inr b'"
    using Cons.prems(1) w by (auto split: sum.splits)
  have u1: "unique_holds b1"
    using reserve_one_cases [OF b1(1)] Cons.prems(2) put_hold_unique [of "ensure_resource m b"] by (auto simp: unique_holds_def biz)
  show ?case
  proof (cases "(n, q) = w")
    case False
    then show ?thesis using Cons.IH [OF b1(2) u1] Cons.prems by simp
  next
    case True
    have rest: "used_of y n = used_of x n \<and> hold_of y k n = hold_of x k n \<and>
        (map_of (BzResources x) n = Some cap \<longrightarrow> map_of (BzResources y) n = Some cap)"
      if "each (reserve_one s k ex False) ws x = Inr y" "n \<notin> fst ` set ws" "unique_holds x" for ws x y cap
      using that
    proof (induction ws arbitrary: x)
      case Nil
      then show ?case by simp
    next
      case (Cons v ws)
      obtain x1 where x1: "reserve_one s k ex False (fst v, snd v) x = Inr x1" "each (reserve_one s k ex False) ws x1 = Inr y"
        using Cons.prems(1) by (auto split: sum.splits)
      have "unique_holds x1"
        using reserve_one_cases [OF x1(1)] Cons.prems(3) put_hold_unique [of "ensure_resource (fst v) x"] by (auto simp: unique_holds_def biz)
      then show ?case using Cons.IH [OF x1(2)] Cons.prems(2) reserve_one_other [OF x1(1) Cons.prems(3), of n k cap] by auto
    qed
    show ?thesis
      using reserve_one_bound [OF _ Cons.prems(5,2)] b1(1) w True rest [OF b1(2) _ u1] Cons.prems(3) by fastforce
  qed
qed

section \<open>A retry and its own holds\<close>

lemma held_by_unique: "unique_holds b \<Longrightarrow> held_by b k n = held_qty b k n"
proof -
  have "distinct (map (\<lambda>h. (HoInst h, HoName h)) hs) \<Longrightarrow>
      sum_list (map HoQty (filter (\<lambda>h. HoName h = n \<and> HoInst h = k) hs)) =
      (case row_of (\<lambda>h. (HoInst h, HoName h)) (k, n) hs of None \<Rightarrow> 0 | Some h \<Rightarrow> HoQty h)" for hs :: "HoldRow list"
  proof (induction hs)
    case Nil
    then show ?case by simp
  next
    case (Cons h hs)
    show ?case
    proof (cases "HoInst h = k \<and> HoName h = n")
      case True
      then have "filter (\<lambda>h. HoName h = n \<and> HoInst h = k) hs = []"
        using Cons.prems by (force simp: filter_empty_conv image_iff)
      then show ?thesis using True by (simp add: row_of_Cons)
    next
      case False
      then show ?thesis using Cons by (auto simp: row_of_Cons)
    qed
  qed
  then show "unique_holds b \<Longrightarrow> held_by b k n = held_qty b k n"
    by (simp add: held_by_def held_qty_def hold_key unique_holds_def keys_distinct_def)
qed

text \<open>The instance holds what it wants, under executions that have ended, and the capacity is not exceeded.\<close>

definition keeps_hold :: "Biz store \<Rightarrow> Biz \<Rightarrow> string \<Rightarrow> string \<times> int \<Rightarrow> bool" where
  "keeps_hold s b k w \<longleftrightarrow> (\<exists>h cap. hold_of b k (fst w) = Some h \<and> HoQty h = snd w \<and> known_ended s (HoExec h) k = 1 \<and>
     map_of (BzResources b) (fst w) = Some cap \<and> used_of b (fst w) \<le> cap)"

lemma reserve_own:
  assumes h: "keeps_hold s b k (n, q)" and q: "0 < q" and u: "unique_holds b"
  shows "\<exists>b'. reserve_one s k ex bypass (n, q) b = Inr b' \<and> unique_holds b' \<and> (\<forall>m. used_of b' m = used_of b m) \<and>
    (\<forall>w. fst w \<noteq> n \<longrightarrow> keeps_hold s b k w \<longrightarrow> keeps_hold s b' k w)"
proof -
  obtain h cap where h: "hold_of b k n = Some h" "HoQty h = q" "known_ended s (HoExec h) k = 1"
    "map_of (BzResources b) n = Some cap" "used_of b n \<le> cap" using h by (auto simp: keeps_hold_def)
  have en: "ensure_resource n b = b" using h(4) by (simp add: ensure_resource_def)
  have r: "reserve_one s k ex bypass (n, q) b = Inr (put_hold k n q ex b)"
    using h q by (simp add: reserve_one_def Let_def en)
  have us: "used_of (put_hold k n q ex b) m = used_of b m" for m
    using put_hold_used [OF u] h by (simp add: held_qty_def)
  have "keeps_hold s (put_hold k n q ex b) k w" if "fst w \<noteq> n" "keeps_hold s b k w" for w
    using that us by (simp add: keeps_hold_def put_hold_of biz)
  then show ?thesis using r us put_hold_unique [OF u] by blast
qed

lemma reserve_all_own:
  assumes "unique_holds b" "distinct (map fst want)" "\<And>w. w \<in> set want \<Longrightarrow> 0 < snd w \<Longrightarrow> keeps_hold s b k w"
  shows "\<exists>b'. durableResources s k ex want bypass b = Inr b' \<and> (\<forall>m. used_of b' m = used_of b m)"
  using assms unfolding durableResources_def
proof (induction want arbitrary: b)
  case Nil
  then show ?case by simp
next
  case (Cons w want)
  obtain n q where w: "w = (n, q)" by (cases w)
  show ?case
  proof (cases "0 < q")
    case False
    then have "reserve_one s k ex bypass w b = Inr b" by (simp add: reserve_one_def w)
    then show ?thesis using Cons.IH [OF Cons.prems(1)] Cons.prems(2,3) by simp
  next
    case True
    obtain b1 where b1: "reserve_one s k ex bypass (n, q) b = Inr b1" "unique_holds b1" "\<And>m. used_of b1 m = used_of b m"
      "\<And>w. fst w \<noteq> n \<Longrightarrow> keeps_hold s b k w \<Longrightarrow> keeps_hold s b1 k w"
      using reserve_own [OF Cons.prems(3) [of w, unfolded w] True Cons.prems(1), where ex = ex and bypass = bypass] True by (auto simp: w)
    have "keeps_hold s b1 k v" if v: "v \<in> set want" "0 < snd v" for v
    proof (rule b1(4))
      show "fst v \<noteq> n" using Cons.prems(2) v(1) w by (auto simp: image_iff)
      show "keeps_hold s b k v" using Cons.prems(3) v by simp
    qed
    then obtain b2 where "each (reserve_one s k ex bypass) want b1 = Inr b2" "\<forall>m. used_of b2 m = used_of b1 m"
      using Cons.IH [OF b1(2)] Cons.prems(2) by auto
    then show ?thesis using b1 w by simp
  qed
qed

section \<open>Rebuilding\<close>

lemma each_establishes:
  assumes e: "each f xs b = Inr b'" and x: "x \<in> set xs"
    and step: "\<And>y b b'. f y b = Inr b' \<Longrightarrow> R b b'" and refl: "\<And>b. R b b" and trans: "\<And>a b c. R a b \<Longrightarrow> R b c \<Longrightarrow> R a c"
    and here: "\<And>b b'. f x b = Inr b' \<Longrightarrow> P b'" and keep: "\<And>b b'. R b b' \<Longrightarrow> P b \<Longrightarrow> P b'"
  shows "P b'"
  using e x
proof (induction xs arbitrary: b)
  case Nil
  then show ?case by simp
next
  case (Cons y ys)
  obtain c where c: "f y b = Inr c" "each f ys c = Inr b'" using Cons.prems(1) by (auto split: sum.splits)
  show ?case
  proof (cases "x \<in> set ys")
    case True
    then show ?thesis using Cons.IH [OF c(2)] by simp
  next
    case False
    then have "P c" using Cons.prems(2) c(1) here by auto
    moreover have "R c b'" by (rule each_rel [OF step refl trans c(2)])
    ultimately show ?thesis using keep by blast
  qed
qed

definition holds_stay :: "Biz \<Rightarrow> Biz \<Rightarrow> bool" where
  "holds_stay b b' \<longleftrightarrow> (\<forall>j m h. hold_of b j m = Some h \<longrightarrow> hold_of b' j m = Some h)"

lemma rebuild_hold_stays: "rebuild_hold k ex w b = Inr b' \<Longrightarrow> holds_stay b b'"
proof (cases w)
  fix n q assume r: "rebuild_hold k ex w b = Inr b'" and w: "w = (n, q)"
  show ?thesis
  proof (cases "q \<le> 0")
    case True
    then show ?thesis using r w by (simp add: rebuild_hold_def holds_stay_def)
  next
    case False
    then have "b' = (if hold_of b k n = None then put_hold k n q ex (ensure_resource n b) else ensure_resource n b)"
      using r w by (auto simp: rebuild_hold_def Let_def ensure_used split: option.splits if_splits)
    then show ?thesis by (auto simp: holds_stay_def put_hold_of ensure_used)
  qed
qed

lemma rebuild_hold_here:
  "rebuild_hold k ex (n, q) b = Inr b' \<Longrightarrow> 0 < q \<Longrightarrow> \<exists>h. hold_of b' k n = Some h \<and> HoQty h = q \<and> HoExec h = ex"
  by (auto simp: rebuild_hold_def Let_def split: option.splits if_splits)

lemma holds_stay_refl: "holds_stay b b" and holds_stay_trans: "holds_stay a b \<Longrightarrow> holds_stay b c \<Longrightarrow> holds_stay a c"
  by (auto simp: holds_stay_def)

lemma rebuild_order_stays: "rebuild_order c row b = Inr b' \<Longrightarrow> holds_stay b b'"
proof -
  assume r: "rebuild_order c row b = Inr b'"
  obtain k ex ord where row: "row = (k, ex, ord)" by (cases row)
  obtain d :: JobDefinition where "each (rebuild_hold k ex) (ResourcesOf d) b = Inr b'"
    using r row by (cases "LoSnapshot ord") (auto simp: rebuild_order_def intro: that split: if_splits)
  then show ?thesis
    by (rule each_rel [of "ResourcesOf d" "rebuild_hold k ex" holds_stay, rotated 3])
      (auto intro: rebuild_hold_stays holds_stay_refl holds_stay_trans)
qed

lemma rebuild_order_here:
  assumes "rebuild_order c (k, ex, ord) b = Inr b'" "LoSnapshot ord = Frozen d" "(n, q) \<in> set (ResourcesOf d)" "0 < q"
  shows "\<exists>h. hold_of b' k n = Some h \<and> HoQty h = q \<and> HoExec h = ex"
proof -
  have "each (rebuild_hold k ex) (ResourcesOf d) b = Inr b'" using assms(1,2) by (auto simp: rebuild_order_def split: if_splits)
  then show ?thesis
  proof (rule each_establishes [OF _ assms(3), where R = holds_stay])
    show "\<exists>h. hold_of y k n = Some h \<and> HoQty h = q \<and> HoExec h = ex" if "rebuild_hold k ex (n, q) x = Inr y" for x y
      by (rule rebuild_hold_here [OF that assms(4)])
    show "holds_stay x y" if "rebuild_hold k ex w x = Inr y" for w x y
      by (rule rebuild_hold_stays [OF that])
  qed (auto intro: rebuild_hold_stays holds_stay_refl holds_stay_trans simp: holds_stay_def)
qed

end
