(* ===== verification/DurableDemo.thy ===== *)
theory DurableDemo
  imports DurableRuns
begin

text \<open>
  A run of the durable mode, on which its properties are applied: an order \<open>O\<close> of the instance \<open>I\<close>
  on one agent, which runs and then either fails, and waits for its retry (\<open>run6\<close>), or succeeds
  (\<open>run7\<close>).  The job holds the only unit of \<open>db\<close> and orders itself when it succeeds.
\<close>

definition run_job :: JobDefinition where
  "run_job = zero_def\<lparr>ID := ''N'', JobType := ''shell'', BusinessTime := Some \<lparr>Timezone = ''UTC'', DailyAt = ''07:00''\<rparr>,
     Retries := 1, ResourcesOf := [(''db'', 1)],
     Actions := [\<lparr>On = ''result'', RuleStatus = ''ok'', ExitCodes = [], AttemptNo = 0, AfterMin = 0, Do = ''run-job'',
       Message = [], RuleSeverity = [], Channels = [], RuleCondition = [], TargetJob = ''N''\<rparr>]\<rparr>"

definition run_cfg :: durable_cfg where
  "run_cfg = \<lparr>DEnv = \<lparr>Loc = (\<lambda>_. Some utc_zone), Digest = (\<lambda>_. ''s''), Profile = undefined, DemoMode = False,
     HasAgent = (\<lambda>_ _ _. True), PersistOk = (\<lambda>_. True)\<rparr>, DAlertsOn = False, DSlaOn = False, DCals = None\<rparr>"

definition run_base :: "Biz engine" where
  "run_base = \<lparr>MaxPending = 10, DeliveryLease = 30000, ExecutionLease = 90000, MaxDeliveries = 5, Transition = None,
     Prepare = None, OpenEffects = (\<lambda>_. 0), SnapSum = (\<lambda>_. ''s''), ChunkSum = (\<lambda>c. c), ResultSum = (\<lambda>c t. CHR ''r'' # t),
     Zones = (\<lambda>_. Some utc_zone)\<rparr>"

abbreviation run_engine :: "Biz engine" where "run_engine \<equiv> durable_engine run_cfg run_base"

definition run_biz :: Biz where
  "run_biz = \<lparr>BzInsts = [(forced_row ''I'' run_job ''2026-07-01'' 0)\<lparr>IForced := False, IForceMode := []\<rparr>], BzRuns = [], BzEvents = [],
     BzEffects = [], BzDecisions = [], BzHolds = [], BzResources = [(''db'', 1)],
     BzCapacity = [\<lparr>CaAgent = ''a'', CaSlots = 5, CaPending = 5, CaAvailable = True, CaSeen = 1782864000000\<rparr>], BzPool = [],
     BzLedger = [], BzDailies = [], BzSettings = [], BzRules = [], BzAlerts = [], BzAlertNext = 1, BzBreaches = [],
     BzGlobals = Some Map.empty, BzDefs = [run_job], BzNow = 1782864000000000000, BzWall = 1782864000000000000, BzLeads = True\<rparr>"

definition run0 :: "Biz store" where
  "run0 = \<lparr>Orders = [], Attempts = [], Outbox = [], Outputs = [], ExecEvents = [], Decisions = [], RuntimeOrders = [],
     Principals = [\<lparr>PrAgent = ''a'', PrEnv = [], PrCaps = ''EXECUTION_V2,SHELL'', PrInternal = False\<rparr>],
     Sources = (\<lambda>_. None), Business = run_biz\<rparr>"

definition run_id :: "string \<Rightarrow> int \<Rightarrow> Identity" where
  "run_id x n = \<lparr>IdProtocol = 2, IdExec = x, IdFence = n, IdAgent = ''a''\<rparr>"

definition run_result :: "string \<Rightarrow> int \<Rightarrow> int \<Rightarrow> ExecResult" where
  "run_result x n code = \<lparr>ReIdentity = run_id x n, ReExit = code, ReOutput = []\<rparr>"

text \<open>The requests, in order; the last one before the effects is the result with its exit code.\<close>

definition "run_create s = CreateRuntimeOrder run_engine ''O'' ''I'' (synced s)"
definition "run_begin s = StartAttempt run_engine 1 ''E'' ''O'' ''a'' ''q'' ''start'' s"
definition "run_deliver s = ClaimCapacity run_engine 2 ''a'' True s"
definition "run_accept s = AcknowledgeReason run_engine 3 (run_id ''E'' 1) ''accepted'' [] s"
definition "run_launch s = AcknowledgeReason run_engine 4 (run_id ''E'' 1) ''started'' [] s"
definition "run_finish code s = Complete run_engine 5 (run_result ''E'' 1 code) s"

definition "run1 = snd (projr (run_create run0))"
definition "run2 = snd (projr (run_begin run1))"
definition "run3 = snd (run_deliver run2)"
definition "run4 = snd (projr (run_accept run3))"
definition "run5 = snd (projr (run_launch run4))"
definition "run6 = snd (projr (run_finish 1 run5))"
definition "run7 = snd (projr (run_finish 0 run5))"

text \<open>The hooks of the finished run are claimed, their receipt says nothing of the outcome, and the operator decides.\<close>

definition "hooks_claim s = claim_effect run_cfg ''E-hooks'' (Business s)"
definition "force_claim s = claim_effect run_cfg ''E-action-0'' (Business s)"
definition "decide_hooks b = ResolveEffect ''E-hooks'' ''d1'' ''op'' ''done'' ''seen'' [] True False 1 b"

definition "claim_biz = snd (projr (hooks_claim run7))"
definition "claim_row = the (fst (projr (hooks_claim run7)))"
definition "unclear_biz = receipt_effect claim_row False claim_biz"
definition "decided_biz = projr (decide_hooks unclear_biz)"
definition "forced_biz = snd (projr (force_claim run7))"

text \<open>The holds of the running order are lost and rebuilt.\<close>

definition "lose_holds s = s\<lparr>Business := (Business s)\<lparr>BzHolds := []\<rparr>\<rparr>"
definition "lost_run = lose_holds run2"
definition "rebuilt_biz = snd (projr (rebuildDurableResources run_cfg lost_run))"

text \<open>What is observed on the way, evaluated in one pass.\<close>

definition seen1 :: "Biz store \<Rightarrow> bool" where
  "seen1 s \<longleftrightarrow> Attempts s = [] \<and> map_option (\<lambda>x. (LoRuntime x, LoSource x)) (order_of s ''O'') = Some (True, ''I'') \<and>
    map_option (\<lambda>i. (IForced i, ISnapshot i)) (biz_inst (Business s) ''I'') = Some (False, Frozen run_job)"

definition seen2 :: "Biz store \<Rightarrow> bool" where
  "seen2 s \<longleftrightarrow> map IStatus (BzInsts (Business s)) = [StatusRunning] \<and>
    map (\<lambda>h. (HoInst h, HoName h, HoExec h)) (BzHolds (Business s)) = [(''I'', ''db'', ''E'')]"

definition seen6 :: "Biz store \<Rightarrow> bool" where
  "seen6 s \<longleftrightarrow> map IStatus (BzInsts (Business s)) = [StatusWaiting] \<and> used_of (Business s) ''db'' = 1 \<and>
    map_option (\<lambda>h. (HoQty h, known_ended s (HoExec h) ''I'')) (hold_of (Business s) ''I'' ''db'') = Some (1, 1) \<and>
    map_of (BzResources (Business s)) ''db'' = Some 1 \<and> durableShortfalls ''X'' [(''db'', 1)] (Business s) \<noteq> []"

definition seen7 :: "Biz store \<Rightarrow> bool" where
  "seen7 s \<longleftrightarrow> map IStatus (BzInsts (Business s)) = [StatusOK] \<and> BzHolds (Business s) = [] \<and>
    map (\<lambda>x. (EfId x, EfKind x, EfState x)) (BzEffects (Business s)) =
      [(''E-action-0'', ''run-job'', EPending), (''E-hooks'', ''terminal-hooks'', EPending)]"

lemma run_pass:
  "let r1 = run_create run0; s1 = snd (projr r1); r2 = run_begin s1; s2 = snd (projr r2); s3 = snd (run_deliver s2);
       r4 = run_accept s3; s4 = snd (projr r4); r5 = run_launch s4; s5 = snd (projr r5);
       r6 = run_finish 1 s5; s6 = snd (projr r6); r7 = run_finish 0 s5; s7 = snd (projr r7);
       h = hooks_claim s7; f = the (fst (projr h)); u = receipt_effect f False (snd (projr h)); d = decide_hooks u; q = force_claim s7; l = lose_holds s2; v = rebuildDurableResources run_cfg l
   in (\<not> isl r1 \<and> \<not> isl r2 \<and> \<not> isl r4 \<and> \<not> isl r5 \<and> \<not> isl r6 \<and> \<not> isl r7) \<and> (seen1 s1 \<and> seen2 s2 \<and> seen6 s6 \<and> seen7 s7) \<and>
      (\<not> isl h \<and> fst (projr h) \<noteq> None \<and> EfId f = ''E-hooks'' \<and> EfGen f = 1) \<and>
      (\<not> isl d \<and> BzDecisions u = [] \<and> map_option EfState (effect_of (projr d) ''E-hooks'') = Some EDone) \<and>
      (\<not> isl q \<and> fst (projr q) = None \<and> map IId (BzInsts (snd (projr q))) = [''I'', ''N-ACTION-E-action-0'']) \<and>
      (\<not> isl v \<and> map (\<lambda>(k, ex, ord). (k, ex)) (rebuild_rows l) = [(''I'', ''E'')] \<and>
       map (\<lambda>(k, ex, ord). LoSnapshot ord = Frozen run_job) (rebuild_rows l) = [True])"
  by code_simp

lemmas run_facts = run_pass [unfolded Let_def, folded run1_def, folded run2_def, folded run3_def, folded run4_def, folded run5_def,
  folded run6_def run7_def, folded claim_row_def claim_biz_def forced_biz_def, folded unclear_biz_def lost_run_def, folded decided_biz_def]

lemma inr_pair: "\<not> isl r \<Longrightarrow> r = Inr (fst (projr r), snd (projr r))"
  by (cases r) simp_all

lemma run_calls:
  "engine_call run_engine run0 run1" "engine_call run_engine run1 run2" "engine_call run_engine run2 run3" "engine_call run_engine run3 run4"
  "engine_call run_engine run4 run5" "engine_call run_engine run5 run6" "engine_call run_engine run5 run7"
proof -
  have ok: "\<not> isl (run_create run0)" "\<not> isl (run_begin run1)" "\<not> isl (run_accept run3)" "\<not> isl (run_launch run4)"
    "\<not> isl (run_finish 1 run5)" "\<not> isl (run_finish 0 run5)" using run_facts by blast+
  show "engine_call run_engine run0 run1"
    using engine_call.intros(1) [OF inr_pair [OF ok(1), unfolded run_create_def]] by (simp add: run1_def run_create_def)
  show "engine_call run_engine run1 run2"
    using engine_call.intros(3) [OF inr_pair [OF ok(2), unfolded run_begin_def]] by (simp add: run2_def run_begin_def)
  show "engine_call run_engine run2 run3"
    by (rule engine_call.intros(4) [of _ 2 "''a''" True _ "fst (run_deliver run2)"]) (simp add: run3_def run_deliver_def)
  show "engine_call run_engine run3 run4"
    using engine_call.intros(5) [OF inr_pair [OF ok(3), unfolded run_accept_def]] by (simp add: run4_def run_accept_def)
  show "engine_call run_engine run4 run5"
    using engine_call.intros(5) [OF inr_pair [OF ok(4), unfolded run_launch_def]] by (simp add: run5_def run_launch_def)
  show "engine_call run_engine run5 run6"
    using engine_call.intros(8) [OF inr_pair [OF ok(5), unfolded run_finish_def]] by (simp add: run6_def run_finish_def)
  show "engine_call run_engine run5 run7"
    using engine_call.intros(8) [OF inr_pair [OF ok(6), unfolded run_finish_def]] by (simp add: run7_def run_finish_def)
qed

lemma run_start: "durable_start run0"
  by (simp add: durable_start_def run0_def run_biz_def keys_distinct_def fresh_inst_def forced_row_def forced_instance_def
      Instance.extend_def DInst.fields_def busy_def proper_def held_ok_def)

lemma run_reachable:
  "durable_reachable run_cfg run_base (run1, [])" "durable_reachable run_cfg run_base (run2, [])"
  "durable_reachable run_cfg run_base (run6, [])" "durable_reachable run_cfg run_base (run7, [])"
proof -
  note st = reachable_more [OF _ r_into_rtranclp [of "durable_step run_cfg run_base", OF durable_step.engine]]
  have "durable_reachable run_cfg run_base (run0, [])" using run_start by (auto simp: durable_reachable_def)
  then show 1: "durable_reachable run_cfg run_base (run1, [])" using st run_calls by blast
  then show 2: "durable_reachable run_cfg run_base (run2, [])" using st run_calls by blast
  then have "durable_reachable run_cfg run_base (run3, [])" using st run_calls by blast
  then have "durable_reachable run_cfg run_base (run4, [])" using st run_calls by blast
  then have "durable_reachable run_cfg run_base (run5, [])" using st run_calls by blast
  then show "durable_reachable run_cfg run_base (run6, [])" "durable_reachable run_cfg run_base (run7, [])" using st run_calls by blast+
qed

lemma run_states:
  "seen1 run1" "seen2 run2" "seen6 run6" "seen7 run7"
  "\<not> isl (hooks_claim run7)" "fst (projr (hooks_claim run7)) \<noteq> None" "EfId claim_row = ''E-hooks''" "EfGen claim_row = 1"
  "\<not> isl (decide_hooks unclear_biz)" "BzDecisions unclear_biz = []" "map_option EfState (effect_of decided_biz ''E-hooks'') = Some EDone"
  "\<not> isl (force_claim run7)" "fst (projr (force_claim run7)) = None" "map IId (BzInsts forced_biz) = [''I'', ''N-ACTION-E-action-0'']"
  "\<not> isl (rebuildDurableResources run_cfg lost_run)" "map (\<lambda>(k, ex, ord). (k, ex)) (rebuild_rows lost_run) = [(''I'', ''E'')]"
  "map (\<lambda>(k, ex, ord). LoSnapshot ord = Frozen run_job) (rebuild_rows lost_run) = [True]"
  using run_facts by blast+

lemma claimed_reachable:
  "durable_reachable run_cfg run_base (run7\<lparr>Business := claim_biz\<rparr>, [claim_row])"
  "durable_reachable run_cfg run_base (run7\<lparr>Business := unclear_biz\<rparr>, [claim_row])"
proof -
  have c: "claim_effect run_cfg ''E-hooks'' (Business run7) = Inr (Some claim_row, claim_biz)"
    using run_states(6) inr_pair [OF run_states(5)] by (auto simp: claim_row_def claim_biz_def hooks_claim_def)
  have "durable_step run_cfg run_base (run7, []) (run7\<lparr>Business := claim_biz\<rparr>, [claim_row])"
    using durable_step.claim [OF c, of run_base "[]"] by simp
  then show 1: "durable_reachable run_cfg run_base (run7\<lparr>Business := claim_biz\<rparr>, [claim_row])"
    using reachable_more [OF run_reachable(4)] by blast
  have "durable_step run_cfg run_base (run7\<lparr>Business := claim_biz\<rparr>, [claim_row]) (run7\<lparr>Business := unclear_biz\<rparr>, [claim_row])"
    using durable_step.receipt [of claim_row "[claim_row]" run_cfg run_base "run7\<lparr>Business := claim_biz\<rparr>" False] by (simp add: unclear_biz_def)
  then show "durable_reachable run_cfg run_base (run7\<lparr>Business := unclear_biz\<rparr>, [claim_row])"
    using reachable_more [OF 1] by blast
qed

end
