(* ===== verification/DurableCorrect.thy ===== *)
theory DurableCorrect
  imports DurableHolds DurableDemo
begin

text \<open>
  The properties of the durable mode: what the status of an order says, who holds resources and how
  many, effects that are performed at most once per decision, decisions that no late message undoes,
  and the rebuilding of holds.
\<close>

lemma reachable_parts:
  assumes "durable_reachable c e (s, claims)"
  shows "exec_inv s" "runtime_keys s" "mirrors (run_view s) (Business s)" "unique_holds (Business s)" "balanced (books_of (s, claims))"
  using reachable_good [OF assms] by (simp_all add: good_def tables_fit_iff sound_def)

section \<open>Orders and their executions\<close>



section \<open>Resources\<close>





section \<open>Retries\<close>

text \<open>C37. A retry is not blocked by its own holds.  When an instance still holds what it asks for, under
  executions that are known to have ended, and no resource is over its capacity, the monitor shows no
  shortfall for it and the reservation for the next execution succeeds, however full the resources are;
  nothing more is in use afterwards than before.\<close>

theorem retry_keeps_its_holds:
  assumes "durable_reachable c e (s, claims)" "distinct (map fst want)"
    and "\<forall>(n, q)\<in>set want. 0 < q \<longrightarrow> (\<exists>h cap. hold_of (Business s) k n = Some h \<and> HoQty h = q \<and> known_ended s (HoExec h) k = 1 \<and>
      map_of (BzResources (Business s)) n = Some cap \<and> used_of (Business s) n \<le> cap)"
  shows "durableShortfalls k want (Business s) = [] \<and>
    (\<exists>b. durableResources s k ex want bypass (Business s) = Inr b \<and> (\<forall>n. used_of b n = used_of (Business s) n))"
proof -
  have u: "unique_holds (Business s)" by (rule reachable_parts(4) [OF assms(1)])
  have kh: "keeps_hold s (Business s) k w" if "w \<in> set want" "0 < snd w" for w
    using assms(3) that by (auto simp: keeps_hold_def)
  have "durableShortfalls k want (Business s) = []"
  proof -
    have "used_of (Business s) n - held_by (Business s) k n + q \<le> (case map_of (BzResources (Business s)) n of Some x \<Rightarrow> x | None \<Rightarrow> 1)"
      if "(n, q) \<in> set want" "0 < q" for n q
      using kh [OF that(1)] that(2) by (auto simp: keeps_hold_def held_by_unique [OF u] held_qty_def)
    then show ?thesis unfolding durableShortfalls_def Let_def by (auto simp: not_less [symmetric])
  qed
  then show ?thesis using reserve_all_own [OF u assms(2) kh] by auto
qed

theorem retry_keeps_its_holds_witness:
  "used_of (Business run6) ''db'' = 1 \<and> map_of (BzResources (Business run6)) ''db'' = Some 1 \<and>
   durableShortfalls ''I'' [(''db'', 1)] (Business run6) = [] \<and> durableShortfalls ''X'' [(''db'', 1)] (Business run6) \<noteq> []"
proof -
  obtain h where "hold_of (Business run6) ''I'' ''db'' = Some h" "HoQty h = 1" "known_ended run6 (HoExec h) ''I'' = 1"
    using run_states(3) by (auto simp: seen6_def map_option_eq_Some)
  then show ?thesis using retry_keeps_its_holds [OF run_reachable(3), of "[(''db'', 1)]" "''I''"] run_states(3) by (simp add: seen6_def)
qed

section \<open>Effects\<close>

text \<open>C5. Effects are performed at most once per decision.  Over any run, with receipts that are lost,
  late or repeated and leases that run out, an effect is handed out to be performed outside the database
  at most once, and then once more for each decision of the operator to repeat it; and each time under a
  generation of its own.\<close>

theorem effect_at_most_once:
  assumes "durable_reachable c e (s, claims)"
  shows "length (filter (\<lambda>f. EfId f = k) claims) \<le>
      1 + length (filter (\<lambda>d. EdEffect d = k \<and> EdDecision d = ''retry'') (BzDecisions (Business s))) \<and>
    distinct (map (\<lambda>f. (EfId f, EfGen f)) claims)"
proof -
  have b: "balanced (BzEffects (Business s), BzDecisions (Business s), claims)"
    using reachable_parts(5) [OF assms] by (simp add: books_of_def)
  have "claims_of k claims \<le> 1 + retries_of k (BzDecisions (Business s))"
  proof (cases "row_of EfId k (BzEffects (Business s))")
    case None
    have "book (row_of EfId k (BzEffects (Business s))) (claims_of k claims) (decisions_of k (BzDecisions (Business s)))
        (retries_of k (BzDecisions (Business s)))" using b unfolding balanced_def prod.case by blast
    then show ?thesis using None by simp
  next
    case (Some f)
    then show ?thesis using balanced_row [OF b Some] by (simp split: if_splits)
  qed
  moreover have "distinct (map (\<lambda>f. (EfId f, EfGen f)) claims)" using b by (simp add: balanced_def)
  ultimately show ?thesis by (simp add: claims_of_def retries_of_def count_where_def)
qed

theorem effect_at_most_once_witness:
  "length (filter (\<lambda>f. EfId f = ''E-hooks'') [claim_row]) = 1 \<and>
   length (filter (\<lambda>f. EfId f = ''E-hooks'') [claim_row]) \<le> 1 + length (filter (\<lambda>d. EdEffect d = ''E-hooks'' \<and> EdDecision d = ''retry'') (BzDecisions claim_biz))"
  using effect_at_most_once [OF claimed_reachable(1), of "''E-hooks''"] run_states(7) by simp

text \<open>C4. A decision on an effect stands.  Once the operator has decided on an effect, no receipt of a
  claim made before changes anything, whatever happened since; and after the decision that it was done,
  or is cancelled, the effect keeps its row for good and is not handed out again.\<close>

theorem decision_is_final:
  assumes "durable_reachable c e (s, claims)" "(durable_step c e)\<^sup>*\<^sup>* (s\<lparr>Business := b\<rparr>, claims) (s2, claims2)"
    and "ResolveEffect k key actor decision reason cls stopped risk gen (Business s) = Inr b"
    and "row_of EdKey key (BzDecisions (Business s)) = None"
  shows "(\<forall>f\<in>set claims. EfId f = k \<longrightarrow> receipt_effect f ok (Business s2) = Business s2) \<and>
    (decision \<noteq> ''retry'' \<longrightarrow> effect_of (Business s2) k = effect_of b k \<and>
      filter (\<lambda>f. EfId f = k) claims2 = filter (\<lambda>f. EfId f = k) claims)"
proof -
  obtain f d r where f: "effect_of (Business s) k = Some f" "\<not> settled f" "decision \<noteq> ''retry'' \<longrightarrow> decided_state decision \<noteq> EPending"
    and b: "BzEffects b = update_where (\<lambda>x. EfId x = k) (resolved_row decision r actor (BzNow (Business s))) (BzEffects (Business s))"
    by (rule resolve_new [OF assms(3,4)])
  have fb: "effect_of b k = Some (resolved_row decision r actor (BzNow (Business s)) f)"
    using f(1) key_update [of "resolved_row decision r actor (BzNow (Business s))" k k] by (simp add: effect_of_def b)
  have r1: "durable_reachable c e (s\<lparr>Business := b\<rparr>, claims)"
    by (rule reachable_more [OF assms(1) r_into_rtranclp [of "durable_step c e", OF durable_step.decide [OF assms(3)]]])
  note g1 = reachable_good [OF r1] and g2 = reachable_good [OF reachable_more [OF r1 assms(2)]]
  have "effect_write\<^sup>*\<^sup>* (books_of (s\<lparr>Business := b\<rparr>, claims)) (books_of (s2, claims2))" using good_steps [OF assms(2) g1] by simp
  moreover have bb: "balanced (books_of (s\<lparr>Business := b\<rparr>, claims))" using g1 by (simp add: good_def)
  ultimately obtain x where x: "effect_of (Business s2) k = Some x" "grown\<^sup>*\<^sup>* (resolved_row decision r actor (BzNow (Business s)) f) x"
    using effects.path [of "books_of (s\<lparr>Business := b\<rparr>, claims)" "books_of (s2, claims2)" k] fb by (auto simp: books_of_def effect_of_def)
  from x(2) have gx: "EfGen f + 1 \<le> EfGen x" by (induction rule: rtranclp_induct) (auto simp: grown_def)
  have "receipt_effect q ok (Business s2) = Business s2" if q: "q \<in> set claims" "EfId q = k" for q
  proof (rule receipt_stale [OF g2])
    have "balanced (BzEffects (Business s), BzDecisions (Business s), claims)"
      using reachable_parts(5) [OF assms(1)] by (simp add: books_of_def)
    then have "EfGen q \<le> EfGen f" using q f(1) by (auto simp: balanced_def effect_of_def)
    then show "EfGen q \<noteq> EfGen x" using gx by simp
    show "effect_of (Business s2) (EfId q) = Some x" using x(1) q(2) by simp
  qed
  moreover have "effect_of (Business s2) k = effect_of b k \<and> filter (\<lambda>f. EfId f = k) claims2 = filter (\<lambda>f. EfId f = k) claims"
    if "decision \<noteq> ''retry''"
    using settled_stays [OF assms(2) g1, of k] fb f(3) that by (auto simp: settled_def decided_state_def split: if_splits)
  ultimately show ?thesis by blast
qed

theorem decision_is_final_witness:
  "receipt_effect claim_row True decided_biz = decided_biz \<and> map_option EfState (effect_of decided_biz ''E-hooks'') = Some EDone"
proof -
  have r: "ResolveEffect ''E-hooks'' ''d1'' ''op'' ''done'' ''seen'' [] True False 1 (Business (run7\<lparr>Business := unclear_biz\<rparr>)) = Inr decided_biz"
    using run_states(9) by (cases "ResolveEffect ''E-hooks'' ''d1'' ''op'' ''done'' ''seen'' [] True False 1 unclear_biz") (simp_all add: decided_biz_def decide_hooks_def)
  have n: "row_of EdKey ''d1'' (BzDecisions (Business (run7\<lparr>Business := unclear_biz\<rparr>))) = None" using run_states(10) by simp
  show ?thesis
    using decision_is_final [OF claimed_reachable(2) rtranclp.rtrancl_refl r n, of True] run_states(7,11) by simp
qed

text \<open>C28. A \<open>run-job\<close> action orders its job once.  The claim of such an effect adds one waiting instance of the
  target, whose id is derived from the effect, settles the effect in the same transaction and hands
  nothing out; and whatever happens afterwards, processing the effect again writes nothing.\<close>

theorem run_job_orders_once:
  assumes "durable_reachable c e (s, claims)" "claim_effect c k (Business s) = Inr (x, b)"
    and "effect_of (Business s) k = Some f" "EfKind f = ''run-job''" "EfState f = EPending"
    and "(durable_step c e)\<^sup>*\<^sup>* (s\<lparr>Business := b\<rparr>, claims) (s2, claims2)"
  shows "x = None \<and> (\<exists>d rule odate i. EfPayload f = PAction d rule odate \<and> BzInsts b = BzInsts (Business s) @ [i] \<and>
      IId i = forced_id (TargetJob rule) k \<and> biz_inst (Business s) (IId i) = None \<and> IStatus i = StatusWaiting) \<and>
    durableEffect c answer var_ok k (Business s2) = Business s2"
proof -
  obtain d rule odate b1 where p: "EfPayload f = PAction d rule odate" "durableForceTx c k (TargetJob rule) (Business s) = Inr b1"
    and x: "x = None" "b = upd_effect k (\<lambda>x. x\<lparr>EfState := EDone\<rparr>) b1"
    using assms(2-5) by (auto simp: claim_effect_def and_then_Inr split: payload.splits)
  obtain i where i: "BzInsts b1 = BzInsts (Business s) @ [i]" "IId i = forced_id (TargetJob rule) k" "biz_inst (Business s) (IId i) = None"
    using force_effect [OF p(2)] by blast
  have w: "IStatus i = StatusWaiting"
    using p(2) i(1) by (auto simp: durableForceTx_def Let_def durableEvent_def forced_row_def forced_instance_def Instance.extend_def
      DInst.fields_def split: option.splits if_splits)
  have "BzEffects b1 = BzEffects (Business s)" using force_effect [OF p(2)] by blast
  then have fb: "effect_of b k = Some (f\<lparr>EfState := EDone\<rparr>)"
    using assms(3) key_update [of "\<lambda>x. x\<lparr>EfState := EDone\<rparr>" k k "BzEffects b1"] by (simp add: x(2) effect_of_def upd_effect_def)
  have "durable_step c e (s, claims) (s\<lparr>Business := b\<rparr>, claims)"
    using durable_step.claim [OF assms(2), of e claims] x(1) by simp
  then have g: "good (s\<lparr>Business := b\<rparr>, claims)" using reachable_good [OF reachable_more [OF assms(1)]] by blast
  have "effect_of (Business s2) k = Some (f\<lparr>EfState := EDone\<rparr>)"
    using settled_stays [OF assms(6) g, of k] fb by (simp add: settled_def)
  then have "durableEffect c answer var_ok k (Business s2) = Business s2"
    by (simp add: durableEffect_def claim_effect_def and_then_def guard_answer_def)
  then show ?thesis using x i w p(1) by (auto simp: upd_effect_def)
qed

theorem run_job_orders_once_witness:
  "map IId (BzInsts forced_biz) = [''I'', ''N-ACTION-E-action-0''] \<and>
   durableEffect run_cfg (\<lambda>_. True) (\<lambda>_. True) ''E-action-0'' forced_biz = forced_biz"
proof -
  have c: "claim_effect run_cfg ''E-action-0'' (Business run7) = Inr (None, forced_biz)"
    using run_states(13) inr_pair [OF run_states(12)] by (simp add: force_claim_def forced_biz_def)
  obtain f where f: "effect_of (Business run7) ''E-action-0'' = Some f" "EfKind f = ''run-job''" "EfState f = EPending"
  proof -
    obtain f fs where "BzEffects (Business run7) = f # fs" "EfId f = ''E-action-0''" "EfKind f = ''run-job''" "EfState f = EPending"
      using run_states(4) by (auto simp: seen7_def map_eq_Cons_conv)
    then show ?thesis using that by (simp add: effect_of_def row_of_Cons)
  qed
  show ?thesis
    using run_job_orders_once [OF run_reachable(4) c f rtranclp.rtrancl_refl, of "\<lambda>_. True" "\<lambda>_. True"] run_states(14) by simp
qed

section \<open>Rebuilding and outcomes\<close>



text \<open>The outcomes of an order are the same with and without the durable mode: \<open>durableOut\<close> changes the
  condition pool, and only the pool, exactly as \<open>ApplyOutcomes\<close> of the embedded mode does.\<close>

theorem durable_outcomes_agree:
  "durableOut d odate actor b =
     b\<lparr>BzPool := ApplyOutcomes (\<lambda>_ _. True) (BzNow b) d odate actor (prevDaily (BzDailies b)) (BzPool b)\<rparr>"
proof -
  have set: "fold (\<lambda>n. durableCondition n odate actor False) ns b =
      b\<lparr>BzPool := fold (set_step (\<lambda>_ _. True) (BzNow b) actor odate (prevDaily (BzDailies b))) ns (BzPool b)\<rparr>" for ns b
    by (induction ns arbitrary: b) (simp_all add: durableCondition_def set_step_def split: prod.split)
  have unset: "fold (\<lambda>n. durableCondition n odate actor True) ns b =
      b\<lparr>BzPool := fold (unset_step (\<lambda>_ _. True) odate (prevDaily (BzDailies b))) ns (BzPool b)\<rparr>" for ns b
    by (induction ns arbitrary: b) (simp_all add: durableCondition_def unset_step_def Unset_def delete_where_def split: prod.split)
  show ?thesis by (simp add: durableOut_def set unset ApplyOutcomes_def)
qed

section \<open>What the code does not do\<close>

text \<open>The success rate of a job without history is 0 here, and 1 in the embedded mode.\<close>

lemma durable_rate_of_nothing:
  "filter (\<lambda>i. IDefID i = ID d \<and> (IStatus i = StatusOK \<or> IStatus i = StatusNotOK) \<and> IFinishedAt i \<noteq> None) (BzInsts b) = [] \<Longrightarrow>
     CxSuccessRate (durable_context a d k st budget b) = 0"
  by (simp add: durable_context_def Let_def)

text \<open>
  A hundred effects that cannot be claimed, such as orders of a job that is gone, stop the drain: they
  stay pending and are the first hundred of every later drain.
\<close>

lemma drain_blocked:
  assumes "recover_effects b = Inr b1" "\<And>k. k \<in> set (pending_ids b1) \<Longrightarrow> isl (claim_effect c k b1)"
  shows "drainDurableEffects c answer var_ok b = b1"
proof -
  have "fold (durableEffect c answer var_ok) ks b1 = b1" if "\<And>k. k \<in> set ks \<Longrightarrow> isl (claim_effect c k b1)" for ks
    using that
  proof (induction ks)
    case Nil
    then show ?case by simp
  next
    case (Cons k ks)
    obtain x where "claim_effect c k b1 = Inl x" using Cons.prems [of k] by (auto simp: isl_def)
    then show ?case using Cons by (simp add: durableEffect_def)
  qed
  then show ?thesis using assms by (simp add: drainDurableEffects_def)
qed

end
