(* ===== verification/Impact.thy ===== *)
theory Impact
  imports Scheduler
begin

text \<open>
  The analyses of the dependency graph that an operator asks for before acting on an order:
  \<open>server/internal/scheduler/blast.go\<close> (what would a cancel or hold stop), \<open>neighborhood.go\<close> (the
  graph around a job) and \<open>rca.go\<close> (which failure is the root of this one).

  All three are breadth-first searches with a queue of (job, distance) and a set of visited jobs; the
  loop body they share is \<open>scan_edges\<close>.  The definitions and the instances of the date do not change
  during a call.
\<close>

section \<open>The graph\<close>

text \<open>The status that decides when a definition has several orders on a date; \<open>[]\<close>: none.\<close>

definition statusRank :: "string \<Rightarrow> nat" where
  "statusRank s =
     (if s = ''OK'' then 6 else if s = ''NOTOK'' then 5 else if s = ''CANCELLED'' then 4
      else if s = ''RUNNING'' then 3 else if s = ''HELD'' then 2 else if s = ''WAITING'' then 1 else 0)"

definition best_status :: "string \<Rightarrow> string \<Rightarrow> string" where
  "best_status best st = (if best = [] \<or> statusRank best < statusRank st then st else best)"

definition defInstanceStatus :: "Instance list \<Rightarrow> string \<Rightarrow> string \<Rightarrow> string" where
  "defInstanceStatus rows odate defID =
     foldl best_status []
       (map (\<lambda>i. status_string (IStatus i)) (filter (\<lambda>i. IOrderDate i = odate \<and> IDefID i = defID) rows))"

text \<open>\<open>defs[id]\<close> after the loop \<open>defs[d.ID] = d\<close>: the last definition of an ID, or the zero value.\<close>

definition def_at :: "JobDefinition list \<Rightarrow> string \<Rightarrow> JobDefinition" where
  "def_at defs k = (case List.find (\<lambda>d. ID d = k) (rev defs) of Some d \<Rightarrow> d | None \<Rightarrow> zero_def)"

text \<open>An edge: from a job to the next one of the search, with the condition of the dependency.\<close>

type_synonym edge = "string \<times> string \<times> string"

definition successors :: "JobDefinition list \<Rightarrow> edge list" where
  "successors defs = concat (map (\<lambda>d. map (\<lambda>u. (From u, ID d, Condition u)) (UpstreamOf d)) defs)"

definition parents :: "JobDefinition list \<Rightarrow> edge list" where
  "parents defs =
     concat (map (\<lambda>k. map (\<lambda>u. (k, From u, Condition u)) (UpstreamOf (def_at defs k))) (remdups (map ID defs)))"

definition edges_from :: "edge list \<Rightarrow> string \<Rightarrow> edge list" where
  "edges_from g k = filter (\<lambda>e. fst e = k) g"

section \<open>The search\<close>

text \<open>A job that is found: its ID, its distance, the job it was found from and the edge's condition.\<close>

record found =
  FnId :: string
  FnDepth :: nat
  FnFrom :: string
  FnCond :: string

text \<open>The edges of one job in order: a target that is admitted and new is found and marked.\<close>

fun scan_edges :: "(string \<Rightarrow> string \<Rightarrow> bool) \<Rightarrow> nat \<Rightarrow> edge list \<Rightarrow> string list \<Rightarrow> found list \<times> string list" where
  "scan_edges ok n [] vis = ([], vis)"
| "scan_edges ok n ((k, t, c) # es) vis =
     (if ok t c \<and> t \<notin> set vis
      then let (fs, vis') = scan_edges ok n es (t # vis)
           in (\<lparr>FnId = t, FnDepth = Suc n, FnFrom = k, FnCond = c\<rparr> # fs, vis')
      else scan_edges ok n es vis)"

definition queued :: "found list \<Rightarrow> (string \<times> nat) list" where
  "queued fs = map (\<lambda>f. (FnId f, FnDepth f)) fs"

definition unseen :: "edge list \<Rightarrow> string list \<Rightarrow> nat" where
  "unseen g vis = card ((fst \<circ> snd) ` set g - set vis)"

lemma scan_unseen: "set es \<subseteq> set g \<Longrightarrow> length (fst (scan_edges ok n es vis)) + unseen g (snd (scan_edges ok n es vis)) = unseen g vis"
proof (induction ok n es vis rule: scan_edges.induct)
  case (2 ok n k t c es vis)
  show ?case
  proof (cases "ok t c \<and> t \<notin> set vis")
    case True
    have "t \<in> (fst \<circ> snd) ` set g" using "2.prems" by (force simp: image_iff)
    then have "Suc (card ((fst \<circ> snd) ` set g - set vis - {t})) = unseen g vis"
      unfolding unseen_def by (intro card_Suc_Diff1) (use True in auto)
    moreover have "(fst \<circ> snd) ` set g - set vis - {t} = (fst \<circ> snd) ` set g - set (t # vis)" by auto
    ultimately have "Suc (unseen g (t # vis)) = unseen g vis" by (simp only: unseen_def)
    moreover have "length (fst (scan_edges ok n es (t # vis))) + unseen g (snd (scan_edges ok n es (t # vis))) = unseen g (t # vis)"
      by (rule "2.IH"(1) [OF True]) (use "2.prems" in simp)
    ultimately show ?thesis using True by (simp add: case_prod_beta)
  next
    case False
    then have e: "scan_edges ok n ((k, t, c) # es) vis = scan_edges ok n es vis" by auto
    show ?thesis unfolding e by (rule "2.IH"(2) [OF False]) (use "2.prems" in simp)
  qed
qed simp

text \<open>\<open>reach\<close> says up to which distance jobs are expanded.\<close>

function search ::
  "edge list \<Rightarrow> (string \<Rightarrow> string \<Rightarrow> bool) \<Rightarrow> (nat \<Rightarrow> bool) \<Rightarrow> string list \<Rightarrow> (string \<times> nat) list \<Rightarrow> found list" where
  "search g ok reach vis [] = []"
| "search g ok reach vis ((k, n) # q) =
     (if \<not> reach n then search g ok reach vis q
      else let (fs, vis') = scan_edges ok n (edges_from g k) vis
           in fs @ search g ok reach vis' (q @ queued fs))"
  by pat_completeness auto

termination
proof (relation "measure (\<lambda>(g, ok, reach, vis, q). unseen g vis + length q)")
  fix g :: "edge list" and ok reach vis k n q x fs vis'
  assume x: "x = scan_edges ok n (edges_from g k) vis" "(fs, vis') = x"
  have "length fs + unseen g vis' = unseen g vis"
    using scan_unseen [of "edges_from g k" g ok n vis] x by (metis edges_from_def filter_is_subset fst_conv snd_conv)
  then show "((g, ok, reach, vis', q @ queued fs), (g, ok, reach, vis, (k, n) # q))
      \<in> measure (\<lambda>(g, ok, reach, vis, q). unseen g vis + length q)" by (simp add: queued_def)
qed simp_all

section \<open>Blast radius\<close>

record BlastNode =
  BnDef :: string
  BnLabel :: string
  BnTeam :: string
  BnStatus :: string
  BnSLA :: bool
  BnDepth :: nat

record BlastCounts =
  BcDownstream :: nat
  BcSLAAtRisk :: nat
  BcTeams :: nat
  BcMaxDepth :: nat

record BlastReport =
  BrTarget :: string
  BrStatus :: string
  BrOrderDate :: string
  BrCounts :: BlastCounts
  BrDownstream :: "BlastNode list"
  BrAtRisk :: "BlastNode list"
  BrTruncated :: bool

definition blastDetailCap :: nat where "blastDetailCap = 500"

text \<open>Only jobs that have not run are stopped and pass the effect on, and not over \<open>always\<close> edges.\<close>

definition stopped_by :: "(string \<Rightarrow> string) \<Rightarrow> string \<Rightarrow> string \<Rightarrow> bool" where
  "stopped_by status t c \<longleftrightarrow> c \<noteq> CondAlways \<and> (status t = ''WAITING'' \<or> status t = ''HELD'')"

definition blast_node :: "JobDefinition list \<Rightarrow> (string \<Rightarrow> string) \<Rightarrow> found \<Rightarrow> BlastNode" where
  "blast_node defs status f =
     (let d = def_at defs (FnId f) in
      \<lparr>BnDef = FnId f, BnLabel = Label d, BnTeam = Team d, BnStatus = status (FnId f), BnSLA = SLA d \<noteq> None,
       BnDepth = FnDepth f\<rparr>)"

definition BlastRadius :: "JobDefinition list \<Rightarrow> Instance list \<Rightarrow> string \<Rightarrow> BlastReport option" where
  "BlastRadius defs rows k =
     (case row_of IId k rows of
        None \<Rightarrow> None
      | Some i \<Rightarrow>
          (let status = defInstanceStatus rows (IOrderDate i);
               nodes = map (blast_node defs status)
                 (search (successors defs) (stopped_by status) (\<lambda>_. True) [IDefID i] [(IDefID i, 0)]);
               risk = filter BnSLA nodes
           in Some \<lparr>BrTarget = IDefID i, BrStatus = status_string (IStatus i), BrOrderDate = IOrderDate i,
                BrCounts = \<lparr>BcDownstream = length nodes, BcSLAAtRisk = length risk,
                  BcTeams = card (set (filter (\<lambda>t. t \<noteq> []) (map BnTeam nodes))),
                  BcMaxDepth = fold max (map BnDepth nodes) 0\<rparr>,
                BrDownstream = take blastDetailCap nodes, BrAtRisk = take blastDetailCap risk,
                BrTruncated = length nodes > blastDetailCap\<rparr>))"

section \<open>Neighbourhood\<close>

record NeighborNode =
  NnDef :: string
  NnLabel :: string
  NnTeam :: string
  NnStatus :: string
  NnDepth :: nat
  NnCond :: string
  NnSLA :: bool

record NeighborhoodReport =
  NbTarget :: string
  NbLabel :: string
  NbTeam :: string
  NbStatus :: string
  NbOrderDate :: string
  NbRadius :: int
  NbUpstream :: "NeighborNode list"
  NbDownstream :: "NeighborNode list"
  NbTruncated :: bool

definition neighborhoodMaxRadius :: int where "neighborhoodMaxRadius = 4"

definition neighborhoodDetailCap :: nat where "neighborhoodDetailCap = 500"

definition clamp_radius :: "int \<Rightarrow> int" where
  "clamp_radius r = (let r1 = (if r \<le> 0 then 1 else r) in if r1 > neighborhoodMaxRadius then neighborhoodMaxRadius else r1)"

text \<open>The condition is only shown on the direct neighbours of the target.\<close>

definition neighbor_node :: "JobDefinition list \<Rightarrow> (string \<Rightarrow> string) \<Rightarrow> string \<Rightarrow> found \<Rightarrow> NeighborNode" where
  "neighbor_node defs status target f =
     \<lparr>NnDef = FnId f, NnLabel = Label (def_at defs (FnId f)), NnTeam = Team (def_at defs (FnId f)), NnStatus = status (FnId f), NnDepth = FnDepth f,
      NnCond = (if FnFrom f = target then FnCond f else []), NnSLA = SLA (def_at defs (FnId f)) \<noteq> None\<rparr>"

definition around :: "edge list \<Rightarrow> string \<Rightarrow> int \<Rightarrow> found list" where
  "around g target r = search g (\<lambda>_ _. True) (\<lambda>n. int n < r) [target] [(target, 0)]"

definition Neighborhood :: "JobDefinition list \<Rightarrow> Instance list \<Rightarrow> string \<Rightarrow> int \<Rightarrow> NeighborhoodReport option" where
  "Neighborhood defs rows k radius =
     (case row_of IId k rows of
        None \<Rightarrow> None
      | Some i \<Rightarrow>
          (let r = clamp_radius radius; target = IDefID i; status = defInstanceStatus rows (IOrderDate i);
               node = neighbor_node defs status target;
               ups = map node (around (parents defs) target r);
               downs = map node (around (successors defs) target r)
           in Some \<lparr>NbTarget = target, NbLabel = Label (def_at defs target), NbTeam = Team (def_at defs target),
                NbStatus = status_string (IStatus i), NbOrderDate = IOrderDate i, NbRadius = r, NbUpstream = take neighborhoodDetailCap ups,
                NbDownstream = take neighborhoodDetailCap downs,
                NbTruncated = length ups > neighborhoodDetailCap \<or> length downs > neighborhoodDetailCap\<rparr>))"

section \<open>Root cause\<close>

definition rcaMaxVisit :: nat where "rcaMaxVisit = 2000"

record RCACause =
  RcDef :: string
  RcLabel :: string
  RcTeam :: string
  RcStatus :: string
  RcDepth :: nat
  RcReason :: string

text \<open>What the analysis finds: nothing to trace, no root, or the roots and a chain to the deepest.\<close>

datatype RCAReport = NothingToTrace | NoRoot | Roots "RCACause list" "string list"

definition isFailed :: "string \<Rightarrow> bool" where
  "isFailed st \<longleftrightarrow> st = ''NOTOK'' \<or> st = ''CANCELLED''"

text \<open>The status of the target is the one of its own row; the others are looked up by definition.\<close>

definition rca_status :: "Instance list \<Rightarrow> Instance \<Rightarrow> string \<Rightarrow> string" where
  "rca_status rows i k = (if k = IDefID i then status_string (IStatus i) else defInstanceStatus rows (IOrderDate i) k)"

definition hasFailedParent :: "JobDefinition list \<Rightarrow> (string \<Rightarrow> string) \<Rightarrow> string \<Rightarrow> bool" where
  "hasFailedParent defs status k = list_ex (\<lambda>u. isFailed (status (From u))) (UpstreamOf (def_at defs k))"

text \<open>Where the search starts: the target if it failed, otherwise its failed parents, each as often as it is named.\<close>

definition rca_start :: "JobDefinition list \<Rightarrow> (string \<Rightarrow> string) \<Rightarrow> string \<Rightarrow> (string \<times> nat) list" where
  "rca_start defs status target =
     (if isFailed (status target) then [(target, 0)]
      else map (\<lambda>u. (From u, 1)) (filter (\<lambda>u. isFailed (status (From u))) (UpstreamOf (def_at defs target))))"

text \<open>
  The jobs taken from the queue, at most \<open>left\<close> of them, and the jobs found with the ones they were
  found from (\<open>parentOf\<close>).
\<close>

fun climb ::
  "edge list \<Rightarrow> (string \<Rightarrow> bool) \<Rightarrow> nat \<Rightarrow> string list \<Rightarrow> (string \<times> nat) list \<Rightarrow> (string \<times> nat) list \<times> found list" where
  "climb g failed 0 vis q = ([], [])"
| "climb g failed (Suc left) vis [] = ([], [])"
| "climb g failed (Suc left) vis ((k, n) # q) =
     (let (fs, vis') = scan_edges (\<lambda>t _. failed t) n (edges_from g k) vis;
          (ps, gs) = climb g failed left vis' (q @ queued fs)
      in ((k, n) # ps, fs @ gs))"

text \<open>\<open>roots\<close> is a map: a job taken twice keeps one entry, with the distance of the last.\<close>

definition cause_of :: "JobDefinition list \<Rightarrow> (string \<Rightarrow> string) \<Rightarrow> string \<times> nat \<Rightarrow> RCACause" where
  "cause_of defs status p =
     (let d = def_at defs (fst p) in
      \<lparr>RcDef = fst p, RcLabel = Label d, RcTeam = Team d, RcStatus = status (fst p), RcDepth = snd p,
       RcReason = (if status (fst p) = ''CANCELLED''
         then ''cancelled with no failed upstream (impossible dependency or manual cancellation)''
         else ''failed on its own (no failed upstream)'')\<rparr>)"

definition put_cause :: "JobDefinition list \<Rightarrow> (string \<Rightarrow> string) \<Rightarrow> string \<times> nat \<Rightarrow> RCACause list \<Rightarrow> RCACause list" where
  "put_cause defs status p rs =
     (let c = cause_of defs status p in
      if row_of RcDef (fst p) rs = None then rs @ [c] else update_where (\<lambda>x. RcDef x = fst p) (\<lambda>_. c) rs)"

text \<open>The path back by \<open>parentOf\<close>, from the root to where the search started, which has no entry.\<close>

definition parent_of :: "found list \<Rightarrow> string \<Rightarrow> string" where
  "parent_of fs k = (case row_of FnId k fs of None \<Rightarrow> [] | Some f \<Rightarrow> FnFrom f)"

partial_function (option) path_back :: "found list \<Rightarrow> string list \<Rightarrow> string \<Rightarrow> string list option" where
  "path_back fs chain k = (if k = [] then Some chain else path_back fs (k # chain) (parent_of fs k))"

declare path_back.simps [code]

text \<open>The roots are listed by distance, the farthest first; the order of equals is that of a map.\<close>

definition RCA :: "JobDefinition list \<Rightarrow> Instance list \<Rightarrow> string \<Rightarrow> RCAReport option" where
  "RCA defs rows k =
     (case row_of IId k rows of
        None \<Rightarrow> None
      | Some i \<Rightarrow>
          (let target = IDefID i; status = rca_status rows i in
           if \<not> isFailed (status target) \<and> \<not> hasFailedParent defs status target then Some NothingToTrace
           else let start = rca_start defs status target;
                    (taken, fs) = climb (parents defs) (\<lambda>t. isFailed (status t)) rcaMaxVisit (map fst start) start;
                    roots = sort_key (\<lambda>r. - int (RcDepth r))
                      (fold (put_cause defs status) (filter (\<lambda>p. \<not> hasFailedParent defs status (fst p)) taken) [])
                in case roots of
                     [] \<Rightarrow> Some NoRoot
                   | r # _ \<Rightarrow>
                       map_option (\<lambda>chain. Roots roots (if RcDef r \<noteq> target then target # chain else chain))
                         (path_back fs [] (RcDef r))))"

end
