(* ===== verification/ImpactCorrect.thy ===== *)
theory ImpactCorrect
  imports Impact
begin

text \<open>
  The searches of \<open>Impact\<close> are exact: they find the jobs that a chain of admitted edges reaches, each
  once and with the length of the shortest chain.  The argument is the locale \<open>breadth_first\<close>, whose
  clients are the blast radius, the neighbourhood in both directions and the climb to a root cause.
\<close>

declare search.simps [simp del]

section \<open>Chains of edges\<close>

inductive walk :: "edge list \<Rightarrow> (string \<Rightarrow> string \<Rightarrow> bool) \<Rightarrow> string \<Rightarrow> nat \<Rightarrow> string \<Rightarrow> bool" for g ok k where
  here: "walk g ok k 0 k"
| further: "walk g ok k n t \<Longrightarrow> (t, t', c) \<in> set g \<Longrightarrow> ok t' c \<Longrightarrow> walk g ok k (Suc n) t'"

inductive_simps walk_0: "walk g ok k 0 t"
inductive_simps walk_Suc: "walk g ok k (Suc n) t"

definition distance :: "edge list \<Rightarrow> (string \<Rightarrow> string \<Rightarrow> bool) \<Rightarrow> string \<Rightarrow> nat \<Rightarrow> string \<Rightarrow> bool" where
  "distance g ok k n t \<longleftrightarrow> walk g ok k n t \<and> (\<forall>m<n. \<not> walk g ok k m t)"

lemma distance_unique: "distance g ok k m t \<Longrightarrow> distance g ok k n t \<Longrightarrow> m = n"
  unfolding distance_def by (metis linorder_neqE_nat)

lemma walk_distance: "walk g ok k n t \<Longrightarrow> \<exists>m\<le>n. distance g ok k m t"
proof -
  assume w: "walk g ok k n t"
  have "distance g ok k (LEAST m. walk g ok k m t) t"
    unfolding distance_def using LeastI [of "\<lambda>m. walk g ok k m t", OF w] not_less_Least by blast
  then show ?thesis using Least_le [of "\<lambda>m. walk g ok k m t", OF w] by blast
qed

lemma distance_Suc:
  assumes "distance g ok k (Suc n) t"
  obtains u c where "distance g ok k n u" "(u, t, c) \<in> set g" "ok t c"
proof -
  from assms obtain u c where u: "walk g ok k n u" "(u, t, c) \<in> set g" "ok t c"
    by (auto simp: distance_def walk_Suc)
  have "\<not> walk g ok k m u" if "m < n" for m
  proof
    assume "walk g ok k m u"
    then have "walk g ok k (Suc m) t" using u(2,3) by (rule walk.further)
    then show False using assms that by (auto simp: distance_def)
  qed
  then show ?thesis using that u by (auto simp: distance_def)
qed

section \<open>One job's edges\<close>

lemma scan_found:
  "f \<in> set (fst (scan_edges ok n es vis)) \<Longrightarrow>
     FnDepth f = Suc n \<and> (FnFrom f, FnId f, FnCond f) \<in> set es \<and> ok (FnId f) (FnCond f) \<and> FnId f \<notin> set vis"
  by (induction ok n es vis rule: scan_edges.induct) (auto simp: case_prod_beta split: if_splits)

lemma scan_seen: "set (snd (scan_edges ok n es vis)) = set vis \<union> FnId ` set (fst (scan_edges ok n es vis))"
  by (induction ok n es vis rule: scan_edges.induct) (auto simp: case_prod_beta)

lemma scan_distinct: "distinct (map FnId (fst (scan_edges ok n es vis)))"
  by (induction ok n es vis rule: scan_edges.induct) (auto simp: case_prod_beta dest: scan_found)

lemma scan_all: "(k, t, c) \<in> set es \<Longrightarrow> ok t c \<Longrightarrow> t \<in> set (snd (scan_edges ok n es vis))"
proof (induction ok n es vis rule: scan_edges.induct)
  case (2 ok n k' t' c' es vis)
  have m: "set vis \<subseteq> set (snd (scan_edges ok n es vis))" for es vis by (simp add: scan_seen)
  show ?case
  proof (cases "ok t' c' \<and> t' \<notin> set vis")
    case True
    then show ?thesis using "2.IH"(1) [OF True] "2.prems" m [of "t' # vis" es] by (auto simp: case_prod_beta)
  next
    case False
    then have e: "scan_edges ok n ((k', t', c') # es) vis = scan_edges ok n es vis" by auto
    show ?thesis unfolding e using "2.IH"(2) [OF False] "2.prems" False m [of vis es] by auto
  qed
qed simp

lemma queued_simps [simp]: "queued [] = []" "queued (f # fs) = (FnId f, FnDepth f) # queued fs"
  "fst ` set (queued fs) = FnId ` set fs" "queued (fs @ gs) = queued fs @ queued gs" "map fst (queued fs) = map FnId fs"
  by (force simp: queued_def)+

section \<open>The search\<close>

text \<open>
  What holds between two jobs: \<open>done\<close> are the jobs taken from the queue, with their distances.  The
  queue is ordered and spans at most two distances.
\<close>

locale breadth_first =
  fixes g :: "edge list" and ok :: "string \<Rightarrow> string \<Rightarrow> bool" and reach :: "nat \<Rightarrow> bool" and k :: string
  assumes down: "reach n \<Longrightarrow> m \<le> n \<Longrightarrow> reach m"
begin

definition level :: "(string \<times> nat) set \<Rightarrow> string list \<Rightarrow> (string \<times> nat) list \<Rightarrow> bool" where
  "level taken vis q \<longleftrightarrow>
     (k, 0) \<in> taken \<union> set q \<and>
     (\<forall>(t, n)\<in>taken \<union> set q. distance g ok k n t) \<and>
     (\<forall>(t, n)\<in>taken. reach n \<longrightarrow> (\<forall>t' c. (t, t', c) \<in> set g \<longrightarrow> ok t' c \<longrightarrow> t' \<in> fst ` (taken \<union> set q))) \<and>
     (\<forall>t c. ok t c \<longrightarrow> (t \<in> set vis \<longleftrightarrow> t \<in> fst ` (taken \<union> set q))) \<and>
     sorted (map snd q) \<and> (\<forall>x\<in>set q. snd x \<le> Suc (snd (hd q)))"

lemma levelD:
  assumes "level taken vis q"
  shows "(k, 0) \<in> taken \<union> set q" "(t, n) \<in> taken \<union> set q \<Longrightarrow> distance g ok k n t"
    "(t, n) \<in> taken \<Longrightarrow> reach n \<Longrightarrow> (t, t', c) \<in> set g \<Longrightarrow> ok t' c \<Longrightarrow> t' \<in> fst ` (taken \<union> set q)"
    "ok t c \<Longrightarrow> t \<in> set vis \<longleftrightarrow> t \<in> fst ` (taken \<union> set q)"
    "sorted (map snd q)" "x \<in> set q \<Longrightarrow> snd x \<le> Suc (snd (hd q))"
  using assms unfolding level_def by blast+

lemma near:
  assumes "level taken vis q"
  shows "distance g ok k m t \<Longrightarrow> m = 0 \<or> reach (m - 1) \<Longrightarrow> (\<And>x. x \<in> set q \<Longrightarrow> m \<le> snd x) \<Longrightarrow> (t, m) \<in> taken \<union> set q"
proof (induction m arbitrary: t)
  case 0
  then show ?case using assms by (auto simp: distance_def walk_0 level_def)
next
  case (Suc j)
  from Suc.prems(1) obtain u c where u: "distance g ok k j u" "(u, t, c) \<in> set g" "ok t c" by (rule distance_Suc)
  have rj: "reach j" using Suc.prems(2) by simp
  have "(u, j) \<in> taken \<union> set q"
    by (rule Suc.IH [OF u(1)]) (use rj down [of j "j - 1"] Suc.prems(3) in \<open>auto intro: Suc_leD\<close>)
  moreover have "(u, j) \<notin> set q" using Suc.prems(3) [of "(u, j)"] by auto
  ultimately have "t \<in> fst ` (taken \<union> set q)" using levelD(3) [OF assms _ rj u(2,3)] by blast
  then obtain n where n: "(t, n) \<in> taken \<union> set q" by force
  then have "distance g ok k n t" by (rule levelD(2) [OF assms])
  then show ?case using distance_unique [OF _ Suc.prems(1)] n by blast
qed

lemma expand_one:
  assumes lv: "level taken vis ((j, n) # q)" and r: "reach n" and s: "scan_edges ok n (edges_from g j) vis = (fs, vis')"
  shows "level (insert (j, n) taken) vis' (q @ queued fs)"
proof -
  let ?H = "taken \<union> set ((j, n) # q)"
  have f: "FnDepth x = Suc n \<and> (j, FnId x, FnCond x) \<in> set g \<and> ok (FnId x) (FnCond x) \<and> FnId x \<notin> set vis" if "x \<in> set fs" for x
    using scan_found [of x ok n "edges_from g j" vis] that s by (auto simp: edges_from_def)
  have v: "set vis' = set vis \<union> FnId ` set fs" using scan_seen [of ok n "edges_from g j" vis] s by simp
  have al: "t \<in> set vis'" if "(j, t, c) \<in> set g" "ok t c" for t c
    using scan_all [of j t c "edges_from g j" ok n vis] that s by (simp add: edges_from_def)
  have dj: "distance g ok k n j" and low: "\<And>x. x \<in> set q \<Longrightarrow> n \<le> snd x" and high: "\<And>x. x \<in> set q \<Longrightarrow> snd x \<le> Suc n"
    and vis: "\<And>t c. ok t c \<Longrightarrow> t \<in> set vis \<longleftrightarrow> t \<in> fst ` ?H"
    using lv by (auto simp: level_def)
  have new: "distance g ok k (Suc n) (FnId x)" if x: "x \<in> set fs" for x
  proof -
    have "walk g ok k (Suc n) (FnId x)" using dj f [OF x] by (auto simp: distance_def intro: walk.further)
    moreover have "\<not> walk g ok k m (FnId x)" if m: "m < Suc n" for m
    proof
      assume "walk g ok k m (FnId x)"
      then obtain i where i: "i \<le> m" "distance g ok k i (FnId x)" using walk_distance by blast
      have "(FnId x, i) \<in> ?H" by (rule near [OF lv i(2)]) (use i(1) m r down [of n "i - 1"] low in \<open>auto intro: order_trans [of i n]\<close>)
      then have "FnId x \<in> fst ` ?H" by force
      then show False using vis [of "FnId x" "FnCond x"] f [OF x] by blast
    qed
    ultimately show ?thesis by (simp add: distance_def)
  qed
  have H: "insert (j, n) taken \<union> set (q @ queued fs) = ?H \<union> set (queued fs)" by auto
  have q: "set (queued fs) = (\<lambda>x. (FnId x, Suc n)) ` set fs" using f by (force simp: queued_def image_iff)
  have idH: "t \<in> fst ` (?H \<union> set (queued fs))" if "t \<in> set vis'" "ok t c" for t c
    using that vis [of t c] unfolding v image_Un by auto
  show ?thesis
    unfolding level_def H
  proof (intro conjI)
    show "(k, 0) \<in> ?H \<union> set (queued fs)" using levelD(1) [OF lv] by blast
    show "\<forall>(t, n)\<in>?H \<union> set (queued fs). distance g ok k n t"
    proof clarify
      fix t m assume "(t, m) \<in> ?H \<union> set (queued fs)"
      then show "distance g ok k m t" using levelD(2) [OF lv, of t m] new q by (elim UnE) auto
    qed
    show "\<forall>(t, m)\<in>insert (j, n) taken. reach m \<longrightarrow>
        (\<forall>t' c. (t, t', c) \<in> set g \<longrightarrow> ok t' c \<longrightarrow> t' \<in> fst ` (?H \<union> set (queued fs)))"
    proof (intro ballI, clarify)
      fix t m t' c assume t: "(t, m) \<in> insert (j, n) taken" "reach m" "(t, t', c) \<in> set g" "ok t' c"
      show "t' \<in> fst ` (?H \<union> set (queued fs))"
      proof (cases "(t, m) \<in> taken")
        case True
        then show ?thesis using levelD(3) [OF lv True t(2-4)] unfolding image_Un by blast
      next
        case False
        then have "t = j" using t(1) by simp
        then show ?thesis using t by (intro idH [OF al, of t' c]) auto
      qed
    qed
    show "\<forall>t c. ok t c \<longrightarrow> (t \<in> set vis' \<longleftrightarrow> t \<in> fst ` (?H \<union> set (queued fs)))"
      using vis v by (auto simp: image_Un)
    have "map snd (queued fs) = map (\<lambda>_. Suc n) fs" using f by (simp add: queued_def)
    moreover have "sorted (map snd q)" using levelD(5) [OF lv] by simp
    ultimately show "sorted (map snd (q @ queued fs))" using high by (auto simp: sorted_append map_replicate_const)
    show "\<forall>x\<in>set (q @ queued fs). snd x \<le> Suc (snd (hd (q @ queued fs)))"
      using high low q by (cases q; cases fs) (force simp: f)+
  qed
qed

lemma skip_one:
  assumes "level taken vis ((j, n) # q)" "\<not> reach n"
  shows "level (insert (j, n) taken) vis q"
proof -
  have H: "insert (j, n) taken \<union> set q = taken \<union> set ((j, n) # q)" by auto
  note lv = levelD [OF assms(1)]
  show ?thesis
    unfolding level_def H
  proof (intro conjI)
    show "(k, 0) \<in> taken \<union> set ((j, n) # q)" by (rule lv(1))
    show "\<forall>(t, n)\<in>taken \<union> set ((j, n) # q). distance g ok k n t" using lv(2) by blast
    show "\<forall>(t, m)\<in>insert (j, n) taken. reach m \<longrightarrow>
        (\<forall>t' c. (t, t', c) \<in> set g \<longrightarrow> ok t' c \<longrightarrow> t' \<in> fst ` (taken \<union> set ((j, n) # q)))"
      using lv(3) assms(2) by blast
    show "\<forall>t c. ok t c \<longrightarrow> (t \<in> set vis \<longleftrightarrow> t \<in> fst ` (taken \<union> set ((j, n) # q)))" using lv(4) by blast
    show "sorted (map snd q)" using lv(5) by simp
    show "\<forall>x\<in>set q. snd x \<le> Suc (snd (hd q))"
    proof
      fix x assume x: "x \<in> set q"
      have "n \<le> snd (hd q)" using x lv(5) by (cases q) auto
      then show "snd x \<le> Suc (snd (hd q))" using lv(6) [of x] x by simp
    qed
  qed
qed

text \<open>The search finds what is near, nothing else, and nothing twice.\<close>

definition exact :: "(string \<times> nat) set \<Rightarrow> string list \<Rightarrow> (string \<times> nat) list \<Rightarrow> found list \<Rightarrow> bool" where
  "exact taken vis q fs \<longleftrightarrow>
     (\<forall>f\<in>set fs. distance g ok k (FnDepth f) (FnId f) \<and> (FnFrom f, FnId f, FnCond f) \<in> set g \<and>
        ok (FnId f) (FnCond f) \<and> FnId f \<notin> set vis \<and> 0 < FnDepth f \<and> reach (FnDepth f - 1) \<and>
        (FnFrom f, FnDepth f - 1) \<in> taken \<union> set q \<union> set (queued fs)) \<and>
     distinct (map FnId fs) \<and>
     (\<forall>t n. distance g ok k n t \<longrightarrow> n = 0 \<or> reach (n - 1) \<longrightarrow> (t, n) \<in> taken \<union> set q \<union> set (queued fs))"

lemma search_exact: "level taken vis q \<Longrightarrow> exact taken vis q (search g ok reach vis q)"
proof (induction "unseen g vis + length q" arbitrary: taken vis q rule: less_induct)
  case less
  show ?case
  proof (cases q)
    case Nil
    then show ?thesis using near [OF less.prems] by (auto simp: exact_def search.simps)
  next
    case (Cons x p)
    obtain j n where x: "x = (j, n)" by force
    note lv = less.prems [unfolded Cons x]
    show ?thesis
    proof (cases "reach n")
      case False
      have "exact (insert (j, n) taken) vis p (search g ok reach vis p)"
        by (rule less.hyps [OF _ skip_one [OF lv False]]) (simp add: Cons)
      then show ?thesis using False by (simp add: exact_def Cons x search.simps)
    next
      case True
      obtain fs vis' where s: "scan_edges ok n (edges_from g j) vis = (fs, vis')" by force
      have u: "length fs + unseen g vis' = unseen g vis"
        using scan_unseen [of "edges_from g j" g ok n vis] s by (simp add: edges_from_def)
      have l: "level (insert (j, n) taken) vis' (p @ queued fs)" by (rule expand_one [OF lv True s])
      let ?r = "search g ok reach vis' (p @ queued fs)"
      have e: "exact (insert (j, n) taken) vis' (p @ queued fs) ?r"
        by (rule less.hyps [OF _ l]) (use u in \<open>simp add: Cons queued_def\<close>)
      have f: "distance g ok k (FnDepth f) (FnId f) \<and> (FnFrom f, FnId f, FnCond f) \<in> set g \<and> ok (FnId f) (FnCond f) \<and>
          FnId f \<notin> set vis \<and> 0 < FnDepth f \<and> reach (FnDepth f - 1) \<and> FnFrom f = j \<and> FnDepth f = Suc n" if "f \<in> set fs" for f
        using scan_found [of f ok n "edges_from g j" vis] levelD(2) [OF l, of "FnId f" "FnDepth f"] that s True
        by (auto simp: edges_from_def queued_def)
      have v: "set vis' = set vis \<union> FnId ` set fs" using scan_seen [of ok n "edges_from g j" vis] s by simp
      have d: "distinct (map FnId fs)" using scan_distinct [of ok n "edges_from g j" vis] s by simp
      have r: "search g ok reach vis q = fs @ ?r" using True s by (simp add: Cons x search.simps)
      note E = e [unfolded exact_def]
      have nv: "FnId h \<notin> set vis" and ns: "FnId h \<notin> FnId ` set fs" if "h \<in> set ?r" for h
        using E that unfolding v by blast+
      have "FnId ` set fs \<inter> FnId ` set ?r = {}" 
      proof (rule equals0I)
        fix y assume y: "y \<in> FnId ` set fs \<inter> FnId ` set ?r"
        then obtain h where "h \<in> set ?r" "y = FnId h" by blast
        then show False using ns [of h] y by simp
      qed
      then have dd: "distinct (map FnId (fs @ ?r))" using E d by simp
      show ?thesis
        unfolding exact_def r
      proof (intro conjI)
        show "\<forall>f\<in>set (fs @ ?r). distance g ok k (FnDepth f) (FnId f) \<and> (FnFrom f, FnId f, FnCond f) \<in> set g \<and>
            ok (FnId f) (FnCond f) \<and> FnId f \<notin> set vis \<and> 0 < FnDepth f \<and> reach (FnDepth f - 1) \<and>
            (FnFrom f, FnDepth f - 1) \<in> taken \<union> set q \<union> set (queued (fs @ ?r))"
        proof
          fix h assume "h \<in> set (fs @ ?r)"
          then consider "h \<in> set fs" | "h \<in> set ?r" by auto
          then show "distance g ok k (FnDepth h) (FnId h) \<and> (FnFrom h, FnId h, FnCond h) \<in> set g \<and>
            ok (FnId h) (FnCond h) \<and> FnId h \<notin> set vis \<and> 0 < FnDepth h \<and> reach (FnDepth h - 1) \<and>
            (FnFrom h, FnDepth h - 1) \<in> taken \<union> set q \<union> set (queued (fs @ ?r))"
          proof cases
            case 1
            then show ?thesis using f [OF 1] by (auto simp: Cons x)
          next
            case 2
            have "(FnFrom h, FnDepth h - 1) \<in> insert (j, n) taken \<union> set (p @ queued fs) \<union> set (queued ?r)" using E 2 by blast
            then have "(FnFrom h, FnDepth h - 1) \<in> taken \<union> set q \<union> set (queued (fs @ ?r))" by (auto simp: Cons x)
            then show ?thesis using E 2 nv [OF 2] by blast
          qed
        qed
        show "distinct (map FnId (fs @ ?r))" by (rule dd)
        show "\<forall>t n. distance g ok k n t \<longrightarrow> n = 0 \<or> reach (n - 1) \<longrightarrow> (t, n) \<in> taken \<union> set q \<union> set (queued (fs @ ?r))"
          using E by (simp add: Cons x)
      qed
    qed
  qed
qed

lemma search_from_start: "exact {} [k] [(k, 0)] (search g ok reach [k] [(k, 0)])"
  by (rule search_exact) (auto simp: level_def distance_def intro: walk.here)

lemma found_iff:
  "(t, n) \<in> set (queued (search g ok reach [k] [(k, 0)])) \<longleftrightarrow> 0 < n \<and> reach (n - 1) \<and> distance g ok k n t"
proof
  assume "(t, n) \<in> set (queued (search g ok reach [k] [(k, 0)]))"
  then show "0 < n \<and> reach (n - 1) \<and> distance g ok k n t"
    using search_from_start by (auto simp: exact_def queued_def)
next
  assume "0 < n \<and> reach (n - 1) \<and> distance g ok k n t"
  then show "(t, n) \<in> set (queued (search g ok reach [k] [(k, 0)]))"
    using search_from_start unfolding exact_def by (metis Un_iff empty_iff insert_iff list.set(1,2) not_gr_zero prod.inject)
qed

lemma found_once: "distinct (map FnId (search g ok reach [k] [(k, 0)]))"
  using search_from_start by (simp add: exact_def)

lemma found_edge: "f \<in> set (search g ok reach [k] [(k, 0)]) \<Longrightarrow> (FnFrom f, FnId f, FnCond f) \<in> set g"
  using search_from_start by (simp add: exact_def)

end

interpretation everywhere: breadth_first g ok "\<lambda>_. True" k for g ok k
  by unfold_locales simp

interpretation nearby: breadth_first g "\<lambda>_ _. True" "\<lambda>n. int n < r" k for g r k
  by unfold_locales simp

section \<open>The graph\<close>

lemma edges_from_parents: "edges_from (parents defs) k = map (\<lambda>u. (k, From u, Condition u)) (UpstreamOf (def_at defs k))"
proof -
  have f: "filter (\<lambda>e. fst e = k) (concat (map (\<lambda>j. map (\<lambda>u. (j, From u, Condition u)) (h j)) ks)) =
      concat (map (\<lambda>j. map (\<lambda>u. (j, From u, Condition u)) (h j)) (filter (\<lambda>j. j = k) ks))" for ks and h :: "string \<Rightarrow> Upstream list"
    by (induction ks) (auto simp: filter_map comp_def)
  have d: "distinct ks \<Longrightarrow> filter (\<lambda>j. j = k) ks = (if k \<in> set ks then [k] else [])" for ks :: "string list"
    by (induction ks) auto
  have z: "k \<notin> ID ` set defs \<Longrightarrow> UpstreamOf (def_at defs k) = []"
    using find_None_iff [of "\<lambda>d. ID d = k" "rev defs"] by (auto simp: def_at_def zero_def_def)
  show ?thesis unfolding edges_from_def parents_def f d [OF distinct_remdups] using z by simp
qed

lemma parents_iff: "(t, u, c) \<in> set (parents defs) \<longleftrightarrow> (\<exists>x\<in>set (UpstreamOf (def_at defs t)). From x = u \<and> Condition x = c)"
proof -
  have "(t, u, c) \<in> set (parents defs) \<longleftrightarrow> (t, u, c) \<in> set (edges_from (parents defs) t)" by (simp add: edges_from_def)
  then show ?thesis unfolding edges_from_parents by auto
qed

lemma successors_iff: "(t, u, c) \<in> set (successors defs) \<longleftrightarrow>
    (\<exists>d\<in>set defs. ID d = u \<and> (\<exists>x\<in>set (UpstreamOf d). From x = t \<and> Condition x = c))"
  by (auto simp: successors_def)

section \<open>The climb\<close>

lemma climb_search:
  "length q + unseen g vis \<le> left \<Longrightarrow> climb g failed left vis q =
     (q @ queued (search g (\<lambda>t _. failed t) (\<lambda>_. True) vis q), search g (\<lambda>t _. failed t) (\<lambda>_. True) vis q)"
proof (induction left arbitrary: vis q)
  case 0
  then show ?case by (simp add: search.simps)
next
  case (Suc left)
  show ?case
  proof (cases q)
    case Nil
    then show ?thesis by (simp add: search.simps)
  next
    case (Cons x p)
    obtain j n where x: "x = (j, n)" by force
    obtain fs vis' where s: "scan_edges (\<lambda>t _. failed t) n (edges_from g j) vis = (fs, vis')" by force
    have "length fs + unseen g vis' = unseen g vis"
      using scan_unseen [of "edges_from g j" g "\<lambda>t _. failed t" n vis] s by (simp add: edges_from_def)
    then have "length (p @ queued fs) + unseen g vis' \<le> left" using Suc.prems by (simp add: Cons queued_def)
    from Suc.IH [OF this] show ?thesis using s by (simp add: Cons x search.simps)
  qed
qed

lemma unseen_bound: "unseen g vis \<le> card ((fst \<circ> snd) ` set g)"
  by (simp add: unseen_def card_mono)

text \<open>Going back by \<open>parentOf\<close> ends: every step is one nearer to the start.\<close>

lemma path_back_ends:
  assumes "\<And>f. f \<in> set fs \<Longrightarrow> FnId f \<noteq> [] \<and> 0 < FnDepth f \<and>
      (FnFrom f \<in> starts \<or> (\<exists>h\<in>set fs. FnId h = FnFrom f \<and> FnDepth h < FnDepth f))"
    and "distinct (map FnId fs)" "starts \<inter> FnId ` set fs = {}" "[] \<notin> starts"
  shows "k \<in> starts \<Longrightarrow> path_back fs acc k = Some (k # acc)"
    and "f \<in> set fs \<Longrightarrow> \<exists>j ys. j \<in> starts \<and> path_back fs acc (FnId f) = Some (j # ys @ FnId f # acc)"
proof -
  have st: "path_back fs acc k = Some (k # acc)" if "k \<in> starts" for k acc
  proof -
    have "parent_of fs k = []" using assms(3) that by (auto simp: parent_of_def row_of_None split: option.split dest: row_of_SomeD)
    then show ?thesis using assms(4) that by (subst path_back.simps) (auto simp: path_back.simps [of _ _ "[]"])
  qed
  show "k \<in> starts \<Longrightarrow> path_back fs acc k = Some (k # acc)" by (rule st)
  show "f \<in> set fs \<Longrightarrow> \<exists>j ys. j \<in> starts \<and> path_back fs acc (FnId f) = Some (j # ys @ FnId f # acc)"
  proof (induction "FnDepth f" arbitrary: f acc rule: less_induct)
    case less
    have "row_of FnId (FnId f) fs = Some f"
      using row_of_in_set [of FnId fs f] assms(2) less.prems by (simp add: keys_distinct_def)
    then have p: "parent_of fs (FnId f) = FnFrom f" by (simp add: parent_of_def)
    have u: "path_back fs acc (FnId f) = path_back fs (FnId f # acc) (FnFrom f)"
      using assms(1) [OF less.prems] by (subst path_back.simps) (simp add: p)
    from assms(1) [OF less.prems] consider "FnFrom f \<in> starts" | h where "h \<in> set fs" "FnId h = FnFrom f" "FnDepth h < FnDepth f" by blast
    then show ?case
    proof cases
      case 1
      then show ?thesis using st [OF 1, of "FnId f # acc"] u by (intro exI [of _ "FnFrom f"] exI [of _ "[]"]) simp
    next
      case 2
      obtain j ys where "j \<in> starts" "path_back fs (FnId f # acc) (FnId h) = Some (j # ys @ FnId h # FnId f # acc)"
        using less.hyps [OF 2(3) 2(1), of "FnId f # acc"] by blast
      then show ?thesis using u 2(2) by (intro exI [of _ j] exI [of _ "ys @ [FnId h]"]) simp
    qed
  qed
qed

text \<open>The climb from where the analysis starts, \<open>failed\<close> for the jobs it passes.\<close>

lemma rca_level:
  "breadth_first.level (parents defs) (\<lambda>t _. isFailed (status t)) (\<lambda>_. True) target
     (if isFailed (status target) then {} else {(target, 0)})
     (map fst (rca_start defs status target)) (rca_start defs status target)"
proof (cases "isFailed (status target)")
  case True
  then show ?thesis
    by (auto simp: everywhere.level_def rca_start_def distance_def intro: walk.here)
next
  case False
  let ?ok = "\<lambda>t (_ :: string). isFailed (status t)"
  let ?q = "rca_start defs status target"
  have q: "(t, n) \<in> set ?q \<longleftrightarrow> n = 1 \<and> isFailed (status t) \<and> (\<exists>c. (target, t, c) \<in> set (parents defs))" for t n
    using False by (auto simp: rca_start_def parents_iff)
  have one: "snd x = 1" if "x \<in> set ?q" for x using that q [of "fst x" "snd x"] by simp
  have d: "distance (parents defs) ?ok target 1 t" if "(t, n) \<in> set ?q" for t n
  proof -
    from q [of t n] that obtain c where c: "isFailed (status t)" "(target, t, c) \<in> set (parents defs)" by blast
    have "walk (parents defs) ?ok target (Suc 0) t" by (rule walk.further [OF walk.here c(2)]) (use c in simp)
    then show ?thesis using c(1) False by (auto simp: distance_def walk_0)
  qed
  show ?thesis
    unfolding everywhere.level_def
  proof (intro conjI)
    show "(target, 0) \<in> (if isFailed (status target) then {} else {(target, 0)}) \<union> set ?q" using False by simp
    show "\<forall>(t, n)\<in>(if isFailed (status target) then {} else {(target, 0)}) \<union> set ?q. distance (parents defs) ?ok target n t"
      using False q d by (auto simp: distance_def intro: walk.here)
    show "\<forall>(t, n)\<in>(if isFailed (status target) then {} else {(target, 0)}). True \<longrightarrow>
        (\<forall>t' c. (t, t', c) \<in> set (parents defs) \<longrightarrow> ?ok t' c \<longrightarrow>
          t' \<in> fst ` ((if isFailed (status target) then {} else {(target, 0)}) \<union> set ?q))"
    proof (intro ballI, clarify)
      fix t m t' c assume "(t, m) \<in> (if isFailed (status target) then {} else {(target, 0)})" "(t, t', c) \<in> set (parents defs)" "?ok t' c"
      then have "(t', 1) \<in> set ?q" using False q [of t' 1] by auto
      then show "t' \<in> fst ` ((if isFailed (status target) then {} else {(target, 0)}) \<union> set ?q)" by (intro image_eqI [of _ _ "(t', 1)"]) auto
    qed
    show "\<forall>t c. ?ok t c \<longrightarrow> (t \<in> set (map fst ?q) \<longleftrightarrow>
        t \<in> fst ` ((if isFailed (status target) then {} else {(target, 0)}) \<union> set ?q))" using False by auto
    have "map snd ?q = map (\<lambda>_. 1) ?q" using one by simp
    then show "sorted (map snd ?q)" by (simp add: map_replicate_const)
    show "\<forall>x\<in>set ?q. snd x \<le> Suc (snd (hd ?q))" using one by auto
  qed
qed

lemma climb_taken:
  assumes "climb (parents defs) (\<lambda>t. isFailed (status t)) rcaMaxVisit (map fst (rca_start defs status target))
      (rca_start defs status target) = (taken, fs)"
    and "length (rca_start defs status target) + card ((fst \<circ> snd) ` set (parents defs)) \<le> rcaMaxVisit"
  shows "(t, n) \<in> set taken \<longleftrightarrow> isFailed (status t) \<and> distance (parents defs) (\<lambda>t _. isFailed (status t)) target n t"
    and "everywhere.exact (parents defs) (\<lambda>t _. isFailed (status t)) target (if isFailed (status target) then {} else {(target, 0)})
      (map fst (rca_start defs status target)) (rca_start defs status target) fs"
proof -
  let ?q = "rca_start defs status target" and ?g = "parents defs" and ?ok = "\<lambda>t (_ :: string). isFailed (status t)"
  have "length ?q + unseen ?g (map fst ?q) \<le> rcaMaxVisit" using assms(2) unseen_bound [of ?g "map fst ?q"] by simp
  from climb_search [OF this, of "\<lambda>t. isFailed (status t)"] assms(1)
  have t: "taken = ?q @ queued fs" "fs = search ?g ?ok (\<lambda>_. True) (map fst ?q) ?q" by auto
  show e: "everywhere.exact ?g ?ok target (if isFailed (status target) then {} else {(target, 0)}) (map fst ?q) ?q fs"
    unfolding t(2) by (rule everywhere.search_exact [OF rca_level])
  show "(t, n) \<in> set taken \<longleftrightarrow> isFailed (status t) \<and> distance ?g ?ok target n t"
  proof
    assume "(t, n) \<in> set taken"
    then consider "(t, n) \<in> set ?q" | f where "f \<in> set fs" "t = FnId f" "n = FnDepth f" by (auto simp: t(1) queued_def)
    then show "isFailed (status t) \<and> distance ?g ?ok target n t"
    proof cases
      case 1
      have "isFailed (status t)" using 1 by (auto simp: rca_start_def split: if_splits)
      moreover have "distance ?g ?ok target n t" by (rule everywhere.levelD(2) [OF rca_level]) (use 1 in blast)
      ultimately show ?thesis by simp
    next
      case 2
      then show ?thesis using e by (auto simp: everywhere.exact_def)
    qed
  next
    assume a: "isFailed (status t) \<and> distance ?g ?ok target n t"
    then have "(t, n) \<in> (if isFailed (status target) then {} else {(target, 0)}) \<union> set ?q \<union> set (queued fs)"
      using e by (auto simp: everywhere.exact_def)
    then show "(t, n) \<in> set taken" using a by (auto simp: t(1) split: if_splits)
  qed
qed

lemma rca_chain:
  assumes "climb (parents defs) (\<lambda>t. isFailed (status t)) rcaMaxVisit (map fst (rca_start defs status target))
      (rca_start defs status target) = (taken, fs)"
    and "length (rca_start defs status target) + card ((fst \<circ> snd) ` set (parents defs)) \<le> rcaMaxVisit"
    and "[] \<notin> (fst \<circ> snd) ` set (parents defs)" "target \<noteq> []" "(t, n) \<in> set taken"
  shows "\<exists>j ys. j \<in> fst ` set (rca_start defs status target) \<and> path_back fs [] t = Some (j # ys)"
proof -
  let ?q = "rca_start defs status target" and ?g = "parents defs" and ?ok = "\<lambda>t (_ :: string). isFailed (status t)"
  let ?T = "if isFailed (status target) then {} else {(target, 0::nat)}"
  have e: "f \<in> set fs \<Longrightarrow> (FnFrom f, FnId f, FnCond f) \<in> set ?g \<and> isFailed (status (FnId f)) \<and> FnId f \<notin> fst ` set ?q \<and>
      0 < FnDepth f \<and> (FnFrom f, FnDepth f - 1) \<in> ?T \<union> set ?q \<union> set (queued fs)" "distinct (map FnId fs)" for f
    using climb_taken(2) [OF assms(1,2)] by (auto simp: everywhere.exact_def)
  have "length ?q + unseen ?g (map fst ?q) \<le> rcaMaxVisit" using assms(2) unseen_bound [of ?g "map fst ?q"] by simp
  from climb_search [OF this, of "\<lambda>t. isFailed (status t)"] assms(1) have tk: "taken = ?q @ queued fs" by auto
  have names: "u \<noteq> []" if "(x, u, c) \<in> set ?g" for x u c using assms(3) that by (force simp: image_iff)
  have ends: "[] \<notin> fst ` set ?q"
  proof
    assume "[] \<in> fst ` set ?q"
    then obtain u where "u \<in> set (UpstreamOf (def_at defs target))" "From u = []"
      using assms(4) by (auto simp: rca_start_def split: if_splits)
    then have "(target, [], Condition u) \<in> set ?g" unfolding parents_iff by blast
    then show False using names by blast
  qed
  have prev: "FnId f \<noteq> [] \<and> 0 < FnDepth f \<and>
      (FnFrom f \<in> fst ` set ?q \<or> (\<exists>h\<in>set fs. FnId h = FnFrom f \<and> FnDepth h < FnDepth f))" if f: "f \<in> set fs" for f
  proof -
    have "(FnFrom f, FnDepth f - 1) \<notin> ?T"
    proof
      assume "(FnFrom f, FnDepth f - 1) \<in> ?T"
      then have "\<not> isFailed (status target)" "FnFrom f = target" by (auto split: if_splits)
      moreover from this obtain u where "u \<in> set (UpstreamOf (def_at defs target))" "From u = FnId f"
        using e(1) [OF f] by (auto simp: parents_iff)
      ultimately have "(From u, 1) \<in> set ?q" "From u = FnId f"
        using e(1) [OF f] unfolding rca_start_def by (simp_all add: rev_image_eqI [of u])
      then have "FnId f \<in> fst ` set ?q" by force
      then show False using e(1) [OF f] by blast
    qed
    then have "(FnFrom f, FnDepth f - 1) \<in> set ?q \<union> set (queued fs)" using e(1) [OF f] by blast
    moreover have "FnId f \<noteq> []" "0 < FnDepth f" using e(1) [OF f] names by blast+
    ultimately show ?thesis by (force simp: queued_def image_iff)
  qed
  note way = path_back_ends [OF prev e(2) _ ends]
  have dj: "fst ` set ?q \<inter> FnId ` set fs = {}"
  proof (rule equals0I)
    fix y assume y: "y \<in> fst ` set ?q \<inter> FnId ` set fs"
    then obtain f where f: "f \<in> set fs" "y = FnId f" by auto
    then have "FnId f \<in> fst ` set ?q" using y by simp
    then show False using e(1) [OF f(1)] by simp
  qed
  from assms(5) consider "t \<in> fst ` set ?q" | f where "f \<in> set fs" "t = FnId f" by (force simp: tk queued_def image_iff)
  then show ?thesis
  proof cases
    case 1
    then show ?thesis using way(1) [OF _ dj 1, of "[]"] by blast
  next
    case 2
    then show ?thesis using way(2) [OF _ dj 2(1), of "[]"] by blast
  qed
qed

lemma cause_of_simps [simp]: "RcDef (cause_of defs status p) = fst p" "RcDepth (cause_of defs status p) = snd p"
  by (simp_all add: cause_of_def Let_def)

lemma put_causes:
  assumes "\<And>t m n. (t, m) \<in> set ps \<Longrightarrow> (t, n) \<in> set ps \<Longrightarrow> m = n"
  shows "set (fold (put_cause defs status) ps []) = cause_of defs status ` set ps"
  using assms
proof (induction ps rule: rev_induct)
  case Nil
  then show ?case by simp
next
  case (snoc p ps)
  let ?c = "cause_of defs status" and ?rs = "fold (put_cause defs status) ps []"
  have IH: "set ?rs = ?c ` set ps" by (rule snoc.IH) (use snoc.prems in \<open>auto\<close>)
  have same: "x = ?c p" if "x \<in> set ?rs" "RcDef x = fst p" for x
    using that snoc.prems [of "fst p" _ "snd p"] unfolding IH by force
  show ?case
  proof (cases "row_of RcDef (fst p) ?rs")
    case None
    then show ?thesis using IH by (simp add: put_cause_def [of defs status p])
  next
    case (Some x)
    then have x: "?c p \<in> set ?rs" using same row_of_SomeD [OF Some] by metis
    have "set (update_where (\<lambda>x. RcDef x = fst p) (\<lambda>_. ?c p) ?rs) = (\<lambda>r. r) ` set ?rs"
      unfolding set_update_where by (rule image_cong) (use same in auto)
    then show ?thesis using Some IH x by (auto simp: put_cause_def [of defs status p])
  qed
qed

section \<open>An example\<close>

text \<open>\<open>A\<close> is needed by \<open>B\<close>, \<open>B\<close> by \<open>C\<close>, and by \<open>D\<close> in any case.  \<open>A\<close> has one status, the others another.\<close>

definition job_after :: "string \<Rightarrow> Upstream list \<Rightarrow> JobDefinition" where
  "job_after k us = zero_def\<lparr>ID := k, Team := ''T'', UpstreamOf := us\<rparr>"

definition edge_to :: "string \<Rightarrow> EdgeCondition \<Rightarrow> Upstream" where
  "edge_to k c = \<lparr>From = k, Condition = c, DateRefOf = []\<rparr>"

definition four_jobs :: "JobDefinition list" where
  "four_jobs = [job_after ''A'' [], job_after ''B'' [edge_to ''A'' CondOnSuccess], job_after ''C'' [edge_to ''B'' CondOnSuccess],
     job_after ''D'' [edge_to ''B'' CondAlways]]"

definition four_rows :: "InstanceStatus \<Rightarrow> InstanceStatus \<Rightarrow> Instance list" where
  "four_rows st st' =
     map (\<lambda>(k, x). (forced_instance k (job_after k []) ''2026-07-01'' 0)\<lparr>IStatus := x\<rparr>)
       [(''A'', st), (''B'', st'), (''C'', st'), (''D'', st')]"

section \<open>Properties\<close>

text \<open>C39. The blast radius is exact.  The jobs it lists are those that wait or are held on the date and that
  a chain of dependencies which are not \<open>always\<close>, through jobs that wait or are held, joins to the
  target, each once and with the length of the shortest chain; the counters count all of them, the list
  shows the first 500.\<close>

theorem blast_radius_exact:
  assumes "BlastRadius defs rows k = Some b" "row_of IId k rows = Some i"
  shows "\<exists>nodes. BrDownstream b = take 500 nodes \<and> distinct (map BnDef nodes) \<and> BcDownstream (BrCounts b) = length nodes \<and>
    (\<forall>t n. (\<exists>x\<in>set nodes. BnDef x = t \<and> BnDepth x = n) \<longleftrightarrow>
      0 < n \<and> distance (successors defs) (stopped_by (defInstanceStatus rows (IOrderDate i))) (IDefID i) n t) \<and>
    BcSLAAtRisk (BrCounts b) = length (filter (\<lambda>x. SLA (def_at defs (BnDef x)) \<noteq> None) nodes) \<and>
    (BrTruncated b \<longleftrightarrow> 500 < length nodes)"
proof -
  define fs where "fs = search (successors defs) (stopped_by (defInstanceStatus rows (IOrderDate i))) (\<lambda>_. True) [IDefID i] [(IDefID i, 0)]"
  define nodes where "nodes = map (blast_node defs (defInstanceStatus rows (IOrderDate i))) fs"
  have b: "BrDownstream b = take 500 nodes" "BcDownstream (BrCounts b) = length nodes" "BcSLAAtRisk (BrCounts b) = length (filter BnSLA nodes)"
    "BrTruncated b \<longleftrightarrow> 500 < length nodes"
    using assms by (auto simp: BlastRadius_def Let_def nodes_def fs_def blastDetailCap_def)
  have n: "map BnDef nodes = map FnId fs" "\<And>x. x \<in> set nodes \<Longrightarrow> BnSLA x \<longleftrightarrow> SLA (def_at defs (BnDef x)) \<noteq> None"
    by (auto simp: nodes_def blast_node_def Let_def)
  have "(\<exists>x\<in>set nodes. BnDef x = t \<and> BnDepth x = n) \<longleftrightarrow> (t, n) \<in> set (queued fs)" for t n
    by (auto simp: nodes_def blast_node_def Let_def queued_def image_iff)
  moreover have "filter BnSLA nodes = filter (\<lambda>x. SLA (def_at defs (BnDef x)) \<noteq> None) nodes" using n(2) by (auto intro: filter_cong)
  moreover have "distinct (map BnDef nodes)" unfolding n(1) fs_def by (rule everywhere.found_once)
  ultimately show ?thesis using b by (intro exI [of _ nodes]) (simp add: fs_def everywhere.found_iff)
qed

lemma blast_radius_exact_witness:
  "case BlastRadius four_jobs (four_rows StatusRunning StatusWaiting) ''A'' of None \<Rightarrow> False
   | Some b \<Rightarrow> map (\<lambda>x. (BnDef x, BnDepth x)) (BrDownstream b) = [(''B'', 1), (''C'', 2)] \<and> distinct (map BnDef (BrDownstream b))"
proof -
  let ?rows = "four_rows StatusRunning StatusWaiting"
  have "map_option (\<lambda>b. map (\<lambda>x. (BnDef x, BnDepth x)) (BrDownstream b)) (BlastRadius four_jobs ?rows ''A'')
      = Some [(''B'', 1), (''C'', 2)]"
    by code_simp
  then obtain b where b: "BlastRadius four_jobs ?rows ''A'' = Some b" "map (\<lambda>x. (BnDef x, BnDepth x)) (BrDownstream b) = [(''B'', 1), (''C'', 2)]"
    by auto
  have "row_of IId ''A'' ?rows = Some (hd ?rows)" by code_simp
  from blast_radius_exact [OF b(1) this] show ?thesis using b by (auto simp: distinct_take simp flip: take_map)
qed

text \<open>The neighbourhood is exact.  Upstream and downstream it lists the jobs within the radius, which is
  cut to the range 1 to 4, each once and with its distance along the dependencies.\<close>

theorem neighborhood_exact:
  assumes "Neighborhood defs rows k radius = Some nb" "row_of IId k rows = Some i" "\<not> NbTruncated nb"
  shows "1 \<le> NbRadius nb \<and> NbRadius nb \<le> 4 \<and> (1 \<le> radius \<and> radius \<le> 4 \<longrightarrow> NbRadius nb = radius) \<and>
    distinct (map NnDef (NbUpstream nb)) \<and> distinct (map NnDef (NbDownstream nb)) \<and>
    (\<forall>t n. (\<exists>x\<in>set (NbUpstream nb). NnDef x = t \<and> NnDepth x = n) \<longleftrightarrow>
      0 < n \<and> int n \<le> NbRadius nb \<and> distance (parents defs) (\<lambda>_ _. True) (IDefID i) n t) \<and>
    (\<forall>t n. (\<exists>x\<in>set (NbDownstream nb). NnDef x = t \<and> NnDepth x = n) \<longleftrightarrow>
      0 < n \<and> int n \<le> NbRadius nb \<and> distance (successors defs) (\<lambda>_ _. True) (IDefID i) n t)"
proof -
  define r where "r = clamp_radius radius"
  let ?node = "neighbor_node defs (defInstanceStatus rows (IOrderDate i)) (IDefID i)"
  have nb: "NbRadius nb = r" "NbUpstream nb = map ?node (around (parents defs) (IDefID i) r)"
    "NbDownstream nb = map ?node (around (successors defs) (IDefID i) r)"
    using assms by (auto simp: Neighborhood_def Let_def r_def)
  have ids: "map NnDef (map ?node (around g (IDefID i) r)) = map FnId (around g (IDefID i) r)" for g
    by (simp add: neighbor_node_def)
  have sp: "(\<exists>x\<in>set (map ?node (around g (IDefID i) r)). NnDef x = t \<and> NnDepth x = n) \<longleftrightarrow>
      0 < n \<and> int n \<le> r \<and> distance g (\<lambda>_ _. True) (IDefID i) n t" for g t n
  proof -
    have "(\<exists>x\<in>set (map ?node (around g (IDefID i) r)). NnDef x = t \<and> NnDepth x = n) \<longleftrightarrow> (t, n) \<in> set (queued (around g (IDefID i) r))"
      by (auto simp: neighbor_node_def queued_def image_iff)
    also have "\<dots> \<longleftrightarrow> 0 < n \<and> int (n - 1) < r \<and> distance g (\<lambda>_ _. True) (IDefID i) n t"
      unfolding around_def by (rule nearby.found_iff)
    finally show ?thesis by auto
  qed
  have d: "distinct (map FnId (around g (IDefID i) r))" for g unfolding around_def by (rule nearby.found_once)
  have "1 \<le> r \<and> r \<le> 4 \<and> (1 \<le> radius \<and> radius \<le> 4 \<longrightarrow> r = radius)" by (simp add: r_def clamp_radius_def neighborhoodMaxRadius_def)
  then show ?thesis unfolding nb ids sp by (simp add: d)
qed

lemma neighborhood_exact_witness:
  "case Neighborhood four_jobs (four_rows StatusRunning StatusWaiting) ''B'' 9 of None \<Rightarrow> False
   | Some nb \<Rightarrow> map NnDef (NbUpstream nb) = [''A''] \<and> map NnDef (NbDownstream nb) = [''C'', ''D''] \<and> NbRadius nb \<le> 4"
proof -
  let ?rows = "four_rows StatusRunning StatusWaiting"
  have "map_option (\<lambda>nb. (map NnDef (NbUpstream nb), map NnDef (NbDownstream nb), NbTruncated nb)) (Neighborhood four_jobs ?rows ''B'' 9)
      = Some ([''A''], [''C'', ''D''], False)"
    by code_simp
  then obtain nb where nb: "Neighborhood four_jobs ?rows ''B'' 9 = Some nb" "map NnDef (NbUpstream nb) = [''A'']"
    "map NnDef (NbDownstream nb) = [''C'', ''D'']" "\<not> NbTruncated nb"
    by auto
  have "row_of IId ''B'' ?rows = Some (?rows ! 1)" by code_simp
  from neighborhood_exact [OF nb(1) this nb(4)] show ?thesis using nb by simp
qed

text \<open>C15. The root causes are exact.  As long as the graph is within the limit of the search, the analysis
  finds a job as a root exactly when it failed, no job it depends on failed, and a chain of failed jobs
  joins it to the target; the distance it reports is that of the shortest chain and the list goes from
  the farthest root to the nearest.  It always ends, and finds none only when there is none (every
  failed job then depends on another failed one).\<close>

theorem root_causes_exact:
  assumes "row_of IId k rows = Some i" "isFailed (rca_status rows i (IDefID i)) \<or> hasFailedParent defs (rca_status rows i) (IDefID i)"
    and "length (UpstreamOf (def_at defs (IDefID i))) + card ((fst \<circ> snd) ` set (parents defs)) < 2000" "[] \<notin> (fst \<circ> snd) ` set (parents defs)"
    and "IDefID i \<noteq> []"
  shows "\<exists>rs. (RCA defs rows k = Some NoRoot \<and> rs = [] \<or> (\<exists>chain. rs \<noteq> [] \<and> RCA defs rows k = Some (Roots rs chain))) \<and>
    sorted_wrt (\<lambda>r r'. RcDepth r' \<le> RcDepth r) rs \<and>
    (\<forall>t n. (\<exists>r\<in>set rs. RcDef r = t \<and> RcDepth r = n) \<longleftrightarrow>
      isFailed (rca_status rows i t) \<and> \<not> hasFailedParent defs (rca_status rows i) t \<and>
      distance (parents defs) (\<lambda>t _. isFailed (rca_status rows i t)) (IDefID i) n t)"
proof -
  let ?st = "rca_status rows i" and ?t = "IDefID i" and ?g = "parents defs"
  let ?ok = "\<lambda>t (_ :: string). isFailed (?st t)" and ?q = "rca_start defs ?st ?t"
  have "length ?q \<le> Suc (length (UpstreamOf (def_at defs ?t)))" by (simp add: rca_start_def le_SucI)
  then have len: "length ?q + card ((fst \<circ> snd) ` set ?g) \<le> rcaMaxVisit" using assms(3) by (simp add: rcaMaxVisit_def)
  obtain taken fs where c: "climb ?g (\<lambda>t. isFailed (?st t)) rcaMaxVisit (map fst ?q) ?q = (taken, fs)" by force
  note tk = climb_taken(1) [OF c len]
  let ?ps = "filter (\<lambda>p. \<not> hasFailedParent defs ?st (fst p)) taken"
  have uniq: "m = n" if "(t, m) \<in> set ?ps" "(t, n) \<in> set ?ps" for t m n
    using that distance_unique [of ?g ?ok ?t m t n] by (auto simp: tk)
  define rs where "rs = sort_key (\<lambda>r. - int (RcDepth r)) (fold (put_cause defs ?st) ?ps [])"
  have "set rs = cause_of defs ?st ` set ?ps"
    unfolding rs_def set_sort by (rule put_causes) (rule uniq)
  then have mem: "(\<exists>r\<in>set rs. RcDef r = t \<and> RcDepth r = n) \<longleftrightarrow> (t, n) \<in> set ?ps" for t n by force
  have sorted: "sorted_wrt (\<lambda>r r'. RcDepth r' \<le> RcDepth r) rs"
    using sorted_sort_key [of "\<lambda>r. - int (RcDepth r)" "fold (put_cause defs ?st) ?ps []"]
    by (simp add: rs_def sorted_map flip: sorted_wrt_map)
  have run: "RCA defs rows k = (case rs of [] \<Rightarrow> Some NoRoot
      | r # _ \<Rightarrow> map_option (\<lambda>chain. Roots rs (if RcDef r \<noteq> ?t then ?t # chain else chain)) (path_back fs [] (RcDef r)))"
    using assms(1,2) c by (auto simp: RCA_def Let_def cong: list.case_cong simp flip: rs_def)
  have "\<exists>chain. RCA defs rows k = Some (Roots rs chain)" if ne: "rs \<noteq> []"
  proof -
    obtain r rs' where r: "rs = r # rs'" using ne by (cases rs) auto
    then have "(RcDef r, RcDepth r) \<in> set taken" using mem [of "RcDef r" "RcDepth r"] by auto
    from rca_chain [OF c len assms(4,5) this] show ?thesis using run r by auto
  qed
  then show ?thesis using run sorted by (intro exI [of _ rs]) (auto simp: mem tk split: list.split)
qed

lemma root_causes_exact_witness:
  "case RCA four_jobs (four_rows StatusCancelled StatusNotOK) ''C'' of
     Some (Roots rs chain) \<Rightarrow> map RcDef rs = [''A''] \<and> sorted_wrt (\<lambda>r r'. RcDepth r' \<le> RcDepth r) rs | _ \<Rightarrow> False"
proof -
  let ?rows = "four_rows StatusCancelled StatusNotOK"
  have i: "row_of IId ''C'' ?rows = Some (?rows ! 2)" by code_simp
  have p: "isFailed (rca_status ?rows (?rows ! 2) (IDefID (?rows ! 2)))" "IDefID (?rows ! 2) \<noteq> []"
    "length (UpstreamOf (def_at four_jobs (IDefID (?rows ! 2)))) = 1"
    by code_simp+
  have "set (map (fst \<circ> snd) (parents four_jobs)) = {''A'', ''B''}" by code_simp
  then have g: "(fst \<circ> snd) ` set (parents four_jobs) = {''A'', ''B''}" by simp
  have r: "case RCA four_jobs ?rows ''C'' of Some (Roots rs chain) \<Rightarrow> map RcDef rs = [''A''] | _ \<Rightarrow> False" by code_simp
  from root_causes_exact [OF i disjI1, OF p(1) _ _ p(2), of four_jobs] show ?thesis using r
    by (auto simp: g [unfolded comp_def] p(3) comp_def split: option.splits RCAReport.splits)
qed

section \<open>What the code does not do\<close>

text \<open>
  The chain that is shown starts with the target twice when the target itself failed: the path back
  from a root already ends at the target, and the target is put in front of it again.
\<close>

lemma failed_chain_repeats_target:
  assumes "RCA defs rows k = Some (Roots (r # rs) chain)" "row_of IId k rows = Some i" "isFailed (rca_status rows i (IDefID i))"
    and "RcDef r \<noteq> IDefID i" "1 + card ((fst \<circ> snd) ` set (parents defs)) \<le> 2000"
    and "[] \<notin> (fst \<circ> snd) ` set (parents defs)" "IDefID i \<noteq> []"
  shows "\<exists>ys. chain = IDefID i # IDefID i # ys"
proof -
  let ?st = "rca_status rows i" and ?t = "IDefID i" and ?g = "parents defs"
  let ?q = "rca_start defs ?st ?t"
  obtain taken fs where c: "climb ?g (\<lambda>t. isFailed (?st t)) rcaMaxVisit (map fst ?q) ?q = (taken, fs)" by force
  have q: "?q = [(?t, 0)]" using assms(3) by (simp add: rca_start_def)
  let ?ps = "filter (\<lambda>p. \<not> hasFailedParent defs ?st (fst p)) taken"
  let ?rs = "sort_key (\<lambda>r. - int (RcDepth r)) (fold (put_cause defs ?st) ?ps [])"
  have "(case ?rs of [] \<Rightarrow> Some NoRoot
      | r # _ \<Rightarrow> map_option (\<lambda>chain. Roots ?rs (if RcDef r \<noteq> ?t then ?t # chain else chain)) (path_back fs [] (RcDef r)))
      = Some (Roots (r # rs) chain)"
    using assms(1-3) c by (auto simp: RCA_def Let_def)
  then obtain ch where r: "?rs = r # rs" and ch: "path_back fs [] (RcDef r) = Some ch" "chain = ?t # ch"
    using assms(4) by (auto split: list.splits simp: map_option_eq_Some)
  have "fst p \<in> P \<Longrightarrow> RcDef ` set rs \<subseteq> P \<Longrightarrow> RcDef ` set (put_cause defs ?st p rs) \<subseteq> P" for p rs P
    by (auto simp: put_cause_def Let_def set_update_where)
  then have "fst ` set ps \<subseteq> P \<Longrightarrow> RcDef ` set rs \<subseteq> P \<Longrightarrow> RcDef ` set (fold (put_cause defs ?st) ps rs) \<subseteq> P" for ps rs P
    by (induction ps arbitrary: rs) simp_all
  from this [of ?ps "fst ` set ?ps" "[]"] have sub: "RcDef ` set (fold (put_cause defs ?st) ?ps []) \<subseteq> fst ` set ?ps" by simp
  have "r \<in> set ?rs" unfolding r by simp
  then have "r \<in> set (fold (put_cause defs ?st) ?ps [])" unfolding set_sort .
  then have "RcDef r \<in> fst ` set ?ps" using sub by (rule subsetD [OF _ imageI, rotated])
  then obtain n where "(RcDef r, n) \<in> set taken" by force
  from rca_chain [OF c _ assms(6,7) this] show ?thesis using assms(5) ch by (auto simp: q rcaMaxVisit_def)
qed

end
