(* ===== verification/Json.thy ===== *)
theory Json
  imports Utf8 Actions
begin

text \<open>
  Go's \<open>encoding/json\<close> for the values the audit trail writes: strings, integers, arrays and objects with
  their fields in the order of the struct.  A valid string is recovered from what is written of it
  (\<open>json_str_inj\<close>); bytes that are no part of a rune are all written as one escape.
\<close>

section \<open>Strings\<close>

definition hex_digit :: "nat \<Rightarrow> char" where
  "hex_digit n = char_of (if n < 10 then 48 + n else 87 + n)"

definition escape :: "string \<Rightarrow> string" where
  "escape s = CHR 0x5C # s"

text \<open>One byte below 128, with the characters of HTML escaped.\<close>

definition json_ascii :: "char \<Rightarrow> string" where
  "json_ascii c =
     (let n = of_char c :: nat in
      if n = 34 \<or> n = 92 then escape [c]
      else if n = 8 then escape ''b'' else if n = 12 then escape ''f''
      else if n = 10 then escape ''n'' else if n = 13 then escape ''r'' else if n = 9 then escape ''t''
      else if n < 32 \<or> n = 38 \<or> n = 60 \<or> n = 62 then escape (''u00'' @ [hex_digit (n div 16), hex_digit (n mod 16)])
      else [c])"

text \<open>What a rune of several bytes becomes: the two line separators are escaped.\<close>

definition json_rune :: "string \<Rightarrow> string" where
  "json_rune r =
     (if r = [CHR 0xE2, CHR 0x80, CHR 0xA8] then escape ''u2028''
      else if r = [CHR 0xE2, CHR 0x80, CHR 0xA9] then escape ''u2029'' else r)"

function json_body :: "string \<Rightarrow> string" where
  "json_body [] = []"
| "json_body (c # cs) =
     (case rune_width (c # cs) of
        None \<Rightarrow> escape ''ufffd'' @ json_body cs
      | Some n \<Rightarrow> (if n = 1 then json_ascii c else json_rune (take n (c # cs))) @ json_body (drop n (c # cs)))"
  by pat_completeness auto
termination
  by (relation "measure length") (auto simp del: rune_width.simps dest!: rune_width_bounds)

declare json_body.simps [simp del]

definition json_str :: "string \<Rightarrow> string" where
  "json_str s = CHR 0x22 # json_body s @ [CHR 0x22]"

section \<open>Objects and arrays\<close>

definition json_field :: "string \<times> string \<Rightarrow> string" where
  "json_field kv = json_str (fst kv) @ '':'' @ snd kv"

definition json_obj :: "(string \<times> string) list \<Rightarrow> string" where
  "json_obj kvs = ''{'' @ join_with '','' (map json_field kvs) @ ''}''"

definition json_arr :: "string list \<Rightarrow> string" where
  "json_arr vs = ''['' @ join_with '','' vs @ '']''"

text \<open>A field with \<open>omitempty\<close>.\<close>

definition json_opt :: "string \<Rightarrow> string \<Rightarrow> (string \<times> string) list" where
  "json_opt k s = (if s = [] then [] else [(k, json_str s)])"

section \<open>Facts\<close>

lemma rune_width_ascii: "rune_width (c # cs) = Some 1 \<longleftrightarrow> byte_in 0 127 c"
  by (cases cs rule: three_bytes) auto

text \<open>Reading one rune back, and what follows it; None is the escape of a bad byte.\<close>

definition unhex :: "char \<Rightarrow> nat" where
  "unhex c = (let n = of_char c :: nat in if n \<le> 57 then n - 48 else n - 87)"

definition unescape :: "string \<Rightarrow> (string \<times> string) option" where
  "unescape s =
     (case s of
        [] \<Rightarrow> None
      | c # u \<Rightarrow>
          if c = CHR ''u'' then
            (let h = take 4 u; u' = drop 4 u in
             if h = ''fffd'' then None
             else if h = ''2028'' then Some ([CHR 0xE2, CHR 0x80, CHR 0xA8], u')
             else if h = ''2029'' then Some ([CHR 0xE2, CHR 0x80, CHR 0xA9], u')
             else Some ([char_of (16 * unhex (h ! 2) + unhex (h ! 3))], u'))
          else Some ([if c = CHR ''b'' then CHR 0x08 else if c = CHR ''f'' then CHR 0x0C else if c = CHR ''n'' then CHR 0x0A
            else if c = CHR ''r'' then CHR 0x0D else if c = CHR ''t'' then CHR 0x09 else c], u))"

definition first_rune :: "string \<Rightarrow> (string \<times> string) option" where
  "first_rune s =
     (if s \<noteq> [] \<and> hd s = CHR 0x5C then unescape (tl s) else map_option (\<lambda>n. (take n s, drop n s)) (rune_width s))"

lemma unhex_digit [simp]: "n < 16 \<Longrightarrow> unhex (hex_digit n) = n"
  by (simp add: unhex_def hex_digit_def of_char_of)

lemma first_rune_ascii:
  assumes "byte_in 0 127 c"
  shows "first_rune (json_ascii c @ u) = Some ([c], u)"
proof -
  let ?n = "of_char c :: nat"
  have n: "?n < 128" using assms by (simp add: byte_in_def)
  have w: "rune_width (c # u) = Some 1" using assms by simp
  have ctl: "first_rune (escape (''u00'' @ [hex_digit (?n div 16), hex_digit (?n mod 16)]) @ u) = Some ([c], u)"
  proof -
    have "?n div 16 < 16" "?n mod 16 < 16" using n by auto
    then have "16 * unhex (hex_digit (?n div 16)) + unhex (hex_digit (?n mod 16)) = ?n" by simp
    then show ?thesis by (simp add: first_rune_def unescape_def escape_def)
  qed
  have special: "first_rune (json_ascii c @ u) = Some ([c], u)" if "?n \<in> {8, 9, 10, 12, 13, 34, 92}"
  proof -
    have "c = CHR 0x08 \<or> c = CHR 0x09 \<or> c = CHR 0x0A \<or> c = CHR 0x0C \<or> c = CHR 0x0D \<or> c = CHR 0x22 \<or> c = CHR 0x5C"
      using that by (auto simp flip: of_char_eq_iff [where 'a = nat])
    then show ?thesis
      by (elim disjE) (simp_all add: json_ascii_def first_rune_def unescape_def escape_def)
  qed
  have plain: "first_rune (c # u) = Some ([c], u)" if "?n \<noteq> 92"
    using that w by (auto simp: first_rune_def simp del: rune_width.simps)
  show ?thesis
    using special ctl plain by (cases "?n \<in> {8, 9, 10, 12, 13, 34, 92}") (auto simp: json_ascii_def Let_def)
qed

lemma first_rune_wide:
  assumes "rune_width r = Some (length r)" "length r \<noteq> 1"
  shows "first_rune (json_rune r @ u) = Some (r, u)"
proof -
  have w: "rune_width (r @ u) = Some (length r)" using rune_width_append [OF assms(1), of u] by simp
  obtain c cs where r: "r = c # cs" using assms(1) by (cases r) auto
  have "\<not> byte_in 0 127 c" using assms rune_width_ascii [of c cs] by (auto simp: r simp del: rune_width.simps)
  then have "c \<noteq> CHR 0x5C" by (auto simp: byte_in_def)
  then have "first_rune (r @ u) = Some (r, u)" using w by (simp add: first_rune_def r del: rune_width.simps)
  then show ?thesis
    by (cases "r = [CHR 0xE2, CHR 0x80, CHR 0xA8]"; cases "r = [CHR 0xE2, CHR 0x80, CHR 0xA9]")
      (simp_all add: json_rune_def, simp_all add: first_rune_def unescape_def escape_def)
qed

lemma json_body_rune:
  assumes "rune_width s = Some n"
  shows "first_rune (json_body s @ u) = Some (take n s, json_body (drop n s) @ u)"
proof -
  obtain c cs where s: "s = c # cs" using assms by (cases s) auto
  have r: "rune_width (take n s) = Some n" "length (take n s) = n"
    using rune_width_append [OF assms, of "[]"] rune_width_bounds [OF assms] by auto
  show ?thesis
  proof (cases "n = 1")
    case True
    then have "byte_in 0 127 c" using assms rune_width_ascii [of c cs] by (simp add: s del: rune_width.simps)
    from first_rune_ascii [OF this] show ?thesis using assms True
      by (simp add: s json_body.simps del: rune_width.simps)
  next
    case False
    then show ?thesis using first_rune_wide [of "take n s" "json_body (drop n s) @ u"] r assms
      by (simp add: s json_body.simps del: rune_width.simps)
  qed
qed

lemma json_body_bad: "rune_width (c # cs) = None \<Longrightarrow> first_rune (json_body (c # cs) @ u) = None"
  by (simp add: json_body.simps first_rune_def escape_def unescape_def del: rune_width.simps)

lemma quote_is_no_rune_start: "s \<noteq> [] \<Longrightarrow> \<exists>c u. json_body s = c # u \<and> c \<noteq> CHR 0x22"
proof -
  assume "s \<noteq> []"
  then obtain c cs where s: "s = c # cs" by (cases s) auto
  have a: "\<exists>d u. json_ascii c = d # u \<and> d \<noteq> CHR 0x22" by (auto simp: json_ascii_def escape_def Let_def)
  have r: "\<exists>d u. json_rune (c # ds) = d # u \<and> d \<noteq> CHR 0x22" if "rune_width (c # cs) \<noteq> Some 1" for ds
  proof -
    have "c \<noteq> CHR 0x22" using that by (auto simp: byte_in_def)
    then show ?thesis by (auto simp: json_rune_def escape_def)
  qed
  show ?thesis
  proof (cases "rune_width (c # cs)")
    case None
    then show ?thesis by (auto simp: s json_body.simps escape_def simp del: rune_width.simps)
  next
    case (Some n)
    then have "n \<noteq> 0" using rune_width_bounds [OF Some] by simp
    then obtain m where "n = Suc m" by (cases n) auto
    then show ?thesis using a r [of "take m cs"] Some
      by (cases "n = 1") (auto simp: s json_body.simps simp del: rune_width.simps)
  qed
qed

text \<open>What is written of a valid string is read back, and its end is found.\<close>

lemma json_body_inj:
  "json_body s @ CHR 0x22 # x = json_body t @ CHR 0x22 # y \<Longrightarrow> ValidString s \<Longrightarrow> s = t \<and> x = y"
proof (induction "length s" arbitrary: s t rule: less_induct)
  case less
  show ?case
  proof (cases "s = [] \<or> t = []")
    case True
    then show ?thesis
      using less.prems(1) quote_is_no_rune_start [of s] quote_is_no_rune_start [of t] by (cases s; cases t) (auto simp: json_body.simps(1))
  next
    case False
    then obtain n where n: "rune_width s = Some n" "ValidString (drop n s)"
      using less.prems(2) by (auto simp: ValidString.simps [of s] split: option.splits)
    have b: "0 < n" "n \<le> length s" using rune_width_bounds [OF n(1)] by simp_all
    obtain d ds where t: "t = d # ds" using False by (cases t) auto
    obtain m where m: "rune_width t = Some m"
      using json_body_rune [OF n(1), of "CHR 0x22 # x"] json_body_bad [of d ds "CHR 0x22 # y"] less.prems(1)
      by (cases "rune_width t") (auto simp: t simp del: rune_width.simps)
    have e: "take n s = take m t" "json_body (drop n s) @ CHR 0x22 # x = json_body (drop m t) @ CHR 0x22 # y"
      using json_body_rune [OF n(1), of "CHR 0x22 # x"] json_body_rune [OF m, of "CHR 0x22 # y"] less.prems(1) by simp_all
    have "drop n s = drop m t \<and> x = y" by (rule less.hyps [OF _ e(2) n(2)]) (use b in simp)
    then show ?thesis using e(1) by (metis append_take_drop_id)
  qed
qed

lemma json_str_inj: "json_str s @ x = json_str t @ y \<Longrightarrow> ValidString s \<Longrightarrow> s = t \<and> x = y"
  unfolding json_str_def using json_body_inj [of s x t y] by simp

lemma Itoa_digits: "c \<in> set (Itoa n) \<Longrightarrow> c \<noteq> CHR '',''"
proof -
  have "list_all is_digit (nat_digits m)" for m using nat_digits_digits by blast
  then show "c \<in> set (Itoa n) \<Longrightarrow> c \<noteq> CHR '',''"
    by (force simp: Itoa_def list_all_iff is_digit_def Let_def split: if_splits)
qed

lemma Itoa_inj: "Itoa m = Itoa n \<Longrightarrow> m = n"
proof -
  have "CHR ''-'' \<notin> set (nat_digits m)" for m
    using nat_digits_digits [of m] by (auto simp: list_all_iff is_digit_def Let_def)
  then show "Itoa m = Itoa n \<Longrightarrow> m = n"
    by (auto simp: Itoa_def nat_digits_inj nat_eq_iff split: if_splits) (metis list.set_intros(1))+
qed

lemma Itoa_comma: "Itoa m @ CHR '','' # x = Itoa n @ CHR '','' # y \<Longrightarrow> m = n \<and> x = y"
proof -
  assume e: "Itoa m @ CHR '','' # x = Itoa n @ CHR '','' # y"
  have t: "takeWhile (\<lambda>c. c \<noteq> CHR '','') (Itoa k @ CHR '','' # z) = Itoa k"
    "dropWhile (\<lambda>c. c \<noteq> CHR '','') (Itoa k @ CHR '','' # z) = CHR '','' # z" for k z
    using Itoa_digits [of _ k] by (simp_all add: takeWhile_append dropWhile_append)
  from t [of m x] t [of n y] e have "Itoa m = Itoa n" "x = y" by simp_all
  then show ?thesis using Itoa_inj by blast
qed

end
