(* ===== verification/AuditTrail.thy ===== *)
theory AuditTrail
  imports Json Variables "HOL-Library.List_Lexorder" "HOL-Library.Char_ord"
begin

text \<open>
  The mandatory audit trail: \<open>server/internal/db/audit.go\<close>, its use by the transactions of \<open>db/db.go\<close> and by
  the requests of \<open>api/security_audit.go\<close>.  A transaction that changed an audited table appends one signed
  record before it commits; every record carries the hash of the one before it.

  SHA-256 and Ed25519 are arguments (the record \<open>crypto\<close>); the JSON a hash is taken of is that of \<open>Json\<close>.
  The business tables are of any type \<open>'b\<close>.  A transaction takes the row lock of the head when it begins
  (\<open>BeginTx\<close>), so transactions follow one another.
\<close>

section \<open>Records and tables\<close>

record 'k crypto =
  Sha256 :: "string \<Rightarrow> string"
  SignWith :: "'k \<Rightarrow> string \<Rightarrow> string"
  PublicKey :: "'k \<Rightarrow> string"
  VerifyKey :: "string \<Rightarrow> string \<Rightarrow> string \<Rightarrow> bool"
  KeyValid :: "string \<Rightarrow> bool"

record AuditIdentity =
  IdRequest :: string
  IdActor :: string
  IdRoute :: string
  IdIP :: string

record Mutation =
  MuTable :: string
  MuOperation :: string
  MuStatement :: string
  MuCount :: int
  MuReferences :: "string list"
  MuActor :: string

record AuditPayload =
  ApIdentity :: AuditIdentity
  ApMutations :: "Mutation list"
  ApEvent :: string
  ApOutcome :: string

record AuditRecord =
  ArStream :: string
  ArSeq :: int
  ArTS :: string
  ArPrevious :: string
  ArPayload :: string
  ArHash :: string
  ArSignature :: string

text \<open>\<open>audit_head\<close>, \<open>security_audit\<close> and \<open>audit_delivery\<close>.\<close>

record AuditHead =
  AhStream :: string
  AhSeq :: int
  AhHash :: string
  AhPublic :: string

record AuditRow =
  AwSeq :: int
  AwTS :: string
  AwPrevious :: string
  AwPayload :: string
  AwHash :: string
  AwSignature :: string

record DeliveryRow =
  DySeq :: int
  DyAttempts :: int
  DyNext :: int
  DyCategory :: string
  DyAck :: bool
  DyDead :: bool
  DyError :: string

record 'b AuditDB =
  AdBusiness :: 'b
  AdHead :: "AuditHead option"
  AdTrail :: "AuditRow list"
  AdDelivery :: "DeliveryRow list"

record 'k auditConfig =
  AcKey :: 'k
  AcCapacity :: int

datatype audit_error =
  ErrAuditUnavailable | ErrAuditFull | IntegrityMismatch int | HeadMismatch | KeyAltered | InvalidKey | DeliveryGap
  | NoHead | CheckpointMismatch | StatementFailed | SetupRefused

section \<open>Identities\<close>

text \<open>\<open>strings.ToValidUTF8(s, "?")\<close>.\<close>

function valid_or :: "string \<Rightarrow> bool \<Rightarrow> string \<Rightarrow> string" where
  "valid_or rep bad s =
     (if s = [] then []
      else case rune_width s of
        None \<Rightarrow> (if bad then [] else rep) @ valid_or rep True (tl s)
      | Some n \<Rightarrow> take n s @ valid_or rep False (drop n s))"
  by auto
termination
  by (relation "measure (\<lambda>(r, b, s). length s)") (auto dest!: rune_width_bounds)

declare valid_or.simps [simp del]

definition boundedAuditIdentity :: "'k crypto \<Rightarrow> string \<Rightarrow> int \<Rightarrow> string" where
  "boundedAuditIdentity c v limit =
     (if int (length v) \<le> limit then v
      else valid_or ''?'' False (take (nat (max 0 (limit - 80))) v) @ ''...sha256:'' @ Sha256 c v)"

definition WithAuditIdentity :: "'k crypto \<Rightarrow> AuditIdentity \<Rightarrow> AuditIdentity" where
  "WithAuditIdentity c i =
     \<lparr>IdRequest = boundedAuditIdentity c (IdRequest i) 128, IdActor = boundedAuditIdentity c (IdActor i) 256,
      IdRoute = boundedAuditIdentity c (IdRoute i) 2048, IdIP = boundedAuditIdentity c (IdIP i) 64\<rparr>"

definition WithAuditActor :: "'k crypto \<Rightarrow> string \<Rightarrow> AuditIdentity \<Rightarrow> AuditIdentity" where
  "WithAuditActor c actor i = WithAuditIdentity c (i\<lparr>IdActor := actor\<rparr>)"

section \<open>JSON of a payload and of a record\<close>

definition identity_json :: "AuditIdentity \<Rightarrow> string" where
  "identity_json i =
     json_obj (json_opt ''request'' (IdRequest i) @ [(''actor'', json_str (IdActor i))] @
       json_opt ''route'' (IdRoute i) @ json_opt ''ip'' (IdIP i))"

definition mutation_json :: "Mutation \<Rightarrow> string" where
  "mutation_json m =
     json_obj ([(''table'', json_str (MuTable m)), (''operation'', json_str (MuOperation m)),
         (''statement'', json_str (MuStatement m)), (''count'', Itoa (MuCount m))] @
       (if MuReferences m = [] then [] else [(''references'', json_arr (map json_str (MuReferences m)))]) @
       json_opt ''actor'' (MuActor m))"

definition payload_json :: "AuditPayload \<Rightarrow> string" where
  "payload_json p =
     json_obj ([(''identity'', identity_json (ApIdentity p))] @
       (if ApMutations p = [] then [] else [(''mutations'', json_arr (map mutation_json (ApMutations p)))]) @
       json_opt ''event'' (ApEvent p) @ json_opt ''outcome'' (ApOutcome p))"

definition record_json :: "AuditRecord \<Rightarrow> string" where
  "record_json r =
     json_obj [(''stream'', json_str (ArStream r)), (''seq'', Itoa (ArSeq r)), (''ts'', json_str (ArTS r)),
       (''previous'', json_str (ArPrevious r)), (''payload'', json_str (ArPayload r)), (''hash'', json_str (ArHash r)),
       (''signature'', json_str (ArSignature r))]"

definition recordHash :: "'k crypto \<Rightarrow> AuditRecord \<Rightarrow> string" where
  "recordHash c r = Sha256 c (record_json (r\<lparr>ArHash := [], ArSignature := []\<rparr>))"

section \<open>Appending a record\<close>

definition has_prefix :: "string \<Rightarrow> string \<Rightarrow> bool" where
  "has_prefix p s \<longleftrightarrow> cut_prefix p s \<noteq> None"

text \<open>The category of a payload and how many of it may wait for their delivery.\<close>

definition audit_category :: "int \<Rightarrow> AuditPayload \<Rightarrow> string \<times> int" where
  "audit_category cap p =
     (if ApEvent p = [] then (''security'', cap)
      else if has_prefix ''access.'' (ApEvent p) then (''access'', 1000) else (''control'', 10000))"

definition pending_of :: "string \<Rightarrow> DeliveryRow list \<Rightarrow> int" where
  "pending_of cat ds = int (count_where (\<lambda>d. \<not> DyAck d \<and> DyCategory d = cat) ds)"

definition row_record :: "string \<Rightarrow> AuditRow \<Rightarrow> AuditRecord" where
  "row_record stream w =
     \<lparr>ArStream = stream, ArSeq = AwSeq w, ArTS = AwTS w, ArPrevious = AwPrevious w, ArPayload = AwPayload w,
      ArHash = AwHash w, ArSignature = AwSignature w\<rparr>"

text \<open>The next record of a head, signed.\<close>

definition next_row :: "'k crypto \<Rightarrow> 'k \<Rightarrow> AuditHead \<Rightarrow> string \<Rightarrow> AuditPayload \<Rightarrow> AuditRow" where
  "next_row c k h ts p =
     (let w = \<lparr>AwSeq = AhSeq h + 1, AwTS = ts, AwPrevious = AhHash h, AwPayload = payload_json p, AwHash = [], AwSignature = []\<rparr>;
          hash = recordHash c (row_record (AhStream h) w)
      in w\<lparr>AwHash := hash, AwSignature := SignWith c k hash\<rparr>)"

definition new_delivery :: "int \<Rightarrow> string \<Rightarrow> DeliveryRow" where
  "new_delivery n cat = \<lparr>DySeq = n, DyAttempts = 0, DyNext = 0, DyCategory = cat, DyAck = False, DyDead = False, DyError = []\<rparr>"

text \<open>\<open>ok\<close> says whether the statements of the journal succeed; an insert fails on a sequence that exists.\<close>

definition appendAudit ::
  "'k crypto \<Rightarrow> 'k auditConfig \<Rightarrow> AuditPayload \<Rightarrow> string \<Rightarrow> bool \<Rightarrow> 'b AuditDB \<Rightarrow> audit_error + 'b AuditDB" where
  "appendAudit c a p ts ok db =
     (let (cat, cap) = audit_category (AcCapacity a) p in
      if pending_of cat (AdDelivery db) \<ge> cap then Inl ErrAuditFull
      else case AdHead db of
        None \<Rightarrow> Inl ErrAuditUnavailable
      | Some h \<Rightarrow>
          (let w = next_row c (AcKey a) h ts p; n = AwSeq w in
           if \<not> ok \<or> row_of AwSeq n (AdTrail db) \<noteq> None \<or> row_of DySeq n (AdDelivery db) \<noteq> None then Inl ErrAuditUnavailable
           else Inr (db\<lparr>AdTrail := AdTrail db @ [w], AdDelivery := AdDelivery db @ [new_delivery n cat],
             AdHead := Some (h\<lparr>AhSeq := n, AhHash := AwHash w\<rparr>)\<rparr>)))"

section \<open>Which statement changes what\<close>

text \<open>\<open>mutationRE\<close>, matched by hand: keywords in any case, separated by blanks.\<close>

fun cut_keyword :: "string \<Rightarrow> string \<Rightarrow> string option" where
  "cut_keyword [] s = Some s"
| "cut_keyword (p # ps) [] = None"
| "cut_keyword (p # ps) (c # cs) = (if lower_char c = p then cut_keyword ps cs else None)"

definition cut_spaces :: "string \<Rightarrow> string option" where
  "cut_spaces s = (case s of [] \<Rightarrow> None | c # _ \<Rightarrow> if re_space c then Some (dropWhile re_space s) else None)"

text \<open>Words that follow one another, separated by blanks; then the rest.\<close>

fun cut_words :: "string list \<Rightarrow> string \<Rightarrow> string option" where
  "cut_words [] s = Some s"
| "cut_words [w] s = cut_keyword w s"
| "cut_words (w # ws) s = Option.bind (Option.bind (cut_keyword w s) cut_spaces) (cut_words ws)"

definition first_cut :: "string list list \<Rightarrow> string \<Rightarrow> string option" where
  "first_cut alts s = fold (\<lambda>ws r. case r of None \<Rightarrow> cut_words ws s | Some u \<Rightarrow> Some u) alts None"

definition insert_verbs :: "string list list" where
  "insert_verbs = [[''insert'', ''or'', ''replace'', ''into''], [''insert'', ''or'', ''ignore'', ''into''], [''insert'', ''into'']]"

text \<open>The operation and the table of a statement that starts here.\<close>

definition verb_here :: "string \<Rightarrow> (string \<times> string) option" where
  "verb_here s =
     (case first_cut insert_verbs s of
        Some u \<Rightarrow> Some (''insert'', u)
      | None \<Rightarrow>
          (case cut_words [''update''] s of
             Some u \<Rightarrow> Some (''update'', u)
           | None \<Rightarrow> map_option (Pair ''delete'') (cut_words [''delete'', ''from''] s)))"

definition mutation_here :: "string \<Rightarrow> (string \<times> string) option" where
  "mutation_here s =
     Option.bind (verb_here s) (\<lambda>(op, u).
       Option.bind (cut_spaces u) (\<lambda>t.
         case t of [] \<Rightarrow> None
         | c # _ \<Rightarrow> if word_char c \<and> \<not> is_digit c then Some (op, ToLower (takeWhile word_char t)) else None))"

fun find_mutation :: "bool \<Rightarrow> string \<Rightarrow> (string \<times> string) option" where
  "find_mutation inside [] = None"
| "find_mutation inside (c # cs) =
     (case (if inside then None else mutation_here (c # cs)) of
        Some m \<Rightarrow> Some m
      | None \<Rightarrow> find_mutation (word_char c) cs)"

definition auditTelemetry :: "string list" where
  "auditTelemetry = [''agents'', ''execution_agent_capacity'', ''execution_queue_lock'', ''instance_events'', ''instance_output'',
     ''execution_output'', ''sla_breaches'', ''alert_events'', ''auth_transactions'', ''web_tickets'', ''meta_flags'']"

definition audit_tables :: "string list" where
  "audit_tables = [''audit_head'', ''audit_delivery'', ''audit_events'', ''security_audit'']"

definition mutation :: "'k crypto \<Rightarrow> string \<Rightarrow> Mutation option" where
  "mutation c query =
     (case find_mutation False query of
        None \<Rightarrow> None
      | Some (op, table) \<Rightarrow>
          if table \<in> set auditTelemetry \<or> table \<in> set audit_tables \<or> has_prefix ''schema_'' table then None
          else if table = ''agent_tokens'' \<and> has_prefix ''UPDATE AGENT_TOKENS SET LAST_USED_AT'' (ToUpper (TrimSpace query)) then None
          else Some \<lparr>MuTable = table, MuOperation = op, MuStatement = Sha256 c (TrimSpace query), MuCount = 0,
            MuReferences = [], MuActor = []\<rparr>)"

section \<open>References\<close>

definition safeRefColumns :: "string list" where
  "safeRefColumns = [''id'', ''user_id'', ''agent_id'', ''execution_id'', ''order_id'', ''instance_id'', ''order_date'',
     ''definition_id'', ''session_id'', ''folder_name'', ''name'', ''actor'', ''action'', ''operation'']"

definition where_columns :: "string list" where
  "where_columns = [''id'', ''user_id'', ''agent_id'', ''execution_id'', ''order_id'', ''instance_id'', ''order_date'', ''definition_id'']"

text \<open>\<open>add\<close>: a safe column with an argument of at most 128 bytes.\<close>

definition add_ref :: "string list \<Rightarrow> string \<Rightarrow> nat \<Rightarrow> string list" where
  "add_ref args col i =
     (if i < length args \<and> col \<in> set safeRefColumns \<and> length (args ! i) \<le> 128 then [col @ ''='' @ args ! i] else [])"

text \<open>\<open>insertRefsRE\<close>: the columns and the values of an insert.\<close>

definition cut_blanks :: "string \<Rightarrow> string" where
  "cut_blanks s = dropWhile re_space s"

definition in_parens :: "string \<Rightarrow> (string \<times> string) option" where
  "in_parens s =
     (case s of
        CHR ''('' # t \<Rightarrow>
          (let body = takeWhile (\<lambda>c. c \<noteq> CHR '')'') t; rest = dropWhile (\<lambda>c. c \<noteq> CHR '')'') t in
           if body = [] \<or> rest = [] then None else Some (body, tl rest))
      | _ \<Rightarrow> None)"

definition insert_parts :: "string \<Rightarrow> (string \<times> string) option" where
  "insert_parts q =
     Option.bind (Option.bind (first_cut insert_verbs (cut_blanks q)) cut_spaces) (\<lambda>t.
       if takeWhile word_char t = [] then None
       else Option.bind (in_parens (cut_blanks (dropWhile word_char t))) (\<lambda>(cols, u).
         Option.bind (cut_keyword ''values'' (cut_blanks u)) (\<lambda>u'.
           map_option (\<lambda>(vals, _). (cols, vals)) (in_parens (cut_blanks u')))))"

fun insert_refs :: "string list \<Rightarrow> string list \<Rightarrow> nat \<Rightarrow> string list \<Rightarrow> string list" where
  "insert_refs args cols i [] = []"
| "insert_refs args cols i (v # vs) =
     (case cols of
        [] \<Rightarrow> []
      | col # _ \<Rightarrow> if TrimSpace v = ''?'' then add_ref args (ToLower (TrimSpace col)) i else []) @
     insert_refs args (tl cols) (i + count_list v CHR ''?'') vs"

text \<open>\<open>whereRefsRE\<close>: a column that is compared with a placeholder, and the number of placeholders before it.\<close>

definition where_here :: "string \<Rightarrow> string option" where
  "where_here s =
     List.find (\<lambda>col. case cut_keyword col s of None \<Rightarrow> False
       | Some u \<Rightarrow> (case cut_blanks u of CHR ''='' # v \<Rightarrow> (case cut_blanks v of CHR ''?'' # _ \<Rightarrow> True | _ \<Rightarrow> False) | _ \<Rightarrow> False))
       where_columns"

fun where_refs :: "string list \<Rightarrow> bool \<Rightarrow> nat \<Rightarrow> string \<Rightarrow> string list" where
  "where_refs args inside i [] = []"
| "where_refs args inside i (c # cs) =
     (case (if inside then None else where_here (c # cs)) of None \<Rightarrow> [] | Some col \<Rightarrow> add_ref args col i) @
     where_refs args (word_char c) (if c = CHR ''?'' then i + 1 else i) cs"

text \<open>The text before the first \<open>WHERE\<close> between blanks, and the rest.\<close>

fun split_where :: "string \<Rightarrow> (string \<times> string) option" where
  "split_where [] = None"
| "split_where (c # cs) =
     (if has_prefix '' WHERE '' (ToUpper (c # cs)) then Some ([], c # cs)
      else map_option (\<lambda>(a, b). (c # a, b)) (split_where cs))"

definition safeAuditReferences :: "string \<Rightarrow> string list \<Rightarrow> string list" where
  "safeAuditReferences query args =
     (case insert_parts query of
        None \<Rightarrow> []
      | Some (cols, vals) \<Rightarrow> insert_refs args (split_on CHR '','' cols) 0 (split_on CHR '','' vals)) @
     (case split_where query of
        None \<Rightarrow> []
      | Some (before, rest) \<Rightarrow> where_refs args False (count_list before CHR ''?'') rest)"

section \<open>Transactions\<close>

text \<open>A transaction: the tables it began with, the tables it has written, the changes (\<open>t.changes\<close>) by key.\<close>

record 'b AuditTx =
  TxBase :: "'b AuditDB"
  TxNow :: "'b AuditDB"
  TxChanges :: "(string \<times> Mutation) list"

definition BeginTx :: "'b AuditDB \<Rightarrow> 'b AuditTx" where
  "BeginTx db = \<lparr>TxBase = db, TxNow = db, TxChanges = []\<rparr>"

definition add_reference :: "string \<Rightarrow> Mutation \<Rightarrow> Mutation" where
  "add_reference ref m =
     (if length (MuReferences m) \<ge> 32 \<or> ref \<in> set (MuReferences m) then m else m\<lparr>MuReferences := MuReferences m @ [ref]\<rparr>)"

text \<open>The loop over the references stops at the 33rd, but only after it has looked at its actor.\<close>

fun add_references :: "string list \<Rightarrow> Mutation \<Rightarrow> Mutation" where
  "add_references [] m = m"
| "add_references (ref # refs) m =
     (let m1 = (case cut_prefix ''actor='' ref of None \<Rightarrow> m | Some x \<Rightarrow> m\<lparr>MuActor := x\<rparr>) in
      if length (MuReferences m1) \<ge> 32 then m1 else add_references refs (add_reference ref m1))"

definition change_key :: "Mutation \<Rightarrow> string" where
  "change_key m = MuTable m @ '':'' @ MuStatement m"

definition put_change :: "string \<Rightarrow> Mutation \<Rightarrow> (string \<times> Mutation) list \<Rightarrow> (string \<times> Mutation) list" where
  "put_change k m ch = (if row_of fst k ch = None then ch @ [(k, m)] else update_where (\<lambda>x. fst x = k) (\<lambda>_. (k, m)) ch)"

definition track :: "'k crypto \<Rightarrow> string \<Rightarrow> int \<Rightarrow> string list \<Rightarrow> (string \<times> Mutation) list \<Rightarrow> (string \<times> Mutation) list" where
  "track c query n args ch =
     (if n = 0 then ch
      else case mutation c query of
        None \<Rightarrow> ch
      | Some m0 \<Rightarrow>
          (let k = change_key m0;
               m = (case row_of fst k ch of
                      None \<Rightarrow> m0\<lparr>MuCount := n\<rparr>
                    | Some (_, old) \<Rightarrow> m0\<lparr>MuCount := MuCount old + n, MuReferences := MuReferences old, MuActor := MuActor old\<rparr>)
           in put_change k (add_references (safeAuditReferences query args) m) ch))"

text \<open>\<open>Exec\<close>: what the statement does to the business tables and how many rows it changes, or None when it fails.\<close>

definition Exec :: "'k crypto \<Rightarrow> string \<Rightarrow> string list \<Rightarrow> ('b \<times> int) option \<Rightarrow> 'b AuditTx \<Rightarrow> 'b AuditTx" where
  "Exec c query args result tx =
     (case result of
        None \<Rightarrow> tx
      | Some (b, n) \<Rightarrow> tx\<lparr>TxNow := (TxNow tx)\<lparr>AdBusiness := b\<rparr>, TxChanges := track c query n args (TxChanges tx)\<rparr>)"

definition system_identity :: "AuditIdentity \<Rightarrow> AuditIdentity" where
  "system_identity i = (if IdActor i = [] then i\<lparr>IdActor := ''system''\<rparr> else i)"

text \<open>The error of a commit and the tables it leaves; \<open>ok\<close>: the statements and the commit itself succeed.\<close>

definition Commit ::
  "'k crypto \<Rightarrow> 'k auditConfig \<Rightarrow> AuditIdentity \<Rightarrow> string \<Rightarrow> bool \<Rightarrow> 'b AuditTx \<Rightarrow> audit_error option \<times> 'b AuditDB" where
  "Commit c a i ts ok tx =
     (if TxChanges tx = [] then (if ok then (None, TxNow tx) else (Some StatementFailed, TxBase tx))
      else case appendAudit c a
          \<lparr>ApIdentity = system_identity i, ApMutations = map snd (sort_key fst (TxChanges tx)), ApEvent = [], ApOutcome = ''committed''\<rparr>
          ts ok (TxNow tx) of
        Inl e \<Rightarrow> (Some e, TxBase tx)
      | Inr db \<Rightarrow> (None, db))"

definition event_payload :: "AuditIdentity \<Rightarrow> string \<Rightarrow> string \<Rightarrow> AuditPayload" where
  "event_payload i event outcome = \<lparr>ApIdentity = i, ApMutations = [], ApEvent = event, ApOutcome = outcome\<rparr>"

definition AuditObservation ::
  "'k crypto \<Rightarrow> 'k auditConfig \<Rightarrow> AuditIdentity \<Rightarrow> string \<Rightarrow> string \<Rightarrow> string \<Rightarrow> bool \<Rightarrow> 'b AuditDB \<Rightarrow> audit_error + 'b AuditDB" where
  "AuditObservation c a i event outcome ts ok db = appendAudit c a (event_payload i event outcome) ts ok db"

definition AuditAdministrative ::
  "'k crypto \<Rightarrow> 'k auditConfig \<Rightarrow> AuditIdentity \<Rightarrow> string \<Rightarrow> string \<Rightarrow> bool \<Rightarrow> 'b AuditTx \<Rightarrow> audit_error + 'b AuditTx" where
  "AuditAdministrative c a i event ts ok tx =
     map_sum (\<lambda>e. e) (\<lambda>db. tx\<lparr>TxNow := db\<rparr>) (appendAudit c a (event_payload i event ''accepted'') ts ok (TxNow tx))"

section \<open>Verification\<close>

definition VerifyAuditRecord :: "'k crypto \<Rightarrow> string \<Rightarrow> AuditRecord \<Rightarrow> string \<Rightarrow> int \<Rightarrow> bool" where
  "VerifyAuditRecord c public r previous n \<longleftrightarrow>
     ArSeq r = n \<and> ArPrevious r = previous \<and> ArHash r = recordHash c r \<and> VerifyKey c public (ArHash r) (ArSignature r)"

definition AuditRecords :: "int \<Rightarrow> nat \<Rightarrow> 'b AuditDB \<Rightarrow> audit_error + AuditRecord list" where
  "AuditRecords after limit db =
     (case AdHead db of
        None \<Rightarrow> Inl NoHead
      | Some h \<Rightarrow> Inr (map (row_record (AhStream h)) (take limit (sort_key AwSeq (filter (\<lambda>w. AwSeq w > after) (AdTrail db))))))"

fun verify_rows :: "'k crypto \<Rightarrow> string \<Rightarrow> string \<Rightarrow> string \<Rightarrow> int \<Rightarrow> AuditRow list \<Rightarrow> audit_error + string \<times> int" where
  "verify_rows c stream public previous cursor [] = Inr (previous, cursor)"
| "verify_rows c stream public previous cursor (w # ws) =
     (if VerifyAuditRecord c public (row_record stream w) previous (cursor + 1)
      then verify_rows c stream public (AwHash w) (AwSeq w) ws else Inl (IntegrityMismatch (AwSeq w)))"

definition VerifyAudit :: "'k crypto \<Rightarrow> 'k auditConfig option \<Rightarrow> 'b AuditDB \<Rightarrow> audit_error option" where
  "VerifyAudit c cfg db =
     (case AdHead db of
        None \<Rightarrow> Some NoHead
      | Some h \<Rightarrow>
          if (case cfg of None \<Rightarrow> False | Some a \<Rightarrow> AhPublic h \<noteq> PublicKey c (AcKey a)) then Some KeyAltered
          else if \<not> KeyValid c (AhPublic h) then Some InvalidKey
          else case verify_rows c (AhStream h) (AhPublic h) [] 0 (sort_key AwSeq (AdTrail db)) of
            Inl e \<Rightarrow> Some e
          | Inr (previous, cursor) \<Rightarrow>
              if cursor \<noteq> AhSeq h \<or> previous \<noteq> AhHash h then Some HeadMismatch
              else if list_ex (\<lambda>w. row_of DySeq (AwSeq w) (AdDelivery db) = None) (AdTrail db) then Some DeliveryGap else None)"

definition VerifyAuditCheckpoint ::
  "'k crypto \<Rightarrow> 'k auditConfig option \<Rightarrow> string \<Rightarrow> int \<Rightarrow> string \<Rightarrow> 'b AuditDB \<Rightarrow> audit_error option" where
  "VerifyAuditCheckpoint c cfg stream n hash db =
     (case VerifyAudit c cfg db of
        Some e \<Rightarrow> Some e
      | None \<Rightarrow>
          (case AdHead db of
             None \<Rightarrow> Some NoHead
           | Some h \<Rightarrow>
               if AhStream h \<noteq> stream \<or> n < 0 \<or> n > AhSeq h then Some CheckpointMismatch
               else if n = 0 then (if hash \<noteq> [] then Some CheckpointMismatch else None)
               else case row_of AwSeq n (AdTrail db) of
                 None \<Rightarrow> Some NoHead
               | Some w \<Rightarrow> if AwHash w \<noteq> hash then Some CheckpointMismatch else None))"

section \<open>Start-up\<close>

text \<open>
  The key file: absent, unusable, or a key.  \<open>fresh\<close> is the key pair and \<open>stream\<close> the stream drawn when there is
  none; \<open>durable\<close> stands for the synchronous mode of SQLite, \<open>owner_only\<close> for the permissions of the file,
  \<open>ok\<close> for the writes.
\<close>

datatype 'k key_file = NoFile | BadFile | KeyFile 'k

definition EnableAudit ::
  "'k crypto \<Rightarrow> bool \<Rightarrow> bool \<Rightarrow> bool \<Rightarrow> 'k \<Rightarrow> string \<Rightarrow> int \<Rightarrow> 'k key_file \<Rightarrow> 'b AuditDB \<Rightarrow>
     (audit_error + 'k auditConfig) \<times> 'k key_file \<times> 'b AuditDB" where
  "EnableAudit c durable owner_only ok fresh stream capacity file db =
     (if \<not> durable \<or> capacity < 1 then (Inl SetupRefused, file, db)
      else
        (let stored = (case AdHead db of None \<Rightarrow> [] | Some h \<Rightarrow> AhPublic h);
             file1 = (if file = NoFile \<and> stored = [] \<and> ok then KeyFile fresh else file) in
         case file1 of
           KeyFile k \<Rightarrow>
             (if \<not> owner_only \<or> stored \<noteq> [] \<and> stored \<noteq> PublicKey c k then (Inl SetupRefused, file1, db)
              else if stored = [] \<and> (\<not> ok \<or> AdHead db \<noteq> None) then (Inl SetupRefused, file1, db)
              else
                (let db1 = (if stored = [] then db\<lparr>AdHead := Some \<lparr>AhStream = stream, AhSeq = 0, AhHash = [], AhPublic = PublicKey c k\<rparr>\<rparr>
                            else db);
                     a = \<lparr>AcKey = k, AcCapacity = capacity\<rparr> in
                 if \<not> ok then (Inl SetupRefused, file1, db1)
                 else case VerifyAudit c (Some a) db1 of None \<Rightarrow> (Inr a, file1, db1) | Some e \<Rightarrow> (Inl e, file1, db1)))
         | _ \<Rightarrow> (Inl SetupRefused, file1, db)))"

section \<open>Requests\<close>

record request =
  RqId :: string
  RqMethod :: string
  RqPath :: string
  RqUser :: "string option"
  RqIP :: string

definition request_mutates :: "request \<Rightarrow> bool" where
  "request_mutates r \<longleftrightarrow> RqMethod r \<in> {''POST'', ''PUT'', ''PATCH'', ''DELETE''}"

definition request_identity :: "'k crypto \<Rightarrow> request \<Rightarrow> AuditIdentity" where
  "request_identity c r =
     WithAuditIdentity c \<lparr>IdRequest = RqId r, IdActor = (case RqUser r of None \<Rightarrow> ''anonymous'' | Some u \<Rightarrow> u),
       IdRoute = RqMethod r @ '' '' @ (if has_prefix ''/qa/'' (RqPath r) then ''/qa/{token}'' else RqPath r), IdIP = RqIP r\<rparr>"

text \<open>\<open>auditResponse.WriteHeader\<close>: the status that is sent, and the tables.\<close>

definition WriteHeader ::
  "'k crypto \<Rightarrow> 'k auditConfig \<Rightarrow> request \<Rightarrow> string \<Rightarrow> bool \<Rightarrow> int \<Rightarrow> 'b AuditDB \<Rightarrow> int \<times> 'b AuditDB" where
  "WriteHeader c a r ts ok status db =
     (let event = (if status = 401 \<or> status = 403 then ''access.denied'' else if request_mutates r then ''request.result'' else []) in
      if event = [] then (status, db)
      else case AuditObservation c a (request_identity c r) event (Itoa status) ts ok db of
        Inl e \<Rightarrow> (503, db)
      | Inr db' \<Rightarrow> (status, db'))"

text \<open>\<open>scoped\<close>: the intent before the handler, the result with its first byte.  A handler is the status and the tables it leaves.\<close>

definition scoped ::
  "'k crypto \<Rightarrow> 'k auditConfig \<Rightarrow> request \<Rightarrow> string \<Rightarrow> bool \<Rightarrow> ('b AuditDB \<Rightarrow> int \<times> 'b AuditDB) \<Rightarrow> 'b AuditDB \<Rightarrow> int \<times> 'b AuditDB" where
  "scoped c a r ts ok handler db =
     (case (if request_mutates r then AuditObservation c a (request_identity c r) ''request.intent'' ''started'' ts ok db else Inr db) of
        Inl e \<Rightarrow> (503, db)
      | Inr db1 \<Rightarrow> (let (status, db2) = handler db1 in WriteHeader c a r ts ok status db2))"

text \<open>\<open>retrySecurityAudit\<close>: the oldest record that waits is given a new start.\<close>

definition oldest_pending :: "DeliveryRow list \<Rightarrow> DeliveryRow option" where
  "oldest_pending ds = (case sort_key DySeq (filter (\<lambda>d. \<not> DyAck d) ds) of [] \<Rightarrow> None | d # _ \<Rightarrow> Some d)"

definition restart_delivery :: "DeliveryRow list \<Rightarrow> DeliveryRow list" where
  "restart_delivery ds =
     (case oldest_pending ds of
        None \<Rightarrow> ds
      | Some d \<Rightarrow> update_where (\<lambda>x. DySeq x = DySeq d) (\<lambda>x. x\<lparr>DyDead := False, DyAttempts := 0, DyNext := 0, DyError := []\<rparr>) ds)"

definition retrySecurityAudit ::
  "'k crypto \<Rightarrow> 'k auditConfig \<Rightarrow> request \<Rightarrow> bool \<Rightarrow> string \<Rightarrow> bool \<Rightarrow> 'b AuditDB \<Rightarrow> int \<times> 'b AuditDB" where
  "retrySecurityAudit c a r admin ts ok db =
     (if \<not> admin then (403, db)
      else case AuditAdministrative c a (request_identity c r) ''export.retry'' ts ok (BeginTx db) of
        Inl e \<Rightarrow> (503, db)
      | Inr tx \<Rightarrow> if ok then (204, (TxNow tx)\<lparr>AdDelivery := restart_delivery (AdDelivery (TxNow tx))\<rparr>) else (503, db))"

end
