(* ===== verification/AuditExport.thy ===== *)
theory AuditExport
  imports AuditTrail
begin

text \<open>
  The way of the trail to an independent collector: \<open>server/internal/audit/durable.go\<close>.  The exporter sends
  the oldest record that is not acknowledged, one at a time; the collector checks every record against the
  last one it stored, writes it to its own file and answers with a receipt.
\<close>

section \<open>Exporter\<close>

record ACK =
  AkStream :: string
  AkSeq :: int
  AkHash :: string

text \<open>What comes back: nothing, a status other than 200, or a 200 with a receipt that may not decode.\<close>

datatype response = NoResponse | HttpStatus nat | Http200 "ACK option"

datatype export_error = StorageError | DeadLetter int | OutboxGap | Tampered int | Undelivered int string

definition http_code :: "nat \<Rightarrow> string" where
  "http_code n = ''http_'' @ nat_digits n"

definition receipt_valid :: "AuditRecord \<Rightarrow> ACK option \<Rightarrow> bool" where
  "receipt_valid r x = (case x of None \<Rightarrow> False | Some k \<Rightarrow> AkStream k = ArStream r \<and> AkSeq k = ArSeq r \<and> AkHash k = ArHash r)"

text \<open>The error code of an answer and whether it is permanent.\<close>

definition response_code :: "response \<Rightarrow> string \<times> bool" where
  "response_code x =
     (case x of
        NoResponse \<Rightarrow> (''transport'', False)
      | HttpStatus n \<Rightarrow> (http_code n, 400 \<le> n \<and> n < 500 \<and> n \<noteq> 429)
      | Http200 _ \<Rightarrow> (''invalid_ack'', True))"

definition retry_delay :: "int \<Rightarrow> int" where
  "retry_delay attempts = 1000 * 2 ^ nat (min attempts 8)"

definition acknowledge :: "int \<Rightarrow> DeliveryRow list \<Rightarrow> DeliveryRow list" where
  "acknowledge n ds = update_where (\<lambda>d. DySeq d = n \<and> \<not> DyAck d) (\<lambda>d. d\<lparr>DyAck := True, DyError := []\<rparr>) ds"

definition postpone :: "int \<Rightarrow> DeliveryRow \<Rightarrow> response \<Rightarrow> DeliveryRow list \<Rightarrow> DeliveryRow list" where
  "postpone now d x ds =
     (let (code, permanent) = response_code x; attempts = DyAttempts d + 1 in
      update_where (\<lambda>y. DySeq y = DySeq d \<and> \<not> DyAck y)
        (\<lambda>y. y\<lparr>DyAttempts := attempts, DyNext := now + retry_delay attempts, DyDead := permanent \<or> attempts \<ge> 20, DyError := code\<rparr>) ds)"

text \<open>
  What a step does before it sends: nothing to do, an error, or the row and the record it will send.
\<close>

definition to_export :: "'k crypto \<Rightarrow> int \<Rightarrow> 'b AuditDB \<Rightarrow> export_error option + DeliveryRow \<times> AuditRecord" where
  "to_export c now db =
     (case oldest_pending (AdDelivery db) of
        None \<Rightarrow> Inl None
      | Some d \<Rightarrow>
          if DyDead d then Inl (Some (DeadLetter (DySeq d)))
          else if DyNext d > now then Inl None
          else case AuditRecords (DySeq d - 1) 1 db of
            Inl _ \<Rightarrow> Inl (Some StorageError)
          | Inr rs \<Rightarrow>
              (case rs of
                 [r] \<Rightarrow>
                   if ArSeq r \<noteq> DySeq d then Inl (Some OutboxGap)
                   else (case AdHead db of
                      None \<Rightarrow> Inl (Some StorageError)
                    | Some h \<Rightarrow>
                        if KeyValid c (AhPublic h) \<and> VerifyAuditRecord c (AhPublic h) r (ArPrevious r) (DySeq d) then Inr (d, r)
                        else Inl (Some (Tampered (DySeq d))))
               | _ \<Rightarrow> Inl (Some OutboxGap)))"

text \<open>
  \<open>post\<close> sends the record and threads the state \<open>'n\<close> of the world outside; \<open>ok\<close>: the update is saved.  The result
  says whether the step advanced and its error.
\<close>

definition Step ::
  "'k crypto \<Rightarrow> (AuditRecord \<Rightarrow> 'n \<Rightarrow> response \<times> 'n) \<Rightarrow> int \<Rightarrow> bool \<Rightarrow> 'b AuditDB \<times> 'n \<Rightarrow>
     (bool \<times> export_error option) \<times> 'b AuditDB \<times> 'n" where
  "Step c post now ok s =
     (let (db, w) = s in
      case to_export c now db of
        Inl e \<Rightarrow> ((False, e), db, w)
      | Inr (d, r) \<Rightarrow>
          (let (x, w') = post r w in
           if \<not> ok then ((False, Some StorageError), db, w')
           else if (case x of Http200 k \<Rightarrow> receipt_valid r k | _ \<Rightarrow> False)
             then ((True, None), db\<lparr>AdDelivery := acknowledge (DySeq d) (AdDelivery db)\<rparr>, w')
           else ((False, Some (Undelivered (DySeq d) (fst (response_code x)))),
             db\<lparr>AdDelivery := postpone now d x (AdDelivery db)\<rparr>, w')))"

text \<open>One tick of \<open>Run\<close>: at most \<open>n\<close> steps, until one does not advance.\<close>

fun Run_tick ::
  "'k crypto \<Rightarrow> (AuditRecord \<Rightarrow> 'n \<Rightarrow> response \<times> 'n) \<Rightarrow> (nat \<Rightarrow> int \<times> bool) \<Rightarrow> nat \<Rightarrow> 'b AuditDB \<times> 'n \<Rightarrow> 'b AuditDB \<times> 'n" where
  "Run_tick c post env 0 s = s"
| "Run_tick c post env (Suc n) s =
     (case Step c post (fst (env n)) (snd (env n)) s of
        ((advanced, e), s') \<Rightarrow> if advanced \<and> e = None then Run_tick c post env n s' else s')"

section \<open>Collector\<close>

text \<open>
  The file is a list of records; \<open>CoTorn\<close> says that a broken line follows them.  \<open>CoLast\<close> is \<open>c.last\<close> with an
  empty stream before the first record.
\<close>

record Collector =
  CoFile :: "AuditRecord list"
  CoTorn :: bool
  CoPublic :: string
  CoLast :: ACK
  CoReceipts :: "int \<Rightarrow> ACK option"
  CoBroken :: bool

datatype file_write = Written | WriteLost | WriteTorn | SyncFailed

definition no_ack :: ACK where "no_ack = \<lparr>AkStream = [], AkSeq = 0, AkHash = []\<rparr>"

definition ack_of :: "AuditRecord \<Rightarrow> ACK" where
  "ack_of r = \<lparr>AkStream = ArStream r, AkSeq = ArSeq r, AkHash = ArHash r\<rparr>"

definition acceptable :: "'k crypto \<Rightarrow> AuditRecord \<Rightarrow> Collector \<Rightarrow> bool" where
  "acceptable c r k \<longleftrightarrow>
     ArStream r \<noteq> [] \<and> (AkStream (CoLast k) = [] \<or> ArStream r = AkStream (CoLast k)) \<and>
     VerifyAuditRecord c (CoPublic k) r (AkHash (CoLast k)) (AkSeq (CoLast k) + 1)"

definition take_record :: "AuditRecord \<Rightarrow> Collector \<Rightarrow> Collector" where
  "take_record r k = k\<lparr>CoLast := ack_of r, CoReceipts := (CoReceipts k)(ArSeq r \<mapsto> ack_of r)\<rparr>"

text \<open>\<open>accept(r, true)\<close>: the line is written and synced before the record counts.\<close>

definition accept_record :: "'k crypto \<Rightarrow> file_write \<Rightarrow> AuditRecord \<Rightarrow> Collector \<Rightarrow> bool \<times> Collector" where
  "accept_record c w r k =
     (if \<not> acceptable c r k then (False, k)
      else case w of
        Written \<Rightarrow> (True, take_record r (k\<lparr>CoFile := CoFile k @ [r]\<rparr>))
      | WriteLost \<Rightarrow> (False, k\<lparr>CoBroken := True\<rparr>)
      | WriteTorn \<Rightarrow> (False, k\<lparr>CoTorn := True, CoBroken := True\<rparr>)
      | SyncFailed \<Rightarrow> (False, k\<lparr>CoFile := CoFile k @ [r], CoBroken := True\<rparr>))"

definition ServeHTTP :: "'k crypto \<Rightarrow> bool \<Rightarrow> file_write \<Rightarrow> AuditRecord \<Rightarrow> Collector \<Rightarrow> response \<times> Collector" where
  "ServeHTTP c token_ok w r k =
     (if \<not> token_ok then (HttpStatus 401, k)
      else if CoBroken k then (HttpStatus 503, k)
      else case CoReceipts k (ArSeq r) of
        Some a \<Rightarrow>
          (if AkStream a \<noteq> ArStream r \<or> AkHash a \<noteq> ArHash r \<or> \<not> VerifyAuditRecord c (CoPublic k) r (ArPrevious r) (ArSeq r)
           then (HttpStatus 409, k) else (Http200 (Some a), k))
      | None \<Rightarrow>
          (let (taken, k') = accept_record c w r k in
           if taken then (Http200 (Some (CoLast k')), k') else (HttpStatus 409, k')))"

text \<open>\<open>OpenCollector\<close> reads the file again and checks every record as if it came in.\<close>

fun reopen :: "'k crypto \<Rightarrow> AuditRecord list \<Rightarrow> Collector \<Rightarrow> Collector option" where
  "reopen c [] k = Some k"
| "reopen c (r # rs) k = (if acceptable c r k then reopen c rs (take_record r k) else None)"

definition new_collector :: "string \<Rightarrow> AuditRecord list \<Rightarrow> bool \<Rightarrow> Collector" where
  "new_collector public file torn =
     \<lparr>CoFile = file, CoTorn = torn, CoPublic = public, CoLast = no_ack, CoReceipts = Map.empty, CoBroken = False\<rparr>"

definition OpenCollector :: "'k crypto \<Rightarrow> string \<Rightarrow> nat \<Rightarrow> AuditRecord list \<Rightarrow> bool \<Rightarrow> Collector option" where
  "OpenCollector c public token_length file torn =
     (if \<not> KeyValid c public \<or> token_length < 32 then None
      else case reopen c file (new_collector public file torn) of
        None \<Rightarrow> None
      | Some k \<Rightarrow> if torn then None else Some k)"

end
