(* ===== verification/AuditChain.thy ===== *)
theory AuditChain
  imports AuditExport
begin

text \<open>
  The chain of the audit trail: what a verified trail looks like, that every operation reduces to two kinds of
  write (\<open>audit_write\<close>), and that these keep the trail verified and the backlog within its limits.
\<close>

section \<open>What is assumed of the cryptography\<close>

text \<open>Signatures of the key verify under its public key, and a hash is printed in valid characters (it is hexadecimal).\<close>

definition signature_scheme :: "'k crypto \<Rightarrow> 'k \<Rightarrow> bool" where
  "signature_scheme c k \<longleftrightarrow>
     KeyValid c (PublicKey c k) \<and> (\<forall>m. VerifyKey c (PublicKey c k) m (SignWith c k m)) \<and> (\<forall>x. ValidString (Sha256 c x))"

section \<open>Valid strings\<close>

lemma ValidString_Nil [simp]: "ValidString []"
  by (simp add: ValidString.simps)

lemma ValidString_append: "ValidString s \<Longrightarrow> ValidString (s @ t) = ValidString t"
proof (induction "length s" arbitrary: s rule: less_induct)
  case less
  show ?case
  proof (cases "s = []")
    case False
    then obtain n where n: "rune_width s = Some n" "ValidString (drop n s)"
      using less.prems by (auto simp: ValidString.simps [of s] split: option.splits)
    have b: "0 < n" "n \<le> length s" using rune_width_bounds [OF n(1)] by simp_all
    have "take n s @ drop n s @ t = s @ t" using append_take_drop_id [of n s] by (metis append_assoc)
    then have "ValidString (s @ t) = ValidString (drop n s @ t)" using ValidString_rune [OF n(1), of "drop n s @ t"] by metis
    also have "\<dots> = ValidString t" by (rule less.hyps) (use b n(2) in simp_all)
    finally show ?thesis .
  qed simp
qed

lemma ValidString_Cons: "byte_in 0 127 c \<Longrightarrow> ValidString (c # s) = ValidString s"
  by (simp add: ValidString.simps [of "c # s"])

lemma ValidString_ascii: "list_all (byte_in 0 127) s \<Longrightarrow> ValidString s"
  by (induction s) (simp_all add: ValidString.simps)

lemma ValidString_join: "list_all ValidString xs \<Longrightarrow> ValidString sep \<Longrightarrow> ValidString (join_with sep xs)"
  by (induction sep xs rule: join_with.induct) (simp_all add: ValidString_append)

lemma ValidString_json_body: "ValidString (json_body s)"
proof (induction s rule: json_body.induct)
  case 1
  then show ?case by (simp add: json_body.simps)
next
  case (2 c cs)
  have esc: "ValidString (escape ''ufffd'')" by (rule ValidString_ascii) (simp add: escape_def byte_in_def)
  show ?case
  proof (cases "rune_width (c # cs)")
    case None
    then show ?thesis using 2(1) [OF None] esc by (simp add: json_body.simps ValidString_append del: rune_width.simps)
  next
    case (Some n)
    let ?r = "take n (c # cs)"
    have r: "ValidString ?r" using ValidString_rune [OF Some, of "[]"] by simp
    have wide: "ValidString (json_rune ?r)"
    proof -
      have "ValidString (escape ''u2028'')" "ValidString (escape ''u2029'')"
        by (rule ValidString_ascii, simp add: escape_def byte_in_def)+
      then show ?thesis using r by (simp add: json_rune_def)
    qed
    have ascii: "ValidString (json_ascii c)" if "n = 1"
    proof -
      have c: "byte_in 0 127 c" using Some that rune_width_ascii [of c cs] by simp
      have h: "byte_in 0 127 (hex_digit m)" if "m < 16" for m
        using that by (auto simp: byte_in_def hex_digit_def of_char_of)
      have "(of_char c :: nat) div 16 < 16" "(of_char c :: nat) mod 16 < 16" using c by (auto simp: byte_in_def)
      then show ?thesis using c h
        by (intro ValidString_ascii) (auto simp: json_ascii_def escape_def Let_def byte_in_def)
    qed
    show ?thesis using 2(2) [OF Some] ascii wide Some
      by (simp add: json_body.simps ValidString_append del: rune_width.simps)
  qed
qed

lemma ValidString_json_str: "ValidString (json_str s)"
proof -
  have "ValidString [CHR 0x22]" by (rule ValidString_ascii) (simp add: byte_in_def)
  then show ?thesis using ValidString_append [of "[CHR 0x22]" "json_body s @ [CHR 0x22]"]
    by (simp add: json_str_def ValidString_append ValidString_json_body)
qed

lemma ValidString_obj: "list_all (\<lambda>kv. ValidString (snd kv)) kvs \<Longrightarrow> ValidString (json_obj kvs)"
proof -
  assume "list_all (\<lambda>kv. ValidString (snd kv)) kvs"
  moreover have v: "ValidString '':''" "ValidString '',''" "ValidString ''{''" "ValidString ''}''"
    by (rule ValidString_ascii, simp add: byte_in_def)+
  ultimately have "ValidString (join_with '','' (map json_field kvs))"
    by (intro ValidString_join)
      (auto simp: list_all_iff json_field_def ValidString_append ValidString_Cons byte_in_def ValidString_json_str)
  then show ?thesis using v ValidString_append [of "''{''"] by (simp add: json_obj_def ValidString_append)
qed

lemma ValidString_arr: "list_all ValidString vs \<Longrightarrow> ValidString (json_arr vs)"
proof -
  assume "list_all ValidString vs"
  moreover have v: "ValidString '',''" "ValidString ''[''" "ValidString '']''"
    by (rule ValidString_ascii, simp add: byte_in_def)+
  ultimately show ?thesis
    using ValidString_append [of "''[''"] ValidString_join [of vs "'',''"] by (simp add: json_arr_def ValidString_append)
qed

lemma ValidString_Itoa: "ValidString (Itoa n)"
proof (rule ValidString_ascii)
  have "list_all is_digit (nat_digits m)" for m using nat_digits_digits by blast
  then have "list_all (byte_in 0 127) (nat_digits m)" for m
    by (force simp: list_all_iff is_digit_def byte_in_def Let_def)
  then show "list_all (byte_in 0 127) (Itoa n)" by (simp add: Itoa_def byte_in_def)
qed

lemma ValidString_payload: "ValidString (payload_json p)"
  unfolding payload_json_def identity_json_def mutation_json_def json_opt_def
  by (intro ValidString_obj)
    (auto simp: list_all_iff ValidString_json_str ValidString_Itoa intro!: ValidString_obj ValidString_arr)

section \<open>The chain\<close>

lemma verify_rows_append:
  "verify_rows c s k p n (ws @ vs) = (case verify_rows c s k p n ws of Inl e \<Rightarrow> Inl e | Inr (p', n') \<Rightarrow> verify_rows c s k p' n' vs)"
  by (induction ws arbitrary: p n) auto

lemma verify_rows_take: "verify_rows c s k p n ws = Inr z \<Longrightarrow> i \<le> length ws \<Longrightarrow> \<exists>p' n'. verify_rows c s k p n (take i ws) = Inr (p', n')"
  using verify_rows_append [of c s k p n "take i ws" "drop i ws"] by (auto split: sum.splits)

lemma verify_rows_last:
  "verify_rows c s k p n ws = Inr (p', n') \<Longrightarrow> p' = (if ws = [] then p else AwHash (last ws)) \<and> n' = n + int (length ws)"
proof (induction ws arbitrary: p n)
  case (Cons w ws)
  then have "verify_rows c s k (AwHash w) (AwSeq w) ws = Inr (p', n')" "AwSeq w = n + 1"
    by (auto simp: VerifyAuditRecord_def row_record_def split: if_splits)
  then show ?case using Cons.IH [of "AwHash w" "AwSeq w"] by auto
qed simp

lemma verify_rows_nth:
  assumes "verify_rows c s k p n ws = Inr z" "i < length ws"
  shows "VerifyAuditRecord c k (row_record s (ws ! i)) (if i = 0 then p else AwHash (ws ! (i - 1))) (n + int i + 1)"
proof -
  obtain p' n' where t: "verify_rows c s k p n (take i ws) = Inr (p', n')" using verify_rows_take [OF assms(1)] assms(2) by fastforce
  note l = verify_rows_last [OF t]
  have "take (Suc i) ws = take i ws @ [ws ! i]" using assms(2) by (simp add: take_Suc_conv_app_nth)
  moreover obtain y where "verify_rows c s k p n (take (Suc i) ws) = Inr y" using verify_rows_take [OF assms(1), of "Suc i"] assms(2) by auto
  ultimately have "verify_rows c s k p' n' [ws ! i] = Inr y" using t by (simp add: verify_rows_append)
  moreover have "p' = (if i = 0 then p else AwHash (ws ! (i - 1)))" "n' = n + int i"
    using l assms(2) by (auto simp: last_conv_nth)
  ultimately show ?thesis by (auto split: if_splits)
qed

lemma verify_rows_seqs: "verify_rows c s k p n ws = Inr z \<Longrightarrow> map AwSeq ws = map (\<lambda>i. n + int i + 1) [0..<length ws]"
  using verify_rows_nth [of c s k p n ws z] by (intro nth_equalityI) (auto simp: VerifyAuditRecord_def row_record_def)

section \<open>Two kinds of write\<close>

text \<open>A row of the trail is valid when its fields are valid strings.\<close>

definition valid_row :: "AuditRow \<Rightarrow> bool" where
  "valid_row w \<longleftrightarrow> ValidString (AwTS w) \<and> ValidString (AwPrevious w) \<and> ValidString (AwPayload w)"

text \<open>Besides appending, only the transport state of deliveries is written, and no acknowledgement is taken back.\<close>

inductive audit_write :: "'k crypto \<Rightarrow> 'k auditConfig \<Rightarrow> 'b AuditDB \<Rightarrow> 'b AuditDB \<Rightarrow> bool" for c a where
  business: "AdHead db' = AdHead db \<Longrightarrow> AdTrail db' = AdTrail db \<Longrightarrow> AdDelivery db' = AdDelivery db \<Longrightarrow> audit_write c a db db'"
| append: "ValidString ts \<Longrightarrow> appendAudit c a p ts ok db = Inr db' \<Longrightarrow> audit_write c a db db'"
| deliver: "(\<And>d. DySeq (f d) = DySeq d \<and> DyCategory (f d) = DyCategory d \<and> (DyAck d \<longrightarrow> DyAck (f d))) \<Longrightarrow>
    audit_write c a db (db\<lparr>AdDelivery := update_where p f (AdDelivery db)\<rparr>)"

definition trail_ok :: "'k crypto \<Rightarrow> 'k auditConfig \<Rightarrow> 'b AuditDB \<Rightarrow> bool" where
  "trail_ok c a db \<longleftrightarrow>
     (\<exists>h. AdHead db = Some h \<and> AhPublic h = PublicKey c (AcKey a) \<and> AhStream h \<noteq> [] \<and> ValidString (AhStream h) \<and>
        verify_rows c (AhStream h) (AhPublic h) [] 0 (AdTrail db) = Inr (AhHash h, AhSeq h)) \<and>
     map DySeq (AdDelivery db) = map AwSeq (AdTrail db) \<and> list_all valid_row (AdTrail db)"

text \<open>The limits of the three categories.\<close>

definition within_limits :: "'k auditConfig \<Rightarrow> 'b AuditDB \<Rightarrow> bool" where
  "within_limits a db \<longleftrightarrow>
     pending_of ''security'' (AdDelivery db) \<le> AcCapacity a \<and> pending_of ''access'' (AdDelivery db) \<le> 1000 \<and>
     pending_of ''control'' (AdDelivery db) \<le> 10000"

lemma trail_okE:
  assumes "trail_ok c a db"
  obtains h where "AdHead db = Some h" "AhPublic h = PublicKey c (AcKey a)" "AhStream h \<noteq> []" "ValidString (AhStream h)"
    "verify_rows c (AhStream h) (AhPublic h) [] 0 (AdTrail db) = Inr (AhHash h, AhSeq h)"
    "map DySeq (AdDelivery db) = map AwSeq (AdTrail db)" "list_all valid_row (AdTrail db)"
    "AhSeq h = int (length (AdTrail db))" "AhHash h = (if AdTrail db = [] then [] else AwHash (last (AdTrail db)))"
    "map AwSeq (AdTrail db) = map (\<lambda>i. int i + 1) [0..<length (AdTrail db)]"
proof -
  from assms obtain h where h: "AdHead db = Some h" "AhPublic h = PublicKey c (AcKey a)" "AhStream h \<noteq> []" "ValidString (AhStream h)"
    "verify_rows c (AhStream h) (AhPublic h) [] 0 (AdTrail db) = Inr (AhHash h, AhSeq h)"
    "map DySeq (AdDelivery db) = map AwSeq (AdTrail db)" "list_all valid_row (AdTrail db)"
    by (auto simp: trail_ok_def)
  then show ?thesis using verify_rows_last [OF h(5)] verify_rows_seqs [OF h(5)] by (intro that [of h]) auto
qed

lemma seqs_simps:
  assumes "map AwSeq ws = map (\<lambda>i. int i + 1) [0..<length ws]"
  shows "i < length ws \<Longrightarrow> AwSeq (ws ! i) = int i + 1" "sorted (map AwSeq ws)" "distinct (map AwSeq ws)"
    "row_of AwSeq n ws = (if 1 \<le> n \<and> n \<le> int (length ws) then Some (ws ! nat (n - 1)) else None)"
proof -
  show nth: "AwSeq (ws ! i) = int i + 1" if "i < length ws" for i
    using arg_cong [OF assms, of "\<lambda>xs. xs ! i"] that by simp
  show "sorted (map AwSeq ws)" unfolding assms by (auto simp: sorted_iff_nth_mono)
  show d: "distinct (map AwSeq ws)" unfolding assms by (auto simp: distinct_map inj_on_def)
  show "row_of AwSeq n ws = (if 1 \<le> n \<and> n \<le> int (length ws) then Some (ws ! nat (n - 1)) else None)"
  proof (cases "1 \<le> n \<and> n \<le> int (length ws)")
    case True
    then have i: "nat (n - 1) < length ws" "int (nat (n - 1)) + 1 = n" by auto
    then show ?thesis using row_of_in_set [of AwSeq ws "ws ! nat (n - 1)"] d nth [OF i(1)] nth_mem [OF i(1)] True
      by (simp add: keys_distinct_def)
  next
    case False
    then have "n \<notin> AwSeq ` set ws" using nth by (fastforce simp: in_set_conv_nth)
    then show ?thesis unfolding if_not_P [OF False] by (simp add: row_of_None)
  qed
qed

text \<open>What appending does.\<close>

lemma appendAudit_InrD:
  assumes "appendAudit c a p ts ok db = Inr db'"
  obtains h cat cap where "AdHead db = Some h" "audit_category (AcCapacity a) p = (cat, cap)"
    "pending_of cat (AdDelivery db) < cap"
    "AdTrail db' = AdTrail db @ [next_row c (AcKey a) h ts p]"
    "AdDelivery db' = AdDelivery db @ [new_delivery (AhSeq h + 1) cat]"
    "AdHead db' = Some (h\<lparr>AhSeq := AhSeq h + 1, AhHash := AwHash (next_row c (AcKey a) h ts p)\<rparr>)"
    "AdBusiness db' = AdBusiness db"
proof -
  have "AwSeq (next_row c (AcKey a) h ts p) = AhSeq h + 1" for h by (simp add: next_row_def Let_def)
  then show ?thesis using assms that by (auto simp: appendAudit_def Let_def split: prod.splits option.splits if_splits)
qed

lemma next_row_verifies:
  assumes "signature_scheme c k" "ValidString ts" "ValidString (AhHash h)" "AhPublic h = PublicKey c k"
  shows "VerifyAuditRecord c (AhPublic h) (row_record (AhStream h) (next_row c k h ts p)) (AhHash h) (AhSeq h + 1)"
    "valid_row (next_row c k h ts p)" "ValidString (AwHash (next_row c k h ts p))"
  using assms
  by (simp_all add: VerifyAuditRecord_def next_row_def Let_def row_record_def recordHash_def signature_scheme_def valid_row_def
      ValidString_payload)

lemma write_keeps_trail:
  assumes "signature_scheme c (AcKey a)" "audit_write c a db db'" "trail_ok c a db"
  shows "trail_ok c a db'"
  using assms(2)
proof cases
  case business
  then show ?thesis using assms(3) by (simp add: trail_ok_def)
next
  case (append ts p ok)
  from assms(3) obtain h where h: "AdHead db = Some h" "AhPublic h = PublicKey c (AcKey a)" "AhStream h \<noteq> []" "ValidString (AhStream h)"
    "verify_rows c (AhStream h) (AhPublic h) [] 0 (AdTrail db) = Inr (AhHash h, AhSeq h)"
    "map DySeq (AdDelivery db) = map AwSeq (AdTrail db)" "list_all valid_row (AdTrail db)"
    by (auto simp: trail_ok_def)
  have "ValidString (AhHash h)"
  proof (cases "AdTrail db = []")
    case False
    then have i: "length (AdTrail db) - 1 < length (AdTrail db)" by simp
    have "ArHash (row_record (AhStream h) (AdTrail db ! (length (AdTrail db) - 1))) =
        recordHash c (row_record (AhStream h) (AdTrail db ! (length (AdTrail db) - 1)))"
      using verify_rows_nth [OF h(5) i] by (simp only: VerifyAuditRecord_def)
    then have "ValidString (AwHash (last (AdTrail db)))"
      using assms(1) False by (simp add: signature_scheme_def recordHash_def last_conv_nth row_record_def)
    then show ?thesis using verify_rows_last [OF h(5)] False by simp
  qed (use verify_rows_last [OF h(5)] in simp)
  note nr = next_row_verifies [OF assms(1) append(1) this h(2), of p]
  have sq: "AwSeq (next_row c (AcKey a) h ts p) = AhSeq h + 1" by (simp add: next_row_def Let_def)
  show ?thesis
    using append(2) h nr sq
    by (elim appendAudit_InrD) (auto simp: trail_ok_def verify_rows_append new_delivery_def)
next
  case (deliver f p)
  then have "map DySeq (AdDelivery db') = map DySeq (AdDelivery db)" by (simp add: keys_update_where)
  then show ?thesis using assms(3) deliver(1) by (simp add: trail_ok_def)
qed

lemma pending_append: "pending_of cat (ds @ [new_delivery n cat']) = pending_of cat ds + (if cat' = cat then 1 else 0)"
  by (simp add: pending_of_def count_where_def new_delivery_def)

lemma pending_deliver:
  assumes "\<And>d. DyCategory (f d) = DyCategory d \<and> (DyAck d \<longrightarrow> DyAck (f d))"
  shows "pending_of cat (update_where p f ds) \<le> pending_of cat ds"
  unfolding pending_of_def by (intro of_nat_mono count_where_update_le) (use assms in auto)

lemma write_keeps_limits:
  assumes "audit_write c a db db'" "within_limits a db"
  shows "within_limits a db'"
  using assms(1)
proof cases
  case business
  then show ?thesis using assms(2) by (simp add: within_limits_def)
next
  case (append ts p ok)
  then show ?thesis using assms(2)
    by (elim appendAudit_InrD) (auto simp: within_limits_def audit_category_def pending_append split: if_splits)
next
  case (deliver f p)
  then have "pending_of cat (AdDelivery db') \<le> pending_of cat (AdDelivery db)" for cat
    by (simp add: pending_deliver)
  then show ?thesis using assms(2) by (meson within_limits_def order_trans)
qed

text \<open>A trail that is kept this way verifies.\<close>

lemma trail_ok_verifies:
  assumes "trail_ok c a db" "signature_scheme c (AcKey a)"
  shows "VerifyAudit c (Some a) db = None"
proof -
  from assms(1) obtain h where h: "AdHead db = Some h" "AhPublic h = PublicKey c (AcKey a)"
    "verify_rows c (AhStream h) (AhPublic h) [] 0 (AdTrail db) = Inr (AhHash h, AhSeq h)"
    "map DySeq (AdDelivery db) = map AwSeq (AdTrail db)" "map AwSeq (AdTrail db) = map (\<lambda>i. int i + 1) [0..<length (AdTrail db)]"
    by (rule trail_okE)
  have "sort_key AwSeq (AdTrail db) = AdTrail db" by (rule sort_key_id_if_sorted) (rule seqs_simps(2) [OF h(5)])
  moreover have "\<not> list_ex (\<lambda>w. row_of DySeq (AwSeq w) (AdDelivery db) = None) (AdTrail db)"
    using arg_cong [OF h(4), of set] by (auto simp: list_ex_iff row_of_None)
  ultimately show ?thesis using h assms(2) by (simp add: VerifyAudit_def signature_scheme_def)
qed

end
