(* ===== verification/AuditRuns.thy ===== *)
theory AuditRuns
  imports AuditChain
begin

text \<open>
  The runs of the audit trail and its export: transactions, requests, retries, exports over a network that
  loses messages, restarts of the collector (\<open>audit_step\<close>); what the collector holds (\<open>holds_first\<close>), which
  records are acknowledged (\<open>exported\<close>), why a chain is determined by its last hash, how the export gets
  stuck (\<open>blocked\<close>), and what a transaction records.
\<close>

section \<open>Steps\<close>

text \<open>
  A message may be lost before the collector; otherwise the collector handles it (\<open>token_ok\<close>, what happens to its
  write) and its answer may be replaced on the way by anything but a receipt.
\<close>

datatype wire = Lost | Reached bool file_write "response option"

fun send :: "'k crypto \<Rightarrow> wire \<Rightarrow> AuditRecord \<Rightarrow> Collector \<Rightarrow> response \<times> Collector" where
  "send c Lost r k = (NoResponse, k)"
| "send c (Reached token_ok w answer) r k =
     (let (x, k') = ServeHTTP c token_ok w r k in ((case answer of None \<Rightarrow> x | Some y \<Rightarrow> y), k'))"

definition honest_wire :: "wire \<Rightarrow> bool" where
  "honest_wire v \<longleftrightarrow> (\<forall>t w a. v \<noteq> Reached t w (Some (Http200 a)))"

type_synonym 'b statement = "string \<times> string list \<times> ('b \<times> int) option"

definition run_statements :: "'k crypto \<Rightarrow> 'b statement list \<Rightarrow> 'b AuditDB \<Rightarrow> 'b AuditTx" where
  "run_statements c qs db = fold (\<lambda>(q, args, res). Exec c q args res) qs (BeginTx db)"

inductive audit_step :: "'k crypto \<Rightarrow> 'k auditConfig \<Rightarrow> 'b AuditDB \<times> Collector \<Rightarrow> 'b AuditDB \<times> Collector \<Rightarrow> bool" for c a where
  transaction: "ValidString ts \<Longrightarrow> audit_step c a (db, k) (snd (Commit c a i ts ok (run_statements c qs db)), k)"
| observation: "ValidString ts \<Longrightarrow> AuditObservation c a i event outcome ts ok db = Inr db' \<Longrightarrow> audit_step c a (db, k) (db', k)"
| retry: "ValidString ts \<Longrightarrow> audit_step c a (db, k) (snd (retrySecurityAudit c a r admin ts ok db), k)"
| export: "honest_wire v \<Longrightarrow> Step c (send c v) now ok (db, k) = (res, db', k') \<Longrightarrow> audit_step c a (db, k) (db', k')"
| restart: "OpenCollector c (CoPublic k) len (CoFile k) (CoTorn k) = Some k' \<Longrightarrow> audit_step c a (db, k) (db, k')"

text \<open>The start: a new key and stream, a collector with an empty file and the public key.\<close>

definition audit_start :: "'k crypto \<Rightarrow> 'k auditConfig \<Rightarrow> 'b AuditDB \<times> Collector \<Rightarrow> bool" where
  "audit_start c a s \<longleftrightarrow>
     (\<exists>durable owner_only ok fresh stream cap file file' db0 len.
        AdHead db0 = None \<and> AdTrail db0 = [] \<and> AdDelivery db0 = [] \<and> stream \<noteq> [] \<and> ValidString stream \<and>
        EnableAudit c durable owner_only ok fresh stream cap file db0 = (Inr a, file', fst s) \<and>
        OpenCollector c (PublicKey c (AcKey a)) len [] False = Some (snd s))"

definition audit_reachable :: "'k crypto \<Rightarrow> 'k auditConfig \<Rightarrow> 'b AuditDB \<times> Collector \<Rightarrow> bool" where
  "audit_reachable c a s \<longleftrightarrow> (\<exists>s0. audit_start c a s0 \<and> (audit_step c a)\<^sup>*\<^sup>* s0 s)"

section \<open>Steps are writes\<close>

lemma run_statements_now:
  "TxBase (run_statements c qs db) = db \<and> AdHead (TxNow (run_statements c qs db)) = AdHead db \<and>
   AdTrail (TxNow (run_statements c qs db)) = AdTrail db \<and> AdDelivery (TxNow (run_statements c qs db)) = AdDelivery db"
  unfolding run_statements_def
  by (induction qs rule: rev_induct) (auto simp: BeginTx_def Exec_def split: option.splits)

lemma restart_delivery_write: "audit_write c a db (db\<lparr>AdDelivery := restart_delivery (AdDelivery db)\<rparr>)"
proof (cases "oldest_pending (AdDelivery db)")
  case None
  then show ?thesis by (intro audit_write.business) (simp_all add: restart_delivery_def)
next
  case (Some d)
  then show ?thesis
    using audit_write.deliver [of "\<lambda>x. x\<lparr>DyDead := False, DyAttempts := 0, DyNext := 0, DyError := []\<rparr>" c a db "\<lambda>x. DySeq x = DySeq d"]
    by (simp add: restart_delivery_def)
qed

lemma postpone_write: "audit_write c a db (db\<lparr>AdDelivery := postpone now d x (AdDelivery db)\<rparr>)"
proof -
  obtain code permanent where x: "response_code x = (code, permanent)" by force
  show ?thesis unfolding postpone_def x by (simp add: Let_def audit_write.deliver)
qed

lemma acknowledge_write: "audit_write c a db (db\<lparr>AdDelivery := acknowledge n (AdDelivery db)\<rparr>)"
  unfolding acknowledge_def by (rule audit_write.deliver) simp

lemma step_writes:
  assumes "audit_step c a (db, k) (db', k')"
  shows "(audit_write c a)\<^sup>*\<^sup>* db db'"
  using assms
proof cases
  case (transaction ts i ok qs)
  note n = run_statements_now [of c qs db]
  have b: "audit_write c a db (TxNow (run_statements c qs db))" using n by (intro audit_write.business) simp_all
  show ?thesis
  proof (cases "TxChanges (run_statements c qs db) = []")
    case True
    then show ?thesis using transaction b n by (auto simp: Commit_def)
  next
    case False
    then have "db' = db \<or> (\<exists>p. appendAudit c a p ts ok (TxNow (run_statements c qs db)) = Inr db')"
      using transaction n by (auto simp: Commit_def split: sum.splits)
    then show ?thesis
    proof
      assume "\<exists>p. appendAudit c a p ts ok (TxNow (run_statements c qs db)) = Inr db'"
      then have "audit_write c a (TxNow (run_statements c qs db)) db'" using transaction by (blast intro: audit_write.append)
      then show ?thesis using b by (meson converse_rtranclp_into_rtranclp r_into_rtranclp)
    qed simp
  qed
next
  case (observation ts i event outcome ok)
  then show ?thesis by (auto simp: AuditObservation_def intro: audit_write.append)
next
  case (retry ts r admin ok)
  consider "db' = db" | tx where "AuditAdministrative c a (request_identity c r) ''export.retry'' ts ok (BeginTx db) = Inr tx"
    "db' = (TxNow tx)\<lparr>AdDelivery := restart_delivery (AdDelivery (TxNow tx))\<rparr>"
    using retry by (auto simp: retrySecurityAudit_def split: sum.splits if_splits)
  then show ?thesis
  proof cases
    case 2
    then obtain db1 where "appendAudit c a (event_payload (request_identity c r) ''export.retry'' ''accepted'') ts ok db = Inr db1" "TxNow tx = db1"
      by (auto simp: AuditAdministrative_def BeginTx_def map_sum_def split: sum.splits)
    then have "audit_write c a db db1" "audit_write c a db1 db'"
      using 2(2) retry restart_delivery_write [of c a db1] by (auto intro: audit_write.append)
    then show ?thesis by (meson converse_rtranclp_into_rtranclp r_into_rtranclp)
  qed simp
next
  case (export v now ok res)
  then show ?thesis
    by (auto simp: Step_def Let_def split: sum.splits prod.splits if_splits intro: acknowledge_write postpone_write)
next
  case (restart len)
  then show ?thesis by simp
qed

lemma steps_write: "(audit_step c a)\<^sup>*\<^sup>* s s' \<Longrightarrow> (audit_write c a)\<^sup>*\<^sup>* (fst s) (fst s')"
  by (induction rule: rtranclp_induct) (auto dest!: step_writes)

lemma writes_keep:
  assumes "signature_scheme c (AcKey a)" "(audit_write c a)\<^sup>*\<^sup>* db db'" "trail_ok c a db" "within_limits a db"
  shows "trail_ok c a db' \<and> within_limits a db'"
  using assms(2) by (induction rule: rtranclp_induct) (use assms in \<open>auto dest: write_keeps_trail write_keeps_limits\<close>)

lemma start_trail:
  assumes "audit_start c a s"
  shows "trail_ok c a (fst s) \<and> within_limits a (fst s)"
    "\<exists>len. OpenCollector c (PublicKey c (AcKey a)) len [] False = Some (snd s)" "AdTrail (fst s) = []" "AdDelivery (fst s) = []"
proof -
  from assms obtain durable owner_only ok fresh stream cap f0 f1 db0 len
    where e: "AdHead db0 = None" "AdTrail db0 = []" "AdDelivery db0 = []" "stream \<noteq> []" "ValidString stream"
    "EnableAudit c durable owner_only ok fresh stream cap f0 db0 = (Inr a, f1, fst s)"
    and o: "OpenCollector c (PublicKey c (AcKey a)) len [] False = Some (snd s)" by (auto simp: audit_start_def)
  have "fst s = db0\<lparr>AdHead := Some \<lparr>AhStream = stream, AhSeq = 0, AhHash = [], AhPublic = PublicKey c (AcKey a)\<rparr>\<rparr> \<and> 1 \<le> AcCapacity a"
    using e(1,6) by (auto simp: EnableAudit_def Let_def split: if_splits key_file.splits option.splits)
  then show "trail_ok c a (fst s) \<and> within_limits a (fst s)"
    "\<exists>len. OpenCollector c (PublicKey c (AcKey a)) len [] False = Some (snd s)" "AdTrail (fst s) = []" "AdDelivery (fst s) = []"
    using e o by (auto simp: trail_ok_def within_limits_def pending_of_def count_where_def)
qed

lemma reachable_trail:
  assumes "signature_scheme c (AcKey a)" "audit_reachable c a (db, k)"
  shows "trail_ok c a db \<and> within_limits a db"
proof -
  from assms(2) obtain s0 where s: "audit_start c a s0" "(audit_step c a)\<^sup>*\<^sup>* s0 (db, k)" by (auto simp: audit_reachable_def)
  show ?thesis using writes_keep [OF assms(1) steps_write [OF s(2)]] start_trail(1) [OF s(1)] by simp
qed

section \<open>The collector\<close>

definition records_of :: "'b AuditDB \<Rightarrow> AuditRecord list" where
  "records_of db = (case AdHead db of None \<Rightarrow> [] | Some h \<Rightarrow> map (row_record (AhStream h)) (AdTrail db))"

definition ack_at :: "AuditRecord list \<Rightarrow> nat \<Rightarrow> ACK" where
  "ack_at rs m = (if m = 0 then no_ack else ack_of (rs ! (m - 1)))"

definition receipts_of :: "AuditRecord list \<Rightarrow> nat \<Rightarrow> int \<Rightarrow> ACK option" where
  "receipts_of rs m n = (if 1 \<le> n \<and> n \<le> int m then Some (ack_of (rs ! nat (n - 1))) else None)"

text \<open>A genuine chain of records.\<close>

definition genuine :: "'k crypto \<Rightarrow> string \<Rightarrow> AuditRecord list \<Rightarrow> bool" where
  "genuine c public rs \<longleftrightarrow>
     (\<exists>s. s \<noteq> [] \<and> (\<forall>r\<in>set rs. ArStream r = s)) \<and>
     (\<forall>i<length rs. VerifyAuditRecord c public (rs ! i) (if i = 0 then [] else ArHash (rs ! (i - 1))) (int i + 1))"

lemma trail_genuine: "trail_ok c a db \<Longrightarrow> genuine c (PublicKey c (AcKey a)) (records_of db)"
proof (elim trail_okE)
  fix h assume h: "AdHead db = Some h" "AhPublic h = PublicKey c (AcKey a)" "AhStream h \<noteq> []"
    "verify_rows c (AhStream h) (AhPublic h) [] 0 (AdTrail db) = Inr (AhHash h, AhSeq h)"
  have "VerifyAuditRecord c (PublicKey c (AcKey a)) (records_of db ! i) (if i = 0 then [] else ArHash (records_of db ! (i - 1))) (int i + 1)"
    if "i < length (AdTrail db)" for i
    using verify_rows_nth [OF h(4) that] that h(1,2) by (cases i) (simp_all add: records_of_def row_record_def)
  moreover have "\<exists>s. s \<noteq> [] \<and> (\<forall>r\<in>set (records_of db). ArStream r = s)" using h by (auto simp: records_of_def row_record_def)
  moreover have "length (records_of db) = length (AdTrail db)" using h by (simp add: records_of_def)
  ultimately show ?thesis unfolding genuine_def by simp
qed

lemma genuine_seq: "genuine c p rs \<Longrightarrow> i < length rs \<Longrightarrow> ArSeq (rs ! i) = int i + 1"
  by (auto simp: genuine_def VerifyAuditRecord_def)

lemma genuine_acceptable:
  assumes "genuine c (CoPublic k) rs" "i < length rs" "CoLast k = ack_at rs i"
  shows "acceptable c (rs ! i) k"
proof -
  obtain s where s: "s \<noteq> []" "\<And>j. j < length rs \<Longrightarrow> ArStream (rs ! j) = s" using assms(1) by (auto simp: genuine_def)
  have "VerifyAuditRecord c (CoPublic k) (rs ! i) (if i = 0 then [] else ArHash (rs ! (i - 1))) (int i + 1)"
    using assms(1,2) by (auto simp: genuine_def)
  then show ?thesis using s(1) s(2) [of i] s(2) [of "i - 1"] assms genuine_seq [OF assms(1), of "i - 1"]
    by (cases i) (simp_all add: acceptable_def ack_at_def ack_of_def no_ack_def)
qed

lemma receipts_Suc: "m < length rs \<Longrightarrow> ArSeq (rs ! m) = int m + 1 \<Longrightarrow> (receipts_of rs m)(ArSeq (rs ! m) \<mapsto> ack_of (rs ! m)) = receipts_of rs (Suc m)"
  by (rule ext) (auto simp: receipts_of_def)

lemma reopen_append: "reopen c (rs @ [r]) k = (case reopen c rs k of None \<Rightarrow> None | Some k' \<Rightarrow> if acceptable c r k' then Some (take_record r k') else None)"
  by (induction rs arbitrary: k) auto

text \<open>Reading back a prefix of a genuine chain ends in the state after that prefix.\<close>

definition collector_at :: "string \<Rightarrow> AuditRecord list \<Rightarrow> bool \<Rightarrow> AuditRecord list \<Rightarrow> nat \<Rightarrow> Collector" where
  "collector_at public file torn rs m = (new_collector public file torn)\<lparr>CoLast := ack_at rs m, CoReceipts := receipts_of rs m\<rparr>"

lemma reopen_genuine:
  assumes "genuine c public rs"
  shows "m \<le> length rs \<Longrightarrow> reopen c (take m rs) (new_collector public file torn) = Some (collector_at public file torn rs m)"
proof (induction m)
  case 0
  show ?case by (simp add: collector_at_def new_collector_def ack_at_def receipts_of_def fun_eq_iff)
next
  case (Suc m)
  let ?k = "collector_at public file torn rs m"
  have p: "CoPublic ?k = public" "CoLast ?k = ack_at rs m" "CoReceipts ?k = receipts_of rs m"
    by (simp_all add: collector_at_def new_collector_def)
  have "acceptable c (rs ! m) ?k" by (rule genuine_acceptable) (use assms Suc.prems p in simp_all)
  moreover have "take_record (rs ! m) ?k = collector_at public file torn rs (Suc m)"
    using receipts_Suc [of m rs] genuine_seq [OF assms, of m] Suc.prems p
    by (simp add: take_record_def collector_at_def new_collector_def ack_at_def)
  ultimately show ?case using Suc by (simp add: take_Suc_conv_app_nth reopen_append)
qed

text \<open>What the collector has: the first \<open>m\<close> records; after a failed sync there may be one more in the file.\<close>

definition holds_first :: "string \<Rightarrow> AuditRecord list \<Rightarrow> nat \<Rightarrow> Collector \<Rightarrow> bool" where
  "holds_first public rs m k \<longleftrightarrow>
     m \<le> length rs \<and> CoPublic k = public \<and> CoLast k = ack_at rs m \<and> CoReceipts k = receipts_of rs m \<and>
     (CoFile k = take m rs \<or> CoBroken k \<and> m < length rs \<and> CoFile k = take (Suc m) rs) \<and> (CoTorn k \<longrightarrow> CoBroken k)"

lemma holds_first_more:
  assumes "holds_first public rs m k"
  shows "holds_first public (rs @ ss) m k"
proof -
  have "ack_at (rs @ ss) m = ack_at rs m" "receipts_of (rs @ ss) m = receipts_of rs m"
    using assms by (auto simp: holds_first_def ack_at_def receipts_of_def fun_eq_iff nth_append)
  then show ?thesis using assms by (auto simp: holds_first_def)
qed

lemma restart_holds:
  assumes "holds_first public rs m k" "genuine c public rs" "OpenCollector c (CoPublic k) len (CoFile k) (CoTorn k) = Some k'"
  shows "\<exists>m'\<ge>m. holds_first public rs m' k' \<and> (\<not> CoBroken k \<longrightarrow> k' = k)"
proof -
  note open_eq = assms(3) [unfolded OpenCollector_def]
  have at_m: "holds_first public rs n (collector_at public (take n rs) False rs n)" if "n \<le> length rs" for n
    using that by (simp add: holds_first_def collector_at_def new_collector_def)
  from assms(1) have p: "CoPublic k = public" "m \<le> length rs" by (simp_all add: holds_first_def)
  from assms(1) consider "CoFile k = take m rs" | "CoBroken k" "m < length rs" "CoFile k = take (Suc m) rs" by (auto simp: holds_first_def)
  then show ?thesis
  proof cases
    case 1
    then have k': "k' = collector_at public (take m rs) False rs m" "\<not> CoTorn k"
      using open_eq reopen_genuine [OF assms(2) p(2)] p by (auto split: if_splits)
    moreover have "k' = k" if "\<not> CoBroken k"
      using k' that 1 assms(1) by (cases k) (simp add: holds_first_def collector_at_def new_collector_def)
    ultimately show ?thesis using at_m [OF p(2)] by blast
  next
    case 2
    then have "k' = collector_at public (take (Suc m) rs) False rs (Suc m)"
      using open_eq reopen_genuine [OF assms(2), of "Suc m"] p by (auto split: if_splits)
    then show ?thesis using at_m [of "Suc m"] 2 by (intro exI [of _ "Suc m"]) auto
  qed
qed

text \<open>A genuine record that is not ahead is answered with its receipt, or the answer is an error.\<close>

lemma serve_holds:
  assumes "holds_first public rs m k" "genuine c public rs" "i \<le> m" "i < length rs"
    and s: "ServeHTTP c token_ok w (rs ! i) k = (x, k')"
  shows "\<exists>m'\<ge>m. holds_first public rs m' k' \<and> (\<forall>y. x = Http200 y \<longrightarrow> i < m' \<and> y = Some (ack_of (rs ! i)))"
proof -
  note h = assms(1) [unfolded holds_first_def]
  have sq: "ArSeq (rs ! i) = int i + 1" by (rule genuine_seq [OF assms(2,4)])
  consider "k' = k" "\<forall>y. x \<noteq> Http200 y" | "i < m" "k' = k" "x = Http200 (Some (ack_of (rs ! i)))"
    | t where "i = m" "\<not> CoBroken k" "accept_record c w (rs ! i) k = (t, k')" "x = (if t then Http200 (Some (CoLast k')) else HttpStatus 409)"
  proof (cases "token_ok \<and> \<not> CoBroken k")
    case False
    then show ?thesis using s that(1) by (auto simp: ServeHTTP_def split: if_splits)
  next
    case True
    show ?thesis
    proof (cases "i < m")
      case i: True
      then have "CoReceipts k (ArSeq (rs ! i)) = Some (ack_of (rs ! i))" using h sq by (simp add: receipts_of_def)
      then show ?thesis using s i True that(1,2) by (auto simp: ServeHTTP_def split: if_splits)
    next
      case i: False
      then have no: "CoReceipts k (ArSeq (rs ! i)) = None" using h sq by (simp add: receipts_of_def)
      obtain t k1 where t: "accept_record c w (rs ! i) k = (t, k1)" by force
      have "(x, k') = (if t then Http200 (Some (CoLast k1)) else HttpStatus 409, k1)"
        using s True t no by (cases t) (auto simp: ServeHTTP_def)
      then show ?thesis using that(3) [of t] t i True assms(3) by (cases t) simp_all
    qed
  qed
  then show ?thesis
  proof cases
    case 3
    have acc: "acceptable c (rs ! m) k" by (rule genuine_acceptable) (use h assms(2,4) 3(1) in auto)
    have f: "CoFile k = take m rs" "m < length rs" "take m rs @ [rs ! m] = take (Suc m) rs"
      using h 3 assms(4) by (auto simp: take_Suc_conv_app_nth)
    show ?thesis
    proof (cases "w = Written")
      case True
      then have "k' = take_record (rs ! m) (k\<lparr>CoFile := CoFile k @ [rs ! m]\<rparr>)" "x = Http200 (Some (ack_of (rs ! m)))"
        using 3 acc by (auto simp: accept_record_def take_record_def)
      then have "holds_first public rs (Suc m) k'" "x = Http200 (Some (ack_of (rs ! m)))"
        using h 3(1,2) f receipts_Suc [of m rs] sq by (auto simp: holds_first_def take_record_def ack_at_def)
      then show ?thesis using 3(1) by (intro exI [of _ "Suc m"]) simp
    next
      case False
      then have "holds_first public rs m k' \<and> (\<forall>y. x \<noteq> Http200 y)"
        using h 3 f acc by (cases w) (auto simp: accept_record_def holds_first_def)
      then show ?thesis by blast
    qed
  qed (use assms(1) in auto)
qed

section \<open>Exports\<close>

lemma oldest_pending_Some:
  "oldest_pending ds = Some d \<Longrightarrow> d \<in> set ds \<and> \<not> DyAck d \<and> (\<forall>e\<in>set ds. \<not> DyAck e \<longrightarrow> DySeq d \<le> DySeq e)"
proof -
  assume "oldest_pending ds = Some d"
  then obtain es where e: "sort_key DySeq (filter (\<lambda>d. \<not> DyAck d) ds) = d # es"
    by (auto simp: oldest_pending_def split: list.splits)
  have "set (sort_key DySeq (filter (\<lambda>d. \<not> DyAck d) ds)) = {d \<in> set ds. \<not> DyAck d}" by simp
  then have s: "insert d (set es) = {d \<in> set ds. \<not> DyAck d}" unfolding e by simp
  have "sorted (map DySeq (d # es))" using sorted_sort_key [of DySeq "filter (\<lambda>d. \<not> DyAck d) ds"] unfolding e .
  then show ?thesis using s by auto
qed

lemma oldest_pending_is:
  assumes "distinct (map DySeq ds)" "d \<in> set ds" "\<not> DyAck d" "\<And>e. e \<in> set ds \<Longrightarrow> \<not> DyAck e \<Longrightarrow> DySeq d \<le> DySeq e"
  shows "oldest_pending ds = Some d"
proof -
  have "oldest_pending ds \<noteq> None"
    using assms(2,3) by (auto simp: oldest_pending_def filter_empty_conv split: list.splits
        dest!: arg_cong [of "sort_key DySeq _" "[]" set])
  then obtain e where e: "oldest_pending ds = Some e" by auto
  then have "e \<in> set ds" "DySeq e = DySeq d" using oldest_pending_Some [OF e] assms(2-4) by (auto intro: antisym)
  then show ?thesis using e assms(1,2) by (auto dest: map_of_SomeD inj_onD [of DySeq "set ds"] simp: distinct_map)
qed

text \<open>What is sent is the record of the oldest delivery that waits.\<close>

lemma to_export_genuine:
  assumes "trail_ok c a db" "to_export c now db = Inr (d, r)"
  shows "oldest_pending (AdDelivery db) = Some d \<and> \<not> DyDead d \<and> 1 \<le> DySeq d \<and> DySeq d \<le> int (length (records_of db)) \<and>
    r = records_of db ! nat (DySeq d - 1)"
proof -
  from assms(1) obtain h where h: "AdHead db = Some h" "map DySeq (AdDelivery db) = map AwSeq (AdTrail db)"
    "map AwSeq (AdTrail db) = map (\<lambda>i. int i + 1) [0..<length (AdTrail db)]" by (rule trail_okE)
  have o: "oldest_pending (AdDelivery db) = Some d" "\<not> DyDead d" "AuditRecords (DySeq d - 1) 1 db = Inr [r]" "ArSeq r = DySeq d"
    using assms(2) by (auto simp: to_export_def split: option.splits if_splits sum.splits list.splits)
  then have "r \<in> row_record (AhStream h) ` set (AdTrail db)"
    using h(1) set_take_subset [of 1 "sort_key AwSeq (filter (\<lambda>w. AwSeq w > DySeq d - 1) (AdTrail db))"]
    by (auto simp: AuditRecords_def dest!: in_set_takeD)
  then obtain w where w: "w \<in> set (AdTrail db)" "r = row_record (AhStream h) w" by auto
  then obtain i where i: "i < length (AdTrail db)" "w = AdTrail db ! i" by (auto simp: in_set_conv_nth)
  have "DySeq d = int i + 1" using seqs_simps(1) [OF h(3) i(1)] o(4) w i by (simp add: row_record_def)
  then show ?thesis using o(1,2) w i h(1) by (simp add: records_of_def)
qed

text \<open>The acknowledged deliveries are the first ones.\<close>

definition acknowledged_upto :: "nat \<Rightarrow> DeliveryRow list \<Rightarrow> bool" where
  "acknowledged_upto j ds \<longleftrightarrow> (\<forall>d\<in>set ds. DyAck d \<longleftrightarrow> DySeq d \<le> int j)"

definition exported :: "'k crypto \<Rightarrow> 'k auditConfig \<Rightarrow> 'b AuditDB \<times> Collector \<Rightarrow> bool" where
  "exported c a s \<longleftrightarrow>
     (\<exists>m j. holds_first (PublicKey c (AcKey a)) (records_of (fst s)) m (snd s) \<and> j \<le> m \<and> acknowledged_upto j (AdDelivery (fst s)))"

lemma write_grows:
  assumes "audit_write c a db db'" "trail_ok c a db"
  shows "\<exists>ss. records_of db' = records_of db @ ss"
  using assms(1)
proof cases
  case (append ts p ok)
  then show ?thesis by (elim appendAudit_InrD) (auto simp: records_of_def)
qed (auto simp: records_of_def intro!: exI [of _ "[]"] split: option.splits)

lemma writes_grow:
  assumes "signature_scheme c (AcKey a)" "(audit_write c a)\<^sup>*\<^sup>* db db'" "trail_ok c a db"
  shows "trail_ok c a db' \<and> (\<exists>ss. records_of db' = records_of db @ ss)"
  using assms(2)
proof (induction rule: rtranclp_induct)
  case (step y z)
  then show ?case using write_keeps_trail [OF assms(1) step.hyps(2)] write_grows [OF step.hyps(2)] by fastforce
qed (use assms in auto)

text \<open>Steps that are no export keep what is acknowledged.\<close>

lemma append_acknowledged:
  assumes "appendAudit c a p ts ok db = Inr db'" "trail_ok c a db" "acknowledged_upto j (AdDelivery db)" "j \<le> length (AdTrail db)"
  shows "acknowledged_upto j (AdDelivery db')"
  using assms(1)
proof (rule appendAudit_InrD)
  fix h cat cap assume h: "AdHead db = Some h" "AdDelivery db' = AdDelivery db @ [new_delivery (AhSeq h + 1) cat]"
  have "AhSeq h = int (length (AdTrail db))" using assms(2) h(1) by (auto elim: trail_okE)
  then show ?thesis using assms(3,4) h by (auto simp: acknowledged_upto_def new_delivery_def)
qed

lemma restart_acknowledged: "acknowledged_upto j ds \<Longrightarrow> acknowledged_upto j (restart_delivery ds)"
  by (auto simp: restart_delivery_def acknowledged_upto_def set_update_where split: option.splits)

lemma acknowledge_next: "acknowledged_upto j ds \<Longrightarrow> acknowledged_upto (Suc j) (acknowledge (int j + 1) ds)"
  unfolding acknowledged_upto_def acknowledge_def set_update_where
proof
  fix e assume a: "\<forall>d\<in>set ds. DyAck d = (DySeq d \<le> int j)"
    and "e \<in> (\<lambda>d. if DySeq d = int j + 1 \<and> \<not> DyAck d then d\<lparr>DyAck := True, DyError := []\<rparr> else d) ` set ds"
  then obtain d where d: "d \<in> set ds" "e = (if DySeq d = int j + 1 \<and> \<not> DyAck d then d\<lparr>DyAck := True, DyError := []\<rparr> else d)" by blast
  then have "DyAck d = (DySeq d \<le> int j)" using a by blast
  then show "DyAck e = (DySeq e \<le> int (Suc j))" using d(2) by (cases "DySeq d = int j + 1 \<and> \<not> DyAck d") auto
qed

lemma postpone_acknowledged: "acknowledged_upto j ds \<Longrightarrow> acknowledged_upto j (postpone now d x ds)"
proof -
  assume a: "acknowledged_upto j ds"
  obtain f where f: "postpone now d x ds = update_where (\<lambda>y. DySeq y = DySeq d \<and> \<not> DyAck y) f ds"
    "\<And>y. DySeq (f y) = DySeq y \<and> DyAck (f y) = DyAck y"
    by (simp add: postpone_def case_prod_beta Let_def)
  show ?thesis unfolding acknowledged_upto_def f(1) set_update_where
  proof
    fix e assume "e \<in> (\<lambda>y. if DySeq y = DySeq d \<and> \<not> DyAck y then f y else y) ` set ds"
    then obtain y where y: "y \<in> set ds" "e = f y \<or> e = y" by auto
    have "DyAck y = (DySeq y \<le> int j)" using a [unfolded acknowledged_upto_def] y(1) by blast
    then show "DyAck e = (DySeq e \<le> int j)" using f(2) [of y] y(2) by metis
  qed
qed

lemma export_step:
  assumes "signature_scheme c (AcKey a)" "trail_ok c a db" "exported c a (db, k)" "honest_wire v"
    and st: "Step c (send c v) now ok (db, k) = (res, db', k')"
  shows "exported c a (db', k')"
proof -
  let ?rs = "records_of db"
  from assms(3) obtain m j where hf: "holds_first (PublicKey c (AcKey a)) ?rs m k" "j \<le> m" "acknowledged_upto j (AdDelivery db)"
    by (auto simp: exported_def)
  show ?thesis
  proof (cases "to_export c now db")
    case (Inl e)
    then show ?thesis using st assms(3) by (simp add: Step_def)
  next
    case (Inr dr)
    obtain d r where dr: "dr = (d, r)" by force
    note g = to_export_genuine [OF assms(2) Inr [unfolded dr]]
    define i where "i = nat (DySeq d - 1)"
    have i: "i < length ?rs" "DySeq d = int i + 1" "r = ?rs ! i" using g by (auto simp: i_def)
    note od = oldest_pending_Some [of "AdDelivery db" d]
    have "j \<le> length ?rs" using hf(1,2) by (simp add: holds_first_def)
    have "i = j"
    proof (rule antisym)
      have "\<not> DySeq d \<le> int j" using od g hf(3) by (auto simp: acknowledged_upto_def)
      then show "j \<le> i" using i(2) by simp
      show "i \<le> j"
      proof (cases "j < length ?rs")
        case True
        have ds: "map DySeq (AdDelivery db) = map (\<lambda>i. int i + 1) [0..<length (AdTrail db)]" "length ?rs = length (AdTrail db)"
          using assms(2) by (auto elim!: trail_okE simp: records_of_def)
        have "length (AdDelivery db) = length (AdTrail db)" using arg_cong [OF ds(1), of length] by simp
        then have "DySeq (AdDelivery db ! j) = int j + 1" "AdDelivery db ! j \<in> set (AdDelivery db)"
          using arg_cong [OF ds(1), of "\<lambda>xs. xs ! j"] True ds(2) by simp_all
        then have "DySeq d \<le> int j + 1" using od g hf(3) by (auto simp: acknowledged_upto_def)
        then show ?thesis using i(2) by simp
      qed (use i(1) in simp)
    qed
    obtain x k1 where p: "send c v r k = (x, k1)" by force
    have sent: "\<exists>m'\<ge>m. holds_first (PublicKey c (AcKey a)) ?rs m' k1 \<and> (\<forall>y. x = Http200 y \<longrightarrow> i < m' \<and> y = Some (ack_of (?rs ! i)))"
    proof (cases v)
      case Lost
      then show ?thesis using p hf(1) by auto
    next
      case (Reached t w answer)
      obtain x1 where s1: "ServeHTTP c t w (?rs ! i) k = (x1, k1)" "x = (case answer of None \<Rightarrow> x1 | Some y \<Rightarrow> y)"
        using p Reached i(3) by (auto split: prod.splits)
      have "i \<le> m" using \<open>i = j\<close> hf(2) by simp
      from serve_holds [OF hf(1) trail_genuine [OF assms(2)] this i(1) s1(1)] show ?thesis
        using s1(2) assms(4) Reached by (cases answer) (auto simp: honest_wire_def)
    qed
    then obtain m' where m': "m \<le> m'" "holds_first (PublicKey c (AcKey a)) ?rs m' k1"
      "\<And>y. x = Http200 y \<Longrightarrow> i < m' \<and> y = Some (ack_of (?rs ! i))" by blast
    have rs: "records_of (db\<lparr>AdDelivery := ds\<rparr>) = ?rs" for ds by (simp add: records_of_def split: option.split)
    have ad: "acknowledged_upto (Suc j) (acknowledge (DySeq d) (AdDelivery db))"
      using acknowledge_next [OF hf(3)] i(2) \<open>i = j\<close> by simp
    have po: "acknowledged_upto j (postpone now d x (AdDelivery db))"
      by (rule postpone_acknowledged [OF hf(3)])
    consider "db' = db" "k' = k1" | y where "x = Http200 y" "db' = db\<lparr>AdDelivery := acknowledge (DySeq d) (AdDelivery db)\<rparr>" "k' = k1"
      | "db' = db\<lparr>AdDelivery := postpone now d x (AdDelivery db)\<rparr>" "k' = k1"
    proof -
      let ?good = "case x of Http200 y \<Rightarrow> receipt_valid r y | _ \<Rightarrow> False"
      have e: "k' = k1" "\<not> ok \<Longrightarrow> db' = db" "ok \<Longrightarrow> ?good \<Longrightarrow> db' = db\<lparr>AdDelivery := acknowledge (DySeq d) (AdDelivery db)\<rparr>"
        "ok \<Longrightarrow> \<not> ?good \<Longrightarrow> db' = db\<lparr>AdDelivery := postpone now d x (AdDelivery db)\<rparr>"
      proof -
        have st2: "(if \<not> ok then ((False, Some StorageError), db, k1)
            else if ?good then ((True, None), db\<lparr>AdDelivery := acknowledge (DySeq d) (AdDelivery db)\<rparr>, k1)
            else ((False, Some (Undelivered (DySeq d) (fst (response_code x)))), db\<lparr>AdDelivery := postpone now d x (AdDelivery db)\<rparr>, k1))
            = (res, db', k')"
          using st unfolding Step_def Let_def prod.case Inr dr sum.case p .
        show "k' = k1" using arg_cong [OF st2, of "\<lambda>z. snd (snd z)"] by (simp split: if_splits)
        show "\<not> ok \<Longrightarrow> db' = db" using arg_cong [OF st2, of "\<lambda>z. fst (snd z)"] by simp
        show "ok \<Longrightarrow> ?good \<Longrightarrow> db' = db\<lparr>AdDelivery := acknowledge (DySeq d) (AdDelivery db)\<rparr>"
          using arg_cong [OF st2, of "\<lambda>z. fst (snd z)"] by simp
        show "ok \<Longrightarrow> \<not> ?good \<Longrightarrow> db' = db\<lparr>AdDelivery := postpone now d x (AdDelivery db)\<rparr>"
          using arg_cong [OF st2, of "\<lambda>z. fst (snd z)"] by simp
      qed
      consider "\<not> ok" | y where "ok" ?good "x = Http200 y" | "ok" "\<not> ?good" by (cases x) auto
      then show ?thesis by cases (use e that in blast)+
    qed
    then show ?thesis
    proof cases
      case 1
      then show ?thesis unfolding exported_def fst_conv snd_conv using m'(1,2) hf(2,3) by (intro exI [of _ m'] exI [of _ j]) simp
    next
      case 2
      then show ?thesis unfolding exported_def fst_conv snd_conv using m' \<open>i = j\<close> ad by (intro exI [of _ m'] exI [of _ "Suc j"]) (auto simp: rs)
    next
      case 3
      then show ?thesis unfolding exported_def fst_conv snd_conv using m'(1,2) hf(2) po by (intro exI [of _ m'] exI [of _ j]) (simp add: rs)
    qed
  qed
qed

lemma quiet_exported:
  assumes "signature_scheme c (AcKey a)" "trail_ok c a db" "exported c a (db, k)" "audit_step c a (db, k) (db', k)"
    and ack: "\<And>j. j \<le> length (AdTrail db) \<Longrightarrow> acknowledged_upto j (AdDelivery db) \<Longrightarrow> acknowledged_upto j (AdDelivery db')"
  shows "exported c a (db', k)"
proof -
  from assms(3) obtain m j where mj: "holds_first (PublicKey c (AcKey a)) (records_of db) m k" "j \<le> m" "acknowledged_upto j (AdDelivery db)"
    by (auto simp: exported_def)
  obtain ss where "records_of db' = records_of db @ ss" using writes_grow [OF assms(1) step_writes [OF assms(4)] assms(2)] by blast
  then have "holds_first (PublicKey c (AcKey a)) (records_of db') m k" using holds_first_more [OF mj(1)] by simp
  moreover have "j \<le> length (AdTrail db)" using mj(1,2) by (auto simp: holds_first_def records_of_def split: option.splits)
  ultimately show ?thesis unfolding exported_def fst_conv snd_conv using mj(2) ack [OF _ mj(3)] by blast
qed

lemma transaction_acknowledged:
  assumes "trail_ok c a db" "j \<le> length (AdTrail db)" "acknowledged_upto j (AdDelivery db)"
  shows "acknowledged_upto j (AdDelivery (snd (Commit c a i ts ok (run_statements c qs db))))"
proof -
  note n = run_statements_now [of c qs db]
  have t: "trail_ok c a (TxNow (run_statements c qs db))" using assms(1) n by (simp add: trail_ok_def)
  show ?thesis
    using append_acknowledged [OF _ t, of _ ts ok _ j] assms(2,3) n by (simp add: Commit_def split: sum.splits)
qed

lemma retry_acknowledged:
  assumes "trail_ok c a db" "j \<le> length (AdTrail db)" "acknowledged_upto j (AdDelivery db)"
  shows "acknowledged_upto j (AdDelivery (snd (retrySecurityAudit c a r admin ts ok db)))"
  using append_acknowledged [OF _ assms(1,3,2)] assms(3)
  by (auto simp: retrySecurityAudit_def AuditAdministrative_def BeginTx_def map_sum_def intro!: restart_acknowledged split: sum.splits)

lemma step_exported:
  assumes "signature_scheme c (AcKey a)" "trail_ok c a db" "exported c a (db, k)" "audit_step c a (db, k) (db', k')"
  shows "exported c a (db', k')"
  using assms(4)
proof cases
  case (export v now ok res)
  then show ?thesis using export_step [OF assms(1-3)] by simp
next
  case (restart len)
  from assms(3) obtain m j where m: "holds_first (PublicKey c (AcKey a)) (records_of db) m k" "j \<le> m" "acknowledged_upto j (AdDelivery db)"
    by (auto simp: exported_def)
  from restart_holds [OF m(1) trail_genuine [OF assms(2)]] restart
  obtain m' where "m \<le> m'" "holds_first (PublicKey c (AcKey a)) (records_of db) m' k'" by blast
  then show ?thesis unfolding exported_def fst_conv snd_conv using m(2,3) restart by (intro exI [of _ m'] exI [of _ j]) simp
next
  case (transaction ts i ok qs)
  then show ?thesis using quiet_exported [OF assms(1-3)] assms(4) transaction_acknowledged [OF assms(2)] by simp
next
  case (observation ts i event outcome ok)
  then show ?thesis using quiet_exported [OF assms(1-3)] assms(4) append_acknowledged [OF _ assms(2)] by (simp add: AuditObservation_def)
next
  case (retry ts r admin ok)
  then show ?thesis using quiet_exported [OF assms(1-3)] assms(4) retry_acknowledged [OF assms(2)] by simp
qed

lemma reachable_exported:
  assumes "signature_scheme c (AcKey a)" "audit_reachable c a s"
  shows "exported c a s"
proof -
  from assms(2) obtain s0 where s: "audit_start c a s0" "(audit_step c a)\<^sup>*\<^sup>* s0 s" by (auto simp: audit_reachable_def)
  have "exported c a s0"
  proof -
    obtain len where o: "OpenCollector c (PublicKey c (AcKey a)) len [] False = Some (snd s0)" using start_trail(2) [OF s(1)] by blast
    have "records_of (fst s0) = []" using start_trail(3) [OF s(1)] by (simp add: records_of_def split: option.splits)
    moreover have "snd s0 = new_collector (PublicKey c (AcKey a)) [] False" using o by (auto simp: OpenCollector_def split: if_splits)
    ultimately have "holds_first (PublicKey c (AcKey a)) (records_of (fst s0)) 0 (snd s0)"
      by (simp add: holds_first_def new_collector_def ack_at_def receipts_of_def fun_eq_iff)
    then show ?thesis using start_trail(4) [OF s(1)] unfolding exported_def by (intro exI [of _ 0]) (simp add: acknowledged_upto_def)
  qed
  from s(2) this show ?thesis
  proof (induction rule: rtranclp_induct)
    case (step y z)
    have "trail_ok c a (fst y)" using writes_keep [OF assms(1) steps_write [OF step.hyps(1)]] start_trail(1) [OF s(1)] by blast
    then show ?case using step_exported [OF assms(1), of "fst y" "snd y" "fst z" "snd z"] step by simp
  qed
qed

section \<open>Tampering\<close>

text \<open>Two records with the same hash are equal in what is hashed, or two inputs have been found that collide.\<close>

definition collision :: "'k crypto \<Rightarrow> bool" where
  "collision c \<longleftrightarrow> (\<exists>x y. x \<noteq> y \<and> Sha256 c x = Sha256 c y)"

lemma record_json_inj:
  assumes "record_json (r\<lparr>ArHash := [], ArSignature := []\<rparr>) = record_json (q\<lparr>ArHash := [], ArSignature := []\<rparr>)"
    and v: "ValidString (ArStream r)" "ValidString (ArTS r)" "ValidString (ArPrevious r)" "ValidString (ArPayload r)"
  shows "ArStream r = ArStream q \<and> ArSeq r = ArSeq q \<and> ArTS r = ArTS q \<and> ArPrevious r = ArPrevious q \<and> ArPayload r = ArPayload q"
proof -
  define k where "k n = (if n = 0 then [] else '','') @ json_str ([''stream'', ''seq'', ''ts'', ''previous'', ''payload''] ! n) @ '':''" for n
  define e where "e = '','' @ json_str ''hash'' @ '':'' @ json_str [] @ '','' @ json_str ''signature'' @ '':'' @ json_str [] @ ''}''"
  have parts: "record_json (x\<lparr>ArHash := [], ArSignature := []\<rparr>) =
      ''{'' @ k 0 @ json_str (ArStream x) @ k 1 @ Itoa (ArSeq x) @ CHR '','' # tl (k 2) @ json_str (ArTS x) @ k 3 @ json_str (ArPrevious x) @
      k 4 @ json_str (ArPayload x) @ e" for x
    by (simp add: record_json_def json_obj_def json_field_def k_def e_def)
  from assms(1) [unfolded parts] have 1: "json_str (ArStream r) @ k 1 @ Itoa (ArSeq r) @ CHR '','' # tl (k 2) @ json_str (ArTS r) @ k 3 @
      json_str (ArPrevious r) @ k 4 @ json_str (ArPayload r) @ e = json_str (ArStream q) @ k 1 @ Itoa (ArSeq q) @ CHR '','' # tl (k 2) @
      json_str (ArTS q) @ k 3 @ json_str (ArPrevious q) @ k 4 @ json_str (ArPayload q) @ e" by simp
  note 2 = json_str_inj [OF 1 v(1), THEN conjunct2, unfolded same_append_eq]
  note 3 = Itoa_comma [OF 2, THEN conjunct2, unfolded same_append_eq]
  note 4 = json_str_inj [OF 3 v(2), THEN conjunct2, unfolded same_append_eq]
  note 5 = json_str_inj [OF 4 v(3), THEN conjunct2, unfolded same_append_eq]
  show ?thesis
    using json_str_inj [OF 1 v(1)] Itoa_comma [OF 2] json_str_inj [OF 3 v(2)] json_str_inj [OF 4 v(3)] json_str_inj [OF 5 v(4)] by blast
qed

text \<open>A chain that ends in the hash of a genuine one is that chain.\<close>

lemma chain_determined:
  assumes "\<not> collision c"
  shows "n \<le> length ws \<Longrightarrow> n \<le> length vs \<Longrightarrow> verify_rows c s p [] 0 ws = Inr z \<Longrightarrow> verify_rows c s p' [] 0 vs = Inr z' \<Longrightarrow>
    ValidString s \<Longrightarrow> list_all valid_row ws \<Longrightarrow> 0 < n \<Longrightarrow> AwHash (vs ! (n - 1)) = AwHash (ws ! (n - 1)) \<Longrightarrow> i < n \<Longrightarrow>
    AwSeq (vs ! i) = AwSeq (ws ! i) \<and> AwTS (vs ! i) = AwTS (ws ! i) \<and> AwPrevious (vs ! i) = AwPrevious (ws ! i) \<and>
    AwPayload (vs ! i) = AwPayload (ws ! i) \<and> AwHash (vs ! i) = AwHash (ws ! i)"
proof (induction n)
  case (Suc n)
  let ?w = "row_record s (ws ! n)" and ?v = "row_record s (vs ! n)"
  have vw: "VerifyAuditRecord c p ?w (if n = 0 then [] else AwHash (ws ! (n - 1))) (int n + 1)"
    using verify_rows_nth [OF Suc.prems(3), of n] Suc.prems(1) by simp
  have vv: "VerifyAuditRecord c p' ?v (if n = 0 then [] else AwHash (vs ! (n - 1))) (int n + 1)"
    using verify_rows_nth [OF Suc.prems(4), of n] Suc.prems(2) by simp
  have "recordHash c ?w = ArHash ?w" "recordHash c ?v = ArHash ?v" using vw vv by (simp_all only: VerifyAuditRecord_def)
  moreover have "ArHash ?v = ArHash ?w" using Suc.prems(8) by (simp add: row_record_def)
  ultimately have "recordHash c ?w = recordHash c ?v" by simp
  then have "record_json (?w\<lparr>ArHash := [], ArSignature := []\<rparr>) = record_json (?v\<lparr>ArHash := [], ArSignature := []\<rparr>)"
    using assms by (auto simp: recordHash_def collision_def)
  then have eq: "ArStream ?w = ArStream ?v \<and> ArSeq ?w = ArSeq ?v \<and> ArTS ?w = ArTS ?v \<and> ArPrevious ?w = ArPrevious ?v \<and> ArPayload ?w = ArPayload ?v"
    by (rule record_json_inj) (use Suc.prems(1,5,6) in \<open>auto simp: row_record_def valid_row_def list_all_length\<close>)
  show ?case
  proof (cases "i = n")
    case True
    then show ?thesis using eq Suc.prems(8) by (simp add: row_record_def)
  next
    case False
    then have i: "i < n" "0 < n" using Suc.prems(9) by simp_all
    have "AwHash (vs ! (n - 1)) = AwHash (ws ! (n - 1))"
      using vw vv eq i(2) by (simp add: VerifyAuditRecord_def row_record_def)
    then show ?thesis using Suc.IH Suc.prems i by simp
  qed
qed simp

section \<open>Blocked exports\<close>

lemma oldest_stays:
  assumes "trail_ok c a db" "oldest_pending (AdDelivery db) = Some d" "appendAudit c a p ts ok db = Inr db'"
  shows "oldest_pending (AdDelivery db') = Some d"
  using assms(3)
proof (rule appendAudit_InrD)
  fix h cat cap assume h: "AdHead db = Some h" "AdDelivery db' = AdDelivery db @ [new_delivery (AhSeq h + 1) cat]"
  have l: "AhSeq h = int (length (AdTrail db))" "map DySeq (AdDelivery db) = map (\<lambda>i. int i + 1) [0..<length (AdTrail db)]"
    using assms(1) h(1) by (auto elim: trail_okE)
  have "set (map DySeq (AdDelivery db)) \<subseteq> {..AhSeq h}" unfolding l(2) using l(1) by auto
  then have le: "\<forall>e\<in>set (AdDelivery db). DySeq e \<le> AhSeq h" by auto
  have "distinct (map DySeq (AdDelivery db))" unfolding l(2) by (auto simp: distinct_map inj_on_def)
  then have "distinct (map DySeq (AdDelivery db'))" using le h(2) by (force simp: new_delivery_def)
  then show ?thesis
    by (rule oldest_pending_is) (use oldest_pending_Some [OF assms(2)] le h(2) in \<open>auto simp: new_delivery_def\<close>)
qed

definition blocked :: "DeliveryRow \<Rightarrow> 'b AuditDB \<Rightarrow> bool" where
  "blocked d db \<longleftrightarrow> oldest_pending (AdDelivery db) = Some d \<and> DyDead d \<and> 10000 \<le> pending_of ''control'' (AdDelivery db)"

lemma control_refused: "10000 \<le> pending_of ''control'' (AdDelivery db) \<Longrightarrow> ApEvent p \<noteq> [] \<Longrightarrow> \<not> has_prefix ''access.'' (ApEvent p) \<Longrightarrow>
    appendAudit c a p ts ok db = Inl ErrAuditFull"
  by (simp add: appendAudit_def audit_category_def)

lemma retry_refused:
  "10000 \<le> pending_of ''control'' (AdDelivery db) \<Longrightarrow> retrySecurityAudit c a r admin ts ok db = (if admin then 503 else 403, db)"
  by (simp add: retrySecurityAudit_def AuditAdministrative_def BeginTx_def control_refused event_payload_def has_prefix_def)

lemma blocked_append:
  assumes "trail_ok c a db" "blocked d db" "appendAudit c a p ts ok db = Inr db'"
  shows "blocked d db' \<and> filter DyAck (AdDelivery db') = filter DyAck (AdDelivery db)"
proof -
  obtain n cat where "AdDelivery db' = AdDelivery db @ [new_delivery n cat]" using assms(3) by (elim appendAudit_InrD) auto
  then show ?thesis using assms(2) oldest_stays [OF assms(1) _ assms(3)] pending_append [of "''control''" "AdDelivery db" n cat]
    by (auto simp: blocked_def new_delivery_def)
qed

lemma step_blocked:
  assumes "trail_ok c a db" "blocked d db" "audit_step c a (db, k) (db', k')"
  shows "blocked d db' \<and> filter DyAck (AdDelivery db') = filter DyAck (AdDelivery db)"
  using assms(3)
proof cases
  case (export v now ok res)
  then show ?thesis using assms(2) by (simp add: Step_def to_export_def blocked_def)
next
  case (transaction ts i ok qs)
  note n = run_statements_now [of c qs db]
  have "trail_ok c a (TxNow (run_statements c qs db))" "blocked d (TxNow (run_statements c qs db))"
    using assms(1,2) n by (simp_all add: trail_ok_def blocked_def)
  then show ?thesis using transaction blocked_append [of c a "TxNow (run_statements c qs db)" d] n assms(2)
    by (auto simp: Commit_def blocked_def split: sum.splits if_splits)
next
  case (observation ts i event outcome ok)
  then show ?thesis using blocked_append [OF assms(1,2)] by (simp add: AuditObservation_def)
next
  case (retry ts r admin ok)
  have "10000 \<le> pending_of ''control'' (AdDelivery db)" using assms(2) by (simp add: blocked_def)
  then show ?thesis using assms(2) retry by (simp add: retry_refused)
qed (use assms in simp)

section \<open>What a commit records\<close>

text \<open>The rows a list of statements changes under one key (a table and a statement).\<close>

definition stmt_rows :: "'k crypto \<Rightarrow> string \<Rightarrow> 'b statement \<Rightarrow> int" where
  "stmt_rows c key q =
     (case (mutation c (fst q), snd (snd q)) of (Some m, Some (b, n)) \<Rightarrow> if change_key m = key then n else 0 | _ \<Rightarrow> 0)"

definition rows_changed :: "'k crypto \<Rightarrow> string \<Rightarrow> 'b statement list \<Rightarrow> int" where
  "rows_changed c key qs = sum_list (map (stmt_rows c key) qs)"

definition count_at :: "string \<Rightarrow> (string \<times> Mutation) list \<Rightarrow> int" where
  "count_at key ch = (case row_of fst key ch of None \<Rightarrow> 0 | Some x \<Rightarrow> MuCount (snd x))"

lemma add_references_keeps: "MuTable (add_references refs m) = MuTable m \<and> MuStatement (add_references refs m) = MuStatement m \<and>
    MuCount (add_references refs m) = MuCount m"
  by (induction refs m rule: add_references.induct) (auto simp: Let_def add_reference_def split: option.splits)

definition keyed :: "(string \<times> Mutation) list \<Rightarrow> bool" where
  "keyed ch \<longleftrightarrow> keys_distinct fst ch \<and> (\<forall>x\<in>set ch. fst x = change_key (snd x))"

lemma put_change_keyed:
  assumes "keyed ch" "k = change_key m"
  shows "keyed (put_change k m ch)" "count_at key (put_change k m ch) = (if key = k then MuCount m else count_at key ch)"
proof -
  have u: "row_of fst key (update_where (\<lambda>x. fst x = k) (\<lambda>_. (k, m)) ch) =
      map_option (\<lambda>x. if fst x = k then (k, m) else x) (row_of fst key ch)" by (rule row_of_update_where) simp
  have d: "keys_distinct fst (update_where (\<lambda>x. fst x = k) (\<lambda>_. (k, m)) ch) = keys_distinct fst ch"
    by (rule keys_distinct_update_where) simp
  show "keyed (put_change k m ch)"
    using assms d by (auto simp: keyed_def put_change_def keys_distinct_snoc set_update_where)
  show "count_at key (put_change k m ch) = (if key = k then MuCount m else count_at key ch)"
  proof (cases "row_of fst k ch")
    case None
    then show ?thesis by (auto simp: count_at_def put_change_def row_of_append row_of_Cons split: option.split)
  next
    case (Some y)
    then have "fst y = k" "row_of fst key ch = Some z \<Longrightarrow> fst z = key" for z using row_of_SomeD by fastforce+
    then show ?thesis using u Some by (cases "row_of fst key ch") (auto simp: count_at_def put_change_def)
  qed
qed

lemma track_keyed:
  assumes "keyed ch"
  shows "keyed (track c q n args ch)" "count_at key (track c q n args ch) = count_at key ch + stmt_rows c key (q, args, Some (b, n))"
proof -
  have "keyed (track c q n args ch) \<and> count_at key (track c q n args ch) = count_at key ch + stmt_rows c key (q, args, Some (b, n))"
  proof (cases "n = 0 \<or> mutation c q = None")
    case True
    then show ?thesis using assms by (auto simp: track_def stmt_rows_def split: option.splits)
  next
    case False
    then obtain m0 where m0: "mutation c q = Some m0" by auto
    define m where "m = add_references (safeAuditReferences q args) (case row_of fst (change_key m0) ch of
        None \<Rightarrow> m0\<lparr>MuCount := n\<rparr>
      | Some (_, old) \<Rightarrow> m0\<lparr>MuCount := MuCount old + n, MuReferences := MuReferences old, MuActor := MuActor old\<rparr>)"
    have t: "track c q n args ch = put_change (change_key m0) m ch" using False m0 by (simp add: track_def m_def Let_def)
    have k: "change_key m0 = change_key m" "MuCount m = count_at (change_key m0) ch + n"
      by (auto simp: m_def change_key_def add_references_keeps count_at_def split: option.splits)
    show ?thesis unfolding t using put_change_keyed [OF assms k(1)] k(2) m0 by (auto simp: stmt_rows_def)
  qed
  then show "keyed (track c q n args ch)" "count_at key (track c q n args ch) = count_at key ch + stmt_rows c key (q, args, Some (b, n))" by blast+
qed

lemma run_changes:
  "keyed (TxChanges (run_statements c qs db)) \<and> count_at key (TxChanges (run_statements c qs db)) = rows_changed c key qs"
proof (induction qs rule: rev_induct)
  case Nil
  show ?case by (simp add: run_statements_def BeginTx_def keyed_def keys_distinct_def count_at_def rows_changed_def)
next
  case (snoc x qs)
  obtain q args res where x: "x = (q, args, res)" by (cases x) auto
  have r: "run_statements c (qs @ [x]) db = Exec c q args res (run_statements c qs db)" by (simp add: run_statements_def x)
  have k: "keyed (TxChanges (run_statements c qs db))" using snoc by blast
  show ?case
  proof (cases res)
    case None
    then show ?thesis using snoc r by (simp add: Exec_def x rows_changed_def stmt_rows_def split: option.split)
  next
    case (Some y)
    then show ?thesis
      using snoc track_keyed(1) [OF k, of c q "snd y" args] track_keyed(2) [OF k, of key c q "snd y" args "fst y"]
      using r by (cases y) (simp add: Exec_def x rows_changed_def)
  qed
qed

lemma sorted_changes:
  assumes "keyed ch"
  shows "row_of change_key key (map snd (sort_key fst ch)) = map_option snd (row_of fst key ch)"
proof -
  have d: "distinct (map fst (sort_key fst ch))" "distinct (map fst ch)"
    using assms by (auto simp: keyed_def keys_distinct_def distinct_map inj_on_def)
  have k: "\<forall>x\<in>set (sort_key fst ch). fst x = change_key (snd x)" using assms by (simp add: keyed_def)
  then have "map change_key (map snd (sort_key fst ch)) = map fst (sort_key fst ch)" by (simp add: map_eq_conv)
  then have kd: "keys_distinct change_key (map snd (sort_key fst ch))" using d by (simp only: keys_distinct_def)
  show ?thesis
  proof (cases "row_of fst key ch")
    case None
    then have "row_of change_key key (map snd (sort_key fst ch)) = None" using k by (auto simp: row_of_None image_iff)
    then show ?thesis using None by simp
  next
    case (Some x)
    then have x: "x \<in> set (sort_key fst ch)" "change_key (snd x) = key" using row_of_SomeD [OF Some] k by auto
    then show ?thesis using row_of_in_set [OF kd, of "snd x"] Some by simp
  qed
qed

section \<open>An example\<close>

text \<open>A toy cryptosystem: a checksum for the hash, the key and the message for the signature.\<close>

definition demo_crypto :: "string crypto" where
  "demo_crypto =
     \<lparr>Sha256 = (\<lambda>s. nat_digits (foldl (\<lambda>h x. (h * 31 + of_char x) mod 1000003) 7 s)), SignWith = (\<lambda>k m. k @ m),
      PublicKey = (\<lambda>k. k), VerifyKey = (\<lambda>p m s. s = p @ m), KeyValid = (\<lambda>p. p \<noteq> [])\<rparr>"

definition demo_audit :: "string auditConfig" where
  "demo_audit = \<lparr>AcKey = ''K'', AcCapacity = 100\<rparr>"

definition nobody :: AuditIdentity where
  "nobody = \<lparr>IdRequest = [], IdActor = [], IdRoute = [], IdIP = []\<rparr>"

definition demo_db0 :: "nat AuditDB" where
  "demo_db0 = \<lparr>AdBusiness = 0, AdHead = Some \<lparr>AhStream = ''S'', AhSeq = 0, AhHash = [], AhPublic = ''K''\<rparr>, AdTrail = [], AdDelivery = []\<rparr>"

definition demo_db1 :: "nat AuditDB" where
  "demo_db1 =
     (case AuditObservation demo_crypto demo_audit nobody ''request.intent'' ''started'' ''T1'' True demo_db0 of
        Inl _ \<Rightarrow> demo_db0 | Inr db \<Rightarrow> db)"

definition demo_collector :: Collector where
  "demo_collector = new_collector ''K'' [] False"

definition demo_sent :: "nat AuditDB \<times> Collector" where
  "demo_sent = snd (Step demo_crypto (send demo_crypto (Reached True Written None)) 5 True (demo_db1, demo_collector))"

definition chain_row :: AuditRow where
  "chain_row = next_row demo_crypto ''K'' \<lparr>AhStream = ''S'', AhSeq = 0, AhHash = [], AhPublic = ''K''\<rparr> ''T1''
     (event_payload nobody ''request.intent'' ''started'')"

lemma demo_scheme: "signature_scheme demo_crypto (AcKey demo_audit)"
proof -
  have "ValidString (nat_digits n)" for n using ValidString_Itoa [of "int n"] by (simp add: Itoa_def)
  then show ?thesis by (simp add: signature_scheme_def demo_crypto_def demo_audit_def)
qed

lemma chain_row_seq: "AwSeq chain_row = 1" "AwPrevious chain_row = []"
  by (simp_all add: chain_row_def next_row_def Let_def)

lemma chain_row_verifies: "VerifyAuditRecord demo_crypto ''K'' (row_record ''S'' chain_row) [] 1"
  by (simp add: VerifyAuditRecord_def chain_row_def next_row_def Let_def row_record_def recordHash_def)
    (simp add: demo_crypto_def)

lemma demo_db1_eq: "demo_db1 = demo_db0\<lparr>AdTrail := [chain_row], AdDelivery := [new_delivery 1 ''control''],
    AdHead := Some \<lparr>AhStream = ''S'', AhSeq = 1, AhHash = AwHash chain_row, AhPublic = ''K''\<rparr>\<rparr>"
proof -
  have "audit_category (AcCapacity demo_audit) (event_payload nobody ''request.intent'' ''started'') = (''control'', 10000)"
    by (simp add: audit_category_def event_payload_def has_prefix_def)
  then show ?thesis using chain_row_seq
    by (simp add: demo_db1_def AuditObservation_def appendAudit_def pending_of_def count_where_def demo_db0_def demo_audit_def flip: chain_row_def)
qed

lemma demo_to_export: "to_export demo_crypto 5 demo_db1 = Inr (new_delivery 1 ''control'', row_record ''S'' chain_row)"
  using chain_row_seq chain_row_verifies
  by (simp add: to_export_def demo_db1_eq oldest_pending_def new_delivery_def AuditRecords_def row_record_def demo_crypto_def)

lemma demo_sent_eq: "demo_sent = (demo_db1\<lparr>AdDelivery := [(new_delivery 1 ''control'')\<lparr>DyAck := True\<rparr>]\<rparr>,
    take_record (row_record ''S'' chain_row) (demo_collector\<lparr>CoFile := [row_record ''S'' chain_row]\<rparr>))"
proof -
  let ?r = "row_record ''S'' chain_row"
  have r: "ArSeq ?r = 1" "ArPrevious ?r = []" "ArStream ?r = ''S''" using chain_row_seq by (simp_all add: row_record_def)
  note e = demo_to_export
  have w: "send demo_crypto (Reached True Written None) ?r demo_collector =
      (Http200 (Some (ack_of ?r)), take_record ?r (demo_collector\<lparr>CoFile := [?r]\<rparr>))"
    using chain_row_verifies r
    by (simp add: ServeHTTP_def demo_collector_def new_collector_def accept_record_def acceptable_def no_ack_def take_record_def)
  have n: "DySeq (new_delivery 1 ''control'') = 1" by (simp add: new_delivery_def)
  have "demo_sent = (demo_db1\<lparr>AdDelivery := acknowledge 1 (AdDelivery demo_db1)\<rparr>, take_record ?r (demo_collector\<lparr>CoFile := [?r]\<rparr>))"
    unfolding demo_sent_def Step_def Let_def prod.case e sum.case w using r n by (simp add: receipt_valid_def ack_of_def)
  then show ?thesis by (simp add: acknowledge_def demo_db1_eq new_delivery_def update_where_Cons)
qed

lemma demo_observed: "audit_reachable demo_crypto demo_audit (demo_db1, demo_collector)"
proof -
  have "EnableAudit demo_crypto True True True ''K'' ''S'' 100 NoFile (demo_db0\<lparr>AdHead := None\<rparr>) = (Inr demo_audit, KeyFile ''K'', demo_db0)"
    by (simp add: EnableAudit_def demo_db0_def demo_audit_def VerifyAudit_def demo_crypto_def)
  moreover have "OpenCollector demo_crypto ''K'' 32 [] False = Some demo_collector"
    by (simp add: OpenCollector_def demo_crypto_def demo_collector_def)
  moreover have "ValidString ''S''" "ValidString ''T1''" by (rule ValidString_ascii, simp add: byte_in_def)+
  ultimately have s: "audit_start demo_crypto demo_audit (demo_db0, demo_collector)"
    unfolding audit_start_def by (intro exI [of _ True] exI [of _ "''K''"] exI [of _ "''S''"] exI [of _ 100] exI [of _ NoFile] exI [of _ "KeyFile ''K''"]
        exI [of _ "demo_db0\<lparr>AdHead := None\<rparr>"] exI [of _ 32]) (simp add: demo_db0_def demo_crypto_def demo_audit_def)
  have "AuditObservation demo_crypto demo_audit nobody ''request.intent'' ''started'' ''T1'' True demo_db0 = Inr demo_db1"
    by (cases "AuditObservation demo_crypto demo_audit nobody ''request.intent'' ''started'' ''T1'' True demo_db0")
      (use demo_db1_eq in \<open>auto simp: demo_db1_def demo_db0_def\<close>)
  then have a: "audit_step demo_crypto demo_audit (demo_db0, demo_collector) (demo_db1, demo_collector)"
    by (rule audit_step.observation [rotated]) (rule ValidString_ascii, simp add: byte_in_def)
  then show ?thesis using s unfolding audit_reachable_def by blast
qed

lemma sent_reachable: "audit_reachable demo_crypto demo_audit demo_sent"
proof -
  have "audit_step demo_crypto demo_audit (demo_db1, demo_collector) demo_sent"
    unfolding demo_sent_def
    by (cases "Step demo_crypto (send demo_crypto (Reached True Written None)) 5 True (demo_db1, demo_collector)")
      (auto simp: honest_wire_def intro: audit_step.export [of "Reached True Written None"])
  then show ?thesis using demo_observed unfolding audit_reachable_def by (meson rtranclp.rtrancl_into_rtrancl)
qed

end
