(* ===== verification/AuditCorrect.thy ===== *)
theory AuditCorrect
  imports AuditRuns
begin

text \<open>
  What the audit trail gives: it verifies in every reachable state and its backlog stays within the limits; a
  trail that agrees with a checkpoint taken elsewhere is the one the checkpoint was taken of, or a collision of
  the hash is exhibited; what is acknowledged is in the file of the collector, whatever is lost on the way;
  and no change commits without its record.
\<close>

section \<open>Properties\<close>

text \<open>C12. The audit trail verifies.  Whatever transactions, requests, retries, exports and restarts of the
  collector took place, VerifyAudit succeeds: the records are numbered without a gap, each carries the hash
  of the one before and a signature that verifies, each has its delivery row; and in each category no more
  records wait than the category may hold.\<close>

theorem audit_trail_verifies:
  assumes "signature_scheme c (AcKey a)" "audit_reachable c a (db, k)"
  shows "VerifyAudit c (Some a) db = None \<and> map AwSeq (AdTrail db) = map (\<lambda>i. int i + 1) [0..<length (AdTrail db)] \<and>
    pending_of ''security'' (AdDelivery db) \<le> AcCapacity a \<and> pending_of ''access'' (AdDelivery db) \<le> 1000 \<and>
    pending_of ''control'' (AdDelivery db) \<le> 10000"
  using reachable_trail [OF assms] trail_ok_verifies [OF _ assms(1)] by (auto simp: within_limits_def elim: trail_okE)

lemma audit_trail_verifies_witness:
  "VerifyAudit demo_crypto (Some demo_audit) (fst demo_sent) = None \<and> length (AdTrail (fst demo_sent)) = 1"
  using audit_trail_verifies [OF demo_scheme, of "fst demo_sent" "snd demo_sent"] sent_reachable
  by (simp add: demo_sent_eq demo_db1_eq)



text \<open>C3. An acknowledged record is in the collector's file.  However messages and receipts are lost, writes
  and syncs of the collector fail, and both sides start again: the file of the collector is a prefix of
  the genuine records, the acknowledged records are a prefix of it, in the order of their numbers.\<close>

theorem acknowledged_is_stored:
  assumes "signature_scheme c (AcKey a)" "audit_reachable c a (db, k)"
  shows "\<exists>m j. CoFile k = take m (records_of db) \<and> m \<le> length (records_of db) \<and> j \<le> m \<and>
    (\<forall>d. d \<in> set (AdDelivery db) \<longrightarrow> (DyAck d \<longleftrightarrow> DySeq d \<le> int j))"
proof -
  from reachable_exported [OF assms] obtain m j where m: "holds_first (PublicKey c (AcKey a)) (records_of db) m k" "j \<le> m"
    "acknowledged_upto j (AdDelivery db)" by (auto simp: exported_def)
  then obtain m' where "m \<le> m'" "m' \<le> length (records_of db)" "CoFile k = take m' (records_of db)"
    unfolding holds_first_def by (metis Suc_leI le_Suc_eq order_refl)
  moreover have "\<forall>d. d \<in> set (AdDelivery db) \<longrightarrow> (DyAck d \<longleftrightarrow> DySeq d \<le> int j)"
    using m(3) unfolding acknowledged_upto_def by blast
  ultimately show ?thesis using m(2) by (intro exI [of _ m'] exI [of _ j]) simp
qed

lemma acknowledged_is_stored_witness:
  "list_all DyAck (AdDelivery (fst demo_sent)) \<and> AdDelivery (fst demo_sent) \<noteq> [] \<and>
   (\<exists>m. CoFile (snd demo_sent) = take m (records_of (fst demo_sent)))"
  using acknowledged_is_stored [OF demo_scheme, of "fst demo_sent" "snd demo_sent"] sent_reachable
  by (auto simp: demo_sent_eq)

text \<open>C40. A restart of the collector loses nothing.  In every reachable state a collector that is not broken
  is exactly what OpenCollector makes of its file and the public key.\<close>

theorem restart_loses_nothing:
  assumes "signature_scheme c (AcKey a)" "audit_reachable c a (db, k)" "\<not> CoBroken k" "32 \<le> len"
  shows "OpenCollector c (CoPublic k) len (CoFile k) (CoTorn k) = Some k"
proof -
  from reachable_exported [OF assms(1,2)] obtain m where m: "holds_first (PublicKey c (AcKey a)) (records_of db) m k"
    by (auto simp: exported_def)
  have g: "genuine c (PublicKey c (AcKey a)) (records_of db)" using reachable_trail [OF assms(1,2)] trail_genuine by blast
  from m assms(3) have k: "CoFile k = take m (records_of db)" "\<not> CoTorn k" "CoPublic k = PublicKey c (AcKey a)" "m \<le> length (records_of db)"
    by (auto simp: holds_first_def)
  have "collector_at (CoPublic k) (CoFile k) (CoTorn k) (records_of db) m = k"
    using m k assms(3) by (cases k) (simp add: collector_at_def new_collector_def holds_first_def)
  then show ?thesis using reopen_genuine [OF g k(4), of "CoFile k" "CoTorn k"] k assms(1,4)
    by (simp add: OpenCollector_def signature_scheme_def)
qed

lemma restart_loses_nothing_witness:
  "OpenCollector demo_crypto ''K'' 32 [row_record ''S'' chain_row] False = Some (snd demo_sent)"
  using restart_loses_nothing [OF demo_scheme, of "fst demo_sent" "snd demo_sent" 32] sent_reachable
  by (simp add: demo_sent_eq take_record_def demo_collector_def new_collector_def)

text \<open>C14. A full backlog blocks the trail for good.  When the oldest waiting record is a dead letter and 10000
  records of the category control wait, no further step of any kind acknowledges anything or revives it, and
  the request that is meant to revive it is refused with 503 before its handler runs.\<close>

theorem full_backlog_blocks:
  assumes "signature_scheme c (AcKey a)" "audit_reachable c a (db, k)"
    and "oldest_pending (AdDelivery db) = Some d" "DyDead d" "10000 \<le> pending_of ''control'' (AdDelivery db)"
    and "(audit_step c a)\<^sup>*\<^sup>* (db, k) (db', k')" "RqMethod r = ''POST''"
  shows "oldest_pending (AdDelivery db') = Some d \<and> filter DyAck (AdDelivery db') = filter DyAck (AdDelivery db) \<and>
    scoped c a r ts ok (retrySecurityAudit c a r admin ts ok) db' = (503, db')"
proof -
  have b: "blocked d db" using assms(3-5) by (simp add: blocked_def)
  from assms(6) have "blocked d (fst (db', k')) \<and> filter DyAck (AdDelivery (fst (db', k'))) = filter DyAck (AdDelivery db)"
  proof (induction rule: rtranclp_induct)
    case base
    show ?case using b by simp
  next
    case (step y z)
    have "audit_reachable c a (fst y, snd y)" using assms(2) step.hyps(1) unfolding audit_reachable_def
      by (metis prod.collapse rtranclp_trans)
    then have "trail_ok c a (fst y)" using reachable_trail [OF assms(1)] by blast
    then show ?case using step step_blocked [of c a "fst y" d "snd y" "fst z" "snd z"] by simp
  qed
  then have b': "blocked d db'" "filter DyAck (AdDelivery db') = filter DyAck (AdDelivery db)" by simp_all
  then have "10000 \<le> pending_of ''control'' (AdDelivery db')" by (simp add: blocked_def)
  then have "scoped c a r ts ok (retrySecurityAudit c a r admin ts ok) db' = (503, db')"
    using assms(7) by (simp add: scoped_def request_mutates_def AuditObservation_def control_refused event_payload_def has_prefix_def)
  then show ?thesis using b' by (simp add: blocked_def)
qed

lemma append_succeeds:
  assumes "trail_ok c a db" "audit_category (AcCapacity a) p = (cat, cap)" "pending_of cat (AdDelivery db) < cap"
  shows "\<exists>db'. appendAudit c a p ts True db = Inr db'"
proof -
  from assms(1) obtain h where h: "AdHead db = Some h" "AhSeq h = int (length (AdTrail db))"
    "map DySeq (AdDelivery db) = map AwSeq (AdTrail db)" "map AwSeq (AdTrail db) = map (\<lambda>i. int i + 1) [0..<length (AdTrail db)]"
    by (rule trail_okE)
  have "\<forall>w\<in>set (AdTrail db). AwSeq w \<le> AhSeq h"
    using seqs_simps(1) [OF h(4)] h(2) by (auto simp: in_set_conv_nth)
  then have w: "row_of AwSeq (AhSeq h + 1) (AdTrail db) = None" by (force simp: row_of_None)
  moreover have "row_of DySeq (AhSeq h + 1) (AdDelivery db) = None"
    using w arg_cong [OF h(3), of set] by (simp add: row_of_None)
  moreover have "AwSeq (next_row c (AcKey a) h ts p) = AhSeq h + 1" by (simp add: next_row_def Let_def)
  ultimately show ?thesis using assms h(1) by (simp add: appendAudit_def Let_def)
qed

text \<open>A state in which the first record is a dead letter and \<open>n\<close> requests have been made since.\<close>

lemma demo_requests:
  "n \<le> 9999 \<Longrightarrow> \<exists>(db :: nat AuditDB) d. audit_reachable demo_crypto demo_audit (db, demo_collector) \<and> oldest_pending (AdDelivery db) = Some d \<and>
     DyDead d \<and> pending_of ''control'' (AdDelivery db) = int n + 1"
proof (induction n)
  case 0
  let ?d = "(new_delivery 1 ''control'')\<lparr>DyAttempts := 1, DyNext := 2005, DyDead := True, DyError := http_code 401\<rparr>"
  let ?r = "row_record ''S'' chain_row" and ?v = "Reached False Written None" and ?db = "demo_db1\<lparr>AdDelivery := [?d]\<rparr>"
  have e: "to_export demo_crypto 5 demo_db1 = Inr (new_delivery 1 ''control'', ?r)" by (rule demo_to_export)
  have w: "send demo_crypto ?v ?r demo_collector = (HttpStatus 401, demo_collector)" by (simp add: ServeHTTP_def)
  have p: "postpone 5 (new_delivery 1 ''control'') (HttpStatus 401) (AdDelivery demo_db1) = [?d]"
    by (simp add: postpone_def response_code_def demo_db1_eq update_where_Cons new_delivery_def retry_delay_def)
  have "Step demo_crypto (send demo_crypto ?v) 5 True (demo_db1, demo_collector) = ((False, Some (Undelivered 1 (http_code 401))), ?db, demo_collector)"
    unfolding Step_def Let_def prod.case e sum.case w using p by (simp add: response_code_def new_delivery_def)
  then have "audit_step demo_crypto demo_audit (demo_db1, demo_collector) (?db, demo_collector)"
    by (rule audit_step.export [rotated]) (simp add: honest_wire_def)
  then have "audit_reachable demo_crypto demo_audit (?db, demo_collector)"
    using demo_observed unfolding audit_reachable_def by (meson rtranclp.rtrancl_into_rtrancl)
  moreover have "oldest_pending (AdDelivery ?db) = Some ?d" by (simp add: oldest_pending_def new_delivery_def)
  moreover have "pending_of ''control'' (AdDelivery ?db) = int 0 + 1" by (simp add: pending_of_def count_where_def new_delivery_def)
  moreover have "DyDead ?d" by simp
  ultimately show ?case by blast
next
  case (Suc n)
  then obtain db :: "nat AuditDB" and d where db: "audit_reachable demo_crypto demo_audit (db, demo_collector)"
    "oldest_pending (AdDelivery db) = Some d" "DyDead d" "pending_of ''control'' (AdDelivery db) = int n + 1" by auto
  let ?p = "event_payload nobody ''request.intent'' ''started''"
  have c: "audit_category (AcCapacity demo_audit) ?p = (''control'', 10000)" by (simp add: audit_category_def event_payload_def has_prefix_def)
  have t: "trail_ok demo_crypto demo_audit db" using reachable_trail [OF demo_scheme db(1)] by blast
  obtain db' where db': "appendAudit demo_crypto demo_audit ?p ''T1'' True db = Inr db'"
    using append_succeeds [OF t c] db(4) Suc.prems by auto
  have "audit_step demo_crypto demo_audit (db, demo_collector) (db', demo_collector)"
    by (rule audit_step.observation [of "''T1''" _ _ nobody "''request.intent''" "''started''" True])
      (simp_all add: AuditObservation_def db' ValidString_Cons byte_in_def)
  then have "audit_reachable demo_crypto demo_audit (db', demo_collector)"
    using db(1) unfolding audit_reachable_def by (meson rtranclp.rtrancl_into_rtrancl)
  moreover have "oldest_pending (AdDelivery db') = Some d" by (rule oldest_stays [OF t db(2) db'])
  moreover have "pending_of ''control'' (AdDelivery db') = int (Suc n) + 1"
    using db' c db(4) by (elim appendAudit_InrD) (simp add: pending_append)
  ultimately show ?case using db(3) by blast
qed

lemma full_backlog_blocks_witness:
  "\<exists>(db :: nat AuditDB) d. audit_reachable demo_crypto demo_audit (db, demo_collector) \<and> DyDead d \<and> pending_of ''control'' (AdDelivery db) = 10000 \<and>
     oldest_pending (AdDelivery db) = Some d \<and>
     (let r = \<lparr>RqId = ''1'', RqMethod = ''POST'', RqPath = ''/api/audit/security/retry'', RqUser = Some ''admin'', RqIP = ''::1''\<rparr> in
      scoped demo_crypto demo_audit r ''T2'' True (retrySecurityAudit demo_crypto demo_audit r True ''T2'' True) db = (503, db))"
proof -
  obtain db :: "nat AuditDB" and d where db: "audit_reachable demo_crypto demo_audit (db, demo_collector)"
    "oldest_pending (AdDelivery db) = Some d" "DyDead d" "pending_of ''control'' (AdDelivery db) = 10000" using demo_requests [of 9999] by auto
  show ?thesis
    by (intro exI [of _ db] exI [of _ d])
      (use full_backlog_blocks [OF demo_scheme db(1-3) _ rtranclp.rtrancl_refl] db in \<open>simp add: Let_def\<close>)
qed

text \<open>C13. No change commits without its record.  A commit that fails leaves the tables as they were before the
  transaction.  A commit that succeeds leaves what the statements wrote and, unless they changed no row of
  an audited table, exactly one new record: it lists each table and statement once, with the number of rows
  the transaction changed by it.\<close>

theorem commit_is_recorded:
  assumes "Commit c a i ts ok (run_statements c qs db) = (e, db')"
  shows "(e \<noteq> None \<longrightarrow> db' = db) \<and>
    (e = None \<longrightarrow> AdBusiness db' = AdBusiness (TxNow (run_statements c qs db)) \<and>
      (\<exists>ms. distinct (map change_key ms) \<and>
        (\<forall>key. (case row_of change_key key ms of None \<Rightarrow> 0 | Some m \<Rightarrow> MuCount m) = rows_changed c key qs) \<and>
        (if ms = [] then AdTrail db' = AdTrail db
         else \<exists>w. AdTrail db' = AdTrail db @ [w] \<and>
           AwPayload w = payload_json \<lparr>ApIdentity = system_identity i, ApMutations = ms, ApEvent = [], ApOutcome = ''committed''\<rparr>)))"
proof -
  let ?tx = "run_statements c qs db" and ?ms = "map snd (sort_key fst (TxChanges (run_statements c qs db)))"
  have k: "keyed (TxChanges ?tx)" "\<And>key. count_at key (TxChanges ?tx) = rows_changed c key qs" using run_changes by blast+
  have d: "distinct (map change_key ?ms)"
  proof -
    have "map change_key ?ms = map fst (sort_key fst (TxChanges ?tx))" using k(1) by (simp add: keyed_def)
    moreover have "distinct (map fst (sort_key fst (TxChanges ?tx)))"
      using k(1) by (auto simp: keyed_def keys_distinct_def distinct_map inj_on_def)
    ultimately show ?thesis by (simp only:)
  qed
  have n: "(case row_of change_key key ?ms of None \<Rightarrow> 0 | Some m \<Rightarrow> MuCount m) = rows_changed c key qs" for key
    using k(2) [of key] unfolding sorted_changes [OF k(1)] count_at_def by (auto split: option.splits)
  have w: "AwPayload (next_row c (AcKey a) h ts p) = payload_json p" for h p by (simp add: next_row_def Let_def)
  note now = run_statements_now [of c qs db]
  show ?thesis
  proof (cases "e = None")
    case False
    then show ?thesis using assms now by (auto simp: Commit_def split: if_splits sum.splits)
  next
    case True
    have "AdBusiness db' = AdBusiness (TxNow ?tx) \<and> (if ?ms = [] then AdTrail db' = AdTrail db else \<exists>w. AdTrail db' = AdTrail db @ [w] \<and>
        AwPayload w = payload_json \<lparr>ApIdentity = system_identity i, ApMutations = ?ms, ApEvent = [], ApOutcome = ''committed''\<rparr>)"
    proof (cases "TxChanges ?tx = []")
      case t: True
      then show ?thesis using assms True now by (auto simp: Commit_def split: if_splits)
    next
      case f: False
      then have "appendAudit c a \<lparr>ApIdentity = system_identity i, ApMutations = ?ms, ApEvent = [], ApOutcome = ''committed''\<rparr>
          ts ok (TxNow ?tx) = Inr db'"
        using assms True by (auto simp: Commit_def split: sum.splits)
      moreover have "?ms \<noteq> []" using f by (metis length_0_conv length_map length_sort)
      ultimately show ?thesis using now w by (elim appendAudit_InrD) simp
    qed
    then show ?thesis using True d n by blast
  qed
qed

lemma commit_is_recorded_witness:
  "let r = Commit demo_crypto demo_audit nobody ''T1'' True (run_statements demo_crypto [(''DELETE FROM t'', [], Some (7, 3))] demo_db0) in
     fst r = None \<and> AdBusiness (snd r) = 7 \<and> length (AdTrail (snd r)) = 1"
proof -
  let ?tx = "run_statements demo_crypto [(''DELETE FROM t'', [], Some (7, 3))] demo_db0"
  have "find_mutation False ''DELETE FROM t'' = Some (''delete'', ''t'')" by code_simp
  then have "mutation demo_crypto ''DELETE FROM t'' \<noteq> None"
    by (simp add: mutation_def auditTelemetry_def audit_tables_def has_prefix_def)
  then obtain m0 where m0: "mutation demo_crypto ''DELETE FROM t'' = Some m0" by blast
  have ch: "rows_changed demo_crypto (change_key m0) [(''DELETE FROM t'', [], Some (7 :: nat, 3))] = 3"
    by (simp add: rows_changed_def stmt_rows_def m0)
  then have "TxChanges ?tx \<noteq> []"
    using run_changes [of demo_crypto "[(''DELETE FROM t'', [], Some (7, 3))]" demo_db0 "change_key m0"] by (auto simp: count_at_def)
  then have "fst (Commit demo_crypto demo_audit nobody ''T1'' True ?tx) = None"
    using run_statements_now [of demo_crypto "[(''DELETE FROM t'', [], Some (7, 3))]" demo_db0]
    by (simp add: Commit_def appendAudit_def audit_category_def pending_of_def count_where_def demo_db0_def demo_audit_def Let_def next_row_def)
  then obtain db' where c: "Commit demo_crypto demo_audit nobody ''T1'' True ?tx = (None, db')"
    by (metis prod.collapse)
  have b: "AdBusiness (TxNow ?tx) = 7" by (simp add: run_statements_def Exec_def)
  from commit_is_recorded [OF c] obtain ms where ms: "AdBusiness db' = AdBusiness (TxNow ?tx)"
    "\<forall>key. (case row_of change_key key ms of None \<Rightarrow> 0 | Some m \<Rightarrow> MuCount m) =
      rows_changed demo_crypto key [(''DELETE FROM t'', [], Some (7 :: nat, 3))]"
    "if ms = [] then AdTrail db' = AdTrail demo_db0 else \<exists>w. AdTrail db' = AdTrail demo_db0 @ [w] \<and>
      AwPayload w = payload_json \<lparr>ApIdentity = system_identity nobody, ApMutations = ms, ApEvent = [], ApOutcome = ''committed''\<rparr>"
    by blast
  have "(case row_of change_key (change_key m0) ms of None \<Rightarrow> 0 | Some m \<Rightarrow> MuCount m) = 3" by (rule trans [OF ms(2) [rule_format] ch])
  then have "ms \<noteq> []" by auto
  then have "length (AdTrail db') = 1" using ms(3) by (auto simp: demo_db0_def)
  then show ?thesis using c ms(1) b by (simp add: Let_def)
qed

section \<open>What the code does not do\<close>

text \<open>An identity that is too long for its limit of 64 bytes is replaced by 74 bytes: the digest alone has 64.\<close>

lemma long_address_exceeds_limit:
  assumes "\<And>x. length (Sha256 c x) = 64" "64 < length ip"
  shows "length (IdIP (WithAuditIdentity c (i\<lparr>IdIP := ip\<rparr>))) = 74"
  using assms by (simp add: WithAuditIdentity_def boundedAuditIdentity_def valid_or.simps [of "''?''" False "[]"])

text \<open>A write of the collector that fails is answered with 409, which the exporter takes for permanent: a
  passing fault of a disk makes a dead letter at the first attempt.\<close>

lemma failed_write_is_dead_letter:
  assumes "acceptable c r k" "\<not> CoBroken k" "CoReceipts k (ArSeq r) = None" "w \<noteq> Written"
  shows "fst (ServeHTTP c True w r k) = HttpStatus 409" "snd (response_code (HttpStatus 409))"
  using assms by (auto simp: ServeHTTP_def accept_record_def response_code_def split: file_write.splits)

end
