(* ===== verification/TypeSchema.thy ===== *)
theory TypeSchema
  imports DomainModel
begin

text \<open>
  What a job definition may contain: the registry of \<open>domain/typeschema.go\<close>, one schema per job
  type, and the validator of \<open>domain/validate.go\<close>.  Descriptions for the editor are left out.  An
  error is a constructor with the names its message has.  A Go map is visited in no fixed order; the
  model visits the parameters in the order of the list, and \<open>TypeCorrect\<close> shows that whether a
  definition is accepted does not depend on it.
\<close>

section \<open>Fields and schemas\<close>

datatype FieldKind =
    KindString | KindInt | KindBool | KindMap | KindArray | KindEnum | KindScalar | KindIntList | KindJSON

record FieldSpec =
  FieldName :: string
  FieldAliases :: "string list"
  Kind :: FieldKind
  FieldRequired :: bool
  Enum :: "string list"

datatype schema_error =
    UnknownField string string
  | BadKind string string FieldKind
  | FieldMissing string string
  | WasmSourceMissing
  | JobTypeMissing | IdMissing | LabelMissing | TeamMissing

type_synonym params = "(string \<times> goval) list"

record JobTypeSchema =
  SchemaType :: string
  SchemaAliases :: "string list"
  Agentless :: bool
  Fields :: "FieldSpec list"
  Check :: "(params \<Rightarrow> schema_error option) option"

abbreviation "field" :: "string \<Rightarrow> FieldKind \<Rightarrow> FieldSpec" where
  "field n k \<equiv> \<lparr>FieldName = n, FieldAliases = [], Kind = k, FieldRequired = False, Enum = []\<rparr>"

abbreviation required :: "string \<Rightarrow> FieldKind \<Rightarrow> FieldSpec" where
  "required n k \<equiv> \<lparr>FieldName = n, FieldAliases = [], Kind = k, FieldRequired = True, Enum = []\<rparr>"

text \<open>A type assertion to \<open>string\<close> whose second result is dropped gives the empty string.\<close>

fun as_string :: "goval option \<Rightarrow> string" where
  "as_string (Some (GoString s)) = s"
| "as_string _ = []"

definition wasm_check :: "params \<Rightarrow> schema_error option" where
  "wasm_check cfg =
     (if TrimSpace (as_string (map_of cfg ''wasmPath'')) = [] \<and> TrimSpace (as_string (map_of cfg ''wasmUrl'')) = []
      then Some WasmSourceMissing else None)"

section \<open>The registry\<close>

definition schema_COMMAND :: JobTypeSchema where
  "schema_COMMAND = \<lparr>SchemaType = ''COMMAND'', SchemaAliases = [], Agentless = False,
     Fields =
      [required ''command'' KindString,
       field ''cwd'' KindString],
     Check = None\<rparr>"

definition schema_SCRIPT :: JobTypeSchema where
  "schema_SCRIPT = \<lparr>SchemaType = ''SCRIPT'', SchemaAliases = [], Agentless = False,
     Fields =
      [required ''scriptPath'' KindString,
       field ''args'' KindString,
       field ''cwd'' KindString],
     Check = None\<rparr>"

definition schema_SSH :: JobTypeSchema where
  "schema_SSH = \<lparr>SchemaType = ''SSH'', SchemaAliases = [], Agentless = True,
     Fields =
      [required ''host'' KindString,
       required ''command'' KindString,
       field ''user'' KindString,
       field ''port'' KindScalar,
       field ''keyPath'' KindString,
       field ''strictHostKey'' KindString],
     Check = None\<rparr>"

definition schema_SSH_REMOTE :: JobTypeSchema where
  "schema_SSH_REMOTE = \<lparr>SchemaType = ''SSH_REMOTE'', SchemaAliases = [], Agentless = False,
     Fields =
      [required ''host'' KindString,
       required ''user'' KindString,
       field ''port'' KindScalar,
       required ''command'' KindString,
       required ''keyPath'' KindString,
       required ''knownHostsPath'' KindString,
       (required ''strictHostKey'' KindEnum)\<lparr>Enum := [''yes'']\<rparr>],
     Check = None\<rparr>"

definition schema_HTTP :: JobTypeSchema where
  "schema_HTTP = \<lparr>SchemaType = ''HTTP'', SchemaAliases = [''REST''], Agentless = False,
     Fields =
      [required ''url'' KindString,
       (field ''method'' KindEnum)\<lparr>Enum := [''GET'', ''POST'', ''PUT'', ''PATCH'', ''DELETE'']\<rparr>,
       field ''headers'' KindMap,
       field ''body'' KindString,
       field ''expectStatus'' KindIntList],
     Check = None\<rparr>"

definition schema_DATABASE :: JobTypeSchema where
  "schema_DATABASE = \<lparr>SchemaType = ''DATABASE'', SchemaAliases = [''DB''], Agentless = False,
     Fields =
      [(required ''driver'' KindEnum)\<lparr>Enum := [''postgres'', ''postgresql'', ''pg'', ''pgx'', ''mysql'', ''mariadb'',
         ''sqlite'', ''sqlite3'']\<rparr>,
       required ''dsn'' KindString,
       required ''sql'' KindString,
       field ''maxRows'' KindInt,
       field ''query'' KindBool],
     Check = None\<rparr>"

definition schema_FILE_WATCH :: JobTypeSchema where
  "schema_FILE_WATCH = \<lparr>SchemaType = ''FILE_WATCH'', SchemaAliases = [''FILEWATCH''], Agentless = False,
     Fields =
      [required ''path'' KindString,
       field ''intervalSec'' KindInt,
       field ''stableSec'' KindInt],
     Check = None\<rparr>"

definition schema_FILE_TRANSFER :: JobTypeSchema where
  "schema_FILE_TRANSFER = \<lparr>SchemaType = ''FILE_TRANSFER'', SchemaAliases = [''MFT''], Agentless = False,
     Fields =
      [required ''src'' KindString,
       required ''dst'' KindString,
       field ''checksum'' KindBool,
       field ''deleteSource'' KindBool,
       field ''overwrite'' KindBool,
       field ''mkdirs'' KindBool,
       field ''keyPath'' KindString,
       field ''password'' KindString,
       field ''hostKeyFingerprint'' KindString,
       field ''region'' KindString,
       field ''accessKeyId'' KindString,
       field ''secretAccessKey'' KindString,
       field ''sessionToken'' KindString,
       field ''s3Endpoint'' KindString],
     Check = None\<rparr>"

definition schema_LAMBDA :: JobTypeSchema where
  "schema_LAMBDA = \<lparr>SchemaType = ''LAMBDA'', SchemaAliases = [''AWS_LAMBDA''], Agentless = False,
     Fields =
      [(required ''function'' KindString)\<lparr>FieldAliases := [''functionName'']\<rparr>,
       field ''region'' KindString,
       field ''payload'' KindJSON,
       (field ''invocationType'' KindEnum)\<lparr>Enum := [''RequestResponse'', ''Event'']\<rparr>,
       field ''accessKeyId'' KindString,
       field ''secretAccessKey'' KindString,
       field ''sessionToken'' KindString,
       field ''endpoint'' KindString],
     Check = None\<rparr>"

definition schema_BATCH :: JobTypeSchema where
  "schema_BATCH = \<lparr>SchemaType = ''BATCH'', SchemaAliases = [''AWS_BATCH''], Agentless = False,
     Fields =
      [required ''jobQueue'' KindString,
       required ''jobDefinition'' KindString,
       field ''jobName'' KindString,
       field ''command'' KindString,
       field ''env'' KindMap,
       field ''parameters'' KindMap,
       field ''region'' KindString,
       field ''accessKeyId'' KindString,
       field ''secretAccessKey'' KindString,
       field ''sessionToken'' KindString,
       field ''endpoint'' KindString],
     Check = None\<rparr>"

definition schema_GLUE :: JobTypeSchema where
  "schema_GLUE = \<lparr>SchemaType = ''GLUE'', SchemaAliases = [''AWS_GLUE''], Agentless = False,
     Fields =
      [required ''jobName'' KindString,
       field ''arguments'' KindMap,
       field ''workerType'' KindString,
       field ''numberOfWorkers'' KindInt,
       field ''region'' KindString,
       field ''accessKeyId'' KindString,
       field ''secretAccessKey'' KindString,
       field ''sessionToken'' KindString,
       field ''endpoint'' KindString],
     Check = None\<rparr>"

definition schema_STEP_FUNCTION :: JobTypeSchema where
  "schema_STEP_FUNCTION = \<lparr>SchemaType = ''STEP_FUNCTION'', SchemaAliases = [''STEP_FUNCTIONS''], Agentless = False,
     Fields =
      [required ''stateMachineArn'' KindString,
       field ''input'' KindJSON,
       field ''name'' KindString,
       field ''region'' KindString,
       field ''accessKeyId'' KindString,
       field ''secretAccessKey'' KindString,
       field ''sessionToken'' KindString,
       field ''endpoint'' KindString],
     Check = None\<rparr>"

definition schema_WASM :: JobTypeSchema where
  "schema_WASM = \<lparr>SchemaType = ''WASM'', SchemaAliases = [], Agentless = False,
     Fields =
      [field ''wasmPath'' KindString,
       field ''wasmUrl'' KindString,
       field ''args'' KindString,
       field ''stdin'' KindString],
     Check = Some wasm_check\<rparr>"

definition schema_K8S :: JobTypeSchema where
  "schema_K8S = \<lparr>SchemaType = ''K8S'', SchemaAliases = [''K8S_JOB''], Agentless = False,
     Fields =
      [required ''image'' KindString,
       field ''command'' KindString,
       field ''namespace'' KindString,
       field ''name'' KindString,
       field ''apiServer'' KindString,
       field ''token'' KindString,
       field ''insecureTLS'' KindBool],
     Check = None\<rparr>"

definition schema_GCP_RUN :: JobTypeSchema where
  "schema_GCP_RUN = \<lparr>SchemaType = ''GCP_RUN'', SchemaAliases = [''CLOUD_RUN_JOB''], Agentless = False,
     Fields =
      [required ''project'' KindString,
       required ''region'' KindString,
       required ''job'' KindString,
       field ''token'' KindString,
       field ''endpoint'' KindString],
     Check = None\<rparr>"

definition jobTypeSchemas :: "JobTypeSchema list" where
  "jobTypeSchemas =
    [schema_COMMAND, schema_SCRIPT, schema_SSH, schema_SSH_REMOTE, schema_HTTP, schema_DATABASE,
     schema_FILE_WATCH, schema_FILE_TRANSFER, schema_LAMBDA,
     schema_BATCH, schema_GLUE, schema_STEP_FUNCTION, schema_WASM,
     schema_K8S, schema_GCP_RUN]"

text \<open>The index by type and alias; a later entry replaces an earlier one with its key.\<close>

definition schemaIndex :: "(string \<times> JobTypeSchema) list" where
  "schemaIndex = concat (map (\<lambda>s. (ToUpper (SchemaType s), s) # map (\<lambda>a. (ToUpper a, s)) (SchemaAliases s)) jobTypeSchemas)"

definition SchemaFor :: "string \<Rightarrow> JobTypeSchema option" where
  "SchemaFor jobType = map_of (rev schemaIndex) (ToUpper (TrimSpace jobType))"

section \<open>Kinds of values\<close>

text \<open>A \<open>float64\<close> counts when its conversion to \<open>int64\<close> and back gives it again.\<close>

fun isIntLike :: "goval \<Rightarrow> bool" where
  "isIntLike (GoInt n) = True"
| "isIntLike (GoFloat (Some n)) = (min_int64 \<le> n \<and> n \<le> max_int64)"
| "isIntLike _ = False"

definition csv_digits :: "string \<Rightarrow> bool" where
  "csv_digits s = list_all (\<lambda>part. TrimSpace part = [] \<or> list_all is_digit (TrimSpace part)) (split_on (CHR '','') s)"

definition checkKind :: "FieldSpec \<Rightarrow> goval \<Rightarrow> bool" where
  "checkKind f v =
     (case Kind f of
        KindString \<Rightarrow> (case v of GoString _ \<Rightarrow> True | _ \<Rightarrow> False)
      | KindInt \<Rightarrow> isIntLike v
      | KindBool \<Rightarrow>
          (case v of
             GoBool _ \<Rightarrow> True
           | GoString s \<Rightarrow> EqualFold s ''true'' \<or> EqualFold s ''false''
           | _ \<Rightarrow> False)
      | KindMap \<Rightarrow> (case v of GoMap _ \<Rightarrow> True | _ \<Rightarrow> False)
      | KindArray \<Rightarrow> (case v of GoArray _ \<Rightarrow> True | _ \<Rightarrow> False)
      | KindEnum \<Rightarrow> (case v of GoString s \<Rightarrow> list_ex (EqualFold s) (Enum f) | _ \<Rightarrow> False)
      | KindScalar \<Rightarrow> (case v of GoString _ \<Rightarrow> True | _ \<Rightarrow> isIntLike v)
      | KindIntList \<Rightarrow>
          isIntLike v \<or>
          (case v of
             GoString s \<Rightarrow> csv_digits s
           | GoArray xs \<Rightarrow> list_all isIntLike xs
           | _ \<Rightarrow> False)
      | KindJSON \<Rightarrow> (case v of GoString _ \<Rightarrow> True | GoMap _ \<Rightarrow> True | GoArray _ \<Rightarrow> True | _ \<Rightarrow> False))"

section \<open>Validation\<close>

definition field_names :: "FieldSpec \<Rightarrow> string list" where
  "field_names f = FieldName f # FieldAliases f"

definition byName :: "JobTypeSchema \<Rightarrow> (string \<times> FieldSpec) list" where
  "byName s = concat (map (\<lambda>f. map (\<lambda>n. (n, f)) (field_names f)) (Fields s))"

definition value_present :: "goval \<Rightarrow> bool" where
  "value_present v = (case v of GoString s \<Rightarrow> TrimSpace s \<noteq> [] | _ \<Rightarrow> True)"

fun first_present :: "params \<Rightarrow> string list \<Rightarrow> goval option" where
  "first_present cfg [] = None"
| "first_present cfg (n # ns) =
     (case map_of cfg n of
        None \<Rightarrow> first_present cfg ns
      | Some v \<Rightarrow> if value_present v then Some v else first_present cfg ns)"

definition lookupField :: "params \<Rightarrow> FieldSpec \<Rightarrow> goval option" where
  "lookupField cfg f = first_present cfg (field_names f)"

fun check_entries :: "JobTypeSchema \<Rightarrow> params \<Rightarrow> schema_error option" where
  "check_entries s [] = None"
| "check_entries s ((k, v) # cfg) =
     (case map_of (rev (byName s)) k of
        None \<Rightarrow> Some (UnknownField (SchemaType s) k)
      | Some f \<Rightarrow>
          if checkKind f v then check_entries s cfg
          else Some (BadKind (SchemaType s) (FieldName f) (Kind f)))"

fun check_required :: "JobTypeSchema \<Rightarrow> params \<Rightarrow> FieldSpec list \<Rightarrow> schema_error option" where
  "check_required s cfg [] = None"
| "check_required s cfg (f # fs) =
     (if FieldRequired f \<and> lookupField cfg f = None then Some (FieldMissing (SchemaType s) (FieldName f))
      else check_required s cfg fs)"

definition validateAgainstSchema :: "JobTypeSchema \<Rightarrow> params \<Rightarrow> bool \<Rightarrow> schema_error option" where
  "validateAgainstSchema s cfg strict =
     (case check_entries s cfg of
        Some e \<Rightarrow> Some e
      | None \<Rightarrow>
          if \<not> strict then None
          else (case check_required s cfg (Fields s) of
                  Some e \<Rightarrow> Some e
                | None \<Rightarrow> (case Check s of None \<Rightarrow> None | Some chk \<Rightarrow> chk cfg)))"

definition validateAC :: "JobDefinition \<Rightarrow> bool \<Rightarrow> schema_error option" where
  "validateAC def strict =
     (let jt = TrimSpace (JobType def) in
      if jt = [] then Some JobTypeMissing
      else case SchemaFor jt of
             None \<Rightarrow> None
           | Some s \<Rightarrow>
               (case Params def of
                  None \<Rightarrow>
                    if \<not> strict then None
                    else map_option (\<lambda>f. FieldMissing (SchemaType s) (FieldName f)) (find FieldRequired (Fields s))
                | Some cfg \<Rightarrow> validateAgainstSchema s cfg strict))"

definition ValidateActionConfig :: "JobDefinition \<Rightarrow> schema_error option" where
  "ValidateActionConfig def = validateAC def True"

definition ValidateActionConfigDraft :: "JobDefinition \<Rightarrow> schema_error option" where
  "ValidateActionConfigDraft def = validateAC def False"

definition validateDefShape :: "JobDefinition \<Rightarrow> schema_error option" where
  "validateDefShape def =
     (if TrimSpace (ID def) = [] then Some IdMissing
      else if TrimSpace (Label def) = [] then Some LabelMissing
      else if TrimSpace (Team def) = [] then Some TeamMissing
      else None)"

definition ValidateDefinition :: "JobDefinition \<Rightarrow> schema_error option" where
  "ValidateDefinition def =
     (case validateDefShape def of Some e \<Rightarrow> Some e | None \<Rightarrow> ValidateActionConfig def)"

definition ValidateDefinitionDraft :: "JobDefinition \<Rightarrow> schema_error option" where
  "ValidateDefinitionDraft def =
     (case validateDefShape def of Some e \<Rightarrow> Some e | None \<Rightarrow> ValidateActionConfigDraft def)"

end
