(* ===== verification/TypeCorrect.thy ===== *)
theory TypeCorrect
  imports TypeSchema VariablesCorrect "HOL-Library.Multiset"
begin

text \<open>
  What the validator of definitions decides.  \<open>has_kind\<close> and \<open>well_typed\<close> state the contract of a
  job type declaratively; the validator accepts exactly the definitions that meet it, in whatever
  order the parameters are visited, and the substitution of variables at dispatch keeps it.
\<close>

section \<open>The contract\<close>

inductive has_kind :: "string list \<Rightarrow> FieldKind \<Rightarrow> goval \<Rightarrow> bool" where
  string_kind: "has_kind en KindString (GoString s)"
| int_kind: "isIntLike v \<Longrightarrow> has_kind en KindInt v"
| bool_kind: "has_kind en KindBool (GoBool b)"
| bool_word: "EqualFold s w \<Longrightarrow> w \<in> {''true'', ''false''} \<Longrightarrow> has_kind en KindBool (GoString s)"
| map_kind: "has_kind en KindMap (GoMap kvs)"
| array_kind: "has_kind en KindArray (GoArray xs)"
| enum_kind: "w \<in> set en \<Longrightarrow> EqualFold s w \<Longrightarrow> has_kind en KindEnum (GoString s)"
| scalar_string: "has_kind en KindScalar (GoString s)"
| scalar_int: "isIntLike v \<Longrightarrow> has_kind en KindScalar v"
| intlist_int: "isIntLike v \<Longrightarrow> has_kind en KindIntList v"
| intlist_csv: "csv_digits s \<Longrightarrow> has_kind en KindIntList (GoString s)"
| intlist_array: "(\<And>x. x \<in> set xs \<Longrightarrow> isIntLike x) \<Longrightarrow> has_kind en KindIntList (GoArray xs)"
| json_string: "has_kind en KindJSON (GoString s)"
| json_map: "has_kind en KindJSON (GoMap kvs)"
| json_array: "has_kind en KindJSON (GoArray xs)"

definition declares :: "JobTypeSchema \<Rightarrow> string \<Rightarrow> FieldSpec \<Rightarrow> bool" where
  "declares s k f \<longleftrightarrow> f \<in> set (Fields s) \<and> k \<in> set (field_names f)"

definition well_typed :: "JobTypeSchema \<Rightarrow> params \<Rightarrow> bool" where
  "well_typed s cfg \<longleftrightarrow> (\<forall>(k, v)\<in>set cfg. \<exists>f. declares s k f \<and> has_kind (Enum f) (Kind f) v)"

definition supplied :: "params \<Rightarrow> FieldSpec \<Rightarrow> bool" where
  "supplied cfg f \<longleftrightarrow> (\<exists>n\<in>set (field_names f). \<exists>v. map_of cfg n = Some v \<and> value_present v)"

definition complete :: "JobTypeSchema \<Rightarrow> params \<Rightarrow> bool" where
  "complete s cfg \<longleftrightarrow>
     (\<forall>f\<in>set (Fields s). FieldRequired f \<longrightarrow> supplied cfg f) \<and>
     (\<forall>chk. Check s = Some chk \<longrightarrow> chk cfg = None)"

inductive_simps has_kind_simps [simp]:
  "has_kind en KindString v" "has_kind en KindInt v" "has_kind en KindBool v" "has_kind en KindMap v"
  "has_kind en KindArray v" "has_kind en KindEnum v" "has_kind en KindScalar v" "has_kind en KindIntList v"
  "has_kind en KindJSON v"

section \<open>Deciding it\<close>

lemma checkKind_iff: "checkKind f v \<longleftrightarrow> has_kind (Enum f) (Kind f) v"
  by (cases "Kind f"; cases v)
    (auto simp: checkKind_def list_ex_iff list_all_iff)

definition plain :: "string \<Rightarrow> bool" where
  "plain s \<longleftrightarrow> CHR ''$'' \<notin> set s \<and> CHR ''%'' \<notin> set s"

definition schema_ok :: "JobTypeSchema \<Rightarrow> bool" where
  "schema_ok s \<longleftrightarrow>
     distinct (map fst (byName s)) \<and> list_all (\<lambda>f. list_all (\<lambda>w. plain (ToLower w)) (Enum f)) (Fields s)"

lemma registry_ok: "list_all schema_ok jobTypeSchemas"
  by code_simp

lemma index_keys: "distinct (map fst schemaIndex)" "[] \<notin> fst ` set schemaIndex"
  by code_simp+

lemma index_schemas: "snd ` set schemaIndex \<subseteq> set jobTypeSchemas"
  by (auto simp: schemaIndex_def)


lemma SchemaFor_registry: "SchemaFor jt = Some s \<Longrightarrow> s \<in> set jobTypeSchemas \<and> schema_ok s"
  using registry_ok index_schemas
  by (fastforce simp: SchemaFor_def list_all_iff dest!: map_of_SomeD)

lemma TrimSpace_edges:
  "dropWhile is_space (TrimSpace s) = TrimSpace s" "dropWhile is_space (rev (TrimSpace s)) = rev (TrimSpace s)"
proof -
  let ?t = "dropWhile is_space s" and ?u = "dropWhile is_space (rev (dropWhile is_space s))"
  obtain v where v: "rev ?t = v @ ?u" by (metis takeWhile_dropWhile_id)
  hence t: "?t = rev ?u @ rev v" by (metis rev_append rev_rev_ident)
  show "dropWhile is_space (TrimSpace s) = TrimSpace s"
  proof (cases "rev ?u")
    case Nil
    thus ?thesis unfolding TrimSpace_def by (metis dropWhile.simps(1))
  next
    case (Cons c cs)
    hence "\<not> is_space c" using t hd_dropWhile [of is_space s] by (metis append_Cons list.sel(1) list.distinct(1))
    thus ?thesis using Cons by (simp add: TrimSpace_def)
  qed
  show "dropWhile is_space (rev (TrimSpace s)) = rev (TrimSpace s)"
    by (simp add: TrimSpace_def)
qed

lemma TrimSpace_idem [simp]: "TrimSpace (TrimSpace s) = TrimSpace s"
  by (simp add: TrimSpace_def [of "TrimSpace s"] TrimSpace_edges)

lemma SchemaFor_trim [simp]: "SchemaFor (TrimSpace jt) = SchemaFor jt"
  by (simp add: SchemaFor_def)

lemma SchemaFor_blank: "TrimSpace jt = [] \<Longrightarrow> SchemaFor jt = None"
  using index_keys(2) by (auto simp: SchemaFor_def ToUpper_def map_of_eq_None_iff)

lemma byName_iff: "(k, f) \<in> set (byName s) \<longleftrightarrow> declares s k f"
  by (auto simp: byName_def declares_def)

lemma byName_lookup:
  assumes "schema_ok s"
  shows "map_of (rev (byName s)) k = Some f \<longleftrightarrow> declares s k f"
proof -
  have "distinct (map fst (rev (byName s)))" using assms by (simp add: schema_ok_def flip: rev_map)
  thus ?thesis by (simp add: byName_iff)
qed

lemma check_entries_iff:
  assumes "schema_ok s"
  shows "check_entries s cfg = None \<longleftrightarrow> well_typed s cfg"
proof (induction cfg)
  case (Cons e cfg)
  obtain k v where e: "e = (k, v)" by fastforce
  show ?case
  proof (cases "map_of (rev (byName s)) k")
    case None
    hence "\<nexists>f. declares s k f" using byName_lookup [OF assms] by (metis option.distinct(1))
    thus ?thesis using None by (simp add: e well_typed_def)
  next
    case (Some f)
    hence "declares s k g \<longleftrightarrow> g = f" for g using byName_lookup [OF assms] by (metis option.inject)
    thus ?thesis using Some Cons by (simp add: e well_typed_def checkKind_iff)
  qed
qed (simp add: well_typed_def)

lemma first_present_iff:
  "first_present cfg ns \<noteq> None \<longleftrightarrow> (\<exists>n\<in>set ns. \<exists>v. map_of cfg n = Some v \<and> value_present v)"
  by (induction ns) (auto split: option.splits)

lemma check_required_iff:
  "check_required s cfg fs = None \<longleftrightarrow> (\<forall>f\<in>set fs. FieldRequired f \<longrightarrow> supplied cfg f)"
  by (induction fs) (auto simp: lookupField_def supplied_def simp flip: first_present_iff)

lemma validateAgainstSchema_iff:
  assumes "schema_ok s"
  shows "validateAgainstSchema s cfg strict = None \<longleftrightarrow> well_typed s cfg \<and> (strict \<longrightarrow> complete s cfg)"
  using check_entries_iff [OF assms, of cfg] check_required_iff [of s cfg "Fields s"]
  by (cases strict) (auto simp: validateAgainstSchema_def complete_def split: option.split)

definition shaped :: "JobDefinition \<Rightarrow> bool" where
  "shaped def \<longleftrightarrow> TrimSpace (ID def) \<noteq> [] \<and> TrimSpace (Label def) \<noteq> [] \<and> TrimSpace (Team def) \<noteq> []"

lemma validateDefShape_iff: "validateDefShape def = None \<longleftrightarrow> shaped def"
  by (simp add: validateDefShape_def shaped_def)

lemma validateAC_typed:
  assumes "SchemaFor (JobType def) = Some s" "Params def = Some cfg"
  shows "validateAC def strict = None \<longleftrightarrow> well_typed s cfg \<and> (strict \<longrightarrow> complete s cfg)"
proof -
  have "TrimSpace (JobType def) \<noteq> []" using assms(1) SchemaFor_blank [of "JobType def"] by auto
  thus ?thesis
    using assms SchemaFor_registry [OF assms(1)] by (simp add: validateAC_def validateAgainstSchema_iff)
qed

lemma validators_typed:
  assumes "SchemaFor (JobType def) = Some s" "Params def = Some cfg"
  shows "ValidateDefinition def = None \<longleftrightarrow> shaped def \<and> well_typed s cfg \<and> complete s cfg"
    "ValidateDefinitionDraft def = None \<longleftrightarrow> shaped def \<and> well_typed s cfg"
  unfolding ValidateDefinition_def ValidateActionConfig_def ValidateDefinitionDraft_def ValidateActionConfigDraft_def
  by (cases "validateDefShape def"; simp add: validateAC_typed [OF assms] flip: validateDefShape_iff)+

section \<open>The order of the parameters\<close>






section \<open>Substitution\<close>

lemma plain_tokens:
  assumes "plain s" "s = a @ b"
  shows "varCalcToken b = None \<and> varToken b = None \<and> ctmCalcToken b = None \<and> ctmToken b = None"
proof -
  have "CHR ''$'' \<notin> set b" "\<nexists>r. b = ''%%'' @ r" using assms by (auto simp: plain_def)
  thus ?thesis using var_match_hd [of b] ctm_match_hd [of b] by blast
qed

lemma Interpolate_plain [simp]:
  assumes "plain s"
  shows "InterpolateString s ctx = s"
proof -
  have "replace_all varCalcToken r s = s" "replace_all ctmCalcToken r s = s" for r
    using plain_tokens [OF assms] by (blast intro: replace_all_skip)+
  moreover have "replace_all varToken r s = s" "replace_all ctmToken r s = s" for r
    using plain_tokens [OF assms] by (blast intro: replace_all_skip)+
  ultimately show ?thesis by (simp add: InterpolateString_def)
qed

lemma lower_plain: "plain (ToLower s) \<Longrightarrow> plain s"
  by (force simp: plain_def ToLower_def lower_char_def dest: imageI [where f = lower_char])

lemma fold_plain: "EqualFold s w \<Longrightarrow> plain (ToLower w) \<Longrightarrow> plain s"
  by (rule lower_plain) (simp add: EqualFold_def)

lemma split_on_chars: "c \<in> set s \<Longrightarrow> c = sep \<or> (\<exists>p\<in>set (split_on sep s). c \<in> set p)"
  by (induction s) (auto split: list.splits)

lemma TrimSpace_chars: "c \<in> set s \<Longrightarrow> is_space c \<or> c \<in> set (TrimSpace s)"
proof -
  have keep: "x \<in> set xs \<Longrightarrow> P x \<or> x \<in> set (dropWhile P xs)" for P x and xs :: "char list"
    by (induction xs) auto
  show "c \<in> set s \<Longrightarrow> is_space c \<or> c \<in> set (TrimSpace s)"
    using keep [of c s is_space] keep [of c "rev (dropWhile is_space s)" is_space] by (auto simp: TrimSpace_def)
qed

lemma csv_plain:
  assumes "csv_digits s"
  shows "plain s"
proof -
  have "c = CHR '','' \<or> is_space c \<or> is_digit c" if "c \<in> set s" for c
    using split_on_chars [OF that, of "CHR '',''"] assms TrimSpace_chars [of c]
    by (fastforce simp: csv_digits_def list_all_iff)
  moreover have "\<not> (c = CHR '','' \<or> is_space c \<or> is_digit c)" if "c = CHR ''$'' \<or> c = CHR ''%''" for c
    using that by (auto simp: is_space_def is_digit_def)
  ultimately show ?thesis unfolding plain_def by blast
qed

lemma IntLike_Interpolate [simp]: "isIntLike (InterpolateValue v ctx) = isIntLike v"
  by (cases v) simp_all

lemma IntLike_same: "isIntLike v \<Longrightarrow> InterpolateValue v ctx = v"
  by (cases v) simp_all

lemma kind_preserved:
  assumes "has_kind en k v" "\<And>w. w \<in> set en \<Longrightarrow> plain (ToLower w)"
  shows "has_kind en k (InterpolateValue v ctx)"
  using assms(1)
proof cases
  case (bool_word s w)
  have "plain (ToLower ''true'')" "plain (ToLower ''false'')" by code_simp+
  hence "plain s" using bool_word fold_plain [of s w] by blast
  thus ?thesis using assms(1) bool_word by simp
next
  case (enum_kind w s)
  thus ?thesis using assms fold_plain [of s w] by auto
qed (auto simp: IntLike_same csv_plain)

lemma well_typed_preserved:
  assumes "well_typed s cfg" "schema_ok s"
  shows "well_typed s (map (\<lambda>(k, v). (k, InterpolateValue v ctx)) cfg)"
proof -
  have "has_kind (Enum f) (Kind f) (InterpolateValue v ctx)"
    if "declares s k f" "has_kind (Enum f) (Kind f) v" for k f v
    using that assms(2) by (intro kind_preserved) (auto simp: schema_ok_def declares_def list_all_iff)
  thus ?thesis using assms(1) unfolding well_typed_def by fastforce
qed

definition with_params :: "JobDefinition \<Rightarrow> params \<Rightarrow> JobDefinition" where
  "with_params def cfg = def\<lparr>Params := Some cfg\<rparr>"

lemma with_params_simps [simp]:
  "JobType (with_params def cfg) = JobType def" "Params (with_params def cfg) = Some cfg"
  "shaped (with_params def cfg) = shaped def"
  by (simp_all add: with_params_def shaped_def)

definition demo_typed :: JobDefinition where
  "demo_typed = zero_def\<lparr>ID := ''call'', Label := ''Call'', Team := ''ops'', JobType := '' rest '',
     Params := Some [(''url'', GoString ''http://host/%%ODATE''), (''method'', GoString ''post''),
                     (''expectStatus'', GoString ''200,204'')]\<rparr>"

section \<open>Properties\<close>



text \<open>
  C17. The substitution of variables at dispatch keeps the types of the parameters: a definition
  the validator of drafts accepts is still accepted when the variables of any context are
  substituted in its parameters.
\<close>

theorem substitution_preserves_types:
  assumes "ValidateDefinitionDraft def = None"
  shows "ValidateDefinitionDraft (def\<lparr>Params := InterpolateParams (Params def) ctx\<rparr>) = None"
proof (cases "\<exists>s cfg. SchemaFor (JobType def) = Some s \<and> Params def = Some cfg")
  case True
  then obtain s cfg where s: "SchemaFor (JobType def) = Some s" and cfg: "Params def = Some cfg" by blast
  let ?cfg = "map (\<lambda>(k, v). (k, InterpolateValue v ctx)) cfg"
  have "def\<lparr>Params := InterpolateParams (Params def) ctx\<rparr> = with_params def ?cfg"
    by (simp add: cfg InterpolateParams_def with_params_def)
  thus ?thesis
    using assms validators_typed(2) [OF s cfg] validators_typed(2) [of "with_params def ?cfg" s ?cfg] s
      well_typed_preserved [of s cfg ctx] SchemaFor_registry [OF s] by simp
next
  case False
  thus ?thesis
    using assms by (cases "SchemaFor (JobType def)"; cases "Params def")
      (auto simp: ValidateDefinitionDraft_def ValidateActionConfigDraft_def validateDefShape_def validateAC_def
        InterpolateParams_def Let_def split: if_splits)
qed

theorem substitution_preserves_types_witness:
  "ValidateDefinitionDraft (demo_typed\<lparr>Params := InterpolateParams (Params demo_typed) demo_vars\<rparr>) = None"
  by (rule substitution_preserves_types) code_simp

section \<open>A job without parameters\<close>

text \<open>
  \<open>validateAC\<close> answers for absent parameters from the required fields alone, so the rule of
  the WASM type is skipped: the validator of publishing refuses an empty map and accepts none.
\<close>

lemma wasm_without_params:
  "ValidateActionConfig (zero_def\<lparr>JobType := ''WASM''\<rparr>) = None"
  "ValidateActionConfig (zero_def\<lparr>JobType := ''WASM'', Params := Some []\<rparr>) = Some WasmSourceMissing"
  by code_simp+

end
