(* ===== verification/WhatIf.thy ===== *)
theory WhatIf
  imports Clock Resources "HOL-Library.Product_Lexorder" "HOL-Library.AList"
begin

text \<open>
  The simulations of a day: \<open>scheduler/forecast.go\<close> and \<open>scheduler/whatif.go\<close>.  Both visit a Go map,
  whose order is not fixed: the order is an argument.  Instants are nanoseconds; the zero time of Go,
  the first of January of year 1, is an instant like any other here because the code compares with it.
\<close>

section \<open>Instants and durations\<close>

definition zero_instant :: int where
  "zero_instant = - 62135596800000000000"

definition instant :: "int option \<Rightarrow> int" where
  "instant t = (case t of None \<Rightarrow> zero_instant | Some n \<Rightarrow> n)"

abbreviation millisecond :: int where "millisecond \<equiv> 1000000"
abbreviation minute :: int where "minute \<equiv> 60000000000"

text \<open>\<open>t.Sub(u).Milliseconds()\<close>: the difference saturates and the division truncates.\<close>

definition sub_ms :: "int \<Rightarrow> int \<Rightarrow> int" where
  "sub_ms t u =
     (let d = max min_int64 (min max_int64 (t - u)) in
      if d < 0 then - (- d div millisecond) else d div millisecond)"

section \<open>Topological waves\<close>

text \<open>
  \<open>assign\<close> of \<open>Forecast\<close> and \<open>assignWave\<close> of \<open>WhatIf\<close>: \<open>vis\<close> holds the ids being visited, \<open>ws\<close> the waves
  already known.
\<close>

type_synonym waves = "(string \<times> int) list"

function assign :: "(string \<times> JobDefinition) list \<Rightarrow> string list \<Rightarrow> string \<Rightarrow> waves \<Rightarrow> int \<times> waves"
  and assign_deps :: "(string \<times> JobDefinition) list \<Rightarrow> string list \<Rightarrow> Upstream list \<Rightarrow> int \<Rightarrow> waves \<Rightarrow> int \<times> waves" where
  "assign es vis k ws =
     (case map_of ws k of
        Some w \<Rightarrow> (w, ws)
      | None \<Rightarrow>
          if k \<in> set vis then (0, (k, 0) # ws)
          else (case map_of es k of
                  None \<Rightarrow> (0, (k, 0) # ws)
                | Some d \<Rightarrow> (let (w, ws1) = assign_deps es (k # vis) (UpstreamOf d) 0 ws in (w, (k, w) # ws1))))"
| "assign_deps es vis [] m ws = (m, ws)"
| "assign_deps es vis (u # us) m ws =
     (let (w, ws1) = assign es vis (From u) ws in assign_deps es vis us (max m (w + 1)) ws1)"
  by pat_completeness auto

definition open_ids :: "(string \<times> 'a) list \<Rightarrow> string list \<Rightarrow> nat" where
  "open_ids es vis = card (fst ` set es - set vis)"

lemma open_ids_less: "k \<notin> set vis \<Longrightarrow> map_of es k = Some d \<Longrightarrow> open_ids es (k # vis) < open_ids es vis"
proof -
  assume k: "k \<notin> set vis" "map_of es k = Some d"
  hence "k \<in> fst ` set es" by (force dest: map_of_SomeD)
  with k(1) have "fst ` set es - set (k # vis) \<subset> fst ` set es - set vis" by auto
  thus ?thesis unfolding open_ids_def by (intro psubset_card_mono) auto
qed

termination assign
  by (relation "measures [\<lambda>x. case x of Inl (es, vis, k, ws) \<Rightarrow> open_ids es vis
                                      | Inr (es, vis, us, m, ws) \<Rightarrow> open_ids es vis,
                          \<lambda>x. case x of Inl _ \<Rightarrow> 0 | Inr (es, vis, us, m, ws) \<Rightarrow> length us + 1]")
    (auto simp: open_ids_less)

declare assign.simps [simp del]

definition assign_all :: "(string \<times> JobDefinition) list \<Rightarrow> string list \<Rightarrow> waves" where
  "assign_all es order = fold (\<lambda>k ws. snd (assign es [] k ws)) order []"

section \<open>Forecast\<close>

record ForecastJob =
  FjDefID :: string
  FjLabel :: string
  FjTeam :: string
  FjStart :: int
  FjEnd :: int
  FjEligible :: bool
  FjReason :: string
  FjWave :: int
  FjWouldBreach :: bool

record ForecastReport =
  FrBusinessTime :: BizCalendar
  FrOrderDate :: string
  FrJobs :: "ForecastJob list"
  FrResources :: "(string \<times> int) list"

definition scheduleReason :: "JobDefinition \<Rightarrow> date \<Rightarrow> string" where
  "scheduleReason d date =
     (let s = ScheduleOf d in
      if MonthsOfYear s \<noteq> [] \<and> \<not> containsInt (MonthsOfYear s) (dmonth date) then ''month outside monthsOfYear''
      else if Frequency s = ''weekly'' then
        (if DaysOfWeek s = [] then ''weekly without daysOfWeek (incomplete schedule)''
         else ''weekday outside daysOfWeek'')
      else if Frequency s = ''monthly'' then
        (if DaysOfMonth s = [] then ''monthly without daysOfMonth (incomplete schedule)''
         else ''day-of-month outside daysOfMonth'')
      else if Frequency s = ''businessday'' then ''not the configured Nth business day''
      else if Frequency s = ''advanced'' then
        ''does not match the advanced rule '' @ CHR 0x27 # AdvancedRule s @ [CHR 0x27]
      else ''calendar/shift excludes this date'')"

text \<open>A date that does not parse is the zero time, the first of January of year 1.\<close>

definition parsed_date :: "string \<Rightarrow> date" where
  "parsed_date s = (case ParseDate s of Some d \<Rightarrow> d | None \<Rightarrow> \<lparr>dyear = 1, dmonth = 1, dday = 1\<rparr>)"

record entry =
  EnDef :: JobDefinition
  EnEligible :: bool
  EnReason :: string

definition forecast_entry :: "calLookup \<Rightarrow> date \<Rightarrow> JobDefinition \<Rightarrow> entry" where
  "forecast_entry store od d =
     (if \<not> Enabled (ScheduleOf d) then \<lparr>EnDef = d, EnEligible = False, EnReason = ''schedule.enabled=false''\<rparr>
      else if \<not> IsScheduledOn d od store then \<lparr>EnDef = d, EnEligible = False, EnReason = scheduleReason d od\<rparr>
      else \<lparr>EnDef = d, EnEligible = True, EnReason = []\<rparr>)"

text \<open>A Go map filled in a loop: the last write to a key stays.\<close>

definition go_map :: "(string \<times> 'a) list \<Rightarrow> (string \<times> 'a) list" where
  "go_map kvs = map (\<lambda>k. (k, the (map_of (rev kvs) k))) (remdups (map fst kvs))"

definition entries :: "calLookup \<Rightarrow> date \<Rightarrow> JobDefinition list \<Rightarrow> (string \<times> entry) list" where
  "entries store od defs = go_map (map (\<lambda>d. (ID d, forecast_entry store od d)) defs)"

definition expected_min :: "JobDefinition \<Rightarrow> int" where
  "expected_min d =
     (case SLA d of Some s \<Rightarrow> if 0 < ExpectedDurationMin s then ExpectedDurationMin s else 5 | None \<Rightarrow> 5)"

definition sla_deadline :: "JobDefinition \<Rightarrow> string option" where
  "sla_deadline d =
     (case SLA d of Some s \<Rightarrow> if DeadlineHM s = [] then None else Some (DeadlineHM s) | None \<Rightarrow> None)"

definition forecast_job ::
  "(string \<Rightarrow> zone option) \<Rightarrow> BizCalendar \<Rightarrow> string \<Rightarrow> waves \<Rightarrow> string \<times> entry \<Rightarrow> ForecastJob" where
  "forecast_job loc cal date ws = (\<lambda>(k, e).
     let d = freezeTime (EnDef e) cal;
         dur = expected_min d;
         w = the (map_of ws k);
         at = instant (computeScheduledAt loc d date);
         wave_start = instant (Start loc cal date) + i64 (i64 (w * dur) * minute);
         start = (if at < wave_start then wave_start else at);
         closed = (case orderWindowEnd loc d date of None \<Rightarrow> False | Some e \<Rightarrow> e < start);
         finish = start + i64 (dur * minute)
     in \<lparr>FjDefID = k, FjLabel = Label d, FjTeam = Team d, FjStart = start, FjEnd = finish,
         FjEligible = EnEligible e \<and> \<not> closed,
         FjReason = (if closed then ''execution window closed'' else EnReason e), FjWave = w,
         FjWouldBreach =
           (case sla_deadline d of None \<Rightarrow> False | Some hm \<Rightarrow> instant (At loc cal date hm) < finish)\<rparr>)"

definition add_usage :: "(string \<times> int) list \<Rightarrow> (string \<times> int) list \<Rightarrow> (string \<times> int) list" where
  "add_usage rs m =
     fold (\<lambda>(r, q) m. AList.update r (i64 ((case map_of m r of None \<Rightarrow> 0 | Some x \<Rightarrow> x) + q)) m) rs m"

definition wave_usage :: "(string \<times> entry) list \<Rightarrow> ForecastJob list \<Rightarrow> int \<Rightarrow> (string \<times> int) list" where
  "wave_usage es jobs w =
     fold (\<lambda>j m. add_usage (ResourcesOf (EnDef (the (map_of es (FjDefID j))))) m)
       (filter (\<lambda>j. FjEligible j \<and> FjWave j = w) jobs) []"

definition peak_usage :: "(string \<times> entry) list \<Rightarrow> ForecastJob list \<Rightarrow> (string \<times> int) list" where
  "peak_usage es jobs =
     fold (\<lambda>w peak. fold (\<lambda>(r, q) p. if (case map_of p r of None \<Rightarrow> 0 | Some x \<Rightarrow> x) < q then AList.update r q p else p)
             (wave_usage es jobs w) peak)
       (remdups (map FjWave (filter FjEligible jobs))) []"

definition Forecast ::
  "(string \<Rightarrow> zone option) \<Rightarrow> BizCalendar \<Rightarrow> calLookup \<Rightarrow> JobDefinition list \<Rightarrow> string \<Rightarrow> string list \<Rightarrow> ForecastReport" where
  "Forecast loc cal store defs date order =
     (let es = entries store (parsed_date date) defs;
          ws = assign_all (map (\<lambda>(k, e). (k, EnDef e)) es) order;
          jobs = sort_key (\<lambda>j. (FjWave j, FjDefID j)) (map (forecast_job loc cal date ws) es)
      in \<lparr>FrBusinessTime = cal, FrOrderDate = date, FrJobs = jobs, FrResources = peak_usage es jobs\<rparr>)"

definition ForecastRange ::
  "(string \<Rightarrow> zone option) \<Rightarrow> BizCalendar \<Rightarrow> calLookup \<Rightarrow> JobDefinition list \<Rightarrow> string \<Rightarrow> int \<Rightarrow> string list \<Rightarrow> ForecastReport list" where
  "ForecastRange loc cal store defs from days order =
     (case ParseDate from of
        None \<Rightarrow> []
      | Some d \<Rightarrow>
          map (\<lambda>i. Forecast loc cal store defs (FormatDate (AddDate (int i) d)) order)
            [0 ..< nat (min 366 (max 1 days))])"

section \<open>What-if\<close>

record WhatIfChange =
  ChDefID :: string
  ChDelayMin :: int
  ChDurationMs :: int
  ChFail :: bool
  ChSkip :: bool

record projJob =
  PjRuns :: bool
  PjStart :: int
  PjEnd :: int
  PjStatus :: string

record WhatIfRow =
  WrDefID :: string
  WrLabel :: string
  WrTeam :: string
  WrWave :: int
  WrBaseRuns :: bool
  WrBase :: "(int \<times> int) option"
  WrScenRuns :: bool
  WrScen :: "(int \<times> int) option"
  WrScenStatus :: string
  WrDeltaMs :: int
  WrState :: string
  WrBreachBase :: bool
  WrBreachScen :: bool
  WrImpacted :: bool
  WrInjected :: bool

record WhatIfSummary =
  WsTotal :: int
  WsImpacted :: int
  WsBlocked :: int
  WsNewBreaches :: int
  WsMakespanBase :: int
  WsMakespanScen :: int

record WhatIfReport =
  WiBusinessTime :: BizCalendar
  WiOrderDate :: string
  WiRows :: "WhatIfRow list"
  WiSummary :: WhatIfSummary

text \<open>The variables the closures of \<open>WhatIf\<close> share: \<open>byID\<close>, \<open>durations\<close>, \<open>chg\<close>, the calendar and the date.\<close>

record whatif_env =
  WeLoc :: "string \<Rightarrow> zone option"
  WeCal :: BizCalendar
  WeDate :: string
  WeByID :: "(string \<times> JobDefinition) list"
  WeDurations :: "string \<Rightarrow> int option"
  WeChg :: "string \<Rightarrow> WhatIfChange option"

definition durOf :: "whatif_env \<Rightarrow> JobDefinition \<Rightarrow> int" where
  "durOf e d =
     (case WeDurations e (ID d) of
        Some ms \<Rightarrow> if 0 < ms then i64 (ms * millisecond) else i64 (expected_min d * minute)
      | None \<Rightarrow> i64 (expected_min d * minute))"

definition no_run :: projJob where
  "no_run = \<lparr>PjRuns = False, PjStart = zero_instant, PjEnd = zero_instant, PjStatus = []\<rparr>"

definition edge_satisfied :: "Upstream \<Rightarrow> projJob \<Rightarrow> bool" where
  "edge_satisfied u p \<longleftrightarrow>
     PjRuns p \<and>
     (if Condition u = CondOnSuccess \<or> Condition u = [] then PjStatus p = status_string StatusOK
      else if Condition u = CondOnFailure then PjStatus p = status_string StatusNotOK
      else Condition u = CondOnComplete \<or> Condition u = CondAlways)"

definition within_window :: "int option \<Rightarrow> int \<Rightarrow> int \<Rightarrow> string \<Rightarrow> projJob" where
  "within_window closing start dur st =
     (if (case closing of None \<Rightarrow> False | Some w \<Rightarrow> w < start) then no_run
      else \<lparr>PjRuns = True, PjStart = start, PjEnd = start + dur, PjStatus = st\<rparr>)"

text \<open>What a job does once its edges are satisfied and the last of its upstream jobs ends at \<open>depEnd\<close>.\<close>

definition timed :: "whatif_env \<Rightarrow> bool \<Rightarrow> string \<Rightarrow> JobDefinition \<Rightarrow> int \<Rightarrow> projJob" where
  "timed e scenario k d depEnd =
     (let hm = (if RunAt (ScheduleOf d) = [] then WindowFrom (ScheduleOf d) else RunAt (ScheduleOf d));
          anchor = (case At (WeLoc e) (WeCal e) (WeDate e) hm of
                      Some t \<Rightarrow> t | None \<Rightarrow> instant (Start (WeLoc e) (WeCal e) (WeDate e)));
          ready = (if anchor < depEnd then depEnd else anchor);
          c = (if scenario then WeChg e k else None);
          start = (case c of
                     Some x \<Rightarrow> if 0 < ChDelayMin x then ready + i64 (ChDelayMin x * minute) else ready
                   | None \<Rightarrow> ready);
          dur = (case c of
                   Some x \<Rightarrow> if 0 < ChDurationMs x then i64 (ChDurationMs x * millisecond) else durOf e d
                 | None \<Rightarrow> durOf e d);
          st = (case c of
                  Some x \<Rightarrow> if ChFail x then StatusNotOK else StatusOK
                | None \<Rightarrow> StatusOK)
      in within_window (WindowEnd (WeLoc e) (WeCal e) (WeDate e) (WindowFrom (ScheduleOf d)) (WindowTo (ScheduleOf d)))
           start dur (status_string st))"

definition skipped :: "whatif_env \<Rightarrow> bool \<Rightarrow> string \<Rightarrow> bool" where
  "skipped e scenario k \<longleftrightarrow> scenario \<and> (case WeChg e k of Some c \<Rightarrow> ChSkip c | None \<Rightarrow> False)"

type_synonym projection = "(string \<times> projJob) list"

function visit :: "whatif_env \<Rightarrow> bool \<Rightarrow> string list \<Rightarrow> string \<Rightarrow> projection \<Rightarrow> projJob \<times> projection"
  and visit_deps ::
    "whatif_env \<Rightarrow> bool \<Rightarrow> string list \<Rightarrow> Upstream list \<Rightarrow> int \<Rightarrow> projection \<Rightarrow> int option \<times> projection" where
  "visit e sc vis k out =
     (case map_of out k of
        Some p \<Rightarrow> (p, out)
      | None \<Rightarrow>
          if k \<in> set vis then (no_run, (k, no_run) # out)
          else (case map_of (WeByID e) k of
                  None \<Rightarrow> (no_run, (k, no_run) # out)
                | Some d \<Rightarrow>
                    if skipped e sc k then (no_run, (k, no_run) # out)
                    else (let (ready, out1) = visit_deps e sc (k # vis) (UpstreamOf d) zero_instant out;
                              p = (case ready of None \<Rightarrow> no_run | Some t \<Rightarrow> timed e sc k d t)
                          in (p, (k, p) # out1))))"
| "visit_deps e sc vis [] t out = (Some t, out)"
| "visit_deps e sc vis (u # us) t out =
     (let (p, out1) = visit e sc vis (From u) out in
      if edge_satisfied u p then visit_deps e sc vis us (max t (PjEnd p)) out1 else (None, out1))"
  by pat_completeness auto

termination visit
  by (relation "measures [\<lambda>x. case x of Inl (e, sc, vis, k, out) \<Rightarrow> open_ids (WeByID e) vis
                                      | Inr (e, sc, vis, us, t, out) \<Rightarrow> open_ids (WeByID e) vis,
                          \<lambda>x. case x of Inl _ \<Rightarrow> 0 | Inr (e, sc, vis, us, t, out) \<Rightarrow> length us + 1]")
    (auto simp: open_ids_less)

declare visit.simps [simp del]

definition project :: "whatif_env \<Rightarrow> bool \<Rightarrow> string list \<Rightarrow> projection" where
  "project e sc order = fold (\<lambda>k out. snd (visit e sc [] k out)) order []"

definition slaBreach :: "whatif_env \<Rightarrow> JobDefinition \<Rightarrow> projJob \<Rightarrow> bool" where
  "slaBreach e d p \<longleftrightarrow>
     PjRuns p \<and>
     (case sla_deadline d of
        None \<Rightarrow> False
      | Some hm \<Rightarrow> instant (At (WeLoc e) (WeCal e) (WeDate e) hm) < PjEnd p)"

definition row_state :: "WhatIfChange option \<Rightarrow> projJob \<Rightarrow> projJob \<Rightarrow> string \<times> int" where
  "row_state c b s =
     (let delta = sub_ms (PjEnd s) (PjEnd b) in
      if PjRuns b \<and> \<not> PjRuns s then
        (if (case c of Some x \<Rightarrow> ChSkip x | None \<Rightarrow> False) then ''skipped'' else ''blocked'', 0)
      else if \<not> PjRuns b \<and> PjRuns s then (''starts-running'', 0)
      else if \<not> PjRuns b \<and> \<not> PjRuns s then (''not-run'', 0)
      else if PjStatus s = status_string StatusNotOK then (''fails'', delta)
      else (if 0 < delta then ''delayed'' else if delta < 0 then ''earlier'' else ''unchanged'', delta))"

definition whatif_row ::
  "whatif_env \<Rightarrow> projection \<Rightarrow> projection \<Rightarrow> waves \<Rightarrow> string \<times> JobDefinition \<Rightarrow> WhatIfRow" where
  "whatif_row e base scen ws = (\<lambda>(k, d).
     let b = the (map_of base k); s = the (map_of scen k);
         (st, delta) = row_state (WeChg e k) b s
     in \<lparr>WrDefID = k, WrLabel = Label d, WrTeam = Team d, WrWave = the (map_of ws k),
         WrBaseRuns = PjRuns b, WrBase = (if PjRuns b then Some (PjStart b, PjEnd b) else None),
         WrScenRuns = PjRuns s, WrScen = (if PjRuns s then Some (PjStart s, PjEnd s) else None),
         WrScenStatus = (if PjRuns s then PjStatus s else []), WrDeltaMs = delta, WrState = st,
         WrBreachBase = slaBreach e d b, WrBreachScen = slaBreach e d s,
         WrImpacted = (st \<noteq> ''unchanged'' \<and> st \<noteq> ''not-run''), WrInjected = (WeChg e k \<noteq> None)\<rparr>)"

definition count_rows :: "(WhatIfRow \<Rightarrow> bool) \<Rightarrow> WhatIfRow list \<Rightarrow> int" where
  "count_rows f rows = int (length (filter f rows))"

definition makespan :: "int \<Rightarrow> (int \<times> int) option list \<Rightarrow> int" where
  "makespan t0 spans =
     fold (\<lambda>x m. case x of None \<Rightarrow> m | Some (a, b) \<Rightarrow> (if m < sub_ms b t0 then sub_ms b t0 else m)) spans 0"

definition whatif_env_of ::
  "(string \<Rightarrow> zone option) \<Rightarrow> BizCalendar \<Rightarrow> calLookup \<Rightarrow> JobDefinition list \<Rightarrow> string \<Rightarrow>
   (string \<Rightarrow> int option) \<Rightarrow> WhatIfChange list \<Rightarrow> whatif_env" where
  "whatif_env_of loc cal store defs date durations changes =
     (let byID = go_map (map (\<lambda>d. (ID d, d))
                  (filter (\<lambda>d. Enabled (ScheduleOf d) \<and> IsScheduledOn d (parsed_date date) store) defs))
      in \<lparr>WeLoc = loc, WeCal = cal, WeDate = date, WeByID = byID, WeDurations = durations,
          WeChg = map_of (rev (map (\<lambda>c. (ChDefID c, c)) (filter (\<lambda>c. map_of byID (ChDefID c) \<noteq> None) changes)))\<rparr>)"

text \<open>
  The orders of the four loops over \<open>byID\<close>: two projections and the rows, whose waves are assigned as
  the loop goes.
\<close>

definition WhatIf :: "whatif_env \<Rightarrow> string list \<Rightarrow> string list \<Rightarrow> string list \<Rightarrow> WhatIfReport" where
  "WhatIf e order_base order_scen order_rows =
     (let base = project e False order_base;
          scen = project e True order_scen;
          ws = assign_all (WeByID e) order_rows;
          rows = map (whatif_row e base scen ws) (WeByID e);
          t0 = instant (Start (WeLoc e) (WeCal e) (WeDate e))
      in \<lparr>WiBusinessTime = WeCal e, WiOrderDate = WeDate e,
          WiRows = sort_key (\<lambda>r. (\<not> WrImpacted r, - WrDeltaMs r, WrWave r, WrDefID r)) rows,
          WiSummary =
            \<lparr>WsTotal = int (length rows), WsImpacted = count_rows WrImpacted rows,
             WsBlocked = count_rows (\<lambda>r. WrState r = ''blocked'') rows,
             WsNewBreaches = count_rows (\<lambda>r. WrBreachScen r \<and> \<not> WrBreachBase r) rows,
             WsMakespanBase = makespan t0 (map WrBase rows),
             WsMakespanScen = makespan t0 (map WrScen rows)\<rparr>\<rparr>)"

end
