(* ===== verification/WhatIfCorrect.thy ===== *)
theory WhatIfCorrect
  imports WhatIf
begin

text \<open>
  What the memoised searches of the simulations compute.  \<open>runs_as\<close> and \<open>depth\<close> say it without a search:
  by the rules for one job over the jobs upstream.  The searches agree with them from every order of
  visits, although they write provisional answers when they meet a cycle.
\<close>

section \<open>Cycles\<close>

definition dep :: "(string \<times> JobDefinition) list \<Rightarrow> (string \<times> string) set" where
  "dep es = {(k, From u) | k u d. map_of es k = Some d \<and> u \<in> set (UpstreamOf d)}"

lemma depI: "map_of es k = Some d \<Longrightarrow> u \<in> set (UpstreamOf d) \<Longrightarrow> (k, From u) \<in> dep es"
  by (auto simp: dep_def)

inductive grounded :: "(string \<times> JobDefinition) list \<Rightarrow> string \<Rightarrow> bool" for es where
  grounded: "(\<And>j. (k, j) \<in> dep es \<Longrightarrow> grounded es j) \<Longrightarrow> grounded es k"

lemma grounded_acyclic: "grounded es k \<Longrightarrow> (k, k) \<notin> (dep es)\<^sup>+"
proof (induction rule: grounded.induct)
  case (grounded k)
  show ?case
  proof
    assume "(k, k) \<in> (dep es)\<^sup>+"
    then obtain j where j: "(k, j) \<in> dep es" "(j, k) \<in> (dep es)\<^sup>*" by (meson tranclD)
    hence "(j, j) \<in> (dep es)\<^sup>+" by (meson rtrancl_into_trancl1)
    thus False using grounded.IH j(1) by blast
  qed
qed

text \<open>The ids being visited: each of them depends on the id at hand.\<close>

definition above :: "(string \<times> JobDefinition) list \<Rightarrow> string list \<Rightarrow> string \<Rightarrow> bool" where
  "above es vis k \<longleftrightarrow> (\<forall>v\<in>set vis. (v, k) \<in> (dep es)\<^sup>+)"

lemma above_Nil [simp]: "above es [] k"
  by (simp add: above_def)

lemma above_step: "above es vis k \<Longrightarrow> (k, j) \<in> dep es \<Longrightarrow> above es (k # vis) j"
  by (auto simp: above_def)

lemma above_cycle: "above es vis k \<Longrightarrow> k \<in> set vis \<Longrightarrow> \<not> grounded es k"
  using grounded_acyclic by (auto simp: above_def)

text \<open>A loop that visits a list and forgets nothing.\<close>

lemma fold_visits:
  assumes "\<And>k s. ok s \<Longrightarrow> ok (f k s) \<and> has k (f k s)" "\<And>j k s. has j s \<Longrightarrow> has j (f k s)" "ok s"
  shows "ok (fold f ks s) \<and> (\<forall>j\<in>set ks. has j (fold f ks s))"
proof -
  have keep: "has j s \<Longrightarrow> has j (fold f ks s)" for j s ks
    using assms(2) by (induction ks arbitrary: s) auto
  show ?thesis using assms(3) by (induction ks arbitrary: s) (auto simp: assms(1) keep)
qed

section \<open>Waves\<close>

inductive depth :: "(string \<times> JobDefinition) list \<Rightarrow> string \<Rightarrow> int \<Rightarrow> bool" for es where
  depth_root: "map_of es k = None \<Longrightarrow> depth es k 0"
| depth_above: "map_of es k = Some d \<Longrightarrow> (\<And>u. u \<in> set (UpstreamOf d) \<Longrightarrow> depth es (From u) (f (From u))) \<Longrightarrow>
    n = Max (insert 0 ((\<lambda>u. f (From u) + 1) ` set (UpstreamOf d))) \<Longrightarrow> depth es k n"

lemma depth_grounded: "depth es k n \<Longrightarrow> grounded es k"
proof (induction rule: depth.induct)
  case (depth_root k)
  show ?case by (rule grounded.intros) (use depth_root in \<open>simp add: dep_def\<close>)
next
  case (depth_above k d f n)
  show ?case by (rule grounded.intros) (use depth_above in \<open>auto simp: dep_def\<close>)
qed

lemma depth_unique: "depth es k n \<Longrightarrow> depth es k m \<Longrightarrow> m = n"
proof (induction arbitrary: m rule: depth.induct)
  case (depth_root k)
  from this(2,1) show ?case by cases auto
next
  case (depth_above k d f n)
  from depth_above.prems depth_above.hyps(1) obtain g where
    g: "\<And>u. u \<in> set (UpstreamOf d) \<Longrightarrow> depth es (From u) (g (From u))"
    "m = Max (insert 0 ((\<lambda>u. g (From u) + 1) ` set (UpstreamOf d)))" by cases auto
  have "(\<lambda>u. g (From u) + 1) ` set (UpstreamOf d) = (\<lambda>u. f (From u) + 1) ` set (UpstreamOf d)"
    using depth_above.IH g(1) by (intro image_cong) auto
  thus ?case using g(2) depth_above.hyps by simp
qed

definition waves_right :: "(string \<times> JobDefinition) list \<Rightarrow> waves \<Rightarrow> bool" where
  "waves_right es ws \<longleftrightarrow> (\<forall>k w n. map_of ws k = Some w \<longrightarrow> depth es k n \<longrightarrow> w = n)"

lemma depth_deps:
  assumes "depth es k n" "map_of es k = Some d"
  obtains f where "\<And>u. u \<in> set (UpstreamOf d) \<Longrightarrow> depth es (From u) (f (From u))"
    "n = Max (insert 0 ((\<lambda>u. f (From u) + 1) ` set (UpstreamOf d)))"
  using assms by cases auto

lemma Max_step:
  assumes "0 \<le> (m :: int)" "finite A"
  shows "max (max m a) (Max (insert 0 A)) = max m (Max (insert 0 (insert a A)))"
proof -
  have "Max (insert 0 (insert a A)) = max a (Max (insert 0 A))"
    using assms(2) by (subst insert_commute) simp
  thus ?thesis by (simp add: max.assoc)
qed

lemma Max_fold: "finite A \<Longrightarrow> Max (insert (max t a) A) = Max (insert t (insert (a :: int) A))"
  by (cases "A = {}") (simp_all add: max.assoc)

lemma waves_right_add: "waves_right es ws \<Longrightarrow> (\<And>n. depth es k n \<Longrightarrow> w = n) \<Longrightarrow> waves_right es ((k, w) # ws)"
  by (auto simp: waves_right_def)

definition wave_result :: "(string \<times> JobDefinition) list \<Rightarrow> string \<Rightarrow> int \<times> waves \<Rightarrow> bool" where
  "wave_result es k = (\<lambda>(w, ws). waves_right es ws \<and> map_of ws k \<noteq> None \<and> (\<forall>n. depth es k n \<longrightarrow> w = n))"

definition waves_result :: "(string \<times> JobDefinition) list \<Rightarrow> Upstream list \<Rightarrow> int \<Rightarrow> int \<times> waves \<Rightarrow> bool" where
  "waves_result es us m = (\<lambda>(w, ws). waves_right es ws \<and>
     (\<forall>f. (\<forall>u\<in>set us. depth es (From u) (f (From u))) \<longrightarrow> 0 \<le> m \<longrightarrow>
        w = max m (Max (insert 0 ((\<lambda>u. f (From u) + 1) ` set us)))))"

lemma assign_right:
  "above es vis k \<Longrightarrow> waves_right es ws \<Longrightarrow> wave_result es k (assign es vis k ws)"
  "(\<And>u. u \<in> set us \<Longrightarrow> above es vis (From u)) \<Longrightarrow> waves_right es ws \<Longrightarrow>
   waves_result es us m (assign_deps es vis us m ws)"
proof (induction es vis k ws and es vis us m ws rule: assign_assign_deps.induct)
  case (1 es vis k ws)
  note IH = "1.IH" and ab = "1.prems"(1) and ok = "1.prems"(2)
  consider (known) w where "map_of ws k = Some w" | (cycle) "map_of ws k = None" "k \<in> set vis"
    | (outside) "map_of ws k = None" "k \<notin> set vis" "map_of es k = None"
    | (job) d where "map_of ws k = None" "k \<notin> set vis" "map_of es k = Some d"
    by (cases "map_of ws k"; cases "k \<in> set vis"; cases "map_of es k") auto
  then show ?case
  proof cases
    case known
    thus ?thesis using ok by (auto simp: assign.simps [of es vis k ws] wave_result_def waves_right_def)
  next
    case cycle
    hence "\<not> depth es k n" for n using above_cycle [OF ab] depth_grounded by blast
    thus ?thesis using cycle ok by (auto simp: assign.simps [of es vis k ws] wave_result_def intro!: waves_right_add)
  next
    case outside
    hence "n = 0" if "depth es k n" for n using that by (auto elim: depth.cases)
    thus ?thesis
      using outside ok by (auto simp: assign.simps [of es vis k ws] wave_result_def intro!: waves_right_add)
  next
    case job
    have ab': "above es (k # vis) (From u)" if "u \<in> set (UpstreamOf d)" for u
      using above_step [OF ab depI [OF job(3) that]] .
    obtain w ws1 where r: "assign_deps es (k # vis) (UpstreamOf d) 0 ws = (w, ws1)" by fastforce
    have res: "waves_result es (UpstreamOf d) 0 (w, ws1)" using IH [OF job] ab' ok r by simp
    have w: "w = n" if "depth es k n" for n
      using depth_deps [OF that job(3)] res by (force simp: waves_result_def max_def)
    thus ?thesis
      using job r res by (auto simp: assign.simps [of es vis k ws] wave_result_def waves_result_def intro: waves_right_add)
  qed
next
  case (2 es vis m ws)
  thus ?case by (simp add: waves_result_def)
next
  case (3 es vis u us m ws)
  obtain w ws1 where r: "assign es vis (From u) ws = (w, ws1)" by fastforce
  obtain w2 ws2 where r2: "assign_deps es vis us (max m (w + 1)) ws1 = (w2, ws2)" by fastforce
  have a: "wave_result es (From u) (w, ws1)" using 3 r by simp
  have b: "waves_result es us (max m (w + 1)) (w2, ws2)"
    using "3.IH"(2) [OF r [symmetric] refl] "3.prems" a r2 by (simp add: wave_result_def)
  have "w2 = max m (Max (insert 0 ((\<lambda>u. f (From u) + 1) ` set (u # us))))"
    if f: "\<forall>v\<in>set (u # us). depth es (From v) (f (From v))" and m: "0 \<le> m" for f
  proof -
    have "w = f (From u)" using a f by (simp add: wave_result_def)
    moreover have "w2 = max (max m (w + 1)) (Max (insert 0 ((\<lambda>u. f (From u) + 1) ` set us)))"
      using b f m by (simp add: waves_result_def)
    ultimately show ?thesis using Max_step [OF m, of "(\<lambda>u. f (From u) + 1) ` set us" "w + 1"] by simp
  qed
  thus ?case using b r r2 by (simp add: waves_result_def)
qed

lemma assign_keeps:
  "map_of ws j \<noteq> None \<Longrightarrow> map_of (snd (assign es vis k ws)) j \<noteq> None"
  "map_of ws j \<noteq> None \<Longrightarrow> map_of (snd (assign_deps es vis us m ws)) j \<noteq> None"
proof (induction es vis k ws and es vis us m ws rule: assign_assign_deps.induct)
  case (1 es vis k ws)
  thus ?case by (auto simp: assign.simps [of es vis k ws] split: option.split prod.split)
qed (auto split: prod.split)

lemma assign_all_right:
  assumes "k \<in> set order" "depth es k n"
  shows "map_of (assign_all es order) k = Some n"
proof -
  let ?ok = "waves_right es" and ?has = "\<lambda>j (ws :: waves). map_of ws j \<noteq> None"
  have "?ok (fold (\<lambda>k ws. snd (assign es [] k ws)) order []) \<and>
      (\<forall>j\<in>set order. ?has j (fold (\<lambda>k ws. snd (assign es [] k ws)) order []))"
  proof (rule fold_visits)
    show "?ok (snd (assign es [] k ws)) \<and> ?has k (snd (assign es [] k ws))" if "?ok ws" for k ws
      using assign_right(1) [OF above_Nil that, of k] by (simp add: wave_result_def split_beta)
  qed (simp_all add: assign_keeps(1) waves_right_def)
  thus ?thesis using assms by (force simp: assign_all_def waves_right_def)
qed

section \<open>Projections\<close>

text \<open>
  A job runs when every edge is satisfied by a job that runs, with its own times after the last end.
\<close>

inductive runs_as :: "whatif_env \<Rightarrow> bool \<Rightarrow> string \<Rightarrow> projJob \<Rightarrow> bool" for e sc where
  runs: "map_of (WeByID e) k = Some d \<Longrightarrow> \<not> skipped e sc k \<Longrightarrow>
    (\<And>u. u \<in> set (UpstreamOf d) \<Longrightarrow> runs_as e sc (From u) (f (From u)) \<and> edge_satisfied u (f (From u))) \<Longrightarrow>
    p = timed e sc k d (Max (insert zero_instant ((\<lambda>u. PjEnd (f (From u))) ` set (UpstreamOf d)))) \<Longrightarrow>
    PjRuns p \<Longrightarrow> runs_as e sc k p"

lemma runs_grounded: "runs_as e sc k p \<Longrightarrow> grounded (WeByID e) k"
proof (induction rule: runs_as.induct)
  case (runs k d f p)
  show ?case by (rule grounded.intros) (use runs in \<open>auto simp: dep_def\<close>)
qed

lemma runs_deps:
  assumes "runs_as e sc k p" "map_of (WeByID e) k = Some d"
  obtains f where "\<And>u. u \<in> set (UpstreamOf d) \<Longrightarrow> runs_as e sc (From u) (f (From u)) \<and> edge_satisfied u (f (From u))"
    "p = timed e sc k d (Max (insert zero_instant ((\<lambda>u. PjEnd (f (From u))) ` set (UpstreamOf d))))"
    "PjRuns p" "\<not> skipped e sc k"
  using assms by cases auto

lemma runs_unique: "runs_as e sc k p \<Longrightarrow> runs_as e sc k q \<Longrightarrow> q = p"
proof (induction arbitrary: q rule: runs_as.induct)
  case (runs k d f p)
  from runs_deps [OF runs.prems runs.hyps(1)] obtain g where
    g: "\<And>u. u \<in> set (UpstreamOf d) \<Longrightarrow> runs_as e sc (From u) (g (From u)) \<and> edge_satisfied u (g (From u))"
    "q = timed e sc k d (Max (insert zero_instant ((\<lambda>u. PjEnd (g (From u))) ` set (UpstreamOf d))))" by metis
  have "(\<lambda>u. PjEnd (g (From u))) ` set (UpstreamOf d) = (\<lambda>u. PjEnd (f (From u))) ` set (UpstreamOf d)"
    using runs.IH g(1) by (intro image_cong refl) metis
  thus ?case using g(2) runs.hyps by simp
qed

definition answer :: "whatif_env \<Rightarrow> bool \<Rightarrow> string \<Rightarrow> projJob \<Rightarrow> bool" where
  "answer e sc k p \<longleftrightarrow> runs_as e sc k p \<or> p = no_run \<and> (\<nexists>q. runs_as e sc k q)"

lemma answer_runs: "answer e sc k p \<Longrightarrow> PjRuns p \<longleftrightarrow> runs_as e sc k p"
  by (auto simp: answer_def no_run_def elim: runs_as.cases)

lemma answer_unique: "answer e sc k p \<Longrightarrow> answer e sc k q \<Longrightarrow> p = q"
  by (auto simp: answer_def dest: runs_unique)

definition proj_right :: "whatif_env \<Rightarrow> bool \<Rightarrow> projection \<Rightarrow> bool" where
  "proj_right e sc out \<longleftrightarrow> (\<forall>k p. map_of out k = Some p \<longrightarrow> answer e sc k p)"

definition visit_result :: "whatif_env \<Rightarrow> bool \<Rightarrow> string \<Rightarrow> projJob \<times> projection \<Rightarrow> bool" where
  "visit_result e sc k = (\<lambda>(p, out). proj_right e sc out \<and> map_of out k \<noteq> None \<and> answer e sc k p)"

definition deps_result :: "whatif_env \<Rightarrow> bool \<Rightarrow> Upstream list \<Rightarrow> int \<Rightarrow> int option \<times> projection \<Rightarrow> bool" where
  "deps_result e sc us t = (\<lambda>(r, out). proj_right e sc out \<and>
     (case r of
        None \<Rightarrow> \<not> (\<exists>f. \<forall>u\<in>set us. runs_as e sc (From u) (f (From u)) \<and> edge_satisfied u (f (From u)))
      | Some x \<Rightarrow> \<exists>f. (\<forall>u\<in>set us. runs_as e sc (From u) (f (From u)) \<and> edge_satisfied u (f (From u))) \<and>
          x = Max (insert t ((\<lambda>u. PjEnd (f (From u))) ` set us))))"

lemma proj_right_add: "proj_right e sc out \<Longrightarrow> answer e sc k p \<Longrightarrow> proj_right e sc ((k, p) # out)"
  by (auto simp: proj_right_def)

lemma window_no_run: "\<not> PjRuns (within_window w a dur st) \<Longrightarrow> within_window w a dur st = no_run"
  by (auto simp: within_window_def)

lemma window_status: "PjRuns (within_window w a dur st) \<Longrightarrow> PjStatus (within_window w a dur st) = st"
  by (auto simp: within_window_def no_run_def)

lemma timed_no_run: "\<not> PjRuns (timed e sc k d t) \<Longrightarrow> timed e sc k d t = no_run"
  unfolding timed_def Let_def by (rule window_no_run)

lemma job_answer:
  assumes d: "map_of (WeByID e) k = Some d" "\<not> skipped e sc k"
    and r: "deps_result e sc (UpstreamOf d) zero_instant (r, out)"
  shows "answer e sc k (case r of None \<Rightarrow> no_run | Some t \<Rightarrow> timed e sc k d t)"
proof (cases r)
  case None
  have "\<not> runs_as e sc k q" for q
    using r None by (auto simp: deps_result_def elim!: runs_deps [OF _ d(1)])
  thus ?thesis using None by (simp add: answer_def)
next
  case (Some x)
  then obtain f where f: "\<forall>u\<in>set (UpstreamOf d). runs_as e sc (From u) (f (From u)) \<and> edge_satisfied u (f (From u))"
    "x = Max (insert zero_instant ((\<lambda>u. PjEnd (f (From u))) ` set (UpstreamOf d)))"
    using r by (auto simp: deps_result_def)
  show ?thesis
  proof (cases "PjRuns (timed e sc k d x)")
    case True
    hence "runs_as e sc k (timed e sc k d x)" using f by (intro runs [OF d, of f]) auto
    thus ?thesis using Some by (simp add: answer_def)
  next
    case False
    have "\<not> runs_as e sc k q" for q
    proof
      assume q: "runs_as e sc k q"
      from runs_deps [OF q d(1)] obtain g where
        g: "\<And>u. u \<in> set (UpstreamOf d) \<Longrightarrow> runs_as e sc (From u) (g (From u))"
        "q = timed e sc k d (Max (insert zero_instant ((\<lambda>u. PjEnd (g (From u))) ` set (UpstreamOf d))))" "PjRuns q"
        by metis
      have "(\<lambda>u. PjEnd (g (From u))) ` set (UpstreamOf d) = (\<lambda>u. PjEnd (f (From u))) ` set (UpstreamOf d)"
        using f(1) g(1) by (intro image_cong refl) (metis runs_unique)
      thus False using g False f(2) by simp
    qed
    thus ?thesis using Some False by (simp add: answer_def timed_no_run)
  qed
qed

lemma visit_right:
  "above (WeByID e) vis k \<Longrightarrow> proj_right e sc out \<Longrightarrow> visit_result e sc k (visit e sc vis k out)"
  "(\<And>u. u \<in> set us \<Longrightarrow> above (WeByID e) vis (From u)) \<Longrightarrow> proj_right e sc out \<Longrightarrow>
   deps_result e sc us t (visit_deps e sc vis us t out)"
proof (induction e sc vis k out and e sc vis us t out rule: visit_visit_deps.induct)
  case (1 e sc vis k out)
  note IH = "1.IH" and ab = "1.prems"(1) and ok = "1.prems"(2)
  have stop: "visit_result e sc k (no_run, (k, no_run) # out)" if "\<And>q. \<not> runs_as e sc k q"
    using that ok by (auto simp: visit_result_def answer_def intro!: proj_right_add)
  consider (known) p where "map_of out k = Some p" | (cycle) "map_of out k = None" "k \<in> set vis"
    | (outside) "map_of out k = None" "k \<notin> set vis" "map_of (WeByID e) k = None"
    | (skip) d where "map_of out k = None" "k \<notin> set vis" "map_of (WeByID e) k = Some d" "skipped e sc k"
    | (job) d where "map_of out k = None" "k \<notin> set vis" "map_of (WeByID e) k = Some d" "\<not> skipped e sc k"
    by (cases "map_of out k"; cases "k \<in> set vis"; cases "map_of (WeByID e) k") auto
  then show ?case
  proof cases
    case known
    thus ?thesis using ok by (simp add: visit.simps [of e sc vis k out] visit_result_def proj_right_def)
  next
    case cycle
    hence "\<not> runs_as e sc k q" for q using above_cycle [OF ab] runs_grounded by blast
    thus ?thesis using cycle stop by (simp add: visit.simps [of e sc vis k out])
  next
    case outside
    hence "\<not> runs_as e sc k q" for q by (auto elim: runs_as.cases)
    thus ?thesis using outside stop by (simp add: visit.simps [of e sc vis k out])
  next
    case skip
    hence "\<not> runs_as e sc k q" for q by (auto elim: runs_as.cases)
    thus ?thesis using skip stop by (simp add: visit.simps [of e sc vis k out])
  next
    case job
    have ab': "above (WeByID e) (k # vis) (From u)" if "u \<in> set (UpstreamOf d)" for u
      using above_step [OF ab depI [OF job(3) that]] .
    obtain r out1 where r: "visit_deps e sc (k # vis) (UpstreamOf d) zero_instant out = (r, out1)" by fastforce
    have res: "deps_result e sc (UpstreamOf d) zero_instant (r, out1)" using IH [OF job] ab' ok r by simp
    have "answer e sc k (case r of None \<Rightarrow> no_run | Some t \<Rightarrow> timed e sc k d t)"
      by (rule job_answer [OF job(3,4) res])
    moreover have "proj_right e sc out1" using res by (simp add: deps_result_def)
    ultimately show ?thesis
      using job r by (simp add: visit.simps [of e sc vis k out] visit_result_def proj_right_add Let_def)
  qed
next
  case (2 e sc vis t out)
  thus ?case by (simp add: deps_result_def)
next
  case (3 e sc vis u us t out)
  obtain p out1 where r: "visit e sc vis (From u) out = (p, out1)" by fastforce
  have a: "visit_result e sc (From u) (p, out1)" using 3 r by simp
  show ?case
  proof (cases "edge_satisfied u p")
    case False
    have "\<not> (runs_as e sc (From u) q \<and> edge_satisfied u q)" for q
      using a False by (auto simp: visit_result_def answer_def dest: runs_unique)
    thus ?thesis using False a r by (auto simp: deps_result_def visit_result_def)
  next
    case True
    hence run: "runs_as e sc (From u) p"
      using a by (auto simp: visit_result_def answer_def edge_satisfied_def no_run_def)
    obtain x out2 where r2: "visit_deps e sc vis us (max t (PjEnd p)) out1 = (x, out2)" by fastforce
    have b: "deps_result e sc us (max t (PjEnd p)) (x, out2)"
      using "3.IH"(2) [OF r [symmetric] refl True] "3.prems" a r2 by (simp add: visit_result_def)
    have "deps_result e sc (u # us) t (x, out2)"
    proof (cases x)
      case None
      thus ?thesis using b by (auto simp: deps_result_def)
    next
      case (Some y)
      then obtain f where f: "\<forall>v\<in>set us. runs_as e sc (From v) (f (From v)) \<and> edge_satisfied v (f (From v))"
        "y = Max (insert (max t (PjEnd p)) ((\<lambda>v. PjEnd (f (From v))) ` set us))"
        using b by (auto simp: deps_result_def)
      let ?f = "f(From u := p)"
      have same: "?f (From v) = f (From v)" if "v \<in> set us" for v
        using f(1) that run runs_unique by (metis fun_upd_apply)
      have "(\<lambda>v. PjEnd (?f (From v))) ` set us = (\<lambda>v. PjEnd (f (From v))) ` set us"
        using same by (intro image_cong refl) simp
      hence "y = Max (insert t ((\<lambda>v. PjEnd (?f (From v))) ` set (u # us)))"
        using f(2) Max_fold [of "(\<lambda>v. PjEnd (f (From v))) ` set us" t "PjEnd p"] by simp
      moreover have "\<forall>v\<in>set (u # us). runs_as e sc (From v) (?f (From v)) \<and> edge_satisfied v (?f (From v))"
        using f(1) run True same by auto
      ultimately have "\<exists>g. (\<forall>v\<in>set (u # us). runs_as e sc (From v) (g (From v)) \<and> edge_satisfied v (g (From v))) \<and>
          y = Max (insert t ((\<lambda>v. PjEnd (g (From v))) ` set (u # us)))" by blast
      thus ?thesis using Some b unfolding deps_result_def by simp
    qed
    thus ?thesis using True r r2 by simp
  qed
qed

lemma visit_keeps:
  "map_of out j \<noteq> None \<Longrightarrow> map_of (snd (visit e sc vis k out)) j \<noteq> None"
  "map_of out j \<noteq> None \<Longrightarrow> map_of (snd (visit_deps e sc vis us t out)) j \<noteq> None"
proof (induction e sc vis k out and e sc vis us t out rule: visit_visit_deps.induct)
  case (1 e sc vis k out)
  thus ?case by (auto simp: visit.simps [of e sc vis k out] Let_def split: option.split prod.split)
qed (auto split: prod.split)

lemma project_answer:
  assumes "k \<in> set order"
  obtains p where "map_of (project e sc order) k = Some p" "answer e sc k p"
proof -
  let ?ok = "proj_right e sc" and ?has = "\<lambda>j (out :: projection). map_of out j \<noteq> None"
  have "?ok (fold (\<lambda>k out. snd (visit e sc [] k out)) order []) \<and>
      (\<forall>j\<in>set order. ?has j (fold (\<lambda>k out. snd (visit e sc [] k out)) order []))"
  proof (rule fold_visits)
    show "?ok (snd (visit e sc [] k out)) \<and> ?has k (snd (visit e sc [] k out))" if "?ok out" for k out
      using visit_right(1) [OF above_Nil that, of k] by (simp add: visit_result_def split_beta)
  qed (simp_all add: visit_keeps(1) proj_right_def)
  thus ?thesis using assms that by (force simp: project_def proj_right_def)
qed

section \<open>Jobs the scenario does not touch\<close>

lemma timed_change_free: "WeChg e k = None \<Longrightarrow> timed e sc k d t = timed e sc' k d t"
  by (simp add: timed_def)

lemma skipped_change_free: "WeChg e k = None \<Longrightarrow> \<not> skipped e sc k"
  by (simp add: skipped_def)

lemma runs_change_free:
  assumes "runs_as e sc k p" "\<And>j. (k, j) \<in> (dep (WeByID e))\<^sup>* \<Longrightarrow> WeChg e j = None"
  shows "runs_as e sc' k p"
  using assms
proof (induction rule: runs_as.induct)
  case (runs k d f p)
  have "runs_as e sc' (From u) (f (From u)) \<and> edge_satisfied u (f (From u))" if u: "u \<in> set (UpstreamOf d)" for u
  proof -
    have "WeChg e j = None" if "(From u, j) \<in> (dep (WeByID e))\<^sup>*" for j
      using runs.prems depI [OF runs.hyps(1) u] that by (meson converse_rtrancl_into_rtrancl)
    thus ?thesis using runs.IH u by blast
  qed
  moreover have "WeChg e k = None" using runs.prems by simp
  ultimately show ?case
    using runs.hyps timed_change_free [of e k sc d _ sc'] skipped_change_free [of e k sc']
    by (intro runs_as.intros [of _ _ d _ f]) auto
qed

lemma answer_change_free:
  assumes "answer e False k b" "answer e True k s" "\<And>j. (k, j) \<in> (dep (WeByID e))\<^sup>* \<Longrightarrow> WeChg e j = None"
  shows "s = b"
proof -
  have "runs_as e False k q \<longleftrightarrow> runs_as e True k q" for q using runs_change_free assms(3) by blast
  hence "answer e False k s" using assms(2) by (simp add: answer_def)
  thus ?thesis using assms(1) by (rule answer_unique [symmetric, rotated])
qed

lemma timed_status: "WeChg e k = None \<Longrightarrow> PjRuns (timed e sc k d t) \<Longrightarrow> PjStatus (timed e sc k d t) = ''OK''"
  unfolding timed_def Let_def by (subst window_status) simp_all

lemma sub_ms_same: "sub_ms t t = 0"
  by (simp add: sub_ms_def min_int64_def max_int64_def)

lemma row_state_same:
  "(PjRuns b \<Longrightarrow> PjStatus b = ''OK'') \<Longrightarrow> row_state c b b = (if PjRuns b then ''unchanged'' else ''not-run'', 0)"
  by (simp add: row_state_def sub_ms_same Let_def)

lemma go_map_lookup: "(k, x) \<in> set (go_map kvs) \<Longrightarrow> map_of (go_map kvs) k = Some x"
  by (simp add: go_map_def comp_def map_of_eq_Some_iff)

lemma whatif_rows: "set (WiRows (WhatIf e ob os orr)) =
   whatif_row e (project e False ob) (project e True os) (assign_all (WeByID e) orr) ` set (WeByID e)"
  by (simp add: WhatIf_def Let_def)

lemma row_id: "WrDefID (whatif_row e base scen ws (k, d)) = k"
  by (simp add: whatif_row_def Let_def split_beta)

definition plain_job :: "string \<Rightarrow> Upstream list \<Rightarrow> JobDefinition" where
  "plain_job k us = zero_def\<lparr>ID := k, Label := k, Team := ''ops'', UpstreamOf := us,
     ScheduleOf := zero_schedule\<lparr>Enabled := True\<rparr>\<rparr>"

definition after_ok :: "string \<Rightarrow> Upstream" where
  "after_ok k = \<lparr>From = k, Condition = CondOnSuccess, DateRefOf = []\<rparr>"

definition demo_plan :: "JobDefinition list" where
  "demo_plan = [plain_job ''load'' [], plain_job ''report'' [after_ok ''load''], plain_job ''backup'' []]"

definition demo_change :: WhatIfChange where
  "demo_change = \<lparr>ChDefID = ''load'', ChDelayMin = 0, ChDurationMs = 0, ChFail = True, ChSkip = False\<rparr>"

definition demo_day :: whatif_env where
  "demo_day = whatif_env_of (\<lambda>_. Some utc_zone) DefaultCalendar (\<lambda>_. None) demo_plan ''2026-07-15''
     (\<lambda>_. None) [demo_change]"

lemma demo_ids: "map fst (WeByID demo_day) = [''load'', ''report'', ''backup'']"
  by code_simp

lemma demo_change_of: "map (map_option ChDefID \<circ> WeChg demo_day) [''load'', ''report'', ''backup''] = [Some ''load'', None, None]"
  by code_simp

lemma whatif_env_distinct: "distinct (map fst (WeByID (whatif_env_of loc cal store defs date dur changes)))"
  by (simp add: whatif_env_of_def go_map_def comp_def Let_def)

lemma row_of_job:
  assumes "r \<in> set (WiRows (WhatIf e ob os orr))" "distinct (map fst (WeByID e))"
    "fst ` set (WeByID e) \<subseteq> set ob" "fst ` set (WeByID e) \<subseteq> set os"
  obtains k d b s where "r = whatif_row e (project e False ob) (project e True os) (assign_all (WeByID e) orr) (k, d)"
    "map_of (WeByID e) k = Some d" "map_of (project e False ob) k = Some b" "answer e False k b"
    "map_of (project e True os) k = Some s" "answer e True k s"
proof -
  from assms(1) obtain k d where kd: "(k, d) \<in> set (WeByID e)"
    "r = whatif_row e (project e False ob) (project e True os) (assign_all (WeByID e) orr) (k, d)"
    by (auto simp: whatif_rows)
  have "k \<in> set ob" "k \<in> set os" using kd(1) assms(3,4) by force+
  moreover have "map_of (WeByID e) k = Some d" using kd(1) assms(2) by simp
  ultimately show ?thesis using that kd(2) project_answer by metis
qed

section \<open>Properties\<close>

text \<open>
  C18. The search of what-if is exact: from whatever order the jobs are visited, a job has the same
  projection, and it runs, with its start, end and status, exactly when that follows from the rules by
  which its upstream jobs run: every edge satisfied, the start at the last of its own anchor and their
  ends, inside its window, and no cycle above it.
\<close>

theorem projection_is_exact:
  assumes "k \<in> set order" "k \<in> set order'"
  shows "map_of (project e sc order) k = map_of (project e sc order') k \<and>
         (\<forall>p. (map_of (project e sc order) k = Some p \<and> PjRuns p) = runs_as e sc k p)"
proof -
  obtain p where p: "map_of (project e sc order) k = Some p" "answer e sc k p"
    using project_answer [OF assms(1)] .
  obtain q where q: "map_of (project e sc order') k = Some q" "answer e sc k q"
    using project_answer [OF assms(2)] .
  have "(p = r \<and> PjRuns p) = runs_as e sc k r" for r
    using answer_runs [OF p(2)] p(2) by (auto simp: answer_def dest: runs_unique)
  moreover have "p = q" using answer_unique [OF p(2) q(2)] .
  ultimately show ?thesis using p q by (metis option.inject)
qed

theorem projection_is_exact_witness:
  "\<not> (\<exists>p. runs_as demo_day True ''report'' p) \<and> (\<exists>p. runs_as demo_day False ''report'' p)"
proof -
  let ?order = "[''load'', ''report'', ''backup'']"
  have scen: "map_of (project demo_day True ?order) ''report'' = Some no_run" by code_simp
  have base: "map_option PjRuns (map_of (project demo_day False ?order) ''report'') = Some True" by code_simp
  have k: "''report'' \<in> set ?order" by simp
  have "(Some no_run = Some p \<and> PjRuns p) = runs_as demo_day True ''report'' p" for p
    using projection_is_exact [OF k k, of demo_day True] unfolding scen by blast
  hence "\<not> runs_as demo_day True ''report'' p" for p by (metis no_run_def option.inject projJob.select_convs(1))
  moreover obtain p where "map_of (project demo_day False ?order) ''report'' = Some p" "PjRuns p"
    using base by auto
  ultimately show ?thesis using projection_is_exact [OF k k, of demo_day False] by blast
qed

text \<open>
  C19. What-if reports no impact on a job that the scenario cannot reach: when neither the job nor any
  job it depends on, directly or through others, is changed, its row has the same times and the same
  verdict on its deadline in both projections, a delay of zero and no mark of impact.
\<close>

theorem untouched_jobs_keep_their_row:
  assumes "e = whatif_env_of loc cal store defs date durations changes"
    "fst ` set (WeByID e) \<subseteq> set ob" "fst ` set (WeByID e) \<subseteq> set os"
    "r \<in> set (WiRows (WhatIf e ob os orr))"
    "\<And>j. (WrDefID r, j) \<in> (dep (WeByID e))\<^sup>* \<Longrightarrow> WeChg e j = None"
  shows "\<not> WrImpacted r \<and> WrDeltaMs r = 0 \<and> WrBase r = WrScen r \<and> WrBreachScen r = WrBreachBase r"
proof -
  have "distinct (map fst (WeByID e))" by (simp add: assms(1) whatif_env_distinct)
  from row_of_job [OF assms(4) this assms(2,3)] obtain k d b s where
    row: "r = whatif_row e (project e False ob) (project e True os) (assign_all (WeByID e) orr) (k, d)"
      "map_of (WeByID e) k = Some d" "map_of (project e False ob) k = Some b"
      "map_of (project e True os) k = Some s"
    and ans: "answer e False k b" "answer e True k s" .
  have free: "WeChg e j = None" if "(k, j) \<in> (dep (WeByID e))\<^sup>*" for j
    using assms(5) that by (simp add: row(1) whatif_row_def Let_def split_beta)
  have s: "s = b" using answer_change_free [OF ans free] .
  have "PjStatus b = ''OK''" if "PjRuns b"
  proof -
    have "runs_as e False k b" using answer_runs [OF ans(1)] that by simp
    then obtain t where "b = timed e False k d t" by (rule runs_deps [OF _ row(2)])
    thus ?thesis using timed_status free that by blast
  qed
  from row_state_same [of b "WeChg e k", OF this] show ?thesis
    by (simp add: row s whatif_row_def Let_def split_beta)
qed

theorem untouched_jobs_keep_their_row_witness:
  "\<exists>r. r \<in> set (WiRows (WhatIf demo_day [''load'', ''report'', ''backup''] [''load'', ''report'', ''backup''] [])) \<and>
     WrDefID r = ''backup'' \<and> \<not> WrImpacted r"
proof -
  let ?o = "[''load'', ''report'', ''backup'']"
  let ?rows = "WiRows (WhatIf demo_day ?o ?o [])"
  have ids: "fst ` set (WeByID demo_day) = set ?o" using demo_ids by (metis set_map)
  have deps: "map_option UpstreamOf (map_of (WeByID demo_day) ''backup'') = Some []" by code_simp
  have "''backup'' \<in> fst ` set (WeByID demo_day)" unfolding ids by simp
  then obtain d where d: "(''backup'', d) \<in> set (WeByID demo_day)" unfolding image_iff by (metis prod.collapse)
  let ?row = "whatif_row demo_day (project demo_day False ?o) (project demo_day True ?o) (assign_all (WeByID demo_day) []) (''backup'', d)"
  obtain r where r: "r \<in> set ?rows" "WrDefID r = ''backup''"
  proof (rule that)
    show "?row \<in> set ?rows" unfolding whatif_rows using d by (rule imageI)
    show "WrDefID ?row = ''backup''" by (rule row_id)
  qed
  have none: "(''backup'', j) \<notin> dep (WeByID demo_day)" for j using deps by (auto simp: dep_def)
  have sub: "fst ` set (WeByID demo_day) \<subseteq> set ?o" using ids by (rule equalityD1)
  have free: "WeChg demo_day j = None" if "(WrDefID r, j) \<in> (dep (WeByID demo_day))\<^sup>*" for j
  proof -
    have "j = ''backup''" using that none r(2) by (auto elim: converse_rtranclE)
    thus ?thesis using demo_change_of by simp
  qed
  have "\<not> WrImpacted r"
    by (rule untouched_jobs_keep_their_row [OF demo_day_def sub sub r(1) free, THEN conjunct1])
  thus ?thesis using r by (intro exI [of _ r]) simp
qed

section \<open>Observations\<close>

text \<open>
  The forecast places a job at the wave number times its own duration, so a short job after a long one
  starts before the other ends; and in a cycle the waves, and the start with them, depend on the order in
  which the map is visited.
\<close>

definition long_then_short :: "JobDefinition list" where
  "long_then_short =
     [(plain_job ''load'' [])\<lparr>SLA := Some \<lparr>ExpectedDurationMin = 60, DeadlineHM = [], SLASeverity = [], WebhookURL = []\<rparr>\<rparr>,
      plain_job ''report'' [after_ok ''load'']]"

lemma forecast_overlaps_upstream:
  "map (\<lambda>j. (FjDefID j, FjStart j div minute - 29734560, FjEnd j div minute - 29734560))
     (FrJobs (Forecast (\<lambda>_. Some utc_zone) DefaultCalendar (\<lambda>_. None) long_then_short ''2026-07-15'' [''load'', ''report'']))
   = [(''load'', 0, 60), (''report'', 5, 10)]"
  by code_simp

lemma forecast_depends_on_map_order:
  "map FjWave (FrJobs (Forecast (\<lambda>_. Some utc_zone) DefaultCalendar (\<lambda>_. None)
     [plain_job ''a'' [after_ok ''b''], plain_job ''b'' [after_ok ''a''], plain_job ''c'' [after_ok ''a'']]
     ''2026-07-15'' [''a'', ''b'', ''c''])) = [1, 2, 3] \<and>
   map FjWave (FrJobs (Forecast (\<lambda>_. Some utc_zone) DefaultCalendar (\<lambda>_. None)
     [plain_job ''a'' [after_ok ''b''], plain_job ''b'' [after_ok ''a''], plain_job ''c'' [after_ok ''a'']]
     ''2026-07-15'' [''b'', ''a'', ''c''])) = [1, 2, 2]"
  by code_simp

text \<open>
  An unreadable deadline is the zero time for \<open>slaBreach\<close>, so every job that runs breaches it; the
  checks of the scheduler ignore such a deadline.
\<close>

lemma unreadable_deadline_always_breached:
  assumes "PjRuns p" "sla_deadline d = Some hm" "ParseHM hm = None" "zero_instant < PjEnd p"
  shows "slaBreach e d p"
  using assms by (simp add: slaBreach_def At_def instant_def)

text \<open>The duration of a change is multiplied in 64 bits: a large one ends the job before it starts.\<close>

lemma long_duration_wraps: "i64 (9223372036855 * millisecond) < 0"
  by (simp add: i64_def)

end
