(* ===== verification/Spec2Isabelle.thy ===== *)
theory Spec2Isabelle
  imports ConditionsCorrect ResourcesCorrect SchedulerCorrect DailyCorrect ExecutionCorrect AgentCorrect
    LeaderCorrect VariablesCorrect QuickAction AlertingCorrect DurableCorrect ImpactCorrect
    AuditCorrect TypeCorrect WhatIfCorrect
begin

text \<open>
  A verification library for Regente, a job orchestrator written in Go (\<open>src/server\<close> the control
  plane, \<open>src/agent\<close> the process that runs the jobs).

  \<^bold>\<open>The program.\<close>  Job definitions (\<open>internal/domain\<close>) are turned once a day into orders, one per
  definition that the calendars schedule for the business date (\<open>internal/scheduler/daily.go\<close>).  A
  tick (\<open>scheduler.go\<close>) looks at every order of the date and starts those whose gates are open:
  time window, conditions, confirmation, an agent, resource quotas (\<open>explain.go\<close>, \<open>conditions.go\<close>,
  \<open>resources.go\<close>).  Results come back to \<open>FinishInstance\<close>, which retries, cycles, or ends the order,
  produces and consumes conditions and fires the On/Do rules (\<open>actions.go\<close>).  In the durable mode the
  execution itself is a protocol of attempts, an outbox, acknowledgements, leases and results under a
  fence (\<open>internal/execution\<close>), and the scheduler takes part in its transactions through hooks
  (\<open>scheduler/durable*.go\<close>): the status of an order, its resource holds, its rules and the effects it
  has outside move in the commit of the attempt.  The agent keeps a journal of what it accepted, started and finished, and
  a worker brings the two sides together (\<open>src/agent/journal\<close>).

  \<^bold>\<open>Theories and code.\<close>
  \<^item> \<open>Prelude\<close>: the parts of Go's \<open>strings\<close> and \<open>strconv\<close> that are called, and tables as lists of
    rows with \<open>SELECT\<close>, \<open>UPDATE .. WHERE\<close> and \<open>DELETE .. WHERE\<close>; the collection \<open>tbl\<close>.
  \<^item> \<open>DomainModel\<close>: the records and statuses of \<open>domain/model.go\<close>.
  \<^item> \<open>Conditions\<close>, \<open>ConditionsCorrect\<close>: \<open>domain/conditions.go\<close>, names, links between jobs, the
    AND/OR logic of an entry and the normalisation of old definitions.
  \<^item> \<open>Resources\<close>, \<open>ResourcesCorrect\<close>: \<open>scheduler/resources.go\<close>, quotas kept in 64-bit integers
    (\<open>word\<close>), with the interface \<open>quota_manager\<close>.
  \<^item> \<open>Civil\<close>, \<open>Calendars\<close>: dates as civil days, \<open>scheduler/calendars.go\<close>, recurrence and shifts.
  \<^item> \<open>Pool\<close>: \<open>scheduler/conditions.go\<close>, the pool of conditions, with the interface \<open>fact_store\<close>.
  \<^item> \<open>Actions\<close>: \<open>scheduler/actions.go\<close>, the On/Do rules and their ledger, with the interface
    \<open>claim_ledger\<close> (a key is granted at most once).
  \<^item> \<open>Clock\<close>: \<open>businessclock/clock.go\<close> and \<open>business_time.go\<close>, wall times over zone transitions.
  \<^item> \<open>Gate\<close>: \<open>explain.go\<close> and the snapshot checks, the gates of one order.
  \<^item> \<open>Scheduler\<close>, \<open>SchedulerInv\<close>, \<open>SchedulerCorrect\<close>: the engine of \<open>scheduler.go\<close> and \<open>runs.go\<close>
    on the record \<open>World\<close> (instances, runs, events, pool, quotas, the process registry); the step
    relation of its operations and their invariants.
  \<^item> \<open>Daily\<close>, \<open>DailyCorrect\<close>: \<open>daily.go\<close> and the carry-over of \<open>scheduler.go\<close>, transaction by
    transaction, where each may fail.
  \<^item> \<open>Execution\<close>, \<open>Delivery\<close>: \<open>execution/orders.go\<close>, \<open>runtime.go\<close>, \<open>delivery.go\<close>, \<open>results.go\<close>,
    \<open>resolve.go\<close> on the record \<open>store\<close>; \<open>ExecutionInv\<close> its invariant, \<open>ExecutionSteps\<close> the four
    kinds of write every operation reduces to, \<open>ExecutionRuns\<close> the interleavings and
    \<open>ExecutionCorrect\<close> the properties.
  \<^item> \<open>Utf8\<close>: Go's \<open>unicode/utf8\<close> and \<open>strings.ToValidUTF8\<close> on bytes.
  \<^item> \<open>Journal\<close>: \<open>agent/journal/journal.go\<close> on the record \<open>Journal\<close>, two tables; \<open>JournalInv\<close> reduces its
    operations to two kinds of write and interprets \<open>lifecycle\<close> (an acknowledged row stays) and
    \<open>claim_ledger\<close> (\<open>BeginEffect\<close> is granted once).
  \<^item> \<open>Worker\<close>: \<open>agent/journal/worker.go\<close>, a \<open>Sync\<close> as a chain of stages that return or go on;
    \<open>WorkerRuns\<close> its interleavings with running effects, crashes, retention and any server.
  \<^item> \<open>AgentServer\<close>: the worker whose posts are the operations of the execution engine, through the
    handlers of \<open>api/execution_lab.go\<close>; \<open>AgentCorrect\<close> the properties of the agent and of the two together.
  \<^item> \<open>Leader\<close>, \<open>LeaderCorrect\<close>: \<open>leader/leader.go\<close> and \<open>leadership.go\<close>, the election statement by statement
    between any number of nodes, and why the guarded decisions of two leaders never overlap.
  \<^item> \<open>Variables\<close>, \<open>VariablesCorrect\<close>: \<open>scheduler/variables.go\<close>, the substitution in the parameters of a
    dispatch, date arithmetic included, and the \<open>%%SET\<close> directives of an output.
  \<^item> \<open>Alerting\<close>, \<open>AlertingCorrect\<close>: \<open>alerting.go\<close>, \<open>slowalert.go\<close> and \<open>selfmon.go\<close>, the rules, their
    cooldowns, the scan of slow runs, the life of an alert and the self-monitor, with the step relation
    \<open>alert_step\<close>.
  \<^item> \<open>ExecutionHooks\<close>: every operation of the engine as steps of its hook; what a hook may rely on and what
    it has to keep, for any business tables, stated once for any hook (the locale \<open>business\<close>).
  \<^item> \<open>DurableModel\<close>: the business tables \<open>Biz\<close> and the hooks of \<open>durable.go\<close>, \<open>durable_alerts.go\<close> and
    \<open>agent_capacity.go\<close>; \<open>DurableOps\<close>: operator actions, holds, running orders, effects and their
    resolution, the start of an order (\<open>durable_operations.go\<close>, \<open>durable_resources.go\<close>,
    \<open>durable_running.go\<close>, \<open>durable_effects.go\<close>, \<open>durable_effect_resolution.go\<close>).
  \<^item> \<open>DurableInv\<close>: what every write of the hooks and operations does to instances, holds and effects;
    \<open>DurableRuns\<close>: the interleavings of engine, operations and drains (\<open>durable_step\<close>) with the
    invariants of the tables and the books of the effects (claims against decisions); \<open>DurableHolds\<close>:
    the arithmetic of holds; \<open>DurableDemo\<close>: one order evaluated step by step, from its creation through
    a failed attempt to its effects, on which the witnesses rest; \<open>DurableCorrect\<close>: the properties.
  \<^item> \<open>Impact\<close>, \<open>ImpactCorrect\<close>: \<open>blast.go\<close>, \<open>neighborhood.go\<close>, \<open>rca.go\<close>, the questions an operator asks
    about the graph of jobs, with one breadth-first search and the locale \<open>breadth_first\<close> that makes it exact.
  \<^item> \<open>Json\<close>: the part of \<open>encoding/json\<close> that is written, with its inverse on valid strings; \<open>AuditTrail\<close>,
    \<open>AuditExport\<close>: \<open>db/audit.go\<close>, \<open>api/security_audit.go\<close> and \<open>audit/durable.go\<close>, the signed chain of what
    transactions and requests changed and its way to a collector; \<open>AuditChain\<close>: the chain as an invariant of two
    kinds of write; \<open>AuditRuns\<close>: the interleavings with exports that lose messages; \<open>AuditCorrect\<close>: the properties.
  \<^item> \<open>TypeSchema\<close>, \<open>TypeCorrect\<close>: \<open>domain/typeschema.go\<close>, \<open>domain/validate.go\<close>, the registry of job types and the
    validators; the contract of a type stated declaratively, and its preservation by the variables of dispatch.
  \<^item> \<open>WhatIf\<close>, \<open>WhatIfCorrect\<close>: \<open>scheduler/forecast.go\<close>, \<open>scheduler/whatif.go\<close>; their memoised searches agree
    with a relation that has no search, from every order in which Go may visit the map of jobs.
  \<^item> \<open>QuickAction\<close>: \<open>quickaction/quickaction.go\<close>, signed links.
  \<^item> \<open>Lifecycle\<close>: the interface of a store whose rows live through a state machine.

  \<^bold>\<open>How effects are modelled.\<close>  The database is a record of tables, an operation a function on it; an
  error is a value (\<open>Inl\<close> or \<open>None\<close>) and a refused transaction leaves the tables as they were.  A Go
  string is a list of bytes.  Time is an integer read once per call.  What the code takes from outside
  is an argument: the zone database (\<open>loc\<close>), the calendar store, the checksums, identifiers drawn at
  random, the hooks \<open>Transition\<close> and \<open>Prepare\<close>, whether a transaction commits.  Goroutines appear as
  interleavings of steps (\<open>exec_step\<close>, \<open>agent_step\<close>, the step relation of \<open>SchedulerInv\<close>).  What the
  worker sees of the world (answers, losses, writes of the journal that fail) is one value \<open>'n\<close> threaded
  through its calls; \<open>AgRuns\<close> is a log of the effects that were started.

  \<^bold>\<open>Fuel.\<close>  \<open>chunk_loop\<close> of the daily gets one round per definition and two more: every round but the
  last moves the checkpoint, and \<open>daily_resume_completes\<close> proves that the bound is enough.  The search
  loops of the calendars, of the clock and of the business-day tokens carry the bounds the code writes itself; the loops over bytes
  of \<open>Utf8\<close> are functions with a termination proof.

  \<^bold>\<open>Not modelled.\<close>  HTTP handlers, the Git storage, SQL text and its drivers, authentication, secrets,
  telemetry, alert delivery, the command line tools and the executors of the agent are input and output
  around this core; the manifest lists them one by one.  Of the agent, the lock file, the integrity check
  of the database file and the signal that cancels a running executor are not modelled, and \<open>AgentServer\<close>
  composes it with a network that loses nothing (losses are covered by \<open>WorkerRuns\<close>).  In the durable
  mode the tables that other parts write (definitions, settings, alert rules, dailies, clocks, leadership)
  move by the step \<open>elsewhere\<close>, which leaves the rows of the durable mode as they are;
  \<open>rebuildDurableResources\<close>, which runs before admission is open, is not among the steps and has a property of
  its own; averages of durations are exact where the code lets SQL compute them on day numbers.  A restart
  of the process, which forgets the cooldowns of the alerts, is not a step of \<open>alert_step\<close>.
\<close>

end
